(* ===== verification/Prelude.thy ===== *)
theory Prelude
  imports Main "HOL-Library.AList"
begin

text \<open>
  Shared vocabulary of the development: results with errors as values, JSON values and
  Python dictionaries, ASCII string helpers of Python's \<open>str\<close>, rows of a database table
  as a list in creation order, and sums over the rows that satisfy a predicate. The
  lemmas are declared \<open>[simp]\<close> or collected so that the component proofs are short.
\<close>

named_theorems err "inversion of results of the form error + value"
named_theorems rows "facts about tables as lists of rows"

section \<open>Results\<close>

text \<open>
  An operation that may raise returns \<open>'e + 'a\<close>: \<open>Inl\<close> is the exception. The state is
  only returned under \<open>Inr\<close>, so a raised exception is a rolled-back transaction.
\<close>

definition ebind :: "'e + 'a \<Rightarrow> ('a \<Rightarrow> 'e + 'b) \<Rightarrow> 'e + 'b" where
  "ebind m f = (case m of Inl e \<Rightarrow> Inl e | Inr x \<Rightarrow> f x)"

lemma ebind_simps [simp]: "ebind (Inl e) f = Inl e" "ebind (Inr x) f = f x"
  by (simp_all add: ebind_def)

lemma ebind_Inr [err]: "ebind m f = Inr y \<longleftrightarrow> (\<exists>x. m = Inr x \<and> f x = Inr y)"
  by (cases m) simp_all

lemma ebind_Inl: "ebind m f = Inl e \<longleftrightarrow> m = Inl e \<or> (\<exists>x. m = Inr x \<and> f x = Inl e)"
  by (cases m) simp_all

lemma ebind_cong: "m = n \<Longrightarrow> (\<And>x. n = Inr x \<Longrightarrow> f x = g x) \<Longrightarrow> ebind m f = ebind n g"
  by (cases n) simp_all

definition guard_e :: "bool \<Rightarrow> 'e \<Rightarrow> 'e + unit" where
  "guard_e ok e = (if ok then Inr () else Inl e)"

lemma guard_e_Inr [err]: "guard_e ok e = Inr u \<longleftrightarrow> ok"
  by (simp add: guard_e_def)

lemma guard_e_simps [simp]: "guard_e True e = Inr ()" "guard_e False e = Inl e"
  by (simp_all add: guard_e_def)

lemma if_Inl_Inr [err]: "(if c then Inl e else m) = Inr x \<longleftrightarrow> \<not> c \<and> m = Inr x"
  by simp

lemma option_error_Inr [err]:
  "(case m of None \<Rightarrow> Inl e | Some x \<Rightarrow> Inr x) = Inr y \<longleftrightarrow> m = Some y"
  by (cases m) simp_all

lemma ebind_assoc: "ebind (ebind m f) g = ebind m (\<lambda>x. ebind (f x) g)"
  by (cases m) simp_all

text \<open>A loop whose body may raise: the first exception ends it.\<close>

fun emap :: "('a \<Rightarrow> 'e + 'b) \<Rightarrow> 'a list \<Rightarrow> 'e + 'b list" where
  "emap f [] = Inr []"
| "emap f (x # xs) = ebind (f x) (\<lambda>y. map_sum id (Cons y) (emap f xs))"

lemma map_sum_Inr [err]: "map_sum id f m = Inr y \<longleftrightarrow> (\<exists>x. m = Inr x \<and> y = f x)"
  by (cases m) auto

lemma map_sum_Inl: "map_sum id f m = Inl e \<longleftrightarrow> m = Inl e"
  by (cases m) auto

lemma emap_Inr: "emap f xs = Inr ys \<longleftrightarrow> list_all2 (\<lambda>x y. f x = Inr y) xs ys"
  by (induction xs arbitrary: ys) (auto simp: err list_all2_Cons1)

section \<open>JSON values and dictionaries\<close>

datatype json =
    JNull
  | JBool bool
  | JNum int
  | JStr string
  | JList "json list"
  | JObj "(string \<times> json) list"

text \<open>A Python dict keeps insertion order; assignment replaces in place or appends.\<close>

type_synonym dict = "(string \<times> json) list"

abbreviation dget :: "dict \<Rightarrow> string \<Rightarrow> json option" where
  "dget \<equiv> map_of"

abbreviation dset :: "string \<Rightarrow> json \<Rightarrow> dict \<Rightarrow> dict" where
  "dset \<equiv> AList.update"

text \<open>The expression \<open>{**a, **b}\<close>.\<close>

definition dmerge :: "dict \<Rightarrow> dict \<Rightarrow> dict" where
  "dmerge a b = foldl (\<lambda>d (k, v). dset k v d) a b"

lemma dmerge_Nil [simp]: "dmerge a [] = a"
  by (simp add: dmerge_def)

lemma dmerge_Cons [simp]: "dmerge a ((k, v) # b) = dmerge (dset k v a) b"
  by (simp add: dmerge_def)

lemma dget_dset [simp]: "dget (dset k v d) j = (if j = k then Some v else dget d j)"
  by (auto simp: update_conv)

lemma dget_dmerge:
  "distinct (map fst b) \<Longrightarrow> dget (dmerge a b) j = (case dget b j of None \<Rightarrow> dget a j | Some v \<Rightarrow> Some v)"
proof (induction b arbitrary: a)
  case Nil
  then show ?case by simp
next
  case (Cons p b)
  obtain k v where p: "p = (k, v)" by (cases p)
  have "dget b k = None" using Cons.prems p by (simp add: map_of_eq_None_iff)
  then show ?case using Cons p by (auto split: option.splits)
qed

lemma dget_dmerge_other: "j \<notin> fst ` set b \<Longrightarrow> dget (dmerge a b) j = dget a j"
proof (induction b arbitrary: a)
  case Nil
  then show ?case by simp
next
  case (Cons p b)
  then show ?case by (cases p) auto
qed

text \<open>Python's truth value of a JSON value.\<close>

fun truthy :: "json \<Rightarrow> bool" where
  "truthy JNull = False"
| "truthy (JBool b) = b"
| "truthy (JNum n) = (n \<noteq> 0)"
| "truthy (JStr s) = (s \<noteq> [])"
| "truthy (JList xs) = (xs \<noteq> [])"
| "truthy (JObj kvs) = (kvs \<noteq> [])"

section \<open>The acting device\<close>

text \<open>\<open>acting_device.stamp\<close>; \<open>dev\<close> is \<open>current_device_id()\<close>.\<close>

definition device_key :: string where
  "device_key = ''station_device_id''"

definition stamp_device :: "string \<Rightarrow> dict \<Rightarrow> dict" where
  "stamp_device dev payload =
     (let stamped = filter (\<lambda>(k, v). k \<noteq> device_key) payload in
      if dev \<noteq> [] then dset device_key (JStr dev) stamped else stamped)"

section \<open>Strings\<close>

text \<open>
  Strings are ASCII: \<open>str.strip\<close> removes the ASCII white space, \<open>str.lower\<close> and
  \<open>str.upper\<close> change the ASCII letters.
\<close>

definition is_space :: "char \<Rightarrow> bool" where
  "is_space c \<longleftrightarrow> of_char c \<in> ({9, 10, 11, 12, 13, 28, 29, 30, 31, 32} :: nat set)"

definition strip :: "string \<Rightarrow> string" where
  "strip s = rev (dropWhile is_space (rev (dropWhile is_space s)))"

definition lower_char :: "char \<Rightarrow> char" where
  "lower_char c = (let n = (of_char c :: nat) in if 65 \<le> n \<and> n \<le> 90 then char_of (n + 32) else c)"

definition upper_char :: "char \<Rightarrow> char" where
  "upper_char c = (let n = (of_char c :: nat) in if 97 \<le> n \<and> n \<le> 122 then char_of (n - 32) else c)"

definition lower :: "string \<Rightarrow> string" where
  "lower s = map lower_char s"

definition upper :: "string \<Rightarrow> string" where
  "upper s = map upper_char s"

lemma strip_Nil [simp]: "strip [] = []"
  by (simp add: strip_def)

lemma dropWhile_hd_no: "xs = [] \<or> \<not> P (hd xs) \<Longrightarrow> dropWhile P xs = xs"
  by (cases xs) auto

lemma strip_idem [simp]: "strip (strip s) = strip s"
proof -
  let ?a = "dropWhile is_space s"
  let ?b = "rev (dropWhile is_space (rev ?a))"
  have b_pre: "\<exists>zs. ?a = ?b @ zs"
    by (metis rev_append rev_rev_ident takeWhile_dropWhile_id)
  have "?b = [] \<or> \<not> is_space (hd ?b)"
  proof (cases "?b = []")
    case False
    with b_pre obtain zs where a: "?a = ?b @ zs" by blast
    with False have "?a \<noteq> []" by (metis append_is_Nil_conv)
    moreover from a False have "hd ?b = hd ?a" by (metis hd_append)
    ultimately show ?thesis by (metis hd_dropWhile)
  qed simp
  then have "dropWhile is_space ?b = ?b" by (rule dropWhile_hd_no)
  then show ?thesis by (simp add: strip_def)
qed

section \<open>Tables\<close>

text \<open>
  A table is the list of its rows in creation order. \<open>row_get\<close> is a lookup by a unique
  key, \<open>row_put\<close> writes the row with that key back, \<open>latest\<close> is the first row of a query
  set ordered by \<open>-created_at\<close>.
\<close>

definition row_get :: "('r \<Rightarrow> 'k) \<Rightarrow> 'k \<Rightarrow> 'r list \<Rightarrow> 'r option" where
  "row_get key k rs = find (\<lambda>r. key r = k) rs"

definition row_put :: "('r \<Rightarrow> 'k) \<Rightarrow> 'r \<Rightarrow> 'r list \<Rightarrow> 'r list" where
  "row_put key r rs = map (\<lambda>x. if key x = key r then r else x) rs"

definition latest :: "('r \<Rightarrow> bool) \<Rightarrow> 'r list \<Rightarrow> 'r option" where
  "latest P rs = find P (rev rs)"

lemma row_get_simps [simp]:
  "row_get key k [] = None"
  "row_get key k (r # rs) = (if key r = k then Some r else row_get key k rs)"
  by (auto simp: row_get_def)

lemma row_put_simps [simp]:
  "row_put key r [] = []"
  "row_put key r (x # rs) = (if key x = key r then r else x) # row_put key r rs"
  by (auto simp: row_put_def)

lemma row_get_Some_iff:
  "distinct (map key rs) \<Longrightarrow> row_get key k rs = Some r \<longleftrightarrow> r \<in> set rs \<and> key r = k"
  by (induction rs) force+

lemma row_get_SomeD: "row_get key k rs = Some r \<Longrightarrow> r \<in> set rs \<and> key r = k"
  by (induction rs) (auto split: if_splits)

lemma key_mem: "r \<in> set rs \<Longrightarrow> key r = k \<Longrightarrow> k \<in> key ` set rs"
  by (rule rev_image_eqI) auto

lemma row_get_key: "row_get key k rs = Some r \<Longrightarrow> k \<in> key ` set rs"
  by (blast dest: row_get_SomeD intro: key_mem)

lemma row_get_None_iff: "row_get key k rs = None \<longleftrightarrow> k \<notin> key ` set rs"
  by (induction rs) auto

lemma row_get_append: "row_get key k (rs @ qs) = (case row_get key k rs of None \<Rightarrow> row_get key k qs | x \<Rightarrow> x)"
  by (induction rs) auto

lemma map_key_row_put [rows, simp]: "map key (row_put key r rs) = map key rs"
  by (induction rs) auto

lemma length_row_put [rows, simp]: "length (row_put key r rs) = length rs"
  by (simp add: row_put_def)

lemma row_get_put [rows]:
  "row_get key k (row_put key r rs) =
     (if k = key r then map_option (\<lambda>_. r) (row_get key k rs) else row_get key k rs)"
  by (induction rs) auto

lemma set_row_put [rows]:
  "set (row_put key r rs) = {x \<in> set rs. key x \<noteq> key r} \<union> (if key r \<in> key ` set rs then {r} else {})"
  by (induction rs) auto

lemma row_put_ball:
  "P r \<Longrightarrow> (\<forall>x \<in> set rs. P x) \<Longrightarrow> (\<forall>x \<in> set (row_put key r rs). P x)"
  by (induction rs) auto

lemma row_put_absent [rows]: "key r \<notin> key ` set rs \<Longrightarrow> row_put key r rs = rs"
  by (induction rs) auto

lemma row_put_same: "distinct (map key rs) \<Longrightarrow> r \<in> set rs \<Longrightarrow> row_put key r rs = rs"
  by (auto simp: row_put_def distinct_map inj_on_def intro!: map_idI)

lemma row_put_split:
  assumes "distinct (map key rs)" "row_get key k rs = Some r" "key r' = k"
  shows "\<exists>as bs. rs = as @ r # bs \<and> row_put key r' rs = as @ r' # bs
    \<and> k \<notin> key ` set as \<and> k \<notin> key ` set bs"
proof -
  have r: "r \<in> set rs" "key r = k" using row_get_SomeD [OF assms(2)] by auto
  then obtain as bs where rs: "rs = as @ r # bs" by (meson split_list)
  with assms r have "k \<notin> key ` set as" "k \<notin> key ` set bs" by auto
  moreover have "row_put key r' rs = row_put key r' as @ r' # row_put key r' bs"
    using rs r assms(3) by (simp add: row_put_def)
  ultimately show ?thesis using rs assms(3) by (auto simp: row_put_absent)
qed

lemma latest_Some: "latest P rs = Some r \<Longrightarrow> r \<in> set rs \<and> P r"
  by (auto simp: latest_def find_Some_iff) (metis length_rev nth_mem set_rev)

lemma latest_None: "latest P rs = None \<longleftrightarrow> (\<forall>r \<in> set rs. \<not> P r)"
  by (auto simp: latest_def find_None_iff)

lemma latest_Nil [simp]: "latest P [] = None"
  by (simp add: latest_def)

lemma latest_append: "latest P (rs @ [r]) = (if P r then Some r else latest P rs)"
  by (simp add: latest_def)

section \<open>Sums over rows\<close>

text \<open>The aggregate \<open>Sum(field)\<close> of a filtered query set, 0 when it is empty.\<close>

definition sum_where :: "('r \<Rightarrow> bool) \<Rightarrow> ('r \<Rightarrow> 'a::comm_monoid_add) \<Rightarrow> 'r list \<Rightarrow> 'a" where
  "sum_where P f rs = sum_list (map f (filter P rs))"

lemma sum_where_simps [simp]:
  "sum_where P f [] = 0"
  "sum_where P f (r # rs) = (if P r then f r + sum_where P f rs else sum_where P f rs)"
  by (simp_all add: sum_where_def)

lemma sum_where_append [simp]: "sum_where P f (rs @ qs) = sum_where P f rs + sum_where P f qs"
  by (simp add: sum_where_def)

lemma sum_where_nonneg:
  fixes f :: "'r \<Rightarrow> 'a::ordered_comm_monoid_add"
  shows "(\<And>r. r \<in> set rs \<Longrightarrow> P r \<Longrightarrow> 0 \<le> f r) \<Longrightarrow> 0 \<le> sum_where P f rs"
  by (induction rs) auto

lemma sum_where_cong:
  "(\<And>r. r \<in> set rs \<Longrightarrow> P r = Q r) \<Longrightarrow> (\<And>r. r \<in> set rs \<Longrightarrow> Q r \<Longrightarrow> f r = g r) \<Longrightarrow>
     sum_where P f rs = sum_where Q g rs"
  by (induction rs) auto

lemma sum_where_none: "(\<And>r. r \<in> set rs \<Longrightarrow> \<not> P r) \<Longrightarrow> sum_where P f rs = 0"
  by (induction rs) auto

lemma sum_where_split:
  "sum_where P f rs = sum_where (\<lambda>r. P r \<and> Q r) f rs + sum_where (\<lambda>r. P r \<and> \<not> Q r) f rs"
  by (induction rs) (auto simp: ac_simps)

lemma sum_where_mono:
  fixes f :: "'r \<Rightarrow> 'a::ordered_comm_monoid_add"
  shows "(\<And>r. r \<in> set rs \<Longrightarrow> P r \<Longrightarrow> Q r) \<Longrightarrow> (\<And>r. r \<in> set rs \<Longrightarrow> 0 \<le> f r) \<Longrightarrow>
    sum_where P f rs \<le> sum_where Q f rs"
  by (induction rs) (auto intro: add_mono add_increasing)

lemma sum_where_pos_imp:
  fixes f :: "'r \<Rightarrow> int"
  shows "0 < sum_where P f rs \<Longrightarrow> \<exists>r \<in> set rs. P r"
  by (induction rs) (auto split: if_splits)

lemma sum_where_pos:
  fixes f :: "'r \<Rightarrow> int"
  assumes "\<And>r. r \<in> set rs \<Longrightarrow> 0 < f r"
  shows "0 < sum_where P f rs \<longleftrightarrow> (\<exists>r \<in> set rs. P r)"
  using assms by (induction rs) (auto simp: add_pos_nonneg sum_where_nonneg less_imp_le)

lemma sum_where_pos_iff:
  fixes f :: "'r \<Rightarrow> 'a::linordered_idom"
  assumes "\<And>r. r \<in> set rs \<Longrightarrow> P r \<Longrightarrow> 0 < f r"
  shows "0 < sum_where P f rs \<longleftrightarrow> (\<exists>r \<in> set rs. P r)"
  using assms
proof (induction rs)
  case Nil
  then show ?case by simp
next
  case (Cons r rs)
  have "0 \<le> sum_where P f rs" using Cons.prems by (intro sum_where_nonneg) (auto simp: less_imp_le)
  then show ?case using Cons by (auto simp: add_pos_nonneg)
qed

text \<open>Tables whose key numbers the rows.\<close>

lemma ids_distinct: "map f xs = [0..<length xs] \<Longrightarrow> distinct (map f xs)"
  by simp

lemma ids_member: "map f xs = [0..<length xs] \<Longrightarrow> x \<in> set xs \<Longrightarrow> f x < length xs"
  by (metis atLeastLessThan_iff atLeast0LessThan image_eqI lessThan_iff list.set_map set_upt)

lemma ids_row_get:
  assumes "map f xs = [0..<length xs]"
  shows "row_get f k xs = (if k < length xs then Some (xs ! k) else None)"
proof (cases "k < length xs")
  case True
  have "f (xs ! k) = k" using assms True by (metis add.left_neutral nth_map nth_upt)
  then show ?thesis using True assms ids_distinct [OF assms] by (simp add: row_get_Some_iff)
next
  case False
  then show ?thesis using ids_member [OF assms] by (force simp: row_get_None_iff)
qed

lemma ids_append: "map f xs = [0..<length xs] \<Longrightarrow> f x = length xs \<Longrightarrow> map f (xs @ [x]) = [0..<length (xs @ [x])]"
  by simp

lemma ids_key_eq: "map f xs = [0..<length xs] \<Longrightarrow> x \<in> set xs \<Longrightarrow> y \<in> set xs \<Longrightarrow> f x = f y \<Longrightarrow> x = y"
  by (drule ids_distinct) (auto simp: distinct_map inj_on_def)

end
