(* ===== verification/Machines.thy ===== *)
theory Machines
  imports Prelude
begin

text \<open>
  Interfaces that several components share, as locales: a status machine given by a table
  of allowed transitions (payment intents, orders, fulfilments, holds), its extension by a
  rank that every transition raises, and an append-only ledger (payment transactions, cash
  entries, stock moves). Each locale is interpreted on the model's own definitions in the
  theory of the component that provides them.
\<close>

section \<open>Status machines\<close>

locale status_machine =
  fixes allowed :: "'s \<Rightarrow> 's list"
    and terminal :: "'s \<Rightarrow> bool"
  assumes terminal_stuck: "terminal s \<Longrightarrow> allowed s = []"
begin

text \<open>A status history: each status is allowed from the one before it.\<close>

fun history :: "'s \<Rightarrow> 's list \<Rightarrow> bool" where
  "history s [] = True"
| "history s (t # ts) = (t \<in> set (allowed s) \<and> history t ts)"

lemma history_append: "history s (ts @ us) \<longleftrightarrow> history s ts \<and> history (last (s # ts)) us"
  by (induction ts arbitrary: s) auto

lemma terminal_history: "terminal s \<Longrightarrow> history s ts \<Longrightarrow> ts = []"
  using terminal_stuck by (cases ts) auto

lemma terminal_is_last: "history s (ts @ t # us) \<Longrightarrow> terminal t \<Longrightarrow> us = []"
  by (simp add: history_append) (metis terminal_history)

end

locale ranked_machine = status_machine allowed terminal
  for allowed :: "'s \<Rightarrow> 's list" and terminal :: "'s \<Rightarrow> bool" +
  fixes rank :: "'s \<Rightarrow> nat" and top :: nat
  assumes rank_grows: "t \<in> set (allowed s) \<Longrightarrow> rank s < rank t"
    and rank_top: "rank s \<le> top"
begin

lemma history_rank: "history s ts \<Longrightarrow> rank s + length ts \<le> rank (last (s # ts))"
proof (induction ts arbitrary: s)
  case Nil
  then show ?case by simp
next
  case (Cons t ts)
  then have "rank s < rank t" "rank t + length ts \<le> rank (last (t # ts))"
    by (auto dest: rank_grows)
  then show ?case by simp
qed

lemma history_bounded: "history s ts \<Longrightarrow> length ts \<le> top"
  using history_rank [of s ts] rank_top [of "last (s # ts)"] by linarith

lemma history_no_return: "history s ts \<Longrightarrow> s \<notin> set ts"
proof
  assume h: "history s ts" and "s \<in> set ts"
  then obtain as bs where "ts = as @ s # bs" by (meson split_list)
  with h have "history s (as @ [s])" by (simp add: history_append)
  from history_rank [OF this] show False by simp
qed

end

section \<open>Append-only ledgers\<close>

text \<open>
  A component whose steps never rewrite what its ledger already says: every step keeps the
  ledger as a prefix. A step that is not a write may leave it as it is.
\<close>

locale append_ledger =
  fixes entries :: "'s \<Rightarrow> 'e list"
    and step :: "'s \<Rightarrow> 's \<Rightarrow> bool"
  assumes step_appends: "step s t \<Longrightarrow> \<exists>new. entries t = entries s @ new"
begin

lemma run_appends: "step\<^sup>*\<^sup>* s t \<Longrightarrow> \<exists>new. entries t = entries s @ new"
proof (induction rule: rtranclp_induct)
  case base
  show ?case by simp
next
  case (step t u)
  then obtain new where "entries t = entries s @ new" by blast
  moreover obtain more where "entries u = entries t @ more"
    using step_appends step.hyps(2) by blast
  ultimately have "entries u = entries s @ (new @ more)" by simp
  then show ?case by blast
qed

lemma run_keeps_entry: "step\<^sup>*\<^sup>* s t \<Longrightarrow> i < length (entries s) \<Longrightarrow> entries t ! i = entries s ! i"
  by (auto dest!: run_appends simp: nth_append)

lemma run_length: "step\<^sup>*\<^sup>* s t \<Longrightarrow> length (entries s) \<le> length (entries t)"
  by (auto dest!: run_appends)

lemma run_keeps_row: "step\<^sup>*\<^sup>* s t \<Longrightarrow> e \<in> set (entries s) \<Longrightarrow> e \<in> set (entries t)"
  by (auto dest!: run_appends)

end

end
