(* ===== verification/Payman.thy ===== *)
theory Payman
  imports Prelude Machines "HOL-Library.Product_Lexorder"
begin

text \<open>
  The payment kernel (\<open>packages/payman\<close>): the payment intent and its status machine, the
  immutable transactions, and the verbs of \<open>PaymentService\<close> (create, settle, charge to
  account, authorize, capture, refund, cancel, fail, reconcile) with their queries.

  The database is the list of intents and the list of transactions in creation order; an
  intent is known by its unique \<open>ref\<close>, and a transaction names its intent by it. A verb
  runs in one transaction: on an exception (\<open>Inl\<close>) the caller keeps the old state, and the
  signals of \<open>_announce\<close> are appended only under \<open>Inr\<close>, as \<open>on_commit\<close> does. The clock and
  the generated \<open>uuid\<close> are arguments.
\<close>

section \<open>The intent\<close>

datatype pay_status = Pay_Pending | Pay_Authorized | Pay_Captured | Pay_Failed | Pay_Cancelled | Pay_Refunded

text \<open>The column is a string whose choices Django does not enforce on \<open>create\<close>.\<close>

datatype pay_method = Pix | Cash | Card | Credit | Debit | Link | External | Account | Other_method string

fun pay_allowed :: "pay_status \<Rightarrow> pay_status list" where
  "pay_allowed Pay_Pending = [Pay_Authorized, Pay_Failed, Pay_Cancelled]"
| "pay_allowed Pay_Authorized = [Pay_Captured, Pay_Cancelled, Pay_Failed]"
| "pay_allowed Pay_Captured = [Pay_Refunded]"
| "pay_allowed Pay_Failed = []"
| "pay_allowed Pay_Cancelled = []"
| "pay_allowed Pay_Refunded = []"

definition pay_terminal :: "pay_status \<Rightarrow> bool" where
  "pay_terminal s \<longleftrightarrow> s \<in> {Pay_Failed, Pay_Cancelled, Pay_Refunded}"

definition pay_active :: "pay_status \<Rightarrow> bool" where
  "pay_active s \<longleftrightarrow> s \<in> {Pay_Pending, Pay_Authorized}"

definition method_without_gateway :: "pay_method \<Rightarrow> bool" where
  "method_without_gateway m \<longleftrightarrow> m \<in> {Cash, Credit, Debit, External, Account}"

record intent =
  in_ref :: string
  in_order_ref :: string
  in_method :: pay_method
  in_status :: pay_status
  in_amount_q :: int
  in_currency :: string
  in_gateway :: string
  in_gateway_id :: string
  in_gateway_data :: dict
  in_idem :: string
  in_created_at :: int
  in_authorized_at :: "int option"
  in_captured_at :: "int option"
  in_cancelled_at :: "int option"
  in_expires_at :: "int option"
  in_cancel_reason :: string

datatype txn_type = Capture_txn | Refund_txn | Chargeback_txn

record txn =
  tx_intent :: string
  tx_type :: txn_type
  tx_amount_q :: int
  tx_gateway_id :: string
  tx_reason :: string
  tx_idem :: string
  tx_created_at :: int

datatype announcement =
    Payment_authorized string string int pay_method
  | Payment_captured string string int txn
  | Payment_refunded string string int txn
  | Payment_cancelled string string
  | Payment_failed string string string string

record payman =
  intents :: "intent list"
  txns :: "txn list"
  announced :: "announcement list"

definition payman_init :: payman where
  "payman_init = \<lparr>intents = [], txns = [], announced = []\<rparr>"

datatype pay_error =
    Invalid_amount | Idempotency_key_conflict | Account_is_not_settled_at_sale
  | Method_requires_gateway | Customer_required | Invalid_transition | Intent_not_found
  | Intent_expired | Capture_exceeds_authorized | Already_refunded | Amount_exceeds_captured
  | Recon_unknown_status | Recon_invalid_amount | Recon_amount_mismatch
  | Recon_currency_mismatch | Recon_capture_exceeds_amount | Recon_refund_exceeds_capture
  | Recon_chargeback_exceeds_capture | Recon_gateway_id_mismatch | Recon_terminal_drift
  | Recon_capture_drift | Recon_capture_mismatch | Recon_refund_mismatch | Recon_refund_drift
  | Recon_chargeback_mismatch | Recon_chargeback_drift
  | Integrity_error | Broken_transaction

section \<open>Writing rows\<close>

text \<open>
  The database constraints on an intent against the other rows: positive amount, unique
  ref, and unique \<open>(gateway, gateway_id)\<close> and \<open>idempotency_key\<close> where they are not blank.
\<close>

definition intent_constraints :: "intent \<Rightarrow> intent list \<Rightarrow> bool" where
  "intent_constraints i others \<longleftrightarrow>
     0 < in_amount_q i \<and>
     (\<forall>x \<in> set others. in_ref x \<noteq> in_ref i) \<and>
     (in_gateway_id i = [] \<or>
       (\<forall>x \<in> set others. (in_gateway x, in_gateway_id x) \<noteq> (in_gateway i, in_gateway_id i))) \<and>
     (in_idem i = [] \<or> (\<forall>x \<in> set others. in_idem x \<noteq> in_idem i))"

definition insert_intent :: "intent \<Rightarrow> payman \<Rightarrow> pay_error + payman" where
  "insert_intent i st =
     (if intent_constraints i (intents st) then Inr (st\<lparr>intents := intents st @ [i]\<rparr>)
      else Inl Integrity_error)"

definition txn_constraints :: "txn \<Rightarrow> txn list \<Rightarrow> bool" where
  "txn_constraints t others \<longleftrightarrow>
     0 < tx_amount_q t \<and> (tx_idem t = [] \<or> (\<forall>x \<in> set others. tx_idem x \<noteq> tx_idem t))"

definition insert_txn :: "txn \<Rightarrow> payman \<Rightarrow> pay_error + payman" where
  "insert_txn t st =
     (if txn_constraints t (txns st) then Inr (st\<lparr>txns := txns st @ [t]\<rparr>) else Inl Integrity_error)"

definition can_transition_to :: "intent \<Rightarrow> pay_status \<Rightarrow> bool" where
  "can_transition_to i s \<longleftrightarrow> s \<in> set (pay_allowed (in_status i))"

text \<open>The timestamp field of a status, set the first time the status is reached.\<close>

definition stamp_intent :: "int \<Rightarrow> intent \<Rightarrow> intent" where
  "stamp_intent now i =
     (case in_status i of
        Pay_Authorized \<Rightarrow> if in_authorized_at i = None then i\<lparr>in_authorized_at := Some now\<rparr> else i
      | Pay_Captured \<Rightarrow> if in_captured_at i = None then i\<lparr>in_captured_at := Some now\<rparr> else i
      | Pay_Cancelled \<Rightarrow> if in_cancelled_at i = None then i\<lparr>in_cancelled_at := Some now\<rparr> else i
      | _ \<Rightarrow> i)"

text \<open>\<open>PaymentIntent.save\<close> of a stored row; \<open>original\<close> is \<open>_original_status\<close>.\<close>

definition intent_save :: "int \<Rightarrow> pay_status \<Rightarrow> intent \<Rightarrow> pay_error + intent" where
  "intent_save now original i =
     (if in_status i \<noteq> original
      then if in_status i \<notin> set (pay_allowed original) then Inl Invalid_transition
           else Inr (stamp_intent now i)
      else Inr i)"

definition save_intent :: "int \<Rightarrow> pay_status \<Rightarrow> intent \<Rightarrow> payman \<Rightarrow> pay_error + (payman \<times> intent)" where
  "save_intent now original i st =
     ebind (intent_save now original i) (\<lambda>i'.
       if intent_constraints i' (filter (\<lambda>x. in_ref x \<noteq> in_ref i') (intents st))
       then Inr (st\<lparr>intents := row_put in_ref i' (intents st)\<rparr>, i')
       else Inl Integrity_error)"

definition announce :: "announcement \<Rightarrow> payman \<Rightarrow> payman" where
  "announce a st = st\<lparr>announced := announced st @ [a]\<rparr>"

definition get_for_update :: "string \<Rightarrow> payman \<Rightarrow> pay_error + intent" where
  "get_for_update ref st =
     (case row_get in_ref ref (intents st) of None \<Rightarrow> Inl Intent_not_found | Some i \<Rightarrow> Inr i)"

definition transition_status :: "int \<Rightarrow> string \<Rightarrow> pay_status \<Rightarrow> payman \<Rightarrow> pay_error + (payman \<times> intent)" where
  "transition_status now ref s st =
     ebind (get_for_update ref st) (\<lambda>i.
       if s \<notin> set (pay_allowed (in_status i)) then Inl Invalid_transition
       else save_intent now (in_status i) (i\<lparr>in_status := s\<rparr>) st)"

section \<open>Totals\<close>

definition txn_total :: "txn_type \<Rightarrow> string \<Rightarrow> txn list \<Rightarrow> int" where
  "txn_total ty ref ts = sum_where (\<lambda>t. tx_intent t = ref \<and> tx_type t = ty) tx_amount_q ts"

abbreviation captured_of :: "string \<Rightarrow> txn list \<Rightarrow> int" where
  "captured_of \<equiv> txn_total Capture_txn"

abbreviation refunded_of :: "string \<Rightarrow> txn list \<Rightarrow> int" where
  "refunded_of \<equiv> txn_total Refund_txn"

abbreviation chargeback_of :: "string \<Rightarrow> txn list \<Rightarrow> int" where
  "chargeback_of \<equiv> txn_total Chargeback_txn"

definition returned_total :: "string \<Rightarrow> txn list \<Rightarrow> int" where
  "returned_total ref ts = refunded_of ref ts + chargeback_of ref ts"

section \<open>Create\<close>

record intent_args =
  ca_order_ref :: string
  ca_amount_q :: int
  ca_method :: pay_method
  ca_currency :: string
  ca_gateway :: string
  ca_gateway_id :: string
  ca_gateway_data :: dict
  ca_expires_at :: "int option"
  ca_ref :: "string option"
  ca_idem :: string

definition require_idempotent_match :: "intent \<Rightarrow> intent_args \<Rightarrow> pay_error + unit" where
  "require_idempotent_match i a =
     guard_e (in_order_ref i = ca_order_ref a \<and> in_amount_q i = ca_amount_q a \<and>
              in_method i = ca_method a \<and> in_currency i = ca_currency a \<and>
              in_gateway i = ca_gateway a) Idempotency_key_conflict"

definition new_intent :: "int \<Rightarrow> string \<Rightarrow> string \<Rightarrow> intent_args \<Rightarrow> intent" where
  "new_intent now fresh key a =
     \<lparr>in_ref = (case ca_ref a of None \<Rightarrow> fresh | Some r \<Rightarrow> if r = [] then fresh else r),
      in_order_ref = ca_order_ref a, in_method = ca_method a, in_status = Pay_Pending,
      in_amount_q = ca_amount_q a, in_currency = ca_currency a, in_gateway = ca_gateway a,
      in_gateway_id = ca_gateway_id a, in_gateway_data = ca_gateway_data a, in_idem = key,
      in_created_at = now, in_authorized_at = None, in_captured_at = None,
      in_cancelled_at = None, in_expires_at = ca_expires_at a, in_cancel_reason = []\<rparr>"

text \<open>
  \<open>seen\<close> is what the first query of the idempotency key read; another transaction may have
  committed between it and the insert, so it need not be the table of \<open>st\<close>. Inside an outer
  atomic block the failed insert has broken the transaction, and Django refuses the second
  query of the \<open>except\<close> branch (\<open>TransactionManagementError\<close>).
\<close>

definition create_intent ::
  "bool \<Rightarrow> intent list \<Rightarrow> int \<Rightarrow> string \<Rightarrow> intent_args \<Rightarrow> payman \<Rightarrow> pay_error + (payman \<times> intent)" where
  "create_intent in_atomic seen now fresh a st =
     (if ca_amount_q a \<le> 0 then Inl Invalid_amount
      else let key = strip (ca_idem a) in
        case (if key = [] then None else latest (\<lambda>i. in_idem i = key) seen) of
          Some e \<Rightarrow> ebind (require_idempotent_match e a) (\<lambda>_. Inr (st, e))
        | None \<Rightarrow>
            (case insert_intent (new_intent now fresh key a) st of
               Inr st' \<Rightarrow> Inr (st', new_intent now fresh key a)
             | Inl err \<Rightarrow>
                 if key = [] then Inl err
                 else if in_atomic then Inl Broken_transaction
                 else (case latest (\<lambda>i. in_idem i = key) (intents st) of
                         None \<Rightarrow> Inl err
                       | Some e \<Rightarrow> ebind (require_idempotent_match e a) (\<lambda>_. Inr (st, e)))))"

section \<open>Settle and charge to account\<close>

definition settle ::
  "intent list \<Rightarrow> int \<Rightarrow> string \<Rightarrow> string \<Rightarrow> int \<Rightarrow> pay_method \<Rightarrow> string \<Rightarrow> dict \<Rightarrow> string option \<Rightarrow> string
   \<Rightarrow> bool \<Rightarrow> payman \<Rightarrow> pay_error + (payman \<times> intent)" where
  "settle seen now fresh order_ref amount_q pm currency gdata ref idem asserted st =
     (if pm = Account then Inl Account_is_not_settled_at_sale
      else if \<not> method_without_gateway pm \<and> \<not> asserted then Inl Method_requires_gateway
      else
        ebind (create_intent True seen now fresh
                 \<lparr>ca_order_ref = order_ref, ca_amount_q = amount_q, ca_method = pm,
                  ca_currency = currency, ca_gateway = [], ca_gateway_id = [],
                  ca_gateway_data = (if asserted then dset ''asserted_at_terminal'' (JBool True) gdata
                                     else gdata),
                  ca_expires_at = None, ca_ref = ref, ca_idem = idem\<rparr> st) (\<lambda>(st1, created).
        ebind (get_for_update (in_ref created) st1) (\<lambda>i.
        if in_status i \<in> {Pay_Captured, Pay_Refunded} then Inr (st1, i)
        else if in_status i \<noteq> Pay_Pending then Inl Invalid_transition
        else
          ebind (save_intent now (in_status i) (i\<lparr>in_status := Pay_Authorized\<rparr>) st1) (\<lambda>(st2, i2).
          ebind (save_intent now (in_status i2) (i2\<lparr>in_status := Pay_Captured\<rparr>) st2) (\<lambda>(st3, i3).
          let t = \<lparr>tx_intent = in_ref i3, tx_type = Capture_txn, tx_amount_q = in_amount_q i3,
                   tx_gateway_id = [], tx_reason = [], tx_idem = [], tx_created_at = now\<rparr> in
          ebind (insert_txn t st3) (\<lambda>st4.
          Inr (announce (Payment_captured (in_ref i3) (in_order_ref i3) (in_amount_q i3) t) st4, i3)))))))"

definition charge_to_account ::
  "intent list \<Rightarrow> int \<Rightarrow> string \<Rightarrow> string \<Rightarrow> int \<Rightarrow> string \<Rightarrow> string \<Rightarrow> dict \<Rightarrow> string option \<Rightarrow> string
   \<Rightarrow> payman \<Rightarrow> pay_error + (payman \<times> intent)" where
  "charge_to_account seen now fresh order_ref amount_q customer_ref currency gdata ref idem st =
     (if strip customer_ref = [] then Inl Customer_required
      else
        ebind (create_intent True seen now fresh
                 \<lparr>ca_order_ref = order_ref, ca_amount_q = amount_q, ca_method = Account,
                  ca_currency = currency, ca_gateway = [], ca_gateway_id = [],
                  ca_gateway_data = dset ''customer_ref'' (JStr customer_ref) gdata,
                  ca_expires_at = None, ca_ref = ref, ca_idem = idem\<rparr> st) (\<lambda>(st1, created).
        ebind (get_for_update (in_ref created) st1) (\<lambda>i.
        if in_status i \<noteq> Pay_Pending then Inr (st1, i)
        else
          ebind (save_intent now (in_status i) (i\<lparr>in_status := Pay_Authorized\<rparr>) st1) (\<lambda>(st2, i2).
          Inr (announce (Payment_authorized (in_ref i2) (in_order_ref i2) (in_amount_q i2) (in_method i2)) st2,
               i2)))))"

definition account_open_intents :: "string \<Rightarrow> payman \<Rightarrow> intent list" where
  "account_open_intents customer_ref st =
     sort_key (\<lambda>i. case in_authorized_at i of None \<Rightarrow> (1 :: nat, 0) | Some t \<Rightarrow> (0, t))
       (filter (\<lambda>i. in_method i = Account \<and> in_status i = Pay_Authorized \<and>
                    dget (in_gateway_data i) ''customer_ref'' = Some (JStr customer_ref)) (intents st))"

definition account_balance_q :: "string \<Rightarrow> payman \<Rightarrow> int" where
  "account_balance_q customer_ref st = sum_list (map in_amount_q (account_open_intents customer_ref st))"

section \<open>Authorize, capture, refund, cancel, fail\<close>

definition intent_expired :: "int \<Rightarrow> intent \<Rightarrow> bool" where
  "intent_expired now i = (case in_expires_at i of None \<Rightarrow> False | Some t \<Rightarrow> t \<le> now)"

definition authorize :: "int \<Rightarrow> string \<Rightarrow> string \<Rightarrow> dict \<Rightarrow> payman \<Rightarrow> pay_error + (payman \<times> intent)" where
  "authorize now ref gid gdata st =
     ebind (get_for_update ref st) (\<lambda>i.
     if in_status i \<noteq> Pay_Pending then Inl Invalid_transition
     else if intent_expired now i then Inl Intent_expired
     else
       ebind (save_intent now (in_status i)
                (i\<lparr>in_status := Pay_Authorized,
                   in_gateway_id := (if gid \<noteq> [] then gid else in_gateway_id i),
                   in_gateway_data := dmerge (in_gateway_data i) gdata\<rparr>) st) (\<lambda>(st1, i1).
       Inr (announce (Payment_authorized (in_ref i1) (in_order_ref i1) (in_amount_q i1) (in_method i1)) st1,
            i1)))"

definition capture ::
  "int \<Rightarrow> string \<Rightarrow> int option \<Rightarrow> string \<Rightarrow> dict \<Rightarrow> payman \<Rightarrow> pay_error + (payman \<times> txn)" where
  "capture now ref amount gid gdata st =
     ebind (get_for_update ref st) (\<lambda>i.
     if in_status i \<noteq> Pay_Authorized then Inl Invalid_transition
     else let amt = (case amount of Some a \<Rightarrow> a | None \<Rightarrow> in_amount_q i) in
       if amt \<le> 0 then Inl Invalid_amount
       else if amt > in_amount_q i then Inl Capture_exceeds_authorized
       else
         ebind (save_intent now (in_status i)
                  (i\<lparr>in_gateway_data := dmerge (in_gateway_data i) gdata, in_status := Pay_Captured\<rparr>) st)
           (\<lambda>(st1, i1).
         let t = \<lparr>tx_intent = in_ref i1, tx_type = Capture_txn, tx_amount_q = amt, tx_gateway_id = gid,
                  tx_reason = [], tx_idem = [], tx_created_at = now\<rparr> in
         ebind (insert_txn t st1) (\<lambda>st2.
         Inr (announce (Payment_captured (in_ref i1) (in_order_ref i1) amt t) st2, t))))"

definition require_idempotent_refund_match :: "txn \<Rightarrow> intent \<Rightarrow> int option \<Rightarrow> pay_error + unit" where
  "require_idempotent_refund_match t i amount =
     guard_e (tx_intent t = in_ref i \<and> (case amount of None \<Rightarrow> True | Some a \<Rightarrow> tx_amount_q t = a))
       Idempotency_key_conflict"

text \<open>
  The part of \<open>refund\<close> after the two idempotency lookups: what remains is the gate on the
  captured balance and the write. The verb is atomic, so a failed insert with a key ends in
  \<open>TransactionManagementError\<close> when the \<open>except\<close> branch queries again.
\<close>

definition refund_fresh ::
  "int \<Rightarrow> intent \<Rightarrow> int option \<Rightarrow> string \<Rightarrow> string \<Rightarrow> string \<Rightarrow> payman \<Rightarrow> pay_error + (payman \<times> txn)" where
  "refund_fresh now i amount reason gid key st =
     (if in_status i \<notin> {Pay_Captured, Pay_Refunded} then Inl Invalid_transition
      else let available = captured_of (in_ref i) (txns st) - returned_total (in_ref i) (txns st) in
        if available \<le> 0 then Inl Already_refunded
        else let amt = (case amount of Some a \<Rightarrow> a | None \<Rightarrow> available) in
          if amt \<le> 0 then Inl Invalid_amount
          else if amt > available then Inl Amount_exceeds_captured
          else
            let t = \<lparr>tx_intent = in_ref i, tx_type = Refund_txn, tx_amount_q = amt, tx_gateway_id = gid,
                     tx_reason = reason, tx_idem = key, tx_created_at = now\<rparr> in
            (case insert_txn t st of
               Inl err \<Rightarrow> if key = [] then Inl err else Inl Broken_transaction
             | Inr st1 \<Rightarrow>
                 ebind (if in_status i \<noteq> Pay_Refunded
                        then save_intent now (in_status i) (i\<lparr>in_status := Pay_Refunded\<rparr>) st1
                        else Inr (st1, i)) (\<lambda>(st2, i2).
                 Inr (announce (Payment_refunded (in_ref i2) (in_order_ref i2) amt t) st2, t))))"

definition refund ::
  "txn list \<Rightarrow> int \<Rightarrow> string \<Rightarrow> int option \<Rightarrow> string \<Rightarrow> string \<Rightarrow> string \<Rightarrow> payman \<Rightarrow> pay_error + (payman \<times> txn)" where
  "refund seen now ref amount reason gid idem st =
     ebind (get_for_update ref st) (\<lambda>i.
     case (if gid = [] then None
           else latest (\<lambda>t. tx_intent t = in_ref i \<and> tx_type t = Refund_txn \<and> tx_gateway_id t = gid) (txns st)) of
       Some t \<Rightarrow> Inr (st, t)
     | None \<Rightarrow>
         let key = strip idem in
         (case (if key = [] then None
                else latest (\<lambda>t. tx_type t = Refund_txn \<and> tx_idem t = key) seen) of
            Some t \<Rightarrow> ebind (require_idempotent_refund_match t i amount) (\<lambda>_. Inr (st, t))
          | None \<Rightarrow> refund_fresh now i amount reason gid key st))"

definition cancel :: "int \<Rightarrow> string \<Rightarrow> string \<Rightarrow> payman \<Rightarrow> pay_error + (payman \<times> intent)" where
  "cancel now ref reason st =
     ebind (get_for_update ref st) (\<lambda>i.
     if \<not> can_transition_to i Pay_Cancelled then Inl Invalid_transition
     else
       ebind (save_intent now (in_status i) (i\<lparr>in_status := Pay_Cancelled, in_cancel_reason := reason\<rparr>) st)
         (\<lambda>(st1, i1).
       Inr (announce (Payment_cancelled (in_ref i1) (in_order_ref i1)) st1, i1)))"

definition fail :: "int \<Rightarrow> string \<Rightarrow> string \<Rightarrow> string \<Rightarrow> payman \<Rightarrow> pay_error + (payman \<times> intent)" where
  "fail now ref error_code message st =
     ebind (get_for_update ref st) (\<lambda>i.
     if \<not> can_transition_to i Pay_Failed then Inl Invalid_transition
     else
       ebind (save_intent now (in_status i)
                (i\<lparr>in_status := Pay_Failed,
                   in_gateway_data :=
                     (if error_code \<noteq> [] \<or> message \<noteq> []
                      then dset ''error_message'' (JStr message)
                             (dset ''error_code'' (JStr error_code) (in_gateway_data i))
                      else in_gateway_data i)\<rparr>) st) (\<lambda>(st1, i1).
       Inr (announce (Payment_failed (in_ref i1) (in_order_ref i1) error_code message) st1, i1)))"

section \<open>Queries\<close>

definition get_by_order :: "string \<Rightarrow> payman \<Rightarrow> intent list" where
  "get_by_order order_ref st = rev (filter (\<lambda>i. in_order_ref i = order_ref) (intents st))"

definition get_active_intent :: "int \<Rightarrow> string \<Rightarrow> pay_method option \<Rightarrow> payman \<Rightarrow> intent option" where
  "get_active_intent now order_ref pm st =
     latest (\<lambda>i. in_order_ref i = order_ref \<and> pay_active (in_status i) \<and>
                 (case in_expires_at i of None \<Rightarrow> True | Some t \<Rightarrow> t > now) \<and>
                 (case pm of None \<Rightarrow> True | Some m \<Rightarrow> in_method i = m)) (intents st)"

definition get_by_gateway_id :: "string \<Rightarrow> string option \<Rightarrow> payman \<Rightarrow> intent option" where
  "get_by_gateway_id gid gw st =
     latest (\<lambda>i. in_gateway_id i = gid \<and> (case gw of None \<Rightarrow> True | Some g \<Rightarrow> in_gateway i = g)) (intents st)"

record payment_read =
  pr_status :: pay_status
  pr_captured_q :: int
  pr_refunded_q :: int
  pr_chargeback_q :: int

definition read_many :: "string list \<Rightarrow> payman \<Rightarrow> (string \<times> payment_read) list" where
  "read_many refs st =
     map (\<lambda>i. (in_ref i, \<lparr>pr_status = in_status i, pr_captured_q = captured_of (in_ref i) (txns st),
                          pr_refunded_q = refunded_of (in_ref i) (txns st),
                          pr_chargeback_q = chargeback_of (in_ref i) (txns st)\<rparr>))
       (filter (\<lambda>i. in_ref i \<in> set refs) (intents st))"

definition captured_total :: "string \<Rightarrow> payman \<Rightarrow> pay_error + int" where
  "captured_total ref st = ebind (get_for_update ref st) (\<lambda>i. Inr (captured_of (in_ref i) (txns st)))"

definition refunded_total :: "string \<Rightarrow> payman \<Rightarrow> pay_error + int" where
  "refunded_total ref st = ebind (get_for_update ref st) (\<lambda>i. Inr (refunded_of (in_ref i) (txns st)))"

definition chargeback_total :: "string \<Rightarrow> payman \<Rightarrow> pay_error + int" where
  "chargeback_total ref st = ebind (get_for_update ref st) (\<lambda>i. Inr (chargeback_of (in_ref i) (txns st)))"

end
