(* ===== verification/PaymanRecon.thy ===== *)
theory PaymanRecon
  imports Payman
begin

text \<open>
  \<open>PaymentService.reconcile_gateway_status\<close>: a cumulative snapshot of the gateway is applied
  to an intent by its phases in the order of the code (validation, gateway fields,
  authorization, capture, refund, chargeback, closing). The local variables of the method
  are the record \<open>recon\<close>, threaded from phase to phase; \<open>resolved\<close> is the snapshot after the
  defaults are filled in.
\<close>

section \<open>The snapshot\<close>

definition gateway_status_map :: "(string \<times> string) list" where
  "gateway_status_map =
     [(''ativa'', ''pending''), (''active'', ''pending''), (''processing'', ''pending''),
      (''requires_payment_method'', ''pending''), (''requires_action'', ''pending''),
      (''requires_capture'', ''authorized''), (''authorized'', ''authorized''),
      (''succeeded'', ''captured''), (''paid'', ''captured''), (''captured'', ''captured''),
      (''concluida'', ''captured''), (''completed'', ''captured''), (''refunded'', ''refunded''),
      (''failed'', ''failed''), (''declined'', ''failed''), (''canceled'', ''cancelled''),
      (''cancelled'', ''cancelled''), (''removida_pelo_usuario_recebedor'', ''cancelled''),
      (''removida_pelo_psp'', ''cancelled'')]"

definition normalize_gateway_status :: "string \<Rightarrow> string" where
  "normalize_gateway_status s =
     (let n = lower (strip s) in case map_of gateway_status_map n of None \<Rightarrow> n | Some t \<Rightarrow> t)"

record snapshot =
  sn_status :: string
  sn_amount_q :: "int option"
  sn_captured_q :: "int option"
  sn_refunded_q :: int
  sn_chargeback_q :: int
  sn_currency :: string
  sn_gateway_id :: string
  sn_gateway_data :: dict
  sn_capture_gid :: string
  sn_refund_gid :: string
  sn_chargeback_gid :: string

record resolved =
  rs_status :: string
  rs_amount_q :: int
  rs_captured_q :: int
  rs_refunded_q :: int
  rs_chargeback_q :: int
  rs_currency :: string

definition resolve_snapshot :: "intent \<Rightarrow> snapshot \<Rightarrow> resolved" where
  "resolve_snapshot i sn =
     (let status = normalize_gateway_status (sn_status sn);
          amount = (case sn_amount_q sn of None \<Rightarrow> in_amount_q i | Some a \<Rightarrow> a) in
      \<lparr>rs_status = status, rs_amount_q = amount,
       rs_captured_q = (case sn_captured_q sn of
                          None \<Rightarrow> if status \<in> {''captured'', ''refunded''} then amount else 0
                        | Some c \<Rightarrow> c),
       rs_refunded_q = sn_refunded_q sn, rs_chargeback_q = sn_chargeback_q sn,
       rs_currency = upper (if sn_currency sn \<noteq> [] then sn_currency sn else in_currency i)\<rparr>)"

definition validate_gateway_snapshot :: "intent \<Rightarrow> resolved \<Rightarrow> string \<Rightarrow> pay_error + unit" where
  "validate_gateway_snapshot i rs gid =
     (if rs_status rs \<notin> {''pending'', ''authorized'', ''captured'', ''refunded'', ''failed'', ''cancelled''}
        then Inl Recon_unknown_status
      else if rs_amount_q rs \<le> 0 \<or> rs_captured_q rs < 0 \<or> rs_refunded_q rs < 0 \<or> rs_chargeback_q rs < 0
        then Inl Recon_invalid_amount
      else if rs_amount_q rs \<noteq> in_amount_q i then Inl Recon_amount_mismatch
      else if rs_currency rs \<noteq> [] \<and> rs_currency rs \<noteq> upper (in_currency i) then Inl Recon_currency_mismatch
      else if rs_captured_q rs > rs_amount_q rs then Inl Recon_capture_exceeds_amount
      else if rs_refunded_q rs > rs_captured_q rs then Inl Recon_refund_exceeds_capture
      else if rs_refunded_q rs + rs_chargeback_q rs > rs_captured_q rs
        then Inl Recon_chargeback_exceeds_capture
      else if gid \<noteq> [] \<and> in_gateway_id i \<noteq> [] \<and> gid \<noteq> in_gateway_id i
        then Inl Recon_gateway_id_mismatch
      else Inr ())"

section \<open>The phases\<close>

datatype recon_action = Did_authorize | Did_capture | Did_refund | Did_chargeback | Did_cancel | Did_fail

record recon =
  rc_db :: payman
  rc_intent :: intent
  rc_actions :: "recon_action list"
  rc_changed :: bool

text \<open>\<open>intent.save()\<close> inside the method; the loaded object then is the stored row.\<close>

definition recon_save :: "int \<Rightarrow> intent \<Rightarrow> recon \<Rightarrow> pay_error + recon" where
  "recon_save now i rc =
     ebind (save_intent now (in_status (rc_intent rc)) i (rc_db rc)) (\<lambda>(st, i').
       Inr (rc\<lparr>rc_db := st, rc_intent := i'\<rparr>))"

definition recon_did :: "recon_action \<Rightarrow> recon \<Rightarrow> recon" where
  "recon_did a rc = rc\<lparr>rc_actions := rc_actions rc @ [a], rc_changed := True\<rparr>"

definition recon_announce :: "announcement \<Rightarrow> recon \<Rightarrow> recon" where
  "recon_announce a rc = rc\<lparr>rc_db := announce a (rc_db rc)\<rparr>"

definition recon_prepare :: "int \<Rightarrow> snapshot \<Rightarrow> intent \<Rightarrow> payman \<Rightarrow> pay_error + recon" where
  "recon_prepare now sn i st =
     (let set_id = (sn_gateway_id sn \<noteq> [] \<and> in_gateway_id i = []);
          i1 = (if set_id then i\<lparr>in_gateway_id := sn_gateway_id sn\<rparr> else i);
          i2 = (if sn_gateway_data sn \<noteq> []
                then i1\<lparr>in_gateway_data := dmerge (in_gateway_data i1) (sn_gateway_data sn)\<rparr> else i1);
          changed = (set_id \<or> sn_gateway_data sn \<noteq> []);
          rc = \<lparr>rc_db = st, rc_intent = i, rc_actions = [], rc_changed = changed\<rparr> in
      if changed then recon_save now i2 rc else Inr rc)"

definition recon_to_authorized :: "int \<Rightarrow> recon \<Rightarrow> pay_error + recon" where
  "recon_to_authorized now rc =
     ebind (recon_save now ((rc_intent rc)\<lparr>in_status := Pay_Authorized\<rparr>) rc) (\<lambda>rc.
     let i = rc_intent rc in
     Inr (recon_did Did_authorize (recon_announce
            (Payment_authorized (in_ref i) (in_order_ref i) (in_amount_q i) (in_method i)) rc)))"

definition recon_authorize :: "int \<Rightarrow> resolved \<Rightarrow> recon \<Rightarrow> pay_error + recon" where
  "recon_authorize now rs rc =
     (if rs_status rs = ''authorized'' \<and> in_status (rc_intent rc) = Pay_Pending
      then recon_to_authorized now rc else Inr rc)"

definition recon_txn :: "int \<Rightarrow> recon \<Rightarrow> txn_type \<Rightarrow> int \<Rightarrow> string \<Rightarrow> string \<Rightarrow> txn" where
  "recon_txn now rc ty amt gid reason =
     \<lparr>tx_intent = in_ref (rc_intent rc), tx_type = ty, tx_amount_q = amt, tx_gateway_id = gid,
      tx_reason = reason, tx_idem = [], tx_created_at = now\<rparr>"

definition recon_insert :: "txn \<Rightarrow> recon \<Rightarrow> pay_error + recon" where
  "recon_insert t rc = ebind (insert_txn t (rc_db rc)) (\<lambda>st. Inr (rc\<lparr>rc_db := st\<rparr>))"

definition or_else :: "string \<Rightarrow> string \<Rightarrow> string" where
  "or_else a b = (if a \<noteq> [] then a else b)"

definition recon_capture :: "int \<Rightarrow> snapshot \<Rightarrow> resolved \<Rightarrow> recon \<Rightarrow> pay_error + recon" where
  "recon_capture now sn rs rc =
     (if rs_status rs \<in> {''captured'', ''refunded''} \<or> rs_captured_q rs > 0 then
        if in_status (rc_intent rc) \<in> {Pay_Failed, Pay_Cancelled} then Inl Recon_terminal_drift
        else ebind (if in_status (rc_intent rc) = Pay_Pending then recon_to_authorized now rc else Inr rc)
          (\<lambda>rc.
          let loc = captured_of (in_ref (rc_intent rc)) (txns (rc_db rc)) in
          if loc = 0 \<and> rs_captured_q rs > 0 then
            ebind (if in_status (rc_intent rc) = Pay_Authorized
                   then recon_save now ((rc_intent rc)\<lparr>in_status := Pay_Captured\<rparr>) rc
                   else if in_status (rc_intent rc) \<notin> {Pay_Captured, Pay_Refunded}
                   then Inl Recon_capture_drift else Inr rc) (\<lambda>rc.
            let t = recon_txn now rc Capture_txn (rs_captured_q rs)
                      (or_else (sn_capture_gid sn) (sn_gateway_id sn)) [] in
            ebind (recon_insert t rc) (\<lambda>rc.
            let i = rc_intent rc in
            Inr (recon_did Did_capture (recon_announce
                   (Payment_captured (in_ref i) (in_order_ref i) (rs_captured_q rs) t) rc))))
          else if loc \<noteq> rs_captured_q rs then Inl Recon_capture_mismatch
          else Inr rc)
      else Inr rc)"

definition recon_refund :: "int \<Rightarrow> snapshot \<Rightarrow> resolved \<Rightarrow> recon \<Rightarrow> pay_error + recon" where
  "recon_refund now sn rs rc =
     (if rs_status rs \<in> {''captured'', ''refunded''} \<or> rs_refunded_q rs \<noteq> 0 then
        let loc = refunded_of (in_ref (rc_intent rc)) (txns (rc_db rc));
            delta = rs_refunded_q rs - loc in
        if rs_refunded_q rs < loc then Inl Recon_refund_mismatch
        else if delta > 0 then
          if in_status (rc_intent rc) \<notin> {Pay_Captured, Pay_Refunded} then Inl Recon_refund_drift
          else
            let t = recon_txn now rc Refund_txn delta (or_else (sn_refund_gid sn) (sn_gateway_id sn))
                      ''gateway_reconciliation'' in
            ebind (recon_insert t rc) (\<lambda>rc.
            ebind (if in_status (rc_intent rc) \<noteq> Pay_Refunded
                   then recon_save now ((rc_intent rc)\<lparr>in_status := Pay_Refunded\<rparr>) rc else Inr rc) (\<lambda>rc.
            let i = rc_intent rc in
            Inr (recon_did Did_refund (recon_announce
                   (Payment_refunded (in_ref i) (in_order_ref i) delta t) rc))))
        else Inr rc
      else Inr rc)"

definition recon_chargeback :: "int \<Rightarrow> snapshot \<Rightarrow> resolved \<Rightarrow> recon \<Rightarrow> pay_error + recon" where
  "recon_chargeback now sn rs rc =
     (if rs_chargeback_q rs \<noteq> 0 then
        let loc = chargeback_of (in_ref (rc_intent rc)) (txns (rc_db rc));
            delta = rs_chargeback_q rs - loc in
        if rs_chargeback_q rs < loc then Inl Recon_chargeback_mismatch
        else if delta > 0 then
          if in_status (rc_intent rc) \<notin> {Pay_Captured, Pay_Refunded} then Inl Recon_chargeback_drift
          else
            ebind (recon_insert (recon_txn now rc Chargeback_txn delta
                                   (or_else (sn_chargeback_gid sn) (sn_gateway_id sn))
                                   ''gateway_chargeback'') rc) (\<lambda>rc.
            Inr (recon_did Did_chargeback rc))
        else Inr rc
      else Inr rc)"

definition recon_close :: "int \<Rightarrow> resolved \<Rightarrow> recon \<Rightarrow> pay_error + recon" where
  "recon_close now rs rc =
     (if rs_status rs = ''cancelled'' \<and> in_status (rc_intent rc) \<in> {Pay_Pending, Pay_Authorized} then
        ebind (recon_save now ((rc_intent rc)\<lparr>in_status := Pay_Cancelled,
                                 in_cancel_reason := ''gateway_reconciliation''\<rparr>) rc) (\<lambda>rc.
        let i = rc_intent rc in
        Inr (recon_did Did_cancel (recon_announce (Payment_cancelled (in_ref i) (in_order_ref i)) rc)))
      else if rs_status rs = ''failed'' \<and> in_status (rc_intent rc) \<in> {Pay_Pending, Pay_Authorized} then
        ebind (recon_save now ((rc_intent rc)\<lparr>in_status := Pay_Failed,
                 in_gateway_data :=
                   dset ''error_message'' (JStr ''Gateway reportou falha no pagamento'')
                     (dset ''error_code'' (JStr ''gateway_reconciliation'')
                        (in_gateway_data (rc_intent rc)))\<rparr>) rc) (\<lambda>rc.
        let i = rc_intent rc in
        Inr (recon_did Did_fail (recon_announce
               (Payment_failed (in_ref i) (in_order_ref i) ''gateway_reconciliation''
                  ''Gateway reportou falha no pagamento'') rc)))
      else Inr rc)"

record recon_result =
  rr_intent_ref :: string
  rr_status :: pay_status
  rr_captured_q :: int
  rr_refunded_q :: int
  rr_changed :: bool
  rr_actions :: "recon_action list"
  rr_chargeback_q :: int

definition recon_result_of :: "string \<Rightarrow> recon \<Rightarrow> recon_result" where
  "recon_result_of ref rc =
     (let i = rc_intent rc; ts = txns (rc_db rc) in
      \<lparr>rr_intent_ref = ref, rr_status = in_status i, rr_captured_q = captured_of (in_ref i) ts,
       rr_refunded_q = refunded_of (in_ref i) ts, rr_changed = rc_changed rc,
       rr_actions = rc_actions rc, rr_chargeback_q = chargeback_of (in_ref i) ts\<rparr>)"

definition reconcile_gateway_status ::
  "int \<Rightarrow> string \<Rightarrow> snapshot \<Rightarrow> payman \<Rightarrow> pay_error + (payman \<times> recon_result)" where
  "reconcile_gateway_status now ref sn st =
     ebind (get_for_update ref st) (\<lambda>i.
     let rs = resolve_snapshot i sn in
     ebind (validate_gateway_snapshot i rs (sn_gateway_id sn)) (\<lambda>_.
     ebind (recon_prepare now sn i st) (\<lambda>rc.
     ebind (recon_authorize now rs rc) (\<lambda>rc.
     ebind (recon_capture now sn rs rc) (\<lambda>rc.
     ebind (recon_refund now sn rs rc) (\<lambda>rc.
     ebind (recon_chargeback now sn rs rc) (\<lambda>rc.
     ebind (recon_close now rs rc) (\<lambda>rc.
     Inr (rc_db rc, recon_result_of ref rc)))))))))"

end
