(* ===== verification/PaymanLaws.thy ===== *)
theory PaymanLaws
  imports Payman PaymanRecon
begin

text \<open>
  The laws of the payment kernel. \<open>intent_ok\<close> is what one intent and its transactions
  promise, \<open>pay_inv\<close> the invariant of the whole store; \<open>row_evolves\<close> is how a verb may change
  an intent row. Each verb is shown to keep both once, and \<open>pay_step\<close> is the relation of one
  verb call. The machines of \<open>Machines\<close> are interpreted on the transition table and on the
  transaction table.
\<close>

section \<open>The status machine\<close>

fun pay_rank :: "pay_status \<Rightarrow> nat" where
  "pay_rank Pay_Pending = 0"
| "pay_rank Pay_Authorized = 1"
| "pay_rank Pay_Captured = 2"
| "pay_rank Pay_Failed = 3"
| "pay_rank Pay_Cancelled = 3"
| "pay_rank Pay_Refunded = 3"

interpretation pay: ranked_machine pay_allowed pay_terminal pay_rank 3
proof unfold_locales
  show "\<And>s. pay_terminal s \<Longrightarrow> pay_allowed s = []" by (auto simp: pay_terminal_def)
  show "\<And>t s. t \<in> set (pay_allowed s) \<Longrightarrow> pay_rank s < pay_rank t"
    by (case_tac s) auto
  show "\<And>s. pay_rank s \<le> 3" by (case_tac s) auto
qed

section \<open>Invariant\<close>

definition money_in :: "pay_status \<Rightarrow> bool" where
  "money_in s \<longleftrightarrow> s = Pay_Captured \<or> s = Pay_Refunded"

lemma money_in_simps [simp]:
  "money_in Pay_Captured" "money_in Pay_Refunded" "\<not> money_in Pay_Pending"
  "\<not> money_in Pay_Authorized" "\<not> money_in Pay_Failed" "\<not> money_in Pay_Cancelled"
  by (simp_all add: money_in_def)

definition captures_of :: "string \<Rightarrow> txn list \<Rightarrow> nat" where
  "captures_of ref ts = length (filter (\<lambda>t. tx_intent t = ref \<and> tx_type t = Capture_txn) ts)"

text \<open>The money laws of one intent, over its status and its totals.\<close>

definition money_ok :: "pay_status \<Rightarrow> int \<Rightarrow> int \<Rightarrow> int \<Rightarrow> int \<Rightarrow> bool" where
  "money_ok s amount cap ref cb \<longleftrightarrow>
     0 < amount \<and> 0 \<le> cap \<and> cap \<le> amount \<and> (0 < cap \<longleftrightarrow> money_in s) \<and>
     0 \<le> ref \<and> ref \<le> cap \<and> (0 < ref \<longleftrightarrow> s = Pay_Refunded) \<and> 0 \<le> cb \<and> cb \<le> cap"

definition stamps_ok :: "intent \<Rightarrow> bool" where
  "stamps_ok i \<longleftrightarrow>
     (in_status i = Pay_Authorized \<or> money_in (in_status i) \<longrightarrow> in_authorized_at i \<noteq> None) \<and>
     (money_in (in_status i) \<longrightarrow> in_captured_at i \<noteq> None) \<and>
     (in_status i = Pay_Cancelled \<longrightarrow> in_cancelled_at i \<noteq> None)"

definition intent_ok :: "intent \<Rightarrow> txn list \<Rightarrow> bool" where
  "intent_ok i ts \<longleftrightarrow>
     money_ok (in_status i) (in_amount_q i) (captured_of (in_ref i) ts) (refunded_of (in_ref i) ts)
       (chargeback_of (in_ref i) ts) \<and>
     captures_of (in_ref i) ts = (if money_in (in_status i) then 1 else 0) \<and> stamps_ok i"

definition idems_ok :: "('r \<Rightarrow> string) \<Rightarrow> 'r list \<Rightarrow> bool" where
  "idems_ok key rs \<longleftrightarrow> distinct (filter (\<lambda>k. k \<noteq> []) (map key rs))"

definition pay_inv :: "payman \<Rightarrow> bool" where
  "pay_inv st \<longleftrightarrow>
     distinct (map in_ref (intents st)) \<and>
     (\<forall>i \<in> set (intents st). intent_ok i (txns st)) \<and>
     (\<forall>t \<in> set (txns st). 0 < tx_amount_q t \<and> tx_intent t \<in> in_ref ` set (intents st)) \<and>
     idems_ok in_idem (intents st) \<and> idems_ok tx_idem (txns st)"

section \<open>Totals\<close>

lemma txn_total_snoc [simp]:
  "txn_total ty ref (ts @ [t]) =
     txn_total ty ref ts + (if tx_intent t = ref \<and> tx_type t = ty then tx_amount_q t else 0)"
  by (simp add: txn_total_def)

lemma captures_of_snoc [simp]:
  "captures_of ref (ts @ [t]) =
     captures_of ref ts + (if tx_intent t = ref \<and> tx_type t = Capture_txn then 1 else 0)"
  by (simp add: captures_of_def)

lemma idems_ok_snoc:
  "idems_ok key (rs @ [r]) \<longleftrightarrow> idems_ok key rs \<and> (key r = [] \<or> (\<forall>x \<in> set rs. key x \<noteq> key r))"
proof -
  have "key r \<in> key ` set rs \<longleftrightarrow> (\<exists>x \<in> set rs. key x = key r)" by (metis image_iff)
  then show ?thesis by (auto simp: idems_ok_def)
qed

lemma no_txns:
  assumes "\<forall>t \<in> set ts. tx_intent t \<noteq> ref"
  shows "txn_total ty ref ts = 0" "captures_of ref ts = 0"
  using assms by (auto simp: txn_total_def captures_of_def intro: sum_where_none)

lemma pay_inv_init: "pay_inv payman_init"
  by (simp add: pay_inv_def payman_init_def idems_ok_def)

lemma pay_inv_announce [simp]: "pay_inv (announce a st) = pay_inv st"
  by (simp add: pay_inv_def announce_def)

lemma announce_sel [simp]:
  "intents (announce a st) = intents st" "txns (announce a st) = txns st"
  "announced (announce a st) = announced st @ [a]"
  by (simp_all add: announce_def)

section \<open>Changing one row\<close>

text \<open>How a verb may change a row: its identity stays, its status follows the machine.\<close>

definition row_evolves :: "intent \<Rightarrow> intent \<Rightarrow> bool" where
  "row_evolves i j \<longleftrightarrow>
     in_ref j = in_ref i \<and> in_order_ref j = in_order_ref i \<and> in_method j = in_method i \<and>
     in_amount_q j = in_amount_q i \<and> in_currency j = in_currency i \<and> in_idem j = in_idem i \<and>
     in_gateway j = in_gateway i \<and> in_created_at j = in_created_at i \<and> in_expires_at j = in_expires_at i \<and>
     (in_gateway_id i \<noteq> [] \<longrightarrow> in_gateway_id j \<noteq> []) \<and>
     (in_authorized_at i \<noteq> None \<longrightarrow> in_authorized_at j = in_authorized_at i) \<and>
     (in_captured_at i \<noteq> None \<longrightarrow> in_captured_at j = in_captured_at i) \<and>
     (in_cancelled_at i \<noteq> None \<longrightarrow> in_cancelled_at j = in_cancelled_at i) \<and>
     (\<exists>ts. pay.history (in_status i) ts \<and> in_status j = last (in_status i # ts))"

lemma row_evolves_refl [simp]: "row_evolves i i"
proof -
  have "pay.history (in_status i) [] \<and> in_status i = last (in_status i # [])" by simp
  then show ?thesis unfolding row_evolves_def by blast
qed

lemma row_evolves_trans: "row_evolves i j \<Longrightarrow> row_evolves j k \<Longrightarrow> row_evolves i k"
proof -
  assume ij: "row_evolves i j" and jk: "row_evolves j k"
  obtain ts where ts: "pay.history (in_status i) ts" "in_status j = last (in_status i # ts)"
    using ij by (auto simp: row_evolves_def)
  obtain us where us: "pay.history (in_status j) us" "in_status k = last (in_status j # us)"
    using jk by (auto simp: row_evolves_def)
  have "pay.history (in_status i) (ts @ us)" using ts us by (simp add: pay.history_append)
  moreover have "in_status k = last (in_status i # ts @ us)" using ts us by (auto split: if_splits)
  ultimately have "\<exists>ws. pay.history (in_status i) ws \<and> in_status k = last (in_status i # ws)" by blast
  then show ?thesis using ij jk unfolding row_evolves_def by auto
qed

lemma history_one: "t \<in> set (pay_allowed s) \<Longrightarrow> \<exists>ts. pay.history s ts \<and> t = last (s # ts)"
  by (rule exI [of _ "[t]"]) simp

text \<open>The effect of \<open>save_intent\<close>.\<close>

lemma stamp_intent_sel [simp]:
  "in_ref (stamp_intent now i) = in_ref i" "in_order_ref (stamp_intent now i) = in_order_ref i"
  "in_method (stamp_intent now i) = in_method i" "in_status (stamp_intent now i) = in_status i"
  "in_amount_q (stamp_intent now i) = in_amount_q i" "in_currency (stamp_intent now i) = in_currency i"
  "in_gateway (stamp_intent now i) = in_gateway i"
  "in_gateway_id (stamp_intent now i) = in_gateway_id i"
  "in_gateway_data (stamp_intent now i) = in_gateway_data i" "in_idem (stamp_intent now i) = in_idem i"
  "in_created_at (stamp_intent now i) = in_created_at i"
  "in_expires_at (stamp_intent now i) = in_expires_at i"
  "in_cancel_reason (stamp_intent now i) = in_cancel_reason i"
  by (auto simp: stamp_intent_def split: pay_status.splits)

lemma stamp_intent_keeps:
  "in_authorized_at i \<noteq> None \<Longrightarrow> in_authorized_at (stamp_intent now i) = in_authorized_at i"
  "in_captured_at i \<noteq> None \<Longrightarrow> in_captured_at (stamp_intent now i) = in_captured_at i"
  "in_cancelled_at i \<noteq> None \<Longrightarrow> in_cancelled_at (stamp_intent now i) = in_cancelled_at i"
  by (auto simp: stamp_intent_def split: pay_status.splits)

lemma save_intent_Inr:
  "save_intent now original i st = Inr (st', j) \<longleftrightarrow>
     (in_status i = original \<or> in_status i \<in> set (pay_allowed original)) \<and>
     j = (if in_status i = original then i else stamp_intent now i) \<and>
     intent_constraints j (filter (\<lambda>x. in_ref x \<noteq> in_ref i) (intents st)) \<and>
     st' = st\<lparr>intents := row_put in_ref j (intents st)\<rparr>"
  by (auto simp: save_intent_def intent_save_def err split: if_splits)

lemma insert_txn_Inr:
  "insert_txn t st = Inr st' \<longleftrightarrow> txn_constraints t (txns st) \<and> st' = st\<lparr>txns := txns st @ [t]\<rparr>"
  by (auto simp: insert_txn_def)

lemma get_for_update_Inr:
  "get_for_update ref st = Inr i \<longleftrightarrow> row_get in_ref ref (intents st) = Some i"
  by (simp add: get_for_update_def split: option.splits)

text \<open>The inversion rules that unfold a verb call that returned.\<close>

lemma got:
  assumes "ebind (get_for_update ref st) f = Inr y"
  obtains i where "row_get in_ref ref (intents st) = Some i" "f i = Inr y"
  using assms by (auto simp: ebind_Inr get_for_update_Inr)

definition saved_row :: "int \<Rightarrow> pay_status \<Rightarrow> intent \<Rightarrow> intent" where
  "saved_row now original i = (if in_status i = original then i else stamp_intent now i)"

lemma saved:
  "ebind (save_intent now original i st) f = Inr y \<longleftrightarrow>
     (in_status i = original \<or> in_status i \<in> set (pay_allowed original)) \<and>
     intent_constraints (saved_row now original i) (filter (\<lambda>x. in_ref x \<noteq> in_ref i) (intents st)) \<and>
     f (st\<lparr>intents := row_put in_ref (saved_row now original i) (intents st)\<rparr>,
        saved_row now original i) = Inr y"
  by (auto simp: ebind_Inr save_intent_Inr saved_row_def)

lemma inserted:
  "ebind (insert_txn t st) f = Inr y \<longleftrightarrow>
     txn_constraints t (txns st) \<and> f (st\<lparr>txns := txns st @ [t]\<rparr>) = Inr y"
  by (auto simp: ebind_Inr insert_txn_Inr)

lemmas verb_inversion = saved inserted Let_def if_Inl_Inr

section \<open>One update\<close>

definition evolves :: "payman \<Rightarrow> payman \<Rightarrow> bool" where
  "evolves st st' \<longleftrightarrow>
     (\<forall>r i. row_get in_ref r (intents st) = Some i \<longrightarrow>
        (\<exists>j. row_get in_ref r (intents st') = Some j \<and> row_evolves i j)) \<and>
     (\<exists>new. txns st' = txns st @ new)"

definition sound_step :: "payman \<Rightarrow> payman \<Rightarrow> bool" where
  "sound_step st st' \<longleftrightarrow> pay_inv st' \<and> evolves st st'"

lemma evolves_refl [simp]: "evolves st st"
  by (auto simp: evolves_def)

lemma evolvesD:
  "evolves st st' \<Longrightarrow> row_get in_ref r (intents st) = Some i \<Longrightarrow>
     \<exists>j. row_get in_ref r (intents st') = Some j \<and> row_evolves i j"
  "evolves st st' \<Longrightarrow> \<exists>new. txns st' = txns st @ new"
  by (auto simp: evolves_def)

lemma evolves_trans: "evolves a b \<Longrightarrow> evolves b c \<Longrightarrow> evolves a c"
proof -
  assume ab: "evolves a b" and bc: "evolves b c"
  have "\<exists>k. row_get in_ref r (intents c) = Some k \<and> row_evolves i k"
    if ra: "row_get in_ref r (intents a) = Some i" for r i
  proof -
    obtain j where j: "row_get in_ref r (intents b) = Some j" "row_evolves i j"
      using evolvesD(1) [OF ab ra] by blast
    then obtain k where "row_get in_ref r (intents c) = Some k" "row_evolves j k"
      using evolvesD(1) [OF bc] by blast
    then show ?thesis using j row_evolves_trans by blast
  qed
  moreover have "\<exists>new. txns c = txns a @ new"
    using evolvesD(2) [OF ab] evolvesD(2) [OF bc] by auto
  ultimately show ?thesis by (auto simp: evolves_def)
qed

lemma sound_step_refl: "pay_inv st \<Longrightarrow> sound_step st st"
  by (simp add: sound_step_def)

lemma sound_step_trans: "sound_step a b \<Longrightarrow> sound_step b c \<Longrightarrow> sound_step a c"
  by (auto simp: sound_step_def intro: evolves_trans)

lemma sound_step_announce [simp]: "sound_step st (announce a st') = sound_step st st'"
  by (simp add: sound_step_def evolves_def)

lemma row_put_put [simp]: "key r = key q \<Longrightarrow> row_put key r (row_put key q rs) = row_put key r rs"
  by (induction rs) auto

text \<open>
  The one lemma every verb uses: the row of \<open>i\<close> becomes \<open>j\<close>, the transactions \<open>new\<close> of that
  intent are appended, and the laws of that row hold again.
\<close>

lemma update_sound:
  assumes inv: "pay_inv st" and i: "row_get in_ref r (intents st) = Some i"
    and j: "row_evolves i j"
    and st': "intents st' = row_put in_ref j (intents st)" "txns st' = txns st @ new"
    and new: "\<forall>t \<in> set new. tx_intent t = in_ref i \<and> 0 < tx_amount_q t"
    and idem: "idems_ok tx_idem (txns st @ new)"
    and ok: "intent_ok j (txns st @ new)"
  shows "sound_step st st' \<and> row_get in_ref r (intents st') = Some j"
proof -
  have ir: "i \<in> set (intents st)" "in_ref i = r" using row_get_SomeD [OF i] by auto
  have jr: "in_ref j = r" "in_idem j = in_idem i" using j ir by (auto simp: row_evolves_def)
  have dist: "distinct (map in_ref (intents st))" using inv by (simp add: pay_inv_def)
  have get: "row_get in_ref k (intents st') =
      (if k = r then Some j else row_get in_ref k (intents st))" for k
    using i jr by (auto simp: st' row_get_put)
  have other: "intent_ok x (txns st @ new)" if "x \<in> set (intents st)" "in_ref x \<noteq> r" for x
  proof -
    have "txn_total ty (in_ref x) (txns st @ new) = txn_total ty (in_ref x) (txns st)" for ty
      using new that ir by (auto simp: txn_total_def intro!: sum_where_none)
    moreover have "captures_of (in_ref x) (txns st @ new) = captures_of (in_ref x) (txns st)"
      using new that ir by (auto simp: captures_of_def filter_empty_conv)
    ultimately show ?thesis using that inv by (simp add: intent_ok_def pay_inv_def)
  qed
  have "map in_idem (intents st') = map in_idem (intents st)"
    using dist ir jr by (auto simp: st' row_put_def distinct_map inj_on_def)
  then have idem_i: "idems_ok in_idem (intents st')" using inv by (simp add: idems_ok_def pay_inv_def)
  have refs: "in_ref ` set (intents st') = in_ref ` set (intents st)"
    by (metis st'(1) map_key_row_put set_map)
  have "pay_inv st'"
    unfolding pay_inv_def
  proof (intro conjI)
    show "distinct (map in_ref (intents st'))" using dist by (simp add: st')
    show "\<forall>x \<in> set (intents st'). intent_ok x (txns st')"
      using ok other by (auto simp: st' set_row_put jr)
    show "\<forall>t \<in> set (txns st'). 0 < tx_amount_q t \<and> tx_intent t \<in> in_ref ` set (intents st')"
      unfolding refs using new inv ir by (auto simp: st' pay_inv_def)
    show "idems_ok in_idem (intents st')" by (rule idem_i)
    show "idems_ok tx_idem (txns st')" using idem by (simp add: st')
  qed
  moreover have "evolves st st'"
    unfolding evolves_def using get i j st' by auto
  ultimately show ?thesis using get by (simp add: sound_step_def)
qed

lemma update_sound_one:
  assumes "pay_inv st" "row_get in_ref r (intents st) = Some i" "row_evolves i j"
    "intents st' = row_put in_ref j (intents st)" "txns st' = txns st @ [t]" "tx_intent t = in_ref i"
    "txn_constraints t (txns st)" "intent_ok j (txns st @ [t])"
  shows "sound_step st st' \<and> row_get in_ref r (intents st') = Some j"
  using assms
  by (intro update_sound [where new = "[t]"])
    (auto simp: pay_inv_def idems_ok_snoc txn_constraints_def)

lemma update_sound_none:
  assumes "pay_inv st" "row_get in_ref r (intents st) = Some i" "row_evolves i j"
    "intents st' = row_put in_ref j (intents st)" "txns st' = txns st" "intent_ok j (txns st)"
  shows "sound_step st st' \<and> row_get in_ref r (intents st') = Some j"
  using assms by (intro update_sound [where new = "[]"]) (auto simp: pay_inv_def)

section \<open>The verbs keep the laws\<close>

lemma pay_invD:
  assumes "pay_inv st" "row_get in_ref r (intents st) = Some i"
  shows "intent_ok i (txns st)" "in_ref i = r" "i \<in> set (intents st)"
  using assms row_get_SomeD [OF assms(2)] by (auto simp: pay_inv_def)

lemma row_evolves_move:
  assumes "in_ref j = in_ref i" "in_order_ref j = in_order_ref i" "in_method j = in_method i"
    "in_amount_q j = in_amount_q i" "in_currency j = in_currency i" "in_idem j = in_idem i"
    "in_created_at j = in_created_at i" "in_expires_at j = in_expires_at i" "in_gateway j = in_gateway i"
    "in_gateway_id i \<noteq> [] \<longrightarrow> in_gateway_id j \<noteq> []"
    "in_authorized_at j = in_authorized_at i" "in_captured_at j = in_captured_at i"
    "in_cancelled_at j = in_cancelled_at i"
    "in_status j = in_status i \<or> in_status j \<in> set (pay_allowed (in_status i))"
  shows "row_evolves i j" "row_evolves i (stamp_intent now j)"
proof -
  have "\<exists>ts. pay.history (in_status i) ts \<and> in_status j = last (in_status i # ts)"
    using assms(14) history_one by (metis last.simps pay.history.simps(1))
  then show "row_evolves i j" "row_evolves i (stamp_intent now j)"
    using assms by (auto simp: row_evolves_def stamp_intent_keeps)
qed

lemma stamps_ok_stamp:
  "stamps_ok i \<Longrightarrow> in_status j \<in> set (pay_allowed (in_status i)) \<Longrightarrow>
     in_authorized_at j = in_authorized_at i \<Longrightarrow> in_captured_at j = in_captured_at i \<Longrightarrow>
     stamps_ok (stamp_intent now j)"
  by (cases "in_status i") (auto simp: stamps_ok_def stamp_intent_def split: pay_status.splits)

text \<open>A move that writes no transaction never enters or leaves the captured statuses.\<close>

lemma intent_ok_move:
  assumes "intent_ok i ts" "in_status j \<in> set (pay_allowed (in_status i))"
    "\<not> money_in (in_status i)" "\<not> money_in (in_status j)"
    "in_ref j = in_ref i" "in_amount_q j = in_amount_q i"
    "in_authorized_at j = in_authorized_at i" "in_captured_at j = in_captured_at i"
  shows "intent_ok (stamp_intent now j) ts"
  using assms stamps_ok_stamp [of i j now]
  by (auto simp: intent_ok_def money_ok_def money_in_def)

lemma saved_row_sel [simp]:
  "in_ref (saved_row now s i) = in_ref i" "in_order_ref (saved_row now s i) = in_order_ref i"
  "in_method (saved_row now s i) = in_method i" "in_status (saved_row now s i) = in_status i"
  "in_amount_q (saved_row now s i) = in_amount_q i" "in_currency (saved_row now s i) = in_currency i"
  "in_gateway_id (saved_row now s i) = in_gateway_id i" "in_idem (saved_row now s i) = in_idem i"
  "in_gateway_data (saved_row now s i) = in_gateway_data i" "in_gateway (saved_row now s i) = in_gateway i"
  by (simp_all add: saved_row_def)

lemma saved_row_moved: "in_status i \<noteq> s \<Longrightarrow> saved_row now s i = stamp_intent now i"
  by (simp add: saved_row_def)

lemma cancel_sound:
  assumes inv: "pay_inv st" and c: "cancel now ref reason st = Inr (st', j)"
  shows "sound_step st st'"
proof -
  from c obtain i where i: "row_get in_ref ref (intents st) = Some i"
    and r: "Pay_Cancelled \<in> set (pay_allowed (in_status i))"
      "announce (Payment_cancelled (in_ref i) (in_order_ref i))
         (st\<lparr>intents := row_put in_ref (stamp_intent now
            (i\<lparr>in_status := Pay_Cancelled, in_cancel_reason := reason\<rparr>)) (intents st)\<rparr>) = st'"
    unfolding cancel_def
    by (elim got) (auto simp: verb_inversion can_transition_to_def saved_row_def split: if_splits)
  let ?j = "stamp_intent now (i\<lparr>in_status := Pay_Cancelled, in_cancel_reason := reason\<rparr>)"
  have "intent_ok ?j (txns st)"
    by (rule intent_ok_move [OF pay_invD(1) [OF inv i]]) (use r in \<open>cases "in_status i", auto\<close>)+
  moreover have "row_evolves i ?j" using r by (intro row_evolves_move) auto
  ultimately show ?thesis
    using update_sound_none [OF inv i, of ?j "st\<lparr>intents := row_put in_ref ?j (intents st)\<rparr>"] r
    by auto
qed

lemma fail_sound:
  assumes inv: "pay_inv st" and c: "fail now ref ec msg st = Inr (st', j)"
  shows "sound_step st st'"
proof -
  let ?d = "\<lambda>i. if ec \<noteq> [] \<or> msg \<noteq> []
      then dset ''error_message'' (JStr msg) (dset ''error_code'' (JStr ec) (in_gateway_data i))
      else in_gateway_data i"
  let ?j = "\<lambda>i. stamp_intent now (i\<lparr>in_status := Pay_Failed, in_gateway_data := ?d i\<rparr>)"
  from c obtain i where i: "row_get in_ref ref (intents st) = Some i"
    and r: "Pay_Failed \<in> set (pay_allowed (in_status i))"
      "announce (Payment_failed (in_ref i) (in_order_ref i) ec msg)
         (st\<lparr>intents := row_put in_ref (?j i) (intents st)\<rparr>) = st'"
    unfolding fail_def
    by (elim got) (auto simp: verb_inversion can_transition_to_def saved_row_def simp del: dget_dset
          split: if_splits)
  have "intent_ok (?j i) (txns st)"
    by (rule intent_ok_move [OF pay_invD(1) [OF inv i]]) (use r in \<open>cases "in_status i", auto\<close>)+
  moreover have "row_evolves i (?j i)" using r by (intro row_evolves_move) auto
  ultimately show ?thesis
    using update_sound_none [OF inv i, of "?j i" "st\<lparr>intents := row_put in_ref (?j i) (intents st)\<rparr>"] r
    by auto
qed

lemma authorize_sound:
  assumes inv: "pay_inv st" and c: "authorize now ref gid gdata st = Inr (st', j)"
  shows "sound_step st st'"
proof -
  let ?j = "\<lambda>i. stamp_intent now (i\<lparr>in_status := Pay_Authorized,
      in_gateway_id := (if gid \<noteq> [] then gid else in_gateway_id i),
      in_gateway_data := dmerge (in_gateway_data i) gdata\<rparr>)"
  from c obtain i where i: "row_get in_ref ref (intents st) = Some i"
    and r: "in_status i = Pay_Pending"
      "announce (Payment_authorized (in_ref i) (in_order_ref i) (in_amount_q i) (in_method i))
         (st\<lparr>intents := row_put in_ref (?j i) (intents st)\<rparr>) = st'"
    unfolding authorize_def
    by (elim got) (auto simp: verb_inversion saved_row_def split: if_splits)
  have "intent_ok (?j i) (txns st)"
    by (rule intent_ok_move [OF pay_invD(1) [OF inv i]]) (use r in auto)
  moreover have "row_evolves i (?j i)" using r by (intro row_evolves_move) auto
  ultimately show ?thesis
    using update_sound_none [OF inv i, of "?j i" "st\<lparr>intents := row_put in_ref (?j i) (intents st)\<rparr>"] r
    by auto
qed

lemma intent_ok_captured:
  assumes "intent_ok i ts" "\<not> money_in (in_status i)" "in_status j = Pay_Captured"
    "in_ref j = in_ref i" "in_amount_q j = in_amount_q i"
    "in_authorized_at j \<noteq> None" "in_captured_at j \<noteq> None"
    "tx_intent t = in_ref i" "tx_type t = Capture_txn" "0 < tx_amount_q t" "tx_amount_q t \<le> in_amount_q i"
  shows "intent_ok j (ts @ [t])"
  using assms by (auto simp: intent_ok_def money_ok_def stamps_ok_def)

lemma intent_ok_refunded:
  assumes "intent_ok i ts" "money_in (in_status i)" "in_status j = Pay_Refunded"
    "in_ref j = in_ref i" "in_amount_q j = in_amount_q i" "stamps_ok j"
    "tx_intent t = in_ref i" "tx_type t = Refund_txn" "0 < tx_amount_q t"
    "refunded_of (in_ref i) ts + tx_amount_q t \<le> captured_of (in_ref i) ts"
  shows "intent_ok j (ts @ [t])"
  using assms by (auto simp: intent_ok_def money_ok_def)

lemma intent_ok_chargeback:
  assumes "intent_ok i ts" "money_in (in_status i)" "tx_intent t = in_ref i" "tx_type t = Chargeback_txn"
    "0 < tx_amount_q t" "chargeback_of (in_ref i) ts + tx_amount_q t \<le> captured_of (in_ref i) ts"
  shows "intent_ok i (ts @ [t])"
  using assms by (auto simp: intent_ok_def money_ok_def)

lemma capture_sound:
  assumes inv: "pay_inv st" and c: "capture now ref amount gid gdata st = Inr (st', t)"
  shows "sound_step st st'"
proof -
  let ?j = "\<lambda>i. stamp_intent now (i\<lparr>in_gateway_data := dmerge (in_gateway_data i) gdata,
      in_status := Pay_Captured\<rparr>)"
  from c obtain i where i: "row_get in_ref ref (intents st) = Some i"
    and r: "in_status i = Pay_Authorized" "tx_intent t = in_ref i" "tx_type t = Capture_txn"
      "0 < tx_amount_q t" "tx_amount_q t \<le> in_amount_q i" "txn_constraints t (txns st)"
      "announce (Payment_captured (in_ref i) (in_order_ref i) (tx_amount_q t) t)
         (st\<lparr>intents := row_put in_ref (?j i) (intents st), txns := txns st @ [t]\<rparr>) = st'"
    unfolding capture_def
    by (elim got) (auto simp: verb_inversion saved_row_def split: if_splits)
  have "intent_ok (?j i) (txns st @ [t])"
    by (rule intent_ok_captured [OF pay_invD(1) [OF inv i]])
      (use r pay_invD(1) [OF inv i] in \<open>auto simp: stamp_intent_def intent_ok_def stamps_ok_def\<close>)
  moreover have "row_evolves i (?j i)" using r by (intro row_evolves_move) auto
  ultimately show ?thesis
    using update_sound_one [OF inv i, of "?j i"
        "st\<lparr>intents := row_put in_ref (?j i) (intents st), txns := txns st @ [t]\<rparr>" t] r
    by auto
qed

text \<open>A refund: no write on a replay, otherwise exactly one refund transaction.\<close>

lemma refund_cases:
  assumes "refund seen now ref amount reason gid idem st = Inr (st', t)"
  obtains (replay) "st' = st" "\<forall>n rs. refund seen n ref amount rs gid idem st = Inr (st, t)"
  | (fresh) i where "row_get in_ref ref (intents st) = Some i" "money_in (in_status i)"
      "tx_intent t = in_ref i" "tx_type t = Refund_txn" "0 < tx_amount_q t"
      "tx_amount_q t = (case amount of Some a \<Rightarrow> a
         | None \<Rightarrow> captured_of (in_ref i) (txns st) - returned_total (in_ref i) (txns st))"
      "tx_amount_q t \<le> captured_of (in_ref i) (txns st) - returned_total (in_ref i) (txns st)"
      "tx_idem t = strip idem" "tx_reason t = reason" "tx_gateway_id t = gid"
      "txn_constraints t (txns st)"
      "st' = announce (Payment_refunded (in_ref i) (in_order_ref i) (tx_amount_q t) t)
         (if in_status i = Pay_Refunded then st\<lparr>txns := txns st @ [t]\<rparr>
          else st\<lparr>intents := row_put in_ref (stamp_intent now (i\<lparr>in_status := Pay_Refunded\<rparr>)) (intents st),
                  txns := txns st @ [t]\<rparr>)"
proof -
  from assms obtain i where i: "row_get in_ref ref (intents st) = Some i" by (auto simp: refund_def elim: got)
  note g = i [folded get_for_update_Inr]
  have "(st' = st \<and> (\<forall>n rs. refund seen n ref amount rs gid idem st = Inr (st, t))) \<or>
      refund_fresh now i amount reason gid (strip idem) st = Inr (st', t)"
    using assms unfolding refund_def g ebind_simps Let_def
    by (auto split: if_splits option.splits simp: ebind_Inr)
  then consider "st' = st" "\<forall>n rs. refund seen n ref amount rs gid idem st = Inr (st, t)"
    | "refund_fresh now i amount reason gid (strip idem) st = Inr (st', t)" by blast
  then show thesis
  proof cases
    case 1
    then show thesis by (rule replay)
  next
    case 2
    then have f: "refund_fresh now i amount reason gid (strip idem) st = Inr (st', t)" .
    then have m: "money_in (in_status i)" by (auto simp: refund_fresh_def money_in_def split: if_splits)
    from f have k: "insert_txn t st = Inr (st\<lparr>txns := txns st @ [t]\<rparr>)" and
      u: "st' = announce (Payment_refunded (in_ref i) (in_order_ref i) (tx_amount_q t) t)
         (if in_status i = Pay_Refunded then st\<lparr>txns := txns st @ [t]\<rparr>
          else st\<lparr>intents := row_put in_ref (stamp_intent now (i\<lparr>in_status := Pay_Refunded\<rparr>)) (intents st),
                  txns := txns st @ [t]\<rparr>)"
      by (auto simp: refund_fresh_def saved saved_row_def insert_txn_def Let_def
          split: if_splits sum.splits)
    from f have a: "tx_intent t = in_ref i" "tx_type t = Refund_txn" "0 < tx_amount_q t"
      "tx_amount_q t = (case amount of Some a \<Rightarrow> a
         | None \<Rightarrow> captured_of (in_ref i) (txns st) - returned_total (in_ref i) (txns st))"
      "tx_amount_q t \<le> captured_of (in_ref i) (txns st) - returned_total (in_ref i) (txns st)"
      "tx_idem t = strip idem" "tx_reason t = reason" "tx_gateway_id t = gid"
      by (auto simp: refund_fresh_def saved saved_row_def insert_txn_def Let_def
          split: if_splits sum.splits option.splits)
    show thesis
      by (rule fresh [OF i m a _ u]) (use k in \<open>auto simp: insert_txn_def split: if_splits\<close>)
  qed
qed

lemma refund_sound:
  assumes inv: "pay_inv st" and c: "refund seen now ref amount reason gid idem st = Inr (st', t)"
  shows "sound_step st st'"
  using c
proof (cases rule: refund_cases)
  case replay
  then show ?thesis using inv by (simp add: sound_step_refl)
next
  case (fresh i)
  note ok = pay_invD(1) [OF inv fresh(1)]
  define j where
    "j = (if in_status i = Pay_Refunded then i else stamp_intent now (i\<lparr>in_status := Pay_Refunded\<rparr>))"
  have put: "row_put in_ref j (intents st) = intents st" if "in_status i = Pay_Refunded"
    using that fresh(1) inv pay_invD(3) [OF inv fresh(1)]
    by (simp add: j_def row_put_same pay_inv_def)
  have "0 \<le> chargeback_of (in_ref i) (txns st)" using ok by (auto simp: intent_ok_def money_ok_def)
  then have "intent_ok j (txns st @ [t])"
    using ok fresh
    by (intro intent_ok_refunded [OF ok])
      (auto simp: j_def returned_total_def intent_ok_def stamps_ok_def stamp_intent_def money_in_def)
  moreover have "row_evolves i j"
    using fresh(2) by (auto simp: j_def money_in_def intro!: row_evolves_move(2))
  ultimately show ?thesis
    using update_sound_one [OF inv fresh(1), of j
        "st\<lparr>intents := row_put in_ref j (intents st), txns := txns st @ [t]\<rparr>" t] fresh put
    by (auto simp: j_def split: if_splits)
qed

lemma new_intent_sel [simp]:
  "in_status (new_intent now fr key a) = Pay_Pending" "in_amount_q (new_intent now fr key a) = ca_amount_q a"
  "in_idem (new_intent now fr key a) = key" "in_method (new_intent now fr key a) = ca_method a"
  "in_order_ref (new_intent now fr key a) = ca_order_ref a"
  "in_currency (new_intent now fr key a) = ca_currency a"
  "in_gateway (new_intent now fr key a) = ca_gateway a"
  "in_gateway_data (new_intent now fr key a) = ca_gateway_data a"
  "in_authorized_at (new_intent now fr key a) = None" "in_captured_at (new_intent now fr key a) = None"
  "in_cancelled_at (new_intent now fr key a) = None"
  by (simp_all add: new_intent_def)

lemma insert_intent_sound:
  assumes inv: "pay_inv st" and c: "insert_intent i st = Inr st'" and p: "in_status i = Pay_Pending"
  shows "sound_step st st' \<and> row_get in_ref (in_ref i) (intents st') = Some i"
proof -
  have st': "st' = st\<lparr>intents := intents st @ [i]\<rparr>" and k: "intent_constraints i (intents st)"
    using c by (auto simp: insert_intent_def split: if_splits)
  have new: "in_ref i \<notin> in_ref ` set (intents st)" using k by (auto simp: intent_constraints_def)
  have "\<forall>t \<in> set (txns st). tx_intent t \<noteq> in_ref i"
    using new inv unfolding pay_inv_def by metis
  note no = no_txns [OF this]
  have "intent_ok i (txns st)"
    using p k by (simp add: intent_ok_def no money_ok_def stamps_ok_def intent_constraints_def)
  then have "pay_inv st'"
    using inv k new by (auto simp: pay_inv_def st' idems_ok_snoc intent_constraints_def)
  moreover have "evolves st st'" by (auto simp: evolves_def st' row_get_append)
  moreover have "row_get in_ref (in_ref i) (intents st') = Some i"
    using new by (simp add: st' row_get_append row_get_None_iff [THEN iffD2])
  ultimately show ?thesis by (simp add: sound_step_def)
qed

text \<open>What \<open>create_intent\<close> does: a replay of a stored intent, or one new row.\<close>

lemma create_cases:
  assumes "create_intent at seen now fr a st = Inr (st', i)"
  obtains (replay) "st' = st" "require_idempotent_match i a = Inr ()" "strip (ca_idem a) \<noteq> []"
      "in_idem i = strip (ca_idem a)" "i \<in> set seen \<or> i \<in> set (intents st)"
  | (new) "i = new_intent now fr (strip (ca_idem a)) a" "insert_intent i st = Inr st'" "0 < ca_amount_q a"
  using assms unfolding create_intent_def
  by (auto simp: Let_def ebind_Inr split: if_splits option.splits sum.splits dest: latest_Some)

lemma create_sound:
  assumes "pay_inv st" "create_intent at seen now fr a st = Inr (st', i)"
  shows "sound_step st st'"
  using assms(2)
  by (cases rule: create_cases) (auto simp: sound_step_refl assms(1) dest!: insert_intent_sound [OF assms(1)])

abbreviation settle_txn :: "int \<Rightarrow> intent \<Rightarrow> txn" where
  "settle_txn now i \<equiv> \<lparr>tx_intent = in_ref i, tx_type = Capture_txn, tx_amount_q = in_amount_q i,
     tx_gateway_id = [], tx_reason = [], tx_idem = [], tx_created_at = now\<rparr>"

lemma settle_sound:
  assumes inv: "pay_inv st"
    and c: "settle seen now fr order_ref amount pm cur gdata ref idem asserted st = Inr (st', j)"
  shows "sound_step st st'"
proof -
  from c obtain st1 a created where k: "create_intent True seen now fr a st = Inr (st1, created)"
    and g: "ebind (get_for_update (in_ref created) st1) (\<lambda>i.
        if in_status i \<in> {Pay_Captured, Pay_Refunded} then Inr (st1, i)
        else if in_status i \<noteq> Pay_Pending then Inl Invalid_transition
        else
          ebind (save_intent now (in_status i) (i\<lparr>in_status := Pay_Authorized\<rparr>) st1) (\<lambda>(st2, i2).
          ebind (save_intent now (in_status i2) (i2\<lparr>in_status := Pay_Captured\<rparr>) st2) (\<lambda>(st3, i3).
          let t = \<lparr>tx_intent = in_ref i3, tx_type = Capture_txn, tx_amount_q = in_amount_q i3,
                   tx_gateway_id = [], tx_reason = [], tx_idem = [], tx_created_at = now\<rparr> in
          ebind (insert_txn t st3) (\<lambda>st4.
          Inr (announce (Payment_captured (in_ref i3) (in_order_ref i3) (in_amount_q i3) t) st4, i3))))) =
       Inr (st', j)"
    unfolding settle_def by (auto simp: ebind_Inr [where m = "create_intent _ _ _ _ _ _"] split: if_splits)
  have s1: "sound_step st st1" by (rule create_sound [OF inv k])
  then have inv1: "pay_inv st1" by (simp add: sound_step_def)
  from g obtain i where i: "row_get in_ref (in_ref created) (intents st1) = Some i" and
    r: "st' = st1 \<or> in_status i = Pay_Pending \<and> txn_constraints (settle_txn now i) (txns st1) \<and>
          st' = announce (Payment_captured (in_ref i) (in_order_ref i) (in_amount_q i) (settle_txn now i))
            (st1\<lparr>intents := row_put in_ref (stamp_intent now ((stamp_intent now (i\<lparr>in_status := Pay_Authorized\<rparr>))\<lparr>in_status := Pay_Captured\<rparr>)) (intents st1),
               txns := txns st1 @ [settle_txn now i]\<rparr>)"
    by (elim got) (auto simp: verb_inversion saved_row_def split: if_splits)
  show ?thesis
  proof (cases "st' = st1")
    case True
    then show ?thesis using s1 by simp
  next
    case False
    define m where "m = stamp_intent now (i\<lparr>in_status := Pay_Authorized\<rparr>)"
    define n where "n = stamp_intent now (m\<lparr>in_status := Pay_Captured\<rparr>)"
    define t where "t = settle_txn now i"
    from False r have t: "in_status i = Pay_Pending" "st' =
          announce (Payment_captured (in_ref i) (in_order_ref i) (in_amount_q i) t)
            (st1\<lparr>intents := row_put in_ref n (intents st1), txns := txns st1 @ [t]\<rparr>)"
      "txn_constraints t (txns st1)" "tx_intent t = in_ref i" "tx_type t = Capture_txn"
      "tx_amount_q t = in_amount_q i"
      unfolding m_def n_def t_def by auto
    have "row_evolves i m" unfolding m_def using t by (intro row_evolves_move) auto
    moreover have "row_evolves m n" unfolding n_def
      by (intro row_evolves_move) (auto simp: m_def)
    ultimately have e: "row_evolves i n" by (rule row_evolves_trans)
    have "intent_ok n (txns st1 @ [t])"
      by (rule intent_ok_captured [OF pay_invD(1) [OF inv1 i]])
        (use t pay_invD(1) [OF inv1 i] in
          \<open>auto simp: n_def m_def stamp_intent_def intent_ok_def money_ok_def\<close>)
    then have "sound_step st1 st'"
      using update_sound_one [OF inv1 i e, of
          "st1\<lparr>intents := row_put in_ref n (intents st1), txns := txns st1 @ [t]\<rparr>" t] t
      by auto
    with s1 show ?thesis by (rule sound_step_trans)
  qed
qed

lemma charge_sound:
  assumes inv: "pay_inv st"
    and c: "charge_to_account seen now fr order_ref amount cust cur gdata ref idem st = Inr (st', j)"
  shows "sound_step st st'"
proof -
  from c obtain st1 a created where k: "create_intent True seen now fr a st = Inr (st1, created)"
    and g: "ebind (get_for_update (in_ref created) st1) (\<lambda>i.
        if in_status i \<noteq> Pay_Pending then Inr (st1, i)
        else
          ebind (save_intent now (in_status i) (i\<lparr>in_status := Pay_Authorized\<rparr>) st1) (\<lambda>(st2, i2).
          Inr (announce (Payment_authorized (in_ref i2) (in_order_ref i2) (in_amount_q i2) (in_method i2)) st2,
               i2))) = Inr (st', j)"
    unfolding charge_to_account_def
    by (auto simp: ebind_Inr [where m = "create_intent _ _ _ _ _ _"] split: if_splits)
  have s1: "sound_step st st1" by (rule create_sound [OF inv k])
  then have inv1: "pay_inv st1" by (simp add: sound_step_def)
  from g obtain i where i: "row_get in_ref (in_ref created) (intents st1) = Some i" and
    r: "st' = st1 \<or> in_status i = Pay_Pending \<and> st' =
          announce (Payment_authorized (in_ref i) (in_order_ref i) (in_amount_q i) (in_method i))
            (st1\<lparr>intents := row_put in_ref (stamp_intent now (i\<lparr>in_status := Pay_Authorized\<rparr>)) (intents st1)\<rparr>)"
    by (elim got) (auto simp: verb_inversion saved_row_def split: if_splits)
  let ?j = "stamp_intent now (i\<lparr>in_status := Pay_Authorized\<rparr>)"
  show ?thesis
  proof (cases "st' = st1")
    case True
    then show ?thesis using s1 by simp
  next
    case False
    with r have p: "in_status i = Pay_Pending" by simp
    have "row_evolves i ?j" using p by (intro row_evolves_move) auto
    moreover have "intent_ok ?j (txns st1)"
      by (rule intent_ok_move [OF pay_invD(1) [OF inv1 i]]) (use p in auto)
    ultimately have "sound_step st1 st'"
      using update_sound_none [OF inv1 i, of ?j "st1\<lparr>intents := row_put in_ref ?j (intents st1)\<rparr>"] r False
      by auto
    with s1 show ?thesis by (rule sound_step_trans)
  qed
qed

end
