(* ===== verification/PaymanReconLaws.thy ===== *)
theory PaymanReconLaws
  imports PaymanLaws
begin

text \<open>
  The reconciliation keeps the laws of the store, phase by phase: \<open>rc_ok\<close> holds between the
  phases, and each phase lemma also says what the phase does to the three totals.
\<close>

definition rc_ok :: "payman \<Rightarrow> string \<Rightarrow> recon \<Rightarrow> bool" where
  "rc_ok st0 r rc \<longleftrightarrow>
     sound_step st0 (rc_db rc) \<and> row_get in_ref r (intents (rc_db rc)) = Some (rc_intent rc)"

lemma rc_okD:
  assumes "rc_ok st0 r rc"
  shows "pay_inv (rc_db rc)" "in_ref (rc_intent rc) = r"
    "intent_ok (rc_intent rc) (txns (rc_db rc))"
    "row_get in_ref r (intents (rc_db rc)) = Some (rc_intent rc)" "sound_step st0 (rc_db rc)"
  using assms pay_invD [of "rc_db rc" r "rc_intent rc"] by (auto simp: rc_ok_def sound_step_def)

lemma recon_saved:
  "ebind (recon_save now i rc) f = Inr y \<longleftrightarrow>
     (in_status i = in_status (rc_intent rc) \<or> in_status i \<in> set (pay_allowed (in_status (rc_intent rc)))) \<and>
     intent_constraints (saved_row now (in_status (rc_intent rc)) i)
       (filter (\<lambda>x. in_ref x \<noteq> in_ref i) (intents (rc_db rc))) \<and>
     f (rc\<lparr>rc_db := (rc_db rc)\<lparr>intents := row_put in_ref (saved_row now (in_status (rc_intent rc)) i)
                                              (intents (rc_db rc))\<rparr>,
           rc_intent := saved_row now (in_status (rc_intent rc)) i\<rparr>) = Inr y"
  by (simp add: recon_save_def ebind_assoc saved split_def)

lemma recon_save_Inr:
  "recon_save now i rc = Inr rc' \<longleftrightarrow>
     (in_status i = in_status (rc_intent rc) \<or> in_status i \<in> set (pay_allowed (in_status (rc_intent rc)))) \<and>
     intent_constraints (saved_row now (in_status (rc_intent rc)) i)
       (filter (\<lambda>x. in_ref x \<noteq> in_ref i) (intents (rc_db rc))) \<and>
     rc' = rc\<lparr>rc_db := (rc_db rc)\<lparr>intents := row_put in_ref (saved_row now (in_status (rc_intent rc)) i)
                                              (intents (rc_db rc))\<rparr>,
           rc_intent := saved_row now (in_status (rc_intent rc)) i\<rparr>"
  using recon_saved [of now i rc Inr rc'] by (cases "recon_save now i rc") auto

lemma recon_inserted:
  "ebind (recon_insert t rc) f = Inr y \<longleftrightarrow>
     txn_constraints t (txns (rc_db rc)) \<and>
     f (rc\<lparr>rc_db := (rc_db rc)\<lparr>txns := txns (rc_db rc) @ [t]\<rparr>\<rparr>) = Inr y"
  by (simp add: recon_insert_def ebind_assoc inserted)

lemma recon_sel [simp]:
  "rc_db (recon_did a rc) = rc_db rc" "rc_intent (recon_did a rc) = rc_intent rc"
  "rc_actions (recon_did a rc) = rc_actions rc @ [a]" "rc_changed (recon_did a rc)"
  "rc_db (recon_announce an rc) = announce an (rc_db rc)"
  "rc_intent (recon_announce an rc) = rc_intent rc"
  "rc_actions (recon_announce an rc) = rc_actions rc"
  by (simp_all add: recon_did_def recon_announce_def)

lemma recon_txn_sel [simp]:
  "tx_intent (recon_txn now rc ty amt gid reason) = in_ref (rc_intent rc)"
  "tx_type (recon_txn now rc ty amt gid reason) = ty"
  "tx_amount_q (recon_txn now rc ty amt gid reason) = amt"
  by (simp_all add: recon_txn_def)

lemma rc_ok_move:
  assumes ok: "rc_ok st0 r rc" and row: "row_evolves (rc_intent rc) j"
    and j: "intent_ok j (txns (rc_db rc))"
    and rc': "intents (rc_db rc') = row_put in_ref j (intents (rc_db rc))"
      "txns (rc_db rc') = txns (rc_db rc)" "rc_intent rc' = j"
  shows "rc_ok st0 r rc'"
  using update_sound_none [OF rc_okD(1,4) [OF ok] row rc'(1,2) j] rc_okD(5) [OF ok]
  by (auto simp: rc_ok_def rc'(3) intro: sound_step_trans)

lemma rc_ok_txn:
  assumes ok: "rc_ok st0 r rc" and row: "row_evolves (rc_intent rc) j"
    and rc': "intents (rc_db rc') = row_put in_ref j (intents (rc_db rc))"
      "txns (rc_db rc') = txns (rc_db rc) @ [t]" "rc_intent rc' = j"
    and t: "tx_intent t = r" "txn_constraints t (txns (rc_db rc))"
    and j: "intent_ok j (txns (rc_db rc) @ [t])"
  shows "rc_ok st0 r rc'"
  using update_sound_one [OF rc_okD(1,4) [OF ok] row rc'(1,2) _ t(2) j] rc_okD(2,5) [OF ok] t(1)
  by (auto simp: rc_ok_def rc'(3) intro: sound_step_trans)

lemma put_own: "rc_ok st0 r rc \<Longrightarrow> row_put in_ref (rc_intent rc) (intents (rc_db rc)) = intents (rc_db rc)"
  using rc_okD(1,4) [of st0 r rc] by (auto simp: row_put_same pay_inv_def dest: row_get_SomeD)

section \<open>The phases\<close>

lemma prepare_phase:
  assumes inv: "pay_inv st" and i: "row_get in_ref r (intents st) = Some i"
    and p: "recon_prepare now sn i st = Inr rc"
  shows "rc_ok st r rc" "txns (rc_db rc) = txns st" "in_status (rc_intent rc) = in_status i"
    "rc_actions rc = []" "announced (rc_db rc) = announced st"
proof -
  have ok0: "rc_ok st r \<lparr>rc_db = st, rc_intent = i, rc_actions = [], rc_changed = b\<rparr>" for b
    using inv i by (simp add: rc_ok_def sound_step_refl)
  note ok = pay_invD(1) [OF inv i]
  define j where "j = (let i1 = (if sn_gateway_id sn \<noteq> [] \<and> in_gateway_id i = []
      then i\<lparr>in_gateway_id := sn_gateway_id sn\<rparr> else i) in
      if sn_gateway_data sn \<noteq> []
      then i1\<lparr>in_gateway_data := dmerge (in_gateway_data i1) (sn_gateway_data sn)\<rparr> else i1)"
  have j: "in_status j = in_status i" "row_evolves i j" "intent_ok j (txns st)"
    using ok by (auto simp: j_def Let_def intent_ok_def stamps_ok_def intro!: row_evolves_move(1))
  have rc: "(rc_db rc, rc_intent rc) = (st\<lparr>intents := row_put in_ref j (intents st)\<rparr>, j) \<and> rc_actions rc = []
      \<or> (rc_db rc, rc_intent rc) = (st, i) \<and> rc_actions rc = []"
    using p j(1)
    by (auto simp: recon_prepare_def Let_def recon_save_Inr saved_row_def j_def split: if_splits)
  moreover have "rc_ok st r rc" if "rc_db rc = st\<lparr>intents := row_put in_ref j (intents st)\<rparr>" "rc_intent rc = j"
    using rc_ok_move [OF ok0 [of False], where j = j and rc' = rc] j that by simp
  moreover have "rc_ok st r rc" if "rc_db rc = st" "rc_intent rc = i"
    using that ok0 [of False] by (simp add: rc_ok_def)
  ultimately show "rc_ok st r rc" by blast
  show "txns (rc_db rc) = txns st" "in_status (rc_intent rc) = in_status i" "rc_actions rc = []"
    "announced (rc_db rc) = announced st"
    using rc j by auto
qed

lemma to_authorized_phase:
  assumes ok: "rc_ok st0 r rc" and s: "in_status (rc_intent rc) = Pay_Pending"
    and p: "recon_to_authorized now rc = Inr rc'"
  shows "rc_ok st0 r rc'" "txns (rc_db rc') = txns (rc_db rc)" "in_status (rc_intent rc') = Pay_Authorized"
proof -
  let ?j = "stamp_intent now ((rc_intent rc)\<lparr>in_status := Pay_Authorized\<rparr>)"
  have r: "intents (rc_db rc') = row_put in_ref ?j (intents (rc_db rc))"
    "txns (rc_db rc') = txns (rc_db rc)" "rc_intent rc' = ?j"
    using p s by (auto simp: recon_to_authorized_def recon_saved saved_row_def Let_def)
  have "row_evolves (rc_intent rc) ?j" using s by (intro row_evolves_move) auto
  moreover have "intent_ok ?j (txns (rc_db rc))"
    by (rule intent_ok_move [OF rc_okD(3) [OF ok]]) (use s in auto)
  ultimately show "rc_ok st0 r rc'" using rc_ok_move [OF ok _ _ r] by blast
  show "txns (rc_db rc') = txns (rc_db rc)" "in_status (rc_intent rc') = Pay_Authorized"
    by (simp_all add: r)
qed

lemma authorize_phase:
  assumes "rc_ok st0 r rc" "recon_authorize now rs rc = Inr rc'"
  shows "rc_ok st0 r rc'" "txns (rc_db rc') = txns (rc_db rc)"
  using assms to_authorized_phase [OF assms(1)]
  by (auto simp: recon_authorize_def split: if_splits)


text \<open>What validation and resolution promise about the snapshot.\<close>

definition snap_ok :: "intent \<Rightarrow> resolved \<Rightarrow> bool" where
  "snap_ok i rs \<longleftrightarrow> 0 \<le> rs_captured_q rs \<and> 0 \<le> rs_refunded_q rs \<and> 0 \<le> rs_chargeback_q rs \<and>
     rs_amount_q rs = in_amount_q i \<and> rs_captured_q rs \<le> in_amount_q i \<and>
     rs_refunded_q rs + rs_chargeback_q rs \<le> rs_captured_q rs"

lemma validated: "validate_gateway_snapshot i rs gid = Inr u \<Longrightarrow> snap_ok i rs"
  by (auto simp: validate_gateway_snapshot_def snap_ok_def split: if_splits)

definition captured_now :: "resolved \<Rightarrow> bool" where
  "captured_now rs \<longleftrightarrow> rs_status rs \<in> {''captured'', ''refunded''} \<or> rs_captured_q rs > 0"

definition set_totals :: "string \<Rightarrow> txn list \<Rightarrow> int \<Rightarrow> int \<Rightarrow> int \<Rightarrow> bool" where
  "set_totals r ts cap ref cb \<longleftrightarrow> captured_of r ts = cap \<and> refunded_of r ts = ref \<and> chargeback_of r ts = cb"

abbreviation same_totals_but_captured :: "string \<Rightarrow> recon \<Rightarrow> int \<Rightarrow> recon \<Rightarrow> bool" where
  "same_totals_but_captured r rc cap rc' \<equiv>
     set_totals r (txns (rc_db rc')) cap (refunded_of r (txns (rc_db rc))) (chargeback_of r (txns (rc_db rc)))"

lemma capture_phase:
  assumes ok: "rc_ok st0 r rc" and am: "in_amount_q (rc_intent rc) = in_amount_q i" and sn: "snap_ok i rs"
    and p: "recon_capture now sn rs rc = Inr rc'"
  shows "rc_ok st0 r rc' \<and>
    same_totals_but_captured r rc
      (if captured_now rs then rs_captured_q rs else captured_of r (txns (rc_db rc))) rc'"
proof (cases "captured_now rs")
  case False
  then have "rc' = rc" using p by (auto simp: recon_capture_def captured_now_def split: if_splits)
  then show ?thesis using False ok by (simp add: set_totals_def)
next
  case True
  then have nt: "in_status (rc_intent rc) \<notin> {Pay_Failed, Pay_Cancelled}"
    using p by (auto simp: recon_capture_def captured_now_def split: if_splits)
  then obtain rc1 where s1: "(if in_status (rc_intent rc) = Pay_Pending then recon_to_authorized now rc else Inr rc) = Inr rc1"
    and p1: "(let loc = captured_of (in_ref (rc_intent rc1)) (txns (rc_db rc1)) in
          if loc = 0 \<and> rs_captured_q rs > 0 then
            ebind (if in_status (rc_intent rc1) = Pay_Authorized
                   then recon_save now ((rc_intent rc1)\<lparr>in_status := Pay_Captured\<rparr>) rc1
                   else if in_status (rc_intent rc1) \<notin> {Pay_Captured, Pay_Refunded}
                   then Inl Recon_capture_drift else Inr rc1) (\<lambda>rc.
            let t = recon_txn now rc Capture_txn (rs_captured_q rs)
                      (or_else (sn_capture_gid sn) (sn_gateway_id sn)) [] in
            ebind (recon_insert t rc) (\<lambda>rc.
            let i = rc_intent rc in
            Inr (recon_did Did_capture (recon_announce
                   (Payment_captured (in_ref i) (in_order_ref i) (rs_captured_q rs) t) rc))))
          else if loc \<noteq> rs_captured_q rs then Inl Recon_capture_mismatch
          else Inr rc1) = Inr rc'"
    using p True by (auto simp: recon_capture_def captured_now_def ebind_Inr Let_def)
  have ok1: "rc_ok st0 r rc1" and t1: "txns (rc_db rc1) = txns (rc_db rc)"
    using s1 to_authorized_phase [OF ok] ok by (auto split: if_splits)
  have am1: "in_amount_q (rc_intent rc1) = in_amount_q i"
    using s1 am by (auto simp: recon_to_authorized_def recon_saved Let_def split: if_splits)
  note r1 = rc_okD [OF ok1]
  show ?thesis
  proof (cases "captured_of r (txns (rc_db rc1)) = 0 \<and> rs_captured_q rs > 0")
    case False
    then have "rc' = rc1" "captured_of r (txns (rc_db rc1)) = rs_captured_q rs"
      using p1 r1(2) by (auto simp: Let_def split: if_splits)
    then show ?thesis using ok1 t1 True by (simp add: set_totals_def)
  next
    case c0: True
    then have na: "\<not> money_in (in_status (rc_intent rc1))"
      using r1(2,3) by (auto simp: intent_ok_def money_ok_def)
    let ?j = "stamp_intent now ((rc_intent rc1)\<lparr>in_status := Pay_Captured\<rparr>)"
    define t where "t = recon_txn now rc1 Capture_txn (rs_captured_q rs)
      (or_else (sn_capture_gid sn) (sn_gateway_id sn)) []"
    have s: "in_status (rc_intent rc1) = Pay_Authorized"
    proof (rule ccontr)
      assume "in_status (rc_intent rc1) \<noteq> Pay_Authorized"
      then show False using p1 c0 r1(2) na by (auto simp: Let_def money_in_def split: if_splits)
    qed
    have t: "tx_intent t = r" "tx_type t = Capture_txn" "tx_amount_q t = rs_captured_q rs"
        "txn_constraints t (txns (rc_db rc1))"
      and d: "intents (rc_db rc') = row_put in_ref ?j (intents (rc_db rc1))"
        "txns (rc_db rc') = txns (rc_db rc1) @ [t]" "rc_intent rc' = ?j"
      using p1 c0 r1(2) s
      by (auto simp: recon_saved recon_inserted Let_def saved_row_def recon_txn_def t_def)
    have "row_evolves (rc_intent rc1) ?j" using s by (intro row_evolves_move) auto
    moreover have "intent_ok ?j (txns (rc_db rc1) @ [t])"
      by (rule intent_ok_captured [OF r1(3)])
        (use s t r1(2,3) c0 am1 sn in
          \<open>auto simp: stamp_intent_def intent_ok_def stamps_ok_def snap_ok_def\<close>)
    ultimately have "rc_ok st0 r rc'" using rc_ok_txn [OF ok1 _ d t(1) t(4)] by blast
    then show ?thesis using d t t1 True c0 by (simp add: set_totals_def)
  qed
qed


definition refund_now :: "resolved \<Rightarrow> bool" where
  "refund_now rs \<longleftrightarrow> rs_status rs \<in> {''captured'', ''refunded''} \<or> rs_refunded_q rs \<noteq> 0"

lemma refund_phase:
  assumes ok: "rc_ok st0 r rc" and sn: "snap_ok i rs"
    and c: "captured_now rs \<Longrightarrow> captured_of r (txns (rc_db rc)) = rs_captured_q rs"
    and p: "recon_refund now sn rs rc = Inr rc'"
  shows "rc_ok st0 r rc' \<and>
    set_totals r (txns (rc_db rc')) (captured_of r (txns (rc_db rc)))
      (if refund_now rs then rs_refunded_q rs else refunded_of r (txns (rc_db rc)))
      (chargeback_of r (txns (rc_db rc)))"
proof -
  note r1 = rc_okD [OF ok]
  let ?loc = "refunded_of r (txns (rc_db rc))"
  have cn: "captured_now rs" if "refund_now rs"
    using sn that by (auto simp: snap_ok_def captured_now_def refund_now_def)
  show ?thesis
  proof (cases "refund_now rs \<and> ?loc < rs_refunded_q rs")
    case False
    then have "rc' = rc"
      using p r1(2) by (auto simp: recon_refund_def refund_now_def Let_def split: if_splits)
    moreover have "?loc = rs_refunded_q rs" if "refund_now rs"
      using that False p r1(2) by (auto simp: recon_refund_def refund_now_def Let_def split: if_splits)
    ultimately show ?thesis using ok by (simp add: set_totals_def)
  next
    case True
    then have cap: "captured_of r (txns (rc_db rc)) = rs_captured_q rs"
      using c cn by simp
    have s: "money_in (in_status (rc_intent rc))"
      using p True r1(2) by (auto simp: recon_refund_def refund_now_def Let_def money_in_def split: if_splits)
    define t where "t = recon_txn now rc Refund_txn (rs_refunded_q rs - ?loc)
      (or_else (sn_refund_gid sn) (sn_gateway_id sn)) ''gateway_reconciliation''"
    define j where "j = saved_row now (in_status (rc_intent rc)) ((rc_intent rc)\<lparr>in_status := Pay_Refunded\<rparr>)"
    have j: "row_evolves (rc_intent rc) j"
      using s by (auto simp: j_def saved_row_def money_in_def intro!: row_evolves_move)
    have d: "intents (rc_db rc') = row_put in_ref j (intents (rc_db rc)) \<and>
        txns (rc_db rc') = txns (rc_db rc) @ [t] \<and> rc_intent rc' = j \<and> txn_constraints t (txns (rc_db rc))"
    proof (cases "in_status (rc_intent rc) = Pay_Refunded")
      case ref: True
      then have "j = rc_intent rc" by (simp add: j_def saved_row_def)
      then show ?thesis
        using p True ref r1(2) put_own [OF ok]
        by (auto simp: recon_refund_def refund_now_def Let_def recon_inserted t_def recon_txn_def split: if_splits)
    next
      case nref: False
      show ?thesis
        using p True nref s r1(2)
        by (auto simp: recon_refund_def refund_now_def Let_def recon_inserted recon_saved t_def j_def recon_txn_def
            saved_row_def split: if_splits)
    qed
    have t: "tx_intent t = r" "tx_type t = Refund_txn" "tx_amount_q t = rs_refunded_q rs - ?loc"
      using r1(2) by (simp_all add: t_def)
    have "intent_ok j (txns (rc_db rc) @ [t])"
      by (rule intent_ok_refunded [OF r1(3)])
        (use s t r1(2,3) True cap sn in
          \<open>auto simp: j_def saved_row_def stamp_intent_def intent_ok_def stamps_ok_def snap_ok_def money_in_def\<close>)
    then have "rc_ok st0 r rc'" using rc_ok_txn [OF ok j _ _ _ t(1)] d by blast
    then show ?thesis using d t True by (simp add: set_totals_def)
  qed
qed


lemma chargeback_phase:
  assumes ok: "rc_ok st0 r rc" and sn: "snap_ok i rs"
    and c: "captured_now rs \<Longrightarrow> captured_of r (txns (rc_db rc)) = rs_captured_q rs"
    and p: "recon_chargeback now sn rs rc = Inr rc'"
  shows "rc_ok st0 r rc' \<and>
    set_totals r (txns (rc_db rc')) (captured_of r (txns (rc_db rc))) (refunded_of r (txns (rc_db rc)))
      (if rs_chargeback_q rs \<noteq> 0 then rs_chargeback_q rs else chargeback_of r (txns (rc_db rc)))"
proof -
  note r1 = rc_okD [OF ok]
  let ?loc = "chargeback_of r (txns (rc_db rc))"
  show ?thesis
  proof (cases "rs_chargeback_q rs \<noteq> 0 \<and> ?loc < rs_chargeback_q rs")
    case False
    then have "rc' = rc" using p r1(2) by (auto simp: recon_chargeback_def Let_def split: if_splits)
    moreover have "?loc = rs_chargeback_q rs" if "rs_chargeback_q rs \<noteq> 0"
      using that False p r1(2) by (auto simp: recon_chargeback_def Let_def split: if_splits)
    ultimately show ?thesis using ok by (simp add: set_totals_def)
  next
    case True
    then have cap: "captured_of r (txns (rc_db rc)) = rs_captured_q rs" "rs_chargeback_q rs \<le> rs_captured_q rs"
      using c sn by (auto simp: captured_now_def snap_ok_def)
    have s: "money_in (in_status (rc_intent rc))"
      using p True r1(2) by (auto simp: recon_chargeback_def Let_def money_in_def split: if_splits)
    define t where "t = recon_txn now rc Chargeback_txn (rs_chargeback_q rs - ?loc)
      (or_else (sn_chargeback_gid sn) (sn_gateway_id sn)) ''gateway_chargeback''"
    have d: "intents (rc_db rc') = row_put in_ref (rc_intent rc) (intents (rc_db rc)) \<and>
        txns (rc_db rc') = txns (rc_db rc) @ [t] \<and> rc_intent rc' = rc_intent rc \<and>
        txn_constraints t (txns (rc_db rc))"
      using p True s r1(2) put_own [OF ok]
      by (auto simp: recon_chargeback_def Let_def recon_inserted t_def split: if_splits)
    have t: "tx_intent t = r" "tx_type t = Chargeback_txn" "tx_amount_q t = rs_chargeback_q rs - ?loc"
      using r1(2) by (simp_all add: t_def)
    have "intent_ok (rc_intent rc) (txns (rc_db rc) @ [t])"
      by (rule intent_ok_chargeback [OF r1(3)]) (use s t r1(2) True cap in auto)
    then have "rc_ok st0 r rc'" using rc_ok_txn [OF ok row_evolves_refl _ _ _ t(1)] d by blast
    then show ?thesis using d t True by (simp add: set_totals_def)
  qed
qed

lemma close_move:
  assumes ok: "rc_ok st0 r rc" and s: "in_status (rc_intent rc) \<in> {Pay_Pending, Pay_Authorized}"
    "s = Pay_Cancelled \<or> s = Pay_Failed"
    and j: "j = (rc_intent rc)\<lparr>in_status := s, in_gateway_data := d, in_cancel_reason := cr\<rparr>"
    and rc': "intents (rc_db rc') = row_put in_ref (stamp_intent now j) (intents (rc_db rc))"
      "txns (rc_db rc') = txns (rc_db rc)" "rc_intent rc' = stamp_intent now j"
  shows "rc_ok st0 r rc' \<and> txns (rc_db rc') = txns (rc_db rc)"
proof -
  have k: "in_status j \<in> set (pay_allowed (in_status (rc_intent rc)))" using s j by auto
  have "row_evolves (rc_intent rc) (stamp_intent now j)"
    by (rule row_evolves_move) (use k in \<open>auto simp: j\<close>)
  moreover have "intent_ok (stamp_intent now j) (txns (rc_db rc))"
    by (rule intent_ok_move [OF rc_okD(3) [OF ok] k]) (use s in \<open>auto simp: j\<close>)
  ultimately show ?thesis using rc_ok_move [OF ok _ _ rc'] rc'(2) by blast
qed

lemma close_phase:
  assumes ok: "rc_ok st0 r rc" and p: "recon_close now rs rc = Inr rc'"
  shows "rc_ok st0 r rc' \<and> txns (rc_db rc') = txns (rc_db rc)"
proof (cases "in_status (rc_intent rc) \<in> {Pay_Pending, Pay_Authorized} \<and>
    (rs_status rs = ''cancelled'' \<or> rs_status rs = ''failed'')")
  case False
  then show ?thesis using p ok by (auto simp: recon_close_def split: if_splits)
next
  case op: True
  show ?thesis
  proof (cases "rs_status rs = ''cancelled''")
    case True
    let ?j = "(rc_intent rc)\<lparr>in_status := Pay_Cancelled, in_cancel_reason := ''gateway_reconciliation''\<rparr>"
    have "intents (rc_db rc') = row_put in_ref (stamp_intent now ?j) (intents (rc_db rc))"
      "txns (rc_db rc') = txns (rc_db rc)" "rc_intent rc' = stamp_intent now ?j"
      using p True op by (auto simp: recon_close_def recon_saved saved_row_def Let_def)
    then show ?thesis using op
      by (intro close_move [OF ok, where j = ?j and s = Pay_Cancelled
            and d = "in_gateway_data (rc_intent rc)" and cr = "''gateway_reconciliation''"]) auto
  next
    case False
    let ?d = "dset ''error_message'' (JStr ''Gateway reportou falha no pagamento'')
                (dset ''error_code'' (JStr ''gateway_reconciliation'') (in_gateway_data (rc_intent rc)))"
    let ?j = "(rc_intent rc)\<lparr>in_status := Pay_Failed, in_gateway_data := ?d\<rparr>"
    have "intents (rc_db rc') = row_put in_ref (stamp_intent now ?j) (intents (rc_db rc))"
      "txns (rc_db rc') = txns (rc_db rc)" "rc_intent rc' = stamp_intent now ?j"
      using p False op by (auto simp: recon_close_def recon_saved saved_row_def Let_def)
    then show ?thesis using op
      by (intro close_move [OF ok, where j = ?j and s = Pay_Failed and d = ?d
            and cr = "in_cancel_reason (rc_intent rc)"]) auto
  qed
qed

lemma rc_ok_row:
  assumes "rc_ok st r rc" "row_get in_ref r (intents st) = Some i"
  shows "row_evolves i (rc_intent rc)"
  using rc_okD(4,5) [OF assms(1)] evolvesD(1) [of st "rc_db rc" r i] assms(2)
  by (auto simp: sound_step_def)

text \<open>The intent keeps its gateway id after the first phase.\<close>

lemma phases_keep_gid:
  "recon_prepare now sn i st = Inr rc \<Longrightarrow> in_gateway_id (rc_intent rc) =
     (if sn_gateway_id sn \<noteq> [] \<and> in_gateway_id i = [] then sn_gateway_id sn else in_gateway_id i)"
  "recon_to_authorized now rc = Inr rc' \<Longrightarrow> in_gateway_id (rc_intent rc') = in_gateway_id (rc_intent rc)"
  "recon_authorize now rs rc = Inr rc' \<Longrightarrow> in_gateway_id (rc_intent rc') = in_gateway_id (rc_intent rc)"
  "recon_chargeback now sn rs rc = Inr rc' \<Longrightarrow> in_gateway_id (rc_intent rc') = in_gateway_id (rc_intent rc)"
  "recon_close now rs rc = Inr rc' \<Longrightarrow> in_gateway_id (rc_intent rc') = in_gateway_id (rc_intent rc)"
  by (auto simp: recon_prepare_def recon_to_authorized_def recon_authorize_def recon_chargeback_def
      recon_close_def Let_def recon_save_Inr recon_saved recon_inserted split: if_splits)

lemma capture_keeps_gid:
  "recon_capture now sn rs rc = Inr rc' \<Longrightarrow> in_gateway_id (rc_intent rc') = in_gateway_id (rc_intent rc)"
  by (auto simp: recon_capture_def Let_def recon_save_Inr recon_saved recon_inserted
      ebind_Inr [where m = "if _ then _ else _"] split: if_splits dest: phases_keep_gid(2))

lemma refund_keeps_gid:
  "recon_refund now sn rs rc = Inr rc' \<Longrightarrow> in_gateway_id (rc_intent rc') = in_gateway_id (rc_intent rc)"
  by (auto simp: recon_refund_def Let_def recon_save_Inr recon_saved recon_inserted
      ebind_Inr [where m = "if _ then _ else _"] split: if_splits)

text \<open>
  The whole method: a call that returns ends in an intermediate state \<open>rc\<close> whose row is the
  stored one, with the totals of the snapshot.
\<close>

lemma reconcile_run:
  assumes inv: "pay_inv st" and i: "row_get in_ref r (intents st) = Some i"
    and c: "reconcile_gateway_status now r sn st = Inr (st', res)" and rs: "rs = resolve_snapshot i sn"
  obtains rc where "st' = rc_db rc" "rc_ok st r rc"
    "validate_gateway_snapshot i rs (sn_gateway_id sn) = Inr ()" "snap_ok i rs"
    "in_gateway_id (rc_intent rc) =
       (if sn_gateway_id sn \<noteq> [] \<and> in_gateway_id i = [] then sn_gateway_id sn else in_gateway_id i)"
    "set_totals r (txns st')
      (if captured_now rs then rs_captured_q rs else captured_of r (txns st))
      (if refund_now rs then rs_refunded_q rs else refunded_of r (txns st))
      (if rs_chargeback_q rs \<noteq> 0 then rs_chargeback_q rs else chargeback_of r (txns st))"
proof -
  note g = i [folded get_for_update_Inr]
  from c obtain rc1 rc2 rc3 rc4 rc5 rc6 where
    v: "validate_gateway_snapshot i rs (sn_gateway_id sn) = Inr ()"
    and p1: "recon_prepare now sn i st = Inr rc1"
    and p2: "recon_authorize now rs rc1 = Inr rc2" and p3: "recon_capture now sn rs rc2 = Inr rc3"
    and p4: "recon_refund now sn rs rc3 = Inr rc4" and p5: "recon_chargeback now sn rs rc4 = Inr rc5"
    and p6: "recon_close now rs rc5 = Inr rc6" and e: "st' = rc_db rc6"
    unfolding reconcile_gateway_status_def g ebind_simps
    by (auto simp: Let_def ebind_Inr rs)
  note sn = validated [OF v]
  have ok1: "rc_ok st r rc1" and t1: "txns (rc_db rc1) = txns st" using prepare_phase [OF inv i p1] by auto
  have ok2: "rc_ok st r rc2" and t2: "txns (rc_db rc2) = txns st" using authorize_phase [OF ok1 p2] t1 by auto
  have "in_amount_q (rc_intent rc2) = in_amount_q i" using rc_ok_row [OF ok2 i] by (simp add: row_evolves_def)
  note s3 = capture_phase [OF ok2 this sn p3]
  have c3: "captured_now rs \<Longrightarrow> captured_of r (txns (rc_db rc3)) = rs_captured_q rs"
    using s3 by (simp add: set_totals_def)
  note s4 = refund_phase [OF s3 [THEN conjunct1] sn c3 p4]
  have c4: "captured_now rs \<Longrightarrow> captured_of r (txns (rc_db rc4)) = rs_captured_q rs"
    using s4 c3 by (simp add: set_totals_def)
  note s5 = chargeback_phase [OF s4 [THEN conjunct1] sn c4 p5]
  note s6 = close_phase [OF s5 [THEN conjunct1] p6]
  show thesis
  proof (rule that [OF e _ v sn])
    show "rc_ok st r rc6" using s6 by blast
    show "in_gateway_id (rc_intent rc6) =
       (if sn_gateway_id sn \<noteq> [] \<and> in_gateway_id i = [] then sn_gateway_id sn else in_gateway_id i)"
      using phases_keep_gid(1) [OF p1] phases_keep_gid(3) [OF p2] capture_keeps_gid [OF p3]
        refund_keeps_gid [OF p4] phases_keep_gid(4) [OF p5] phases_keep_gid(5) [OF p6] by simp
  qed (use s3 s4 s5 s6 e t2 in \<open>simp add: set_totals_def\<close>)
qed

lemma reconcile_sound:
  assumes "pay_inv st" "reconcile_gateway_status now r sn st = Inr (st', res)"
  shows "sound_step st st'"
proof -
  from assms(2) obtain i where i: "row_get in_ref r (intents st) = Some i"
    unfolding reconcile_gateway_status_def by (elim got)
  from reconcile_run [OF assms(1) i assms(2) refl] show ?thesis
    by (metis rc_okD(5))
qed

end
