(* ===== verification/PaymanProps.thy ===== *)
theory PaymanProps
  imports PaymanReconLaws
begin

text \<open>
  The properties of the payment kernel: the runs of the verbs with their invariant, the
  ledger that only grows, the idempotent retries, the refund budget, and the snapshots of
  the gateway. A run is a sequence of verb calls that returned (a verb that raised left the
  store as it was).
\<close>

section \<open>Runs\<close>

inductive pay_step :: "payman \<Rightarrow> payman \<Rightarrow> bool" where
  step_create: "create_intent at seen now fr a st = Inr (st', i) \<Longrightarrow> pay_step st st'"
| step_settle: "settle seen now fr ord amt pm cur gd ref idem asr st = Inr (st', i) \<Longrightarrow> pay_step st st'"
| step_charge: "charge_to_account seen now fr ord amt cust cur gd ref idem st = Inr (st', i) \<Longrightarrow> pay_step st st'"
| step_authorize: "authorize now ref gid gd st = Inr (st', i) \<Longrightarrow> pay_step st st'"
| step_capture: "capture now ref amount gid gd st = Inr (st', t) \<Longrightarrow> pay_step st st'"
| step_refund: "refund tseen now ref amount reason gid idem st = Inr (st', t) \<Longrightarrow> pay_step st st'"
| step_cancel: "cancel now ref reason st = Inr (st', i) \<Longrightarrow> pay_step st st'"
| step_fail: "fail now ref ec msg st = Inr (st', i) \<Longrightarrow> pay_step st st'"
| step_reconcile: "reconcile_gateway_status now ref sn st = Inr (st', res) \<Longrightarrow> pay_step st st'"

lemma pay_step_sound: "pay_step st st' \<Longrightarrow> pay_inv st \<Longrightarrow> sound_step st st'"
  by (induction rule: pay_step.induct)
    (auto dest: create_sound settle_sound charge_sound authorize_sound capture_sound refund_sound
       cancel_sound fail_sound reconcile_sound)

lemma pay_run_sound: "pay_step\<^sup>*\<^sup>* st st' \<Longrightarrow> pay_inv st \<Longrightarrow> sound_step st st'"
  by (induction rule: rtranclp_induct)
    (auto simp: sound_step_refl intro: sound_step_trans pay_step_sound dest: sound_step_def [THEN iffD1])

text \<open>The steps from states that satisfy the invariant append to the transaction table.\<close>

definition pay_inv_step :: "payman \<Rightarrow> payman \<Rightarrow> bool" where
  "pay_inv_step st st' \<longleftrightarrow> pay_inv st \<and> pay_step st st'"

interpretation pay_ledger: append_ledger txns pay_inv_step
proof unfold_locales
  fix s t
  assume "pay_inv_step s t"
  then have "evolves s t" using pay_step_sound by (auto simp: pay_inv_step_def sound_step_def)
  then show "\<exists>new. txns t = txns s @ new" by (rule evolvesD(2))
qed

lemma pay_run_inv: "pay_step\<^sup>*\<^sup>* st st' \<Longrightarrow> pay_inv st \<Longrightarrow> pay_inv_step\<^sup>*\<^sup>* st st'"
proof (induction rule: rtranclp_induct)
  case base
  show ?case by simp
next
  case (step y z)
  have "pay_inv y" using pay_run_sound [OF step.hyps(1) step.prems] by (simp add: sound_step_def)
  then show ?case using step by (auto simp: pay_inv_step_def intro: rtranclp.rtrancl_into_rtrancl)
qed

section \<open>A concrete run\<close>

text \<open>A Pix intent created, authorized, captured and refunded in part; the witnesses use it.\<close>

definition demo_args :: intent_args where
  "demo_args = \<lparr>ca_order_ref = ''ORD-1'', ca_amount_q = 1000, ca_method = Pix, ca_currency = ''BRL'',
     ca_gateway = ''efi'', ca_gateway_id = [], ca_gateway_data = [], ca_expires_at = Some 50,
     ca_ref = Some ''PAY-1'', ca_idem = ''k1''\<rparr>"

definition ok_state :: "'e + ('s \<times> 'x) \<Rightarrow> 's \<Rightarrow> 's" where
  "ok_state m st = (case m of Inl _ \<Rightarrow> st | Inr (st', _) \<Rightarrow> st')"

definition demo1 :: payman where "demo1 = ok_state (create_intent False [] 1 ''F'' demo_args payman_init) payman_init"
definition demo2 :: payman where "demo2 = ok_state (authorize 2 ''PAY-1'' ''tx1'' [] demo1) demo1"
definition demo3 :: payman where "demo3 = ok_state (capture 3 ''PAY-1'' None ''tx1'' [] demo2) demo2"
definition demo4 :: payman where
  "demo4 = ok_state (refund [] 4 ''PAY-1'' (Some 400) ''troca'' [] ''r1'' demo3) demo3"

lemma ok_state_step: "m = Inr (st', x) \<Longrightarrow> ok_state m st = st'"
  by (simp add: ok_state_def)

lemma isr_state: "\<not> isl m \<Longrightarrow> m = Inr (ok_state m st, snd (projr m))"
  by (cases m) (auto simp: ok_state_def split: prod.splits)

lemma ok_state_eq: "\<not> isl m \<Longrightarrow> ok_state m st = s \<Longrightarrow> \<exists>x. m = Inr (s, x)"
  by (cases m) (auto simp: ok_state_def)

lemma demo_ok:
  "\<not> isl (create_intent False [] 1 ''F'' demo_args payman_init)"
  "\<not> isl (authorize 2 ''PAY-1'' ''tx1'' [] demo1)"
  "\<not> isl (capture 3 ''PAY-1'' None ''tx1'' [] demo2)"
  "\<not> isl (refund [] 4 ''PAY-1'' (Some 400) ''troca'' [] ''r1'' demo3)"
  by code_simp+

lemma demo_steps: "pay_step payman_init demo1" "pay_step demo1 demo2" "pay_step demo2 demo3" "pay_step demo3 demo4"
  unfolding demo1_def demo2_def demo3_def demo4_def
  by (rule step_create [OF isr_state], rule demo_ok,
      rule step_authorize [OF isr_state], rule demo_ok [unfolded demo1_def],
      rule step_capture [OF isr_state], rule demo_ok [unfolded demo1_def demo2_def],
      rule step_refund [OF isr_state], rule demo_ok [unfolded demo1_def demo2_def demo3_def])

lemma demo_run: "pay_step\<^sup>*\<^sup>* payman_init demo4" "pay_step\<^sup>*\<^sup>* payman_init demo3"
    "pay_step\<^sup>*\<^sup>* payman_init demo1" "pay_step\<^sup>*\<^sup>* demo1 demo4"
  by (meson demo_steps rtranclp.rtrancl_into_rtrancl rtranclp.rtrancl_refl)+

lemma demo_inv: "pay_inv demo1" "pay_inv demo3" "pay_inv demo4"
  using demo_run pay_run_sound [OF _ pay_inv_init] by (auto simp: sound_step_def)

definition row_of :: "payman \<Rightarrow> intent" where
  "row_of st = hd (intents st)"

lemma demo_rows:
  "row_get in_ref ''PAY-1'' (intents demo1) = Some (row_of demo1)"
  "row_get in_ref ''PAY-1'' (intents demo3) = Some (row_of demo3)"
  "row_get in_ref ''PAY-1'' (intents demo4) = Some (row_of demo4)"
  by code_simp+

section \<open>Invariant and history\<close>

text \<open>C2: In every store that the verbs of PaymentService can reach from the empty one, each
  intent has captured at most its amount and refunded at most what it captured, it has
  exactly one capture transaction when its status is captured or refunded and none
  otherwise, money was refunded exactly when its status is refunded, and what third parties
  took back is within the capture.\<close>

theorem pay_reachable_money:
  assumes "pay_step\<^sup>*\<^sup>* payman_init st" "row_get in_ref r (intents st) = Some i"
  shows "0 \<le> captured_of r (txns st) \<and> captured_of r (txns st) \<le> in_amount_q i
    \<and> 0 \<le> refunded_of r (txns st) \<and> refunded_of r (txns st) \<le> captured_of r (txns st)
    \<and> chargeback_of r (txns st) \<le> captured_of r (txns st)
    \<and> (refunded_of r (txns st) > 0 \<longleftrightarrow> in_status i = Pay_Refunded)
    \<and> length (filter (\<lambda>t. tx_intent t = r \<and> tx_type t = Capture_txn) (txns st)) =
        (if in_status i = Pay_Captured \<or> in_status i = Pay_Refunded then 1 else 0)"
proof -
  have inv: "pay_inv st" using pay_run_sound [OF assms(1) pay_inv_init] by (simp add: sound_step_def)
  show ?thesis using pay_invD [OF inv assms(2)]
    by (auto simp: intent_ok_def money_ok_def captures_of_def money_in_def)
qed

theorem pay_reachable_money_witness:
  "pay_step\<^sup>*\<^sup>* payman_init demo4 \<and> captured_of ''PAY-1'' (txns demo4) = 1000 \<and>
   refunded_of ''PAY-1'' (txns demo4) \<le> captured_of ''PAY-1'' (txns demo4)"
proof -
  have "captured_of ''PAY-1'' (txns demo4) = 1000" by code_simp
  then show ?thesis using pay_reachable_money [OF demo_run(1) demo_rows(3)] demo_run(1) by simp
qed

text \<open>C27: Over any run of verbs, an intent that exists stays: its order, method, amount,
  currency, key and creation time never change, its status follows a path of the transition
  table of at most three moves that never comes back, and an intent whose status is terminal
  (failed, cancelled, refunded) keeps it for ever.\<close>

theorem pay_intent_history:
  assumes "pay_inv st" "pay_step\<^sup>*\<^sup>* st st'" "row_get in_ref r (intents st) = Some i"
  shows "\<exists>j. row_get in_ref r (intents st') = Some j
    \<and> in_order_ref j = in_order_ref i \<and> in_method j = in_method i \<and> in_amount_q j = in_amount_q i
    \<and> in_currency j = in_currency i \<and> in_idem j = in_idem i \<and> in_created_at j = in_created_at i
    \<and> (\<exists>ts. pay.history (in_status i) ts \<and> in_status j = last (in_status i # ts)
          \<and> length ts \<le> 3 \<and> in_status i \<notin> set ts)
    \<and> (pay_terminal (in_status i) \<longrightarrow> in_status j = in_status i)"
proof -
  have "evolves st st'" using pay_run_sound [OF assms(2,1)] by (simp add: sound_step_def)
  then obtain j where j: "row_get in_ref r (intents st') = Some j" "row_evolves i j"
    using evolvesD(1) assms(3) by blast
  then obtain ts where ts: "pay.history (in_status i) ts" "in_status j = last (in_status i # ts)"
    by (auto simp: row_evolves_def)
  then have "length ts \<le> 3" "in_status i \<notin> set ts" "pay_terminal (in_status i) \<Longrightarrow> ts = []"
    using pay.history_bounded pay.history_no_return pay.terminal_history by blast+
  then have "\<exists>ts. pay.history (in_status i) ts \<and> in_status j = last (in_status i # ts)
          \<and> length ts \<le> 3 \<and> in_status i \<notin> set ts" "pay_terminal (in_status i) \<longrightarrow> in_status j = in_status i"
    using ts by auto
  then show ?thesis using j unfolding row_evolves_def by blast
qed

theorem pay_intent_history_witness:
  "\<exists>j. row_get in_ref ''PAY-1'' (intents demo4) = Some j \<and> in_amount_q j = 1000 \<and> in_status j = Pay_Refunded"
proof -
  have "in_amount_q (row_of demo1) = 1000" by code_simp
  moreover have "in_status (row_of demo4) = Pay_Refunded" by code_simp
  ultimately show ?thesis
    using pay_intent_history [OF demo_inv(1) demo_run(4) demo_rows(1)] demo_rows(3) by auto
qed

text \<open>The ledger of transactions is append-only: over any run of verbs the transactions
  recorded before are still there, unchanged and in the same places.\<close>

theorem pay_ledger_append_only:
  assumes "pay_inv st" "pay_step\<^sup>*\<^sup>* st st'" "n < length (txns st)"
  shows "txns st' ! n = txns st ! n \<and> length (txns st) \<le> length (txns st')"
  using pay_run_inv [OF assms(2,1)] assms(3)
  by (simp add: pay_ledger.run_keeps_entry pay_ledger.run_length)

theorem pay_ledger_append_only_witness:
  "length (txns demo3) = 1 \<and> txns demo4 ! 0 = txns demo3 ! 0"
proof -
  have l: "length (txns demo3) = 1" by code_simp
  have "pay_step\<^sup>*\<^sup>* demo3 demo4" using demo_steps(4) by blast
  from pay_ledger_append_only [OF demo_inv(2) this, of 0] l show ?thesis by simp
qed

section \<open>Refunds\<close>

text \<open>C24: A refund that returns either is a replay that writes nothing, or it appends exactly
  one refund transaction of the requested amount (the whole remaining balance when none is
  given), leaves the captured total alone, keeps refunds plus chargebacks within the capture,
  ends with the intent refunded, and announces it once.\<close>

theorem refund_budget:
  assumes "pay_inv st" "refund seen now r amount reason gid idem st = Inr (st', t)"
  shows "st' = st \<or>
    txns st' = txns st @ [t] \<and> tx_intent t = r \<and> tx_type t = Refund_txn \<and> 0 < tx_amount_q t \<and>
    tx_amount_q t = (case amount of Some a \<Rightarrow> a
       | None \<Rightarrow> captured_of r (txns st) - returned_total r (txns st)) \<and>
    captured_of r (txns st') = captured_of r (txns st) \<and>
    returned_total r (txns st') = returned_total r (txns st) + tx_amount_q t \<and>
    returned_total r (txns st') \<le> captured_of r (txns st') \<and>
    (\<exists>j. row_get in_ref r (intents st') = Some j \<and> in_status j = Pay_Refunded \<and>
         announced st' = announced st @ [Payment_refunded r (in_order_ref j) (tx_amount_q t) t])"
  using assms(2)
proof (cases rule: refund_cases)
  case replay
  then show ?thesis by simp
next
  case (fresh i)
  have r: "in_ref i = r" using pay_invD(2) [OF assms(1) fresh(1)] .
  note f = fresh [unfolded r]
  have "\<exists>j. row_get in_ref r (intents st') = Some j \<and> in_status j = Pay_Refunded \<and>
      in_order_ref j = in_order_ref i"
    using f(1,12) r by (cases "in_status i = Pay_Refunded") (auto simp: row_get_put)
  moreover have n: "txns st' = txns st @ [t]" using f(12) by simp
  moreover have "announced st' = announced st @ [Payment_refunded r (in_order_ref i) (tx_amount_q t) t]"
    using f(12) by simp
  ultimately have "\<exists>j. row_get in_ref r (intents st') = Some j \<and> in_status j = Pay_Refunded \<and>
         announced st' = announced st @ [Payment_refunded r (in_order_ref j) (tx_amount_q t) t]" by auto
  moreover have "captured_of r (txns st') = captured_of r (txns st)"
    "returned_total r (txns st') = returned_total r (txns st) + tx_amount_q t"
    using f(3,4) n by (auto simp: returned_total_def)
  ultimately show ?thesis using f(3-7) n by auto
qed

theorem refund_budget_witness:
  "captured_of ''PAY-1'' (txns demo4) = 1000 \<and> returned_total ''PAY-1'' (txns demo4) = 400"
proof -
  obtain x where r: "refund [] 4 ''PAY-1'' (Some 400) ''troca'' [] ''r1'' demo3 = Inr (demo4, x)"
    unfolding demo4_def using isr_state [OF demo_ok(4)] by blast
  have "length (txns demo4) \<noteq> length (txns demo3)" by code_simp
  then have "demo4 \<noteq> demo3" by auto
  with refund_budget [OF demo_inv(2) r] have
    "returned_total ''PAY-1'' (txns demo4) = returned_total ''PAY-1'' (txns demo3) + tx_amount_q x"
    "captured_of ''PAY-1'' (txns demo4) = captured_of ''PAY-1'' (txns demo3)" "tx_amount_q x = 400"
    by (simp_all only: option.case) blast+
  moreover have "returned_total ''PAY-1'' (txns demo3) = 0" "captured_of ''PAY-1'' (txns demo3) = 1000"
    by code_simp+
  ultimately show ?thesis by simp
qed

text \<open>A refund is idempotent: repeated with the same gateway id or idempotency key it
  returns the same transaction and leaves the store as it is, whatever its clock and reason.\<close>

theorem refund_retry:
  assumes "pay_inv st" "refund (txns st) now r amount reason gid idem st = Inr (st', t)"
    "gid \<noteq> [] \<or> strip idem \<noteq> []"
  shows "refund (txns st') now' r amount reason' gid idem st' = Inr (st', t)"
  using assms(2)
proof (cases rule: refund_cases)
  case replay
  then show ?thesis by simp
next
  case (fresh i)
  have r: "in_ref i = r" using pay_invD(2) [OF assms(1) fresh(1)] .
  have "\<exists>j. row_get in_ref r (intents st') = Some j \<and> in_ref j = r"
    using fresh r by (auto simp: row_get_put)
  then obtain j where j: "row_get in_ref r (intents st') = Some j" "in_ref j = r" by blast
  have t: "txns st' = txns st @ [t]" using fresh by simp
  have none: "gid \<noteq> [] \<Longrightarrow> latest (\<lambda>t. tx_intent t = r \<and> tx_type t = Refund_txn \<and> tx_gateway_id t = gid) (txns st') = Some t"
    "latest (\<lambda>t. tx_type t = Refund_txn \<and> tx_idem t = strip idem) (txns st') = Some t"
    using fresh r by (auto simp: t latest_append)
  show ?thesis
  proof (cases "gid = []")
    case False
    then show ?thesis using none(1) j by (simp add: refund_def get_for_update_def)
  next
    case True
    with assms(3) have "strip idem \<noteq> []" by simp
    then show ?thesis using none(2) j True fresh r
      by (simp add: refund_def get_for_update_def require_idempotent_refund_match_def split: option.splits)
  qed
qed

theorem refund_retry_witness:
  "ok_state (refund (txns demo4) 9 ''PAY-1'' (Some 400) ''de novo'' [] ''r1'' demo4) payman_init = demo4"
proof -
  have "\<not> isl (refund (txns demo3) 4 ''PAY-1'' (Some 400) ''troca'' [] ''r1'' demo3)" by code_simp
  moreover have "ok_state (refund (txns demo3) 4 ''PAY-1'' (Some 400) ''troca'' [] ''r1'' demo3) demo3 = demo4"
    by code_simp
  ultimately have "\<exists>x. refund (txns demo3) 4 ''PAY-1'' (Some 400) ''troca'' [] ''r1'' demo3 = Inr (demo4, x)"
    by (rule ok_state_eq)
  then obtain x where y: "refund (txns demo3) 4 ''PAY-1'' (Some 400) ''troca'' [] ''r1'' demo3 = Inr (demo4, x)" ..
  have "strip ''r1'' \<noteq> []" by code_simp
  then show ?thesis using refund_retry [OF demo_inv(2) y, of 9 "''de novo''"] by (simp add: ok_state_def)
qed

section \<open>Creation, settlement, capture\<close>

text \<open>Creation with an idempotency key is idempotent: the same call again, with another
  clock and another generated ref, returns the intent of the first call and writes nothing;
  the same key with another order, amount, method, currency or gateway is refused as a
  conflict.\<close>

theorem create_retry:
  assumes "create_intent at (intents st) now fr a st = Inr (st', i)" "strip (ca_idem a) \<noteq> []"
  shows "create_intent at' (intents st') now' fr' a st' = Inr (st', i) \<and>
    (0 < ca_amount_q b \<and> strip (ca_idem b) = strip (ca_idem a) \<and>
      (ca_order_ref b, ca_amount_q b, ca_method b, ca_currency b, ca_gateway b) \<noteq>
      (ca_order_ref a, ca_amount_q a, ca_method a, ca_currency a, ca_gateway a) \<longrightarrow>
      create_intent at' (intents st') now' fr' b st' = Inl Idempotency_key_conflict)"
proof -
  have "latest (\<lambda>i. in_idem i = strip (ca_idem a)) (intents st') = Some i \<and>
      require_idempotent_match i a = Inr () \<and> 0 < ca_amount_q a"
    using assms
    by (auto simp: create_intent_def insert_intent_def intent_constraints_def latest_append Let_def
        ebind_Inr require_idempotent_match_def guard_e_def latest_None
        split: if_splits option.splits sum.splits)
  then show ?thesis
    using assms(2)
    by (auto simp: create_intent_def Let_def require_idempotent_match_def guard_e_def split: if_splits)
qed

theorem create_retry_witness:
  "ok_state (create_intent True (intents demo1) 7 ''G'' demo_args demo1) payman_init = demo1 \<and>
   create_intent False (intents demo1) 7 ''G'' (demo_args\<lparr>ca_amount_q := 900\<rparr>) demo1 =
     Inl Idempotency_key_conflict"
proof -
  have "\<exists>x. create_intent False (intents payman_init) 1 ''F'' demo_args payman_init = Inr (demo1, x)"
    by (rule ok_state_eq, code_simp) (simp add: demo1_def payman_init_def)
  then obtain x where x: "create_intent False (intents payman_init) 1 ''F'' demo_args payman_init = Inr (demo1, x)" ..
  have k: "strip (ca_idem demo_args) \<noteq> []" by code_simp
  show ?thesis
    using create_retry [OF x k, of True 7 "''G''" demo_args]
      create_retry [OF x k, of False 7 "''G''" "demo_args\<lparr>ca_amount_q := 900\<rparr>"]
    by (simp add: ok_state_def demo_args_def)
qed

text \<open>Capture is single-shot: after a capture the intent is captured, the captured total
  is exactly the captured amount, within the amount of the intent, and every later capture
  of it is refused.\<close>

theorem capture_single_shot:
  assumes "pay_inv st" "capture now r amount gid gd st = Inr (st', t)"
  shows "(\<exists>j. row_get in_ref r (intents st') = Some j \<and> in_status j = Pay_Captured \<and>
           tx_amount_q t = (case amount of Some a \<Rightarrow> a | None \<Rightarrow> in_amount_q j) \<and>
           tx_amount_q t \<le> in_amount_q j)
    \<and> captured_of r (txns st') = tx_amount_q t \<and> txns st' = txns st @ [t]
    \<and> capture now' r amount' gid' gd' st' = Inl Invalid_transition"
proof -
  from assms(2) obtain i where i: "row_get in_ref r (intents st) = Some i" by (auto simp: capture_def elim: got)
  note g = i [folded get_for_update_Inr]
  define j where "j = saved_row now Pay_Authorized
     (i\<lparr>in_gateway_data := dmerge (in_gateway_data i) gd, in_status := Pay_Captured\<rparr>)"
  have ri: "in_ref i = r" "intent_ok i (txns st)" using pay_invD [OF assms(1) i] by auto
  have c: "in_status i = Pay_Authorized" "tx_amount_q t = (case amount of Some a \<Rightarrow> a | None \<Rightarrow> in_amount_q i)"
    "tx_amount_q t \<le> in_amount_q i" "tx_intent t = r" "tx_type t = Capture_txn"
    "intents st' = row_put in_ref j (intents st)" "txns st' = txns st @ [t]"
    using assms(2) ri(1) unfolding capture_def g ebind_simps j_def
    by (auto simp: verb_inversion split: if_splits option.splits)
  have j: "row_get in_ref r (intents st') = Some j" "in_status j = Pay_Captured" "in_amount_q j = in_amount_q i"
    using c(1,6) i ri(1) by (auto simp: row_get_put j_def)
  have "captured_of r (txns st) = 0" using ri c(1) by (auto simp: intent_ok_def money_ok_def)
  then have "captured_of r (txns st') = tx_amount_q t" using c by simp
  moreover have "capture now' r amount' gid' gd' st' = Inl Invalid_transition"
    using j by (simp add: capture_def get_for_update_def)
  ultimately show ?thesis using j(1,2) c(2,3,7) unfolding j(3) [symmetric] by blast
qed

theorem capture_single_shot_witness:
  "captured_of ''PAY-1'' (txns demo3) = 1000 \<and> capture 9 ''PAY-1'' (Some 1) [] [] demo3 = Inl Invalid_transition"
proof -
  have "\<exists>x. capture 3 ''PAY-1'' None ''tx1'' [] demo2 = Inr (demo3, x)"
    by (rule ok_state_eq, rule demo_ok) (simp add: demo3_def)
  then obtain x where x: "capture 3 ''PAY-1'' None ''tx1'' [] demo2 = Inr (demo3, x)" ..
  have inv: "pay_inv demo2"
    using demo_steps(2) demo_inv(1) by (auto dest: pay_step_sound simp: sound_step_def)
  have "captured_of ''PAY-1'' (txns demo3) = 1000" by code_simp
  then show ?thesis using capture_single_shot [OF inv x] by blast
qed

end
