(* ===== verification/PaymanGateway.thy ===== *)
theory PaymanGateway
  imports PaymanProps "HOL-Library.Multiset"
begin

text \<open>
  Further properties of the payment kernel: settlement at the counter, the customer account,
  the read side, the gateway snapshots, and the two places where the code falls short of
  what it documents (a race on the refund key inside the atomic block, and a snapshot that
  omits the chargeback total).
\<close>

section \<open>Settlement\<close>

lemma idems_ok_inj:
  "idems_ok key rs \<Longrightarrow> a \<in> set rs \<Longrightarrow> b \<in> set rs \<Longrightarrow> key a = key b \<Longrightarrow> key a \<noteq> [] \<Longrightarrow> a = b"
proof (induction rs)
  case Nil
  then show ?case by simp
next
  case (Cons r rs)
  have "idems_ok key rs" using Cons.prems(1) by (simp add: idems_ok_def split: if_splits)
  moreover have "key r \<noteq> [] \<Longrightarrow> key r \<notin> key ` set rs" using Cons.prems(1) by (auto simp: idems_ok_def)
  ultimately show ?case using Cons by auto (metis image_eqI)+
qed

lemma settle_effect:
  assumes inv: "pay_inv st"
    and c: "settle (intents st) now fr order_ref amount pm cur gdata ref idem asserted st = Inr (st', j)"
  shows "\<exists>created. row_evolves created j \<and> money_in (in_status j) \<and>
    row_get in_ref (in_ref j) (intents st') = Some j \<and> in_idem created = strip idem \<and>
    in_order_ref created = order_ref \<and> in_amount_q created = amount \<and> in_method created = pm \<and>
    in_currency created = cur \<and> in_gateway created = [] \<and> 0 < amount"
proof -
  from c obtain st1 created where
    k: "create_intent True (intents st) now fr
         \<lparr>ca_order_ref = order_ref, ca_amount_q = amount, ca_method = pm, ca_currency = cur,
          ca_gateway = [], ca_gateway_id = [],
          ca_gateway_data = (if asserted then dset ''asserted_at_terminal'' (JBool True) gdata else gdata),
          ca_expires_at = None, ca_ref = ref, ca_idem = idem\<rparr> st = Inr (st1, created)"
    and g: "ebind (get_for_update (in_ref created) st1) (\<lambda>i.
        if in_status i \<in> {Pay_Captured, Pay_Refunded} then Inr (st1, i)
        else if in_status i \<noteq> Pay_Pending then Inl Invalid_transition
        else
          ebind (save_intent now (in_status i) (i\<lparr>in_status := Pay_Authorized\<rparr>) st1) (\<lambda>(st2, i2).
          ebind (save_intent now (in_status i2) (i2\<lparr>in_status := Pay_Captured\<rparr>) st2) (\<lambda>(st3, i3).
          let t = settle_txn now i3 in
          ebind (insert_txn t st3) (\<lambda>st4.
          Inr (announce (Payment_captured (in_ref i3) (in_order_ref i3) (in_amount_q i3) t) st4, i3))))) =
       Inr (st', j)"
    unfolding settle_def by (auto simp: ebind_Inr [where m = "create_intent _ _ _ _ _ _"] split: if_splits)
  have d: "distinct (map in_ref (intents st))" using inv by (simp add: pay_inv_def)
  have st1: "row_get in_ref (in_ref created) (intents st1) = Some created" and f:
    "in_idem created = strip idem" "in_order_ref created = order_ref" "in_amount_q created = amount"
    "in_method created = pm" "in_currency created = cur" "in_gateway created = []" "0 < amount"
    using k
    by (cases rule: create_cases;
        auto simp: row_get_Some_iff [OF d] require_idempotent_match_def guard_e_Inr
          create_intent_def split: if_splits dest: insert_intent_sound [OF inv])+
  note i = st1 [folded get_for_update_Inr]
  have r: "st' = st1 \<and> j = created \<and> money_in (in_status created) \<or>
      in_status created = Pay_Pending \<and> intents st' = row_put in_ref j (intents st1) \<and>
      j = stamp_intent now ((stamp_intent now (created\<lparr>in_status := Pay_Authorized\<rparr>))\<lparr>in_status := Pay_Captured\<rparr>)"
    using g unfolding i ebind_simps
    by (auto simp: verb_inversion saved_row_def money_in_def split: if_splits)
  then show ?thesis
  proof
    assume "st' = st1 \<and> j = created \<and> money_in (in_status created)"
    then show ?thesis using st1 f row_evolves_refl [of created] by (intro exI [of _ created]) simp
  next
    define m where "m = stamp_intent now (created\<lparr>in_status := Pay_Authorized\<rparr>)"
    assume a: "in_status created = Pay_Pending \<and> intents st' = row_put in_ref j (intents st1) \<and>
      j = stamp_intent now ((stamp_intent now (created\<lparr>in_status := Pay_Authorized\<rparr>))\<lparr>in_status := Pay_Captured\<rparr>)"
    then have j: "j = stamp_intent now (m\<lparr>in_status := Pay_Captured\<rparr>)" by (simp add: m_def)
    have "row_evolves created m" unfolding m_def using a by (intro row_evolves_move) auto
    moreover have "row_evolves m j" unfolding j by (intro row_evolves_move) (auto simp: m_def)
    ultimately have "row_evolves created j" by (rule row_evolves_trans)
    moreover have "row_get in_ref (in_ref j) (intents st') = Some j"
      using a st1 by (simp add: row_get_put)
    ultimately show ?thesis using f a by (intro exI [of _ created]) simp
  qed
qed

text \<open>Settling a sale at the counter ends with the intent captured (or already refunded)
  with exactly one capture transaction, and it is idempotent: the same call with its key,
  at another time, returns the same intent and writes nothing, so a retry never charges
  twice.\<close>

theorem settle_once:
  assumes "pay_inv st"
    "settle (intents st) now fr order_ref amount pm cur gdata ref idem asserted st = Inr (st', j)"
    "strip idem \<noteq> []"
  shows "money_in (in_status j) \<and> 0 < captured_of (in_ref j) (txns st') \<and>
    length (filter (\<lambda>t. tx_intent t = in_ref j \<and> tx_type t = Capture_txn) (txns st')) = 1 \<and>
    settle (intents st') now' fr' order_ref amount pm cur gdata ref idem asserted st' = Inr (st', j)"
proof -
  from settle_effect [OF assms(1,2)] obtain created where
    e: "row_evolves created j" "money_in (in_status j)"
      "row_get in_ref (in_ref j) (intents st') = Some j"
      "in_idem created = strip idem" "in_order_ref created = order_ref" "in_amount_q created = amount"
      "in_method created = pm" "in_currency created = cur" "in_gateway created = []" "0 < amount"
    by blast
  have inv: "pay_inv st'" using settle_sound [OF assms(1,2)] by (simp add: sound_step_def)
  have f: "in_idem j = strip idem" "in_order_ref j = order_ref" "in_amount_q j = amount"
      "in_method j = pm" "in_currency j = cur" "in_gateway j = []"
    using e by (auto simp: row_evolves_def)
  have jin: "j \<in> set (intents st')" using pay_invD(3) [OF inv e(3)] .
  then have "latest (\<lambda>i. in_idem i = strip idem) (intents st') \<noteq> None" using f by (auto simp: latest_None)
  then obtain x where x: "latest (\<lambda>i. in_idem i = strip idem) (intents st') = Some x" by blast
  then have "x = j"
    using latest_Some [OF x] jin f assms(3) inv
    by (auto intro: idems_ok_inj [where key = in_idem] simp: pay_inv_def)
  with x have l: "latest (\<lambda>i. in_idem i = strip idem) (intents st') = Some j" by simp
  have adm: "pm \<noteq> Account" "method_without_gateway pm \<or> asserted"
    using assms(2) by (auto simp: settle_def split: if_splits)
  have "create_intent True (intents st') now' fr'
         \<lparr>ca_order_ref = order_ref, ca_amount_q = amount, ca_method = pm, ca_currency = cur,
          ca_gateway = [], ca_gateway_id = [], ca_gateway_data = d,
          ca_expires_at = None, ca_ref = ref, ca_idem = idem\<rparr> st' = Inr (st', j)" for d
    using l f e(10) assms(3) by (simp add: create_intent_def Let_def require_idempotent_match_def)
  moreover have "in_status j \<in> {Pay_Captured, Pay_Refunded}" using e(2) by (auto simp: money_in_def)
  moreover have "get_for_update (in_ref j) st' = Inr j" using e(3) by (simp add: get_for_update_def)
  ultimately have "settle (intents st') now' fr' order_ref amount pm cur gdata ref idem asserted st' = Inr (st', j)"
    unfolding settle_def using adm by simp
  then show ?thesis
    using e(2) pay_invD(1) [OF inv e(3)]
    by (simp add: intent_ok_def money_ok_def captures_of_def)
qed

definition counter_call :: "payman \<Rightarrow> pay_error + (payman \<times> intent)" where
  "counter_call st = settle (intents st) 1 ''F'' ''ORD-9'' 500 Cash ''BRL'' [] (Some ''PAY-9'') ''k9'' False st"

lemma not_isl_obtain: "\<not> isl m \<Longrightarrow> (\<And>s x. m = Inr (s, x) \<Longrightarrow> thesis) \<Longrightarrow> thesis"
  by (cases m) auto

theorem settle_once_witness:
  "\<exists>st' j. counter_call payman_init = Inr (st', j) \<and> 0 < captured_of (in_ref j) (txns st')"
proof -
  have "\<not> isl (counter_call payman_init)" by code_simp
  then obtain st' j where
    "settle (intents payman_init) 1 ''F'' ''ORD-9'' 500 Cash ''BRL'' [] (Some ''PAY-9'') ''k9'' False payman_init
      = Inr (st', j)"
    unfolding counter_call_def by (rule not_isl_obtain)
  moreover have "strip ''k9'' \<noteq> []" by code_simp
  ultimately show ?thesis
    using settle_once [OF pay_inv_init] unfolding counter_call_def by blast
qed

section \<open>Gateway snapshots\<close>

lemma txn_total_grows:
  assumes "pay_inv st'" "txns st' = txns st @ new"
  shows "txn_total ty r (txns st) \<le> txn_total ty r (txns st')"
proof -
  have "0 \<le> txn_total ty r new"
    unfolding txn_total_def by (rule sum_where_nonneg) (use assms in \<open>auto simp: pay_inv_def less_imp_le\<close>)
  then show ?thesis by (simp add: assms(2) txn_total_def)
qed

text \<open>C32: Applying a gateway snapshot that reports the payment as captured or refunded makes
  the local totals those of the snapshot: the captured total is the reported one (the full
  amount when none is reported), the refunded total is the reported one, the chargeback total
  is the reported one when it is not zero and is left alone otherwise, and none of them ever
  goes down.\<close>

theorem reconcile_totals:
  assumes "pay_inv st" "row_get in_ref r (intents st) = Some i"
    "normalize_gateway_status (sn_status sn) \<in> {''captured'', ''refunded''}"
    "reconcile_gateway_status now r sn st = Inr (st', res)"
  shows "captured_of r (txns st') = (case sn_captured_q sn of None \<Rightarrow> in_amount_q i | Some c \<Rightarrow> c)
    \<and> refunded_of r (txns st') = sn_refunded_q sn
    \<and> chargeback_of r (txns st') =
        (if sn_chargeback_q sn = 0 then chargeback_of r (txns st) else sn_chargeback_q sn)
    \<and> captured_of r (txns st) \<le> captured_of r (txns st')
    \<and> refunded_of r (txns st) \<le> sn_refunded_q sn
    \<and> chargeback_of r (txns st) \<le> chargeback_of r (txns st')"
proof -
  define rs where rs: "rs = resolve_snapshot i sn"
  note s = reconcile_sound [OF assms(1,4)]
  from reconcile_run [OF assms(1,2,4) rs] obtain rc where v: "snap_ok i rs" and
    t: "set_totals r (txns st')
      (if captured_now rs then rs_captured_q rs else captured_of r (txns st))
      (if refund_now rs then rs_refunded_q rs else refunded_of r (txns st))
      (if rs_chargeback_q rs \<noteq> 0 then rs_chargeback_q rs else chargeback_of r (txns st))"
    by metis
  have q: "captured_now rs" "refund_now rs" "rs_refunded_q rs = sn_refunded_q sn"
    "rs_chargeback_q rs = sn_chargeback_q sn"
    "rs_captured_q rs = (case sn_captured_q sn of None \<Rightarrow> in_amount_q i | Some c \<Rightarrow> c)"
    using assms(3) v
    by (auto simp: rs captured_now_def refund_now_def resolve_snapshot_def Let_def snap_ok_def split: option.splits)
  obtain new where new: "txns st' = txns st @ new" "pay_inv st'"
    using s evolvesD(2) by (auto simp: sound_step_def)
  have "captured_of r (txns st) \<le> captured_of r (txns st')" "refunded_of r (txns st) \<le> refunded_of r (txns st')"
    "chargeback_of r (txns st) \<le> chargeback_of r (txns st')"
    by (rule txn_total_grows [OF new(2,1)])+
  moreover have "captured_of r (txns st') = (case sn_captured_q sn of None \<Rightarrow> in_amount_q i | Some c \<Rightarrow> c)"
    "refunded_of r (txns st') = sn_refunded_q sn"
    "chargeback_of r (txns st') =
       (if sn_chargeback_q sn = 0 then chargeback_of r (txns st) else sn_chargeback_q sn)"
    using t q by (simp_all add: set_totals_def)
  ultimately show ?thesis by presburger
qed

definition no_snap :: snapshot where
  "no_snap = \<lparr>sn_status = [], sn_amount_q = None, sn_captured_q = None, sn_refunded_q = 0,
     sn_chargeback_q = 0, sn_currency = ''BRL'', sn_gateway_id = [], sn_gateway_data = [],
     sn_capture_gid = [], sn_refund_gid = [], sn_chargeback_gid = []\<rparr>"

definition paid_snap :: snapshot where
  "paid_snap = no_snap\<lparr>sn_status := ''CONCLUIDA '', sn_refunded_q := 300\<rparr>"

definition paid_state :: payman where
  "paid_state = ok_state (reconcile_gateway_status 5 ''PAY-1'' paid_snap demo1) demo1"

lemma paid_call: "\<exists>res. reconcile_gateway_status 5 ''PAY-1'' paid_snap demo1 = Inr (paid_state, res)"
  by (rule ok_state_eq, code_simp) (simp add: paid_state_def)

theorem reconcile_totals_witness:
  "captured_of ''PAY-1'' (txns paid_state) = 1000 \<and> refunded_of ''PAY-1'' (txns paid_state) = 300"
proof -
  obtain res where r: "reconcile_gateway_status 5 ''PAY-1'' paid_snap demo1 = Inr (paid_state, res)"
    using paid_call by blast
  have n: "normalize_gateway_status (sn_status paid_snap) \<in> {''captured'', ''refunded''}" by code_simp
  have "in_amount_q (row_of demo1) = 1000" by code_simp
  with reconcile_totals [OF demo_inv(1) demo_rows(1) n r] show ?thesis
    by (simp add: paid_snap_def no_snap_def)
qed

lemma validate_other:
  assumes "validate_gateway_snapshot i rs g = Inr ()" "in_amount_q j = in_amount_q i" "in_currency j = in_currency i"
    "in_gateway_id j = (if g \<noteq> [] \<and> in_gateway_id i = [] then g else in_gateway_id i)"
  shows "validate_gateway_snapshot j rs g = Inr ()"
proof -
  have "\<not> (g \<noteq> [] \<and> in_gateway_id i \<noteq> [] \<and> g \<noteq> in_gateway_id i)"
    using assms(1) unfolding validate_gateway_snapshot_def by (simp only: if_Inl_Inr) blast
  then have "\<not> (g \<noteq> [] \<and> in_gateway_id j \<noteq> [] \<and> g \<noteq> in_gateway_id j)"
    by (simp add: assms(4))
  then show ?thesis
    using assms(1) unfolding validate_gateway_snapshot_def assms(2,3) by (simp only: if_Inl_Inr) blast
qed

text \<open>A snapshot is applied once: when a snapshot that reports captured money and carries
  no gateway data has been applied, applying it again changes nothing, takes no action and
  reports that nothing changed (the gateway may deliver its webhook any number of times).\<close>

theorem reconcile_again:
  assumes "pay_inv st" "row_get in_ref r (intents st) = Some i"
    "0 < rs_captured_q (resolve_snapshot i sn)" "sn_gateway_data sn = []"
    "normalize_gateway_status (sn_status sn) \<in> {''captured'', ''refunded''}"
    "reconcile_gateway_status now r sn st = Inr (st', res)"
  shows "\<exists>res'. reconcile_gateway_status now' r sn st' = Inr (st', res') \<and> rr_actions res' = []
    \<and> \<not> rr_changed res' \<and> rr_captured_q res' = rs_captured_q (resolve_snapshot i sn)
    \<and> rr_refunded_q res' = sn_refunded_q sn"
proof -
  define rs where "rs = resolve_snapshot i sn"
  note inv = reconcile_sound [OF assms(1,6), unfolded sound_step_def, THEN conjunct1]
  obtain rc where e: "st' = rc_db rc" and ok: "rc_ok st r rc"
    and v: "validate_gateway_snapshot i rs (sn_gateway_id sn) = Inr ()"
    and gid0: "in_gateway_id (rc_intent rc) =
       (if sn_gateway_id sn \<noteq> [] \<and> in_gateway_id i = [] then sn_gateway_id sn else in_gateway_id i)"
    and t: "set_totals r (txns st')
      (if captured_now rs then rs_captured_q rs else captured_of r (txns st))
      (if refund_now rs then rs_refunded_q rs else refunded_of r (txns st))
      (if rs_chargeback_q rs \<noteq> 0 then rs_chargeback_q rs else chargeback_of r (txns st))"
    by (rule reconcile_run [OF assms(1,2,6) rs_def])
  define j where "j = rc_intent rc"
  have j: "row_get in_ref r (intents st') = Some j" "row_evolves i j"
    using rc_okD(4) [OF ok] rc_ok_row [OF ok assms(2)] e by (simp_all add: j_def)
  note gid = gid0 [folded j_def]
  have am: "in_amount_q j = in_amount_q i" "in_currency j = in_currency i" using j(2) by (auto simp: row_evolves_def)
  have rs': "resolve_snapshot j sn = rs" unfolding rs_def resolve_snapshot_def am ..
  have v': "validate_gateway_snapshot j rs (sn_gateway_id sn) = Inr ()"
    by (rule validate_other [OF v am]) (simp add: gid)
  have st: "rs_status rs \<in> {''captured'', ''refunded''}"
    using assms(5) by (simp add: rs_def resolve_snapshot_def Let_def)
  have q: "captured_now rs" "refund_now rs" "rs_refunded_q rs = sn_refunded_q sn"
    using st by (auto simp: captured_now_def refund_now_def rs_def resolve_snapshot_def Let_def)
  have tot: "captured_of r (txns st') = rs_captured_q rs" "refunded_of r (txns st') = rs_refunded_q rs"
    "rs_chargeback_q rs \<noteq> 0 \<Longrightarrow> chargeback_of r (txns st') = rs_chargeback_q rs"
    using t q by (auto simp: set_totals_def)
  have jr: "in_ref j = r" "intent_ok j (txns st')" using pay_invD [OF inv j(1)] by auto
  have mj: "money_in (in_status j)"
    using jr tot(1) assms(3) by (auto simp: intent_ok_def money_ok_def rs_def)
  let ?rc = "\<lparr>rc_db = st', rc_intent = j, rc_actions = [], rc_changed = False\<rparr>"
  have "recon_prepare now' sn j st' = Inr ?rc"
    using gid assms(4) by (auto simp: recon_prepare_def Let_def)
  moreover have "recon_authorize now' rs ?rc = Inr ?rc" using mj by (auto simp: recon_authorize_def)
  moreover have "recon_capture now' sn rs ?rc = Inr ?rc"
    using mj st tot jr assms(3) by (auto simp: recon_capture_def Let_def rs_def money_in_def)
  moreover have "recon_refund now' sn rs ?rc = Inr ?rc"
    using tot jr by (auto simp: recon_refund_def Let_def)
  moreover have "recon_chargeback now' sn rs ?rc = Inr ?rc"
    using tot jr by (auto simp: recon_chargeback_def Let_def)
  moreover have "recon_close now' rs ?rc = Inr ?rc" using mj by (auto simp: recon_close_def)
  ultimately have "reconcile_gateway_status now' r sn st' = Inr (st', recon_result_of r ?rc)"
    using j(1) v' by (simp add: reconcile_gateway_status_def get_for_update_def rs' Let_def)
  then show ?thesis using tot jr q by (simp add: recon_result_of_def Let_def rs_def)
qed

theorem reconcile_again_witness:
  "\<exists>res. reconcile_gateway_status 99 ''PAY-1'' paid_snap paid_state = Inr (paid_state, res) \<and> rr_actions res = []"
proof -
  obtain res where r: "reconcile_gateway_status 5 ''PAY-1'' paid_snap demo1 = Inr (paid_state, res)"
    using paid_call by blast
  have n: "normalize_gateway_status (sn_status paid_snap) \<in> {''captured'', ''refunded''}" by code_simp
  have c: "0 < rs_captured_q (resolve_snapshot (row_of demo1) paid_snap)" by code_simp
  have "sn_gateway_data paid_snap = []" by (simp add: paid_snap_def no_snap_def)
  from reconcile_again [OF demo_inv(1) demo_rows(1) c this n r, of 99] show ?thesis by blast
qed

definition chargeback_snap :: snapshot where
  "chargeback_snap = no_snap\<lparr>sn_status := ''captured'', sn_chargeback_q := 700\<rparr>"

definition refunded_snap :: snapshot where
  "refunded_snap = no_snap\<lparr>sn_status := ''refunded'', sn_refunded_q := 1000\<rparr>"

definition disputed :: payman where
  "disputed = ok_state (reconcile_gateway_status 4 ''PAY-1'' chargeback_snap demo3) demo3"

definition overpaid :: payman where
  "overpaid = ok_state (reconcile_gateway_status 5 ''PAY-1'' refunded_snap disputed) disputed"

text \<open>A snapshot that omits the chargeback total is not checked against the chargebacks
  already recorded: from a captured payment of 1000 with a recorded chargeback of 700, a
  snapshot that reports 1000 refunded and no chargeback is accepted, and the store then says
  that 1700 of the 1000 captured went back to the payer.\<close>

theorem chargeback_then_refund_exceeds_capture:
  "pay_step\<^sup>*\<^sup>* payman_init overpaid \<and> captured_of ''PAY-1'' (txns overpaid) = 1000 \<and>
   returned_total ''PAY-1'' (txns overpaid) = 1700"
proof -
  have "\<not> isl (reconcile_gateway_status 4 ''PAY-1'' chargeback_snap demo3)" by code_simp
  then have "pay_step demo3 disputed" unfolding disputed_def by (rule step_reconcile [OF isr_state])
  moreover have "\<not> isl (reconcile_gateway_status 5 ''PAY-1'' refunded_snap disputed)" by code_simp
  then have "pay_step disputed overpaid" unfolding overpaid_def by (rule step_reconcile [OF isr_state])
  ultimately have "pay_step\<^sup>*\<^sup>* payman_init overpaid"
    using demo_run(2) by (meson rtranclp.rtrancl_into_rtrancl)
  moreover have "captured_of ''PAY-1'' (txns overpaid) = 1000" "returned_total ''PAY-1'' (txns overpaid) = 1700"
    by code_simp+
  ultimately show ?thesis by simp
qed

section \<open>The race on the refund key\<close>

text \<open>When a concurrent refund with the same idempotency key commits between the lookup
  and the insert, the recovery branch of refund does not return that refund: the failed
  insert has broken the atomic block of the method, and the call ends in a transaction
  error instead of the replay.\<close>

theorem refund_race_not_recovered:
  assumes "row_get in_ref r (intents st) = Some i" "in_ref i = r" "money_in (in_status i)"
    "strip idem \<noteq> []" "t \<in> set (txns st)" "tx_idem t = strip idem"
    "\<forall>t \<in> set seen. tx_idem t \<noteq> strip idem"
    "0 < a" "a \<le> captured_of r (txns st) - returned_total r (txns st)"
  shows "refund seen now r (Some a) reason [] idem st = Inl Broken_transaction"
proof -
  have "latest (\<lambda>t. tx_type t = Refund_txn \<and> tx_idem t = strip idem) seen = None"
    using assms(7) by (auto simp: latest_None)
  moreover have "get_for_update r st = Inr i" using assms(1) by (simp add: get_for_update_def)
  moreover have "in_status i \<in> {Pay_Captured, Pay_Refunded}" using assms(3) by (simp add: money_in_def)
  ultimately show ?thesis
    using assms by (auto simp: refund_def refund_fresh_def insert_txn_def txn_constraints_def Let_def)
qed

theorem refund_race_not_recovered_witness:
  "refund [] 8 ''PAY-1'' (Some 400) ''troca'' [] ''r1'' demo4 = Inl Broken_transaction"
proof -
  have "in_ref (row_of demo4) = ''PAY-1''" "money_in (in_status (row_of demo4))" "strip ''r1'' \<noteq> []"
    "txns demo4 ! 1 \<in> set (txns demo4)" "tx_idem (txns demo4 ! 1) = strip ''r1''"
    "400 \<le> captured_of ''PAY-1'' (txns demo4) - returned_total ''PAY-1'' (txns demo4)"
    by code_simp+
  with refund_race_not_recovered [OF demo_rows(3), of "''r1''" "txns demo4 ! 1" "[]" 400 8 "''troca''"]
  show ?thesis by simp
qed

section \<open>The customer account\<close>

definition on_account :: "string \<Rightarrow> intent \<Rightarrow> bool" where
  "on_account c i \<longleftrightarrow> in_method i = Account \<and> in_status i = Pay_Authorized \<and>
     dget (in_gateway_data i) ''customer_ref'' = Some (JStr c)"

lemma balance_sum: "account_balance_q c st = sum_where (on_account c) in_amount_q (intents st)"
proof -
  have "sum_list (map f (sort_key k xs)) = sum_list (map f xs)" for f :: "intent \<Rightarrow> int" and k :: "intent \<Rightarrow> nat \<times> int" and xs
    by (metis mset_map mset_sort sum_mset_sum_list)
  then show ?thesis
    by (simp add: account_balance_q_def account_open_intents_def sum_where_def on_account_def [abs_def])
qed

lemma sum_where_row_put:
  fixes f :: "'r \<Rightarrow> int"
  assumes "distinct (map key rs)" "row_get key k rs = Some r" "key r' = k"
  shows "sum_where P f (row_put key r' rs) =
    sum_where P f rs - (if P r then f r else 0) + (if P r' then f r' else 0)"
  using row_put_split [OF assms] by auto

text \<open>The balance of a customer account is exact: charging a sale to the account (a new
  charge, without an idempotency key) raises the balance of that customer by the amount of
  the sale and no other, and capturing one of its open charges lowers it by the amount of
  that charge.\<close>

theorem account_charge_balance:
  assumes "pay_inv st" "strip idem = []"
    "charge_to_account seen now fr ord amt cust cur [] ref idem st = Inr (st', i)"
  shows "account_balance_q c st' = account_balance_q c st + (if c = cust then amt else 0)
    \<and> in_status i = Pay_Authorized \<and> on_account cust i
    \<and> (capture now' (in_ref i) amount gid [] st' = Inr (st2, t) \<longrightarrow>
         account_balance_q c st2 = account_balance_q c st)"
proof -
  from assms(3) obtain st1 a created where
    k: "create_intent True seen now fr a st = Inr (st1, created)"
    and a: "ca_idem a = idem" "ca_amount_q a = amt" "ca_method a = Account"
      "ca_gateway_data a = [(''customer_ref'', JStr cust)]"
    and g: "ebind (get_for_update (in_ref created) st1) (\<lambda>i.
        if in_status i \<noteq> Pay_Pending then Inr (st1, i)
        else
          ebind (save_intent now (in_status i) (i\<lparr>in_status := Pay_Authorized\<rparr>) st1) (\<lambda>(st2, i2).
          Inr (announce (Payment_authorized (in_ref i2) (in_order_ref i2) (in_amount_q i2) (in_method i2)) st2,
               i2))) = Inr (st', i)"
    unfolding charge_to_account_def
    by (auto simp: ebind_Inr [where m = "create_intent _ _ _ _ _ _"] split: if_splits)
  have n: "created = new_intent now fr [] a" "insert_intent created st = Inr st1"
    using k assms(2) a(1) by (cases rule: create_cases; simp)+
  have s1: "pay_inv st1" "row_get in_ref (in_ref created) (intents st1) = Some created"
    using insert_intent_sound [OF assms(1) n(2)] n(1) by (auto simp: sound_step_def)
  have st1: "intents st1 = intents st @ [created]" using n(2) by (auto simp: insert_intent_def split: if_splits)
  have i: "i = stamp_intent now (created\<lparr>in_status := Pay_Authorized\<rparr>)" "intents st' = row_put in_ref i (intents st1)"
    using g s1(2) n(1) by (auto simp: get_for_update_def verb_inversion saved_row_def)
  have acc: "on_account c i = (c = cust)" "\<not> on_account c created" "in_amount_q i = amt" "in_ref i = in_ref created"
    for c using a by (auto simp: i(1) n(1) on_account_def)
  have d: "distinct (map in_ref (intents st1))" using s1 by (simp add: pay_inv_def)
  have bal: "account_balance_q c st' = account_balance_q c st + (if c = cust then amt else 0)" for c
    using sum_where_row_put [OF d s1(2), of i "on_account c" in_amount_q] acc
    by (simp add: balance_sum i(2) st1)
  have get: "row_get in_ref (in_ref i) (intents st') = Some i" using s1(2) acc(4) by (simp add: i(2) row_get_put)
  have "account_balance_q c st2 = account_balance_q c st" if "capture now' (in_ref i) amount gid [] st' = Inr (st2, t)"
  proof -
    define j where "j = saved_row now' Pay_Authorized (i\<lparr>in_status := Pay_Captured\<rparr>)"
    have "intents st2 = row_put in_ref j (intents st')"
      using that get [folded get_for_update_Inr]
      by (auto simp: capture_def verb_inversion j_def split: if_splits)
    moreover have "distinct (map in_ref (intents st'))" using d by (simp add: i(2))
    moreover have "\<not> on_account c j" by (simp add: on_account_def j_def)
    moreover have "in_ref j = in_ref i" by (simp add: j_def)
    ultimately show ?thesis
      using sum_where_row_put [of in_ref "intents st'" "in_ref i" i j "on_account c" in_amount_q] get acc bal
      by (simp add: balance_sum)
  qed
  then show ?thesis using bal acc i(1) by simp
qed

theorem account_charge_balance_witness:
  "\<exists>st' i. charge_to_account [] 1 ''F'' ''ORD-7'' 800 ''CUST-1'' ''BRL'' [] None [] payman_init = Inr (st', i)
    \<and> account_balance_q ''CUST-1'' st' = 800 \<and> account_balance_q ''CUST-2'' st' = 0"
proof -
  have "\<not> isl (charge_to_account [] 1 ''F'' ''ORD-7'' 800 ''CUST-1'' ''BRL'' [] None [] payman_init)" by code_simp
  then obtain st' i where
    c: "charge_to_account [] 1 ''F'' ''ORD-7'' 800 ''CUST-1'' ''BRL'' [] None [] payman_init = Inr (st', i)"
    by (rule not_isl_obtain)
  have "account_balance_q x payman_init = 0" for x by (simp add: balance_sum payman_init_def)
  then show ?thesis
    using account_charge_balance [OF pay_inv_init strip_Nil c, of "''CUST-1''"]
      account_charge_balance [OF pay_inv_init strip_Nil c, of "''CUST-2''"] c by auto
qed

end
