(* ===== verification/Cashman.thy ===== *)
theory Cashman
  imports Prelude Machines "HOL-Library.Product_Lexorder"
begin

text \<open>
  The cash drawer (\<open>packages/cashman\<close>): the shift of a terminal, the signed entries of its
  book, the single writer \<open>record\<close>, opening, blind closing and audited correction, and what
  the book proves (balance, expected, difference, counted, open change requests).

  The database is the list of shifts and the list of entries in creation order; the primary
  key of a row is its position. \<open>select_for_update\<close> makes the row read inside the
  transaction current, so the state argument is the locked state. JSON numbers are integers.
\<close>

section \<open>Data\<close>

datatype cash_kind =
    Float_in | Sale | Cod_settled | Account_settled | Cash_in | Cash_refund | Cash_out
  | Courier_out | Courier_in | Count_close | Count_correction | Drawer_open | Drawer_unlock
  | Change_requested | Change_served | Change_cancelled | Receipt_result | Note

definition kind_values :: "(string \<times> cash_kind) list" where
  "kind_values =
     [(''float_in'', Float_in), (''sale'', Sale), (''cod_settled'', Cod_settled),
      (''account_settled'', Account_settled), (''cash_in'', Cash_in), (''refund'', Cash_refund),
      (''cash_out'', Cash_out), (''courier_out'', Courier_out), (''courier_in'', Courier_in),
      (''count'', Count_close), (''count_correction'', Count_correction),
      (''drawer_open'', Drawer_open), (''drawer_unlock'', Drawer_unlock),
      (''change_requested'', Change_requested), (''change_served'', Change_served),
      (''change_cancelled'', Change_cancelled), (''receipt_result'', Receipt_result),
      (''note'', Note)]"

datatype sign_rule = Plus | Plus_zero | Minus | Zero | Any_sign

fun sign_by_kind :: "cash_kind \<Rightarrow> sign_rule" where
  "sign_by_kind Float_in = Plus"
| "sign_by_kind Sale = Plus_zero"
| "sign_by_kind Cod_settled = Plus"
| "sign_by_kind Account_settled = Plus"
| "sign_by_kind Cash_in = Plus"
| "sign_by_kind Cash_refund = Minus"
| "sign_by_kind Cash_out = Minus"
| "sign_by_kind Courier_out = Minus"
| "sign_by_kind Courier_in = Plus_zero"
| "sign_by_kind Count_close = Any_sign"
| "sign_by_kind Count_correction = Any_sign"
| "sign_by_kind Drawer_open = Zero"
| "sign_by_kind Drawer_unlock = Zero"
| "sign_by_kind Change_requested = Zero"
| "sign_by_kind Change_served = Zero"
| "sign_by_kind Change_cancelled = Zero"
| "sign_by_kind Receipt_result = Zero"
| "sign_by_kind Note = Zero"

definition sign_allows :: "cash_kind \<Rightarrow> int \<Rightarrow> bool" where
  "sign_allows k a =
     (case sign_by_kind k of Plus \<Rightarrow> a > 0 | Plus_zero \<Rightarrow> a \<ge> 0 | Minus \<Rightarrow> a < 0 | Zero \<Rightarrow> a = 0
      | Any_sign \<Rightarrow> True)"

fun parent_kinds :: "cash_kind \<Rightarrow> cash_kind list option" where
  "parent_kinds Count_correction = Some [Count_close]"
| "parent_kinds Change_served = Some [Change_requested]"
| "parent_kinds Change_cancelled = Some [Change_requested]"
| "parent_kinds Receipt_result = Some [Cash_out, Cash_in]"
| "parent_kinds _ = None"

definition receipt_statuses :: "string list" where
  "receipt_statuses = [''printed'', ''failed'', ''skipped'']"

definition drawer_open_purposes :: "string list" where
  "drawer_open_purposes = [''sale'', ''no_sale'']"

definition approval_required :: "cash_kind \<Rightarrow> bool" where
  "approval_required k \<longleftrightarrow> k \<in> {Cash_out, Drawer_unlock, Change_served, Count_correction}"

definition reserved_kind :: "cash_kind \<Rightarrow> bool" where
  "reserved_kind k \<longleftrightarrow> k \<in> {Float_in, Count_close}"

definition allowed_on_closed :: "cash_kind \<Rightarrow> bool" where
  "allowed_on_closed k \<longleftrightarrow> k \<in> {Count_correction, Note, Receipt_result}"

datatype shift_status = Shift_open | Shift_closed

record shift =
  sh_id :: nat
  sh_terminal :: string
  sh_opened_by :: string
  sh_opened_at :: int
  sh_closed_at :: "int option"
  sh_status :: shift_status

record entry =
  en_id :: nat
  en_shift :: nat
  en_operator :: string
  en_approved_by :: "string option"
  en_at :: int
  en_kind :: cash_kind
  en_amount_q :: int
  en_order_ref :: string
  en_payment_ref :: string
  en_parent :: "nat option"
  en_reason :: string
  en_payload :: dict

datatype cash_signal = Entry_recorded nat | Shift_opened nat | Shift_was_closed nat nat

record cashman =
  terminals :: "string list"
  shifts :: "shift list"
  entries :: "entry list"
  cash_signals :: "cash_signal list"

definition cash_init :: cashman where
  "cash_init = \<lparr>terminals = [], shifts = [], entries = [], cash_signals = []\<rparr>"

datatype cash_error =
    Cash_invalid_kind | Cash_invalid_amount | Cash_parent_required | Cash_parent_mismatch
  | Cash_approval_required | Cash_invalid_payload | Cash_shift_not_open | Cash_shift_not_closed
  | Cash_duplicate_entry | Cash_shift_already_open | Cash_type_error | Cash_integrity
  | Cash_shift_missing

section \<open>Database constraints\<close>

text \<open>The check constraint \<open>cashman_entry_sign_by_kind\<close>, as the migration writes it.\<close>

definition sign_constraint :: "cash_kind \<Rightarrow> int \<Rightarrow> bool" where
  "sign_constraint k a \<longleftrightarrow>
     (k \<in> {Float_in, Cod_settled, Account_settled, Cash_in} \<and> a > 0) \<or>
     (k \<in> {Sale, Courier_in} \<and> a \<ge> 0) \<or>
     (k \<in> {Cash_refund, Cash_out, Courier_out} \<and> a < 0) \<or>
     k \<in> {Count_close, Count_correction} \<or>
     (k \<in> {Drawer_open, Drawer_unlock, Change_requested, Change_served, Change_cancelled,
           Receipt_result, Note} \<and> a = 0)"

text \<open>The two partial unique constraints: one sale, one COD settlement per order and shift.\<close>

definition one_per_order :: "cash_kind \<Rightarrow> entry \<Rightarrow> entry list \<Rightarrow> bool" where
  "one_per_order k e es \<longleftrightarrow>
     en_kind e = k \<and> en_order_ref e \<noteq> [] \<longrightarrow>
     (\<forall>x \<in> set es. \<not> (en_kind x = k \<and> en_shift x = en_shift e \<and> en_order_ref x = en_order_ref e))"

definition insert_entry :: "entry \<Rightarrow> cashman \<Rightarrow> cash_error + cashman" where
  "insert_entry e st =
     (if sign_constraint (en_kind e) (en_amount_q e) \<and> one_per_order Sale e (entries st) \<and>
         one_per_order Cod_settled e (entries st)
      then Inr (st\<lparr>entries := entries st @ [e]\<rparr>) else Inl Cash_integrity)"

definition insert_shift :: "shift \<Rightarrow> cashman \<Rightarrow> cash_error + cashman" where
  "insert_shift s st =
     (if sh_status s = Shift_open \<and>
         (\<exists>x \<in> set (shifts st). sh_status x = Shift_open \<and> sh_terminal x = sh_terminal s)
      then Inl Cash_integrity else Inr (st\<lparr>shifts := shifts st @ [s]\<rparr>))"

definition send :: "cash_signal \<Rightarrow> cashman \<Rightarrow> cashman" where
  "send s st = st\<lparr>cash_signals := cash_signals st @ [s]\<rparr>"

section \<open>The writer\<close>

definition positive_cents :: "json \<Rightarrow> bool" where
  "positive_cents v = (case v of JNum n \<Rightarrow> n > 0 | _ \<Rightarrow> False)"

text \<open>\<open>value in frozenset\<close>: a list or a dict is not hashable and raises \<open>TypeError\<close>.\<close>

definition in_frozenset :: "string list \<Rightarrow> json option \<Rightarrow> cash_error + bool" where
  "in_frozenset xs v =
     (case v of Some (JList _) \<Rightarrow> Inl Cash_type_error | Some (JObj _) \<Rightarrow> Inl Cash_type_error
      | Some (JStr s) \<Rightarrow> Inr (s \<in> set xs) | _ \<Rightarrow> Inr False)"

definition validate_payload :: "cash_kind \<Rightarrow> dict \<Rightarrow> string \<Rightarrow> string \<Rightarrow> cash_error + unit" where
  "validate_payload k payload order_ref reason =
     (if k = Change_requested then
        if \<not> (case dget payload ''amount_q'' of Some v \<Rightarrow> positive_cents v | None \<Rightarrow> False)
          then Inl Cash_invalid_payload
        else (case dget payload ''denominations'' of
                None \<Rightarrow> Inr ()
              | Some v \<Rightarrow>
                  if \<not> truthy v then Inr ()
                  else (case v of
                          JList xs \<Rightarrow> if list_all positive_cents xs then Inr () else Inl Cash_invalid_payload
                        | _ \<Rightarrow> Inl Cash_invalid_payload))
      else if k = Drawer_open \<and> dget payload ''purpose'' \<noteq> None then
        ebind (in_frozenset drawer_open_purposes (dget payload ''purpose'')) (\<lambda>known.
        if \<not> known then Inl Cash_invalid_payload
        else if dget payload ''purpose'' = Some (JStr ''sale'') \<and> strip order_ref = []
          then Inl Cash_invalid_payload
        else if dget payload ''purpose'' = Some (JStr ''no_sale'') \<and> strip reason = []
          then Inl Cash_invalid_payload
        else Inr ())
      else if k = Receipt_result then
        ebind (in_frozenset receipt_statuses (dget payload ''status'')) (\<lambda>known.
        if \<not> known then Inl Cash_invalid_payload else Inr ())
      else Inr ())"

definition locked_shift :: "nat \<Rightarrow> cashman \<Rightarrow> shift option" where
  "locked_shift sid st = row_get sh_id sid (shifts st)"

record entry_args =
  ea_operator :: string
  ea_amount_q :: int
  ea_approved_by :: "string option"
  ea_order_ref :: string
  ea_payment_ref :: string
  ea_parent :: "entry option"
  ea_reason :: string
  ea_payload :: dict
  ea_at :: "int option"

definition check_parent :: "cash_kind \<Rightarrow> nat \<Rightarrow> entry option \<Rightarrow> cash_error + unit" where
  "check_parent k sid parent =
     (case parent_kinds k of
        Some ks \<Rightarrow>
          (case parent of None \<Rightarrow> Inl Cash_parent_required
           | Some p \<Rightarrow> guard_e (en_kind p \<in> set ks \<and> en_shift p = sid) Cash_parent_mismatch)
      | None \<Rightarrow>
          (case parent of None \<Rightarrow> Inr ()
           | Some p \<Rightarrow> guard_e (en_shift p = sid) Cash_parent_mismatch))"

definition record_entry :: "string \<Rightarrow> int \<Rightarrow> string \<Rightarrow> nat \<Rightarrow> entry_args \<Rightarrow> cashman \<Rightarrow> cash_error + (cashman \<times> entry)" where
  "record_entry dev now kind_value sid a st =
     (case map_of kind_values kind_value of None \<Rightarrow> Inl Cash_invalid_kind
      | Some k \<Rightarrow>
      if reserved_kind k then Inl Cash_invalid_kind
      else if \<not> sign_allows k (ea_amount_q a) then Inl Cash_invalid_amount
      else
        ebind (check_parent k sid (ea_parent a)) (\<lambda>_.
        if approval_required k \<and> ea_approved_by a = None then Inl Cash_approval_required
        else let payload = stamp_device dev (ea_payload a) in
          ebind (validate_payload k payload (ea_order_ref a) (ea_reason a)) (\<lambda>_.
          case locked_shift sid st of None \<Rightarrow> Inl Cash_shift_not_open
          | Some locked \<Rightarrow>
            if sh_status locked \<noteq> Shift_open \<and> \<not> allowed_on_closed k then Inl Cash_shift_not_open
            else if k = Count_correction \<and> sh_status locked = Shift_open then Inl Cash_shift_not_closed
            else
              let e = \<lparr>en_id = length (entries st), en_shift = sid, en_operator = ea_operator a,
                       en_approved_by = ea_approved_by a,
                       en_at = (case ea_at a of Some t \<Rightarrow> t | None \<Rightarrow> now), en_kind = k,
                       en_amount_q = ea_amount_q a, en_order_ref = ea_order_ref a,
                       en_payment_ref = ea_payment_ref a, en_parent = map_option en_id (ea_parent a),
                       en_reason = take 200 (strip (ea_reason a)), en_payload = payload\<rparr> in
              (case insert_entry e st of
                 Inl _ \<Rightarrow> Inl Cash_duplicate_entry
               | Inr st' \<Rightarrow> Inr (send (Entry_recorded (en_id e)) st', e)))))"

section \<open>What the book proves\<close>

definition of_shift :: "nat \<Rightarrow> (entry \<Rightarrow> bool) \<Rightarrow> cashman \<Rightarrow> int" where
  "of_shift sid P st = sum_where (\<lambda>e. en_shift e = sid \<and> P e) en_amount_q (entries st)"

definition timeline :: "nat \<Rightarrow> cashman \<Rightarrow> entry list" where
  "timeline sid st = sort_key (\<lambda>e. (en_at e, en_id e)) (filter (\<lambda>e. en_shift e = sid) (entries st))"

definition balance :: "nat \<Rightarrow> entry option \<Rightarrow> cashman \<Rightarrow> int" where
  "balance sid until st =
     of_shift sid (\<lambda>e. case until of None \<Rightarrow> True | Some u \<Rightarrow> en_id e \<le> en_id u) st"

definition is_count :: "cash_kind \<Rightarrow> bool" where
  "is_count k \<longleftrightarrow> k = Count_close \<or> k = Count_correction"

definition expected_before_count :: "nat \<Rightarrow> cashman \<Rightarrow> int" where
  "expected_before_count sid st = of_shift sid (\<lambda>e. \<not> is_count (en_kind e)) st"

definition difference :: "nat \<Rightarrow> cashman \<Rightarrow> int option" where
  "difference sid st =
     (if \<not> (\<exists>e \<in> set (entries st). en_shift e = sid \<and> en_kind e = Count_close) then None
      else Some (of_shift sid (\<lambda>e. is_count (en_kind e)) st))"

definition counted :: "nat \<Rightarrow> cashman \<Rightarrow> int option" where
  "counted sid st =
     (case difference sid st of None \<Rightarrow> None | Some d \<Rightarrow> Some (expected_before_count sid st + d))"

datatype change_status = Change_pending | Change_was_served | Change_was_cancelled

text \<open>
  The projection keeps the raw \<open>note\<close> value; \<open>str()\<close> and \<open>isoformat()\<close> are left to the
  surface. The amounts were checked by \<open>validate_payload\<close> when the request was recorded.
\<close>

record change_request =
  cr_entry_id :: nat
  cr_amount_q :: int
  cr_denominations :: "int list"
  cr_note :: "json option"
  cr_status :: change_status
  cr_requested_by :: string
  cr_requested_at :: int
  cr_served_by :: string
  cr_served_at :: "int option"
  cr_cancelled_at :: "int option"

definition cents_of :: "json \<Rightarrow> int" where
  "cents_of v = (case v of JNum n \<Rightarrow> n | _ \<Rightarrow> 0)"

definition new_request :: "entry \<Rightarrow> change_request" where
  "new_request e =
     \<lparr>cr_entry_id = en_id e,
      cr_amount_q = (case dget (en_payload e) ''amount_q'' of None \<Rightarrow> 0 | Some v \<Rightarrow> cents_of v),
      cr_denominations = (case dget (en_payload e) ''denominations'' of
                            Some (JList xs) \<Rightarrow> map cents_of xs | _ \<Rightarrow> []),
      cr_note = dget (en_payload e) ''note'', cr_status = Change_pending,
      cr_requested_by = en_operator e, cr_requested_at = en_at e, cr_served_by = [],
      cr_served_at = None, cr_cancelled_at = None\<rparr>"

definition change_step :: "(nat \<times> change_request) list \<Rightarrow> entry \<Rightarrow> (nat \<times> change_request) list" where
  "change_step by_id e =
     (if en_kind e = Change_requested then AList.update (en_id e) (new_request e) by_id
      else case Option.bind (en_parent e) (map_of by_id) of
             None \<Rightarrow> by_id
           | Some r \<Rightarrow>
               if cr_status r \<noteq> Change_pending then by_id
               else if en_kind e = Change_served
               then AList.update (cr_entry_id r)
                      (r\<lparr>cr_status := Change_was_served,
                         cr_served_by := (case en_approved_by e of None \<Rightarrow> [] | Some u \<Rightarrow> u),
                         cr_served_at := Some (en_at e)\<rparr>) by_id
               else AList.update (cr_entry_id r)
                      (r\<lparr>cr_status := Change_was_cancelled, cr_cancelled_at := Some (en_at e)\<rparr>) by_id)"

definition change_requests :: "nat \<Rightarrow> cashman \<Rightarrow> change_request list" where
  "change_requests sid st =
     map snd (foldl change_step []
       (filter (\<lambda>e. en_kind e \<in> {Change_requested, Change_served, Change_cancelled}) (timeline sid st)))"

section \<open>Custody\<close>

definition open_shift_for_terminal :: "string \<Rightarrow> shift list \<Rightarrow> shift option" where
  "open_shift_for_terminal t rows =
     (case sort_key (\<lambda>s. - sh_opened_at s)
             (filter (\<lambda>s. sh_terminal s = t \<and> sh_status s = Shift_open) rows) of
        [] \<Rightarrow> None | s # _ \<Rightarrow> Some s)"

definition is_closed :: "nat \<Rightarrow> cashman \<Rightarrow> bool" where
  "is_closed sid st =
     (case row_get sh_id sid (shifts st) of None \<Rightarrow> False | Some s \<Rightarrow> sh_status s = Shift_closed)"

text \<open>\<open>Terminal.default()\<close>: get or create the terminal of a shop that configured none.\<close>

definition default_terminal :: "cashman \<Rightarrow> cashman \<times> string" where
  "default_terminal st =
     (if ''pdv-main'' \<in> set (terminals st) then (st, ''pdv-main'')
      else (st\<lparr>terminals := terminals st @ [''pdv-main'']\<rparr>, ''pdv-main''))"

text \<open>
  \<open>seen\<close> is what the query of the blocking shift read; a concurrent opening may have
  committed since, and then the unique constraint decides.
\<close>

definition open_shift_on ::
  "shift list \<Rightarrow> string \<Rightarrow> int \<Rightarrow> string \<Rightarrow> string \<Rightarrow> int \<Rightarrow> int option \<Rightarrow> cashman \<Rightarrow> cash_error + (cashman \<times> shift)" where
  "open_shift_on seen dev now operator t float_q at st =
     (if float_q < 0 then Inl Cash_invalid_amount
      else if open_shift_for_terminal t seen \<noteq> None then Inl Cash_shift_already_open
      else
        let s = \<lparr>sh_id = length (shifts st), sh_terminal = t, sh_opened_by = operator,
                 sh_opened_at = (case at of Some x \<Rightarrow> x | None \<Rightarrow> now), sh_closed_at = None,
                 sh_status = Shift_open\<rparr> in
        (case insert_shift s st of
           Inl _ \<Rightarrow> Inl Cash_shift_already_open
         | Inr st1 \<Rightarrow>
             let st2 = send (Shift_opened (sh_id s)) st1 in
             if float_q > 0 then
               let e = \<lparr>en_id = length (entries st2), en_shift = sh_id s, en_operator = operator,
                        en_approved_by = None, en_at = sh_opened_at s, en_kind = Float_in,
                        en_amount_q = float_q, en_order_ref = [], en_payment_ref = [],
                        en_parent = None, en_reason = [], en_payload = stamp_device dev []\<rparr> in
               ebind (insert_entry e st2) (\<lambda>st3. Inr (send (Entry_recorded (en_id e)) st3, s))
             else Inr (st2, s)))"

text \<open>
  The default terminal is created before the atomic block, so it stays when the opening is
  refused: the new state is returned beside the result.
\<close>

definition open_shift ::
  "shift list \<Rightarrow> string \<Rightarrow> int \<Rightarrow> string \<Rightarrow> string option \<Rightarrow> int \<Rightarrow> int option \<Rightarrow> cashman
   \<Rightarrow> cashman \<times> (cash_error + shift)" where
  "open_shift seen dev now operator terminal float_q at st0 =
     (let (st, t) = (case terminal of Some t \<Rightarrow> (st0, t) | None \<Rightarrow> default_terminal st0) in
      case open_shift_on seen dev now operator t float_q at st of
        Inl err \<Rightarrow> (st, Inl err) | Inr (st', s) \<Rightarrow> (st', Inr s))"

definition close_shift ::
  "string \<Rightarrow> int \<Rightarrow> nat \<Rightarrow> int \<Rightarrow> string \<Rightarrow> string \<Rightarrow> int option \<Rightarrow> cashman \<Rightarrow> cash_error + (cashman \<times> entry)" where
  "close_shift dev now sid counted_q actor notes at st =
     (if counted_q < 0 then Inl Cash_invalid_amount
      else case row_get sh_id sid (shifts st) of None \<Rightarrow> Inl Cash_shift_missing
      | Some locked \<Rightarrow>
        if sh_status locked \<noteq> Shift_open then Inl Cash_shift_not_open
        else
          let t = (case at of Some x \<Rightarrow> x | None \<Rightarrow> now);
              e = \<lparr>en_id = length (entries st), en_shift = sid, en_operator = actor,
                   en_approved_by = None, en_at = t, en_kind = Count_close,
                   en_amount_q = counted_q - expected_before_count sid st, en_order_ref = [],
                   en_payment_ref = [], en_parent = None, en_reason = [],
                   en_payload = stamp_device dev
                     [(''counted_q'', JNum counted_q), (''notes'', JStr (strip notes))]\<rparr> in
          ebind (insert_entry e st) (\<lambda>st1.
          Inr (send (Shift_was_closed sid (en_id e)) (send (Entry_recorded (en_id e))
                 (st1\<lparr>shifts := row_put sh_id
                        (locked\<lparr>sh_status := Shift_closed, sh_closed_at := Some t\<rparr>) (shifts st1)\<rparr>)), e)))"

definition correct_count ::
  "string \<Rightarrow> int \<Rightarrow> nat \<Rightarrow> int \<Rightarrow> string \<Rightarrow> string option \<Rightarrow> string \<Rightarrow> cashman \<Rightarrow> cash_error + (cashman \<times> entry)" where
  "correct_count dev now sid delta_q actor approved_by reason st =
     (if delta_q = 0 then Inl Cash_invalid_amount
      else if strip reason = [] then Inl Cash_invalid_amount
      else case find (\<lambda>e. en_shift e = sid \<and> en_kind e = Count_close) (entries st) of
             None \<Rightarrow> Inl Cash_shift_not_closed
           | Some count \<Rightarrow>
               record_entry dev now ''count_correction'' sid
                 \<lparr>ea_operator = actor, ea_amount_q = delta_q, ea_approved_by = approved_by,
                  ea_order_ref = [], ea_payment_ref = [], ea_parent = Some count, ea_reason = reason,
                  ea_payload = [], ea_at = None\<rparr> st)"

end
