(* ===== verification/CashmanLaws.thy ===== *)
theory CashmanLaws
  imports Cashman
begin

text \<open>
  The laws of the drawer: the invariant of the book and its shifts, what each writer adds to
  it, the runs of the four writers, and the properties that make the blind closing hold.
\<close>

section \<open>Invariant\<close>

definition counts_of :: "nat \<Rightarrow> entry list \<Rightarrow> nat" where
  "counts_of sid es = length (filter (\<lambda>e. en_shift e = sid \<and> en_kind e = Count_close) es)"

definition cash_inv :: "cashman \<Rightarrow> bool" where
  "cash_inv st \<longleftrightarrow>
     map sh_id (shifts st) = [0..<length (shifts st)] \<and>
     map en_id (entries st) = [0..<length (entries st)] \<and>
     (\<forall>e \<in> set (entries st). sign_constraint (en_kind e) (en_amount_q e) \<and> en_shift e < length (shifts st)) \<and>
     (\<forall>s \<in> set (shifts st). counts_of (sh_id s) (entries st) = (if sh_status s = Shift_closed then 1 else 0)) \<and>
     (\<forall>s \<in> set (shifts st). sh_status s = Shift_open \<longrightarrow>
        (\<forall>e \<in> set (entries st). en_shift e = sh_id s \<longrightarrow> \<not> is_count (en_kind e))) \<and>
     (\<forall>s \<in> set (shifts st). \<forall>t \<in> set (shifts st).
        sh_status s = Shift_open \<and> sh_status t = Shift_open \<and> sh_terminal s = sh_terminal t \<longrightarrow> s = t)"

lemma cash_inv_init: "cash_inv cash_init"
  by (simp add: cash_inv_def cash_init_def)

lemma send_sel [simp]:
  "shifts (send s st) = shifts st" "entries (send s st) = entries st" "terminals (send s st) = terminals st"
  by (simp_all add: send_def)

lemma of_shift_snoc [simp]:
  "entries st' = entries st @ [e] \<Longrightarrow>
     of_shift sid P st' = of_shift sid P st + (if en_shift e = sid \<and> P e then en_amount_q e else 0)"
  by (simp add: of_shift_def)

lemma counts_of_snoc [simp]:
  "counts_of sid (es @ [e]) = counts_of sid es + (if en_shift e = sid \<and> en_kind e = Count_close then 1 else 0)"
  by (simp add: counts_of_def)

lemma sh_ids_distinct: "cash_inv st \<Longrightarrow> distinct (map sh_id (shifts st))"
  by (simp add: cash_inv_def)

lemma shift_row:
  assumes "cash_inv st" "row_get sh_id sid (shifts st) = Some s"
  shows "s \<in> set (shifts st)" "sh_id s = sid" "sid < length (shifts st)"
proof -
  show s: "s \<in> set (shifts st)" "sh_id s = sid" using row_get_SomeD [OF assms(2)] by auto
  then have "sid \<in> set (map sh_id (shifts st))" by auto
  then have "sid \<in> set [0..<length (shifts st)]" using assms(1) unfolding cash_inv_def by metis
  then show "sid < length (shifts st)" by simp
qed

lemma shift_unique:
  assumes "cash_inv st" "row_get sh_id sid (shifts st) = Some s" "x \<in> set (shifts st)" "sh_id x = sid"
  shows "x = s"
proof -
  have "row_get sh_id sid (shifts st) = Some x"
    using assms by (simp add: row_get_Some_iff [OF sh_ids_distinct [OF assms(1)]])
  then show ?thesis using assms(2) by simp
qed

section \<open>What the writers add\<close>

lemma insert_entry_Inr:
  "insert_entry e st = Inr st' \<longleftrightarrow> sign_constraint (en_kind e) (en_amount_q e) \<and>
     one_per_order Sale e (entries st) \<and> one_per_order Cod_settled e (entries st) \<and>
     st' = st\<lparr>entries := entries st @ [e]\<rparr>"
  by (auto simp: insert_entry_def)

lemma record_effect:
  assumes "record_entry dev now kv sid a st = Inr (st', e)"
  obtains s where "entries st' = entries st @ [e]" "shifts st' = shifts st" "terminals st' = terminals st"
    "map_of kind_values kv = Some (en_kind e)" "\<not> reserved_kind (en_kind e)"
    "sign_constraint (en_kind e) (en_amount_q e)" "en_amount_q e = ea_amount_q a" "en_shift e = sid"
    "en_id e = length (entries st)" "row_get sh_id sid (shifts st) = Some s"
    "sh_status s = Shift_open \<or> allowed_on_closed (en_kind e)"
    "en_kind e = Count_correction \<longrightarrow> sh_status s = Shift_closed"
    "one_per_order Sale e (entries st)" "one_per_order Cod_settled e (entries st)"
    "en_approved_by e = ea_approved_by a" "approval_required (en_kind e) \<longrightarrow> en_approved_by e \<noteq> None"
    "en_order_ref e = ea_order_ref a" "en_parent e = map_option en_id (ea_parent a)"
proof -
  from assms obtain k s where k: "map_of kind_values kv = Some k" and s: "row_get sh_id sid (shifts st) = Some s"
    by (auto simp: record_entry_def ebind_Inr Let_def locked_shift_def split: if_splits option.splits)
  have op: "sh_status s = Shift_closed" if "sh_status s \<noteq> Shift_open" using that by (cases "sh_status s") auto
  show thesis
    by (rule that [of s])
      (use assms k s op in \<open>auto simp: record_entry_def ebind_Inr Let_def locked_shift_def insert_entry_Inr
        split: if_splits sum.splits\<close>)
qed

lemma open_effect:
  assumes "open_shift_on seen dev now op t float_q at st = Inr (st', s)"
  obtains new where "shifts st' = shifts st @ [s]" "entries st' = entries st @ new"
    "sh_id s = length (shifts st)" "sh_terminal s = t" "sh_status s = Shift_open"
    "\<forall>x \<in> set (shifts st). sh_status x = Shift_open \<longrightarrow> sh_terminal x \<noteq> t"
    "new = [] \<and> float_q = 0 \<or> (\<exists>e. new = [e] \<and> en_shift e = length (shifts st) \<and> en_kind e = Float_in \<and>
       en_amount_q e = float_q \<and> en_id e = length (entries st) \<and> 0 < float_q)"
  using assms
  by (auto simp: open_shift_on_def insert_shift_def ebind_Inr insert_entry_Inr Let_def not_less
      split: if_splits)

lemma close_effect:
  assumes "close_shift dev now sid counted_q actor notes at st = Inr (st', e)"
  obtains s s' where "row_get sh_id sid (shifts st) = Some s" "sh_status s = Shift_open"
    "shifts st' = row_put sh_id s' (shifts st)" "sh_id s' = sh_id s" "sh_status s' = Shift_closed"
    "sh_terminal s' = sh_terminal s" "entries st' = entries st @ [e]" "en_shift e = sid" "en_kind e = Count_close"
    "en_amount_q e = counted_q - expected_before_count sid st" "en_id e = length (entries st)" "0 \<le> counted_q"
  using assms
  by (auto simp: close_shift_def ebind_Inr insert_entry_Inr Let_def not_less split: if_splits option.splits)

section \<open>Runs\<close>

inductive cash_step :: "cashman \<Rightarrow> cashman \<Rightarrow> bool" where
  cash_record: "record_entry dev now kv sid a st = Inr (st', e) \<Longrightarrow> cash_step st st'"
| cash_open: "open_shift seen dev now op t f at st = (st', r) \<Longrightarrow> cash_step st st'"
| cash_close: "close_shift dev now sid c actor notes at st = Inr (st', e) \<Longrightarrow> cash_step st st'"
| cash_correct: "correct_count dev now sid d actor ap reason st = Inr (st', e) \<Longrightarrow> cash_step st st'"

lemma correct_is_record:
  "correct_count dev now sid d actor ap reason st = Inr (st', e) \<Longrightarrow>
     \<exists>a. record_entry dev now ''count_correction'' sid a st = Inr (st', e) \<and> ea_amount_q a = d"
  by (auto simp: correct_count_def split: if_splits option.splits)

text \<open>
  What one step may do to a shift that is closed: its row stays, and only corrections, notes
  and receipt results of it are appended.
\<close>

definition cash_grows :: "cashman \<Rightarrow> cashman \<Rightarrow> bool" where
  "cash_grows st st' \<longleftrightarrow>
     (\<forall>sid s. row_get sh_id sid (shifts st) = Some s \<and> sh_status s = Shift_closed \<longrightarrow>
        row_get sh_id sid (shifts st') = Some s) \<and>
     (\<exists>new. entries st' = entries st @ new \<and>
        (\<forall>e \<in> set new. \<forall>s. row_get sh_id (en_shift e) (shifts st) = Some s \<and> sh_status s = Shift_closed \<longrightarrow>
           allowed_on_closed (en_kind e)))"

lemma record_sound:
  assumes inv: "cash_inv st" and c: "record_entry dev now kv sid a st = Inr (st', e)"
  shows "cash_inv st' \<and> cash_grows st st'"
proof -
  from c obtain s where e: "entries st' = entries st @ [e]" "shifts st' = shifts st"
    "\<not> reserved_kind (en_kind e)" "sign_constraint (en_kind e) (en_amount_q e)" "en_shift e = sid"
    "en_id e = length (entries st)" and s: "row_get sh_id sid (shifts st) = Some s"
    "sh_status s = Shift_open \<or> allowed_on_closed (en_kind e)"
    "en_kind e = Count_correction \<longrightarrow> sh_status s = Shift_closed"
    by (rule record_effect)
  have one: "x = s" if "x \<in> set (shifts st)" "sh_id x = sid" for x
    by (rule shift_unique [OF inv s(1) that])
  have "cash_inv st'"
    using inv e shift_row(3) [OF inv s(1)] s(3) one
    by (auto simp: cash_inv_def reserved_kind_def is_count_def)
  moreover have "cash_grows st st'" using e s by (auto simp: cash_grows_def)
  ultimately show ?thesis by simp
qed

lemma close_sound:
  assumes inv: "cash_inv st" and c: "close_shift dev now sid cq actor notes at st = Inr (st', e)"
  shows "cash_inv st' \<and> cash_grows st st'"
proof -
  from c obtain s s' where s: "row_get sh_id sid (shifts st) = Some s" "sh_status s = Shift_open"
    and s': "shifts st' = row_put sh_id s' (shifts st)" "sh_id s' = sh_id s" "sh_status s' = Shift_closed"
    "sh_terminal s' = sh_terminal s" and e: "entries st' = entries st @ [e]" "en_shift e = sid" "en_kind e = Count_close"
    "en_id e = length (entries st)"
    by (rule close_effect)
  note row = shift_row [OF inv s(1)]
  have ids: "map sh_id (shifts st') = map sh_id (shifts st)" by (simp add: s'(1))
  have set': "x \<in> set (shifts st') \<longleftrightarrow> x \<in> set (shifts st) \<and> sh_id x \<noteq> sid \<or> x = s'" for x
    using row by (auto simp: s'(1,2) set_row_put)
  have "cash_inv st'"
    unfolding cash_inv_def
  proof (intro conjI ballI impI)
    show "map sh_id (shifts st') = [0..<length (shifts st')]"
      using inv ids by (simp add: cash_inv_def s'(1))
    show "map en_id (entries st') = [0..<length (entries st')]" using inv e by (simp add: cash_inv_def)
    fix x assume "x \<in> set (entries st')"
    then show "sign_constraint (en_kind x) (en_amount_q x)" "en_shift x < length (shifts st')"
      using inv e row(3) by (auto simp: cash_inv_def s'(1) sign_constraint_def)
  next
    fix x assume x: "x \<in> set (shifts st')"
    show "counts_of (sh_id x) (entries st') = (if sh_status x = Shift_closed then 1 else 0)"
    proof (cases "x = s'")
      case True
      then show ?thesis using inv row s s' e by (auto simp: cash_inv_def)
    next
      case False
      then show ?thesis using inv x set' e by (auto simp: cash_inv_def)
    qed
  next
    fix x y assume "x \<in> set (shifts st')" "sh_status x = Shift_open" "y \<in> set (entries st')" "en_shift y = sh_id x"
    then show "\<not> is_count (en_kind y)" using inv set' s'(3) e by (auto simp: cash_inv_def)
  next
    fix x y assume "x \<in> set (shifts st')" "y \<in> set (shifts st')"
      "sh_status x = Shift_open \<and> sh_status y = Shift_open \<and> sh_terminal x = sh_terminal y"
    then show "x = y" using inv set' s'(3) by (auto simp: cash_inv_def)
  qed
  moreover have "cash_grows st st'"
    unfolding cash_grows_def
  proof (intro conjI allI impI exI [of _ "[e]"])
    fix k x assume "row_get sh_id k (shifts st) = Some x \<and> sh_status x = Shift_closed"
    then show "row_get sh_id k (shifts st') = Some x"
      using s row(2) by (auto simp: s'(1,2) row_get_put)
  qed (use e s in auto)
  ultimately show ?thesis by simp
qed

lemma open_on_sound:
  assumes inv: "cash_inv st" and c: "open_shift_on seen dev now op t f at st = Inr (st', s)"
  shows "cash_inv st' \<and> cash_grows st st'"
proof -
  from c obtain new where o: "shifts st' = shifts st @ [s]" "entries st' = entries st @ new"
    "sh_id s = length (shifts st)" "sh_terminal s = t" "sh_status s = Shift_open"
    "\<forall>x \<in> set (shifts st). sh_status x = Shift_open \<longrightarrow> sh_terminal x \<noteq> t"
    and n: "new = [] \<and> f = 0 \<or> (\<exists>e. new = [e] \<and> en_shift e = length (shifts st) \<and> en_kind e = Float_in \<and>
       en_amount_q e = f \<and> en_id e = length (entries st) \<and> 0 < f)"
    by (rule open_effect)
  have fresh: "counts_of (length (shifts st)) (entries st) = 0"
    using inv by (auto simp: cash_inv_def counts_of_def filter_empty_conv)
  have cnt: "counts_of k (entries st @ new) = counts_of k (entries st)" for k using n by auto
  have e: "\<forall>e \<in> set new. sign_constraint (en_kind e) (en_amount_q e) \<and> en_shift e = length (shifts st)"
    using n by (auto simp: sign_constraint_def)
  have ids: "map en_id (entries st') = [0..<length (entries st')]"
    using n inv by (auto simp: o(2) cash_inv_def)
  have nc: "\<forall>x \<in> set new. \<not> is_count (en_kind x)" using n by (auto simp: is_count_def)
  have "cash_inv st'"
    using inv e ids fresh nc o(1,3-6) by (auto simp: cash_inv_def cnt o(1,2))
  moreover have "cash_grows st st'"
    unfolding cash_grows_def
  proof (intro conjI allI impI exI [of _ new] ballI)
    fix k x assume "row_get sh_id k (shifts st) = Some x \<and> sh_status x = Shift_closed"
    then show "row_get sh_id k (shifts st') = Some x" by (simp add: o(1) row_get_append)
  next
    fix x y assume "x \<in> set new" "row_get sh_id (en_shift x) (shifts st) = Some y \<and> sh_status y = Shift_closed"
    then show "allowed_on_closed (en_kind x)" using e shift_row(3) [OF inv] by fastforce
  qed (rule o(2))
  ultimately show ?thesis by simp
qed

lemma cash_step_sound: "cash_step st st' \<Longrightarrow> cash_inv st \<Longrightarrow> cash_inv st' \<and> cash_grows st st'"
proof (induction rule: cash_step.induct)
  case (cash_open seen dev now op t f at st st' r)
  have d: "cash_inv (fst (default_terminal st)) \<and> cash_grows st (fst (default_terminal st)) \<and>
      shifts (fst (default_terminal st)) = shifts st \<and> entries (fst (default_terminal st)) = entries st"
    using cash_open.prems by (auto simp: default_terminal_def cash_inv_def cash_grows_def)
  have "\<exists>st1 t1. cash_inv st1 \<and> shifts st1 = shifts st \<and> entries st1 = entries st \<and>
      (st' = st1 \<or> (\<exists>s. open_shift_on seen dev now op t1 f at st1 = Inr (st', s)))"
    using cash_open d by (cases t) (force simp: open_shift_def split: prod.splits sum.splits)+
  then obtain st1 t1 where st1: "cash_inv st1" "shifts st1 = shifts st" "entries st1 = entries st"
    and c: "st' = st1 \<or> (\<exists>s. open_shift_on seen dev now op t1 f at st1 = Inr (st', s))" by blast
  have "cash_inv st' \<and> cash_grows st1 st'"
    using c
  proof
    assume "st' = st1"
    then show ?thesis using st1(1) by (simp add: cash_grows_def)
  qed (use open_on_sound [OF st1(1)] in blast)
  then show ?case unfolding cash_grows_def st1(2,3) .
next
  case (cash_record dev now kv sid a st st' e)
  then show ?case by (rule record_sound [rotated])
next
  case (cash_close dev now sid c actor nts at st st' e)
  then show ?case by (rule close_sound [rotated])
next
  case (cash_correct dev now sid d actor ap reason st st' e)
  from correct_is_record [OF this(1)] obtain a where
    "record_entry dev now ''count_correction'' sid a st = Inr (st', e)" by blast
  from record_sound [OF cash_correct(2) this] show ?case .
qed

end
