(* ===== verification/CashmanProps.thy ===== *)
theory CashmanProps
  imports CashmanLaws
begin

text \<open>
  The properties of the drawer: one open shift per terminal, the blind closing, the book that
  is frozen by it but for audited corrections, duplicates, and the change requests.
\<close>

section \<open>Runs\<close>

definition cash_grows_step :: "cashman \<Rightarrow> cashman \<Rightarrow> bool" where
  "cash_grows_step st st' \<longleftrightarrow> cash_inv st \<and> cash_step st st'"

interpretation cash_book: append_ledger entries cash_grows_step
proof unfold_locales
  fix s t
  assume "cash_grows_step s t"
  then have "cash_grows s t" using cash_step_sound by (auto simp: cash_grows_step_def)
  then show "\<exists>new. entries t = entries s @ new" by (auto simp: cash_grows_def)
qed

lemma cash_grows_refl [simp]: "cash_grows st st"
  by (simp add: cash_grows_def)

lemma cash_grows_trans: "cash_grows a b \<Longrightarrow> cash_grows b c \<Longrightarrow> cash_grows a c"
proof -
  assume ab: "cash_grows a b" and bc: "cash_grows b c"
  obtain m where m: "entries b = entries a @ m" "\<forall>e \<in> set m. \<forall>s. row_get sh_id (en_shift e) (shifts a) = Some s
      \<and> sh_status s = Shift_closed \<longrightarrow> allowed_on_closed (en_kind e)"
    using ab by (auto simp: cash_grows_def)
  obtain n where n: "entries c = entries b @ n" "\<forall>e \<in> set n. \<forall>s. row_get sh_id (en_shift e) (shifts b) = Some s
      \<and> sh_status s = Shift_closed \<longrightarrow> allowed_on_closed (en_kind e)"
    using bc by (auto simp: cash_grows_def)
  have keep: "row_get sh_id sid (shifts a) = Some s \<Longrightarrow> sh_status s = Shift_closed \<Longrightarrow>
      row_get sh_id sid (shifts b) = Some s \<and> row_get sh_id sid (shifts c) = Some s" for sid s
    using ab bc unfolding cash_grows_def by blast
  show ?thesis
    unfolding cash_grows_def
  proof (intro conjI exI [of _ "m @ n"])
    show "entries c = entries a @ m @ n" using m n by simp
    show "\<forall>e \<in> set (m @ n). \<forall>s. row_get sh_id (en_shift e) (shifts a) = Some s \<and>
        sh_status s = Shift_closed \<longrightarrow> allowed_on_closed (en_kind e)"
      using m(2) n(2) keep by auto
  qed (use keep in blast)
qed

lemma cash_run_sound: "cash_step\<^sup>*\<^sup>* st st' \<Longrightarrow> cash_inv st \<Longrightarrow> cash_inv st' \<and> cash_grows st st'"
  by (induction rule: rtranclp_induct) (auto dest: cash_step_sound intro: cash_grows_trans)

section \<open>Properties\<close>

text \<open>C10: In every state the drawer can reach, a terminal has at most one open shift, the
  sign of every entry is the one its kind demands, and a shift is closed exactly when its book
  has a count, of which there is exactly one.\<close>

theorem cash_reachable:
  assumes "cash_step\<^sup>*\<^sup>* cash_init st" "s \<in> set (shifts st)"
  shows "(\<forall>t \<in> set (shifts st). sh_status s = Shift_open \<and> sh_status t = Shift_open \<and>
            sh_terminal t = sh_terminal s \<longrightarrow> t = s)
    \<and> (\<forall>e \<in> set (entries st). sign_allows (en_kind e) (en_amount_q e))
    \<and> length (filter (\<lambda>e. en_shift e = sh_id s \<and> en_kind e = Count_close) (entries st)) =
        (if sh_status s = Shift_closed then 1 else 0)"
proof -
  have inv: "cash_inv st" using cash_run_sound [OF assms(1) cash_inv_init] by simp
  have "sign_constraint k a \<Longrightarrow> sign_allows k a" for k a
    by (cases k) (auto simp: sign_constraint_def sign_allows_def)
  then show ?thesis using inv assms(2) by (auto simp: cash_inv_def counts_of_def)
qed

definition a_sale :: "int \<Rightarrow> string \<Rightarrow> entry_args" where
  "a_sale amt ord = \<lparr>ea_operator = ''joyce'', ea_amount_q = amt, ea_approved_by = None, ea_order_ref = ord,
     ea_payment_ref = [], ea_parent = None, ea_reason = [], ea_payload = [], ea_at = None\<rparr>"

definition drawer0 :: cashman where
  "drawer0 = fst (open_shift [] [] 1 ''joyce'' (Some ''pdv'') 5000 None cash_init)"

definition state_after :: "'e + ('s \<times> 'x) \<Rightarrow> 's \<Rightarrow> 's" where
  "state_after m st = (case m of Inl _ \<Rightarrow> st | Inr (s, _) \<Rightarrow> s)"

lemma state_after_eq: "\<not> isl m \<Longrightarrow> state_after m st = s \<Longrightarrow> \<exists>x. m = Inr (s, x)"
  by (cases m) (auto simp: state_after_def)

definition drawer1 :: cashman where
  "drawer1 = state_after (record_entry [] 2 ''sale'' 0 (a_sale 1250 ''ORD-1'') drawer0) drawer0"

definition drawer2 :: cashman where
  "drawer2 = state_after (close_shift [] 3 0 6200 ''ana'' [] None drawer1) drawer1"

definition drawer3 :: cashman where
  "drawer3 = state_after (correct_count [] 4 0 50 ''ana'' (Some ''rui'') ''recontagem'' drawer2) drawer2"

lemma drawer_calls:
  "\<exists>e. record_entry [] 2 ''sale'' 0 (a_sale 1250 ''ORD-1'') drawer0 = Inr (drawer1, e)"
  "\<exists>e. close_shift [] 3 0 6200 ''ana'' [] None drawer1 = Inr (drawer2, e)"
  "\<exists>e. correct_count [] 4 0 50 ''ana'' (Some ''rui'') ''recontagem'' drawer2 = Inr (drawer3, e)"
  by (rule state_after_eq, code_simp, simp add: drawer1_def drawer2_def drawer3_def)+

lemma drawer_steps: "cash_step cash_init drawer0" "cash_step drawer0 drawer1" "cash_step drawer1 drawer2"
    "cash_step drawer2 drawer3"
  using drawer_calls unfolding drawer0_def
  by (auto intro: cash_open [where r = "snd (open_shift [] [] 1 ''joyce'' (Some ''pdv'') 5000 None cash_init)"]
      cash_record cash_close cash_correct)

lemma drawer_runs: "cash_step\<^sup>*\<^sup>* cash_init drawer1" "cash_step\<^sup>*\<^sup>* cash_init drawer2" "cash_step\<^sup>*\<^sup>* drawer2 drawer3"
  using drawer_steps by (meson rtranclp.rtrancl_into_rtrancl rtranclp.rtrancl_refl)+

lemma drawer_inv: "cash_inv drawer1" "cash_inv drawer2"
  using drawer_runs cash_run_sound [OF _ cash_inv_init] by auto

theorem cash_reachable_witness:
  "length (filter (\<lambda>e. en_shift e = 0 \<and> en_kind e = Count_close) (entries drawer2)) = 1"
proof -
  have "hd (shifts drawer2) \<in> set (shifts drawer2)" by code_simp
  moreover have "sh_id (hd (shifts drawer2)) = 0" "sh_status (hd (shifts drawer2)) = Shift_closed" by code_simp+
  ultimately show ?thesis using cash_reachable [OF drawer_runs(2)] by force
qed

text \<open>C25: Closing is blind and exact: whatever the operator counts, after the closing the sum
  of the book of the shift is what was counted, the count is what the book says the drawer
  held, the difference is counted minus expected, the expected amount is unchanged, and the
  shift cannot be closed again.\<close>

theorem close_counted:
  assumes "cash_inv st" "close_shift dev now sid c actor notes at st = Inr (st', e)"
  shows "balance sid None st' = c \<and> counted sid st' = Some c
    \<and> difference sid st' = Some (c - expected_before_count sid st)
    \<and> expected_before_count sid st' = expected_before_count sid st
    \<and> is_closed sid st'
    \<and> close_shift dev' now' sid c' actor' notes' at' st' \<noteq> Inr r"
proof -
  from assms(2) obtain s s' where s: "row_get sh_id sid (shifts st) = Some s" "sh_status s = Shift_open"
    and s': "shifts st' = row_put sh_id s' (shifts st)" "sh_id s' = sh_id s" "sh_status s' = Shift_closed"
    and e: "entries st' = entries st @ [e]" "en_shift e = sid" "en_kind e = Count_close"
    "en_amount_q e = c - expected_before_count sid st"
    by (rule close_effect)
  note row = shift_row [OF assms(1) s(1)]
  have "counts_of sid (entries st) = 0" using assms(1) row s(2) by (auto simp: cash_inv_def)
  then have none: "\<And>x. x \<in> set (entries st) \<Longrightarrow> en_shift x = sid \<Longrightarrow> en_kind x \<noteq> Count_close"
    by (auto simp: counts_of_def filter_empty_conv)
  have nocorr: "of_shift sid (\<lambda>e. is_count (en_kind e)) st = 0"
    using assms(1) row s(2) unfolding of_shift_def
    by (intro sum_where_none) (auto simp: cash_inv_def)
  have get: "row_get sh_id sid (shifts st') = Some s'" using s s' row by (simp add: row_get_put)
  have exp: "expected_before_count sid st' = expected_before_count sid st"
    using e by (simp add: expected_before_count_def is_count_def)
  have dif: "difference sid st' = Some (c - expected_before_count sid st)"
    using e nocorr by (simp add: difference_def is_count_def)
  have "balance sid None st' = expected_before_count sid st' + of_shift sid (\<lambda>e. is_count (en_kind e)) st'"
    unfolding balance_def expected_before_count_def of_shift_def
    using sum_where_split [of "\<lambda>e. en_shift e = sid" en_amount_q "entries st'" "\<lambda>e. is_count (en_kind e)"] by simp
  then have "balance sid None st' = c" using exp e nocorr by (simp add: is_count_def)
  moreover have "close_shift dev' now' sid c' actor' notes' at' st' \<noteq> Inr r"
    using get s'(3) by (auto simp: close_shift_def)
  ultimately show ?thesis using exp dif get s'(3) by (simp add: counted_def is_closed_def)
qed

theorem close_counted_witness:
  "counted 0 drawer2 = Some 6200 \<and> difference 0 drawer2 = Some (-50)"
proof -
  obtain e where "close_shift [] 3 0 6200 ''ana'' [] None drawer1 = Inr (drawer2, e)" using drawer_calls by blast
  from close_counted [OF drawer_inv(1) this] have
    "counted 0 drawer2 = Some 6200" "difference 0 drawer2 = Some (6200 - expected_before_count 0 drawer1)" by blast+
  moreover have "expected_before_count 0 drawer1 = 6250" by code_simp
  ultimately show ?thesis by simp
qed

text \<open>A closed shift is frozen: over any later run it stays closed, the expected amount of
  its count never changes, and every entry its book gains is an audited correction, a note or
  a receipt result, so no money enters it after the count.\<close>

theorem closed_shift_frozen:
  assumes "cash_inv st" "is_closed sid st" "cash_step\<^sup>*\<^sup>* st st'"
  shows "is_closed sid st' \<and> expected_before_count sid st' = expected_before_count sid st
    \<and> (\<forall>e \<in> set (drop (length (entries st)) (entries st')). en_shift e = sid \<longrightarrow>
         en_kind e = Count_correction \<or> (en_kind e \<in> {Note, Receipt_result} \<and> en_amount_q e = 0))"
proof -
  obtain s where s: "row_get sh_id sid (shifts st) = Some s" "sh_status s = Shift_closed"
    using assms(2) by (auto simp: is_closed_def split: option.splits)
  have g: "cash_inv st'" "cash_grows st st'" using cash_run_sound [OF assms(3,1)] by auto
  then obtain new where new: "entries st' = entries st @ new"
    "\<forall>e \<in> set new. \<forall>s. row_get sh_id (en_shift e) (shifts st) = Some s \<and> sh_status s = Shift_closed \<longrightarrow>
       allowed_on_closed (en_kind e)"
    unfolding cash_grows_def by blast
  have k: "en_kind e = Count_correction \<or> (en_kind e \<in> {Note, Receipt_result} \<and> en_amount_q e = 0)"
    if e: "e \<in> set new" "en_shift e = sid" for e
  proof -
    have "sign_constraint (en_kind e) (en_amount_q e)" using g(1) e new(1) by (simp add: cash_inv_def)
    moreover have "allowed_on_closed (en_kind e)" using new(2) e s by blast
    ultimately show ?thesis by (auto simp: sign_constraint_def allowed_on_closed_def)
  qed
  have "sum_where (\<lambda>e. en_shift e = sid \<and> \<not> is_count (en_kind e)) en_amount_q new =
      sum_where (\<lambda>e. en_shift e = sid \<and> \<not> is_count (en_kind e)) (\<lambda>e. 0) new"
    using k by (intro sum_where_cong) (auto simp: is_count_def)
  then have "expected_before_count sid st' = expected_before_count sid st"
    by (simp add: expected_before_count_def of_shift_def new(1) sum_where_def)
  moreover have "row_get sh_id sid (shifts st') = Some s" using g(2) s unfolding cash_grows_def by blast
  then have "is_closed sid st'" using s(2) by (simp add: is_closed_def)
  ultimately show ?thesis using k new(1) by simp
qed

theorem closed_shift_frozen_witness:
  "is_closed 0 drawer3 \<and> expected_before_count 0 drawer3 = 6250"
proof -
  have "is_closed 0 drawer2" "expected_before_count 0 drawer2 = 6250" by code_simp+
  with closed_shift_frozen [OF drawer_inv(2) _ drawer_runs(3)] show ?thesis by metis
qed

text \<open>The correction of a count is exact and signed twice: it appends one correction that
  points at the count, moves the difference and the counted amount by exactly the delta,
  leaves the expected amount alone, and only exists with the signature of who authorized it.\<close>

theorem correct_count_exact:
  assumes "correct_count dev now sid d actor ap reason st = Inr (st', e)"
  shows "\<exists>x. difference sid st = Some x \<and> difference sid st' = Some (x + d)
    \<and> counted sid st' = Some (expected_before_count sid st + x + d)
    \<and> expected_before_count sid st' = expected_before_count sid st
    \<and> en_kind e = Count_correction \<and> en_amount_q e = d \<and> d \<noteq> 0 \<and> ap \<noteq> None \<and> en_approved_by e = ap
    \<and> (\<exists>c \<in> set (entries st). en_kind c = Count_close \<and> en_shift c = sid \<and> en_parent e = Some (en_id c))"
proof -
  obtain c where c: "find (\<lambda>e. en_shift e = sid \<and> en_kind e = Count_close) (entries st) = Some c"
    and d: "d \<noteq> 0" and r: "record_entry dev now ''count_correction'' sid
        \<lparr>ea_operator = actor, ea_amount_q = d, ea_approved_by = ap, ea_order_ref = [], ea_payment_ref = [],
         ea_parent = Some c, ea_reason = reason, ea_payload = [], ea_at = None\<rparr> st = Inr (st', e)"
    using assms by (auto simp: correct_count_def split: if_splits option.splits)
  have cc: "c \<in> set (entries st)" "en_kind c = Count_close" "en_shift c = sid"
    using c by (auto simp: find_Some_iff)
  have kv: "map_of kind_values ''count_correction'' = Some Count_correction" by code_simp
  from r have "entries st' = entries st @ [e]" "en_kind e = Count_correction" "en_shift e = sid"
    "en_amount_q e = d" "en_approved_by e = ap" "ap \<noteq> None" "en_parent e = Some (en_id c)"
    by (rule record_effect; simp add: kv approval_required_def)+
  then show ?thesis using cc d
    by (auto simp: difference_def counted_def expected_before_count_def is_count_def)
qed

theorem correct_count_exact_witness:
  "difference 0 drawer3 = Some 0 \<and> counted 0 drawer3 = Some 6250"
proof -
  obtain e where "correct_count [] 4 0 50 ''ana'' (Some ''rui'') ''recontagem'' drawer2 = Inr (drawer3, e)"
    using drawer_calls by blast
  note c = correct_count_exact [OF this]
  have "difference 0 drawer2 = Some (-50)" "expected_before_count 0 drawer2 = 6250" by code_simp+
  with c show ?thesis by auto
qed

text \<open>An order enters the book of a shift once: after its sale was recorded, no later call
  records a sale of that order in that shift again, whatever happened in between.\<close>

theorem sale_recorded_once:
  assumes "cash_inv st" "record_entry dev now ''sale'' sid a st = Inr (st', e)" "ea_order_ref a \<noteq> []"
    "cash_step\<^sup>*\<^sup>* st' st2" "ea_order_ref b = ea_order_ref a"
  shows "record_entry dev' now' ''sale'' sid b st2 \<noteq> Inr r"
proof
  assume r: "record_entry dev' now' ''sale'' sid b st2 = Inr r"
  obtain st3 f where f: "record_entry dev' now' ''sale'' sid b st2 = Inr (st3, f)" using r by (cases r) auto
  have kv: "map_of kind_values ''sale'' = Some Sale" by code_simp
  from assms(2) have e: "entries st' = entries st @ [e]" "en_kind e = Sale" "en_shift e = sid"
    "en_order_ref e = ea_order_ref a" by (rule record_effect; simp add: kv)+
  from f have "en_kind f = Sale" "en_shift f = sid" "en_order_ref f = ea_order_ref b"
    "one_per_order Sale f (entries st2)" by (rule record_effect; simp add: kv)+
  moreover have "cash_grows st' st2"
    using cash_run_sound [OF assms(4)] record_sound [OF assms(1,2)] by blast
  then have "e \<in> set (entries st2)" using e(1) by (auto simp: cash_grows_def)
  ultimately show False using e assms(3,5) by (auto simp: one_per_order_def)
qed

theorem sale_recorded_once_witness:
  "record_entry [] 9 ''sale'' 0 (a_sale 1300 ''ORD-1'') drawer1 \<noteq> Inr (drawer1, hd (entries drawer1))"
proof -
  have inv: "cash_inv drawer0" using drawer_steps(1) cash_step_sound cash_inv_init by blast
  obtain e where e: "record_entry [] 2 ''sale'' 0 (a_sale 1250 ''ORD-1'') drawer0 = Inr (drawer1, e)"
    using drawer_calls by blast
  show ?thesis
    by (rule sale_recorded_once [OF inv e _ rtranclp.rtrancl_refl]) (simp_all add: a_sale_def)
qed

text \<open>The book is append-only: over any run of the writers every entry recorded before is
  still there, unchanged and in its place.\<close>

theorem book_append_only:
  assumes "cash_inv st" "cash_step\<^sup>*\<^sup>* st st'" "n < length (entries st)"
  shows "entries st' ! n = entries st ! n"
proof -
  have "cash_grows_step\<^sup>*\<^sup>* st st'"
    using assms(2)
  proof (induction rule: rtranclp_induct)
    case (step y z)
    then have "cash_inv y" using cash_run_sound assms(1) by blast
    with step show ?case by (auto simp: cash_grows_step_def intro: rtranclp.rtrancl_into_rtrancl)
  qed simp
  then show ?thesis using assms(3) by (rule cash_book.run_keeps_entry)
qed

theorem book_append_only_witness:
  "entries drawer3 ! 2 = entries drawer2 ! 2 \<and> en_kind (entries drawer3 ! 2) = Count_close"
proof -
  have "2 < length (entries drawer2)" "en_kind (entries drawer2 ! 2) = Count_close" by code_simp+
  then show ?thesis using book_append_only [OF drawer_inv(2) drawer_runs(3)] by simp
qed

end
