(* ===== verification/CashmanChange.thy ===== *)
theory CashmanChange
  imports CashmanProps "HOL-Library.Multiset"
begin

text \<open>
  The change requests of a shift: their state is folded from the book, and the first
  resolution of a request is final.
\<close>

section \<open>The fold\<close>

definition fold_ok :: "(nat \<times> change_request) list \<Rightarrow> bool" where
  "fold_ok by_id \<longleftrightarrow> distinct (map fst by_id) \<and> (\<forall>(i, r) \<in> set by_id. cr_entry_id r = i)"

lemma fold_ok_map: "fold_ok by_id \<Longrightarrow> map_of by_id i = Some r \<Longrightarrow> cr_entry_id r = i"
  by (auto simp: fold_ok_def dest: map_of_SomeD)

lemma fold_ok_update: "fold_ok by_id \<Longrightarrow> cr_entry_id r = i \<Longrightarrow> fold_ok (AList.update i r by_id)"
proof -
  assume a: "fold_ok by_id" "cr_entry_id r = i"
  have "distinct (map fst (AList.update i r by_id))"
    using a by (simp add: fold_ok_def distinct_update)
  moreover have "cr_entry_id x = j" if "(j, x) \<in> set (AList.update i r by_id)" for j x
  proof -
    have "map_of (AList.update i r by_id) j = Some x"
      using that \<open>distinct (map fst (AList.update i r by_id))\<close> by simp
    then show ?thesis using a by (auto simp: update_conv split: if_splits dest: fold_ok_map)
  qed
  ultimately show ?thesis by (auto simp: fold_ok_def)
qed

lemma change_step_ok: "fold_ok by_id \<Longrightarrow> fold_ok (change_step by_id e)"
  by (auto simp: change_step_def new_request_def intro!: fold_ok_update split: option.splits)

lemma change_fold_ok: "fold_ok by_id \<Longrightarrow> fold_ok (foldl change_step by_id es)"
  by (induction es arbitrary: by_id) (auto simp: change_step_ok)

lemma change_step_final:
  assumes "fold_ok by_id" "map_of by_id i = Some r" "cr_status r \<noteq> Change_pending"
    "en_kind e = Change_requested \<longrightarrow> en_id e \<noteq> i"
  shows "map_of (change_step by_id e) i = Some r"
proof -
  have "cr_entry_id x = i \<Longrightarrow> x = r" if "map_of by_id j = Some x" for j x
    using fold_ok_map [OF assms(1) that] that assms(2) by simp
  then show ?thesis
    using assms by (auto simp: change_step_def update_conv bind_eq_Some_conv split: option.splits)
qed

lemma change_fold_final:
  assumes "fold_ok by_id" "map_of by_id i = Some r" "cr_status r \<noteq> Change_pending" "\<forall>e \<in> set es. en_id e \<noteq> i"
  shows "map_of (foldl change_step by_id es) i = Some r"
  using assms
  by (induction es arbitrary: by_id) (auto simp: change_step_ok change_step_final)

lemma change_step_keys:
  "fst ` set (change_step by_id e) \<subseteq> insert (en_id e) (fst ` set by_id)" if "fold_ok by_id"
proof -
  have "cr_entry_id r \<in> fst ` set by_id" if "map_of by_id p = Some r" for p r
    using fold_ok_map [OF \<open>fold_ok by_id\<close> that] map_of_SomeD [OF that] by force
  then show ?thesis
    by (auto simp: change_step_def dom_update bind_eq_Some_conv split: option.splits)
qed

lemma change_fold_keys:
  "fold_ok by_id \<Longrightarrow> fst ` set (foldl change_step by_id es) \<subseteq> fst ` set by_id \<union> en_id ` set es"
proof (induction es arbitrary: by_id)
  case Nil
  then show ?case by simp
next
  case (Cons e es)
  show ?case using Cons.IH [OF change_step_ok [OF Cons.prems], of e] change_step_keys [OF Cons.prems, of e] by auto
qed

section \<open>The time line grows at its end\<close>

lemma sort_key_append:
  assumes "\<forall>x \<in> set xs. \<forall>y \<in> set ys. f x \<le> f y"
  shows "sort_key f (xs @ ys) = sort_key f xs @ sort_key f ys"
proof (rule properties_for_sort_key)
  show "mset (sort_key f xs @ sort_key f ys) = mset (xs @ ys)" by simp
  show "filter (\<lambda>x. f k = f x) (sort_key f xs @ sort_key f ys) = filter (\<lambda>x. f k = f x) (xs @ ys)" for k
    using sort_key_stable [of f "f k" xs] sort_key_stable [of f "f k" ys]
    by (simp add: eq_commute)
  show "sorted (map f (sort_key f xs @ sort_key f ys))"
    using assms by (simp add: sorted_append)
qed

text \<open>The first resolution of a change request is final: once it was served or cancelled,
  whatever entries the book gains at later times, the request keeps its status, who served it
  and when (a second resolution stays in the book and is ignored).\<close>

theorem first_resolution_wins:
  assumes "cash_inv st" "cash_step\<^sup>*\<^sup>* st st'" "r \<in> set (change_requests sid st)"
    "cr_status r \<noteq> Change_pending"
    "\<forall>e \<in> set (entries st). \<forall>f \<in> set (drop (length (entries st)) (entries st')). en_at e \<le> en_at f"
  shows "r \<in> set (change_requests sid st')"
proof -
  have g: "cash_inv st'" "cash_grows st st'" using cash_run_sound [OF assms(2,1)] by auto
  then obtain new where new: "entries st' = entries st @ new" unfolding cash_grows_def by blast
  have ids: "map en_id (entries st @ new) = [0..<length (entries st @ new)]"
    using g(1) new by (simp add: cash_inv_def)
  have less: "en_id e < en_id f" if "e \<in> set (entries st)" "f \<in> set new" for e f
  proof -
    obtain i where i: "i < length (entries st)" "e = entries st ! i" using \<open>e \<in> _\<close> by (auto simp: in_set_conv_nth)
    obtain j where j: "j < length new" "f = new ! j" using \<open>f \<in> _\<close> by (auto simp: in_set_conv_nth)
    have "en_id ((entries st @ new) ! k) = k" if "k < length (entries st @ new)" for k
      using ids that by (metis add_0 diff_zero nth_map nth_upt)
    from this [of i] this [of "length (entries st) + j"] i j show ?thesis by (simp add: nth_append)
  qed
  let ?K = "\<lambda>e. en_kind e \<in> {Change_requested, Change_served, Change_cancelled}"
  let ?old = "filter ?K (timeline sid st)"
  have tl: "timeline sid st' = timeline sid st @ sort_key (\<lambda>e. (en_at e, en_id e)) (filter (\<lambda>e. en_shift e = sid) new)"
    unfolding timeline_def new filter_append
    by (rule sort_key_append) (use assms(5) new less in \<open>auto simp: less_imp_le le_less\<close>)
  define by_id where "by_id = foldl change_step [] ?old"
  have ok: "fold_ok by_id" unfolding by_id_def by (rule change_fold_ok) (simp add: fold_ok_def)
  from assms(3) obtain i where i: "(i, r) \<in> set by_id" by (auto simp: change_requests_def by_id_def)
  then have m: "map_of by_id i = Some r" using ok by (simp add: fold_ok_def)
  have "i \<in> en_id ` set (entries st)"
    using change_fold_keys [of "[]" ?old] i by (force simp: fold_ok_def by_id_def timeline_def)
  then have "\<forall>f \<in> set new. en_id f \<noteq> i" using less by fastforce
  then have "map_of (foldl change_step by_id
      (filter ?K (sort_key (\<lambda>e. (en_at e, en_id e)) (filter (\<lambda>e. en_shift e = sid) new)))) i = Some r"
    by (intro change_fold_final [OF ok m assms(4)]) auto
  from map_of_SomeD [OF this] show ?thesis
    by (force simp: change_requests_def tl by_id_def)
qed

definition change_args :: "entry option \<Rightarrow> string option \<Rightarrow> dict \<Rightarrow> entry_args" where
  "change_args p ap pl = \<lparr>ea_operator = ''joyce'', ea_amount_q = 0, ea_approved_by = ap, ea_order_ref = [],
     ea_payment_ref = [], ea_parent = p, ea_reason = [], ea_payload = pl, ea_at = None\<rparr>"

definition change1 :: cashman where
  "change1 = state_after (record_entry [] 2 ''change_requested'' 0
     (change_args None None [(''amount_q'', JNum 10000)]) drawer0) drawer0"

definition change2 :: cashman where
  "change2 = state_after (record_entry [] 3 ''change_served'' 0
     (change_args (Some (last (entries change1))) (Some ''ana'') []) change1) change1"

definition change3 :: cashman where
  "change3 = state_after (record_entry [] 4 ''change_cancelled'' 0
     (change_args (Some (last (entries change1))) None []) change2) change2"

lemma change_steps: "cash_step drawer0 change1" "cash_step change1 change2" "cash_step change2 change3"
proof -
  have "\<exists>e. record_entry [] 2 ''change_requested'' 0 (change_args None None [(''amount_q'', JNum 10000)]) drawer0 = Inr (change1, e)"
    by (rule state_after_eq, code_simp) (simp add: change1_def)
  then show "cash_step drawer0 change1" by (auto intro: cash_record)
  have "\<exists>e. record_entry [] 3 ''change_served'' 0 (change_args (Some (last (entries change1))) (Some ''ana'') []) change1
      = Inr (change2, e)"
    by (rule state_after_eq, code_simp) (simp add: change2_def)
  then show "cash_step change1 change2" by (auto intro: cash_record)
  have "\<exists>e. record_entry [] 4 ''change_cancelled'' 0 (change_args (Some (last (entries change1))) None []) change2
      = Inr (change3, e)"
    by (rule state_after_eq, code_simp) (simp add: change3_def)
  then show "cash_step change2 change3" by (auto intro: cash_record)
qed

theorem first_resolution_wins_witness:
  "cr_status (hd (change_requests 0 change2)) = Change_was_served \<and>
   hd (change_requests 0 change2) \<in> set (change_requests 0 change3)"
proof -
  have "cash_inv change2"
    using drawer_steps(1) change_steps cash_step_sound cash_inv_init by blast
  moreover have "cash_step\<^sup>*\<^sup>* change2 change3" using change_steps by blast
  moreover have "cr_status (hd (change_requests 0 change2)) = Change_was_served"
    "hd (change_requests 0 change2) \<in> set (change_requests 0 change2)"
    "\<forall>e \<in> set (entries change2). \<forall>f \<in> set (drop (length (entries change2)) (entries change3)). en_at e \<le> en_at f"
    by code_simp+
  ultimately show ?thesis
    using first_resolution_wins [of change2 change3 "hd (change_requests 0 change2)" 0] by simp
qed

end
