(* ===== verification/Stockman.thy ===== *)
theory Stockman
  imports Complex_Main Prelude Machines
begin

text \<open>
  The stock kernel (\<open>packages/stockman\<close>): quants, the immutable ledger of moves that is the
  only writer of their cached quantity, and the movements (receive, issue, adjust, transfer).

  The database is a list of rows per table in creation order and a primary key is a row's
  position. \<open>Decimal\<close> quantities are rationals (three decimal places are not rounded), dates
  are ordinals as \<open>date.toordinal\<close>, instants are integers, and \<open>clock\<close> carries the current
  instant with the local date of an instant (\<open>timezone.localdate\<close>). The catalogue behind
  \<open>SkuValidator\<close> is a parameter.
\<close>

section \<open>Dates\<close>

text \<open>\<open>f"{d:%Y%m%d}"\<close>: the proleptic Gregorian date of an ordinal, as CPython computes it.\<close>

definition is_leap :: "int \<Rightarrow> bool" where
  "is_leap y \<longleftrightarrow> y mod 4 = 0 \<and> (y mod 100 \<noteq> 0 \<or> y mod 400 = 0)"

definition month_days :: "int \<Rightarrow> int list" where
  "month_days y = [31, if is_leap y then 29 else 28, 31, 30, 31, 30, 31, 31, 30, 31, 30, 31]"

fun month_of :: "int list \<Rightarrow> int \<Rightarrow> int \<Rightarrow> int \<times> int" where
  "month_of [] m d = (m, d)"
| "month_of (n # ns) m d = (if d < n then (m, d) else month_of ns (m + 1) (d - n))"

definition ymd_of_ordinal :: "int \<Rightarrow> int \<times> int \<times> int" where
  "ymd_of_ordinal o1 =
     (let n = o1 - 1;
          n400 = n div 146097; n = n mod 146097;
          n100 = n div 36524; n = n mod 36524;
          n4 = n div 1461; n = n mod 1461;
          n1 = n div 365; n = n mod 365;
          y = n400 * 400 + 1 + n100 * 100 + n4 * 4 + n1 in
      if n1 = 4 \<or> n100 = 4 then (y - 1, 12, 31)
      else let (m, d) = month_of (month_days y) 1 n in (y, m, d + 1))"

definition digit :: "int \<Rightarrow> char" where
  "digit n = char_of (nat (48 + n mod 10))"

definition ymd_text :: "int \<Rightarrow> string" where
  "ymd_text o1 = (let (y, m, d) = ymd_of_ordinal o1 in
     [digit (y div 1000), digit (y div 100), digit (y div 10), digit y,
      digit (m div 10), digit m, digit (d div 10), digit d])"

record clock =
  now_at :: int
  day_of :: "int \<Rightarrow> int"

definition today :: "clock \<Rightarrow> int" where
  "today c = day_of c (now_at c)"

section \<open>Rows\<close>

datatype position_kind = Physical_pos | Process_pos | Virtual_pos

record position =
  po_ref :: string
  po_name :: string
  po_kind :: position_kind
  po_is_saleable :: bool

record quant =
  qu_id :: nat
  qu_sku :: string
  qu_position :: "string option"
  qu_target :: "int option"
  qu_batch :: string
  qu_quantity :: rat
  qu_created_at :: int
  qu_metadata :: dict

datatype move_kind = Make_move | Buy_move | Sell_move | Adjust_move | Transfer_move | Return_move | Waste_move

record move =
  mv_quant :: nat
  mv_delta :: rat
  mv_kind :: move_kind
  mv_reason :: string
  mv_metadata :: dict
  mv_at :: int
  mv_user :: "string option"

datatype hold_status = Hold_pending | Hold_confirmed | Hold_fulfilled | Hold_released

record hold =
  ho_id :: nat
  ho_sku :: string
  ho_quant :: "nat option"
  ho_quantity :: rat
  ho_target :: int
  ho_status :: hold_status
  ho_expires_at :: "int option"
  ho_actor :: "string option"
  ho_created_at :: int
  ho_resolved_at :: "int option"
  ho_metadata :: dict

record batch =
  ba_ref :: string
  ba_sku :: string
  ba_production :: "int option"
  ba_expiry :: "int option"
  ba_grade :: string
  ba_markdown :: int

record stock =
  positions :: "position list"
  quants :: "quant list"
  moves :: "move list"
  holds :: "hold list"
  batches :: "batch list"
  materialized :: "(nat list \<times> string \<times> int \<times> string option) list"

definition stock_init :: "position list \<Rightarrow> stock" where
  "stock_init ps = \<lparr>positions = ps, quants = [], moves = [], holds = [], batches = [], materialized = []\<rparr>"

datatype stock_error =
    Stk_insufficient_available rat | Stk_insufficient_quantity rat | Stk_invalid_hold
  | Stk_invalid_status | Stk_invalid_quantity | Stk_hold_is_demand | Stk_hold_expired
  | Stk_reason_required | Stk_quant_not_found | Stk_invalid_transfer | Stk_hold_changed
  | Stk_hold_policy_unknown | Stk_ineligible_batch | Stk_batch_sku_conflict
  | Stk_batch_quality_conflict | Stk_value_error | Stk_integrity | Stk_does_not_exist

text \<open>
  The catalogue contract: whether a SKU may be ordered and its stock profile. The batch
  methods of the validator are the same function for each SKU.
\<close>

record sku_info =
  si_policy :: string
  si_shelflife :: "int option"

record catalogue =
  sku_sellable :: "string \<Rightarrow> bool"
  sku_info_of :: "string \<Rightarrow> sku_info option"

section \<open>Holds that count\<close>

definition hold_open :: "hold_status \<Rightarrow> bool" where
  "hold_open s \<longleftrightarrow> s \<in> {Hold_pending, Hold_confirmed}"

definition hold_active :: "int \<Rightarrow> hold \<Rightarrow> bool" where
  "hold_active now h \<longleftrightarrow>
     hold_open (ho_status h) \<and> (case ho_expires_at h of None \<Rightarrow> True | Some t \<Rightarrow> t \<ge> now)"

definition hold_expired_q :: "int \<Rightarrow> hold \<Rightarrow> bool" where
  "hold_expired_q now h \<longleftrightarrow>
     hold_open (ho_status h) \<and> (case ho_expires_at h of None \<Rightarrow> False | Some t \<Rightarrow> t < now)"

definition fulfillable :: "int \<Rightarrow> hold \<Rightarrow> bool" where
  "fulfillable now h \<longleftrightarrow> hold_active now h \<and> ho_status h = Hold_confirmed \<and> ho_quant h \<noteq> None"

definition hold_is_active :: "int \<Rightarrow> hold \<Rightarrow> bool" where
  "hold_is_active now h =
     (if \<not> hold_open (ho_status h) then False
      else case ho_expires_at h of None \<Rightarrow> True | Some t \<Rightarrow> now \<le> t)"

definition hold_is_expired :: "int \<Rightarrow> hold \<Rightarrow> bool" where
  "hold_is_expired now h = (case ho_expires_at h of None \<Rightarrow> False | Some t \<Rightarrow> now > t)"

definition can_fulfill :: "int \<Rightarrow> hold \<Rightarrow> bool" where
  "can_fulfill now h \<longleftrightarrow>
     ho_status h = Hold_confirmed \<and> \<not> hold_is_expired now h \<and> ho_quant h \<noteq> None"

definition held_on :: "int \<Rightarrow> nat \<Rightarrow> hold list \<Rightarrow> rat" where
  "held_on now q hs = sum_where (\<lambda>h. ho_quant h = Some q \<and> hold_active now h) ho_quantity hs"

definition quant_available :: "int \<Rightarrow> quant \<Rightarrow> stock \<Rightarrow> rat" where
  "quant_available now q st = qu_quantity q - held_on now (qu_id q) (holds st)"

definition quant_is_future :: "clock \<Rightarrow> quant \<Rightarrow> bool" where
  "quant_is_future c q = (case qu_target q of None \<Rightarrow> False | Some d \<Rightarrow> d > today c)"

section \<open>The ledger\<close>

definition get_pk :: "nat \<Rightarrow> stock \<Rightarrow> stock_error + quant" where
  "get_pk q st = (case row_get qu_id q (quants st) of None \<Rightarrow> Inl Stk_does_not_exist | Some r \<Rightarrow> Inr r)"

definition ledger_sum :: "nat \<Rightarrow> move list \<Rightarrow> rat" where
  "ledger_sum q ms = sum_where (\<lambda>m. mv_quant m = q) mv_delta ms"

text \<open>
  \<open>Move.save\<close> of a new move. The check constraint on the cached quantity is evaluated by the
  update itself, so it decides before the test that follows it.
\<close>

definition save_move :: "move \<Rightarrow> stock \<Rightarrow> stock_error + stock" where
  "save_move m st =
     (if mv_reason m = [] then Inl Stk_value_error
      else
        let bump = (\<lambda>q. q\<lparr>qu_quantity := qu_quantity q + mv_delta m\<rparr>);
            qs = map (\<lambda>q. if qu_id q = mv_quant m then bump q else q) (quants st);
            st' = st\<lparr>moves := moves st @ [m], quants := qs\<rparr> in
        if \<exists>q \<in> set qs. qu_id q = mv_quant m \<and> qu_quantity q < 0 then Inl Stk_integrity
        else if mv_delta m < 0 then
          (case row_get qu_id (mv_quant m) qs of None \<Rightarrow> Inl Stk_does_not_exist
           | Some q \<Rightarrow> if qu_quantity q < 0
                       then Inl (Stk_insufficient_quantity (qu_quantity q - mv_delta m)) else Inr st')
        else Inr st')"

definition recalculate :: "nat \<Rightarrow> stock \<Rightarrow> stock_error + (stock \<times> rat)" where
  "recalculate qid st =
     ebind (get_pk qid st) (\<lambda>q.
     let total = ledger_sum qid (moves st) in
     if total \<noteq> qu_quantity q then
       if total < 0 then Inl Stk_integrity
       else Inr (st\<lparr>quants := row_put qu_id (q\<lparr>qu_quantity := total\<rparr>) (quants st)\<rparr>, total)
     else Inr (st, total))"

text \<open>\<open>Quant.objects.get_or_create\<close> on the coordinate, which is unique (nulls not distinct).\<close>

definition same_coordinate :: "string \<Rightarrow> string option \<Rightarrow> int option \<Rightarrow> string \<Rightarrow> quant \<Rightarrow> bool" where
  "same_coordinate sku pos target b q \<longleftrightarrow>
     qu_sku q = sku \<and> qu_position q = pos \<and> qu_target q = target \<and> qu_batch q = b"

definition get_quant :: "string \<Rightarrow> string option \<Rightarrow> int option \<Rightarrow> string \<Rightarrow> stock \<Rightarrow> quant option" where
  "get_quant sku pos target b st = find (same_coordinate sku pos target b) (quants st)"

definition get_or_create_quant ::
  "clock \<Rightarrow> string \<Rightarrow> string option \<Rightarrow> int option \<Rightarrow> string \<Rightarrow> dict \<Rightarrow> stock \<Rightarrow> stock \<times> quant" where
  "get_or_create_quant c sku pos target b md st =
     (case get_quant sku pos target b st of
        Some q \<Rightarrow> (st, q)
      | None \<Rightarrow>
          let q = \<lparr>qu_id = length (quants st), qu_sku = sku, qu_position = pos, qu_target = target,
                   qu_batch = b, qu_quantity = 0, qu_created_at = now_at c, qu_metadata = md\<rparr> in
          (st\<lparr>quants := quants st @ [q]\<rparr>, q))"

definition get_or_create_batch :: "batch \<Rightarrow> stock \<Rightarrow> stock \<times> batch \<times> bool" where
  "get_or_create_batch b st =
     (case row_get ba_ref (ba_ref b) (batches st) of
        Some x \<Rightarrow> (st, x, False)
      | None \<Rightarrow> (st\<lparr>batches := batches st @ [b]\<rparr>, b, True))"

section \<open>Movements\<close>

record receive_args =
  ra_position :: "string option"
  ra_target :: "int option"
  ra_batch :: string
  ra_user :: "string option"
  ra_reason :: string
  ra_kind :: move_kind
  ra_metadata :: dict

definition shelf_life_days_for :: "catalogue \<Rightarrow> string \<Rightarrow> int option" where
  "shelf_life_days_for cat sku = (case sku_info_of cat sku of None \<Rightarrow> None | Some i \<Rightarrow> si_shelflife i)"

definition daily_batch :: "string \<Rightarrow> int \<Rightarrow> string" where
  "daily_batch sku day = sku @ ''-'' @ ymd_text day"

text \<open>The lot of the day for a physical entry of a perishable without a lot.\<close>

definition receive_batch :: "clock \<Rightarrow> catalogue \<Rightarrow> string \<Rightarrow> receive_args \<Rightarrow> stock \<Rightarrow> stock \<times> string" where
  "receive_batch c cat sku a st =
     (if ra_target a = None \<and> ra_batch a = [] then
        (case shelf_life_days_for cat sku of None \<Rightarrow> (st, ra_batch a)
         | Some days \<Rightarrow>
             let ref = daily_batch sku (today c);
                 (st', _) = get_or_create_batch
                   \<lparr>ba_ref = ref, ba_sku = sku, ba_production = Some (today c),
                    ba_expiry = Some (today c + days), ba_grade = [], ba_markdown = 0\<rparr> st in
             (st', ref))
      else (st, ra_batch a))"

definition receive_into :: "clock \<Rightarrow> rat \<Rightarrow> string \<Rightarrow> receive_args \<Rightarrow> string \<Rightarrow> stock \<Rightarrow> stock_error + (stock \<times> quant)" where
  "receive_into c n sku a b st =
     (let (st1, q) = get_or_create_quant c sku (ra_position a) (ra_target a) b (ra_metadata a) st in
      ebind (save_move \<lparr>mv_quant = qu_id q, mv_delta = n, mv_kind = ra_kind a, mv_reason = ra_reason a,
                        mv_metadata = ra_metadata a, mv_at = now_at c, mv_user = ra_user a\<rparr> st1) (\<lambda>st2.
      ebind (get_pk (qu_id q) st2) (\<lambda>q2. Inr (st2, q2))))"

text \<open>
  The lot is created before the atomic block, so it stays when the block fails: the state is
  returned beside the result.
\<close>

definition receive :: "clock \<Rightarrow> catalogue \<Rightarrow> rat \<Rightarrow> string \<Rightarrow> receive_args \<Rightarrow> stock \<Rightarrow> stock \<times> (stock_error + quant)" where
  "receive c cat n sku a st =
     (if n \<le> 0 then (st, Inl Stk_invalid_quantity)
      else let (st1, b) = receive_batch c cat sku a st in
        case receive_into c n sku a b st1 of
          Inl err \<Rightarrow> (st1, Inl err) | Inr (st2, q) \<Rightarrow> (st2, Inr q))"

definition issue ::
  "clock \<Rightarrow> rat \<Rightarrow> nat \<Rightarrow> string option \<Rightarrow> string \<Rightarrow> move_kind \<Rightarrow> dict \<Rightarrow> stock \<Rightarrow> stock_error + (stock \<times> move)" where
  "issue c n qid user reason k md st =
     (if n \<le> 0 then Inl Stk_invalid_quantity
      else
        ebind (get_pk qid st) (\<lambda>q.
        if quant_available (now_at c) q st < n
        then Inl (Stk_insufficient_quantity (quant_available (now_at c) q st))
        else
          let m = \<lparr>mv_quant = qid, mv_delta = - n, mv_kind = k, mv_reason = reason, mv_metadata = md,
                   mv_at = now_at c, mv_user = user\<rparr> in
          ebind (save_move m st) (\<lambda>st'. Inr (st', m))))"

definition adjust :: "clock \<Rightarrow> nat \<Rightarrow> rat \<Rightarrow> string \<Rightarrow> string option \<Rightarrow> stock \<Rightarrow> stock_error + (stock \<times> move option)" where
  "adjust c qid n reason user st =
     (if reason = [] then Inl Stk_reason_required
      else if n < 0 then Inl Stk_invalid_quantity
      else
        ebind (get_pk qid st) (\<lambda>q.
        let delta = n - qu_quantity q in
        if delta = 0 then Inr (st, None)
        else
          let m = \<lparr>mv_quant = qid, mv_delta = delta, mv_kind = Adjust_move, mv_reason = ''Ajuste: '' @ reason,
                   mv_metadata = [], mv_at = now_at c, mv_user = user\<rparr> in
          ebind (save_move m st) (\<lambda>st'. Inr (st', Some m))))"

text \<open>Inside an atomic block the state of a call that raised is dropped.\<close>

definition atomically :: "stock \<times> (stock_error + 'a) \<Rightarrow> stock_error + (stock \<times> 'a)" where
  "atomically r = (case r of (st, Inl err) \<Rightarrow> Inl err | (st, Inr x) \<Rightarrow> Inr (st, x))"

definition transfer ::
  "clock \<Rightarrow> catalogue \<Rightarrow> rat \<Rightarrow> string \<Rightarrow> string option \<Rightarrow> string option \<Rightarrow> int option \<Rightarrow> string \<Rightarrow> string option
   \<Rightarrow> string \<Rightarrow> stock \<Rightarrow> stock_error + (stock \<times> quant)" where
  "transfer c cat n sku from_pos to_pos target b user reason st =
     (if n \<le> 0 then Inl Stk_invalid_quantity
      else if from_pos = to_pos then Inl Stk_invalid_transfer
      else case get_quant sku from_pos target b st of None \<Rightarrow> Inl Stk_quant_not_found
        | Some source \<Rightarrow>
            ebind (issue c n (qu_id source) user reason Transfer_move [] st) (\<lambda>(st1, _).
            atomically (receive c cat n sku
              \<lparr>ra_position = to_pos, ra_target = target, ra_batch = b, ra_user = user, ra_reason = reason,
               ra_kind = Transfer_move, ra_metadata = []\<rparr> st1)))"

end
