(* ===== verification/StockRead.thy ===== *)
theory StockRead
  imports Stockman
begin

text \<open>
  What the stock kernel answers: shelf-life validity, the canonical scope of eligible quants,
  the availability of a SKU for a channel (one SKU, and the batch reading of many SKUs on
  many dates), the promise decision, the inventory queries and the reconstructed shelf day.
\<close>

section \<open>Shelf life\<close>

definition is_valid_for_date :: "clock \<Rightarrow> quant \<Rightarrow> int option \<Rightarrow> int \<Rightarrow> bool" where
  "is_valid_for_date c q shelf target =
     (case shelf of
        None \<Rightarrow> (case qu_target q of None \<Rightarrow> True | Some d \<Rightarrow> d \<le> target)
      | Some days \<Rightarrow>
          let min_production = target - days in
          (case qu_target q of
             None \<Rightarrow> day_of c (qu_created_at q) \<ge> min_production
           | Some d \<Rightarrow> min_production \<le> d \<and> d \<le> target))"

definition filter_valid_quants :: "clock \<Rightarrow> int option \<Rightarrow> int \<Rightarrow> quant list \<Rightarrow> quant list" where
  "filter_valid_quants c shelf target qs =
     (case shelf of
        Some days \<Rightarrow>
          let min_production = target - days in
          filter (\<lambda>q. qu_target q = None \<and> day_of c (qu_created_at q) \<ge> min_production \<or>
                      (case qu_target q of None \<Rightarrow> False | Some d \<Rightarrow> min_production \<le> d \<and> d \<le> target)) qs
      | None \<Rightarrow> filter (\<lambda>q. case qu_target q of None \<Rightarrow> True | Some d \<Rightarrow> d \<le> target) qs)"

text \<open>The two results are the messages, \<open>True\<close> where one is returned.\<close>

definition batch_window_check :: "catalogue \<Rightarrow> string \<Rightarrow> int option \<Rightarrow> int option \<Rightarrow> bool \<times> bool" where
  "batch_window_check cat sku production expiry =
     (case (production, expiry) of
        (Some p, Some e) \<Rightarrow>
          if e < p then (True, False)
          else (case shelf_life_days_for cat sku of None \<Rightarrow> (False, False)
                | Some days \<Rightarrow> (False, e > p + days))
      | _ \<Rightarrow> (False, False))"

section \<open>Stock profile and scope\<close>

text \<open>A product argument: a SKU string is a product without attributes of its own.\<close>

record product =
  pd_sku :: string
  pd_shelf :: "int option"
  pd_policy :: "string option"

abbreviation just_sku :: "string \<Rightarrow> product" where
  "just_sku sku \<equiv> \<lparr>pd_sku = sku, pd_shelf = None, pd_policy = None\<rparr>"

definition or_text :: "string \<Rightarrow> string \<Rightarrow> string" where
  "or_text a b = (if a \<noteq> [] then a else b)"

definition resolve_stock_profile :: "catalogue \<Rightarrow> product \<Rightarrow> string \<times> int option \<times> string" where
  "resolve_stock_profile cat p =
     (let info = (if pd_shelf p = None \<or> pd_policy p = None then sku_info_of cat (pd_sku p) else None);
          shelf = (case info of None \<Rightarrow> pd_shelf p
                   | Some i \<Rightarrow> if pd_shelf p = None then si_shelflife i else pd_shelf p);
          policy = (case info of None \<Rightarrow> pd_policy p
                    | Some i \<Rightarrow> if pd_policy p = None then Some (si_policy i) else pd_policy p) in
      (pd_sku p, shelf, case policy of None \<Rightarrow> ''planned_ok'' | Some s \<Rightarrow> or_text s ''planned_ok''))"

record stock_scope =
  sc_allowed :: "string list option"
  sc_excluded :: "string list"
  sc_expiry_margin :: int
  sc_nonconforming :: bool
  sc_grades :: "string list option"

definition in_positions :: "string list option \<Rightarrow> string list \<Rightarrow> quant \<Rightarrow> bool" where
  "in_positions allowed excluded q \<longleftrightarrow>
     (case allowed of None \<Rightarrow> True
      | Some ps \<Rightarrow> (case qu_position q of None \<Rightarrow> False | Some p \<Rightarrow> p \<in> set ps)) \<and>
     (case qu_position q of None \<Rightarrow> True | Some p \<Rightarrow> p \<notin> set excluded)"

definition expired_batch_refs :: "string \<Rightarrow> int \<Rightarrow> batch list \<Rightarrow> string list" where
  "expired_batch_refs sku cutoff bs =
     map ba_ref (filter (\<lambda>b. ba_sku b = sku \<and> (case ba_expiry b of None \<Rightarrow> False | Some e \<Rightarrow> e < cutoff)) bs)"

definition graded_batch_refs :: "string \<Rightarrow> string list \<Rightarrow> batch list \<Rightarrow> string list" where
  "graded_batch_refs sku grades bs =
     map ba_ref (filter (\<lambda>b. ba_sku b = sku \<and> ba_grade b \<in> set grades) bs)"

definition markdown_batch_refs :: "string \<Rightarrow> batch list \<Rightarrow> string list" where
  "markdown_batch_refs sku bs = map ba_ref (filter (\<lambda>b. ba_sku b = sku \<and> ba_markdown b > 0) bs)"

definition quants_eligible_for :: "clock \<Rightarrow> catalogue \<Rightarrow> string \<Rightarrow> int \<Rightarrow> stock_scope \<Rightarrow> stock \<Rightarrow> quant list" where
  "quants_eligible_for c cat sku target sc st =
     (let (_, shelf, _) = resolve_stock_profile cat (just_sku sku);
          qs = filter (\<lambda>q. qu_sku q = sku \<and> qu_quantity q > 0) (quants st);
          qs = filter_valid_quants c shelf target qs;
          qs = filter (in_positions (sc_allowed sc) (sc_excluded sc)) qs;
          expired = expired_batch_refs sku (target + max 0 (sc_expiry_margin sc)) (batches st);
          qs = filter (\<lambda>q. qu_batch q \<notin> set expired) qs in
      case sc_grades sc of
        Some gs \<Rightarrow> filter (\<lambda>q. qu_batch q = [] \<or> qu_batch q \<in> set (graded_batch_refs sku gs (batches st))) qs
      | None \<Rightarrow>
          if \<not> sc_nonconforming sc
          then filter (\<lambda>q. qu_batch q \<notin> set (markdown_batch_refs sku (batches st))) qs else qs)"

section \<open>Availability of one SKU\<close>

record avail =
  av_sku :: string
  av_policy :: string
  av_promisable :: rat
  av_reserved :: rat
  av_available :: rat
  av_expected :: rat
  av_planned :: rat
  av_ready_physical :: rat
  av_held_ready :: rat
  av_safety_margin :: int
  av_breakdown :: "rat \<times> rat \<times> rat"
  av_is_planned :: bool
  av_is_paused :: bool
  av_is_tracked :: bool
  av_positions :: "(string \<times> string \<times> rat \<times> rat \<times> string option) list"

definition policy_promisable_qty :: "string \<Rightarrow> rat \<Rightarrow> rat \<Rightarrow> rat \<Rightarrow> rat" where
  "policy_promisable_qty policy available expected planned =
     (if policy = ''stock_only'' then available else expected + planned)"

definition sku_availability_policy :: "catalogue \<Rightarrow> string \<Rightarrow> string" where
  "sku_availability_policy cat sku =
     (case sku_info_of cat sku of None \<Rightarrow> ''planned_ok'' | Some i \<Rightarrow> or_text (si_policy i) ''planned_ok'')"

definition planned_supply_for_target :: "clock \<Rightarrow> string \<Rightarrow> int \<Rightarrow> stock \<Rightarrow> rat" where
  "planned_supply_for_target c sku target st =
     (if target \<le> today c then 0
      else sum_where (\<lambda>q. qu_sku q = sku \<and> qu_quantity q > 0 \<and>
             (case qu_target q of None \<Rightarrow> False | Some d \<Rightarrow> d > today c \<and> d \<le> target)) qu_quantity (quants st))"

definition zero_availability :: "string \<Rightarrow> string \<Rightarrow> int \<Rightarrow> bool \<Rightarrow> bool \<Rightarrow> avail" where
  "zero_availability sku policy margin paused tracked =
     \<lparr>av_sku = sku, av_policy = policy, av_promisable = 0, av_reserved = 0, av_available = 0,
      av_expected = 0, av_planned = 0, av_ready_physical = 0, av_held_ready = 0,
      av_safety_margin = margin, av_breakdown = (0, 0, 0), av_is_planned = False,
      av_is_paused = paused, av_is_tracked = tracked, av_positions = []\<rparr>"

text \<open>The running totals of the classification loop: supply and holds per bucket.\<close>

record buckets =
  bk_ready :: rat
  bk_production :: rat
  bk_planned :: rat
  bk_held_ready :: rat
  bk_held_production :: rat
  bk_held_planned :: rat
  bk_positions :: "(string \<times> string \<times> rat \<times> rat \<times> string option) list"

definition no_buckets :: buckets where
  "no_buckets = \<lparr>bk_ready = 0, bk_production = 0, bk_planned = 0, bk_held_ready = 0,
     bk_held_production = 0, bk_held_planned = 0, bk_positions = []\<rparr>"

definition position_of :: "stock \<Rightarrow> quant \<Rightarrow> position option" where
  "position_of st q = Option.bind (qu_position q) (\<lambda>r. row_get po_ref r (positions st))"

definition classify :: "clock \<Rightarrow> stock \<Rightarrow> (quant \<Rightarrow> rat) \<Rightarrow> buckets \<Rightarrow> quant \<Rightarrow> buckets" where
  "classify c st held b q =
     (let qty = qu_quantity q; h = held q; pos = position_of st q;
          b1 =
            (if qu_batch q = ''started''
             then b\<lparr>bk_production := bk_production b + qty, bk_held_production := bk_held_production b + h\<rparr>
             else if quant_is_future c q
             then b\<lparr>bk_planned := bk_planned b + qty, bk_held_planned := bk_held_planned b + h\<rparr>
             else case pos of
                    None \<Rightarrow> b
                  | Some p \<Rightarrow>
                      if po_kind p = Process_pos \<or> \<not> po_is_saleable p
                      then b\<lparr>bk_production := bk_production b + qty,
                             bk_held_production := bk_held_production b + h\<rparr>
                      else b\<lparr>bk_ready := bk_ready b + qty, bk_held_ready := bk_held_ready b + h\<rparr>) in
      case pos of
        None \<Rightarrow> b1
      | Some p \<Rightarrow> b1\<lparr>bk_positions := bk_positions b1 @
                   [(po_ref p, po_name p, qty - h, h, if qu_batch q = [] then None else Some (qu_batch q))]\<rparr>)"

definition build_availability :: "string \<Rightarrow> string \<Rightarrow> buckets \<Rightarrow> int \<Rightarrow> bool \<Rightarrow> bool \<Rightarrow> avail" where
  "build_availability sku policy b margin planned_flag tracked =
     (let available = max (bk_ready b - bk_held_ready b - of_int margin) 0;
          expected = max (bk_ready b + bk_production b - bk_held_ready b - bk_held_production b - of_int margin) 0;
          planned = max (bk_planned b - bk_held_planned b) 0 in
      \<lparr>av_sku = sku, av_policy = policy,
       av_promisable = policy_promisable_qty policy available expected planned,
       av_reserved = bk_held_ready b + bk_held_production b + bk_held_planned b,
       av_available = available, av_expected = expected, av_planned = planned,
       av_ready_physical = bk_ready b, av_held_ready = bk_held_ready b, av_safety_margin = margin,
       av_breakdown = (bk_ready b - bk_held_ready b, bk_production b - bk_held_production b, planned),
       av_is_planned = planned_flag, av_is_paused = False, av_is_tracked = tracked,
       av_positions = bk_positions b\<rparr>)"

definition availability_for_sku ::
  "clock \<Rightarrow> catalogue \<Rightarrow> string \<Rightarrow> string option \<Rightarrow> int \<Rightarrow> int \<Rightarrow> stock_scope \<Rightarrow> stock \<Rightarrow> avail" where
  "availability_for_sku c cat sku pos margin target sc st =
     (let policy = sku_availability_policy cat sku;
          tracked = (\<exists>q \<in> set (quants st). qu_sku q = sku) in
      if \<not> sku_sellable cat sku then zero_availability sku policy margin True tracked
      else
        let planned_flag = planned_supply_for_target c sku target st > 0;
            qs = (case pos of
                    Some p \<Rightarrow> filter (\<lambda>q. qu_sku q = sku \<and> qu_position q = Some p \<and> qu_quantity q > 0 \<and>
                                (case qu_target q of None \<Rightarrow> True | Some d \<Rightarrow> d \<le> target)) (quants st)
                  | None \<Rightarrow> quants_eligible_for c cat sku target sc st);
            b = foldl (classify c st (\<lambda>q. held_on (now_at c) (qu_id q) (holds st))) no_buckets qs in
        build_availability sku policy b margin planned_flag tracked)"

section \<open>The promise\<close>

datatype promise_reason = Reason_paused | Reason_insufficient_supply

record promise =
  pr_approved :: bool
  pr_policy :: string
  pr_reason :: "promise_reason option"
  pr_available_qty :: "rat option"
  pr_ceiling :: "rat option"
  pr_is_tracked :: bool
  pr_available :: rat
  pr_expected :: rat
  pr_planned :: rat
  pr_is_planned :: bool
  pr_is_paused :: bool

definition decision_from_availability :: "rat \<Rightarrow> avail \<Rightarrow> promise" where
  "decision_from_availability n info =
     (let factual = (if av_is_tracked info then Some (av_promisable info) else None);
          (approved, ceiling) =
            (if av_is_paused info then (False, Some 0)
             else if \<not> av_is_tracked info then (True, None)
             else if av_policy info = ''demand_ok'' then (True, None)
             else ((case factual of None \<Rightarrow> False | Some f \<Rightarrow> n \<le> f), factual)) in
      \<lparr>pr_approved = approved, pr_policy = av_policy info,
       pr_reason = (if approved then None
                    else Some (if av_is_paused info then Reason_paused else Reason_insufficient_supply)),
       pr_available_qty = factual, pr_ceiling = ceiling, pr_is_tracked = av_is_tracked info,
       pr_available = av_available info, pr_expected = av_expected info, pr_planned = av_planned info,
       pr_is_planned = av_is_planned info, pr_is_paused = av_is_paused info\<rparr>)"

definition promise_decision_for_sku ::
  "clock \<Rightarrow> catalogue \<Rightarrow> string \<Rightarrow> rat \<Rightarrow> int \<Rightarrow> int \<Rightarrow> stock_scope \<Rightarrow> stock \<Rightarrow> promise" where
  "promise_decision_for_sku c cat sku n margin target sc st =
     decision_from_availability n (availability_for_sku c cat sku None margin target sc st)"

section \<open>Many SKUs on many dates\<close>

text \<open>\<open>list(dict.fromkeys(xs))\<close>: the first occurrence of each element.\<close>

definition uniq :: "'a list \<Rightarrow> 'a list" where
  "uniq xs = rev (remdups (rev xs))"

lemma set_uniq [simp]: "set (uniq xs) = set xs"
  by (simp add: uniq_def)

text \<open>
  The rows read once: the lots that expire before the largest cut, the quants up to the
  largest date and their held amounts; then each date is cut from them.
\<close>

definition on_date_quants ::
  "clock \<Rightarrow> stock_scope \<Rightarrow> (string \<times> string \<times> int) list \<Rightarrow> string \<Rightarrow> int option \<Rightarrow> int \<Rightarrow> batch list \<Rightarrow> quant list \<Rightarrow> quant list" where
  "on_date_quants c sc expiring sku shelf target bs rows =
     (let cutoff = target + max 0 (sc_expiry_margin sc);
          excluded = map (\<lambda>(_, r, _). r) (filter (\<lambda>(s, _, e). s = sku \<and> e < cutoff) expiring) @
                     (if sc_grades sc = None \<and> \<not> sc_nonconforming sc then markdown_batch_refs sku bs else []) in
      filter (\<lambda>q. \<not> (case qu_target q of None \<Rightarrow> False | Some d \<Rightarrow> d > target) \<and>
                  \<not> (qu_batch q \<noteq> [] \<and> qu_batch q \<in> set excluded) \<and>
                  \<not> (case sc_grades sc of None \<Rightarrow> False
                     | Some gs \<Rightarrow> qu_batch q \<noteq> [] \<and> qu_batch q \<notin> set (graded_batch_refs sku gs bs)) \<and>
                  is_valid_for_date c q shelf target) rows)"

definition availability_on_date ::
  "clock \<Rightarrow> catalogue \<Rightarrow> int \<Rightarrow> stock_scope \<Rightarrow> (string \<times> string \<times> int) list \<Rightarrow> int list \<Rightarrow> quant list \<Rightarrow>
   int \<Rightarrow> string \<Rightarrow> stock \<Rightarrow> avail" where
  "availability_on_date c cat margin sc expiring planned_dates rows target sku st =
     (let policy = (case sku_info_of cat sku of None \<Rightarrow> ''planned_ok'' | Some i \<Rightarrow> si_policy i);
          tracked = (\<exists>q \<in> set (quants st). qu_sku q = sku) in
      if \<not> sku_sellable cat sku then zero_availability sku policy margin True tracked
      else
        let planned_flag = (\<exists>d \<in> set planned_dates. d \<le> target);
            shelf = (case sku_info_of cat sku of None \<Rightarrow> None | Some i \<Rightarrow> si_shelflife i);
            qs = on_date_quants c sc expiring sku shelf target (batches st)
                   (filter (\<lambda>q. qu_sku q = sku) rows);
            b = foldl (classify c st (\<lambda>q. held_on (now_at c) (qu_id q) (holds st))) no_buckets qs in
        build_availability sku policy b margin planned_flag tracked)"

definition availability_for_skus_on_dates ::
  "clock \<Rightarrow> catalogue \<Rightarrow> string list \<Rightarrow> int list \<Rightarrow> int \<Rightarrow> stock_scope \<Rightarrow> stock \<Rightarrow> (int \<times> (string \<times> avail) list) list" where
  "availability_for_skus_on_dates c cat skus dates margin sc st =
     (if skus = [] \<or> dates = [] then map (\<lambda>d. (d, [])) (uniq dates)
      else
        let horizon = Max (set dates);
            expiring = concat (map (\<lambda>b. case ba_expiry b of None \<Rightarrow> []
                                | Some e \<Rightarrow> if e < horizon + max 0 (sc_expiry_margin sc)
                                            then [(ba_sku b, ba_ref b, e)] else [])
                         (filter (\<lambda>b. ba_sku b \<in> set skus) (batches st)));
            planned_dates = (\<lambda>sku. if horizon > today c
              then concat (map (\<lambda>q. case qu_target q of None \<Rightarrow> []
                        | Some d \<Rightarrow> if d > today c \<and> d \<le> horizon then [d] else [])
                     (filter (\<lambda>q. qu_sku q = sku \<and> qu_quantity q > 0) (quants st))) else []);
            rows = filter (\<lambda>q. qu_sku q \<in> set skus \<and>
                      (case qu_target q of None \<Rightarrow> True | Some d \<Rightarrow> d \<le> horizon) \<and> qu_quantity q > 0 \<and>
                      in_positions (sc_allowed sc) (sc_excluded sc) q) (quants st) in
        map (\<lambda>d. (d, map (\<lambda>sku. (sku, availability_on_date c cat margin sc expiring (planned_dates sku)
                                       rows d sku st)) (uniq skus))) (uniq dates))"

definition availability_for_skus ::
  "clock \<Rightarrow> catalogue \<Rightarrow> string list \<Rightarrow> int \<Rightarrow> int option \<Rightarrow> stock_scope \<Rightarrow> stock \<Rightarrow> (string \<times> avail) list" where
  "availability_for_skus c cat skus margin target_date sc st =
     (if skus = [] then []
      else let target = (case target_date of Some t \<Rightarrow> t | None \<Rightarrow> today c) in
        case map_of (availability_for_skus_on_dates c cat skus [target] margin sc st) target of
          None \<Rightarrow> [] | Some r \<Rightarrow> r)"

end
