(* ===== verification/StockReadProps.thy ===== *)
theory StockReadProps
  imports StockRead
begin

text \<open>
  The readings of the stock kernel agree with each other: the batch reading with the single
  reading, the row test with the query filter; and what a promise says of the supply.
\<close>

lemma filter_valid_iff: "filter_valid_quants c shelf target qs = filter (\<lambda>q. is_valid_for_date c q shelf target) qs"
  by (auto simp: filter_valid_quants_def is_valid_for_date_def Let_def split: option.splits intro!: filter_cong)

text \<open>The eligible quants as one filter.\<close>

definition eligible :: "clock \<Rightarrow> catalogue \<Rightarrow> string \<Rightarrow> int \<Rightarrow> stock_scope \<Rightarrow> batch list \<Rightarrow> quant \<Rightarrow> bool" where
  "eligible c cat sku target sc bs q \<longleftrightarrow>
     qu_sku q = sku \<and> qu_quantity q > 0 \<and> is_valid_for_date c q (shelf_life_days_for cat sku) target \<and>
     in_positions (sc_allowed sc) (sc_excluded sc) q \<and>
     qu_batch q \<notin> set (expired_batch_refs sku (target + max 0 (sc_expiry_margin sc)) bs) \<and>
     (case sc_grades sc of
        Some gs \<Rightarrow> qu_batch q = [] \<or> qu_batch q \<in> set (graded_batch_refs sku gs bs)
      | None \<Rightarrow> sc_nonconforming sc \<or> qu_batch q \<notin> set (markdown_batch_refs sku bs))"

lemma profile_shelf: "fst (snd (resolve_stock_profile cat (just_sku sku))) = shelf_life_days_for cat sku"
  by (auto simp: resolve_stock_profile_def shelf_life_days_for_def Let_def split: option.splits)

lemma eligible_filter:
  "quants_eligible_for c cat sku target sc st = filter (eligible c cat sku target sc (batches st)) (quants st)"
  by (cases "resolve_stock_profile cat (just_sku sku)")
    (use profile_shelf [of cat sku] in \<open>auto simp: quants_eligible_for_def eligible_def filter_valid_iff Let_def
      split: option.splits intro!: filter_cong\<close>)

lemma valid_target: "is_valid_for_date c q shelf target \<Longrightarrow> qu_target q = Some d \<Longrightarrow> d \<le> target"
  by (auto simp: is_valid_for_date_def Let_def split: option.splits)

text \<open>The rows cut for a date are the eligible quants of that date.\<close>

lemma on_date_filter:
  assumes "\<forall>b \<in> set (batches st). ba_ref b \<noteq> []" "sku \<in> set skus" "target \<le> horizon"
    "expiring = concat (map (\<lambda>b. case ba_expiry b of None \<Rightarrow> []
                                | Some e \<Rightarrow> if e < horizon + max 0 (sc_expiry_margin sc)
                                            then [(ba_sku b, ba_ref b, e)] else [])
                         (filter (\<lambda>b. ba_sku b \<in> set skus) (batches st)))"
    "rows = filter (\<lambda>q. qu_sku q \<in> set skus \<and>
                      (case qu_target q of None \<Rightarrow> True | Some d \<Rightarrow> d \<le> horizon) \<and> qu_quantity q > 0 \<and>
                      in_positions (sc_allowed sc) (sc_excluded sc) q) (quants st)"
  shows "on_date_quants c sc expiring sku (shelf_life_days_for cat sku) target (batches st)
      (filter (\<lambda>q. qu_sku q = sku) rows) = quants_eligible_for c cat sku target sc st"
proof -
  let ?cut = "target + max 0 (sc_expiry_margin sc)"
  have exp: "set (map (\<lambda>(_, r, _). r) (filter (\<lambda>(s, _, e). s = sku \<and> e < ?cut) expiring)) =
      set (expired_batch_refs sku ?cut (batches st))"
  proof -
    have "(s, r, e) \<in> set expiring \<longleftrightarrow> (\<exists>b \<in> set (batches st). ba_sku b = s \<and> s \<in> set skus \<and> ba_ref b = r \<and>
        ba_expiry b = Some e \<and> e < horizon + max 0 (sc_expiry_margin sc))" for s r e
      unfolding assms(4) by (auto split: option.splits if_splits)
    moreover have "e < ?cut \<Longrightarrow> e < horizon + max 0 (sc_expiry_margin sc)" for e using assms(3) by linarith
    ultimately have "x \<in> set (map (\<lambda>(_, r, _). r) (filter (\<lambda>(s, _, e). s = sku \<and> e < ?cut) expiring)) \<longleftrightarrow>
        (\<exists>b \<in> set (batches st). ba_sku b = sku \<and> ba_ref b = x \<and> (\<exists>e. ba_expiry b = Some e \<and> e < ?cut))" for x
      using assms(2) by (auto simp: image_iff) blast
    moreover have "x \<in> set (expired_batch_refs sku ?cut (batches st)) \<longleftrightarrow>
        (\<exists>b \<in> set (batches st). ba_sku b = sku \<and> ba_ref b = x \<and> (\<exists>e. ba_expiry b = Some e \<and> e < ?cut))" for x
      by (auto simp: expired_batch_refs_def split: option.splits)
    ultimately show ?thesis by blast
  qed
  have ne: "[] \<notin> set (expired_batch_refs sku ?cut (batches st))" "[] \<notin> set (markdown_batch_refs sku (batches st))"
    using assms(1) by (auto simp: expired_batch_refs_def markdown_batch_refs_def)
  have tgt: "(case qu_target q of None \<Rightarrow> True | Some d \<Rightarrow> d \<le> horizon) \<and>
      \<not> (case qu_target q of None \<Rightarrow> False | Some d \<Rightarrow> d > target)"
    if "is_valid_for_date c q (shelf_life_days_for cat sku) target" for q
    using valid_target [OF that] assms(3) by (auto split: option.splits)
  have "(qu_sku q = sku \<and> (qu_sku q \<in> set skus \<and>
         (case qu_target q of None \<Rightarrow> True | Some d \<Rightarrow> d \<le> horizon) \<and> qu_quantity q > 0 \<and>
          in_positions (sc_allowed sc) (sc_excluded sc) q)) \<and>
        \<not> (case qu_target q of None \<Rightarrow> False | Some d \<Rightarrow> d > target) \<and>
        \<not> (qu_batch q \<noteq> [] \<and> qu_batch q \<in> set (expired_batch_refs sku ?cut (batches st)) \<union>
             set (if sc_grades sc = None \<and> \<not> sc_nonconforming sc then markdown_batch_refs sku (batches st) else [])) \<and>
        \<not> (case sc_grades sc of None \<Rightarrow> False
           | Some gs \<Rightarrow> qu_batch q \<noteq> [] \<and> qu_batch q \<notin> set (graded_batch_refs sku gs (batches st))) \<and>
        is_valid_for_date c q (shelf_life_days_for cat sku) target
      \<longleftrightarrow> eligible c cat sku target sc (batches st) q" for q
    unfolding eligible_def using assms(2) ne tgt [of q] by (auto split: option.splits)
  then show ?thesis
    unfolding eligible_filter on_date_quants_def assms(5) Let_def set_append exp
    by (auto intro!: filter_cong)
qed

lemma map_of_map_fun: "x \<in> set xs \<Longrightarrow> map_of (map (\<lambda>y. (y, f y)) xs) x = Some (f x)"
  by (induction xs) auto

text \<open>C26: The batch reading of many SKUs on many dates (one pass over the rows) gives, for
  each SKU and date asked, exactly the availability that the single-SKU reading gives,
  whenever lots are named and the catalogue states the offer policy of the SKU.\<close>

theorem batch_reading_is_single_reading:
  assumes "\<forall>b \<in> set (batches st). ba_ref b \<noteq> []"
    "\<forall>i. sku_info_of cat sku = Some i \<longrightarrow> si_policy i \<noteq> []"
    "sku \<in> set skus" "d \<in> set dates"
  shows "Option.bind (map_of (availability_for_skus_on_dates c cat skus dates margin sc st) d)
      (\<lambda>r. map_of r sku) = Some (availability_for_sku c cat sku None margin d sc st)"
proof -
  let ?h = "Max (set dates)"
  have h: "d \<le> ?h" using assms(4) by simp
  let ?exp = "concat (map (\<lambda>b. case ba_expiry b of None \<Rightarrow> []
                                | Some e \<Rightarrow> if e < ?h + max 0 (sc_expiry_margin sc)
                                            then [(ba_sku b, ba_ref b, e)] else [])
                         (filter (\<lambda>b. ba_sku b \<in> set skus) (batches st)))"
  let ?rows = "filter (\<lambda>q. qu_sku q \<in> set skus \<and>
                      (case qu_target q of None \<Rightarrow> True | Some d \<Rightarrow> d \<le> ?h) \<and> qu_quantity q > 0 \<and>
                      in_positions (sc_allowed sc) (sc_excluded sc) q) (quants st)"
  define pd where "pd = (if ?h > today c
              then concat (map (\<lambda>q. case qu_target q of None \<Rightarrow> []
                        | Some d \<Rightarrow> if d > today c \<and> d \<le> ?h then [d] else [])
                     (filter (\<lambda>q. qu_sku q = sku \<and> qu_quantity q > 0) (quants st))) else [])"
  have pd: "(\<exists>x \<in> set pd. x \<le> d) \<longleftrightarrow> planned_supply_for_target c sku d st > 0"
  proof (cases "d \<le> today c")
    case True
    then show ?thesis by (auto simp: pd_def planned_supply_for_target_def split: option.splits if_splits)
  next
    case False
    have "x \<in> set pd \<longleftrightarrow> (\<exists>q \<in> set (quants st). qu_sku q = sku \<and> qu_quantity q > 0 \<and> qu_target q = Some x
        \<and> x > today c \<and> x \<le> ?h)" for x
      using False h by (auto simp: pd_def split: option.splits if_splits)
    then show ?thesis
      using False h by (force simp: planned_supply_for_target_def sum_where_pos_iff split: option.splits)
  qed
  have pol: "(case sku_info_of cat sku of None \<Rightarrow> ''planned_ok'' | Some i \<Rightarrow> si_policy i) = sku_availability_policy cat sku"
    using assms(2) by (auto simp: sku_availability_policy_def or_text_def split: option.splits)
  have "availability_on_date c cat margin sc ?exp pd ?rows d sku st = availability_for_sku c cat sku None margin d sc st"
    unfolding availability_on_date_def availability_for_sku_def Let_def pol pd option.case
      shelf_life_days_for_def [symmetric] on_date_filter [OF assms(1,3) h refl refl] ..
  moreover have "skus \<noteq> []" "dates \<noteq> []" using assms(3,4) by auto
  ultimately show ?thesis
    using assms(3,4) by (simp add: availability_for_skus_on_dates_def Let_def map_of_map_fun pd_def)
qed

text \<open>A bakery for the witnesses: bread on the shelf and planned, milk, one hold.\<close>

definition bakery_clock :: clock where
  "bakery_clock = \<lparr>now_at = 1000, day_of = (\<lambda>t. t div 100)\<rparr>"

definition bakery_info :: sku_info where
  "bakery_info = \<lparr>si_policy = ''planned_ok'', si_shelflife = Some 2\<rparr>"

definition bakery_catalogue :: catalogue where
  "bakery_catalogue = \<lparr>sku_sellable = (\<lambda>s. True), sku_info_of = (\<lambda>s. if s = ''pao'' then Some bakery_info else None)\<rparr>"

definition open_scope :: stock_scope where
  "open_scope = \<lparr>sc_allowed = None, sc_excluded = [], sc_expiry_margin = 0, sc_nonconforming = True, sc_grades = None\<rparr>"

definition bread :: quant where
  "bread = \<lparr>qu_id = 0, qu_sku = ''pao'', qu_position = Some ''vitrine'', qu_target = None, qu_batch = ''l1'',
            qu_quantity = 10, qu_created_at = 950, qu_metadata = []\<rparr>"

definition planned_bread :: quant where
  "planned_bread = \<lparr>qu_id = 1, qu_sku = ''pao'', qu_position = None, qu_target = Some 11, qu_batch = [],
                    qu_quantity = 20, qu_created_at = 960, qu_metadata = []\<rparr>"

definition milk :: quant where
  "milk = \<lparr>qu_id = 2, qu_sku = ''leite'', qu_position = Some ''vitrine'', qu_target = None, qu_batch = [],
           qu_quantity = 3, qu_created_at = 970, qu_metadata = []\<rparr>"

definition bread_hold :: hold where
  "bread_hold = \<lparr>ho_id = 0, ho_sku = ''pao'', ho_quant = Some 0, ho_quantity = 4, ho_target = 10,
                 ho_status = Hold_confirmed, ho_expires_at = Some 1100, ho_actor = None, ho_created_at = 990,
                 ho_resolved_at = None, ho_metadata = []\<rparr>"

definition bakery_move :: "nat \<Rightarrow> rat \<Rightarrow> move_kind \<Rightarrow> int \<Rightarrow> move" where
  "bakery_move q d k t = \<lparr>mv_quant = q, mv_delta = d, mv_kind = k, mv_reason = ''dia'', mv_metadata = [],
                          mv_at = t, mv_user = None\<rparr>"

definition bakery :: stock where
  "bakery = \<lparr>positions = [\<lparr>po_ref = ''vitrine'', po_name = ''Vitrine'', po_kind = Physical_pos, po_is_saleable = True\<rparr>],
             quants = [bread, planned_bread, milk],
             moves = [bakery_move 0 12 Make_move 950, bakery_move 1 20 Adjust_move 960,
                      bakery_move 2 3 Buy_move 970, bakery_move 0 (-2) Sell_move 980],
             holds = [bread_hold],
             batches = [\<lparr>ba_ref = ''l1'', ba_sku = ''pao'', ba_production = Some 9, ba_expiry = Some 11,
                         ba_grade = [], ba_markdown = 0\<rparr>],
             materialized = []\<rparr>"

lemmas bakery_defs = bakery_def bakery_move_def bread_hold_def milk_def planned_bread_def bread_def
  open_scope_def bakery_catalogue_def bakery_info_def bakery_clock_def

theorem batch_reading_is_single_reading_witness:
  "Option.bind (map_of (availability_for_skus_on_dates bakery_clock bakery_catalogue [''leite'', ''pao''] [10, 11] 1 open_scope bakery) 11)
      (\<lambda>r. map_of r ''pao'') = Some (availability_for_sku bakery_clock bakery_catalogue ''pao'' None 1 11 open_scope bakery)"
proof -
  have "\<forall>b \<in> set (batches bakery). ba_ref b \<noteq> []"
    "\<forall>i. sku_info_of bakery_catalogue ''pao'' = Some i \<longrightarrow> si_policy i \<noteq> []"
    by (simp_all add: bakery_defs)
  then show ?thesis by (rule batch_reading_is_single_reading) simp_all
qed

end
