(* ===== verification/StockQueries.thy ===== *)
theory StockQueries
  imports StockReadProps "HOL-Library.Multiset"
begin

text \<open>
  The inventory queries of \<open>StockQueries\<close>: what is available, demanded and committed for a
  SKU and date, the same for many SKUs, and the shelf history rebuilt from the ledger.
\<close>

section \<open>Available, demand, committed\<close>

datatype sku_arg = By_sku string | By_product product

fun arg_product :: "sku_arg \<Rightarrow> product" where
  "arg_product (By_sku s) = just_sku s"
| "arg_product (By_product p) = p"

text \<open>
  The shelf life that the query applies: that of the product object when one is given, and
  that of the catalogue for a SKU string.
\<close>

definition query_shelf :: "catalogue \<Rightarrow> sku_arg \<Rightarrow> product option \<Rightarrow> int option" where
  "query_shelf cat a p =
     (case p of Some pr \<Rightarrow> pd_shelf pr
      | None \<Rightarrow> (case a of By_product pr \<Rightarrow> pd_shelf pr
                 | By_sku s \<Rightarrow> fst (snd (resolve_stock_profile cat (just_sku s)))))"

definition hold_position :: "stock \<Rightarrow> hold \<Rightarrow> string option" where
  "hold_position st h =
     Option.bind (ho_quant h) (\<lambda>q. Option.bind (row_get qu_id q (quants st)) qu_position)"

definition held_for :: "clock \<Rightarrow> string \<Rightarrow> int \<Rightarrow> string option \<Rightarrow> stock \<Rightarrow> rat" where
  "held_for c sku target pos st =
     sum_where (\<lambda>h. ho_sku h = sku \<and> ho_target h = target \<and> hold_active (now_at c) h \<and>
                    (case pos of None \<Rightarrow> True | Some p \<Rightarrow> hold_position st h = Some p)) ho_quantity (holds st)"

definition available ::
  "clock \<Rightarrow> catalogue \<Rightarrow> sku_arg \<Rightarrow> int option \<Rightarrow> string option \<Rightarrow> product option \<Rightarrow> stock \<Rightarrow> rat" where
  "available c cat a target_date pos p st =
     (let target = (case target_date of Some t \<Rightarrow> t | None \<Rightarrow> today c);
          sku = pd_sku (arg_product a);
          qs = filter (\<lambda>q. qu_sku q = sku) (quants st);
          qs = (case pos of None \<Rightarrow> qs | Some x \<Rightarrow> filter (\<lambda>q. qu_position q = Some x) qs);
          qs = filter_valid_quants c (query_shelf cat a p) target qs;
          expired = expired_batch_refs sku target (batches st);
          qs = filter (\<lambda>q. qu_batch q \<notin> set expired) qs in
      sum_list (map qu_quantity qs) - held_for c sku target pos st)"

definition available_many ::
  "clock \<Rightarrow> catalogue \<Rightarrow> string list \<Rightarrow> int option \<Rightarrow> string option \<Rightarrow> stock \<Rightarrow> (string \<times> rat) list" where
  "available_many c cat skus target_date pos st =
     (let us = uniq skus in
      if us = [] then []
      else
        let target = (case target_date of Some t \<Rightarrow> t | None \<Rightarrow> today c);
            expired = concat (map (\<lambda>s. expired_batch_refs s target (batches st)) us);
            counts = (\<lambda>q. (case qu_target q of None \<Rightarrow> True | Some d \<Rightarrow> d \<le> target) \<and>
                          (case pos of None \<Rightarrow> True | Some x \<Rightarrow> qu_position q = Some x) \<and>
                          qu_batch q \<notin> set expired \<and>
                          (case shelf_life_days_for cat (qu_sku q) of None \<Rightarrow> True
                           | Some days \<Rightarrow>
                               (case qu_target q of None \<Rightarrow> day_of c (qu_created_at q) | Some d \<Rightarrow> d)
                                 \<ge> target - days)) in
        map (\<lambda>s. (s, sum_where (\<lambda>q. qu_sku q = s \<and> counts q) qu_quantity (quants st)
                       - held_for c s target pos st)) us)"

definition demand :: "clock \<Rightarrow> string \<Rightarrow> int \<Rightarrow> stock \<Rightarrow> rat" where
  "demand c sku target st =
     sum_where (\<lambda>h. ho_sku h = sku \<and> ho_target h = target \<and> ho_quant h = None \<and>
                    hold_active (now_at c) h) ho_quantity (holds st)"

definition committed :: "clock \<Rightarrow> string \<Rightarrow> int option \<Rightarrow> stock \<Rightarrow> rat" where
  "committed c sku target_date st =
     (let target = (case target_date of Some t \<Rightarrow> t | None \<Rightarrow> today c) in
      sum_where (\<lambda>h. ho_sku h = sku \<and> ho_target h = target \<and> hold_active (now_at c) h) ho_quantity (holds st))"

definition list_quants :: "clock \<Rightarrow> string option \<Rightarrow> string option \<Rightarrow> bool \<Rightarrow> bool \<Rightarrow> stock \<Rightarrow> quant list" where
  "list_quants c sku pos include_future include_empty st =
     filter (\<lambda>q. (case sku of None \<Rightarrow> True | Some s \<Rightarrow> qu_sku q = s) \<and>
                 (case pos of None \<Rightarrow> True | Some p \<Rightarrow> qu_position q = Some p) \<and>
                 (include_future \<or> (case qu_target q of None \<Rightarrow> True | Some d \<Rightarrow> d \<le> today c)) \<and>
                 (include_empty \<or> qu_quantity q > 0)) (quants st)"

section \<open>The day on the shelf\<close>

record shelf_day =
  sd_date :: int
  sd_opening :: rat
  sd_received :: rat
  sd_sold :: rat
  sd_discarded :: rat
  sd_first_in_at :: "int option"
  sd_soldout_at :: "int option"

definition sd_had_stock :: "shelf_day \<Rightarrow> bool" where
  "sd_had_stock d \<longleftrightarrow> sd_opening d > 0 \<or> sd_received d > 0"

definition sd_closing :: "shelf_day \<Rightarrow> rat" where
  "sd_closing d = sd_opening d + sd_received d - sd_sold d - sd_discarded d"

text \<open>One turn of the loop; the first component is the running balance.\<close>

definition shelf_turn :: "rat \<times> shelf_day \<Rightarrow> int \<times> rat \<times> move_kind \<Rightarrow> rat \<times> shelf_day" where
  "shelf_turn bd m =
     (case (bd, m) of ((balance, d), (stamp, delta, k)) \<Rightarrow>
      let d1 =
        (if delta > 0
         then d\<lparr>sd_received := sd_received d + delta,
                sd_first_in_at := (case sd_first_in_at d of None \<Rightarrow> Some stamp | Some t \<Rightarrow> Some t),
                sd_soldout_at := None\<rparr>
         else if k = Sell_move then d\<lparr>sd_sold := sd_sold d + (- delta)\<rparr>
         else d\<lparr>sd_discarded := sd_discarded d + (- delta)\<rparr>);
          balance' = balance + delta in
      (balance',
       if balance' \<le> 0 \<and> sd_soldout_at d1 = None \<and> k = Sell_move \<and> sd_had_stock d1
       then d1\<lparr>sd_soldout_at := Some stamp\<rparr> else d1))"

definition shelf_day_of :: "int \<Rightarrow> rat \<Rightarrow> (int \<times> rat \<times> move_kind) list \<Rightarrow> shelf_day" where
  "shelf_day_of day opening ms =
     snd (foldl shelf_turn (opening, \<lparr>sd_date = day, sd_opening = opening, sd_received = 0, sd_sold = 0,
            sd_discarded = 0, sd_first_in_at = None, sd_soldout_at = None\<rparr>) ms)"

text \<open>
  The days of one SKU from \<open>day\<close> on; \<open>moves_on\<close> gives the moves of a day in order, and the
  balance passes from the closing of a day to the opening of the next.
\<close>

fun shelf_days :: "(int \<Rightarrow> (int \<times> rat \<times> move_kind) list) \<Rightarrow> int \<Rightarrow> nat \<Rightarrow> rat \<Rightarrow> (int \<times> shelf_day) list" where
  "shelf_days moves_on day 0 balance = []"
| "shelf_days moves_on day (Suc n) balance =
     (let d = shelf_day_of day balance (moves_on day) in
      (day, d) # shelf_days moves_on (day + 1) n (sd_closing d))"

definition on_shelf :: "stock \<Rightarrow> string \<Rightarrow> nat \<Rightarrow> bool" where
  "on_shelf st sku qid \<longleftrightarrow>
     (case row_get qu_id qid (quants st) of None \<Rightarrow> False
      | Some q \<Rightarrow> qu_sku q = sku \<and> qu_target q = None \<and>
          (case position_of st q of None \<Rightarrow> False | Some p \<Rightarrow> po_is_saleable p))"

definition shelf_history ::
  "clock \<Rightarrow> string list \<Rightarrow> int \<Rightarrow> int \<Rightarrow> stock \<Rightarrow> (string \<times> (int \<times> shelf_day) list) list" where
  "shelf_history c skus since until st =
     (if skus = [] \<or> since > until then []
      else if \<not> (\<exists>q \<in> set (quants st). \<exists>s \<in> set skus. on_shelf st s (qu_id q)) then []
      else
        map (\<lambda>s.
          let opening = sum_where (\<lambda>m. on_shelf st s (mv_quant m) \<and> day_of c (mv_at m) < since) mv_delta (moves st);
              window = sort_key mv_at (filter (\<lambda>m. on_shelf st s (mv_quant m) \<and>
                         since \<le> day_of c (mv_at m) \<and> day_of c (mv_at m) \<le> until) (moves st));
              moves_on = (\<lambda>d. map (\<lambda>m. (mv_at m, mv_delta m, mv_kind m))
                                (filter (\<lambda>m. day_of c (mv_at m) = d) window)) in
          (s, shelf_days moves_on since (nat (until - since + 1)) opening)) skus)"

section \<open>Properties\<close>

lemma sum_where_list: "sum_list (map f (filter P rs)) = sum_where P f rs"
  by (simp add: sum_where_def)

text \<open>Asking for many SKUs at once gives each SKU the same number as asking for it alone,
  provided no quant of it carries the reference of an expired lot of another of the SKUs
  asked (a quant names its lot by text, and the batch query excludes by that text alone).\<close>

theorem available_many_is_available:
  assumes "sku \<in> set skus"
    "\<forall>q \<in> set (quants st). \<forall>b \<in> set (batches st). qu_sku q = sku \<and> qu_batch q = ba_ref b \<longrightarrow> ba_sku b = sku"
  shows "map_of (available_many c cat skus target pos st) sku = Some (available c cat (By_sku sku) target pos None st)"
proof -
  define t where "t = (case target of Some t \<Rightarrow> t | None \<Rightarrow> today c)"
  define shelf where "shelf = shelf_life_days_for cat sku"
  let ?expired = "concat (map (\<lambda>s. expired_batch_refs s t (batches st)) (uniq skus))"
  have ne: "uniq skus \<noteq> []" using assms(1) by (metis empty_iff list.set(1) set_uniq)
  have exp: "qu_batch q \<in> set ?expired \<longleftrightarrow> qu_batch q \<in> set (expired_batch_refs sku t (batches st))"
    if "q \<in> set (quants st)" "qu_sku q = sku" for q
    using that assms by (fastforce simp: expired_batch_refs_def)
  have shelf: "query_shelf cat (By_sku sku) None = shelf" by (simp add: query_shelf_def profile_shelf shelf_def)
  have "sum_where (\<lambda>q. qu_sku q = sku \<and> (case qu_target q of None \<Rightarrow> True | Some d \<Rightarrow> d \<le> t) \<and>
                          (case pos of None \<Rightarrow> True | Some x \<Rightarrow> qu_position q = Some x) \<and>
                          qu_batch q \<notin> set ?expired \<and>
                          (case shelf_life_days_for cat (qu_sku q) of None \<Rightarrow> True
                           | Some days \<Rightarrow>
                               (case qu_target q of None \<Rightarrow> day_of c (qu_created_at q) | Some d \<Rightarrow> d)
                                 \<ge> t - days)) qu_quantity (quants st)
      = sum_where (\<lambda>q. qu_sku q = sku \<and> (case pos of None \<Rightarrow> True | Some x \<Rightarrow> qu_position q = Some x) \<and>
          is_valid_for_date c q shelf t \<and> qu_batch q \<notin> set (expired_batch_refs sku t (batches st)))
        qu_quantity (quants st)"
    using exp by (intro sum_where_cong) (auto simp: is_valid_for_date_def shelf_def Let_def split: option.splits)
  moreover have flt: "filter (\<lambda>q. qu_batch q \<notin> set (expired_batch_refs sku t (batches st)))
      (filter_valid_quants c shelf t
        (case pos of None \<Rightarrow> filter (\<lambda>q. qu_sku q = sku) (quants st)
         | Some x \<Rightarrow> filter (\<lambda>q. qu_position q = Some x) (filter (\<lambda>q. qu_sku q = sku) (quants st)))) =
      filter (\<lambda>q. qu_sku q = sku \<and> (case pos of None \<Rightarrow> True | Some x \<Rightarrow> qu_position q = Some x) \<and>
          is_valid_for_date c q shelf t \<and> qu_batch q \<notin> set (expired_batch_refs sku t (batches st))) (quants st)"
    by (cases pos) (auto simp: filter_valid_iff intro!: filter_cong)
  ultimately show ?thesis
    using ne assms(1)
    by (simp add: available_many_def available_def Let_def map_of_map_fun shelf t_def [symmetric] sum_where_def)
qed

theorem available_many_is_available_witness:
  "map_of (available_many bakery_clock bakery_catalogue [''leite'', ''pao''] (Some 10) None bakery) ''pao'' =
     Some (available bakery_clock bakery_catalogue (By_sku ''pao'') (Some 10) None None bakery)"
proof -
  have "\<forall>q \<in> set (quants bakery). \<forall>b \<in> set (batches bakery). qu_sku q = ''pao'' \<and> qu_batch q = ba_ref b \<longrightarrow> ba_sku b = ''pao''"
    by (simp add: bakery_defs)
  with _ show ?thesis by (rule available_many_is_available) simp
qed

lemma sum_list_mset_eq:
  fixes f :: "'r \<Rightarrow> 'a::comm_monoid_add"
  shows "mset xs = mset ys \<Longrightarrow> sum_list (map f xs) = sum_list (map f ys)"
  by (metis mset_map sum_mset_sum_list)

lemma shelf_turn_balance:
  "fst bd = sd_closing (snd bd) \<Longrightarrow>
     fst (shelf_turn bd m) = sd_closing (snd (shelf_turn bd m)) \<and>
     fst (shelf_turn bd m) = fst bd + fst (snd m) \<and> sd_opening (snd (shelf_turn bd m)) = sd_opening (snd bd)"
  by (cases bd; cases m) (auto simp: shelf_turn_def sd_closing_def Let_def)

lemma shelf_fold_balance:
  "fst bd = sd_closing (snd bd) \<Longrightarrow>
     fst (foldl shelf_turn bd ms) = sd_closing (snd (foldl shelf_turn bd ms)) \<and>
     fst (foldl shelf_turn bd ms) = fst bd + sum_list (map (\<lambda>m. fst (snd m)) ms) \<and>
     sd_opening (snd (foldl shelf_turn bd ms)) = sd_opening (snd bd)"
proof (induction ms arbitrary: bd)
  case Nil
  then show ?case by simp
next
  case (Cons m ms)
  show ?case using shelf_turn_balance [OF Cons.prems, of m] Cons.IH [of "shelf_turn bd m"] by simp
qed

lemma shelf_day_closing:
  "sd_closing (shelf_day_of day b ms) = b + sum_list (map (\<lambda>m. fst (snd m)) ms)"
  "sd_opening (shelf_day_of day b ms) = b"
  using shelf_fold_balance [of "(b, \<lparr>sd_date = day, sd_opening = b, sd_received = 0, sd_sold = 0,
            sd_discarded = 0, sd_first_in_at = None, sd_soldout_at = None\<rparr>)" ms]
  by (auto simp: shelf_day_of_def sd_closing_def)

lemma shelf_days_nth:
  assumes "k < n"
  shows "\<exists>d. map_of (shelf_days f day n b) (day + int k) = Some d \<and>
    sd_opening d = b + (\<Sum>i<k. sum_list (map (\<lambda>m. fst (snd m)) (f (day + int i)))) \<and>
    sd_closing d = b + (\<Sum>i<Suc k. sum_list (map (\<lambda>m. fst (snd m)) (f (day + int i))))"
  using assms
proof (induction f day n b arbitrary: k rule: shelf_days.induct)
  case (1 f day b)
  then show ?case by simp
next
  case (2 f day n b)
  show ?case
  proof (cases k)
    case 0
    then show ?thesis by (simp add: shelf_day_closing Let_def)
  next
    case (Suc j)
    then obtain d where d: "map_of (shelf_days f (day + 1) n (sd_closing (shelf_day_of day b (f day)))) (day + 1 + int j) = Some d"
      "sd_opening d = sd_closing (shelf_day_of day b (f day)) +
         (\<Sum>i<j. sum_list (map (\<lambda>m. fst (snd m)) (f (day + 1 + int i))))"
      "sd_closing d = sd_closing (shelf_day_of day b (f day)) +
         (\<Sum>i<Suc j. sum_list (map (\<lambda>m. fst (snd m)) (f (day + 1 + int i))))"
      using "2.IH" [OF refl, of j] "2.prems" by auto
    have sh: "(\<Sum>i<Suc m. g (day + int i)) = g day + (\<Sum>i<m. g (day + 1 + int i))" for g :: "int \<Rightarrow> rat" and m
      by (simp only: sum.lessThan_Suc_shift) (simp add: add.assoc)
    show ?thesis
      using d Suc sh [of "\<lambda>x. sum_list (map (\<lambda>m. fst (snd m)) (f x))" j]
        sh [of "\<lambda>x. sum_list (map (\<lambda>m. fst (snd m)) (f x))" "Suc j"]
      by (simp add: Let_def shelf_day_closing add.assoc del: sum.lessThan_Suc)
  qed
qed

text \<open>C36: The shelf history is the ledger: for every SKU asked and every day of the window, the
  opening of the day is the sum of all moves of its saleable physical quants before that day,
  and its closing the sum of all of them up to and including it.\<close>

theorem shelf_history_is_ledger:
  assumes "s \<in> set skus" "q \<in> set (quants st)" "on_shelf st s (qu_id q)" "since \<le> d" "d \<le> until"
  shows "\<exists>days day. map_of (shelf_history c skus since until st) s = Some days \<and> map_of days d = Some day
    \<and> sd_opening day = sum_where (\<lambda>m. on_shelf st s (mv_quant m) \<and> day_of c (mv_at m) < d) mv_delta (moves st)
    \<and> sd_closing day = sum_where (\<lambda>m. on_shelf st s (mv_quant m) \<and> day_of c (mv_at m) \<le> d) mv_delta (moves st)"
proof -
  let ?on = "\<lambda>m. on_shelf st s (mv_quant m)" and ?day = "\<lambda>m. day_of c (mv_at m)"
  let ?win = "sort_key mv_at (filter (\<lambda>m. ?on m \<and> since \<le> ?day m \<and> ?day m \<le> until) (moves st))"
  let ?f = "\<lambda>d. map (\<lambda>m. (mv_at m, mv_delta m, mv_kind m)) (filter (\<lambda>m. ?day m = d) ?win)"
  let ?open = "sum_where (\<lambda>m. ?on m \<and> ?day m < since) mv_delta (moves st)"
  have f: "sum_list (map (\<lambda>m. fst (snd m)) (?f x)) = sum_where (\<lambda>m. ?on m \<and> ?day m = x) mv_delta (moves st)"
    if "since \<le> x" "x \<le> until" for x
  proof -
    have "mset (filter (\<lambda>m. ?day m = x) ?win) = mset (filter (\<lambda>m. ?on m \<and> ?day m = x) (moves st))"
      using that by (simp add: multiset_eq_iff)
    from sum_list_mset_eq [OF this, of mv_delta] show ?thesis by (simp add: sum_where_def comp_def)
  qed
  have upto: "?open + (\<Sum>i<k. sum_list (map (\<lambda>m. fst (snd m)) (?f (since + int i)))) =
      sum_where (\<lambda>m. ?on m \<and> ?day m < since + int k) mv_delta (moves st)" if "since + int k \<le> until + 1" for k
    using that
  proof (induction k)
    case (Suc k)
    have "sum_where (\<lambda>m. ?on m \<and> ?day m < since + int (Suc k)) mv_delta (moves st) =
        sum_where (\<lambda>m. ?on m \<and> ?day m < since + int k) mv_delta (moves st) +
        sum_where (\<lambda>m. ?on m \<and> ?day m = since + int k) mv_delta (moves st)"
      using sum_where_split [of "\<lambda>m. ?on m \<and> ?day m < since + int (Suc k)" mv_delta "moves st"
          "\<lambda>m. ?day m < since + int k"]
      by (smt (verit, best) of_nat_Suc sum_where_cong)
    then show ?case using Suc f [of "since + int k"] by (simp add: add.assoc)
  qed simp
  define k where "k = nat (d - since)"
  have k: "d = since + int k" "k < nat (until - since + 1)" using assms(4,5) by (auto simp: k_def)
  obtain day where day: "map_of (shelf_days ?f since (nat (until - since + 1)) ?open) d = Some day"
    "sd_opening day = ?open + (\<Sum>i<k. sum_list (map (\<lambda>m. fst (snd m)) (?f (since + int i))))"
    "sd_closing day = ?open + (\<Sum>i<Suc k. sum_list (map (\<lambda>m. fst (snd m)) (?f (since + int i))))"
    using shelf_days_nth [OF k(2), of ?f since ?open] k(1) by auto
  have cl: "sd_closing day = sum_where (\<lambda>m. ?on m \<and> ?day m \<le> d) mv_delta (moves st)"
  proof -
    have eq: "sum_where (\<lambda>m. ?on m \<and> ?day m < since + int (Suc k)) mv_delta (moves st) =
        sum_where (\<lambda>m. ?on m \<and> ?day m \<le> d) mv_delta (moves st)"
      by (rule sum_where_cong) (use k(1) in auto)
    have le: "since + int (Suc k) \<le> until + 1" using k(1) assms(5) by simp
    show ?thesis unfolding day(3) by (rule trans [OF upto [OF le] eq])
  qed
  have op: "sd_opening day = sum_where (\<lambda>m. ?on m \<and> ?day m < d) mv_delta (moves st)"
    unfolding day(2) using upto [of k] assms(5) k(1) by simp
  have "map_of (shelf_history c skus since until st) s =
      Some (shelf_days ?f since (nat (until - since + 1)) ?open)"
  proof -
    have "skus \<noteq> []" "\<not> since > until" "\<exists>q \<in> set (quants st). \<exists>s \<in> set skus. on_shelf st s (qu_id q)"
      using assms by auto
    then show ?thesis using map_of_map_fun [OF assms(1)] by (simp add: shelf_history_def Let_def)
  qed
  then show ?thesis using day(1) op cl by blast
qed

theorem shelf_history_is_ledger_witness:
  "\<exists>days day. map_of (shelf_history bakery_clock [''pao''] 8 10 bakery) ''pao'' = Some days \<and> map_of days 9 = Some day
    \<and> sd_opening day = 0 \<and> sd_closing day = 10"
proof -
  have "bread \<in> set (quants bakery)" "on_shelf bakery ''pao'' (qu_id bread)"
    by (simp_all add: bakery_defs on_shelf_def position_of_def)
  from shelf_history_is_ledger [OF _ this, of "[''pao'']" 8 9 10 bakery_clock]
  show ?thesis by (simp add: bakery_defs on_shelf_def position_of_def)
qed

end
