(* ===== verification/Numerals.thy ===== *)
theory Numerals
  imports Complex_Main Prelude
begin

text \<open>
  Numbers as text: Python's \<open>str\<close> of a natural number, \<open>int(s)\<close>, and the decimals of the
  standard library as a coefficient with a number of decimal places, with their exact sums and
  products, their text and the canonical text that \<open>normalize\<close> gives.
\<close>

section \<open>Integers\<close>

fun nat_text :: "nat \<Rightarrow> string" where
  "nat_text n = (if n < 10 then [char_of (48 + n)] else nat_text (n div 10) @ [char_of (48 + n mod 10)])"

declare nat_text.simps [simp del]

text \<open>Python's \<open>int(s)\<close>: digits with single underscores between them, a sign, outer space.\<close>

definition digit_of :: "char \<Rightarrow> int option" where
  "digit_of ch = (let n = of_char ch :: nat in if 48 \<le> n \<and> n \<le> 57 then Some (int (n - 48)) else None)"

fun digits_value :: "string \<Rightarrow> int \<Rightarrow> bool \<Rightarrow> int option" where
  "digits_value [] acc after_digit = (if after_digit then Some acc else None)"
| "digits_value (ch # cs) acc after_digit =
     (case digit_of ch of
        Some d \<Rightarrow> digits_value cs (10 * acc + d) True
      | None \<Rightarrow> if ch = CHR ''_'' \<and> after_digit then digits_value cs acc False else None)"

definition python_int :: "string \<Rightarrow> int option" where
  "python_int s =
     (case strip s of
        [] \<Rightarrow> None
      | ch # cs \<Rightarrow>
          if ch = CHR ''-'' then map_option uminus (digits_value cs 0 False)
          else if ch = CHR ''+'' then digits_value cs 0 False
          else digits_value (ch # cs) 0 False)"

lemma digit_char:
  assumes "n < 10"
  shows "digit_of (char_of (48 + n)) = Some (int n)"
proof -
  have "of_char (char_of (48 + n) :: char) = (48 + n) mod 256" by (rule of_char_of)
  also have "\<dots> = 48 + n" using assms by (intro mod_less) simp
  finally show ?thesis unfolding digit_of_def Let_def using assms by simp
qed

lemma digits_append:
  "(\<forall>ch \<in> set xs. digit_of ch \<noteq> None) \<Longrightarrow>
     digits_value (xs @ [ch]) acc b = (case digit_of ch of
       Some d \<Rightarrow> map_option (\<lambda>v. 10 * v + d) (if xs = [] then Some acc else digits_value xs acc b)
     | None \<Rightarrow> digits_value (xs @ [ch]) acc b)"
proof (induction xs arbitrary: acc b)
  case Nil
  then show ?case by (cases "digit_of ch") auto
next
  case (Cons x xs)
  then show ?case by (cases "digit_of ch"; cases xs) (auto split: option.splits)
qed

lemma nat_text_digits: "ch \<in> set (nat_text n) \<Longrightarrow> digit_of ch \<noteq> None"
proof (induction n rule: nat_text.induct)
  case (1 n)
  then show ?case
    by (subst (asm) nat_text.simps) (auto simp: digit_char split: if_splits)
qed

lemma nat_text_value: "nat_text n \<noteq> [] \<and> digits_value (nat_text n) 0 False = Some (int n)"
proof (induction n rule: nat_text.induct)
  case (1 n)
  show ?case
  proof (cases "n < 10")
    case True
    then show ?thesis by (subst (1 2) nat_text.simps) (simp add: digit_char)
  next
    case False
    then have ih: "nat_text (n div 10) \<noteq> []" "digits_value (nat_text (n div 10)) 0 False = Some (int (n div 10))"
      using 1 by auto
    have "digits_value (nat_text (n div 10) @ [char_of (48 + n mod 10)]) 0 False = Some (10 * int (n div 10) + int (n mod 10))"
      using digits_append [of "nat_text (n div 10)" "char_of (48 + n mod 10)" 0 False] nat_text_digits ih
      by (auto simp: digit_char)
    moreover have "10 * int (n div 10) + int (n mod 10) = int n"
      by (metis mult_div_mod_eq of_nat_add of_nat_mult of_nat_numeral)
    ultimately show ?thesis using False by (subst (1 2) nat_text.simps) simp
  qed
qed

lemma digit_not_special:
  "digit_of ch \<noteq> None \<Longrightarrow> \<not> is_space ch \<and> ch \<noteq> CHR '':'' \<and> ch \<noteq> CHR ''-'' \<and> ch \<noteq> CHR ''+''"
  by (auto simp: digit_of_def is_space_def Let_def split: if_splits)

section \<open>Decimals\<close>

text \<open>
  \<open>Dec c p\<close> is \<open>c / 10 ^ p\<close> written with \<open>p\<close> places. Up to six places \<open>str\<close> writes it without an
  exponent; the columns of the application have three or four.
\<close>

datatype decimal = Dec (dec_coef: int) (dec_places: nat)

definition dec_val :: "decimal \<Rightarrow> rat" where
  "dec_val d = of_int (dec_coef d) / 10 ^ dec_places d"

definition dec_add :: "decimal \<Rightarrow> decimal \<Rightarrow> decimal" where
  "dec_add a b = (let p = max (dec_places a) (dec_places b) in
     Dec (dec_coef a * 10 ^ (p - dec_places a) + dec_coef b * 10 ^ (p - dec_places b)) p)"

definition dec_neg :: "decimal \<Rightarrow> decimal" where
  "dec_neg a = Dec (- dec_coef a) (dec_places a)"

definition dec_sum :: "decimal list \<Rightarrow> decimal" where
  "dec_sum ds = foldl dec_add (Dec 0 0) ds"

definition dec_text :: "decimal \<Rightarrow> string" where
  "dec_text d =
     (let ds = nat_text (nat \<bar>dec_coef d\<bar>);
          padded = replicate (Suc (dec_places d) - length ds) CHR ''0'' @ ds;
          k = length padded - dec_places d in
      (if dec_coef d < 0 then ''-'' else []) @ take k padded
        @ (if dec_places d = 0 then [] else CHR ''.'' # drop k padded))"

text \<open>\<open>format(value.normalize(), "f")\<close>: no zeros at the end of the fraction.\<close>

fun dec_trim :: "int \<Rightarrow> nat \<Rightarrow> decimal" where
  "dec_trim c 0 = Dec c 0"
| "dec_trim c (Suc p) = (if c mod 10 = 0 then dec_trim (c div 10) p else Dec c (Suc p))"

definition dec_wire :: "decimal \<Rightarrow> string" where
  "dec_wire d = dec_text (dec_trim (dec_coef d) (dec_places d))"

text \<open>\<open>Decimal(s)\<close> for plain numerals; \<open>None\<close> is \<open>InvalidOperation\<close>.\<close>

definition dec_read :: "bool \<Rightarrow> string \<Rightarrow> decimal option" where
  "dec_read neg body =
     (let whole = takeWhile (\<lambda>ch. ch \<noteq> CHR ''.'') body;
          frac = drop (Suc (length whole)) body in
      if (\<forall>ch \<in> set (whole @ frac). digit_of ch \<noteq> None)
      then map_option (\<lambda>n. Dec (if neg then - n else n) (length frac)) (digits_value (whole @ frac) 0 False)
      else None)"

definition dec_parse :: "string \<Rightarrow> decimal option" where
  "dec_parse s =
     (case strip s of
        [] \<Rightarrow> None
      | ch # cs \<Rightarrow> if ch = CHR ''-'' then dec_read True cs
                    else if ch = CHR ''+'' then dec_read False cs else dec_read False (ch # cs))"

text \<open>A value of a column of three places, PostgreSQL's rounding of a value written to it (half away
  from zero), and \<open>quantize\<close> (half to even).\<close>

definition column3 :: "rat \<Rightarrow> rat" where
  "column3 r = (if r < 0 then - (of_int \<lfloor>- r * 1000 + 1 / 2\<rfloor> / 1000) else of_int \<lfloor>r * 1000 + 1 / 2\<rfloor> / 1000)"

definition dec3 :: "rat \<Rightarrow> decimal" where
  "dec3 r = Dec \<lfloor>r * 1000\<rfloor> 3"

definition round_even :: "rat \<Rightarrow> int" where
  "round_even s = (let f = \<lfloor>s\<rfloor>; d = s - of_int f in
     if d < 1 / 2 then f else if 1 / 2 < d then f + 1 else if f mod 2 = 0 then f else f + 1)"

definition half_even :: "nat \<Rightarrow> rat \<Rightarrow> decimal" where
  "half_even n r = Dec (round_even (r * 10 ^ n)) n"

text \<open>
  The result of a quotient or a product in the default context: 28 significant digits, half to
  even. \<open>magnitude\<close> is the exponent of the leading digit of a positive number.
\<close>

definition magnitude :: "rat \<Rightarrow> int" where
  "magnitude a = (let (p, q) = quotient_of a;
       d = int (length (nat_text (nat p))) - int (length (nat_text (nat q))) in
     if 10 powi d \<le> a then d else d - 1)"

definition context28 :: "rat \<Rightarrow> rat" where
  "context28 r = (if r = 0 then 0 else
     let k = 10 powi (27 - magnitude \<bar>r\<bar>) in of_int (round_even (r * k)) / k)"

lemma dec_val_simps [simp]: "dec_val (Dec c 0) = of_int c" "dec_val (Dec 0 p) = 0"
  by (simp_all add: dec_val_def)

lemma dec_val_add [simp]: "dec_val (dec_add a b) = dec_val a + dec_val b"
proof -
  have split: "(10::rat) ^ p = 10 ^ (p - q) * 10 ^ q" if "q \<le> p" for p q :: nat
    using that by (simp flip: power_add)
  let ?p = "max (dec_places a) (dec_places b)"
  have "dec_val a = of_int (dec_coef a * 10 ^ (?p - dec_places a)) / 10 ^ ?p"
    using split [of "dec_places a" ?p] by (simp add: dec_val_def)
  moreover have "dec_val b = of_int (dec_coef b * 10 ^ (?p - dec_places b)) / 10 ^ ?p"
    using split [of "dec_places b" ?p] by (simp add: dec_val_def)
  ultimately show ?thesis
    by (simp add: dec_add_def Let_def dec_val_def [of "Dec _ _"] add_divide_distrib)
qed

lemma dec_val_neg [simp]: "dec_val (dec_neg a) = - dec_val a"
  by (simp add: dec_neg_def dec_val_def)

lemma dec_val_sum [simp]: "dec_val (dec_sum ds) = sum_list (map dec_val ds)"
proof -
  have "dec_val (foldl dec_add a ds) = dec_val a + sum_list (map dec_val ds)" for a
    by (induction ds arbitrary: a) (simp_all add: algebra_simps)
  then show ?thesis by (simp add: dec_sum_def)
qed

lemma column3_same: "r * 1000 \<in> \<int> \<Longrightarrow> column3 r = r"
proof -
  assume "r * 1000 \<in> \<int>"
  then obtain k where k: "r * 1000 = of_int k" by (auto elim: Ints_cases)
  then have r: "r = of_int k / 1000" by (simp add: field_simps)
  have "\<lfloor>of_int k + 1 / 2 :: rat\<rfloor> = k" "\<lfloor>- of_int k + 1 / 2 :: rat\<rfloor> = - k" by linarith+
  then show ?thesis by (simp add: column3_def r)
qed

lemma column3_column [simp]: "column3 (column3 r) = column3 r"
  by (rule column3_same) (simp add: column3_def)

lemma dec3_column [simp]: "dec_val (dec3 (column3 r)) = column3 r"
proof -
  have "column3 r * 1000 \<in> \<int>" by (simp add: column3_def)
  then obtain k where "column3 r * 1000 = of_int k" by (auto elim: Ints_cases)
  then have "\<lfloor>column3 r * 1000\<rfloor> = k" "column3 r = of_int k / 1000" by (simp_all add: field_simps)
  then show ?thesis by (simp add: dec3_def dec_val_def)
qed

text \<open>The digits are computed on integers.\<close>

definition int_text :: "int \<Rightarrow> string" where
  "int_text i = nat_text (nat i)"

definition digit_ch :: "int \<Rightarrow> char" where
  "digit_ch d = (if d = 1 then CHR ''1'' else if d = 2 then CHR ''2'' else if d = 3 then CHR ''3''
     else if d = 4 then CHR ''4'' else if d = 5 then CHR ''5'' else if d = 6 then CHR ''6'' else if d = 7 then CHR ''7''
     else if d = 8 then CHR ''8'' else if d = 9 then CHR ''9'' else CHR ''0'')"

lemma digit_ch: "(n::nat) < 10 \<Longrightarrow> char_of (48 + n) = digit_ch (int n)"
proof -
  assume "n < 10"
  then have "n = 0 \<or> n = 1 \<or> n = 2 \<or> n = 3 \<or> n = 4 \<or> n = 5 \<or> n = 6 \<or> n = 7 \<or> n = 8 \<or> n = 9" by presburger
  then show ?thesis by (auto simp: digit_ch_def char_of_def bit_0)
qed

lemma int_text_code [code]:
  "int_text i = (if i < 10 then [digit_ch (max 0 i)] else int_text (i div 10) @ [digit_ch (i mod 10)])"
proof -
  have "nat i mod 10 < 10" by simp
  then show ?thesis
    by (subst (1) int_text_def, subst nat_text.simps)
       (auto simp: int_text_def digit_ch nat_div_distrib max_def zmod_int)
qed

lemma dec_text_code [code]:
  "dec_text d =
     (let ds = int_text \<bar>dec_coef d\<bar>;
          padded = replicate (Suc (dec_places d) - length ds) CHR ''0'' @ ds;
          k = length padded - dec_places d in
      (if dec_coef d < 0 then ''-'' else []) @ take k padded
        @ (if dec_places d = 0 then [] else CHR ''.'' # drop k padded))"
  by (simp add: dec_text_def int_text_def)

lemma magnitude_code [code]:
  "magnitude a = (let (p, q) = quotient_of a; d = int (length (int_text p)) - int (length (int_text q)) in
     if 10 powi d \<le> a then d else d - 1)"
  by (simp add: magnitude_def int_text_def)

section \<open>The text of a decimal\<close>

lemma digits_zero: "digits_value (replicate n CHR ''0'' @ ds) 0 b = digits_value ds 0 (b \<or> 0 < n)"
  by (induction n arbitrary: b) (simp_all add: digit_of_def)

lemma digits_flag: "ds \<noteq> [] \<Longrightarrow> \<forall>ch \<in> set ds. digit_of ch \<noteq> None \<Longrightarrow> digits_value ds acc b = digits_value ds acc b'"
  by (cases ds) (auto split: option.splits)

definition padded_digits :: "decimal \<Rightarrow> string" where
  "padded_digits d = replicate (Suc (dec_places d) - length (nat_text (nat \<bar>dec_coef d\<bar>))) CHR ''0''
     @ nat_text (nat \<bar>dec_coef d\<bar>)"

lemma padded_digits:
  "\<forall>ch \<in> set (padded_digits d). digit_of ch \<noteq> None" "dec_places d < length (padded_digits d)"
  "digits_value (padded_digits d) 0 False = Some \<bar>dec_coef d\<bar>"
proof -
  have z: "digit_of CHR ''0'' \<noteq> None" by (simp add: digit_of_def)
  show "\<forall>ch \<in> set (padded_digits d). digit_of ch \<noteq> None"
    using nat_text_digits z by (auto simp: padded_digits_def)
  show "dec_places d < length (padded_digits d)" by (simp add: padded_digits_def)
  have v: "nat_text n \<noteq> []" "digits_value (nat_text n) 0 False = Some (int n)" for n
    using nat_text_value by blast+
  show "digits_value (padded_digits d) 0 False = Some \<bar>dec_coef d\<bar>"
    unfolding padded_digits_def digits_zero
    using digits_flag [of "nat_text (nat \<bar>dec_coef d\<bar>)" 0 _ False] v nat_text_digits by simp
qed

lemma strip_no_space: "\<forall>ch \<in> set s. \<not> is_space ch \<Longrightarrow> strip s = s"
proof -
  assume a: "\<forall>ch \<in> set s. \<not> is_space ch"
  have same: "dropWhile is_space t = t" if "\<forall>ch \<in> set t. \<not> is_space ch" for t
    using that by (cases t) simp_all
  from same [OF a] same [of "rev s"] a show ?thesis by (simp add: strip_def)
qed

lemma dec_read_digits:
  assumes "\<forall>ch \<in> set ds. digit_of ch \<noteq> None" "p < length ds" "digits_value ds 0 False = Some n"
  shows "dec_read neg (take (length ds - p) ds @ (if p = 0 then [] else CHR ''.'' # drop (length ds - p) ds))
    = Some (Dec (if neg then - n else n) p)"
proof -
  let ?w = "take (length ds - p) ds" and ?f = "drop (length ds - p) ds"
  let ?body = "?w @ (if p = 0 then [] else CHR ''.'' # ?f)"
  have "ch \<noteq> CHR ''.''" if "ch \<in> set ?w" for ch
    using that assms(1) in_set_takeD by (fastforce simp: digit_of_def)
  then have "takeWhile (\<lambda>ch. ch \<noteq> CHR ''.'') ?body = ?w" by (simp add: takeWhile_append2)
  moreover have "drop (Suc (length ?w)) ?body = ?f" using assms(2) by simp
  moreover have "?w @ ?f = ds" "length ?f = p" using assms(2) by simp_all
  ultimately show ?thesis using assms(1,3) by (simp only: dec_read_def Let_def) simp
qed

lemma dec_parse_text: "dec_parse (dec_text d) = Some d"
proof -
  let ?ds = "padded_digits d" and ?p = "dec_places d"
  let ?body = "take (length ?ds - ?p) ?ds @ (if ?p = 0 then [] else CHR ''.'' # drop (length ?ds - ?p) ?ds)"
  note P = padded_digits [of d]
  have shape: "dec_text d = (if dec_coef d < 0 then ''-'' else []) @ ?body"
    by (simp add: dec_text_def padded_digits_def Let_def)
  have plain: "\<not> is_space ch \<and> ch \<noteq> CHR ''-'' \<and> ch \<noteq> CHR ''+''" if "ch \<in> set ?ds" for ch
    using digit_not_special P(1) that by blast
  have "\<forall>ch \<in> set (dec_text d). \<not> is_space ch"
    unfolding shape using plain by (auto simp: is_space_def dest: in_set_takeD in_set_dropD)
  then have st: "strip (dec_text d) = dec_text d" by (rule strip_no_space)
  have "?ds \<noteq> []" "length ?ds - ?p \<noteq> 0" using P(2) by auto
  then obtain ch cs where ds: "?ds = ch # cs" and k: "length ?ds - ?p = Suc (length ?ds - ?p - 1)"
    by (cases ?ds) auto
  then obtain bs where body: "?body = ch # bs" by (metis append_Cons take_Suc_Cons)
  have hd: "ch \<noteq> CHR ''-''" "ch \<noteq> CHR ''+''" using plain ds by simp_all
  have r: "dec_read neg (ch # bs) = Some (Dec (if neg then - \<bar>dec_coef d\<bar> else \<bar>dec_coef d\<bar>) ?p)" for neg
    using dec_read_digits [OF P, of neg] unfolding body .
  show ?thesis
  proof (cases "dec_coef d < 0")
    case True
    then have "dec_text d = CHR ''-'' # ch # bs" using shape body by simp
    with st r [of True] True show ?thesis by (cases d) (simp add: dec_parse_def)
  next
    case False
    then have "dec_text d = ch # bs" using shape body by simp
    with st r [of False] False hd show ?thesis by (cases d) (simp add: dec_parse_def)
  qed
qed

text \<open>Two decimals have the same canonical text exactly when they have the same value.\<close>

lemma dec_trim_val: "dec_val (dec_trim c p) = of_int c / 10 ^ p"
proof (induction c p rule: dec_trim.induct)
  case (2 c p)
  show ?case
  proof (cases "c mod 10 = 0")
    case True
    then have "c = 10 * (c div 10)" by presburger
    then have "(of_int c :: rat) = 10 * of_int (c div 10)" by (metis of_int_mult of_int_numeral)
    then show ?thesis using 2 True by simp
  qed (simp add: dec_val_def)
qed (simp add: dec_val_def)

lemma dec_trim_canonical: "dec_places (dec_trim c p) = 0 \<or> dec_coef (dec_trim c p) mod 10 \<noteq> 0"
  by (induction c p rule: dec_trim.induct) auto

lemma canonical_less:
  assumes "dec_val d = dec_val e" "dec_places e = 0 \<or> dec_coef e mod 10 \<noteq> 0"
  shows "dec_places e \<le> dec_places d"
proof (rule ccontr)
  assume n: "\<not> dec_places e \<le> dec_places d"
  then obtain k where k: "dec_places e = dec_places d + Suc k" using less_imp_Suc_add by fastforce
  from assms(1) have "(of_int (dec_coef e) :: rat) = of_int (dec_coef d) * 10 ^ Suc k"
    by (simp add: dec_val_def k power_add field_simps)
  then have "dec_coef e = dec_coef d * 10 ^ Suc k" by (metis of_int_eq_iff of_int_mult of_int_numeral of_int_power)
  then have "dec_coef e mod 10 = 0" by simp
  with assms(2) n show False by simp
qed

lemma dec_wire_iff: "dec_wire d = dec_wire e \<longleftrightarrow> dec_val d = dec_val e"
proof
  let ?d = "dec_trim (dec_coef d) (dec_places d)" and ?e = "dec_trim (dec_coef e) (dec_places e)"
  have v: "dec_val ?d = dec_val d" "dec_val ?e = dec_val e" by (simp_all add: dec_trim_val) (simp_all add: dec_val_def)
  show "dec_val d = dec_val e" if "dec_wire d = dec_wire e"
  proof -
    from that have "dec_parse (dec_text ?d) = dec_parse (dec_text ?e)" by (simp add: dec_wire_def)
    then show ?thesis using v by (simp add: dec_parse_text)
  qed
  show "dec_wire d = dec_wire e" if "dec_val d = dec_val e"
  proof -
    from that v have eq: "dec_val ?d = dec_val ?e" by simp
    from canonical_less [OF eq] canonical_less [OF eq [symmetric]] dec_trim_canonical
    have p: "dec_places ?d = dec_places ?e" by (metis le_antisym)
    with eq have "dec_coef ?d = dec_coef ?e" by (simp add: dec_val_def)
    with p have "?d = ?e" by (metis decimal.expand)
    then show ?thesis by (simp add: dec_wire_def)
  qed
qed

section \<open>The default context\<close>

lemma nat_text_length: "10 ^ (length (nat_text n) - 1) \<le> n \<or> n = 0" "n < 10 ^ length (nat_text n)"
proof (induction n rule: nat_text.induct)
  case (1 n)
  have len: "length (nat_text n) = (if n < 10 then 1 else Suc (length (nat_text (n div 10))))"
    by (subst nat_text.simps) simp
  have pos: "0 < length (nat_text (n div 10))" using nat_text_value by blast
  case 1
  have "10 ^ length (nat_text (n div 10)) \<le> n" if "\<not> n < 10"
  proof -
    from that \<open>\<not> n < 10 \<Longrightarrow> 10 ^ (length (nat_text (n div 10)) - 1) \<le> n div 10 \<or> n div 10 = 0\<close>
    have "10 ^ (length (nat_text (n div 10)) - 1) \<le> n div 10" by auto
    then have "10 * 10 ^ (length (nat_text (n div 10)) - 1) \<le> n" by linarith
    with pos show ?thesis by (simp flip: power_Suc)
  qed
  with len show ?case by auto
  case 2
  have "n < 10 * 10 ^ length (nat_text (n div 10))" if "\<not> n < 10"
  proof -
    from that have "n div 10 < 10 ^ length (nat_text (n div 10))"
      using \<open>\<not> n < 10 \<Longrightarrow> n div 10 < 10 ^ length (nat_text (n div 10))\<close> by simp
    then show ?thesis by linarith
  qed
  with len show ?case by auto
qed

lemma magnitude_le: "0 < a \<Longrightarrow> 10 powi magnitude a \<le> a"
proof -
  assume a: "0 < a"
  obtain p q where pq: "quotient_of a = (p, q)" by (cases "quotient_of a")
  have q: "0 < q" using quotient_of_denom_pos [OF pq] .
  have a_eq: "a = of_int p / of_int q" using quotient_of_div [OF pq] .
  with a q have p: "0 < p" by (simp add: zero_less_divide_iff)
  let ?P = "length (nat_text (nat p))" and ?Q = "length (nat_text (nat q))"
  have P0: "0 < ?P" using nat_text_value by blast
  have "10 ^ (?P - 1) \<le> nat p" using nat_text_length(1) [of "nat p"] p by auto
  then have lo: "(10::rat) ^ (?P - 1) \<le> of_int p"
    by (metis (mono_tags) of_nat_le_iff of_nat_nat of_nat_numeral of_nat_power p less_imp_le of_int_of_nat_eq)
  have "nat q < 10 ^ ?Q" by (rule nat_text_length)
  then have hi: "of_int q \<le> (10::rat) ^ ?Q"
    by (metis (mono_tags) of_nat_le_iff of_nat_nat of_nat_numeral of_nat_power q less_imp_le of_int_of_nat_eq)
  obtain n where n: "?P = Suc n" using P0 gr0_implies_Suc by blast
  have "(10::rat) powi (int ?P - int ?Q - 1) = 10 ^ (?P - 1) / 10 ^ ?Q"
    unfolding n by (simp add: power_int_diff)
  also have "\<dots> \<le> a" unfolding a_eq using lo hi q p by (intro frac_le) auto
  finally show ?thesis by (simp add: magnitude_def pq Let_def)
qed

lemma round_even_error: "\<bar>of_int (round_even s) - s\<bar> \<le> 1 / 2"
proof -
  have f: "of_int \<lfloor>s\<rfloor> \<le> s" "s < of_int \<lfloor>s\<rfloor> + 1" by linarith+
  then show ?thesis by (auto simp: round_even_def Let_def abs_le_iff)
qed

lemma context28_error: "\<bar>context28 r - r\<bar> \<le> \<bar>r\<bar> / (2 * 10 ^ 27)"
proof (cases "r = 0")
  case False
  let ?k = "10 powi (27 - magnitude \<bar>r\<bar>) :: rat"
  have k: "0 < ?k" by simp
  have "?k * 10 powi magnitude \<bar>r\<bar> = (10 ^ 27 :: rat)" by (simp flip: power_int_add)
  moreover have "?k * 10 powi magnitude \<bar>r\<bar> \<le> ?k * \<bar>r\<bar>"
    using magnitude_le [of "\<bar>r\<bar>"] False k by (intro mult_left_mono) auto
  ultimately have big: "10 ^ 27 \<le> ?k * \<bar>r\<bar>" by linarith
  have "context28 r - r = (of_int (round_even (r * ?k)) - r * ?k) / ?k"
    using False k by (simp add: context28_def Let_def diff_divide_distrib)
  then have "\<bar>context28 r - r\<bar> = \<bar>of_int (round_even (r * ?k)) - r * ?k\<bar> / ?k" using k by simp
  also have "\<dots> \<le> (1 / 2) / ?k" using round_even_error k by (intro divide_right_mono) auto
  also have "\<dots> \<le> \<bar>r\<bar> / (2 * 10 ^ 27)" using big k by (simp add: field_simps)
  finally show ?thesis .
qed (simp add: context28_def)

lemma context28_pos: "0 < r \<Longrightarrow> 0 < context28 r"
proof -
  assume r: "0 < r"
  have "r / (2 * 10 ^ 27) < r" using r by (simp add: field_simps)
  then show ?thesis using context28_error [of r] r by linarith
qed

lemma context28_zero [simp]: "context28 0 = 0"
  by (simp add: context28_def)

lemma round_even_int [simp]: "round_even (of_int n) = n"
  by (simp add: round_even_def)

text \<open>Short numbers are exact; this is also how they are computed.\<close>

lemma context28_exact:
  assumes "of_int n = r * 10 ^ 6" "\<bar>r\<bar> < 10 ^ 21"
  shows "context28 r = r"
proof (cases "r = 0")
  case False
  have "(10::rat) powi magnitude \<bar>r\<bar> < 10 powi 21" using magnitude_le [of "\<bar>r\<bar>"] False assms(2) by simp
  then have m: "magnitude \<bar>r\<bar> < 21" using power_int_increasing [of 21 "magnitude \<bar>r\<bar>" "10::rat"] by (fastforce simp: not_less [symmetric])
  define j where "j = nat (21 - magnitude \<bar>r\<bar>)"
  have "27 - magnitude \<bar>r\<bar> = int (6 + j)" using m by (simp add: j_def)
  then have k: "10 powi (27 - magnitude \<bar>r\<bar>) = (10::rat) ^ (6 + j)" by (metis power_int_of_nat)
  have "r * 10 ^ (6 + j) = of_int (n * 10 ^ j)" using assms(1) by (simp add: power_add)
  then have "of_int (round_even (r * 10 ^ (6 + j))) = r * 10 ^ (6 + j)" by (metis round_even_int)
  then show ?thesis by (simp add: context28_def Let_def k False)
qed simp

lemma context28_code [code]:
  "context28 r = (if \<bar>r\<bar> < 10 ^ 21 \<and> of_int \<lfloor>r * 10 ^ 6\<rfloor> = r * 10 ^ 6 then r else
     let k = 10 powi (27 - magnitude \<bar>r\<bar>) in of_int (round_even (r * k)) / k)"
  using context28_exact [of "\<lfloor>r * 10 ^ 6\<rfloor>" r] by (auto simp: context28_def)

lemma dec_parse_wire: "\<exists>e. dec_parse (dec_wire d) = Some e \<and> dec_val e = dec_val d"
  by (simp add: dec_wire_def dec_parse_text dec_trim_val) (simp add: dec_val_def)

end
