(* ===== verification/StockHolds.thy ===== *)
theory StockHolds
  imports StockRead Numerals "HOL-Library.List_Lexorder" "HOL-Library.Char_ord" "HOL-Library.Product_Lexorder"
begin

text \<open>
  The life of a hold (\<open>services/holds.py\<close>) and production planning (\<open>services/planning.py\<close>):
  hold, confirm, release, fulfill, the sweep of expired holds, adoption, plan, replan and
  realize.

  \<open>seen\<close> is the state that the queries before a row lock read; another transaction may have
  committed before the lock, and what is decided under the lock reads the current state.
\<close>

section \<open>Hold identifiers\<close>

definition hold_id :: "nat \<Rightarrow> string" where
  "hold_id n = ''hold:'' @ nat_text n"

definition parse_hold_id :: "string \<Rightarrow> stock_error + int" where
  "parse_hold_id s =
     (if take 5 s = ''hold:'' then
        (case python_int (takeWhile (\<lambda>ch. ch \<noteq> CHR '':'') (drop 5 s)) of
           Some n \<Rightarrow> Inr n | None \<Rightarrow> Inl Stk_invalid_hold)
      else Inl Stk_invalid_hold)"

definition find_hold :: "int \<Rightarrow> stock \<Rightarrow> hold option" where
  "find_hold pk st = (if pk < 0 then None else row_get ho_id (nat pk) (holds st))"

definition put_hold :: "hold \<Rightarrow> stock \<Rightarrow> stock" where
  "put_hold h st = st\<lparr>holds := row_put ho_id h (holds st)\<rparr>"

definition locked_hold :: "string \<Rightarrow> stock \<Rightarrow> stock_error + hold" where
  "locked_hold s st =
     ebind (parse_hold_id s) (\<lambda>pk. case find_hold pk st of None \<Rightarrow> Inl Stk_invalid_hold | Some h \<Rightarrow> Inr h)"

section \<open>Creating a hold\<close>

definition grade_key :: string where "grade_key = ''_allowed_quality_grade_refs''"
definition version_key :: string where "version_key = ''_quality_grade_policy_version''"

definition batch_expiry_of :: "batch list \<Rightarrow> quant \<Rightarrow> int option" where
  "batch_expiry_of bs q =
     (case find (\<lambda>b. ba_sku b = qu_sku q \<and> ba_ref b = qu_batch q) bs of None \<Rightarrow> None | Some b \<Rightarrow> ba_expiry b)"

text \<open>First expired, first out; lots without expiry last, then by creation.\<close>

definition fefo_key :: "batch list \<Rightarrow> quant \<Rightarrow> nat \<times> int \<times> int" where
  "fefo_key bs q = (case batch_expiry_of bs q of None \<Rightarrow> (1, 0, qu_created_at q) | Some e \<Rightarrow> (0, e, qu_created_at q))"

definition find_quant_for_hold :: "clock \<Rightarrow> catalogue \<Rightarrow> string \<Rightarrow> int \<Rightarrow> rat \<Rightarrow> stock_scope \<Rightarrow> stock \<Rightarrow> quant option" where
  "find_quant_for_hold c cat sku target n sc st =
     find (\<lambda>q. quant_available (now_at c) q st \<ge> n)
       (sort_key (fefo_key (batches st)) (quants_eligible_for c cat sku target sc st))"

record hold_args =
  ha_target :: "int option"
  ha_expires_at :: "int option"
  ha_actor :: "string option"
  ha_scope :: stock_scope
  ha_margin :: int
  ha_allow_demand :: bool
  ha_metadata :: dict

definition frozen_metadata :: "stock_scope \<Rightarrow> dict \<Rightarrow> dict" where
  "frozen_metadata sc md =
     (let md1 = dset version_key (JNum 1) md in
      case sc_grades sc of None \<Rightarrow> md1
      | Some gs \<Rightarrow> dset grade_key (JList (map JStr (sort (remdups (filter (\<lambda>g. g \<noteq> []) gs))))) md1)"

definition new_hold :: "clock \<Rightarrow> string \<Rightarrow> nat option \<Rightarrow> rat \<Rightarrow> int \<Rightarrow> hold_args \<Rightarrow> dict \<Rightarrow> stock \<Rightarrow> stock \<times> string" where
  "new_hold c sku q n target a md st =
     (let h = \<lparr>ho_id = length (holds st), ho_sku = sku, ho_quant = q, ho_quantity = n, ho_target = target,
               ho_status = Hold_pending, ho_expires_at = ha_expires_at a, ho_actor = ha_actor a,
               ho_created_at = now_at c, ho_resolved_at = None, ho_metadata = md\<rparr> in
      (st\<lparr>holds := holds st @ [h]\<rparr>, hold_id (ho_id h)))"

text \<open>The gate of \<open>hold\<close>: whether it is approved, and the available amount it reports.\<close>

definition hold_gate :: "promise \<Rightarrow> string \<Rightarrow> bool \<Rightarrow> bool \<Rightarrow> rat \<Rightarrow> bool \<times> rat" where
  "hold_gate dec policy is_production allow_demand n =
     (let av = (case pr_ceiling dec of Some x \<Rightarrow> x
                | None \<Rightarrow> (case pr_available_qty dec of Some x \<Rightarrow> x | None \<Rightarrow> 0)) in
      if is_production then (True, av)
      else if pr_is_paused dec then (False, 0)
      else if policy = ''demand_ok'' \<or> allow_demand then (True, av)
      else if policy = ''stock_only'' then (n \<le> pr_available dec, pr_available dec)
      else (pr_approved dec, av))"

definition hold_stock ::
  "clock \<Rightarrow> catalogue \<Rightarrow> stock \<Rightarrow> rat \<Rightarrow> product \<Rightarrow> hold_args \<Rightarrow> stock \<Rightarrow> stock_error + (stock \<times> string)" where
  "hold_stock c cat seen n p a st =
     (if n \<le> 0 then Inl Stk_invalid_quantity
      else
        let md = frozen_metadata (ha_scope a) (ha_metadata a);
            target = (case ha_target a of Some t \<Rightarrow> t | None \<Rightarrow> today c);
            (sku, _, profile_policy) = resolve_stock_profile cat p;
            dec = promise_decision_for_sku c cat sku n (ha_margin a) target (ha_scope a) seen;
            policy = or_text profile_policy (pr_policy dec);
            is_production = (dget md ''purpose'' = Some (JStr ''workorder''));
            (approved, av) = hold_gate dec policy is_production (ha_allow_demand a) n in
        if \<not> approved then Inl (Stk_insufficient_available av)
        else
          let otherwise =
                (if policy = ''demand_ok'' \<or> ha_allow_demand a
                 then Inr (new_hold c sku None n target a md st)
                 else Inl (Stk_insufficient_available av)) in
          case find_quant_for_hold c cat sku target n (ha_scope a) seen of
            None \<Rightarrow> otherwise
          | Some q0 \<Rightarrow>
              ebind (get_pk (qu_id q0) st) (\<lambda>q.
              if quant_available (now_at c) q st \<ge> n
              then Inr (new_hold c sku (Some (qu_id q)) n target a md st) else otherwise))"

section \<open>Confirm, release, fulfill\<close>

definition confirm_hold :: "string \<Rightarrow> string option \<Rightarrow> stock \<Rightarrow> stock_error + (stock \<times> hold)" where
  "confirm_hold s actor st =
     ebind (locked_hold s st) (\<lambda>h.
     if ho_status h \<noteq> Hold_pending then Inl Stk_invalid_status
     else
       let h' = h\<lparr>ho_status := Hold_confirmed,
                  ho_metadata := (case actor of None \<Rightarrow> ho_metadata h
                                  | Some u \<Rightarrow> dset ''confirmed_by'' (JStr u) (ho_metadata h))\<rparr> in
       Inr (put_hold h' st, h'))"

definition release_hold :: "clock \<Rightarrow> string \<Rightarrow> string \<Rightarrow> string option \<Rightarrow> stock \<Rightarrow> stock_error + (stock \<times> hold)" where
  "release_hold c s reason actor st =
     ebind (locked_hold s st) (\<lambda>h.
     if \<not> hold_open (ho_status h) then Inl Stk_invalid_status
     else
       let md = dset ''release_reason'' (JStr reason) (ho_metadata h);
           h' = h\<lparr>ho_status := Hold_released, ho_resolved_at := Some (now_at c),
                  ho_metadata := (case actor of None \<Rightarrow> md | Some u \<Rightarrow> dset ''released_by'' (JStr u) md)\<rparr> in
       Inr (put_hold h' st, h'))"

text \<open>\<open>metadata[version] == 1\<close>; in Python \<open>True == 1\<close>.\<close>

definition policy_frozen :: "dict \<Rightarrow> bool" where
  "policy_frozen md \<longleftrightarrow> dget md version_key \<in> {Some (JNum 1), Some (JBool True)}"

definition frozen_grades :: "dict \<Rightarrow> json option" where
  "frozen_grades md = (case dget md grade_key of None \<Rightarrow> None | Some JNull \<Rightarrow> None | Some v \<Rightarrow> Some v)"

definition grade_in :: "string \<Rightarrow> json \<Rightarrow> bool" where
  "grade_in g v = (case v of JList xs \<Rightarrow> JStr g \<in> set xs | _ \<Rightarrow> False)"

definition fulfill_locked ::
  "clock \<Rightarrow> string option \<Rightarrow> string option \<Rightarrow> rat option \<Rightarrow> move_kind \<Rightarrow> hold \<Rightarrow> quant option \<Rightarrow> stock \<Rightarrow> stock_error + (stock \<times> move)" where
  "fulfill_locked c user actor n k h quant st =
     (if ho_status h \<noteq> Hold_confirmed then Inl Stk_invalid_status
      else if hold_is_expired (now_at c) h then Inl Stk_hold_expired
      else case quant of None \<Rightarrow> Inl Stk_hold_is_demand
      | Some q \<Rightarrow>
        if \<not> policy_frozen (ho_metadata h) then Inl Stk_hold_policy_unknown
        else if (case frozen_grades (ho_metadata h) of None \<Rightarrow> False
                 | Some v \<Rightarrow> qu_batch q \<noteq> [] \<and>
                     (case find (\<lambda>b. ba_sku b = ho_sku h \<and> ba_ref b = qu_batch q) (batches st) of
                        None \<Rightarrow> True | Some b \<Rightarrow> ba_grade b = [] \<or> \<not> grade_in (ba_grade b) v))
        then Inl Stk_ineligible_batch
        else
          let consume = (case n of Some x \<Rightarrow> x | None \<Rightarrow> ho_quantity h);
              m = \<lparr>mv_quant = qu_id q, mv_delta = - consume, mv_kind = k,
                   mv_reason = ''Entrega hold:'' @ nat_text (ho_id h), mv_metadata = [],
                   mv_at = now_at c, mv_user = user\<rparr>;
              by = (case actor of Some u \<Rightarrow> Some u | None \<Rightarrow> user) in
          ebind (save_move m st) (\<lambda>st1.
          let h' = h\<lparr>ho_status := Hold_fulfilled, ho_resolved_at := Some (now_at c),
                     ho_metadata := (case by of None \<Rightarrow> ho_metadata h
                                     | Some u \<Rightarrow> dset ''fulfilled_by'' (JStr u) (ho_metadata h))\<rparr> in
          Inr (put_hold h' st1, m)))"

text \<open>
  The two attempts of \<open>fulfill\<close>: \<open>reads\<close> are the unlocked reads of the hold's quant, one for
  each attempt; an attempt goes on only when the locked hold still has that quant.
\<close>

fun fulfill_attempts ::
  "clock \<Rightarrow> int \<Rightarrow> string option \<Rightarrow> string option \<Rightarrow> rat option \<Rightarrow> move_kind \<Rightarrow> nat option list \<Rightarrow> stock \<Rightarrow> stock_error + (stock \<times> move)" where
  "fulfill_attempts c pk user actor n k [] st = Inl Stk_hold_changed"
| "fulfill_attempts c pk user actor n k (r # rs) st =
     (case find_hold pk st of None \<Rightarrow> Inl Stk_invalid_hold
      | Some h \<Rightarrow>
          ebind (case r of None \<Rightarrow> Inr None | Some q \<Rightarrow> ebind (get_pk q st) (\<lambda>x. Inr (Some x))) (\<lambda>quant.
          if ho_quant h \<noteq> r then fulfill_attempts c pk user actor n k rs st
          else fulfill_locked c user actor n k h quant st))"

definition fulfill_hold ::
  "clock \<Rightarrow> string \<Rightarrow> string option \<Rightarrow> string option \<Rightarrow> rat option \<Rightarrow> move_kind \<Rightarrow> nat option list \<Rightarrow> stock \<Rightarrow> stock_error + (stock \<times> move)" where
  "fulfill_hold c s user actor n k reads st =
     ebind (parse_hold_id s) (\<lambda>pk. fulfill_attempts c pk user actor n k (take 2 reads) st)"

section \<open>Expiry and adoption\<close>

definition expire_hold :: "int \<Rightarrow> hold \<Rightarrow> hold" where
  "expire_hold now h = h\<lparr>ho_status := Hold_released, ho_resolved_at := Some now\<rparr>"

text \<open>One batch of the sweep: the first \<open>cap\<close> expired holds are released. No other
  transaction holds a row lock, so \<open>skip_locked\<close> skips none, and the clock is read once.\<close>

fun release_batch :: "int \<Rightarrow> nat \<Rightarrow> hold list \<Rightarrow> hold list \<times> nat" where
  "release_batch now cap [] = ([], 0)"
| "release_batch now cap (h # hs) =
     (if hold_expired_q now h \<and> cap > 0
      then (let (hs', n) = release_batch now (cap - 1) hs in (expire_hold now h # hs', n + 1))
      else (let (hs', n) = release_batch now cap hs in (h # hs', n)))"

definition expired_count :: "int \<Rightarrow> hold list \<Rightarrow> nat" where
  "expired_count now hs = length (filter (hold_expired_q now) hs)"

lemma release_batch_count: "expired_count now (fst (release_batch now cap hs)) + snd (release_batch now cap hs) = expired_count now hs"
  by (induction now cap hs rule: release_batch.induct)
    (auto simp: expired_count_def split_def Let_def hold_expired_q_def expire_hold_def hold_open_def)

text \<open>The \<open>while True\<close> loop: it stops at the first batch that is empty.\<close>

function release_expired_loop :: "int \<Rightarrow> nat \<Rightarrow> nat \<Rightarrow> hold list \<Rightarrow> hold list \<times> nat" where
  "release_expired_loop now cap done_n hs =
     (let (hs', n) = release_batch now cap hs in
      if n = 0 then (hs, done_n) else release_expired_loop now cap (done_n + n) hs')"
  by pat_completeness auto
termination
proof (relation "measure (\<lambda>(now, cap, done_n, hs). expired_count now hs)")
  fix now cap done_n hs x hs' n
  assume "x = release_batch now cap hs" "(hs', n) = x" "n \<noteq> 0"
  then show "((now, cap, done_n + n, hs'), now, cap, done_n, hs) \<in> measure (\<lambda>(now, cap, done_n, hs). expired_count now hs)"
    using release_batch_count [of now cap hs] by (cases "release_batch now cap hs") auto
qed simp

declare release_expired_loop.simps [simp del]

definition release_expired :: "clock \<Rightarrow> nat \<Rightarrow> stock \<Rightarrow> stock \<times> nat" where
  "release_expired c cap st =
     (let (hs, n) = release_expired_loop (now_at c) cap 0 (holds st) in (st\<lparr>holds := hs\<rparr>, n))"

definition find_by_reference :: "json \<Rightarrow> string \<Rightarrow> hold_status list \<Rightarrow> stock \<Rightarrow> hold list" where
  "find_by_reference reference sku statuses st =
     sort_key ho_id (filter (\<lambda>h. dget (ho_metadata h) ''reference'' = Some reference \<and>
        (sku = [] \<or> ho_sku h = sku) \<and> (statuses = [] \<or> ho_status h \<in> set statuses)) (holds st))"

definition find_active_by_reference :: "clock \<Rightarrow> json \<Rightarrow> stock \<Rightarrow> hold list" where
  "find_active_by_reference c reference st =
     sort_key ho_id (filter (\<lambda>h. dget (ho_metadata h) ''reference'' = Some reference \<and>
        hold_active (now_at c) h) (holds st))"

definition extend_hold :: "clock \<Rightarrow> string \<Rightarrow> int option \<Rightarrow> stock \<Rightarrow> stock_error + (stock \<times> bool)" where
  "extend_hold c s expires st =
     ebind (parse_hold_id s) (\<lambda>pk.
     case find_hold pk st of
       None \<Rightarrow> Inr (st, False)
     | Some h \<Rightarrow> if hold_active (now_at c) h then Inr (put_hold (h\<lparr>ho_expires_at := expires\<rparr>) st, True)
                 else Inr (st, False))"

definition retag_reference :: "clock \<Rightarrow> string \<Rightarrow> json \<Rightarrow> dict \<Rightarrow> stock \<Rightarrow> stock_error + (stock \<times> bool)" where
  "retag_reference c s reference extra st =
     ebind (parse_hold_id s) (\<lambda>pk.
     case find_hold pk st of
       None \<Rightarrow> Inr (st, False)
     | Some h \<Rightarrow>
         if hold_active (now_at c) h
         then Inr (put_hold (h\<lparr>ho_metadata := dmerge (dset ''reference'' reference (ho_metadata h)) extra\<rparr>) st, True)
         else Inr (st, False))"

section \<open>Planning\<close>

definition plan_stock ::
  "clock \<Rightarrow> catalogue \<Rightarrow> rat \<Rightarrow> product \<Rightarrow> int \<Rightarrow> string option \<Rightarrow> string option \<Rightarrow> string \<Rightarrow> dict \<Rightarrow> stock \<Rightarrow> stock \<times> (stock_error + quant)" where
  "plan_stock c cat n p target pos user reason md st =
     receive c cat n (pd_sku p)
       \<lparr>ra_position = pos, ra_target = Some target, ra_batch = [], ra_user = user, ra_reason = reason,
        ra_kind = Adjust_move, ra_metadata = md\<rparr> st"

definition replan_stock ::
  "clock \<Rightarrow> rat \<Rightarrow> product \<Rightarrow> int \<Rightarrow> string \<Rightarrow> string option \<Rightarrow> string option \<Rightarrow> string \<Rightarrow> stock \<Rightarrow> stock_error + (stock \<times> quant)" where
  "replan_stock c n p target reason user pos b st =
     (case get_quant (pd_sku p) pos (Some target) b st of None \<Rightarrow> Inl Stk_quant_not_found
      | Some q \<Rightarrow>
          ebind (adjust c (qu_id q) n reason user st) (\<lambda>(st1, _).
          ebind (get_pk (qu_id q) st1) (\<lambda>q1. Inr (st1, q1))))"

record realize_args =
  re_to_position :: "string option"
  re_from_position :: "string option"
  re_from_batch :: string
  re_user :: "string option"
  re_reason :: string
  re_kind :: move_kind
  re_to_batch :: string
  re_to_grade :: string

definition realize_source :: "string \<Rightarrow> int \<Rightarrow> realize_args \<Rightarrow> stock \<Rightarrow> quant option" where
  "realize_source sku target a st =
     (let pos = re_from_position a; b = re_from_batch a;
          q = get_quant sku pos (Some target) b st;
          q = (if q = None \<and> pos \<noteq> None then get_quant sku None (Some target) b st else q);
          q = (if q = None \<and> b \<noteq> [] then get_quant sku pos (Some target) [] st else q) in
      if q = None \<and> b \<noteq> [] \<and> pos \<noteq> None then get_quant sku None (Some target) [] st else q)"

definition realize_batch :: "catalogue \<Rightarrow> product \<Rightarrow> int \<Rightarrow> realize_args \<Rightarrow> stock \<Rightarrow> stock_error + (stock \<times> string)" where
  "realize_batch cat p target a st =
     (let sku = pd_sku p;
          ref = or_text (re_to_batch a) (daily_batch sku target);
          shelf = (case pd_shelf p of Some d \<Rightarrow> Some d | None \<Rightarrow> shelf_life_days_for cat sku);
          (st1, b, created) = get_or_create_batch
            \<lparr>ba_ref = ref, ba_sku = sku, ba_production = Some target,
             ba_expiry = map_option (\<lambda>d. target + d) shelf, ba_grade = re_to_grade a, ba_markdown = 0\<rparr> st in
      if ba_sku b \<noteq> sku then Inl Stk_batch_sku_conflict
      else if re_to_grade a \<noteq> [] \<and> \<not> created then
        if ba_grade b \<noteq> [] \<and> ba_grade b \<noteq> re_to_grade a then Inl Stk_batch_quality_conflict
        else if ba_grade b = []
        then Inr (st1\<lparr>batches := row_put ba_ref (b\<lparr>ba_grade := re_to_grade a\<rparr>) (batches st1)\<rparr>, ref)
        else Inr (st1, ref)
      else Inr (st1, ref))"

definition hold_priority :: "hold \<Rightarrow> nat \<times> int" where
  "hold_priority h =
     (case dget (ho_metadata h) ''priority'' of
        Some (JNum n) \<Rightarrow> (0, n)
      | Some (JBool b) \<Rightarrow> (0, if b then 1 else 0)
      | Some (JStr s) \<Rightarrow> (case python_int s of Some n \<Rightarrow> (0, n) | None \<Rightarrow> (1, 0))
      | _ \<Rightarrow> (1, 0))"

definition accepts_output_grade :: "string \<Rightarrow> hold \<Rightarrow> bool" where
  "accepts_output_grade grade h =
     (policy_frozen (ho_metadata h) \<and>
      (case frozen_grades (ho_metadata h) of None \<Rightarrow> True | Some v \<Rightarrow> grade \<noteq> [] \<and> grade_in grade v))"

definition realize_pool :: "clock \<Rightarrow> nat \<Rightarrow> string \<Rightarrow> int \<Rightarrow> string \<Rightarrow> hold list \<Rightarrow> hold list" where
  "realize_pool c planned sku target grade hs =
     (let anchored = filter (\<lambda>h. ho_quant h = Some planned \<and> hold_open (ho_status h)) hs;
          floating = filter (\<lambda>h. ho_quant h = None \<and> ho_sku h = sku \<and> ho_target h = target \<and>
                       hold_active (now_at c) h) hs in
      sort_key (\<lambda>h. (hold_priority h, ho_created_at h))
        (filter (accepts_output_grade grade) (anchored @ floating)))"

text \<open>
  The loop over the pool: a hold that still fits moves to the physical quant, and the clock
  of a hold without expiry starts.
\<close>

fun materialize :: "nat \<Rightarrow> int \<Rightarrow> rat \<Rightarrow> hold list \<Rightarrow> rat \<Rightarrow> nat list \<Rightarrow> stock \<Rightarrow> stock \<times> nat list" where
  "materialize phys expires actual [] transferred ids st = (st, ids)"
| "materialize phys expires actual (h # hs) transferred ids st =
     (if transferred \<ge> actual then (st, ids)
      else if transferred + ho_quantity h > actual then materialize phys expires actual hs transferred ids st
      else
        let h' = h\<lparr>ho_quant := Some phys,
                   ho_expires_at := (case ho_expires_at h of None \<Rightarrow> Some expires | Some t \<Rightarrow> Some t)\<rparr> in
        materialize phys expires actual hs (transferred + ho_quantity h) (ids @ [ho_id h]) (put_hold h' st))"

definition realize_stock ::
  "clock \<Rightarrow> catalogue \<Rightarrow> int \<Rightarrow> product \<Rightarrow> int \<Rightarrow> rat \<Rightarrow> realize_args \<Rightarrow> stock \<Rightarrow> stock_error + (stock \<times> quant)" where
  "realize_stock c cat ttl p target actual a st =
     (if actual \<le> 0 then Inl Stk_invalid_quantity
      else let sku = pd_sku p in
        case realize_source sku target a st of None \<Rightarrow> Inl Stk_quant_not_found
        | Some q0 \<Rightarrow>
            ebind (get_pk (qu_id q0) st) (\<lambda>planned.
            ebind (realize_batch cat p target a st) (\<lambda>(st1, ref).
            let (st2, phys) = get_or_create_quant c sku (re_to_position a) None ref [] st1;
                debit = min actual (max (qu_quantity planned) 0) in
            ebind (if debit > 0
                   then save_move \<lparr>mv_quant = qu_id planned, mv_delta = - debit, mv_kind = re_kind a,
                                   mv_reason = ''Transferencia: '' @ re_reason a, mv_metadata = [],
                                   mv_at = now_at c, mv_user = re_user a\<rparr> st2
                   else Inr st2) (\<lambda>st3.
            ebind (save_move \<lparr>mv_quant = qu_id phys, mv_delta = actual, mv_kind = re_kind a,
                              mv_reason = ''Recebido de producao: '' @ re_reason a, mv_metadata = [],
                              mv_at = now_at c, mv_user = re_user a\<rparr> st3) (\<lambda>st4.
            let pool = realize_pool c (qu_id planned) sku target (re_to_grade a) (holds st4);
                (st5, ids) = materialize (qu_id phys) (now_at c + ttl) actual pool 0 [] st4;
                st6 = (if ids \<noteq> [] then st5\<lparr>materialized := materialized st5 @ [(ids, sku, target, re_to_position a)]\<rparr>
                       else st5) in
            ebind (get_pk (qu_id phys) st6) (\<lambda>q. Inr (st6, q)))))))"

end
