(* ===== verification/StockLaws.thy ===== *)
theory StockLaws
  imports StockHolds
begin

text \<open>
  Laws of the stock writers: the invariant of the tables (identifiers, unique coordinates, the
  cached quantity of a quant is the sum of its moves and never negative, every move and hold
  points at a quant), what each operation does to the ledger and to the holds, and what is
  covered: the active holds of a quant never exceed its quantity.
\<close>

named_theorems stock_ops "inversion of the operations of the stock kernel"

section \<open>The invariant\<close>

definition coordinate :: "quant \<Rightarrow> string \<times> string option \<times> int option \<times> string" where
  "coordinate q = (qu_sku q, qu_position q, qu_target q, qu_batch q)"

definition quants_inv :: "quant list \<Rightarrow> move list \<Rightarrow> bool" where
  "quants_inv qs ms \<longleftrightarrow>
     map qu_id qs = [0..<length qs] \<and> distinct (map coordinate qs) \<and>
     (\<forall>q \<in> set qs. qu_quantity q = ledger_sum (qu_id q) ms \<and> 0 \<le> qu_quantity q) \<and>
     (\<forall>m \<in> set ms. mv_quant m < length qs)"

definition holds_inv :: "nat \<Rightarrow> hold list \<Rightarrow> bool" where
  "holds_inv n hs \<longleftrightarrow>
     map ho_id hs = [0..<length hs] \<and>
     (\<forall>h \<in> set hs. 0 < ho_quantity h \<and> (case ho_quant h of None \<Rightarrow> True | Some q \<Rightarrow> q < n))"

definition stock_inv :: "stock \<Rightarrow> bool" where
  "stock_inv st \<longleftrightarrow> quants_inv (quants st) (moves st) \<and> holds_inv (length (quants st)) (holds st) \<and>
     distinct (map ba_ref (batches st))"

definition covered :: "int \<Rightarrow> stock \<Rightarrow> bool" where
  "covered now st \<longleftrightarrow> (\<forall>q \<in> set (quants st). 0 \<le> quant_available now q st)"

lemma stock_inv_init: "stock_inv (stock_init ps)"
  by (simp add: stock_inv_def quants_inv_def holds_inv_def stock_init_def)

section \<open>Moves\<close>

definition bump :: "move \<Rightarrow> quant \<Rightarrow> quant" where
  "bump m q = (if qu_id q = mv_quant m then q\<lparr>qu_quantity := qu_quantity q + mv_delta m\<rparr> else q)"

definition moved :: "move \<Rightarrow> stock \<Rightarrow> stock" where
  "moved m st = st\<lparr>moves := moves st @ [m], quants := map (bump m) (quants st)\<rparr>"

lemma bump_simps [simp]:
  "qu_id (bump m q) = qu_id q" "qu_sku (bump m q) = qu_sku q" "qu_position (bump m q) = qu_position q"
  "qu_target (bump m q) = qu_target q" "qu_batch (bump m q) = qu_batch q" "coordinate (bump m q) = coordinate q"
  "qu_created_at (bump m q) = qu_created_at q"
  by (simp_all add: bump_def coordinate_def)

lemma bump_quantity [simp]: "qu_id q = mv_quant m \<Longrightarrow> qu_quantity (bump m q) = qu_quantity q + mv_delta m"
  by (simp add: bump_def)

lemma bump_other [simp]: "qu_id q \<noteq> mv_quant m \<Longrightarrow> bump m q = q"
  by (simp add: bump_def)

lemma moved_simps [simp]:
  "moves (moved m st) = moves st @ [m]" "quants (moved m st) = map (bump m) (quants st)"
  "holds (moved m st) = holds st" "batches (moved m st) = batches st" "positions (moved m st) = positions st"
  "materialized (moved m st) = materialized st"
  by (simp_all add: moved_def)

lemma save_move_Inr [stock_ops]:
  "save_move m st = Inr st' \<longleftrightarrow>
     mv_reason m \<noteq> [] \<and> st' = moved m st \<and>
     (\<forall>q \<in> set (quants st). qu_id q = mv_quant m \<longrightarrow> 0 \<le> qu_quantity q + mv_delta m) \<and>
     (mv_delta m < 0 \<longrightarrow> mv_quant m \<in> qu_id ` set (quants st))"
proof -
  let ?qs = "map (\<lambda>q. if qu_id q = mv_quant m then q\<lparr>qu_quantity := qu_quantity q + mv_delta m\<rparr> else q) (quants st)"
  have qs: "?qs = map (bump m) (quants st)" by (simp add: bump_def)
  have neg: "(\<exists>q \<in> set (map (bump m) (quants st)). qu_id q = mv_quant m \<and> qu_quantity q < 0) \<longleftrightarrow>
      \<not> (\<forall>q \<in> set (quants st). qu_id q = mv_quant m \<longrightarrow> 0 \<le> qu_quantity q + mv_delta m)"
    by (auto simp: not_le)
  have get: "row_get qu_id (mv_quant m) (map (bump m) (quants st)) = None \<longleftrightarrow> mv_quant m \<notin> qu_id ` set (quants st)"
    by (auto simp: row_get_None_iff image_iff)
  show ?thesis
  proof (cases "row_get qu_id (mv_quant m) (map (bump m) (quants st))")
    case None
    then show ?thesis using get neg
      by (simp add: save_move_def Let_def qs moved_def [symmetric] image_iff del: set_map) (blast | auto)
  next
    case (Some q)
    then have "q \<in> set (map (bump m) (quants st))" "qu_id q = mv_quant m" using row_get_SomeD by metis+
    then show ?thesis using get neg Some
      by (simp add: save_move_def Let_def qs moved_def [symmetric] not_less del: set_map) (metis not_less)
  qed
qed

lemma ledger_sum_append [simp]: "ledger_sum q (ms @ ns) = ledger_sum q ms + ledger_sum q ns"
  by (simp add: ledger_sum_def)

lemma ledger_sum_one [simp]: "ledger_sum q [m] = (if mv_quant m = q then mv_delta m else 0)"
  by (simp add: ledger_sum_def)

lemma inv_nonneg: "stock_inv st \<Longrightarrow> q \<in> set (quants st) \<Longrightarrow> 0 \<le> qu_quantity q"
  unfolding stock_inv_def quants_inv_def by blast

lemma inv_ledger: "stock_inv st \<Longrightarrow> q \<in> set (quants st) \<Longrightarrow> qu_quantity q = ledger_sum (qu_id q) (moves st)"
  unfolding stock_inv_def quants_inv_def by blast

lemma inv_same_row: "stock_inv st \<Longrightarrow> q \<in> set (quants st) \<Longrightarrow> r \<in> set (quants st) \<Longrightarrow> qu_id q = qu_id r \<Longrightarrow> q = r"
  using ids_key_eq [of qu_id "quants st" q r] by (simp add: stock_inv_def quants_inv_def)

lemma moved_inv:
  assumes "stock_inv st" "mv_quant m < length (quants st)"
    "\<forall>q \<in> set (quants st). qu_id q = mv_quant m \<longrightarrow> 0 \<le> qu_quantity q + mv_delta m"
  shows "stock_inv (moved m st)"
proof -
  have "quants_inv (map (bump m) (quants st)) (moves st @ [m])"
    using assms unfolding stock_inv_def quants_inv_def
    by (auto simp: comp_def)
  then show ?thesis using assms(1) by (simp add: stock_inv_def)
qed

lemma get_pk_Inr [stock_ops]: "get_pk q st = Inr r \<longleftrightarrow> row_get qu_id q (quants st) = Some r"
  by (simp add: get_pk_def split: option.splits)

lemma inv_get_quant:
  assumes "stock_inv st"
  shows "row_get qu_id k (quants st) = Some q \<longleftrightarrow> q \<in> set (quants st) \<and> qu_id q = k"
  using assms row_get_Some_iff [OF ids_distinct, of qu_id "quants st"]
  by (simp add: stock_inv_def quants_inv_def)

lemma get_quant_Some: "get_quant sku pos target b st = Some q \<Longrightarrow> q \<in> set (quants st) \<and> same_coordinate sku pos target b q"
  by (auto simp: get_quant_def find_Some_iff)

lemma get_quant_None: "get_quant sku pos target b st = None \<longleftrightarrow> (\<forall>q \<in> set (quants st). \<not> same_coordinate sku pos target b q)"
  by (auto simp: get_quant_def find_None_iff)

lemma sum_where_absent: "(\<forall>r \<in> set rs. \<not> P r) \<Longrightarrow> sum_where P f rs = 0"
  by (induction rs) auto

lemma get_or_create_quant_spec:
  assumes "stock_inv st" "get_or_create_quant c sku pos target b md st = (st', q)"
  shows "stock_inv st' \<and> q \<in> set (quants st') \<and> same_coordinate sku pos target b q \<and> qu_id q < length (quants st') \<and>
    moves st' = moves st \<and> holds st' = holds st \<and> batches st' = batches st \<and> positions st' = positions st \<and>
    materialized st' = materialized st \<and>
    (quants st' = quants st \<or> quants st' = quants st @ [q] \<and> qu_id q = length (quants st) \<and> qu_quantity q = 0)"
proof (cases "get_quant sku pos target b st")
  case (Some r)
  then have "st' = st" "q = r" using assms(2) by (simp_all add: get_or_create_quant_def)
  then show ?thesis using get_quant_Some [OF Some] assms(1) ids_member
    by (auto simp: stock_inv_def quants_inv_def)
next
  case None
  then have st': "st' = st\<lparr>quants := quants st @ [q]\<rparr>"
    and q: "qu_id q = length (quants st)" "qu_quantity q = 0" "same_coordinate sku pos target b q"
    using assms(2) by (auto simp: get_or_create_quant_def Let_def same_coordinate_def)
  have new: "coordinate q \<notin> coordinate ` set (quants st)"
    using None q(3) by (force simp: get_quant_None same_coordinate_def coordinate_def)
  have zero: "ledger_sum (qu_id q) (moves st) = 0"
    unfolding ledger_sum_def using assms(1) q(1)
    by (intro sum_where_absent) (fastforce simp: stock_inv_def quants_inv_def)
  have "quants_inv (quants st @ [q]) (moves st)"
    using assms(1) new zero q by (auto simp: stock_inv_def quants_inv_def less_Suc_eq)
  moreover have "holds_inv (Suc (length (quants st))) (holds st)"
    using assms(1) by (fastforce simp: stock_inv_def holds_inv_def split: option.splits)
  ultimately show ?thesis using st' q assms(1) by (simp add: stock_inv_def)
qed

section \<open>What stays\<close>

text \<open>
  What no operation rewrites: the moves, the coordinate of a quant, the facts of a lot but its
  grade, what a hold asks for.
\<close>

definition lot_core :: "batch \<Rightarrow> string \<times> string \<times> int option \<times> int option \<times> int" where
  "lot_core b = (ba_ref b, ba_sku b, ba_production b, ba_expiry b, ba_markdown b)"

definition hold_core :: "hold \<Rightarrow> nat \<times> string \<times> rat \<times> int \<times> string option \<times> int" where
  "hold_core h = (ho_id h, ho_sku h, ho_quantity h, ho_target h, ho_actor h, ho_created_at h)"

definition extends :: "stock \<Rightarrow> stock \<Rightarrow> bool" where
  "extends st st' \<longleftrightarrow>
     positions st' = positions st \<and> (\<exists>ms. moves st' = moves st @ ms) \<and>
     (\<exists>qs. map coordinate (quants st') = map coordinate (quants st) @ qs) \<and>
     (\<exists>hs. map hold_core (holds st') = map hold_core (holds st) @ hs) \<and>
     (\<exists>bs. map lot_core (batches st') = map lot_core (batches st) @ bs)"

lemma extends_refl [simp, intro]: "extends st st"
  by (simp add: extends_def)

lemma extends_trans: "extends a b \<Longrightarrow> extends b c \<Longrightarrow> extends a c"
  unfolding extends_def by (metis append_assoc)

lemma extends_moved [simp, intro]: "extends st (moved m st)"
  by (simp add: extends_def comp_def)

lemma extends_length: "extends st st' \<Longrightarrow> length (quants st) \<le> length (quants st')"
  by (auto simp: extends_def) (metis le_add1 length_append length_map)

lemma held_none:
  assumes "holds_inv n hs" "n \<le> q"
  shows "held_on now q hs = 0"
  unfolding held_on_def using assms by (intro sum_where_absent) (auto simp: holds_inv_def split: option.splits)

lemma covered_moved:
  assumes "covered now st"
    "\<forall>q \<in> set (quants st). qu_id q = mv_quant m \<longrightarrow> 0 \<le> quant_available now q st + mv_delta m"
  shows "covered now (moved m st)"
  using assms by (auto simp: covered_def quant_available_def bump_def)

text \<open>One operation that keeps the tables well formed and only adds to them.\<close>

definition good_step :: "int \<Rightarrow> stock \<Rightarrow> stock \<Rightarrow> bool" where
  "good_step now st st' \<longleftrightarrow> stock_inv st' \<and> extends st st' \<and> (covered now st \<longrightarrow> covered now st')"

lemma good_refl: "stock_inv st \<Longrightarrow> good_step now st st"
  by (simp add: good_step_def)

lemma good_trans: "good_step now a b \<Longrightarrow> good_step now b c \<Longrightarrow> good_step now a c"
  unfolding good_step_def using extends_trans by blast

lemma get_or_create_quant_good:
  assumes "stock_inv st" "get_or_create_quant c sku pos target b md st = (st', q)"
  shows "good_step now st st'" "q \<in> set (quants st')" "same_coordinate sku pos target b q"
    "qu_id q < length (quants st')" "moves st' = moves st" "holds st' = holds st" "batches st' = batches st"
    "quants st' = quants st \<or> quants st' = quants st @ [q] \<and> qu_id q = length (quants st) \<and> qu_quantity q = 0"
proof -
  note spec = get_or_create_quant_spec [OF assms]
  have "covered now st'" if "covered now st"
    using that spec assms(1) held_none [of "length (quants st)" "holds st" "qu_id q" now]
    by (auto simp: covered_def quant_available_def stock_inv_def)
  moreover have "extends st st'" using spec by (auto simp: extends_def)
  ultimately show "good_step now st st'" using spec by (simp add: good_step_def)
qed (use get_or_create_quant_spec [OF assms] in auto)

lemma get_or_create_batch_good:
  assumes "stock_inv st" "get_or_create_batch b st = (st', r, created)"
  shows "good_step now st st'" "quants st' = quants st" "moves st' = moves st" "holds st' = holds st"
    "r \<in> set (batches st')" "ba_ref r = ba_ref b"
proof -
  show "quants st' = quants st" "moves st' = moves st" "holds st' = holds st" "r \<in> set (batches st')" "ba_ref r = ba_ref b"
    using assms(2) row_get_SomeD [of ba_ref "ba_ref b" "batches st" r]
    by (auto simp: get_or_create_batch_def split: option.splits)
  show "good_step now st st'"
    using assms by (auto simp: get_or_create_batch_def good_step_def stock_inv_def extends_def covered_def
        quant_available_def row_get_None_iff split: option.splits)
qed

lemma receive_batch_good:
  assumes "stock_inv st" "receive_batch c cat sku a st = (st', b)"
  shows "good_step now st st'" "quants st' = quants st" "moves st' = moves st" "holds st' = holds st"
  using assms get_or_create_batch_good [of st] good_refl [OF assms(1)]
  by (auto simp: receive_batch_def Let_def split: option.splits if_splits prod.splits)

section \<open>Movements\<close>

lemma save_move_good:
  assumes "stock_inv st" "save_move m st = Inr st'" "mv_quant m < length (quants st)"
    "\<forall>q \<in> set (quants st). qu_id q = mv_quant m \<longrightarrow> 0 \<le> mv_delta m \<or> 0 \<le> quant_available now q st + mv_delta m"
  shows "good_step now st st'" "st' = moved m st"
proof -
  show st': "st' = moved m st" using assms(2) by (simp add: save_move_Inr)
  have "stock_inv (moved m st)" using assms moved_inv by (simp add: save_move_Inr)
  moreover have "covered now (moved m st)" if "covered now st"
    using that assms(4) by (intro covered_moved) (auto simp: covered_def)
  ultimately show "good_step now st st'" using st' by (simp add: good_step_def)
qed

lemma save_move_in: "mv_reason m \<noteq> [] \<Longrightarrow> 0 \<le> mv_delta m \<Longrightarrow> stock_inv st \<Longrightarrow> save_move m st = Inr (moved m st)"
  by (auto simp: save_move_Inr stock_inv_def quants_inv_def)

lemma receive_into_spec:
  assumes "stock_inv st" "receive_into c n sku a b st = Inr (st', q)" "0 \<le> n"
  shows "good_step now st st' \<and> q \<in> set (quants st') \<and> same_coordinate sku (ra_position a) (ra_target a) b q \<and>
    (\<exists>m. moves st' = moves st @ [m] \<and> mv_quant m = qu_id q \<and> mv_delta m = n \<and> mv_kind m = ra_kind a
      \<and> mv_at m = now_at c) \<and> holds st' = holds st"
proof -
  obtain st1 q1 where g: "get_or_create_quant c sku (ra_position a) (ra_target a) b (ra_metadata a) st = (st1, q1)"
    by fastforce
  define m where "m = \<lparr>mv_quant = qu_id q1, mv_delta = n, mv_kind = ra_kind a, mv_reason = ra_reason a,
                        mv_metadata = ra_metadata a, mv_at = now_at c, mv_user = ra_user a\<rparr>"
  note gg = get_or_create_quant_good [OF assms(1) g]
  have inv1: "stock_inv st1" using gg(1) by (simp add: good_step_def)
  have sv: "save_move m st1 = Inr st'" "row_get qu_id (qu_id q1) (quants st') = Some q"
    using assms(2) by (auto simp: receive_into_def g m_def ebind_Inr get_pk_Inr)
  have s2: "good_step now st1 st'" "st' = moved m st1"
    using save_move_good [OF inv1 sv(1)] gg(4) assms(3) by (auto simp: m_def)
  have "qu_id q = qu_id q1" "q \<in> set (quants st')" using sv(2) row_get_SomeD by metis+
  then obtain q0 where "q0 \<in> set (quants st1)" "q = bump m q0" "qu_id q0 = qu_id q1"
    using s2(2) by auto
  moreover from this have "q0 = q1"
    using inv_same_row [OF inv1 _ gg(2)] by blast
  ultimately have "same_coordinate sku (ra_position a) (ra_target a) b q"
    using gg(3) by (simp add: same_coordinate_def)
  then show ?thesis
    using good_trans [OF gg(1) s2(1)] \<open>q \<in> set (quants st')\<close> s2(2) gg(5,6) \<open>qu_id q = qu_id q1\<close>
    by (auto simp: m_def)
qed

lemma receive_spec:
  assumes "stock_inv st" "receive c cat n sku a st = (st', r)"
  shows "good_step now st st' \<and> holds st' = holds st \<and>
    (case r of
       Inl err \<Rightarrow> moves st' = moves st \<and> quants st' = quants st
     | Inr q \<Rightarrow> 0 < n \<and> q \<in> set (quants st') \<and> qu_sku q = sku \<and> qu_position q = ra_position a \<and>
         qu_target q = ra_target a \<and>
         (\<exists>m. moves st' = moves st @ [m] \<and> mv_quant m = qu_id q \<and> mv_delta m = n \<and> mv_kind m = ra_kind a
            \<and> mv_at m = now_at c))"
proof (cases "n \<le> 0")
  case True
  then show ?thesis using assms good_refl by (auto simp: receive_def)
next
  case False
  obtain st1 b where b: "receive_batch c cat sku a st = (st1, b)" by fastforce
  note bg = receive_batch_good [OF assms(1) b]
  have inv1: "stock_inv st1" using bg(1) by (simp add: good_step_def)
  show ?thesis
  proof (cases "receive_into c n sku a b st1")
    case (Inl err)
    then show ?thesis using assms(2) False b bg by (auto simp: receive_def)
  next
    case (Inr p)
    obtain st2 q where p: "p = (st2, q)" by fastforce
    then have "st' = st2" "r = Inr q" using Inr assms(2) False b by (simp_all add: receive_def)
    then show ?thesis
      using receive_into_spec [OF inv1 Inr [unfolded p], of now] False bg good_trans [OF bg(1), of now]
      by (auto simp: same_coordinate_def)
  qed
qed

lemma issue_spec:
  assumes "stock_inv st" "issue c n qid user reason k md st = Inr (st', m)"
  shows "0 < n \<and> reason \<noteq> [] \<and> (\<exists>q \<in> set (quants st). qu_id q = qid \<and> n \<le> quant_available (now_at c) q st) \<and>
    st' = moved m st \<and> mv_quant m = qid \<and> mv_delta m = - n \<and> mv_kind m = k \<and> good_step (now_at c) st st'"
proof -
  define m0 where "m0 = \<lparr>mv_quant = qid, mv_delta = - n, mv_kind = k, mv_reason = reason, mv_metadata = md,
          mv_at = now_at c, mv_user = user\<rparr>"
  have n: "0 < n" using assms(2) by (cases "n \<le> 0") (auto simp: issue_def)
  obtain q where q1: "row_get qu_id qid (quants st) = Some q"
    using assms(2) n by (cases "row_get qu_id qid (quants st)") (auto simp: issue_def get_pk_def)
  have q2: "n \<le> quant_available (now_at c) q st"
    using assms(2) n q1 by (cases "quant_available (now_at c) q st < n") (auto simp: issue_def get_pk_def)
  then have "ebind (save_move m0 st) (\<lambda>st'. Inr (st', m0)) = Inr (st', m)"
    using assms(2) n q1 by (simp add: issue_def get_pk_def m0_def not_le not_less Let_def)
  then have m: "save_move m st = Inr st'" "0 < n" "m = m0" using n by (auto simp: ebind_Inr)
  note m = m(1,2) m(3) [unfolded m0_def] and q = q1 q2
  have q': "q \<in> set (quants st)" "qu_id q = qid" using row_get_SomeD [OF q(1)] by auto
  have uniq: "x = q" if "x \<in> set (quants st)" "qu_id x = qid" for x
    using that q' inv_same_row [OF assms(1)] by blast
  have len: "qid < length (quants st)" using q' assms(1) ids_member by (auto simp: stock_inv_def quants_inv_def)
  have "good_step (now_at c) st st' \<and> st' = moved m st"
    using save_move_good [OF assms(1) m(1), of "now_at c"] len uniq q(2) by (auto simp: m(3))
  moreover have "reason \<noteq> []" using m(1) by (simp add: save_move_Inr m(3))
  ultimately show ?thesis using q(2) q' m(2,3) by auto
qed

lemma adjust_spec:
  assumes "stock_inv st" "adjust c qid n reason user st = Inr (st', mo)"
  shows "stock_inv st' \<and> extends st st' \<and> holds st' = holds st \<and> 0 \<le> n \<and>
    (\<exists>q \<in> set (quants st). qu_id q = qid \<and>
       (case mo of None \<Rightarrow> st' = st \<and> qu_quantity q = n
        | Some m \<Rightarrow> st' = moved m st \<and> mv_quant m = qid \<and> mv_delta m = n - qu_quantity q \<and> mv_kind m = Adjust_move))"
proof -
  obtain q where q: "row_get qu_id qid (quants st) = Some q" "0 \<le> n" "reason \<noteq> []"
    using assms(2) by (auto simp: adjust_def ebind_Inr get_pk_Inr split: if_splits)
  have q': "q \<in> set (quants st)" "qu_id q = qid" using row_get_SomeD [OF q(1)] by auto
  have uniq: "x = q" if "x \<in> set (quants st)" "qu_id x = qid" for x
    using that q' inv_same_row [OF assms(1)] by blast
  have len: "qid < length (quants st)" using q' assms(1) ids_member by (auto simp: stock_inv_def quants_inv_def)
  show ?thesis
  proof (cases "n - qu_quantity q = 0")
    case True
    then have "st' = st" "mo = None" using assms(2) q by (auto simp: adjust_def get_pk_def)
    then show ?thesis using True q q' assms(1) by auto
  next
    case False
    define m where "m = \<lparr>mv_quant = qid, mv_delta = n - qu_quantity q, mv_kind = Adjust_move, mv_reason = ''Ajuste: '' @ reason,
                   mv_metadata = [], mv_at = now_at c, mv_user = user\<rparr>"
    have m: "save_move m st = Inr st'" "mo = Some m"
      using assms(2) q False by (auto simp: adjust_def get_pk_def m_def ebind_Inr Let_def)
    have "stock_inv (moved m st)"
      using assms(1) len uniq q(2) by (intro moved_inv) (auto simp: m_def)
    moreover have "st' = moved m st" using m(1) by (simp add: save_move_Inr)
    moreover have "mv_quant m = qid \<and> mv_delta m = n - qu_quantity q \<and> mv_kind m = Adjust_move" by (simp add: m_def)
    ultimately show ?thesis using m(2) q(2) q' by auto
  qed
qed

end
