(* ===== verification/StockHoldLaws.thy ===== *)
theory StockHoldLaws
  imports StockLaws
begin

text \<open>
  Laws of the hold operations: what a write of one hold does to the amount held on each quant,
  and that creating, confirming, releasing, fulfilling, expiring, extending, retagging and
  materializing holds keep the tables well formed and the quants covered.
\<close>

lemma transfer_spec:
  assumes "stock_inv st" "transfer c cat n sku from_pos to_pos target b user reason st = Inr (st', q)"
  shows "good_step (now_at c) st st' \<and> holds st' = holds st \<and> from_pos \<noteq> to_pos \<and> 0 < n \<and>
    (\<exists>s \<in> set (quants st). \<exists>m1 m2. same_coordinate sku from_pos target b s \<and>
       n \<le> quant_available (now_at c) s st \<and>
       moves st' = moves st @ [m1, m2] \<and> mv_quant m1 = qu_id s \<and> mv_delta m1 = - n \<and>
       mv_quant m2 = qu_id q \<and> mv_delta m2 = n \<and> mv_kind m1 = Transfer_move \<and> mv_kind m2 = Transfer_move) \<and>
    q \<in> set (quants st') \<and> qu_sku q = sku \<and> qu_position q = to_pos \<and> qu_target q = target"
proof -
  let ?a = "\<lparr>ra_position = to_pos, ra_target = target, ra_batch = b, ra_user = user, ra_reason = reason,
               ra_kind = Transfer_move, ra_metadata = []\<rparr>"
  have n: "0 < n" "from_pos \<noteq> to_pos" using assms(2) by (auto simp: transfer_def not_le split: if_splits)
  then obtain s where s: "get_quant sku from_pos target b st = Some s"
    using assms(2) by (auto simp: transfer_def split: option.splits)
  with assms(2) n obtain st1 m where i: "issue c n (qu_id s) user reason Transfer_move [] st = Inr (st1, m)"
    and r: "atomically (receive c cat n sku ?a st1) = Inr (st', q)"
    by (auto simp: transfer_def ebind_Inr)
  note isp = issue_spec [OF assms(1) i]
  have inv1: "stock_inv st1" using isp unfolding good_step_def by blast
  obtain st2 x where rx: "receive c cat n sku ?a st1 = (st2, x)" by fastforce
  then have x: "st2 = st'" "x = Inr q" using r by (auto simp: atomically_def split: sum.splits)
  note rsp = receive_spec [OF inv1 rx [unfolded x], simplified]
  have s': "s \<in> set (quants st)" "same_coordinate sku from_pos target b s" using get_quant_Some [OF s] by auto
  have "n \<le> quant_available (now_at c) s st"
    using isp s'(1) inv_same_row [OF assms(1)] by blast
  moreover have "good_step (now_at c) st st'" using isp rsp good_trans by blast
  moreover obtain m2 where "moves st' = moves st1 @ [m2]" "mv_quant m2 = qu_id q" "mv_delta m2 = n" "mv_kind m2 = Transfer_move"
    using rsp by auto
  ultimately show ?thesis using isp rsp n s'
    by (intro conjI bexI [of _ s] exI [of _ m] exI [of _ m2]) auto
qed

section \<open>Writing one hold\<close>

definition counts_on :: "int \<Rightarrow> nat \<Rightarrow> hold \<Rightarrow> rat" where
  "counts_on now q h = (if ho_quant h = Some q \<and> hold_active now h then ho_quantity h else 0)"

lemma held_on_Cons [simp]: "held_on now q (h # hs) = counts_on now q h + held_on now q hs"
  by (simp add: held_on_def counts_on_def)

lemma held_on_Nil [simp]: "held_on now q [] = 0"
  by (simp add: held_on_def)

lemma held_on_append [simp]: "held_on now q (hs @ gs) = held_on now q hs + held_on now q gs"
  by (simp add: held_on_def)

lemma counts_on_nonneg: "0 \<le> ho_quantity h \<Longrightarrow> 0 \<le> counts_on now q h"
  by (simp add: counts_on_def)

lemma held_put:
  assumes "holds_inv n hs" "h \<in> set hs" "ho_id h' = ho_id h"
  shows "held_on now q (row_put ho_id h' hs) = held_on now q hs - counts_on now q h + counts_on now q h'"
proof -
  have d: "distinct (map ho_id hs)" using assms(1) ids_distinct by (auto simp: holds_inv_def)
  then have "row_get ho_id (ho_id h) hs = Some h" using assms(2) by (simp add: row_get_Some_iff)
  from row_put_split [OF d this assms(3)] show ?thesis by auto
qed

lemma holds_inv_put:
  assumes "holds_inv n hs" "h \<in> set hs" "ho_id h' = ho_id h" "0 < ho_quantity h'"
    "case ho_quant h' of None \<Rightarrow> True | Some q \<Rightarrow> q < n"
  shows "holds_inv n (row_put ho_id h' hs)"
  using assms by (auto simp: holds_inv_def set_row_put)

lemma put_simps [simp]:
  "quants (put_hold h st) = quants st" "moves (put_hold h st) = moves st" "batches (put_hold h st) = batches st"
  "positions (put_hold h st) = positions st" "materialized (put_hold h st) = materialized st"
  "holds (put_hold h st) = row_put ho_id h (holds st)"
  by (simp_all add: put_hold_def)

lemma row_put_map_same:
  assumes "distinct (map key rs)" "r \<in> set rs" "key r' = key r" "f r' = f r"
  shows "map f (row_put key r' rs) = map f rs"
proof -
  have "row_get key (key r) rs = Some r" using assms by (simp add: row_get_Some_iff)
  from row_put_split [OF assms(1) this assms(3)] show ?thesis using assms(4) by auto
qed

text \<open>A hold is written back with the same identity and no heavier than before on any quant.\<close>

lemma put_hold_good:
  assumes "stock_inv st" "h \<in> set (holds st)" "hold_core h' = hold_core h"
    "case ho_quant h' of None \<Rightarrow> True | Some q \<Rightarrow> q < length (quants st)"
    "\<forall>q \<in> set (quants st). counts_on now (qu_id q) h' \<le> counts_on now (qu_id q) h \<or>
       counts_on now (qu_id q) h' - counts_on now (qu_id q) h \<le> quant_available now q st"
  shows "good_step now st (put_hold h' st)"
proof -
  have hi: "holds_inv (length (quants st)) (holds st)" using assms(1) by (simp add: stock_inv_def)
  then have d: "distinct (map ho_id (holds st))" using ids_distinct by (auto simp: holds_inv_def)
  have id: "ho_id h' = ho_id h" "ho_quantity h' = ho_quantity h" using assms(3) by (auto simp: hold_core_def)
  have "stock_inv (put_hold h' st)"
    using assms(1,2,4) id hi holds_inv_put [OF hi assms(2) id(1)]
    by (auto simp: stock_inv_def holds_inv_def)
  moreover have "extends st (put_hold h' st)"
    using row_put_map_same [of ho_id "holds st" h h' hold_core] d assms(2,3) id by (auto simp: extends_def)
  moreover have "covered now (put_hold h' st)" if "covered now st"
    using that assms(5) held_put [OF hi assms(2) id(1), of now]
    by (fastforce simp: covered_def quant_available_def)
  ultimately show ?thesis by (simp add: good_step_def)
qed

lemma inv_find_hold:
  assumes "stock_inv st" "find_hold pk st = Some h"
  shows "h \<in> set (holds st)" "int (ho_id h) = pk"
  using assms row_get_SomeD [of ho_id "nat pk" "holds st" h]
  by (auto simp: find_hold_def split: if_splits)

lemma locked_hold_Inr [stock_ops]:
  "locked_hold s st = Inr h \<longleftrightarrow> (\<exists>pk. parse_hold_id s = Inr pk \<and> find_hold pk st = Some h)"
  by (auto simp: locked_hold_def ebind_Inr split: option.splits)

lemma hold_row:
  assumes "stock_inv st" "h \<in> set (holds st)"
  shows "0 < ho_quantity h" "case ho_quant h of None \<Rightarrow> True | Some q \<Rightarrow> q < length (quants st)"
    "ho_id h < length (holds st)" "row_get ho_id (ho_id h) (holds st) = Some h"
  using assms ids_member [of ho_id "holds st" h] row_get_Some_iff [OF ids_distinct, of ho_id "holds st"]
  by (auto simp: stock_inv_def holds_inv_def)

section \<open>The operations\<close>

lemma new_hold_good:
  assumes "stock_inv st" "new_hold c sku qo n target a md st = (st', s)" "0 < n"
    "case qo of None \<Rightarrow> True | Some k \<Rightarrow> \<exists>q \<in> set (quants st). qu_id q = k \<and> n \<le> quant_available (now_at c) q st"
  shows "good_step (now_at c) st st'"
proof -
  define h where "h = \<lparr>ho_id = length (holds st), ho_sku = sku, ho_quant = qo, ho_quantity = n, ho_target = target,
               ho_status = Hold_pending, ho_expires_at = ha_expires_at a, ho_actor = ha_actor a,
               ho_created_at = now_at c, ho_resolved_at = None, ho_metadata = md\<rparr>"
  have st': "st' = st\<lparr>holds := holds st @ [h]\<rparr>" using assms(2) by (simp add: new_hold_def h_def Let_def)
  have in_range: "k < length (quants st)" if "qo = Some k" for k
    using assms(1,4) that ids_member [of qu_id "quants st"] by (auto simp: stock_inv_def quants_inv_def)
  have h: "ho_id h = length (holds st)" "ho_quant h = qo" "ho_quantity h = n" by (simp_all add: h_def)
  have "holds_inv (length (quants st)) (holds st @ [h])"
    using assms(1,3) in_range h by (auto simp: stock_inv_def holds_inv_def split: option.splits)
  then have "stock_inv st'" using assms(1) st' by (simp add: stock_inv_def)
  moreover have "extends st st'" using st' by (simp add: extends_def)
  moreover have "covered (now_at c) st'" if cov: "covered (now_at c) st"
  proof -
    have "counts_on (now_at c) (qu_id q) h \<le> quant_available (now_at c) q st" if q: "q \<in> set (quants st)" for q
    proof (cases "qo = Some (qu_id q)")
      case True
      then obtain x where "x \<in> set (quants st)" "qu_id x = qu_id q" "n \<le> quant_available (now_at c) x st"
        using assms(4) by auto
      moreover from this have "x = q" using q inv_same_row [OF assms(1)] by blast
      ultimately show ?thesis using assms(3) h by (simp add: counts_on_def)
    next
      case False
      then show ?thesis using cov q h by (simp add: counts_on_def covered_def)
    qed
    then show ?thesis by (fastforce simp: covered_def quant_available_def st')
  qed
  ultimately show ?thesis by (simp add: good_step_def)
qed

text \<open>The branches of \<open>hold\<close>: what it decides from what it has read, and what it then writes.\<close>

lemma hold_stock_cases:
  assumes "hold_stock c cat seen n p a st = Inr (st', s)"
  obtains (anchored) q0 q md target where "0 < n"
      "find_quant_for_hold c cat (pd_sku p) target n (ha_scope a) seen = Some q0"
      "target = (case ha_target a of Some t \<Rightarrow> t | None \<Rightarrow> today c)"
      "md = frozen_metadata (ha_scope a) (ha_metadata a)"
      "row_get qu_id (qu_id q0) (quants st) = Some q" "n \<le> quant_available (now_at c) q st"
      "new_hold c (pd_sku p) (Some (qu_id q)) n target a md st = (st', s)"
    | (floating) md target where "0 < n"
      "target = (case ha_target a of Some t \<Rightarrow> t | None \<Rightarrow> today c)"
      "md = frozen_metadata (ha_scope a) (ha_metadata a)"
      "new_hold c (pd_sku p) None n target a md st = (st', s)"
proof -
  let ?md = "frozen_metadata (ha_scope a) (ha_metadata a)"
  let ?target = "case ha_target a of Some t \<Rightarrow> t | None \<Rightarrow> today c"
  obtain shelf pol where r: "resolve_stock_profile cat p = (pd_sku p, shelf, pol)"
    by (simp add: resolve_stock_profile_def Let_def)
  let ?dec = "promise_decision_for_sku c cat (pd_sku p) n (ha_margin a) ?target (ha_scope a) seen"
  let ?policy = "or_text pol (pr_policy ?dec)"
  obtain ok av where g: "hold_gate ?dec ?policy (dget ?md ''purpose'' = Some (JStr ''workorder'')) (ha_allow_demand a) n = (ok, av)"
    by fastforce
  let ?other = "if ?policy = ''demand_ok'' \<or> ha_allow_demand a
                then Inr (new_hold c (pd_sku p) None n ?target a ?md st) else Inl (Stk_insufficient_available av)"
  have n: "0 < n" using assms by (cases "n \<le> 0") (auto simp: hold_stock_def)
  have eq: "hold_stock c cat seen n p a st =
     (if \<not> ok then Inl (Stk_insufficient_available av)
      else case find_quant_for_hold c cat (pd_sku p) ?target n (ha_scope a) seen of
            None \<Rightarrow> ?other
          | Some q0 \<Rightarrow> ebind (get_pk (qu_id q0) st) (\<lambda>q.
              if quant_available (now_at c) q st \<ge> n
              then Inr (new_hold c (pd_sku p) (Some (qu_id q)) n ?target a ?md st) else ?other))"
    using n by (simp add: hold_stock_def r g Let_def)
  have other: thesis if "?other = Inr (st', s)"
    using that floating n by (auto split: if_splits)
  show thesis
  proof (cases "find_quant_for_hold c cat (pd_sku p) ?target n (ha_scope a) seen")
    case None
    then show thesis using assms eq other by (auto split: if_splits)
  next
    case (Some q0)
    then have e: "ebind (get_pk (qu_id q0) st) (\<lambda>q.
              if quant_available (now_at c) q st \<ge> n
              then Inr (new_hold c (pd_sku p) (Some (qu_id q)) n ?target a ?md st) else ?other) = Inr (st', s)"
      using assms eq by (cases ok) auto
    then obtain q where q: "row_get qu_id (qu_id q0) (quants st) = Some q"
      "(if quant_available (now_at c) q st \<ge> n
        then Inr (new_hold c (pd_sku p) (Some (qu_id q)) n ?target a ?md st) else ?other) = Inr (st', s)"
      by (auto simp: ebind_Inr get_pk_Inr)
    show thesis
    proof (cases "quant_available (now_at c) q st \<ge> n")
      case True
      then have "new_hold c (pd_sku p) (Some (qu_id q)) n ?target a ?md st = (st', s)" using q(2) by simp
      then show thesis by (rule anchored [OF n Some refl refl q(1) True])
    next
      case False
      then show thesis using q(2) other by simp
    qed
  qed
qed

lemma hold_stock_good:
  assumes "stock_inv st" "hold_stock c cat seen n p a st = Inr (st', s)"
  shows "good_step (now_at c) st st'"
  using assms(2)
proof (cases rule: hold_stock_cases)
  case (anchored q0 q md target)
  then show ?thesis using new_hold_good [OF assms(1) anchored(7,1)] row_get_SomeD by fastforce
next
  case floating
  then show ?thesis using new_hold_good [OF assms(1) floating(4,1)] by simp
qed

lemma confirm_spec:
  assumes "stock_inv st" "confirm_hold s actor st = Inr (st', h')"
  shows "good_step now st st' \<and> (\<exists>h \<in> set (holds st). locked_hold s st = Inr h \<and> ho_status h = Hold_pending \<and>
    ho_status h' = Hold_confirmed \<and> ho_quant h' = ho_quant h \<and> ho_expires_at h' = ho_expires_at h \<and>
    hold_core h' = hold_core h \<and> st' = put_hold h' st)"
proof -
  obtain h where l: "locked_hold s st = Inr h" "ho_status h = Hold_pending"
    using assms(2) by (auto simp: confirm_hold_def ebind_Inr split: if_splits)
  then have st': "st' = put_hold h' st" and h': "ho_status h' = Hold_confirmed" "ho_quant h' = ho_quant h"
    "ho_expires_at h' = ho_expires_at h" "hold_core h' = hold_core h"
    using assms(2) by (auto simp: confirm_hold_def Let_def hold_core_def)
  have hin: "h \<in> set (holds st)" using l(1) inv_find_hold [OF assms(1)] by (auto simp: locked_hold_Inr)
  have "good_step now st st'" unfolding st'
    using hold_row [OF assms(1) hin] h' l(2)
    by (intro put_hold_good [OF assms(1) hin h'(4)]) (auto simp: counts_on_def hold_active_def hold_open_def hold_core_def)
  then show ?thesis using l hin h' st' by blast
qed

lemma release_spec:
  assumes "stock_inv st" "release_hold c s reason actor st = Inr (st', h')"
  shows "good_step now st st' \<and> (\<exists>h \<in> set (holds st). locked_hold s st = Inr h \<and> hold_open (ho_status h) \<and>
    ho_status h' = Hold_released \<and> hold_core h' = hold_core h \<and> st' = put_hold h' st)"
proof -
  obtain h where l: "locked_hold s st = Inr h" "hold_open (ho_status h)"
    using assms(2) by (auto simp: release_hold_def ebind_Inr split: if_splits)
  then have st': "st' = put_hold h' st" and h': "ho_status h' = Hold_released" "ho_quant h' = ho_quant h" "hold_core h' = hold_core h"
    using assms(2) by (auto simp: release_hold_def Let_def hold_core_def)
  have hin: "h \<in> set (holds st)" using l(1) inv_find_hold [OF assms(1)] by (auto simp: locked_hold_Inr)
  have "counts_on now q h' \<le> counts_on now q h" for q
    using hold_row(1) [OF assms(1) hin] h'(1) counts_on_nonneg [of h] by (auto simp: counts_on_def hold_active_def hold_open_def)
  then have "good_step now st st'" unfolding st'
    using hold_row(2) [OF assms(1) hin] h'(2) by (intro put_hold_good [OF assms(1) hin h'(3)]) auto
  then show ?thesis using l hin h' st' by blast
qed

lemma fulfill_attempts_Inr:
  assumes "fulfill_attempts c pk user actor n k rs st = Inr (st', m)"
  shows "\<exists>h q. find_hold pk st = Some h \<and> ho_quant h = Some (qu_id q) \<and> row_get qu_id (qu_id q) (quants st) = Some q \<and>
    fulfill_locked c user actor n k h (Some q) st = Inr (st', m)"
  using assms
proof (induction rs)
  case Nil
  then show ?case by simp
next
  case (Cons r rs)
  then obtain h where h: "find_hold pk st = Some h" by (auto split: option.splits)
  show ?case
  proof (cases "ho_quant h = r")
    case False
    then show ?thesis using Cons h by (auto simp: ebind_Inr split: option.splits)
  next
    case True
    show ?thesis
    proof (cases r)
      case None
      then show ?thesis using Cons.prems h True by (auto simp: fulfill_locked_def split: if_splits)
    next
      case (Some k')
      then obtain q where "row_get qu_id k' (quants st) = Some q" "fulfill_locked c user actor n k h (Some q) st = Inr (st', m)"
        using Cons.prems h True by (auto simp: ebind_Inr get_pk_Inr)
      moreover from this have "qu_id q = k'" using row_get_SomeD by metis
      ultimately show ?thesis using h True Some by blast
    qed
  qed
qed

lemma fulfill_locked_Inr:
  assumes "fulfill_locked c user actor n k h (Some q) st = Inr (st', m)"
  shows "ho_status h = Hold_confirmed \<and> \<not> hold_is_expired (now_at c) h \<and> policy_frozen (ho_metadata h) \<and>
    save_move m st = Inr (moved m st) \<and> mv_quant m = qu_id q \<and> mv_kind m = k \<and>
    mv_delta m = - (case n of Some x \<Rightarrow> x | None \<Rightarrow> ho_quantity h) \<and>
    (\<exists>h'. st' = put_hold h' (moved m st) \<and> hold_core h' = hold_core h \<and> ho_quant h' = ho_quant h \<and>
      ho_status h' = Hold_fulfilled \<and> ho_resolved_at h' = Some (now_at c))"
proof -
  have c: "ho_status h = Hold_confirmed" "\<not> hold_is_expired (now_at c) h" "policy_frozen (ho_metadata h)"
    using assms by (auto simp: fulfill_locked_def split: if_splits)
  define m0 where "m0 = \<lparr>mv_quant = qu_id q, mv_delta = - (case n of Some x \<Rightarrow> x | None \<Rightarrow> ho_quantity h), mv_kind = k,
                   mv_reason = ''Entrega hold:'' @ nat_text (ho_id h), mv_metadata = [],
                   mv_at = now_at c, mv_user = user\<rparr>"
  define h' where "h' = h\<lparr>ho_status := Hold_fulfilled, ho_resolved_at := Some (now_at c),
                     ho_metadata := (case (case actor of Some u \<Rightarrow> Some u | None \<Rightarrow> user) of None \<Rightarrow> ho_metadata h
                                     | Some u \<Rightarrow> dset ''fulfilled_by'' (JStr u) (ho_metadata h))\<rparr>"
  have "ebind (save_move m0 st) (\<lambda>st1. Inr (put_hold h' st1, m0)) = Inr (st', m)"
    using assms c unfolding fulfill_locked_def m0_def h'_def Let_def option.case
    by (simp del: save_move_def split: if_splits)
  then have "save_move m0 st = Inr (moved m0 st)" "m = m0" "st' = put_hold h' (moved m0 st)"
    by (auto simp: ebind_Inr save_move_Inr)
  then show ?thesis using c by (auto simp: m0_def h'_def hold_core_def)
qed

lemma fulfill_spec:
  assumes "stock_inv st" "fulfill_hold c s user actor n k reads st = Inr (st', m)"
  obtains h q h' where "locked_hold s st = Inr h" "h \<in> set (holds st)" "q \<in> set (quants st)" "ho_quant h = Some (qu_id q)"
    "ho_status h = Hold_confirmed" "hold_active (now_at c) h" "mv_quant m = qu_id q" "mv_kind m = k"
    "mv_delta m = - (case n of Some x \<Rightarrow> x | None \<Rightarrow> ho_quantity h)"
    "st' = put_hold h' (moved m st)" "hold_core h' = hold_core h" "ho_quant h' = ho_quant h" "ho_status h' = Hold_fulfilled"
    "stock_inv st'" "extends st st'" "- mv_delta m \<le> ho_quantity h \<longrightarrow> covered (now_at c) st \<longrightarrow> covered (now_at c) st'"
proof -
  obtain pk h q where pk: "parse_hold_id s = Inr pk" "find_hold pk st = Some h" "ho_quant h = Some (qu_id q)"
    "row_get qu_id (qu_id q) (quants st) = Some q" "fulfill_locked c user actor n k h (Some q) st = Inr (st', m)"
    using assms(2) fulfill_attempts_Inr by (fastforce simp: fulfill_hold_def ebind_Inr)
  note f = fulfill_locked_Inr [OF pk(5)]
  obtain h' where h': "st' = put_hold h' (moved m st)" "hold_core h' = hold_core h" "ho_quant h' = ho_quant h"
    "ho_status h' = Hold_fulfilled" using f by blast
  have hin: "h \<in> set (holds st)" using inv_find_hold [OF assms(1) pk(2)] by simp
  have qin: "q \<in> set (quants st)" using row_get_SomeD [OF pk(4)] by simp
  have act: "hold_active (now_at c) h"
    using f by (auto simp: hold_active_def hold_is_expired_def hold_open_def split: option.splits)
  have core: "ho_quantity h' = ho_quantity h" "ho_id h' = ho_id h" using h'(2) by (auto simp: hold_core_def)
  have len: "mv_quant m < length (quants st)"
    using f qin assms(1) ids_member by (auto simp: stock_inv_def quants_inv_def)
  have inv1: "stock_inv (moved m st)"
    using f len assms(1) by (intro moved_inv) (auto simp: save_move_Inr)
  have good2: "good_step now (moved m st) st'" for now unfolding h'(1)
    using hold_row(1,2) [OF assms(1) hin] hin core h'(3,4) pk(3)
    by (intro put_hold_good [OF inv1 _ h'(2)]) (auto simp: counts_on_def hold_active_def hold_open_def)
  have "covered (now_at c) st'" if le: "- mv_delta m \<le> ho_quantity h" and cov: "covered (now_at c) st"
  proof -
    have hi: "holds_inv (length (quants st)) (holds st)" using assms(1) by (simp add: stock_inv_def)
    have h1: "counts_on (now_at c) x h' = 0" for x using h'(4) by (simp add: counts_on_def hold_active_def hold_open_def)
    have h2: "counts_on (now_at c) x h = (if x = qu_id q then ho_quantity h else 0)" for x
      using act pk(3) by (auto simp: counts_on_def)
    have dm: "mv_quant m = qu_id q" using f by simp
    have "0 \<le> quant_available (now_at c) (bump m x) st'" if x: "x \<in> set (quants st)" for x
    proof -
      have held: "held_on (now_at c) (qu_id x) (holds st') =
          held_on (now_at c) (qu_id x) (holds st) - (if qu_id x = qu_id q then ho_quantity h else 0)"
        using held_put [OF hi hin core(2), of "now_at c" "qu_id x"] by (simp add: h'(1) h1 h2)
      have "held_on (now_at c) (qu_id x) (holds st) \<le> qu_quantity x"
        using cov x by (auto simp: covered_def quant_available_def)
      then show ?thesis using le held dm
        by (cases "qu_id x = qu_id q") (simp_all add: quant_available_def bump_def)
    qed
    then show ?thesis by (simp add: covered_def h'(1))
  qed
  moreover have "extends st st'"
    using extends_trans [OF extends_moved [of st m], of st'] good2 [of 0] by (simp add: good_step_def)
  ultimately show thesis
    using that [of h q h'] pk hin qin f act h' good2 by (auto simp: locked_hold_Inr good_step_def)
qed

section \<open>The sweep\<close>

definition sweep :: "int \<Rightarrow> hold list \<Rightarrow> hold list" where
  "sweep now = map (\<lambda>h. if hold_expired_q now h then expire_hold now h else h)"

lemma expire_simps [simp]:
  "hold_expired_q now (expire_hold t h) = False" "hold_active now (expire_hold t h) = False"
  "hold_core (expire_hold t h) = hold_core h" "ho_quant (expire_hold t h) = ho_quant h"
  "ho_id (expire_hold t h) = ho_id h" "ho_quantity (expire_hold t h) = ho_quantity h"
  by (simp_all add: expire_hold_def hold_expired_q_def hold_active_def hold_open_def hold_core_def)

lemma sweep_release_batch: "sweep now (fst (release_batch now cap hs)) = sweep now hs"
  by (induction now cap hs rule: release_batch.induct) (auto simp: sweep_def split_def Let_def)

lemma release_batch_zero: "0 < cap \<Longrightarrow> snd (release_batch now cap hs) = 0 \<Longrightarrow> expired_count now hs = 0"
  by (induction now cap hs rule: release_batch.induct) (auto simp: expired_count_def split_def Let_def split: if_splits)

lemma sweep_none: "expired_count now hs = 0 \<Longrightarrow> sweep now hs = hs"
  by (induction hs) (auto simp: sweep_def expired_count_def split: if_splits)

lemma release_loop_sweep:
  "0 < cap \<Longrightarrow> release_expired_loop now cap d hs = (sweep now hs, d + expired_count now hs)"
proof (induction now cap d hs rule: release_expired_loop.induct)
  case (1 now cap d hs)
  obtain hs' n where b: "release_batch now cap hs = (hs', n)" by fastforce
  show ?case
  proof (cases "n = 0")
    case True
    then have "expired_count now hs = 0" using release_batch_zero [OF "1.prems", of now hs] b by simp
    then show ?thesis using True b by (subst release_expired_loop.simps) (simp add: sweep_none)
  next
    case False
    then have "release_expired_loop now cap (d + n) hs' = (sweep now hs', d + n + expired_count now hs')"
      using "1.IH" [OF b [symmetric] refl False "1.prems"] by simp
    then show ?thesis
      using False b sweep_release_batch [of now cap hs] release_batch_count [of now cap hs]
      by (subst release_expired_loop.simps) simp
  qed
qed

lemma release_expired_eq:
  "0 < cap \<Longrightarrow> release_expired c cap st = (st\<lparr>holds := sweep (now_at c) (holds st)\<rparr>, expired_count (now_at c) (holds st))"
  by (simp add: release_expired_def release_loop_sweep)

lemma release_expired_zero: "release_expired c 0 st = (st, 0)"
proof -
  have "release_batch now 0 hs = (hs, 0)" for now hs
    by (induction hs) auto
  then have "release_expired_loop (now_at c) 0 0 (holds st) = (holds st, 0)"
    by (subst release_expired_loop.simps) simp
  then show ?thesis by (simp add: release_expired_def)
qed

lemma sweep_counts: "held_on now q (sweep now hs) = held_on now q hs"
proof -
  have "\<not> hold_active now h" if "hold_expired_q now h" for h
    using that by (auto simp: hold_expired_q_def hold_active_def split: option.splits)
  then show ?thesis by (induction hs) (auto simp: sweep_def counts_on_def)
qed

lemma release_expired_good:
  assumes "stock_inv st" "release_expired c cap st = (st', n)"
  shows "good_step (now_at c) st st'" "moves st' = moves st" "quants st' = quants st"
proof -
  have sw: "map ho_id (sweep now hs) = map ho_id hs" "map hold_core (sweep now hs) = map hold_core hs" for now hs
    by (auto simp: sweep_def)
  show "moves st' = moves st" "quants st' = quants st"
    using assms(2) by (auto simp: release_expired_def split: prod.splits)
  show "good_step (now_at c) st st'"
  proof (cases "cap = 0")
    case True
    then show ?thesis using assms good_refl by (simp add: release_expired_zero)
  next
    case False
    then have st': "st' = st\<lparr>holds := sweep (now_at c) (holds st)\<rparr>" using assms(2) by (simp add: release_expired_eq)
    have "holds_inv (length (quants st)) (sweep (now_at c) (holds st))"
      using assms(1) sw(1) [of "now_at c" "holds st"] arg_cong [OF sw(1), of length "now_at c" "holds st"]
      by (auto simp: stock_inv_def holds_inv_def) (auto simp: sweep_def)
    then show ?thesis
      using assms(1) sw(2) by (auto simp: good_step_def stock_inv_def st' extends_def covered_def quant_available_def sweep_counts)
  qed
qed

section \<open>Extending and retagging\<close>

lemma extend_spec:
  assumes "stock_inv st" "extend_hold c s expires st = Inr (st', ok)"
  shows "good_step (now_at c) st st' \<and> moves st' = moves st \<and> quants st' = quants st \<and>
    (if ok then \<exists>h \<in> set (holds st). hold_active (now_at c) h \<and> st' = put_hold (h\<lparr>ho_expires_at := expires\<rparr>) st else st' = st)"
proof (cases ok)
  case False
  then have "st' = st" using assms(2) by (auto simp: extend_hold_def ebind_Inr split: option.splits if_splits)
  then show ?thesis using False assms(1) good_refl by simp
next
  case True
  then obtain pk h where h: "find_hold pk st = Some h" "hold_active (now_at c) h"
    and st': "st' = put_hold (h\<lparr>ho_expires_at := expires\<rparr>) st"
    using assms(2) by (auto simp: extend_hold_def ebind_Inr split: option.splits if_splits)
  have hin: "h \<in> set (holds st)" using inv_find_hold [OF assms(1) h(1)] by simp
  have "good_step (now_at c) st st'" unfolding st'
    using hold_row(1,2) [OF assms(1) hin] h(2)
    by (intro put_hold_good [OF assms(1) hin]) (auto simp: counts_on_def hold_core_def)
  then show ?thesis using True h hin st' by auto
qed

lemma retag_spec:
  assumes "stock_inv st" "retag_reference c s r extra st = Inr (st', ok)"
  shows "good_step now st st' \<and> moves st' = moves st \<and> quants st' = quants st \<and>
    (if ok then \<exists>h \<in> set (holds st). hold_active (now_at c) h \<and>
       st' = put_hold (h\<lparr>ho_metadata := dmerge (dset ''reference'' r (ho_metadata h)) extra\<rparr>) st else st' = st)"
proof (cases ok)
  case False
  then have "st' = st" using assms(2) by (auto simp: retag_reference_def ebind_Inr split: option.splits if_splits)
  then show ?thesis using False assms(1) good_refl by simp
next
  case True
  then obtain pk h where h: "find_hold pk st = Some h" "hold_active (now_at c) h"
    and st': "st' = put_hold (h\<lparr>ho_metadata := dmerge (dset ''reference'' r (ho_metadata h)) extra\<rparr>) st"
    using assms(2) by (auto simp: retag_reference_def ebind_Inr split: option.splits if_splits)
  have hin: "h \<in> set (holds st)" using inv_find_hold [OF assms(1) h(1)] by simp
  have "good_step now st st'" unfolding st'
    using hold_row(1,2) [OF assms(1) hin]
    by (intro put_hold_good [OF assms(1) hin]) (auto simp: counts_on_def hold_core_def hold_active_def)
  then show ?thesis using True h hin st' by auto
qed

end
