(* ===== verification/StockRealize.thy ===== *)
theory StockRealize
  imports StockHoldLaws "HOL-Library.Sublist"
begin

text \<open>
  Laws of production planning: what \<open>realize\<close> writes (the lot, the two moves, the holds that
  follow the bread to the shelf) and that the physical quant is never promised beyond what was
  produced.
\<close>

section \<open>The pool\<close>

lemma pool_rows: "h \<in> set (realize_pool c planned sku target grade hs) \<Longrightarrow> h \<in> set hs"
  by (auto simp: realize_pool_def Let_def)

lemma pool_distinct:
  assumes "distinct (map ho_id hs)"
  shows "distinct (map ho_id (realize_pool c planned sku target grade hs))"
proof -
  let ?a = "filter (\<lambda>h. ho_quant h = Some planned \<and> hold_open (ho_status h)) hs"
  let ?f = "filter (\<lambda>h. ho_quant h = None \<and> ho_sku h = sku \<and> ho_target h = target \<and> hold_active (now_at c) h) hs"
  have inj: "inj_on ho_id (set hs)" and d: "distinct hs" using assms by (auto simp: distinct_map)
  have "distinct (?a @ ?f)" using d by auto
  then have "distinct (realize_pool c planned sku target grade hs)"
    by (simp add: realize_pool_def Let_def del: filter_append distinct_append)
  moreover have "inj_on ho_id (set (realize_pool c planned sku target grade hs))"
    using inj by (rule inj_on_subset) (auto dest: pool_rows)
  ultimately show ?thesis by (simp add: distinct_map)
qed

lemma pool_sorted: "sorted (map (\<lambda>h. (hold_priority h, ho_created_at h)) (realize_pool c planned sku target grade hs))"
  by (simp add: realize_pool_def Let_def)

lemma materialize_frame:
  "materialize phys expires actual pool t ids st = (st', ids') \<Longrightarrow>
     quants st' = quants st \<and> moves st' = moves st \<and> batches st' = batches st \<and> positions st' = positions st \<and>
     materialized st' = materialized st"
proof (induction pool arbitrary: t ids st)
  case Nil
  then show ?case by simp
next
  case (Cons h pool)
  then show ?case by (fastforce simp: Let_def split: if_splits)
qed

text \<open>
  The loop moves holds to the physical quant up to the produced amount: what it adds to the
  held amount of that quant is within the amount still to give, and no other quant gains.
\<close>

lemma materialize_spec:
  assumes "stock_inv st" "distinct (map ho_id pool)" "set pool \<subseteq> set (holds st)" "phys < length (quants st)"
    "t \<le> actual" "materialize phys expires actual pool t ids st = (st', ids')"
  shows "stock_inv st' \<and> extends st st' \<and>
    (\<exists>gain. 0 \<le> gain \<and> t + gain \<le> actual \<and> held_on now phys (holds st') \<le> held_on now phys (holds st) + gain) \<and>
    (\<forall>q. q \<noteq> phys \<longrightarrow> held_on now q (holds st') \<le> held_on now q (holds st)) \<and>
    (\<exists>new. ids' = ids @ new \<and> subseq new (map ho_id pool))"
  using assms
proof (induction pool arbitrary: t ids st)
  case Nil
  then show ?case by (auto intro!: exI [of _ 0])
next
  case (Cons h pool)
  show ?case
  proof (cases "t \<ge> actual")
    case True
    then have "st' = st" "ids' = ids" using Cons.prems(6) by simp_all
    then show ?thesis using Cons.prems(1,5) by (auto intro!: exI [of _ 0])
  next
    case less: False
    show ?thesis
    proof (cases "t + ho_quantity h > actual")
      case True
      then have "materialize phys expires actual pool t ids st = (st', ids')" using Cons.prems(6) less by simp
      with Cons.IH [OF Cons.prems(1) _ _ Cons.prems(4,5)] Cons.prems(2,3) show ?thesis by auto
    next
      case False
      define h' where "h' = h\<lparr>ho_quant := Some phys,
                   ho_expires_at := (case ho_expires_at h of None \<Rightarrow> Some expires | Some t \<Rightarrow> Some t)\<rparr>"
      define st1 where "st1 = put_hold h' st"
      have m: "materialize phys expires actual pool (t + ho_quantity h) (ids @ [ho_id h]) st1 = (st', ids')"
        using Cons.prems(6) less False by (simp add: h'_def st1_def Let_def)
      have hin: "h \<in> set (holds st)" using Cons.prems(3) by simp
      have hi: "holds_inv (length (quants st)) (holds st)" using Cons.prems(1) by (simp add: stock_inv_def)
      have h': "hold_core h' = hold_core h" "ho_quant h' = Some phys" "ho_id h' = ho_id h" "ho_quantity h' = ho_quantity h"
        by (simp_all add: h'_def hold_core_def)
      have pos: "0 < ho_quantity h" using hold_row [OF Cons.prems(1) hin] by simp
      have inv1: "stock_inv st1"
        using Cons.prems(1,4) holds_inv_put [OF hi hin h'(3)] h' pos by (simp add: st1_def stock_inv_def)
      have ext1: "extends st st1"
        using row_put_map_same [of ho_id "holds st" h h' hold_core] hi ids_distinct hin h'
        by (auto simp: st1_def extends_def holds_inv_def)
      have sub: "set pool \<subseteq> set (holds st1)"
      proof
        fix x assume x: "x \<in> set pool"
        then have "ho_id x \<noteq> ho_id h" using Cons.prems(2) by (metis distinct.simps(2) image_eqI list.simps(9) set_map)
        then show "x \<in> set (holds st1)" using x Cons.prems(3) h'(3) by (auto simp: st1_def set_row_put)
      qed
      have len: "phys < length (quants st1)" using Cons.prems(4) by (simp add: st1_def)
      from Cons.IH [OF inv1 _ sub len _ m] Cons.prems(2) False obtain gain new where
        ih: "stock_inv st'" "extends st1 st'" "0 \<le> gain" "t + ho_quantity h + gain \<le> actual"
          "held_on now phys (holds st') \<le> held_on now phys (holds st1) + gain"
          "\<forall>q. q \<noteq> phys \<longrightarrow> held_on now q (holds st') \<le> held_on now q (holds st1)"
          "ids' = (ids @ [ho_id h]) @ new" "subseq new (map ho_id pool)"
        by auto
      have put: "held_on now q (holds st1) = held_on now q (holds st) - counts_on now q h + counts_on now q h'" for q
        unfolding st1_def put_simps by (rule held_put [OF hi hin h'(3)])
      have "held_on now phys (holds st1) \<le> held_on now phys (holds st) + ho_quantity h"
        using put [of phys] pos h' counts_on_nonneg [of h now phys] by (auto simp: counts_on_def)
      then have "held_on now phys (holds st') \<le> held_on now phys (holds st) + (ho_quantity h + gain)" using ih(5) by simp
      moreover have "held_on now q (holds st') \<le> held_on now q (holds st)" if "q \<noteq> phys" for q
        using that put [of q] h' ih(6) pos counts_on_nonneg [of h now q] by (fastforce simp: counts_on_def)
      moreover have "0 \<le> ho_quantity h + gain" "t + (ho_quantity h + gain) \<le> actual" using ih(3,4) pos by simp_all
      moreover have "ids' = ids @ (ho_id h # new)" "subseq (ho_id h # new) (map ho_id (h # pool))" using ih(7,8) by simp_all
      ultimately show ?thesis using ih(1) extends_trans [OF ext1 ih(2)] by blast
    qed
  qed
qed

text \<open>No hold is lost and none changes its status.\<close>

lemma materialize_status:
  assumes "materialize phys expires actual pool t ids st = (st', ids')" "stock_inv st" "set pool \<subseteq> set (holds st)"
    "distinct (map ho_id pool)" "phys < length (quants st)" "h \<in> set (holds st)"
  shows "\<exists>h' \<in> set (holds st'). hold_core h' = hold_core h \<and> ho_status h' = ho_status h"
  using assms
proof (induction pool arbitrary: t ids st h)
  case Nil
  then show ?case by auto
next
  case (Cons g pool)
  show ?case
  proof (cases "t \<ge> actual \<or> t + ho_quantity g > actual")
    case True
    then show ?thesis using Cons.IH [of t ids st h] Cons.prems by (auto split: if_splits)
  next
    case False
    define g' where "g' = g\<lparr>ho_quant := Some phys,
                   ho_expires_at := (case ho_expires_at g of None \<Rightarrow> Some expires | Some t \<Rightarrow> Some t)\<rparr>"
    define st1 where "st1 = put_hold g' st"
    have m: "materialize phys expires actual pool (t + ho_quantity g) (ids @ [ho_id g]) st1 = (st', ids')"
      using Cons.prems(1) False by (simp add: g'_def st1_def Let_def)
    have g: "g \<in> set (holds st)" using Cons.prems(3) by simp
    have core: "hold_core g' = hold_core g" "ho_status g' = ho_status g" "ho_id g' = ho_id g" "ho_quantity g' = ho_quantity g"
      "ho_quant g' = Some phys"
      by (simp_all add: g'_def hold_core_def)
    have inv1: "stock_inv st1"
      using Cons.prems(2,5) holds_inv_put [of "length (quants st)" "holds st" g g'] hold_row [OF Cons.prems(2) g] g core
      by (simp add: st1_def stock_inv_def)
    have sub: "set pool \<subseteq> set (holds st1)"
    proof
      fix x assume x: "x \<in> set pool"
      then have "ho_id x \<noteq> ho_id g" using Cons.prems(4) by (metis distinct.simps(2) image_eqI list.simps(9) set_map)
      then show "x \<in> set (holds st1)" using x Cons.prems(3) core by (auto simp: st1_def set_row_put)
    qed
    obtain h1 where h1: "h1 \<in> set (holds st1)" "hold_core h1 = hold_core h" "ho_status h1 = ho_status h"
    proof (cases "h = g")
      case True
      have "g' \<in> set (holds st1)" using g core by (auto simp: st1_def set_row_put image_iff intro: bexI [of _ g])
      then show ?thesis using that True core by auto
    next
      case False
      then have "ho_id h \<noteq> ho_id g"
        using g Cons.prems(2,6) ids_key_eq [of ho_id "holds st" h g] by (auto simp: stock_inv_def holds_inv_def)
      then have "h \<in> set (holds st1)" using Cons.prems(6) core by (auto simp: st1_def set_row_put)
      then show ?thesis using that by auto
    qed
    have "phys < length (quants st1)" using Cons.prems(5) by (simp add: st1_def)
    from Cons.IH [OF m inv1 sub _ this h1(1)] Cons.prems(4) h1 show ?thesis by auto
  qed
qed

section \<open>Realize\<close>

lemma realize_batch_good:
  assumes "stock_inv st" "realize_batch cat p target a st = Inr (st', ref)"
  shows "good_step now st st' \<and> quants st' = quants st \<and> moves st' = moves st \<and> holds st' = holds st \<and>
    ref = or_text (re_to_batch a) (daily_batch (pd_sku p) target) \<and>
    (\<exists>b \<in> set (batches st'). ba_ref b = ref \<and> ba_sku b = pd_sku p \<and> (re_to_grade a \<noteq> [] \<longrightarrow> ba_grade b = re_to_grade a))"
proof -
  let ?sku = "pd_sku p"
  let ?ref = "or_text (re_to_batch a) (daily_batch ?sku target)"
  define new where "new = \<lparr>ba_ref = ?ref, ba_sku = ?sku, ba_production = Some target,
             ba_expiry = map_option (\<lambda>d. target + d) (case pd_shelf p of Some d \<Rightarrow> Some d | None \<Rightarrow> shelf_life_days_for cat ?sku),
             ba_grade = re_to_grade a, ba_markdown = 0\<rparr>"
  obtain st1 b created where g: "get_or_create_batch new st = (st1, b, created)" by (cases "get_or_create_batch new st") auto
  note gg = get_or_create_batch_good [OF assms(1) g]
  have e: "(if ba_sku b \<noteq> ?sku then Inl Stk_batch_sku_conflict
      else if re_to_grade a \<noteq> [] \<and> \<not> created then
        if ba_grade b \<noteq> [] \<and> ba_grade b \<noteq> re_to_grade a then Inl Stk_batch_quality_conflict
        else if ba_grade b = []
        then Inr (st1\<lparr>batches := row_put ba_ref (b\<lparr>ba_grade := re_to_grade a\<rparr>) (batches st1)\<rparr>, ?ref)
        else Inr (st1, ?ref)
      else Inr (st1, ?ref)) = Inr (st', ref)"
    using assms(2) unfolding realize_batch_def Let_def new_def [symmetric] g by simp
  then have sku: "ba_sku b = ?sku" and ref: "ref = ?ref" by (auto split: if_splits)
  have bref: "ba_ref b = ref" using gg(6) ref by (simp add: new_def)
  have fresh: "created \<Longrightarrow> ba_grade b = re_to_grade a"
    using g by (auto simp: get_or_create_batch_def new_def split: option.splits)
  let ?graded = "st1\<lparr>batches := row_put ba_ref (b\<lparr>ba_grade := re_to_grade a\<rparr>) (batches st1)\<rparr>"
  have two: "st' = st1 \<and> (re_to_grade a \<noteq> [] \<longrightarrow> ba_grade b = re_to_grade a) \<or> st' = ?graded"
  proof (cases "re_to_grade a \<noteq> [] \<and> \<not> created")
    case True
    then show ?thesis using e sku by (cases "ba_grade b = []") (auto split: if_splits)
  next
    case False
    then show ?thesis using e sku fresh by auto
  qed
  show ?thesis
  proof (cases "st' = st1 \<and> (re_to_grade a \<noteq> [] \<longrightarrow> ba_grade b = re_to_grade a)")
    case True
    then show ?thesis using gg ref bref sku by blast
  next
    case False
    then have st': "st' = ?graded" using two by blast
    have d: "distinct (map ba_ref (batches st1))" using gg(1) by (simp add: good_step_def stock_inv_def)
    have core: "map lot_core (batches st') = map lot_core (batches st1)"
      unfolding st' using row_put_map_same [OF d gg(5), of "b\<lparr>ba_grade := re_to_grade a\<rparr>" lot_core] by (simp add: lot_core_def)
    have "good_step now st1 st'"
      using gg(1) core d by (auto simp: good_step_def stock_inv_def extends_def covered_def quant_available_def st')
    moreover have "b\<lparr>ba_grade := re_to_grade a\<rparr> \<in> set (batches st')" using gg(5) by (auto simp: st' set_row_put)
    ultimately show ?thesis
      using gg ref bref sku good_trans [OF gg(1)] by (auto simp: st' intro!: bexI [of _ "b\<lparr>ba_grade := re_to_grade a\<rparr>"])
  qed
qed

lemma realize_source_Some:
  assumes "realize_source sku target a st = Some q"
  shows "q \<in> set (quants st) \<and> qu_sku q = sku \<and> qu_target q = Some target"
  using assms
  by (auto simp: realize_source_def Let_def same_coordinate_def dest!: get_quant_Some split: if_splits)

text \<open>The parts of a \<open>realize\<close> that returned.\<close>

lemma realize_stock_cases:
  assumes inv: "stock_inv st" and ran: "realize_stock c cat ttl p target actual a st = Inr (st', q)"
  obtains planned st1 ref st2 phys debit st3 credit st4 st5 ids where "0 < actual"
    "planned \<in> set (quants st)" "qu_sku planned = pd_sku p" "qu_target planned = Some target"
    "realize_batch cat p target a st = Inr (st1, ref)"
    "get_or_create_quant c (pd_sku p) (re_to_position a) None ref [] st1 = (st2, phys)"
    "(if min actual (max (qu_quantity planned) 0) > 0 then save_move debit st2 else Inr st2) = Inr st3"
    "mv_quant debit = qu_id planned" "mv_delta debit = - min actual (max (qu_quantity planned) 0)" "mv_kind debit = re_kind a"
    "save_move credit st3 = Inr st4" "mv_quant credit = qu_id phys" "mv_delta credit = actual" "mv_kind credit = re_kind a"
    "materialize (qu_id phys) (now_at c + ttl) actual
       (realize_pool c (qu_id planned) (pd_sku p) target (re_to_grade a) (holds st4)) 0 [] st4 = (st5, ids)"
    "st' = (if ids \<noteq> [] then st5\<lparr>materialized := materialized st5 @ [(ids, pd_sku p, target, re_to_position a)]\<rparr> else st5)"
    "row_get qu_id (qu_id phys) (quants st') = Some q"
proof -
  have n: "0 < actual" using ran by (cases "actual \<le> 0") (auto simp: realize_stock_def)
  obtain q0 where q0: "realize_source (pd_sku p) target a st = Some q0"
    using ran n by (auto simp: realize_stock_def Let_def split: option.splits)
  obtain planned where pl: "row_get qu_id (qu_id q0) (quants st) = Some planned"
    using ran n q0 by (auto simp: realize_stock_def Let_def ebind_Inr get_pk_Inr)
  obtain st1 ref where rb: "realize_batch cat p target a st = Inr (st1, ref)"
    using ran n q0 pl by (auto simp: realize_stock_def Let_def get_pk_def ebind_Inr)
  obtain st2 phys where g: "get_or_create_quant c (pd_sku p) (re_to_position a) None ref [] st1 = (st2, phys)" by fastforce
  define debit where "debit = \<lparr>mv_quant = qu_id planned, mv_delta = - min actual (max (qu_quantity planned) 0), mv_kind = re_kind a,
                                   mv_reason = ''Transferencia: '' @ re_reason a, mv_metadata = [],
                                   mv_at = now_at c, mv_user = re_user a\<rparr>"
  define credit where "credit = \<lparr>mv_quant = qu_id phys, mv_delta = actual, mv_kind = re_kind a,
                              mv_reason = ''Recebido de producao: '' @ re_reason a, mv_metadata = [],
                              mv_at = now_at c, mv_user = re_user a\<rparr>"
  define pay where "pay = (if min actual (max (qu_quantity planned) 0) > 0 then save_move debit st2 else Inr st2)"
  have "ebind pay (\<lambda>st3. ebind (save_move credit st3) (\<lambda>st4.
            let pool = realize_pool c (qu_id planned) (pd_sku p) target (re_to_grade a) (holds st4);
                (st5, ids) = materialize (qu_id phys) (now_at c + ttl) actual pool 0 [] st4;
                st6 = (if ids \<noteq> [] then st5\<lparr>materialized := materialized st5 @ [(ids, pd_sku p, target, re_to_position a)]\<rparr>
                       else st5) in
            ebind (get_pk (qu_id phys) st6) (\<lambda>q. Inr (st6, q)))) = Inr (st', q)"
    using ran n q0 pl rb g unfolding realize_stock_def pay_def debit_def credit_def
    by (simp add: get_pk_def Let_def not_le [symmetric])
  then obtain st3 st4 where s3: "pay = Inr st3" and s4: "save_move credit st3 = Inr st4"
    and t: "(let pool = realize_pool c (qu_id planned) (pd_sku p) target (re_to_grade a) (holds st4);
                (st5, ids) = materialize (qu_id phys) (now_at c + ttl) actual pool 0 [] st4;
                st6 = (if ids \<noteq> [] then st5\<lparr>materialized := materialized st5 @ [(ids, pd_sku p, target, re_to_position a)]\<rparr>
                       else st5) in
            ebind (get_pk (qu_id phys) st6) (\<lambda>q. Inr (st6, q))) = Inr (st', q)"
    unfolding ebind_Inr by blast
  obtain st5 ids where m: "materialize (qu_id phys) (now_at c + ttl) actual
       (realize_pool c (qu_id planned) (pd_sku p) target (re_to_grade a) (holds st4)) 0 [] st4 = (st5, ids)" by fastforce
  have st': "st' = (if ids \<noteq> [] then st5\<lparr>materialized := materialized st5 @ [(ids, pd_sku p, target, re_to_position a)]\<rparr> else st5)"
    "row_get qu_id (qu_id phys) (quants st') = Some q"
    using t unfolding Let_def m prod.case ebind_Inr get_pk_Inr by auto
  have src: "planned = q0" "q0 \<in> set (quants st)" "qu_sku q0 = pd_sku p" "qu_target q0 = Some target"
    using row_get_SomeD [OF pl] realize_source_Some [OF q0] inv_same_row [OF inv] by blast+
  show thesis
    by (rule that [OF n _ _ _ rb g s3 [unfolded pay_def] _ _ _ s4 _ _ _ m st'])
      (use src in \<open>simp_all add: debit_def credit_def\<close>)
qed

text \<open>
  Realize keeps the tables well formed, credits exactly what was produced and debits the plan
  by what the plan still had, and leaves every quant but the planned one covered.
\<close>

lemma realize_spec:
  assumes "stock_inv st" "realize_stock c cat ttl p target actual a st = Inr (st', q)"
  shows "stock_inv st' \<and> extends st st' \<and> q \<in> set (quants st') \<and> qu_sku q = pd_sku p \<and>
    qu_position q = re_to_position a \<and> qu_target q = None \<and>
    (\<forall>h \<in> set (holds st). \<exists>h' \<in> set (holds st'). hold_core h' = hold_core h \<and> ho_status h' = ho_status h) \<and>
    (\<exists>planned \<in> set (quants st). \<exists>ds credit. qu_sku planned = pd_sku p \<and> qu_target planned = Some target \<and>
      moves st' = moves st @ ds @ [credit] \<and> mv_quant credit = qu_id q \<and> mv_delta credit = actual \<and>
      (\<forall>d \<in> set ds. mv_quant d = qu_id planned) \<and> sum_list (map mv_delta ds) = - min actual (qu_quantity planned) \<and>
      (\<forall>now. covered now st \<longrightarrow>
         (\<forall>x \<in> set (quants st'). qu_id x \<noteq> qu_id planned \<longrightarrow> 0 \<le> quant_available now x st')))"
  using assms
proof (cases rule: realize_stock_cases)
  case (1 planned st1 ref st2 phys debit st3 credit st4 st5 ids)
  note rb = realize_batch_good [OF assms(1) 1(5)]
  have inv1: "stock_inv st1" using rb [of 0] by (simp add: good_step_def)
  note g = get_or_create_quant_good [OF inv1 1(6)]
  have inv2: "stock_inv st2" using g(1) [of 0] by (simp add: good_step_def)
  have pq: "0 \<le> qu_quantity planned" using 1(2) assms(1) by (auto simp: stock_inv_def quants_inv_def)
  have ext: "extends st st2" using extends_trans rb [of 0] g(1) [of 0] unfolding good_step_def by blast
  have "qu_id planned < length (quants st)"
    using 1(2) assms(1) ids_member [of qu_id "quants st" planned] by (simp add: stock_inv_def quants_inv_def)
  then have plen: "qu_id planned < length (quants st2)" using extends_length [OF ext] by simp
  define ds where "ds = (if min actual (qu_quantity planned) > 0 then [debit] else [])"
  have s3: "stock_inv st3 \<and> extends st2 st3 \<and> moves st3 = moves st2 @ ds \<and> holds st3 = holds st2 \<and>
      quants st3 = foldl (\<lambda>qs m. map (bump m) qs) (quants st2) ds"
  proof (cases "min actual (qu_quantity planned) > 0")
    case True
    then have "save_move debit st2 = Inr st3" using 1(7) pq by (simp add: max_absorb1)
    then show ?thesis using True inv2 moved_inv [of st2 debit] 1(8) plen by (auto simp: save_move_Inr ds_def)
  next
    case False
    then show ?thesis using 1(7) pq inv2 by (auto simp: ds_def max_absorb1)
  qed
  have s4: "st4 = moved credit st3" using 1(11) by (simp add: save_move_Inr)
  have clen: "mv_quant credit < length (quants st3)"
    using g(4) 1(12) extends_length [of st2 st3] s3 by simp
  have inv4: "stock_inv st4"
  proof -
    have "0 \<le> qu_quantity x + mv_delta credit" if "x \<in> set (quants st3)" for x
      using inv_nonneg [of st3 x] s3 that 1(1,13) by simp
    then show ?thesis unfolding s4 using s3 clen by (intro moved_inv) auto
  qed
  have ext4: "extends st st4" using ext s3 s4 extends_trans extends_moved by metis
  have len4: "qu_id phys < length (quants st4)" using clen 1(12) s4 by simp
  let ?pool = "realize_pool c (qu_id planned) (pd_sku p) target (re_to_grade a) (holds st4)"
  have hd: "distinct (map ho_id (holds st4))" using inv4 ids_distinct by (auto simp: stock_inv_def holds_inv_def)
  have sub: "set ?pool \<subseteq> set (holds st4)" by (auto dest: pool_rows)
  have a0: "0 \<le> actual" using 1(1) by simp
  note mat = materialize_spec [OF inv4 pool_distinct [OF hd] sub len4 a0 1(15)]
  note frame = materialize_frame [OF 1(15)]
  have gain: "held_on now (qu_id phys) (holds st5) \<le> held_on now (qu_id phys) (holds st4) + actual" for now
  proof -
    obtain gain where "0 + gain \<le> actual"
      "held_on now (qu_id phys) (holds st5) \<le> held_on now (qu_id phys) (holds st4) + gain"
      using mat [of now] by blast
    then show ?thesis by simp
  qed
  have other: "x \<noteq> qu_id phys \<Longrightarrow> held_on now x (holds st5) \<le> held_on now x (holds st4)" for x now
    using mat [of now] by simp
  have st': "quants st' = quants st4" "moves st' = moves st4" "holds st' = holds st5" "batches st' = batches st4"
    "positions st' = positions st4"
    using 1(16) frame by auto
  have inv': "stock_inv st'" using mat st' frame by (simp add: stock_inv_def)
  have ext': "extends st st'"
  proof -
    have "extends st4 st'" using mat st' frame by (simp add: extends_def)
    then show ?thesis using ext4 extends_trans by blast
  qed
  have qrow: "q \<in> set (quants st4)" "qu_id q = qu_id phys" using row_get_SomeD [OF 1(17)] st'(1) by auto
  have row: "\<exists>z \<in> set (quants st2). qu_id z = qu_id x \<and> coordinate z = coordinate x \<and>
      (qu_id x \<noteq> qu_id planned \<longrightarrow> x = bump credit z)" if x: "x \<in> set (quants st4)" for x
  proof -
    obtain y where y: "y \<in> set (quants st3)" "x = bump credit y" using x by (auto simp: s4)
    have "\<exists>z \<in> set (quants st2). qu_id z = qu_id y \<and> coordinate z = coordinate y \<and> (qu_id y \<noteq> qu_id planned \<longrightarrow> y = z)"
      using y(1) s3 1(8) by (cases "min actual (qu_quantity planned) > 0") (auto simp: ds_def)
    then show ?thesis using y(2) by auto
  qed
  obtain z where "z \<in> set (quants st2)" "qu_id z = qu_id phys" "coordinate z = coordinate q" using row [OF qrow(1)] qrow(2) by auto
  moreover from this have "z = phys" using inv_same_row [OF inv2 _ g(2)] by blast
  ultimately have qf: "qu_sku q = pd_sku p" "qu_position q = re_to_position a" "qu_target q = None"
    using g(3) by (auto simp: coordinate_def same_coordinate_def)
  have cov: "0 \<le> quant_available now x st'" if c: "covered now st" and x: "x \<in> set (quants st')" "qu_id x \<noteq> qu_id planned" for now x
  proof -
    obtain z where z: "z \<in> set (quants st2)" "x = bump credit z" "qu_id z = qu_id x"
      using row [of x] x st'(1) by auto
    have "covered now st2" using c rb [of now] g(1) [of now] by (simp add: good_step_def)
    then have "held_on now (qu_id x) (holds st4) \<le> qu_quantity z"
      using z s3 s4 by (auto simp: covered_def quant_available_def)
    moreover have "qu_quantity x = qu_quantity z + (if qu_id x = qu_id phys then actual else 0)"
      using z(3) 1(12,13) by (subst z(2)) (auto simp: bump_def)
    moreover have "held_on now (qu_id x) (holds st') \<le> held_on now (qu_id x) (holds st4) + (if qu_id x = qu_id phys then actual else 0)"
      using gain other by (simp add: st'(3))
    ultimately show ?thesis by (simp add: quant_available_def)
  qed
  have hs: "holds st4 = holds st" using s4 s3 g(6) rb [of 0] by simp
  have life: "\<exists>h' \<in> set (holds st'). hold_core h' = hold_core h \<and> ho_status h' = ho_status h" if "h \<in> set (holds st)" for h
    using materialize_status [OF 1(15) inv4 sub pool_distinct [OF hd] len4] that hs st'(3) by simp
  have "sum_list (map mv_delta ds) = - min actual (qu_quantity planned)"
    using 1(1,9) pq by (auto simp: ds_def max_absorb1 min_def)
  moreover have "moves st' = moves st @ ds @ [credit]"
    using st'(2) s4 s3 g(5) rb [of 0] by simp
  moreover have "\<forall>d \<in> set ds. mv_quant d = qu_id planned" using 1(8) by (auto simp: ds_def)
  ultimately show ?thesis
    using inv' ext' qrow qf cov life 1(2,3,4,12,13) st'(1)
    by (intro conjI bexI [of _ planned] exI [of _ ds] exI [of _ credit]) auto
qed

end
