(* ===== verification/StockRuns.thy ===== *)
theory StockRuns
  imports StockRealize
begin

text \<open>
  Runs of the stock kernel: one step is one call of an operation at the current instant, or
  the passing of time. The invariant and the append-only ledger over every run, the life of a
  hold as a status machine, and cover (no oversell) over the runs of the operations that
  promise it.
\<close>

section \<open>Steps and runs\<close>

text \<open>
  The label tells which operation a step is. A fulfilment carries whether it consumed no more
  than its hold had reserved (\<open>quantity\<close> may override the amount).
\<close>

datatype stock_op =
    Op_wait | Op_receive | Op_issue | Op_adjust | Op_transfer | Op_hold | Op_confirm | Op_release
  | Op_fulfill bool | Op_sweep | Op_extend | Op_retag | Op_realize | Op_recalculate

definition within_hold :: "string \<Rightarrow> move \<Rightarrow> stock \<Rightarrow> bool" where
  "within_hold s m st \<longleftrightarrow> (case locked_hold s st of Inl err \<Rightarrow> False | Inr h \<Rightarrow> - mv_delta m \<le> ho_quantity h)"

inductive stock_step :: "stock_op \<Rightarrow> int \<times> stock \<Rightarrow> int \<times> stock \<Rightarrow> bool" where
  step_wait: "t \<le> t' \<Longrightarrow> stock_step Op_wait (t, st) (t', st)"
| step_receive: "receive c cat n sku ra st = (st', r) \<Longrightarrow> stock_step Op_receive (now_at c, st) (now_at c, st')"
| step_plan: "plan_stock c cat n p target pos user reason md st = (st', r) \<Longrightarrow>
    stock_step Op_receive (now_at c, st) (now_at c, st')"
| step_issue: "issue c n qid user reason k md st = Inr (st', m) \<Longrightarrow> stock_step Op_issue (now_at c, st) (now_at c, st')"
| step_adjust: "adjust c qid n reason user st = Inr (st', mo) \<Longrightarrow> stock_step Op_adjust (now_at c, st) (now_at c, st')"
| step_replan: "replan_stock c n p target reason user pos b st = Inr (st', q) \<Longrightarrow>
    stock_step Op_adjust (now_at c, st) (now_at c, st')"
| step_transfer: "transfer c cat n sku from_pos to_pos target b user reason st = Inr (st', q) \<Longrightarrow>
    stock_step Op_transfer (now_at c, st) (now_at c, st')"
| step_hold: "hold_stock c cat seen n p ha st = Inr (st', s) \<Longrightarrow> stock_step Op_hold (now_at c, st) (now_at c, st')"
| step_confirm: "confirm_hold s actor st = Inr (st', h) \<Longrightarrow> stock_step Op_confirm (t, st) (t, st')"
| step_release: "release_hold c s reason actor st = Inr (st', h) \<Longrightarrow> stock_step Op_release (now_at c, st) (now_at c, st')"
| step_fulfill: "fulfill_hold c s user actor x k reads st = Inr (st', m) \<Longrightarrow>
    stock_step (Op_fulfill (within_hold s m st)) (now_at c, st) (now_at c, st')"
| step_sweep: "release_expired c cap st = (st', done_n) \<Longrightarrow> stock_step Op_sweep (now_at c, st) (now_at c, st')"
| step_extend: "extend_hold c s expires st = Inr (st', ok) \<Longrightarrow> stock_step Op_extend (now_at c, st) (now_at c, st')"
| step_retag: "retag_reference c s reference extra st = Inr (st', ok) \<Longrightarrow> stock_step Op_retag (now_at c, st) (now_at c, st')"
| step_realize: "realize_stock c cat ttl p target n re st = Inr (st', q) \<Longrightarrow> stock_step Op_realize (now_at c, st) (now_at c, st')"
| step_recalculate: "recalculate qid st = Inr (st', rtot) \<Longrightarrow> stock_step Op_recalculate (t, st) (t, st')"

inductive stock_run :: "stock_op list \<Rightarrow> int \<times> stock \<Rightarrow> int \<times> stock \<Rightarrow> bool" where
  run_stop: "stock_run [] p p"
| run_step: "stock_step op p q \<Longrightarrow> stock_run ops q r \<Longrightarrow> stock_run (op # ops) p r"

inductive_simps run_Nil [simp]: "stock_run [] p q"
inductive_simps run_Cons [simp]: "stock_run (op # ops) p q"

text \<open>
  The operations after which the quants are covered when they were before: all but a count
  correction, the realization of a plan, and a fulfilment beyond its hold.
\<close>

fun keeps_cover :: "stock_op \<Rightarrow> bool" where
  "keeps_cover Op_adjust = False"
| "keeps_cover Op_realize = False"
| "keeps_cover (Op_fulfill inside) = inside"
| "keeps_cover _ = True"

lemma covered_later:
  assumes "stock_inv st" "covered t st" "t \<le> t'"
  shows "covered t' st"
proof -
  have pos: "\<forall>h \<in> set (holds st). 0 \<le> ho_quantity h"
    using hold_row(1) [OF assms(1)] by (auto simp: less_imp_le)
  have "hold_active t' h \<Longrightarrow> hold_active t h" for h
    using assms(3) by (auto simp: hold_active_def split: option.splits)
  then have "held_on t' q (holds st) \<le> held_on t q (holds st)" for q
    unfolding held_on_def using pos by (intro sum_where_mono) auto
  then show ?thesis using assms(2) unfolding covered_def quant_available_def
    by (meson diff_left_mono order_trans)
qed

lemma recalculate_same:
  assumes "stock_inv st" "recalculate qid st = Inr (st', rtot)"
  shows "st' = st"
proof -
  obtain q where "row_get qu_id qid (quants st) = Some q" using assms(2) by (auto simp: recalculate_def ebind_Inr get_pk_Inr)
  moreover from row_get_SomeD [OF this] have "qu_quantity q = ledger_sum qid (moves st)"
    using inv_ledger [OF assms(1)] by blast
  ultimately show ?thesis using assms(2) by (simp add: recalculate_def get_pk_def)
qed

lemma replan_spec:
  assumes "stock_inv st" "replan_stock c n p target reason user pos b st = Inr (st', q)"
  shows "stock_inv st' \<and> extends st st' \<and> holds st' = holds st"
proof -
  obtain qid mo where "adjust c qid n reason user st = Inr (st', mo)"
    using assms(2) by (auto simp: replan_stock_def ebind_Inr split: option.splits prod.splits)
  then show ?thesis using adjust_spec [OF assms(1)] by blast
qed

lemma good_step_case:
  "good_step t st st' \<Longrightarrow>
     stock_inv (snd (t, st')) \<and> extends (snd (t, st)) (snd (t, st')) \<and> fst (t, st) \<le> fst (t, st') \<and>
     (ok \<longrightarrow> covered (fst (t, st)) (snd (t, st)) \<longrightarrow> covered (fst (t, st')) (snd (t, st')))"
  by (simp add: good_step_def)

lemma step_sound:
  assumes "stock_step op p p'" "stock_inv (snd p)"
  shows "stock_inv (snd p') \<and> extends (snd p) (snd p') \<and> fst p \<le> fst p' \<and>
    (keeps_cover op \<longrightarrow> covered (fst p) (snd p) \<longrightarrow> covered (fst p') (snd p'))"
  using assms
proof (induction rule: stock_step.induct)
  case (step_wait t t' st)
  then show ?case using covered_later [of st t t'] by simp
next
  case (step_receive c cat n sku ra st st' r)
  have "good_step (now_at c) st st'"
    using receive_spec [OF step_receive(2) [unfolded snd_conv] step_receive(1)] by blast
  then show ?case by (rule good_step_case)
next
  case (step_plan c cat n p target pos user reason md st st' r)
  have "good_step (now_at c) st st'"
    using receive_spec [OF step_plan(2) [unfolded snd_conv] step_plan(1) [unfolded plan_stock_def]] by blast
  then show ?case by (rule good_step_case)
next
  case (step_issue c n qid user reason k md st st' m)
  have "good_step (now_at c) st st'"
    using issue_spec [OF step_issue(2) [unfolded snd_conv] step_issue(1)] by blast
  then show ?case by (rule good_step_case)
next
  case (step_adjust c qid n reason user st st' mo)
  have "stock_inv st' \<and> extends st st'"
    using adjust_spec [OF step_adjust(2) [unfolded snd_conv] step_adjust(1)] by blast
  then show ?case by simp
next
  case (step_replan c n p target reason user pos b st st' q)
  then show ?case using replan_spec [of st c n p target reason user pos b st' q] by simp
next
  case (step_transfer c cat n sku from_pos to_pos target b user reason st st' q)
  have "good_step (now_at c) st st'"
    using transfer_spec [OF step_transfer(2) [unfolded snd_conv] step_transfer(1)] by blast
  then show ?case by (rule good_step_case)
next
  case (step_hold c cat seen n p ha st st' s)
  show ?case by (rule good_step_case [OF hold_stock_good [OF step_hold(2) [unfolded snd_conv] step_hold(1)]])
next
  case (step_confirm s actor st st' h t)
  have "good_step (t) st st'"
    using confirm_spec [OF step_confirm(2) [unfolded snd_conv] step_confirm(1)] by blast
  then show ?case by (rule good_step_case)
next
  case (step_release c s reason actor st st' h)
  have "good_step (now_at c) st st'"
    using release_spec [OF step_release(2) [unfolded snd_conv] step_release(1)] by blast
  then show ?case by (rule good_step_case)
next
  case (step_fulfill c s user actor x k reads st st' m)
  then have inv: "stock_inv st" by simp
  show ?case
    by (rule fulfill_spec [OF inv step_fulfill(1)]) (simp add: within_hold_def)
next
  case (step_sweep c cap st st' done_n)
  show ?case by (rule good_step_case [OF release_expired_good(1) [OF step_sweep(2) [unfolded snd_conv] step_sweep(1)]])
next
  case (step_extend c s expires st st' ok)
  have "good_step (now_at c) st st'"
    using extend_spec [OF step_extend(2) [unfolded snd_conv] step_extend(1)] by blast
  then show ?case by (rule good_step_case)
next
  case (step_retag c s reference extra st st' ok)
  have "good_step (now_at c) st st'"
    using retag_spec [OF step_retag(2) [unfolded snd_conv] step_retag(1)] by blast
  then show ?case by (rule good_step_case)
next
  case (step_realize c cat ttl p target n re st st' q)
  have "stock_inv st' \<and> extends st st'"
    using realize_spec [OF step_realize(2) [unfolded snd_conv] step_realize(1)] by blast
  then show ?case by simp
next
  case (step_recalculate qid st st' rtot t)
  then show ?case using recalculate_same [of st qid st' rtot] by simp
qed

lemma run_sound:
  assumes "stock_run ops p p'" "stock_inv (snd p)"
  shows "stock_inv (snd p') \<and> extends (snd p) (snd p') \<and> fst p \<le> fst p' \<and>
    (list_all keeps_cover ops \<longrightarrow> covered (fst p) (snd p) \<longrightarrow> covered (fst p') (snd p'))"
  using assms
proof (induction rule: stock_run.induct)
  case (run_stop p)
  then show ?case by simp
next
  case (run_step op p q ops r)
  then show ?case using step_sound [OF run_step(1)] extends_trans by fastforce
qed

end
