(* ===== verification/StockProps.thy ===== *)
theory StockProps
  imports StockRuns StockReadProps
begin

text \<open>
  Properties of the stock kernel over its runs: what every reachable state satisfies, that the
  quants are never oversold, the append-only ledger and the life of a hold (as
  interpretations), and what holding, fulfilling, transferring, realizing and the sweep do.
\<close>

section \<open>A run for the witnesses\<close>

definition shop_clock :: "int \<Rightarrow> clock" where
  "shop_clock t = \<lparr>now_at = t, day_of = (\<lambda>t. t div 100)\<rparr>"

definition shop_positions :: "position list" where
  "shop_positions = [\<lparr>po_ref = ''vitrine'', po_name = ''Vitrine'', po_kind = Physical_pos, po_is_saleable = True\<rparr>]"

definition wine_args :: receive_args where
  "wine_args = \<lparr>ra_position = Some ''vitrine'', ra_target = None, ra_batch = [], ra_user = None,
     ra_reason = ''compra'', ra_kind = Buy_move, ra_metadata = []\<rparr>"

definition wine_hold_args :: hold_args where
  "wine_hold_args = \<lparr>ha_target = None, ha_expires_at = Some 1100, ha_actor = None, ha_scope = open_scope,
     ha_margin = 0, ha_allow_demand = False, ha_metadata = []\<rparr>"

definition wine_hold :: hold where
  "wine_hold = \<lparr>ho_id = 0, ho_sku = ''vinho'', ho_quant = Some 0, ho_quantity = 4, ho_target = 10,
     ho_status = Hold_pending, ho_expires_at = Some 1100, ho_actor = None, ho_created_at = 1010,
     ho_resolved_at = None, ho_metadata = [(version_key, JNum 1)]\<rparr>"

definition wine_quant :: "rat \<Rightarrow> quant" where
  "wine_quant n = \<lparr>qu_id = 0, qu_sku = ''vinho'', qu_position = Some ''vitrine'', qu_target = None, qu_batch = [],
     qu_quantity = n, qu_created_at = 1000, qu_metadata = []\<rparr>"

definition wine_in :: move where
  "wine_in = \<lparr>mv_quant = 0, mv_delta = 10, mv_kind = Buy_move, mv_reason = ''compra'', mv_metadata = [],
     mv_at = 1000, mv_user = None\<rparr>"

definition wine_out :: move where
  "wine_out = \<lparr>mv_quant = 0, mv_delta = - 4, mv_kind = Sell_move, mv_reason = ''Entrega hold:0'', mv_metadata = [],
     mv_at = 1030, mv_user = None\<rparr>"

definition cellar0 :: stock where "cellar0 = stock_init shop_positions"

definition cellar1 :: stock where
  "cellar1 = cellar0\<lparr>quants := [wine_quant 10], moves := [wine_in]\<rparr>"

definition cellar2 :: stock where
  "cellar2 = cellar1\<lparr>holds := [wine_hold]\<rparr>"

definition cellar3 :: stock where
  "cellar3 = cellar1\<lparr>holds := [wine_hold\<lparr>ho_status := Hold_confirmed\<rparr>]\<rparr>"

definition cellar4 :: stock where
  "cellar4 = cellar1\<lparr>quants := [wine_quant 6], moves := [wine_in, wine_out],
     holds := [wine_hold\<lparr>ho_status := Hold_fulfilled, ho_resolved_at := Some 1030\<rparr>]\<rparr>"

lemmas cellar_defs = cellar0_def cellar1_def cellar2_def cellar3_def cellar4_def wine_in_def wine_out_def
  wine_quant_def wine_hold_def stock_init_def shop_positions_def

lemma cellar_receive:
  "receive (shop_clock 1000) bakery_catalogue 10 ''vinho'' wine_args cellar0 = (cellar1, Inr (wine_quant 10))"
  by (simp add: receive_def receive_batch_def receive_into_def shop_clock_def wine_args_def cellar_defs
      bakery_catalogue_def shelf_life_days_for_def get_or_create_quant_def get_quant_def save_move_def get_pk_def Let_def)

lemma cellar_hold:
  "hold_stock (shop_clock 1010) bakery_catalogue cellar1 4 (just_sku ''vinho'') wine_hold_args cellar1 =
     Inr (cellar2, ''hold:0'')"
  by code_simp

lemma cellar_confirm: "confirm_hold ''hold:0'' None cellar2 = Inr (cellar3, wine_hold\<lparr>ho_status := Hold_confirmed\<rparr>)"
  by code_simp

lemma cellar_fulfill:
  "fulfill_hold (shop_clock 1030) ''hold:0'' None None None Sell_move [Some 0] cellar3 = Inr (cellar4, wine_out)"
  by code_simp

lemma shop_now [simp]: "now_at (shop_clock t) = t"
  by (simp add: shop_clock_def)

lemma wait_step: "t \<le> t' \<Longrightarrow> stock_step Op_wait (t, st) (t', st)"
  by (rule step_wait)

lemma cellar_steps:
  "stock_step Op_receive (1000, cellar0) (1000, cellar1)"
  "stock_step Op_hold (1010, cellar1) (1010, cellar2)"
  "stock_step Op_confirm (1020, cellar2) (1020, cellar3)"
  "stock_step (Op_fulfill True) (1030, cellar3) (1030, cellar4)"
proof -
  show "stock_step Op_receive (1000, cellar0) (1000, cellar1)" using step_receive [OF cellar_receive] by simp
  show "stock_step Op_hold (1010, cellar1) (1010, cellar2)" using step_hold [OF cellar_hold] by simp
  show "stock_step Op_confirm (1020, cellar2) (1020, cellar3)" by (rule step_confirm [OF cellar_confirm])
  have "within_hold ''hold:0'' wine_out cellar3" by code_simp
  then show "stock_step (Op_fulfill True) (1030, cellar3) (1030, cellar4)" using step_fulfill [OF cellar_fulfill] by simp
qed

lemma cellar_run:
  "stock_run [Op_receive, Op_wait, Op_hold, Op_wait, Op_confirm, Op_wait, Op_fulfill True] (1000, cellar0) (1030, cellar4)"
  "stock_run [Op_confirm, Op_wait, Op_fulfill True] (1020, cellar2) (1030, cellar4)"
  using cellar_steps wait_step [of 1000 1010] wait_step [of 1010 1020] wait_step [of 1020 1030]
  by (auto intro!: run_step run_stop simp del: run_Cons)

section \<open>Reachable states\<close>

text \<open>C3: In every state the kernel can reach, the cached quantity of a quant is the sum of its
  moves and never negative, no two quants share a coordinate (SKU, position, date, lot), lots
  have distinct references, and every hold asks for a positive amount on a quant that exists.\<close>

theorem stock_reachable:
  assumes "stock_run ops (t0, stock_init ps) (t, st)"
  shows "(\<forall>q \<in> set (quants st). qu_quantity q = ledger_sum (qu_id q) (moves st) \<and> 0 \<le> qu_quantity q) \<and>
    distinct (map coordinate (quants st)) \<and> distinct (map ba_ref (batches st)) \<and>
    (\<forall>m \<in> set (moves st). \<exists>q \<in> set (quants st). qu_id q = mv_quant m) \<and>
    (\<forall>h \<in> set (holds st). 0 < ho_quantity h \<and>
       (\<forall>k. ho_quant h = Some k \<longrightarrow> (\<exists>q \<in> set (quants st). qu_id q = k)))"
proof -
  have inv: "stock_inv st" using run_sound [OF assms] by (simp add: stock_inv_init)
  have ids: "map qu_id (quants st) = [0..<length (quants st)]" using inv by (simp add: stock_inv_def quants_inv_def)
  have ex: "\<exists>q \<in> set (quants st). qu_id q = k" if "k < length (quants st)" for k
    using arg_cong [OF ids, of set] that by (metis atLeast0LessThan imageE lessThan_iff list.set_map set_upt)
  have "\<forall>m \<in> set (moves st). mv_quant m < length (quants st)" using inv by (simp add: stock_inv_def quants_inv_def)
  moreover have "k < length (quants st)" if "h \<in> set (holds st)" "ho_quant h = Some k" for h k
    using hold_row(2) [OF inv that(1)] that(2) by simp
  ultimately show ?thesis
    using inv_ledger [OF inv] inv_nonneg [OF inv] hold_row(1) [OF inv] inv ex
    by (simp add: stock_inv_def quants_inv_def)
qed

theorem stock_reachable_witness:
  "quants cellar4 = [wine_quant 6] \<and> qu_quantity (wine_quant 6) = ledger_sum 0 (moves cellar4)"
  using stock_reachable [OF cellar_run(1) [unfolded cellar0_def]]
  by (simp add: cellar4_def) (simp add: wine_quant_def)

text \<open>C8: No oversell: from a covered state, over any run of receiving, planning, issuing,
  transferring, holding (whatever stale state the unlocked reads saw), confirming, releasing,
  fulfilling within the hold, expiring, extending and retagging, with time passing, the
  active holds of every quant never exceed its quantity.\<close>

theorem no_oversell:
  assumes "stock_run ops (t0, st0) (t, st)" "list_all keeps_cover ops" "stock_inv st0" "covered t0 st0" "q \<in> set (quants st)"
  shows "held_on t (qu_id q) (holds st) \<le> qu_quantity q"
  using run_sound [OF assms(1)] assms(2-5) by (auto simp: covered_def quant_available_def)

lemma cellar_inv: "stock_inv cellar0" "covered t cellar0"
  by (simp_all add: cellar0_def stock_inv_init) (simp add: covered_def stock_init_def)

theorem no_oversell_witness:
  "held_on 1030 0 (holds cellar4) \<le> qu_quantity (wine_quant 6) \<and> cellar4 \<noteq> cellar0"
proof -
  have "wine_quant 6 \<in> set (quants cellar4)" by (simp add: cellar4_def)
  moreover have "list_all keeps_cover [Op_receive, Op_wait, Op_hold, Op_wait, Op_confirm, Op_wait, Op_fulfill True]" by simp
  ultimately show ?thesis
    using no_oversell [OF cellar_run(1) _ cellar_inv(1) cellar_inv(2), of "wine_quant 6"]
    by (simp add: wine_quant_def) (simp add: cellar_defs)
qed

section \<open>The ledger\<close>

definition stock_grows_step :: "int \<times> stock \<Rightarrow> int \<times> stock \<Rightarrow> bool" where
  "stock_grows_step p q \<longleftrightarrow> stock_inv (snd p) \<and> (\<exists>op. stock_step op p q)"

interpretation stock_ledger: append_ledger "\<lambda>p. moves (snd p)" stock_grows_step
  by unfold_locales (use step_sound in \<open>fastforce simp: stock_grows_step_def extends_def\<close>)

lemma run_grows: "stock_run ops p q \<Longrightarrow> stock_inv (snd p) \<Longrightarrow> stock_grows_step\<^sup>*\<^sup>* p q"
proof (induction rule: stock_run.induct)
  case (run_step op p q ops r)
  then have "stock_grows_step p q" "stock_inv (snd q)" using step_sound by (auto simp: stock_grows_step_def)
  with run_step show ?case by (meson converse_rtranclp_into_rtranclp)
qed simp

text \<open>The ledger of moves is append-only: over any run every move recorded before is still
  there, unchanged and in its place, and no run changes the coordinate of a quant, the facts
  of a lot (origin, dates, markdown) or what a hold asks for.\<close>

theorem stock_ledger_append_only:
  assumes "stock_inv st0" "stock_run ops (t0, st0) (t, st)"
  shows "(\<forall>i < length (moves st0). moves st ! i = moves st0 ! i) \<and>
    (\<exists>qs. map coordinate (quants st) = map coordinate (quants st0) @ qs) \<and>
    (\<exists>bs. map lot_core (batches st) = map lot_core (batches st0) @ bs) \<and>
    (\<exists>hs. map hold_core (holds st) = map hold_core (holds st0) @ hs)"
  using stock_ledger.run_keeps_entry [OF run_grows [OF assms(2)]] run_sound [OF assms(2)] assms(1)
  by (simp add: extends_def)

theorem stock_ledger_append_only_witness: "moves cellar4 ! 0 = wine_in"
proof -
  have "stock_inv cellar1" using step_sound [OF cellar_steps(1)] cellar_inv by simp
  then have "stock_inv cellar2" using step_sound [OF cellar_steps(2)] by simp
  from stock_ledger_append_only [OF this cellar_run(2)] show ?thesis by (simp add: cellar2_def cellar1_def cellar0_def)
qed

end
