(* ===== verification/StockLife.thy ===== *)
theory StockLife
  imports StockProps
begin

text \<open>
  The life of a hold: its status machine (an interpretation of the ranked machine), the choice
  of the quant that expires first, fulfilment, the sweep of expired holds and adoption.
\<close>

section \<open>The status machine\<close>

definition hold_allowed :: "hold_status \<Rightarrow> hold_status list" where
  "hold_allowed s = (case s of
     Hold_pending \<Rightarrow> [Hold_confirmed, Hold_released]
   | Hold_confirmed \<Rightarrow> [Hold_fulfilled, Hold_released]
   | Hold_fulfilled \<Rightarrow> [] | Hold_released \<Rightarrow> [])"

definition hold_terminal :: "hold_status \<Rightarrow> bool" where
  "hold_terminal s \<longleftrightarrow> s \<in> {Hold_fulfilled, Hold_released}"

definition hold_rank :: "hold_status \<Rightarrow> nat" where
  "hold_rank s = (case s of Hold_pending \<Rightarrow> 0 | Hold_confirmed \<Rightarrow> 1 | Hold_fulfilled \<Rightarrow> 2 | Hold_released \<Rightarrow> 2)"

interpretation hold_life: ranked_machine hold_allowed hold_terminal hold_rank 2
  by unfold_locales (auto simp: hold_allowed_def hold_terminal_def hold_rank_def split: hold_status.splits)

text \<open>What one step does to a hold: the same hold, its status the same or one move further.\<close>

definition next_hold :: "hold \<Rightarrow> hold \<Rightarrow> bool" where
  "next_hold h h' \<longleftrightarrow> hold_core h' = hold_core h \<and>
     (ho_status h' = ho_status h \<or> ho_status h' \<in> set (hold_allowed (ho_status h)))"

lemma next_refl [simp]: "next_hold h h"
  by (simp add: next_hold_def)

lemma put_next:
  assumes "stock_inv st" "h \<in> set (holds st)" "g \<in> set (holds st)" "next_hold g g'"
  shows "\<exists>h' \<in> set (holds (put_hold g' st)). next_hold h h'"
proof (cases "h = g")
  case True
  have "ho_id g' = ho_id g" using assms(4) by (simp add: next_hold_def hold_core_def)
  then have "g' \<in> set (holds (put_hold g' st))" using assms(3) by (simp add: set_row_put image_iff) (metis)
  then show ?thesis using True assms(4) by blast
next
  case False
  have "ho_id h \<noteq> ho_id g"
    using False assms(1-3) ids_key_eq [of ho_id "holds st" h g] by (auto simp: stock_inv_def holds_inv_def)
  then have "h \<in> set (holds (put_hold g' st))" using assms(2,4) by (auto simp: set_row_put next_hold_def hold_core_def)
  then show ?thesis using next_refl by blast
qed

lemma next_trans_same: "next_hold h g \<Longrightarrow> hold_core k = hold_core g \<Longrightarrow> ho_status k = ho_status g \<Longrightarrow> next_hold h k"
  by (simp add: next_hold_def)

lemma same_next: "holds st' = holds st \<Longrightarrow> h \<in> set (holds st) \<Longrightarrow> \<exists>h' \<in> set (holds st'). next_hold h h'"
  by (intro bexI [of _ h]) auto

lemma moved_next:
  assumes "stock_inv st" "h \<in> set (holds st)" "g \<in> set (holds st)" "next_hold g g'"
  shows "\<exists>h' \<in> set (holds (put_hold g' (moved m st))). next_hold h h'"
  using put_next [OF assms] by simp

lemma step_life:
  assumes "stock_step op p p'" "stock_inv (snd p)" "h \<in> set (holds (snd p))"
  shows "\<exists>h' \<in> set (holds (snd p')). next_hold h h'"
  using assms
proof (induction rule: stock_step.induct)
  case (step_wait t t' st)
  then show ?case by (auto intro: next_refl)
next
  case (step_receive c cat n sku ra st st' r)
  have "holds st' = holds st"
    using receive_spec [OF step_receive(2) [unfolded snd_conv] step_receive(1)] by blast
  then show ?case using step_receive(3) by (simp add: same_next)
next
  case (step_plan c cat n p target pos user reason md st st' r)
  have "holds st' = holds st"
    using receive_spec [OF step_plan(2) [unfolded snd_conv] step_plan(1) [unfolded plan_stock_def]] by blast
  then show ?case using step_plan(3) by (simp add: same_next)
next
  case (step_issue c n qid user reason k md st st' m)
  have "st' = moved m st" using issue_spec [OF step_issue(2) [unfolded snd_conv] step_issue(1)] by blast
  then show ?case using step_issue(3) by (simp add: same_next)
next
  case (step_adjust c qid n reason user st st' mo)
  have "holds st' = holds st" using adjust_spec [OF step_adjust(2) [unfolded snd_conv] step_adjust(1)] by blast
  then show ?case using step_adjust(3) by (simp add: same_next)
next
  case (step_replan c n p target reason user pos b st st' q)
  have "holds st' = holds st" using replan_spec [OF step_replan(2) [unfolded snd_conv] step_replan(1)] by blast
  then show ?case using step_replan(3) by (simp add: same_next)
next
  case (step_transfer c cat n sku from_pos to_pos target b user reason st st' q)
  have "holds st' = holds st" using transfer_spec [OF step_transfer(2) [unfolded snd_conv] step_transfer(1)] by blast
  then show ?case using step_transfer(3) by (simp add: same_next)
next
  case (step_hold c cat seen n p ha st st' s)
  obtain g where "holds st' = holds st @ [g]"
    using step_hold(1) by (cases rule: hold_stock_cases) (auto simp: new_hold_def Let_def)
  then show ?case using step_hold(3) by (auto intro: next_refl)
next
  case (step_confirm s actor st st' h' t)
  obtain g where "g \<in> set (holds st)" "ho_status g = Hold_pending" "ho_status h' = Hold_confirmed"
    "hold_core h' = hold_core g" "st' = put_hold h' st"
    using confirm_spec [OF step_confirm(2) [unfolded snd_conv] step_confirm(1)] by blast
  then show ?case using put_next [of st h g h'] step_confirm(2,3) by (simp add: next_hold_def hold_allowed_def)
next
  case (step_release c s reason actor st st' h')
  obtain g where "g \<in> set (holds st)" "hold_open (ho_status g)" "ho_status h' = Hold_released"
    "hold_core h' = hold_core g" "st' = put_hold h' st"
    using release_spec [OF step_release(2) [unfolded snd_conv] step_release(1)] by blast
  then show ?case using put_next [of st h g h'] step_release(2,3) by (auto simp: next_hold_def hold_allowed_def hold_open_def)
next
  case (step_fulfill c s user actor x k reads st st' m)
  from step_fulfill(2) have inv: "stock_inv st" by simp
  obtain g g' where "g \<in> set (holds st)" "ho_status g = Hold_confirmed" "ho_status g' = Hold_fulfilled"
    "hold_core g' = hold_core g" "st' = put_hold g' (moved m st)"
    by (rule fulfill_spec [OF inv step_fulfill(1)]) blast
  then show ?case using moved_next [OF inv, of h g g' m] step_fulfill(3) by (simp add: next_hold_def hold_allowed_def)
next
  case (step_sweep c cap st st' done_n)
  have "holds st' = sweep (now_at c) (holds st) \<or> st' = st"
    using step_sweep(1) by (cases "cap = 0") (auto simp: release_expired_zero release_expired_eq)
  moreover have "next_hold h (if hold_expired_q (now_at c) h then expire_hold (now_at c) h else h)"
    by (auto simp: next_hold_def hold_expired_q_def expire_hold_def hold_open_def hold_allowed_def hold_core_def)
  moreover have "(if hold_expired_q (now_at c) h then expire_hold (now_at c) h else h) \<in> set (sweep (now_at c) (holds st))"
    using step_sweep(3) by (auto simp: sweep_def)
  ultimately show ?case using step_sweep(3) next_refl [of h] by (metis snd_conv)
next
  case (step_extend c s expires st st' ok)
  have "holds st' = holds st \<or> (\<exists>g \<in> set (holds st). st' = put_hold (g\<lparr>ho_expires_at := expires\<rparr>) st)"
    using extend_spec [OF step_extend(2) [unfolded snd_conv] step_extend(1)] by (cases ok) auto
  then show ?case
    using same_next [of st' st h] put_next [of st h] step_extend(2,3) by (fastforce simp: next_hold_def hold_core_def)
next
  case (step_retag c s reference extra st st' ok)
  have "holds st' = holds st \<or>
      (\<exists>g \<in> set (holds st). st' = put_hold (g\<lparr>ho_metadata := dmerge (dset ''reference'' reference (ho_metadata g)) extra\<rparr>) st)"
    using retag_spec [OF step_retag(2) [unfolded snd_conv] step_retag(1)] by (cases ok) auto
  then show ?case
    using same_next [of st' st h] put_next [of st h] step_retag(2,3) by (fastforce simp: next_hold_def hold_core_def)
next
  case (step_realize c cat ttl p target n re st st' q)
  obtain h' where "h' \<in> set (holds st')" "hold_core h' = hold_core h" "ho_status h' = ho_status h"
    using realize_spec [OF step_realize(2) [unfolded snd_conv] step_realize(1)] step_realize(3) unfolding snd_conv by blast
  then show ?case by (auto simp: next_hold_def)
next
  case (step_recalculate qid st st' rtot t)
  then show ?case using recalculate_same [of st qid st' rtot] same_next [of st st h] by simp
qed

lemma run_life:
  assumes "stock_run ops p p'" "stock_inv (snd p)" "h \<in> set (holds (snd p))"
  shows "\<exists>h' \<in> set (holds (snd p')). hold_core h' = hold_core h \<and>
    (\<exists>path. hold_life.history (ho_status h) path \<and> ho_status h' = last (ho_status h # path))"
  using assms
proof (induction arbitrary: h rule: stock_run.induct)
  case (run_stop p)
  then show ?case by (intro bexI [of _ h] conjI exI [of _ "[]"]) auto
next
  case (run_step op p q ops r)
  then obtain g where g: "g \<in> set (holds (snd q))" "next_hold h g" using step_life by blast
  have "stock_inv (snd q)" using step_sound [OF run_step(1)] run_step(4) by blast
  then obtain h' path where h': "h' \<in> set (holds (snd r))" "hold_core h' = hold_core g"
    "hold_life.history (ho_status g) path" "ho_status h' = last (ho_status g # path)"
    using run_step(3) g(1) by blast
  show ?case
  proof (cases "ho_status g = ho_status h")
    case True
    then show ?thesis using h' g(2) by (intro bexI [of _ h'] conjI exI [of _ path]) (auto simp: next_hold_def)
  next
    case False
    then have "hold_life.history (ho_status h) (ho_status g # path)" using h'(3) g(2) by (simp add: next_hold_def)
    then show ?thesis using h' g(2) by (intro bexI [of _ h'] conjI exI [of _ "ho_status g # path"]) (auto simp: next_hold_def)
  qed
qed

text \<open>C30: A hold lives as its diagram says: over any run it stays in the table with the same
  terms, its status follows the allowed transitions in at most two moves, and a hold that was
  fulfilled or released keeps that status for ever.\<close>

theorem hold_lifecycle:
  assumes "stock_inv st0" "stock_run ops (t0, st0) (t, st)" "h \<in> set (holds st0)"
  shows "\<exists>h' \<in> set (holds st). hold_core h' = hold_core h \<and>
    (\<exists>path. hold_life.history (ho_status h) path \<and> length path \<le> 2 \<and> ho_status h' = last (ho_status h # path)) \<and>
    (hold_terminal (ho_status h) \<longrightarrow> ho_status h' = ho_status h)"
proof -
  obtain h' path where h': "h' \<in> set (holds st)" "hold_core h' = hold_core h"
    "hold_life.history (ho_status h) path" "ho_status h' = last (ho_status h # path)"
    using run_life [OF assms(2)] assms(1,3) by fastforce
  moreover have "length path \<le> 2" by (rule hold_life.history_bounded [OF h'(3)])
  moreover have "path = []" if "hold_terminal (ho_status h)" by (rule hold_life.terminal_history [OF that h'(3)])
  ultimately show ?thesis by (intro bexI [of _ h'] conjI exI [of _ path]) auto
qed

theorem hold_lifecycle_witness:
  "\<exists>h' \<in> set (holds cellar4). hold_core h' = hold_core wine_hold \<and> ho_status h' = Hold_fulfilled"
proof -
  have "stock_inv cellar1" using step_sound [OF cellar_steps(1)] cellar_inv by simp
  then have "stock_inv cellar2" using step_sound [OF cellar_steps(2)] by simp
  moreover have "wine_hold \<in> set (holds cellar2)" by (simp add: cellar2_def)
  ultimately obtain h' where "h' \<in> set (holds cellar4)" "hold_core h' = hold_core wine_hold"
    using hold_lifecycle [OF _ cellar_run(2)] by blast
  then show ?thesis by (auto simp: cellar4_def)
qed

section \<open>Holding\<close>

lemma find_sort_key:
  fixes k :: "'a \<Rightarrow> 'k::linorder"
  assumes "find P (sort_key k xs) = Some x"
  shows "x \<in> set xs \<and> P x \<and> (\<forall>y \<in> set xs. P y \<longrightarrow> k x \<le> k y)"
proof -
  obtain i where i: "i < length (sort_key k xs)" "P (sort_key k xs ! i)" "x = sort_key k xs ! i"
    "\<forall>j < i. \<not> P (sort_key k xs ! j)"
    using assms by (auto simp: find_Some_iff)
  have "k x \<le> k y" if y: "y \<in> set xs" "P y" for y
  proof -
    obtain j where j: "j < length (sort_key k xs)" "y = sort_key k xs ! j"
      using y(1) by (metis in_set_conv_nth set_sort)
    then have "i \<le> j" using i(4) y(2) by (metis not_le)
    then show ?thesis using sorted_nth_mono [OF sorted_sort_key [of k xs], of i j] i j by simp
  qed
  then show ?thesis using i by (metis nth_mem set_sort)
qed

text \<open>C29: Holding takes the lot that expires first: a hold is a new pending row of exactly the
  amount asked, and it is either a demand without stock or anchored on a quant that the
  canonical scope found eligible and that, among all the eligible quants with enough free,
  has the smallest expiry (then age); under the lock that quant still has the amount free,
  whatever the unlocked reads saw.\<close>

theorem hold_takes_first_expiring:
  assumes "stock_inv st" "hold_stock c cat seen n p a st = Inr (st', s)"
  defines "h \<equiv> last (holds st')"
    and "target \<equiv> (case ha_target a of Some t \<Rightarrow> t | None \<Rightarrow> today c)"
  shows "0 < n \<and> holds st' = holds st @ [h] \<and> moves st' = moves st \<and> quants st' = quants st \<and>
    s = hold_id (ho_id h) \<and> ho_quantity h = n \<and> ho_sku h = pd_sku p \<and> ho_status h = Hold_pending \<and>
    (case ho_quant h of None \<Rightarrow> True
     | Some k \<Rightarrow>
        (\<exists>q \<in> set (quants st). qu_id q = k \<and> n \<le> quant_available (now_at c) q st) \<and>
        (\<exists>q0 \<in> set (quants_eligible_for c cat (pd_sku p) target (ha_scope a) seen). qu_id q0 = k \<and>
           (\<forall>r \<in> set (quants_eligible_for c cat (pd_sku p) target (ha_scope a) seen).
              n \<le> quant_available (now_at c) r seen \<longrightarrow>
              fefo_key (batches seen) q0 \<le> fefo_key (batches seen) r)))"
  using assms(2)
proof (cases rule: hold_stock_cases)
  case (anchored q0 q md tgt)
  have tgt: "tgt = target" using anchored(3) by (simp add: target_def)
  note f = find_sort_key [OF anchored(2) [unfolded find_quant_for_hold_def tgt]]
  have q: "q \<in> set (quants st)" "qu_id q = qu_id q0" using row_get_SomeD [OF anchored(5)] by auto
  have "holds st' = holds st @ [h] \<and> moves st' = moves st \<and> quants st' = quants st \<and> s = hold_id (ho_id h) \<and>
      ho_quantity h = n \<and> ho_sku h = pd_sku p \<and> ho_status h = Hold_pending \<and> ho_quant h = Some (qu_id q)"
    using anchored(7) by (auto simp: new_hold_def Let_def h_def)
  then show ?thesis using anchored(1,6) q f by auto
next
  case (floating md tgt)
  have "holds st' = holds st @ [h] \<and> moves st' = moves st \<and> quants st' = quants st \<and> s = hold_id (ho_id h) \<and>
      ho_quantity h = n \<and> ho_sku h = pd_sku p \<and> ho_status h = Hold_pending \<and> ho_quant h = None"
    using floating(4) by (auto simp: new_hold_def Let_def h_def)
  then show ?thesis using floating(1) by simp
qed

lemma cellar_invs: "stock_inv cellar1" "stock_inv cellar2" "stock_inv cellar3"
proof -
  show 1: "stock_inv cellar1" using step_sound [OF cellar_steps(1)] cellar_inv by simp
  show 2: "stock_inv cellar2" using step_sound [OF cellar_steps(2)] 1 by simp
  show "stock_inv cellar3" using step_sound [OF cellar_steps(3)] 2 by simp
qed

theorem hold_takes_first_expiring_witness:
  "\<exists>q \<in> set (quants cellar1). qu_id q = 0 \<and> 4 \<le> quant_available 1010 q cellar1"
  using hold_takes_first_expiring [OF cellar_invs(1) cellar_hold] by (simp add: cellar2_def wine_hold_def)

section \<open>Fulfilling\<close>

text \<open>A fulfilment delivers once: it appends exactly one move on the quant of the hold, of
  the reserved amount (or the amount given), leaves the hold fulfilled, and after it, over any
  later run, no call fulfils that hold again.\<close>

theorem fulfilled_once:
  assumes "stock_inv st" "fulfill_hold c s user actor x k reads st = Inr (st1, m)"
    "stock_run ops (t1, st1) (t2, st2)"
  shows "(\<exists>h \<in> set (holds st). locked_hold s st = Inr h \<and> ho_status h = Hold_confirmed \<and> hold_active (now_at c) h \<and>
      moves st1 = moves st @ [m] \<and> ho_quant h = Some (mv_quant m) \<and>
      mv_delta m = - (case x of Some y \<Rightarrow> y | None \<Rightarrow> ho_quantity h)) \<and>
    \<not> (\<exists>c' user' actor' x' k' reads' st3 m'. fulfill_hold c' s user' actor' x' k' reads' st2 = Inr (st3, m'))"
proof -
  obtain h h' :: hold and q :: quant where f: "locked_hold s st = Inr h" "h \<in> set (holds st)" "ho_quant h = Some (qu_id q)"
    "ho_status h = Hold_confirmed" "hold_active (now_at c) h" "mv_quant m = qu_id q"
    "mv_delta m = - (case x of Some y \<Rightarrow> y | None \<Rightarrow> ho_quantity h)"
    "st1 = put_hold h' (moved m st)" "hold_core h' = hold_core h" "ho_status h' = Hold_fulfilled" "stock_inv st1"
    by (rule fulfill_spec [OF assms(1,2)]) blast
  obtain pk where pk: "parse_hold_id s = Inr pk" "find_hold pk st = Some h" using f(1) by (auto simp: locked_hold_Inr)
  have id: "ho_id h' = ho_id h" "int (ho_id h) = pk" using f(9) inv_find_hold [OF assms(1) pk(2)] by (auto simp: hold_core_def)
  have "h' \<in> set (holds st1)" using f(2,8) id by (auto simp: set_row_put intro: rev_image_eqI)
  from run_life [OF assms(3), of h'] f(10,11) this obtain g path where g: "g \<in> set (holds st2)" "hold_core g = hold_core h'"
    "hold_life.history Hold_fulfilled path" "ho_status g = last (Hold_fulfilled # path)"
    by auto
  have "path = []" by (rule hold_life.terminal_history [OF _ g(3)]) (simp add: hold_terminal_def)
  then have gs: "ho_status g = Hold_fulfilled" using g(4) by simp
  have inv2: "stock_inv st2" using run_sound [OF assms(3)] f(11) by simp
  have "\<not> (fulfill_hold c' s user' actor' x' k' reads' st2 = Inr (st3, m'))" for c' user' actor' x' k' reads' st3 m'
  proof
    assume "fulfill_hold c' s user' actor' x' k' reads' st2 = Inr (st3, m')"
    then obtain r where r: "locked_hold s st2 = Inr r" "ho_status r = Hold_confirmed"
      by (rule fulfill_spec [OF inv2]) blast
    then have rr: "r \<in> set (holds st2)" "int (ho_id r) = pk"
      using pk(1) inv_find_hold [OF inv2] by (auto simp: locked_hold_Inr)
    have "ho_id g = ho_id h'" using g(2) by (simp add: hold_core_def)
    then have "ho_id r = ho_id g" using rr(2) id by simp
    then have "r = g" using inv2 g(1) rr(1) ids_key_eq [of ho_id "holds st2" r g] by (simp add: stock_inv_def holds_inv_def)
    then show False using gs r(2) by simp
  qed
  moreover have "moves st1 = moves st @ [m]" using f(8) by simp
  ultimately show ?thesis using f by auto
qed

theorem fulfilled_once_witness:
  "moves cellar4 = moves cellar3 @ [wine_out] \<and>
   \<not> (\<exists>st m. fulfill_hold (shop_clock 1040) ''hold:0'' None None None Sell_move [Some 0] cellar4 = Inr (st, m))"
proof -
  have "stock_run [] (1030, cellar4) (1030, cellar4)" by simp
  from fulfilled_once [OF cellar_invs(3) cellar_fulfill this] show ?thesis by blast
qed

end
