(* ===== verification/StockPlanProps.thy ===== *)
theory StockPlanProps
  imports StockLife
begin

text \<open>
  Properties of the sweep, of hold identifiers, of transfers and of realize, with the two
  behaviours that the code does not mean: a transfer that renews a shelf life and an expired
  hold that takes bread from an active one.
\<close>

section \<open>The sweep\<close>

text \<open>C33: The sweep of expired holds ends (its loop runs while a batch is not empty) and, for
  every batch size above zero, releases exactly the holds whose time has passed and returns
  their number; the amount available on every quant is what it was.\<close>

theorem sweep_exact:
  assumes "0 < cap" "release_expired c cap st = (st', n)"
  shows "holds st' = map (\<lambda>h. if hold_expired_q (now_at c) h
      then h\<lparr>ho_status := Hold_released, ho_resolved_at := Some (now_at c)\<rparr> else h) (holds st) \<and>
    n = length (filter (hold_expired_q (now_at c)) (holds st)) \<and>
    (\<forall>h \<in> set (holds st'). \<not> hold_expired_q (now_at c) h) \<and>
    quants st' = quants st \<and> moves st' = moves st \<and>
    (\<forall>q. quant_available (now_at c) q st' = quant_available (now_at c) q st)"
proof -
  have st': "st' = st\<lparr>holds := sweep (now_at c) (holds st)\<rparr>" "n = expired_count (now_at c) (holds st)"
    using assms by (simp_all add: release_expired_eq)
  have none: "\<forall>h \<in> set (sweep (now_at c) (holds st)). \<not> hold_expired_q (now_at c) h"
    by (auto simp: sweep_def)
  have av: "quant_available (now_at c) q st' = quant_available (now_at c) q st" for q
    by (simp add: st' quant_available_def sweep_counts)
  have hs: "holds st' = map (\<lambda>h. if hold_expired_q (now_at c) h
      then h\<lparr>ho_status := Hold_released, ho_resolved_at := Some (now_at c)\<rparr> else h) (holds st)"
    by (auto simp: st' sweep_def expire_hold_def)
  have "holds st' = sweep (now_at c) (holds st)" "quants st' = quants st" "moves st' = moves st"
    by (simp_all add: st'(1))
  with none have "\<forall>h \<in> set (holds st'). \<not> hold_expired_q (now_at c) h" "quants st' = quants st" "moves st' = moves st"
    by simp_all
  then show ?thesis using av hs st'(2) unfolding expired_count_def by blast
qed

theorem sweep_exact_witness:
  "snd (release_expired (shop_clock 1200) 5 cellar2) = 1 \<and>
   map ho_status (holds (fst (release_expired (shop_clock 1200) 5 cellar2))) = [Hold_released]"
proof -
  obtain st' n where r: "release_expired (shop_clock 1200) 5 cellar2 = (st', n)"
    by (cases "release_expired (shop_clock 1200) 5 cellar2") blast
  from sweep_exact [OF zero_less_numeral r] have "n = length (filter (hold_expired_q 1200) (holds cellar2))"
    "holds st' = map (\<lambda>h. if hold_expired_q 1200 h
      then h\<lparr>ho_status := Hold_released, ho_resolved_at := Some 1200\<rparr> else h) (holds cellar2)"
    unfolding shop_now by blast+
  moreover have "hold_expired_q 1200 wine_hold" by (simp add: wine_hold_def hold_expired_q_def hold_open_def)
  ultimately show ?thesis unfolding r by (simp add: cellar2_def)
qed

section \<open>Hold identifiers\<close>

text \<open>C40: A hold identifier names its row: parsing the identifier of a hold gives its key back,
  and a text that does not start as one is refused.\<close>

theorem hold_id_roundtrip:
  "parse_hold_id (hold_id n) = Inr (int n) \<and> (take 5 s \<noteq> ''hold:'' \<longrightarrow> parse_hold_id s = Inl Stk_invalid_hold)"
proof -
  have ok: "\<forall>ch \<in> set (nat_text n). \<not> is_space ch \<and> ch \<noteq> CHR '':'' \<and> ch \<noteq> CHR ''-'' \<and> ch \<noteq> CHR ''+''"
    using nat_text_digits digit_not_special by blast
  have tw: "takeWhile (\<lambda>ch. ch \<noteq> CHR '':'') (nat_text n) = nat_text n" using ok by (simp add: takeWhile_eq_all_conv)
  have "strip (nat_text n) = nat_text n"
    using ok by (simp add: strip_def dropWhile_eq_self_iff)
      (metis dropWhile_hd_no hd_in_set hd_rev last_in_set nat_text_value rev_rev_ident set_rev)
  moreover obtain ch cs where "nat_text n = ch # cs" using nat_text_value by (meson neq_Nil_conv)
  ultimately have "python_int (nat_text n) = Some (int n)"
    using ok nat_text_value [of n] by (simp add: python_int_def)
  then show ?thesis
    unfolding parse_hold_id_def hold_id_def by (simp add: tw del: takeWhile_eq_all_conv)
qed

theorem hold_id_roundtrip_witness: "parse_hold_id (hold_id 1207) = Inr 1207 \<and> parse_hold_id ''lot:7'' = Inl Stk_invalid_hold"
  using hold_id_roundtrip [of 1207 "''lot:7''"] by simp

section \<open>Transfers\<close>

text \<open>What the shop has of a SKU, over all its quants.\<close>

definition sku_total :: "stock \<Rightarrow> string \<Rightarrow> rat" where
  "sku_total st sku = sum_where (\<lambda>q. qu_sku q = sku) qu_quantity (quants st)"

lemma sum_where_nth: "sum_where P f xs = (\<Sum>i<length xs. if P (xs ! i) then f (xs ! i) else 0)"
proof (induction xs)
  case (Cons x xs)
  then show ?case by (simp add: sum.lessThan_Suc_shift del: sum.lessThan_Suc cong: if_cong)
qed simp

lemma sum_where_row:
  assumes "map qu_id qs = [0..<length qs]" "k < length qs"
  shows "sum_where P (\<lambda>q. if qu_id q = k then d else 0) qs = (if P (qs ! k) then d else (0::rat))"
proof -
  have id: "qu_id (qs ! i) = i" if "i < length qs" for i
    using assms(1) that by (metis add.left_neutral nth_map nth_upt)
  have "sum_where P (\<lambda>q. if qu_id q = k then d else 0) qs = (\<Sum>i<length qs. if i = k then (if P (qs ! k) then d else 0) else 0)"
    unfolding sum_where_nth by (rule sum.cong) (auto simp: id)
  also have "\<dots> = (if P (qs ! k) then d else 0)" using assms(2) by simp
  finally show ?thesis .
qed

lemma sum_where_plus: "sum_where P (\<lambda>x. f x + g x) xs = sum_where P f xs + sum_where P g xs"
  by (induction xs) (auto simp: ac_simps)

lemma sum_where_zero [simp]: "sum_where P (\<lambda>x. 0) xs = 0"
  by (induction xs) auto

text \<open>The total is the sum of the moves on quants of the SKU.\<close>

lemma total_is_ledger:
  assumes "stock_inv st"
  shows "sku_total st sku = sum_where (\<lambda>m. qu_sku (quants st ! mv_quant m) = sku) mv_delta (moves st)"
proof -
  have ids: "map qu_id (quants st) = [0..<length (quants st)]" using assms by (simp add: stock_inv_def quants_inv_def)
  have "sku_total st sku = sum_where (\<lambda>q. qu_sku q = sku) (\<lambda>q. ledger_sum (qu_id q) (moves st)) (quants st)"
    unfolding sku_total_def by (rule sum_where_cong) (use inv_ledger [OF assms] in auto)
  also have "\<dots> = sum_where (\<lambda>m. qu_sku (quants st ! mv_quant m) = sku) mv_delta ms"
    if "ms = moves st" "\<forall>m \<in> set ms. mv_quant m < length (quants st)" for ms
    using that(2) unfolding that(1) [symmetric]
  proof (induction ms)
    case Nil
    then show ?case by (simp add: ledger_sum_def)
  next
    case (Cons m ms)
    have "ledger_sum k (m # ms) = (if k = mv_quant m then mv_delta m else 0) + ledger_sum k ms" for k
      by (auto simp: ledger_sum_def)
    then show ?case using Cons sum_where_row [OF ids, of "mv_quant m" "\<lambda>q. qu_sku q = sku" "mv_delta m"]
      by (simp add: sum_where_plus)
  qed
  finally show ?thesis using assms by (simp add: stock_inv_def quants_inv_def)
qed

lemma extends_sku:
  assumes "extends st st'" "k < length (quants st)"
  shows "qu_sku (quants st' ! k) = qu_sku (quants st ! k)"
proof -
  have "map coordinate (quants st') ! k = map coordinate (quants st) ! k"
    using assms by (auto simp: extends_def nth_append)
  then show ?thesis using assms extends_length [OF assms(1)] by (simp add: coordinate_def)
qed

lemma inv_nth:
  assumes "stock_inv st" "q \<in> set (quants st)"
  shows "quants st ! qu_id q = q"
proof -
  have ids: "map qu_id (quants st) = [0..<length (quants st)]" using assms(1) by (simp add: stock_inv_def quants_inv_def)
  have "row_get qu_id (qu_id q) (quants st) = Some q" using inv_get_quant [OF assms(1)] assms(2) by blast
  then show ?thesis using ids_row_get [OF ids, of "qu_id q"] by (simp split: if_splits)
qed

text \<open>A transfer conserves: it writes two moves, minus the amount on a quant of the origin
  that had it free and plus the amount on a quant of the destination, and the total of every
  SKU in the shop is what it was.\<close>

theorem transfer_conserves:
  assumes "stock_inv st" "transfer c cat n sku from_pos to_pos target b user reason st = Inr (st', q)"
  shows "sku_total st' s = sku_total st s \<and> from_pos \<noteq> to_pos \<and> 0 < n \<and> holds st' = holds st \<and>
    (\<exists>origin \<in> set (quants st). \<exists>m1 m2. qu_position origin = from_pos \<and> qu_position q = to_pos \<and>
       qu_sku origin = sku \<and> qu_sku q = sku \<and> n \<le> quant_available (now_at c) origin st \<and>
       moves st' = moves st @ [m1, m2] \<and> mv_quant m1 = qu_id origin \<and> mv_delta m1 = - n \<and>
       mv_quant m2 = qu_id q \<and> mv_delta m2 = n)"
proof -
  note t = transfer_spec [OF assms]
  have inv': "stock_inv st'" and ext: "extends st st'" using t unfolding good_step_def by blast+
  obtain o1 m1 m2 where o1: "o1 \<in> set (quants st)" "same_coordinate sku from_pos target b o1"
    "n \<le> quant_available (now_at c) o1 st" "moves st' = moves st @ [m1, m2]" "mv_quant m1 = qu_id o1"
    "mv_delta m1 = - n" "mv_quant m2 = qu_id q" "mv_delta m2 = n"
    using t by blast
  have q: "q \<in> set (quants st')" "qu_sku q = sku" "qu_position q = to_pos" "holds st' = holds st" "0 < n" "from_pos \<noteq> to_pos"
    using t by blast+
  have len: "\<forall>m \<in> set (moves st). mv_quant m < length (quants st)" using assms(1) by (simp add: stock_inv_def quants_inv_def)
  have olen: "qu_id o1 < length (quants st)"
    using o1(1) assms(1) ids_member [of qu_id "quants st" o1] by (simp add: stock_inv_def quants_inv_def)
  have sk: "qu_sku (quants st' ! qu_id o1) = sku" "qu_sku (quants st' ! qu_id q) = sku"
    using extends_sku [OF ext olen] inv_nth [OF assms(1) o1(1)] o1(2) inv_nth [OF inv' q(1)] q(2)
    by (simp_all add: same_coordinate_def)
  have "sum_where (\<lambda>m. qu_sku (quants st' ! mv_quant m) = s) mv_delta (moves st) =
      sum_where (\<lambda>m. qu_sku (quants st ! mv_quant m) = s) mv_delta (moves st)"
    by (rule sum_where_cong) (use extends_sku [OF ext] len in auto)
  then have "sku_total st' s = sku_total st s"
    by (simp add: total_is_ledger [OF inv'] total_is_ledger [OF assms(1)] o1(4-8) sk)
  then show ?thesis using o1 q by (auto simp: same_coordinate_def)
qed

definition cellar5 :: stock where
  "cellar5 = cellar1\<lparr>quants := [wine_quant 7, (wine_quant 3)\<lparr>qu_id := 1, qu_position := None, qu_created_at := 1040\<rparr>],
     moves := [wine_in, \<lparr>mv_quant = 0, mv_delta = - 3, mv_kind = Transfer_move, mv_reason = ''caixa'', mv_metadata = [],
                         mv_at = 1040, mv_user = None\<rparr>,
               \<lparr>mv_quant = 1, mv_delta = 3, mv_kind = Transfer_move, mv_reason = ''caixa'', mv_metadata = [],
                mv_at = 1040, mv_user = None\<rparr>]\<rparr>"

lemma cellar_transfer:
  "transfer (shop_clock 1040) bakery_catalogue 3 ''vinho'' (Some ''vitrine'') None None [] None ''caixa'' cellar1 =
     Inr (cellar5, (wine_quant 3)\<lparr>qu_id := 1, qu_position := None, qu_created_at := 1040\<rparr>)"
  by code_simp

theorem transfer_conserves_witness: "sku_total cellar5 ''vinho'' = sku_total cellar1 ''vinho'' \<and> quants cellar5 \<noteq> quants cellar1"
  using transfer_conserves [OF cellar_invs(1) cellar_transfer, of "''vinho''"] by (simp add: cellar5_def cellar1_def wine_quant_def)

section \<open>Realizing a plan\<close>

text \<open>Realizing a production credits the physical quant with exactly what was produced and
  debits the plan by at most what it still had; no hold is lost or changes status, and every
  quant except the planned one stays covered: the holds that follow the bread to the shelf
  never exceed what was baked.\<close>

theorem realize_credits:
  assumes "stock_inv st" "realize_stock c cat ttl p target actual a st = Inr (st', q)"
  shows "qu_sku q = pd_sku p \<and> qu_position q = re_to_position a \<and> qu_target q = None \<and>
    (\<forall>h \<in> set (holds st). \<exists>h' \<in> set (holds st'). hold_core h' = hold_core h \<and> ho_status h' = ho_status h) \<and>
    (\<exists>planned \<in> set (quants st). \<exists>ds credit. qu_sku planned = pd_sku p \<and> qu_target planned = Some target \<and>
      moves st' = moves st @ ds @ [credit] \<and> mv_quant credit = qu_id q \<and> mv_delta credit = actual \<and>
      (\<forall>d \<in> set ds. mv_quant d = qu_id planned) \<and> sum_list (map mv_delta ds) = - min actual (qu_quantity planned) \<and>
      (covered now st \<longrightarrow>
         (\<forall>x \<in> set (quants st'). qu_id x \<noteq> qu_id planned \<longrightarrow> 0 \<le> quant_available now x st')))"
  using realize_spec [OF assms] by blast

text \<open>A day at the oven: twelve loaves planned, two holds of six, and at noon ten come out.\<close>

definition loaf :: product where "loaf = just_sku ''pao''"

definition loaf_hold_args :: "int \<Rightarrow> hold_args" where
  "loaf_hold_args t = \<lparr>ha_target = Some 11, ha_expires_at = Some t, ha_actor = None, ha_scope = open_scope,
     ha_margin = 0, ha_allow_demand = False, ha_metadata = []\<rparr>"

definition bake_args :: realize_args where
  "bake_args = \<lparr>re_to_position = Some ''vitrine'', re_from_position = None, re_from_batch = [], re_user = None,
     re_reason = ''fornada'', re_kind = Make_move, re_to_batch = ''l1'', re_to_grade = []\<rparr>"

definition oven1 :: stock where
  "oven1 = fst (plan_stock (shop_clock 1000) bakery_catalogue 12 loaf 11 None None ''plano'' [] cellar0)"

definition ok_stock :: "stock_error + (stock \<times> 'a) \<Rightarrow> stock \<Rightarrow> stock" where
  "ok_stock m st = (case m of Inl err \<Rightarrow> st | Inr (st', x) \<Rightarrow> st')"

definition oven2 :: stock where
  "oven2 = ok_stock (hold_stock (shop_clock 1010) bakery_catalogue oven1 6 loaf (loaf_hold_args 1030) oven1) oven1"

definition oven3 :: stock where
  "oven3 = ok_stock (hold_stock (shop_clock 1020) bakery_catalogue oven2 6 loaf (loaf_hold_args 1500) oven2) oven2"

definition oven4 :: stock where
  "oven4 = ok_stock (realize_stock (shop_clock 1200) bakery_catalogue 30 loaf 11 10 bake_args oven3) oven3"

lemma ok_stock_eq: "\<not> isl m \<Longrightarrow> \<exists>x. m = Inr (ok_stock m st, x)"
  by (cases m) (auto simp: ok_stock_def)

lemma oven_ok:
  "\<not> isl (hold_stock (shop_clock 1010) bakery_catalogue oven1 6 loaf (loaf_hold_args 1030) oven1)"
  "\<not> isl (hold_stock (shop_clock 1020) bakery_catalogue oven2 6 loaf (loaf_hold_args 1500) oven2)"
  "\<not> isl (realize_stock (shop_clock 1200) bakery_catalogue 30 loaf 11 10 bake_args oven3)"
  by code_simp+

lemma oven_steps:
  "stock_step Op_receive (1000, cellar0) (1000, oven1)" "stock_step Op_hold (1010, oven1) (1010, oven2)"
  "stock_step Op_hold (1020, oven2) (1020, oven3)"
proof -
  obtain r where "plan_stock (shop_clock 1000) bakery_catalogue 12 loaf 11 None None ''plano'' [] cellar0 = (oven1, r)"
    unfolding oven1_def by (metis prod.collapse)
  from step_plan [OF this] show "stock_step Op_receive (1000, cellar0) (1000, oven1)" by simp
  obtain x where "hold_stock (shop_clock 1010) bakery_catalogue oven1 6 loaf (loaf_hold_args 1030) oven1 = Inr (oven2, x)"
    using ok_stock_eq [OF oven_ok(1)] unfolding oven2_def by blast
  from step_hold [OF this] show "stock_step Op_hold (1010, oven1) (1010, oven2)" by simp
  obtain y where "hold_stock (shop_clock 1020) bakery_catalogue oven2 6 loaf (loaf_hold_args 1500) oven2 = Inr (oven3, y)"
    using ok_stock_eq [OF oven_ok(2)] unfolding oven3_def by blast
  from step_hold [OF this] show "stock_step Op_hold (1020, oven2) (1020, oven3)" by simp
qed

lemma oven_inv: "stock_inv oven3"
  using step_sound [OF oven_steps(1)] step_sound [OF oven_steps(2)] step_sound [OF oven_steps(3)] cellar_inv(1) by simp

lemma oven_realize: "\<exists>q. realize_stock (shop_clock 1200) bakery_catalogue 30 loaf 11 10 bake_args oven3 = Inr (oven4, q)"
  using ok_stock_eq [OF oven_ok(3)] unfolding oven4_def by blast

theorem realize_credits_witness:
  "\<exists>m credit. moves oven4 = moves oven3 @ m @ [credit] \<and> mv_delta credit = 10"
proof -
  obtain q where "realize_stock (shop_clock 1200) bakery_catalogue 30 loaf 11 10 bake_args oven3 = Inr (oven4, q)"
    using oven_realize by blast
  from realize_credits [OF oven_inv this] show ?thesis by blast
qed

text \<open>An expired hold takes the bread of an active one: the pool of \<open>realize\<close> filters the
  holds anchored on the plan by status only, so in this reachable day the hold that expired
  follows the batch to the shelf, the active hold no longer fits and stays on a plan that
  cannot serve it, while the ten loaves on the shelf are all free.\<close>

theorem expired_hold_takes_bread:
  "stock_run [Op_receive, Op_wait, Op_hold, Op_wait, Op_hold, Op_wait, Op_realize] (1000, cellar0) (1200, oven4) \<and>
   map (\<lambda>h. (hold_active 1200 h, ho_quant h, ho_quantity h)) (holds oven4) = [(False, Some 1, 6), (True, Some 0, 6)] \<and>
   map (\<lambda>q. (qu_target q, qu_quantity q, quant_available 1200 q oven4)) (quants oven4) =
     [(Some 11, 2, - 4), (None, 10, 10)]"
proof -
  obtain q where "realize_stock (shop_clock 1200) bakery_catalogue 30 loaf 11 10 bake_args oven3 = Inr (oven4, q)"
    using oven_realize by blast
  from step_realize [OF this] have "stock_step Op_realize (1200, oven3) (1200, oven4)" by simp
  then have "stock_run [Op_receive, Op_wait, Op_hold, Op_wait, Op_hold, Op_wait, Op_realize] (1000, cellar0) (1200, oven4)"
    using oven_steps wait_step [of 1000 1010] wait_step [of 1010 1020] wait_step [of 1020 1200]
    by (auto intro!: run_step run_stop simp del: run_Cons)
  moreover have "map (\<lambda>h. (hold_active 1200 h, ho_quant h, ho_quantity h)) (holds oven4) = [(False, Some 1, 6), (True, Some 0, 6)]"
    by code_simp
  moreover have "map (\<lambda>q. (qu_target q, qu_quantity q, quant_available 1200 q oven4)) (quants oven4) =
     [(Some 11, 2, - 4), (None, 10, 10)]"
    by code_simp
  ultimately show ?thesis by blast
qed

end
