(* ===== verification/Sequences.thy ===== *)
theory Sequences
  imports Main Prelude
begin

text \<open>
  Numbered logs: the rows of a scope (the events of an order, of a session, of a work order)
  carry consecutive numbers from 0, and a writer takes \<open>MAX(seq) + 1\<close>.
\<close>

text \<open>\<open>MAX(seq)\<close> in the scope, \<open>-1\<close> when it is empty.\<close>

definition last_seq :: "('e \<Rightarrow> bool) \<Rightarrow> ('e \<Rightarrow> int) \<Rightarrow> 'e list \<Rightarrow> int" where
  "last_seq scope seq rows = fold (\<lambda>r m. max (seq r) m) (filter scope rows) (- 1)"

text \<open>The rows of a scope are numbered from 0 in the order they were written.\<close>

definition in_sequence :: "('e \<Rightarrow> bool) \<Rightarrow> ('e \<Rightarrow> int) \<Rightarrow> 'e list \<Rightarrow> bool" where
  "in_sequence scope seq rows \<longleftrightarrow>
     map seq (filter scope rows) = map int [0..<length (filter scope rows)]"

abbreviation scope_count :: "('e \<Rightarrow> bool) \<Rightarrow> 'e list \<Rightarrow> int" where
  "scope_count scope rows \<equiv> int (length (filter scope rows))"

lemma in_sequence_Nil [simp]: "in_sequence scope seq []"
  by (simp add: in_sequence_def)

lemma map_int_upt_append:
  "xs @ ys = map int [0..<length (xs @ ys)] \<longleftrightarrow>
     xs = map int [0..<length xs] \<and> ys = map int [length xs..<length xs + length ys]"
  by (simp add: upt_add_eq_append [of 0 "length xs", simplified])

lemma in_sequence_append:
  "in_sequence scope seq (rows @ new) \<longleftrightarrow> in_sequence scope seq rows
     \<and> map seq (filter scope new) =
         map int [length (filter scope rows)..<length (filter scope rows) + length (filter scope new)]"
  using map_int_upt_append [of "map seq (filter scope rows)" "map seq (filter scope new)"]
  by (simp add: in_sequence_def)

lemma fold_max_le: "fold (\<lambda>r m. max (f r) m) rs (b::int) = (if rs = [] then b else max b (Max (f ` set rs)))"
  by (induction rs arbitrary: b) (auto simp: max.assoc max.commute max.left_commute)

lemma last_seq_in_sequence:
  assumes "in_sequence scope seq rows"
  shows "last_seq scope seq rows = scope_count scope rows - 1"
proof -
  let ?n = "length (filter scope rows)"
  have fold_map: "fold (\<lambda>r m. max (seq r) m) rs b = fold max (map seq rs) b" for rs b
    by (induction rs arbitrary: b) auto
  have fold_upt: "fold max (map int [0..<n]) (- 1) = int n - 1" for n
    by (induction n) auto
  have "last_seq scope seq rows = fold max (map seq (filter scope rows)) (- 1)"
    by (simp add: last_seq_def fold_map)
  also have "\<dots> = fold max (map int [0..<?n]) (- 1)"
    using assms by (simp only: in_sequence_def)
  finally show ?thesis by (simp add: fold_upt)
qed

lemma in_sequence_below:
  "in_sequence scope seq rows \<Longrightarrow> r \<in> set rows \<Longrightarrow> scope r \<Longrightarrow> seq r < scope_count scope rows"
proof -
  assume "in_sequence scope seq rows" "r \<in> set rows" "scope r"
  then have "seq r \<in> set (map int [0..<length (filter scope rows)])"
    unfolding in_sequence_def by (metis (mono_tags, lifting) filter_set image_eqI list.set_map mem_Collect_eq set_filter)
  then show ?thesis by auto
qed

lemma in_sequence_snoc:
  "in_sequence scope seq rows \<Longrightarrow>
     in_sequence scope seq (rows @ [r]) \<longleftrightarrow> \<not> scope r \<or> seq r = last_seq scope seq rows + 1"
  by (auto simp: in_sequence_append last_seq_in_sequence)

lemma in_sequence_other: "filter scope new = [] \<Longrightarrow> in_sequence scope seq (rows @ new) \<longleftrightarrow> in_sequence scope seq rows"
  by (simp add: in_sequence_append)

end
