(* ===== verification/Orderman.thy ===== *)
theory Orderman
  imports Complex_Main Machines Sequences
begin

text \<open>
  The orders of \<open>orderman\<close> (\<open>models/order.py\<close>, \<open>models/_sequenced_event.py\<close>,
  \<open>models/fulfillment.py\<close>): the status machine of an order with the transition table baked
  in its snapshot or the default one, the sealed fields, the in-memory instance with its
  baselines that \<open>save\<close> compares against, the audit log with its sequence numbers, and the
  fulfilment of an order. A status is the string of the column. A transition table is the
  JSON object \<open>{status: [status]}\<close>; an entry that is no list is refused as a type error.
\<close>

section \<open>Errors\<close>

text \<open>The string is the \<open>code\<close> of the exception.\<close>

datatype oerror =
    ImmutabilityError "string list"
  | InvalidTransition string
  | ValidationError string
  | SessionError string
  | CommitError string
  | IssueResolveError string
  | IntegrityError
  | DoesNotExist
  | DatabaseError
  | KeyError string
  | TypeError
  | AttributeError
  | RuntimeError

section \<open>Statuses and transitions\<close>

datatype order_status =
    Order_new | Order_accepted | Order_preparing | Order_ready | Order_dispatched
  | Order_delivered | Order_completed | Order_cancelled | Order_returned

fun status_value :: "order_status \<Rightarrow> string" where
  "status_value Order_new = ''new''"
| "status_value Order_accepted = ''accepted''"
| "status_value Order_preparing = ''preparing''"
| "status_value Order_ready = ''ready''"
| "status_value Order_dispatched = ''dispatched''"
| "status_value Order_delivered = ''delivered''"
| "status_value Order_completed = ''completed''"
| "status_value Order_cancelled = ''cancelled''"
| "status_value Order_returned = ''returned''"

definition default_transitions :: dict where
  "default_transitions = map (\<lambda>(s, ts). (status_value s, JList (map (\<lambda>t. JStr (status_value t)) ts)))
     [(Order_new, [Order_accepted, Order_cancelled]),
      (Order_accepted, [Order_preparing, Order_ready, Order_cancelled]),
      (Order_preparing, [Order_ready, Order_cancelled]),
      (Order_ready, [Order_preparing, Order_dispatched, Order_completed]),
      (Order_dispatched, [Order_delivered, Order_returned]),
      (Order_delivered, [Order_completed, Order_returned]),
      (Order_completed, [Order_returned]),
      (Order_cancelled, []),
      (Order_returned, [])]"

definition terminal_statuses :: "string list" where
  "terminal_statuses = map status_value [Order_completed, Order_cancelled, Order_returned]"

definition sealed_fields :: "string list" where
  "sealed_fields = [''ref'', ''channel_ref'', ''session_key'', ''snapshot'', ''total_q'', ''currency'']"

text \<open>\<open>or_at\<close> holds the nullable time stamps by column name.\<close>

record order =
  or_id :: nat
  or_ref :: string
  or_channel_ref :: string
  or_session_key :: string
  or_handle_type :: "string option"
  or_handle_ref :: "string option"
  or_external_ref :: "string option"
  or_status :: string
  or_snapshot :: dict
  or_data :: dict
  or_currency :: string
  or_total_q :: int
  or_created_at :: int
  or_at :: "string \<Rightarrow> int option"

record order_item =
  oi_order :: nat
  oi_line_id :: string
  oi_sku :: string
  oi_name :: string
  oi_qty :: rat
  oi_unit_price_q :: int
  oi_line_total_q :: int
  oi_meta :: dict

record order_event =
  ev_order :: nat
  ev_seq :: int
  ev_type :: string
  ev_actor :: string
  ev_payload :: dict

record fulfillment =
  ff_id :: nat
  ff_order :: nat
  ff_status :: string
  ff_dispatched_at :: "int option"
  ff_delivered_at :: "int option"

text \<open>\<open>od_signals\<close> lists the \<open>order_changed\<close> signals: order, event type and actor.\<close>

record order_db =
  od_orders :: "order list"
  od_items :: "order_item list"
  od_events :: "order_event list"
  od_signals :: "(nat \<times> string \<times> string) list"

definition order_constraints :: "order \<Rightarrow> order list \<Rightarrow> bool" where
  "order_constraints r others \<longleftrightarrow> 0 \<le> or_total_q r
     \<and> (\<forall>x \<in> set others. or_ref x \<noteq> or_ref r
          \<and> \<not> (or_external_ref r \<noteq> None \<and> or_external_ref r \<noteq> Some []
               \<and> or_channel_ref x = or_channel_ref r \<and> or_external_ref x = or_external_ref r))"

definition order_item_constraints :: "order_item \<Rightarrow> order_item list \<Rightarrow> bool" where
  "order_item_constraints i others \<longleftrightarrow> 0 < oi_qty i \<and> 0 \<le> oi_unit_price_q i \<and> 0 \<le> oi_line_total_q i
     \<and> (\<forall>x \<in> set others. \<not> (oi_order x = oi_order i \<and> oi_line_id x = oi_line_id i))"

text \<open>\<open>(self.snapshot or {}).get("lifecycle", {})\<close>, on which \<open>.get\<close> is called.\<close>

definition lifecycle_of :: "order \<Rightarrow> oerror + dict" where
  "lifecycle_of r = (case dget (or_snapshot r) ''lifecycle'' of
       None \<Rightarrow> Inr [] | Some (JObj d) \<Rightarrow> Inr d | Some _ \<Rightarrow> Inl AttributeError)"

definition get_transitions :: "order \<Rightarrow> oerror + dict" where
  "get_transitions r = ebind (lifecycle_of r) (\<lambda>lc.
     case dget lc ''transitions'' of
       None \<Rightarrow> Inr default_transitions
     | Some v \<Rightarrow> if \<not> truthy v then Inr default_transitions
                 else (case v of JObj d \<Rightarrow> Inr d | _ \<Rightarrow> Inl AttributeError))"

definition get_terminal_statuses :: "order \<Rightarrow> oerror + json list" where
  "get_terminal_statuses r = ebind (lifecycle_of r) (\<lambda>lc.
     case dget lc ''terminal_statuses'' of
       None \<Rightarrow> Inr (map JStr terminal_statuses)
     | Some v \<Rightarrow> if \<not> truthy v then Inr (map JStr terminal_statuses)
                 else (case v of JList xs \<Rightarrow> Inr xs | _ \<Rightarrow> Inl TypeError))"

text \<open>\<open>transitions.get(status, [])\<close>.\<close>

definition allowed_next :: "dict \<Rightarrow> string \<Rightarrow> oerror + json list" where
  "allowed_next tbl s = (case dget tbl s of
       None \<Rightarrow> Inr [] | Some (JList xs) \<Rightarrow> Inr xs | Some _ \<Rightarrow> Inl TypeError)"

definition get_allowed_transitions :: "order \<Rightarrow> oerror + json list" where
  "get_allowed_transitions r = ebind (get_transitions r) (\<lambda>tbl. allowed_next tbl (or_status r))"

definition can_transition_to_order :: "string \<Rightarrow> order \<Rightarrow> oerror + bool" where
  "can_transition_to_order s r = ebind (get_allowed_transitions r) (\<lambda>xs. Inr (JStr s \<in> set xs))"

definition timestamp_field :: "string \<Rightarrow> string option" where
  "timestamp_field s = map_of
     [(status_value Order_accepted, ''accepted_at''), (status_value Order_preparing, ''preparing_at''),
      (status_value Order_ready, ''ready_at''), (status_value Order_dispatched, ''dispatched_at''),
      (status_value Order_delivered, ''delivered_at''), (status_value Order_completed, ''completed_at''),
      (status_value Order_cancelled, ''cancelled_at''), (status_value Order_returned, ''returned_at'')] s"

section \<open>The audit log\<close>

text \<open>
  An attempt reads \<open>MAX(seq)\<close> (\<open>last_seq\<close>), other transactions
  may commit rows (the head of \<open>rivals\<close>), and the insertion violates the unique constraint
  when one of its numbers is taken; then the maximum is read again. The number of attempts
  is the first argument.
\<close>

definition seq_taken :: "('e \<Rightarrow> bool) \<Rightarrow> ('e \<Rightarrow> int) \<Rightarrow> 'e list \<Rightarrow> 'e list \<Rightarrow> bool" where
  "seq_taken scope seq new rows \<longleftrightarrow> (\<exists>r \<in> set rows. scope r \<and> seq r \<in> seq ` set new)"

fun sequenced_attempts ::
    "nat \<Rightarrow> 'e list list \<Rightarrow> ('e \<Rightarrow> bool) \<Rightarrow> ('e \<Rightarrow> int) \<Rightarrow> (int \<Rightarrow> 'e list) \<Rightarrow> 'e list \<Rightarrow> oerror + 'e list" where
  "sequenced_attempts 0 rivals scope seq new rows = Inl RuntimeError"
| "sequenced_attempts (Suc n) rivals scope seq new rows =
     (let batch = new (last_seq scope seq rows + 1);
          rows' = rows @ (case rivals of [] \<Rightarrow> [] | c # _ \<Rightarrow> c) in
      if \<not> seq_taken scope seq batch rows' then Inr (rows' @ batch)
      else if n = 0 then Inl IntegrityError
      else sequenced_attempts n (tl rivals) scope seq new rows')"

definition max_seq_attempts :: nat where
  "max_seq_attempts = 6"

definition create_sequenced_event ::
    "'e list list \<Rightarrow> ('e \<Rightarrow> bool) \<Rightarrow> ('e \<Rightarrow> int) \<Rightarrow> (int \<Rightarrow> 'e) \<Rightarrow> 'e list \<Rightarrow> oerror + 'e list" where
  "create_sequenced_event rivals scope seq mk rows =
     sequenced_attempts max_seq_attempts rivals scope seq (\<lambda>k. [mk k]) rows"

fun numbered :: "int \<Rightarrow> (int \<Rightarrow> 'e) list \<Rightarrow> 'e list" where
  "numbered k [] = []"
| "numbered k (mk # mks) = mk k # numbered (k + 1) mks"

definition create_sequenced_events ::
    "'e list list \<Rightarrow> ('e \<Rightarrow> bool) \<Rightarrow> ('e \<Rightarrow> int) \<Rightarrow> (int \<Rightarrow> 'e) list \<Rightarrow> 'e list \<Rightarrow> oerror + 'e list" where
  "create_sequenced_events rivals scope seq mks rows =
     (if mks = [] then Inr rows
      else if length mks = 1 then create_sequenced_event rivals scope seq (hd mks) rows
      else sequenced_attempts max_seq_attempts rivals scope seq (\<lambda>k. numbered k mks) rows)"

definition personal_event_keys :: "string list" where
  "personal_event_keys = [''note'', ''reason'']"

text \<open>
  \<open>Order.emit_event\<close>. The row of the order is locked until the insertion, so no other
  emission for this order commits in between: there are no rivals.
\<close>

definition emit_event :: "nat \<Rightarrow> string \<Rightarrow> string \<Rightarrow> dict \<Rightarrow> order_db \<Rightarrow> oerror + order_db" where
  "emit_event oid etype actor payload db =
     (case row_get or_id oid (od_orders db) of
        None \<Rightarrow> Inl DoesNotExist
      | Some r \<Rightarrow>
          if or_handle_type r = Some ''anonymized'' \<and> (\<exists>k \<in> fst ` set payload. k \<in> set personal_event_keys)
          then Inl (ValidationError ''order_anonymized'')
          else ebind (create_sequenced_event [] (\<lambda>e. ev_order e = oid) ev_seq
                 (\<lambda>k. \<lparr>ev_order = oid, ev_seq = k, ev_type = etype, ev_actor = actor, ev_payload = payload\<rparr>)
                 (od_events db))
               (\<lambda>evs. Inr (db\<lparr>od_events := evs\<rparr>)))"

section \<open>Instances and saving\<close>

text \<open>
  An instance in memory: the row as it is being edited, the status and the sealed fields
  captured when it was loaded or last saved, and the actor of the transition under way.
\<close>

record order_instance =
  in_row :: order
  in_original :: string
  in_sealed :: "(string \<times> json) list"
  in_actor :: "string option"

definition sealed_value :: "string \<Rightarrow> order \<Rightarrow> json" where
  "sealed_value f r =
     (if f = ''ref'' then JStr (or_ref r)
      else if f = ''channel_ref'' then JStr (or_channel_ref r)
      else if f = ''session_key'' then JStr (or_session_key r)
      else if f = ''snapshot'' then JObj (or_snapshot r)
      else if f = ''total_q'' then JNum (or_total_q r)
      else if f = ''currency'' then JStr (or_currency r)
      else JNull)"

definition seal_of :: "order \<Rightarrow> (string \<times> json) list" where
  "seal_of r = map (\<lambda>f. (f, sealed_value f r)) sealed_fields"

definition recapture :: "order_instance \<Rightarrow> order_instance" where
  "recapture i = i\<lparr>in_original := or_status (in_row i), in_sealed := seal_of (in_row i)\<rparr>"

definition load_order :: "order \<Rightarrow> order_instance" where
  "load_order r = \<lparr>in_row = r, in_original = or_status r, in_sealed = seal_of r, in_actor = None\<rparr>"

definition sealed_changed :: "order_instance \<Rightarrow> string list" where
  "sealed_changed i =
     filter (\<lambda>f. Some (sealed_value f (in_row i)) \<noteq> map_of (in_sealed i) f) sealed_fields"

definition fulfillment_kind :: "dict \<Rightarrow> json" where
  "fulfillment_kind d =
     (let legacy = (case dget d ''delivery_method'' of Some v \<Rightarrow> v | None \<Rightarrow> JStr []) in
      case dget d ''fulfillment_type'' of Some v \<Rightarrow> if truthy v then v else legacy | None \<Rightarrow> legacy)"

text \<open>The validation of a status change inside \<open>save\<close>, from the baseline status.\<close>

definition check_transition :: "string \<Rightarrow> order \<Rightarrow> oerror + unit" where
  "check_transition old r =
     ebind (get_transitions r) (\<lambda>tbl.
     ebind (allowed_next tbl old) (\<lambda>allowed.
     if JStr (or_status r) \<notin> set allowed then Inl (InvalidTransition ''invalid_transition'')
     else let ft = fulfillment_kind (or_data r) in
       if or_status r = status_value Order_dispatched \<and> truthy ft \<and> ft \<noteq> JStr ''delivery''
       then Inl (InvalidTransition ''dispatched_requires_delivery'')
       else if or_status r = status_value Order_completed \<and> old = status_value Order_ready
               \<and> ft = JStr ''delivery''
       then Inl (InvalidTransition ''delivery_requires_dispatch_before_completion'')
       else Inr ()))"

definition stamp_status :: "int \<Rightarrow> order \<Rightarrow> order" where
  "stamp_status now r =
     (case timestamp_field (or_status r) of
        Some f \<Rightarrow> if or_at r f = None then r\<lparr>or_at := (or_at r)(f := Some now)\<rparr> else r
      | None \<Rightarrow> r)"

text \<open>
  \<open>Model.save\<close>: the columns named by \<open>update_fields\<close>, or all of them, go from the instance
  to the row; a full save of a row that is gone inserts it again.
\<close>

definition pick :: "string list option \<Rightarrow> string \<Rightarrow> 'v \<Rightarrow> 'v \<Rightarrow> 'v" where
  "pick upd f new old = (case upd of None \<Rightarrow> new | Some fs \<Rightarrow> if f \<in> set fs then new else old)"

definition written_order :: "string list option \<Rightarrow> order \<Rightarrow> order \<Rightarrow> order" where
  "written_order upd new old = \<lparr>
     or_id = or_id old,
     or_ref = pick upd ''ref'' (or_ref new) (or_ref old),
     or_channel_ref = pick upd ''channel_ref'' (or_channel_ref new) (or_channel_ref old),
     or_session_key = pick upd ''session_key'' (or_session_key new) (or_session_key old),
     or_handle_type = pick upd ''handle_type'' (or_handle_type new) (or_handle_type old),
     or_handle_ref = pick upd ''handle_ref'' (or_handle_ref new) (or_handle_ref old),
     or_external_ref = pick upd ''external_ref'' (or_external_ref new) (or_external_ref old),
     or_status = pick upd ''status'' (or_status new) (or_status old),
     or_snapshot = pick upd ''snapshot'' (or_snapshot new) (or_snapshot old),
     or_data = pick upd ''data'' (or_data new) (or_data old),
     or_currency = pick upd ''currency'' (or_currency new) (or_currency old),
     or_total_q = pick upd ''total_q'' (or_total_q new) (or_total_q old),
     or_created_at = pick upd ''created_at'' (or_created_at new) (or_created_at old),
     or_at = (\<lambda>f. pick upd f (or_at new f) (or_at old f))\<rparr>"

definition write_order :: "string list option \<Rightarrow> order \<Rightarrow> order_db \<Rightarrow> oerror + order_db" where
  "write_order upd r db =
     (case row_get or_id (or_id r) (od_orders db) of
        None \<Rightarrow>
          if upd \<noteq> None then Inl DatabaseError
          else if order_constraints r (od_orders db)
            then Inr (db\<lparr>od_orders := od_orders db @ [r]\<rparr>) else Inl IntegrityError
      | Some old \<Rightarrow>
          let w = written_order upd r old in
          if order_constraints w (filter (\<lambda>x. or_id x \<noteq> or_id w) (od_orders db))
            then Inr (db\<lparr>od_orders := row_put or_id w (od_orders db)\<rparr>) else Inl IntegrityError)"

text \<open>\<open>Order.save\<close> of an instance that has a primary key.\<close>

definition order_save ::
    "string list option \<Rightarrow> int \<Rightarrow> order_instance \<Rightarrow> order_db \<Rightarrow> oerror + (order_instance \<times> order_db)" where
  "order_save upd now i db =
     (if sealed_changed i \<noteq> [] then Inl (ImmutabilityError (sealed_changed i))
      else let old = in_original i; r = in_row i; changed = (or_status r \<noteq> old) in
      ebind (if changed then check_transition old r else Inr ()) (\<lambda>_.
      let r' = (if changed then stamp_status now r else r) in
      ebind (write_order upd r' db) (\<lambda>db1.
      let i1 = recapture (i\<lparr>in_row := r'\<rparr>) in
      if \<not> changed then Inr (i1, db1)
      else let actor = (case in_actor i of Some a \<Rightarrow> if a = [] then ''direct'' else a | None \<Rightarrow> ''direct'') in
        ebind (emit_event (or_id r') ''status_changed'' actor
                 [(''old_status'', JStr old), (''new_status'', JStr (or_status r'))] db1) (\<lambda>db2.
        Inr (i1\<lparr>in_actor := None\<rparr>,
             db2\<lparr>od_signals := od_signals db2 @ [(or_id r', ''status_changed'', actor)]\<rparr>)))))"

text \<open>\<open>Order.transition_status\<close>: the row is read under its lock.\<close>

definition transition_order ::
    "nat \<Rightarrow> string \<Rightarrow> string \<Rightarrow> int \<Rightarrow> order_db \<Rightarrow> oerror + (order_instance \<times> order_db)" where
  "transition_order oid new_status actor now db =
     (case row_get or_id oid (od_orders db) of
        None \<Rightarrow> Inl DoesNotExist
      | Some r \<Rightarrow>
          let locked = load_order r in
          ebind (order_save None now (locked\<lparr>in_row := r\<lparr>or_status := new_status\<rparr>, in_actor := Some actor\<rparr>) db)
            (\<lambda>(i, db'). Inr (recapture i, db')))"

text \<open>\<open>Order.objects.create\<close>: no primary key yet, so neither the seal nor the status is checked.\<close>

definition create_order :: "order \<Rightarrow> order_db \<Rightarrow> oerror + order_db" where
  "create_order r db =
     (if order_constraints r (od_orders db) then Inr (db\<lparr>od_orders := od_orders db @ [r]\<rparr>)
      else Inl IntegrityError)"

fun insert_items :: "order_item list \<Rightarrow> order_item list \<Rightarrow> oerror + order_item list" where
  "insert_items [] rows = Inr rows"
| "insert_items (i # items) rows =
     (if order_item_constraints i rows then insert_items items (rows @ [i]) else Inl IntegrityError)"

section \<open>Fulfilments\<close>

datatype fulfillment_status =
    Fulfillment_pending | Fulfillment_in_progress | Fulfillment_dispatched
  | Fulfillment_delivered | Fulfillment_cancelled

fun fulfillment_value :: "fulfillment_status \<Rightarrow> string" where
  "fulfillment_value Fulfillment_pending = ''pending''"
| "fulfillment_value Fulfillment_in_progress = ''in_progress''"
| "fulfillment_value Fulfillment_dispatched = ''dispatched''"
| "fulfillment_value Fulfillment_delivered = ''delivered''"
| "fulfillment_value Fulfillment_cancelled = ''cancelled''"

fun fulfillment_allowed :: "fulfillment_status \<Rightarrow> fulfillment_status list" where
  "fulfillment_allowed Fulfillment_pending = [Fulfillment_in_progress, Fulfillment_cancelled]"
| "fulfillment_allowed Fulfillment_in_progress = [Fulfillment_dispatched, Fulfillment_cancelled]"
| "fulfillment_allowed Fulfillment_dispatched = [Fulfillment_delivered]"
| "fulfillment_allowed Fulfillment_delivered = []"
| "fulfillment_allowed Fulfillment_cancelled = []"

text \<open>\<open>TRANSITIONS.get(status, [])\<close> on the strings of the column.\<close>

definition fulfillment_next :: "string \<Rightarrow> string list" where
  "fulfillment_next s = (case find (\<lambda>x. fulfillment_value x = s)
       [Fulfillment_pending, Fulfillment_in_progress, Fulfillment_dispatched, Fulfillment_delivered,
        Fulfillment_cancelled] of
       Some x \<Rightarrow> map fulfillment_value (fulfillment_allowed x) | None \<Rightarrow> [])"

text \<open>\<open>Fulfillment.save\<close> of an instance with its \<open>_original_status\<close>; returns both.\<close>

definition fulfillment_save ::
    "int \<Rightarrow> fulfillment \<times> string \<Rightarrow> fulfillment list \<Rightarrow> oerror + ((fulfillment \<times> string) \<times> fulfillment list)" where
  "fulfillment_save now inst rows =
     (let (f, original) = inst; changed = (ff_status f \<noteq> original) in
      if changed \<and> ff_status f \<notin> set (fulfillment_next original)
      then Inl (InvalidTransition ''invalid_transition'')
      else let f' =
        (if changed \<and> ff_status f = fulfillment_value Fulfillment_dispatched \<and> ff_dispatched_at f = None
         then f\<lparr>ff_dispatched_at := Some now\<rparr>
         else if changed \<and> ff_status f = fulfillment_value Fulfillment_delivered \<and> ff_delivered_at f = None
         then f\<lparr>ff_delivered_at := Some now\<rparr> else f) in
      Inr ((f', ff_status f'),
           if ff_id f' \<in> ff_id ` set rows then row_put ff_id f' rows else rows @ [f']))"

end
