(* ===== verification/OrderLaws.thy ===== *)
theory OrderLaws
  imports Orderman
begin

text \<open>
  Laws of the order kernel: the numbering of the audit log and its retry, what a save and a
  transition do on every branch, the state machines of orders and fulfilments as
  interpretations of \<open>status_machine\<close>, and the invariant of the tables.
\<close>

section \<open>Numbering\<close>

text \<open>A maker of rows of the scope that keeps the number it is given.\<close>

definition numbers :: "('e \<Rightarrow> bool) \<Rightarrow> ('e \<Rightarrow> int) \<Rightarrow> (int \<Rightarrow> 'e) \<Rightarrow> bool" where
  "numbers scope seq mk \<longleftrightarrow> (\<forall>k. scope (mk k) \<and> seq (mk k) = k)"

lemma numbered_scope:
  "list_all (numbers scope seq) mks \<Longrightarrow>
     filter scope (numbered k mks) = numbered k mks
     \<and> map seq (numbered k mks) = map (\<lambda>i. k + int i) [0..<length mks]"
proof (induction mks arbitrary: k)
  case Nil
  then show ?case by simp
next
  case (Cons mk mks)
  have "map (\<lambda>i. k + int i) [0..<length (mk # mks)]
      = k # map (\<lambda>i. k + 1 + int i) [0..<length mks]"
    by (simp add: upt_conv_Cons map_Suc_upt [symmetric] del: upt_Suc)
  with Cons show ?case by (simp add: numbers_def)
qed

lemma length_numbered [simp]: "length (numbered k mks) = length mks"
  by (induction mks arbitrary: k) auto

lemma numbered_in_sequence:
  assumes "in_sequence scope seq rows" "list_all (numbers scope seq) mks"
  shows "in_sequence scope seq (rows @ numbered (scope_count scope rows) mks)"
proof -
  let ?n = "length (filter scope rows)"
  have "map (\<lambda>i. int ?n + int i) [0..<length mks] = map int [?n..<?n + length mks]"
    by (rule nth_equalityI) auto
  then show ?thesis
    using assms numbered_scope [OF assms(2), of "int ?n"] by (simp add: in_sequence_append)
qed

lemma not_taken_alone:
  assumes "in_sequence scope seq rows" "list_all (numbers scope seq) mks"
  shows "\<not> seq_taken scope seq (numbered (scope_count scope rows) mks) rows"
proof
  assume "seq_taken scope seq (numbered (scope_count scope rows) mks) rows"
  then obtain r where r: "r \<in> set rows" "scope r"
    and s: "seq r \<in> set (map seq (numbered (scope_count scope rows) mks))"
    by (auto simp: seq_taken_def)
  from s have "scope_count scope rows \<le> seq r"
    using numbered_scope [OF assms(2), of "scope_count scope rows"] by auto
  with in_sequence_below [OF assms(1) r] show False by simp
qed

text \<open>
  When the rivals' rows continue the numbering, a free number means they wrote nothing in
  this scope.
\<close>

lemma free_means_quiet:
  assumes "in_sequence scope seq (rows @ c)" "mks \<noteq> []" "list_all (numbers scope seq) mks"
    and "\<not> seq_taken scope seq (numbered (scope_count scope rows) mks) (rows @ c)"
  shows "filter scope c = []"
proof (rule ccontr)
  assume "filter scope c \<noteq> []"
  then obtain r rs where f: "filter scope c = r # rs" by (cases "filter scope c") auto
  have "r \<in> set (filter scope c)" using f by simp
  then have r: "r \<in> set (rows @ c)" "scope r" by auto
  have "seq r = scope_count scope rows"
    using assms(1) f by (simp add: in_sequence_append upt_conv_Cons del: upt_Suc)
  moreover obtain mk more where m: "mks = mk # more" using assms(2) by (cases mks) auto
  moreover have "seq (mk (scope_count scope rows)) = scope_count scope rows"
    using assms(3) m by (simp add: numbers_def)
  ultimately have "seq r \<in> seq ` set (numbered (scope_count scope rows) mks)" by force
  with r assms(4) show False by (auto simp: seq_taken_def)
qed

lemma sequenced_attempts_succeeds:
  assumes "in_sequence scope seq (rows @ concat rivals)" "mks \<noteq> []" "list_all (numbers scope seq) mks"
    and "length rivals \<le> n"
  shows "\<exists>j \<le> length rivals. sequenced_attempts (Suc n) rivals scope seq (\<lambda>k. numbered k mks) rows
           = Inr (rows @ concat (take j rivals) @ numbered (scope_count scope (rows @ concat (take j rivals))) mks)"
  using assms
proof (induction rivals arbitrary: rows n)
  case Nil
  then show ?case
    using not_taken_alone [of scope seq rows mks] by (simp add: last_seq_in_sequence)
next
  case (Cons c cs)
  have "in_sequence scope seq ((rows @ c) @ concat cs)" using Cons.prems(1) by simp
  then have seq: "in_sequence scope seq rows" "in_sequence scope seq (rows @ c)"
    by (blast dest: in_sequence_append [THEN iffD1])+
  let ?k = "scope_count scope rows"
  show ?case
  proof (cases "seq_taken scope seq (numbered ?k mks) (rows @ c)")
    case False
    from free_means_quiet [OF seq(2) Cons.prems(2,3) False]
    have "scope_count scope (rows @ concat (take 1 (c # cs))) = ?k" by simp
    moreover have "sequenced_attempts (Suc n) (c # cs) scope seq (\<lambda>k. numbered k mks) rows
        = Inr (rows @ concat (take 1 (c # cs)) @ numbered ?k mks)"
      using False seq(1) by (simp add: last_seq_in_sequence)
    ultimately show ?thesis by (intro exI [of _ 1]) (simp del: take_Suc_Cons)
  next
    case True
    from Cons.prems(4) obtain m where n: "n = Suc m" by (cases n) auto
    have "in_sequence scope seq ((rows @ c) @ concat cs)" using Cons.prems(1) by simp
    with Cons.IH [of "rows @ c" m] Cons.prems n obtain j where j: "j \<le> length cs"
      "sequenced_attempts (Suc m) cs scope seq (\<lambda>k. numbered k mks) (rows @ c)
         = Inr ((rows @ c) @ concat (take j cs)
             @ numbered (scope_count scope ((rows @ c) @ concat (take j cs))) mks)"
      by fastforce
    with True seq(1) n show ?thesis
      by (intro exI [of _ "Suc j"]) (simp add: last_seq_in_sequence)
  qed
qed

lemma create_sequenced_event_attempts:
  "create_sequenced_event rivals scope seq mk rows =
     sequenced_attempts (Suc 5) rivals scope seq (\<lambda>k. numbered k [mk]) rows"
proof -
  have "max_seq_attempts = Suc 5" by (simp add: max_seq_attempts_def)
  then show ?thesis by (simp only: create_sequenced_event_def numbered.simps)
qed

lemma create_sequenced_alone:
  assumes "in_sequence scope seq rows" "numbers scope seq mk"
  shows "create_sequenced_event [] scope seq mk rows = Inr (rows @ [mk (scope_count scope rows)])"
  using sequenced_attempts_succeeds [of scope seq rows "[]" "[mk]" 5] assms
  by (simp only: create_sequenced_event_attempts) simp


section \<open>The state machines\<close>

text \<open>The statuses a table allows after one, as strings.\<close>

fun json_strings :: "json list \<Rightarrow> string list" where
  "json_strings [] = []"
| "json_strings (j # js) = (case j of JStr t \<Rightarrow> [t] | _ \<Rightarrow> []) @ json_strings js"

lemma set_json_strings: "t \<in> set (json_strings js) \<longleftrightarrow> JStr t \<in> set js"
  by (induction js) (auto split: json.splits)

definition next_statuses :: "dict \<Rightarrow> string \<Rightarrow> string list" where
  "next_statuses tbl s = (case allowed_next tbl s of Inr xs \<Rightarrow> json_strings xs | Inl _ \<Rightarrow> [])"

lemma next_statuses_iff:
  "t \<in> set (next_statuses tbl s) \<longleftrightarrow> (\<exists>xs. allowed_next tbl s = Inr xs \<and> JStr t \<in> set xs)"
  by (cases "allowed_next tbl s") (auto simp: next_statuses_def set_json_strings)

interpretation lifecycle: status_machine "next_statuses tbl" "\<lambda>s. next_statuses tbl s = []" for tbl
  by unfold_locales simp

definition fulfillment_rank :: "fulfillment_status \<Rightarrow> nat" where
  "fulfillment_rank s = (case s of Fulfillment_pending \<Rightarrow> 0 | Fulfillment_in_progress \<Rightarrow> 1
     | Fulfillment_dispatched \<Rightarrow> 2 | Fulfillment_delivered \<Rightarrow> 3 | Fulfillment_cancelled \<Rightarrow> 3)"

interpretation expedition: ranked_machine fulfillment_allowed "\<lambda>s. fulfillment_allowed s = []" fulfillment_rank 3
proof unfold_locales
  show "t \<in> set (fulfillment_allowed s) \<Longrightarrow> fulfillment_rank s < fulfillment_rank t" for s t
    by (cases s) (auto simp: fulfillment_rank_def)
  show "fulfillment_rank s \<le> 3" for s
    by (cases s) (auto simp: fulfillment_rank_def)
qed

definition order_table :: "order \<Rightarrow> dict" where
  "order_table r = (case get_transitions r of Inr tbl \<Rightarrow> tbl | Inl _ \<Rightarrow> [])"

lemma get_transitions_cong: "or_snapshot r = or_snapshot r' \<Longrightarrow> get_transitions r = get_transitions r'"
  by (simp add: get_transitions_def lifecycle_of_def)

lemma order_table_cong: "or_snapshot r = or_snapshot r' \<Longrightarrow> order_table r = order_table r'"
  using get_transitions_cong [of r r'] by (simp add: order_table_def)

lemma order_table_update [simp]:
  "order_table (r\<lparr>or_status := s\<rparr>) = order_table r" "order_table (r\<lparr>or_at := f\<rparr>) = order_table r"
  by (auto intro!: order_table_cong)

lemma check_transition_Inr:
  "check_transition old r = Inr u \<Longrightarrow> or_status r \<in> set (next_statuses (order_table r) old)"
  by (auto simp: check_transition_def ebind_Inr order_table_def next_statuses_iff split: if_splits)

section \<open>Saving and moving an order\<close>

lemma map_of_self: "map_of (map (\<lambda>f. (f, g f)) fs) f = (if f \<in> set fs then Some (g f) else None)"
  by (induction fs) auto

lemma sealed_changed_iff:
  "sealed_changed i = [] \<longleftrightarrow> (\<forall>f \<in> set sealed_fields. map_of (in_sealed i) f = Some (sealed_value f (in_row i)))"
  by (auto simp: sealed_changed_def filter_empty_conv)

lemma sealed_changed_seal:
  "in_sealed i = seal_of r \<Longrightarrow> sealed_changed i = [] \<longleftrightarrow> seal_of (in_row i) = seal_of r"
  by (auto simp: sealed_changed_iff seal_of_def map_of_self)

lemma seal_of_iff:
  "seal_of r = seal_of r' \<longleftrightarrow> or_ref r = or_ref r' \<and> or_channel_ref r = or_channel_ref r'
     \<and> or_session_key r = or_session_key r' \<and> or_snapshot r = or_snapshot r'
     \<and> or_total_q r = or_total_q r' \<and> or_currency r = or_currency r'"
  by (simp add: seal_of_def sealed_fields_def sealed_value_def)

lemma written_order_all [simp]: "written_order None new old = new\<lparr>or_id := or_id old\<rparr>"
  by (simp add: written_order_def pick_def)

lemma stamp_status_simps [simp]:
  "or_id (stamp_status now r) = or_id r" "or_status (stamp_status now r) = or_status r"
  "or_snapshot (stamp_status now r) = or_snapshot r" "or_handle_type (stamp_status now r) = or_handle_type r"
  "seal_of (stamp_status now r) = seal_of r" "or_ref (stamp_status now r) = or_ref r"
  "or_total_q (stamp_status now r) = or_total_q r" "or_external_ref (stamp_status now r) = or_external_ref r"
  "or_channel_ref (stamp_status now r) = or_channel_ref r" "or_data (stamp_status now r) = or_data r"
  "order_table (stamp_status now r) = order_table r"
  by (auto simp: stamp_status_def seal_of_iff intro!: order_table_cong split: option.splits)

text \<open>The tables: unique keys, non-negative totals, events of existing orders numbered from 0.\<close>

definition events_of :: "nat \<Rightarrow> order_event list \<Rightarrow> order_event list" where
  "events_of oid evs = filter (\<lambda>e. ev_order e = oid) evs"

definition orders_ok :: "order list \<Rightarrow> bool" where
  "orders_ok rs \<longleftrightarrow> distinct (map or_id rs) \<and>
     (\<forall>r \<in> set rs. order_constraints r (filter (\<lambda>x. or_id x \<noteq> or_id r) rs))"

definition od_ok :: "order_db \<Rightarrow> bool" where
  "od_ok db \<longleftrightarrow> orders_ok (od_orders db)
     \<and> (\<forall>e \<in> set (od_events db). ev_order e \<in> or_id ` set (od_orders db))
     \<and> (\<forall>oid. in_sequence (\<lambda>e. ev_order e = oid) ev_seq (od_events db))"

lemma emit_event_alone:
  assumes "row_get or_id oid (od_orders db) = Some r"
    and "in_sequence (\<lambda>e. ev_order e = oid) ev_seq (od_events db)"
  shows "emit_event oid etype actor payload db =
    (if or_handle_type r = Some ''anonymized'' \<and> (\<exists>k \<in> fst ` set payload. k \<in> set personal_event_keys)
     then Inl (ValidationError ''order_anonymized'')
     else Inr (db\<lparr>od_events := od_events db @
       [\<lparr>ev_order = oid, ev_seq = int (length (events_of oid (od_events db))), ev_type = etype,
         ev_actor = actor, ev_payload = payload\<rparr>]\<rparr>))"
  using assms create_sequenced_alone [OF assms(2), of "\<lambda>k. \<lparr>ev_order = oid, ev_seq = k, ev_type = etype,
    ev_actor = actor, ev_payload = payload\<rparr>"]
  by (simp add: emit_event_def numbers_def events_of_def)

lemma order_constraints_cong:
  "or_total_q r = or_total_q r' \<Longrightarrow> or_ref r = or_ref r' \<Longrightarrow> or_external_ref r = or_external_ref r' \<Longrightarrow>
   or_channel_ref r = or_channel_ref r' \<Longrightarrow> order_constraints r xs = order_constraints r' xs"
  by (simp add: order_constraints_def)

lemma write_order_status:
  assumes "orders_ok (od_orders db)" "row_get or_id (or_id r') (od_orders db) = Some r"
    and "or_total_q r' = or_total_q r" "or_ref r' = or_ref r" "or_external_ref r' = or_external_ref r"
      "or_channel_ref r' = or_channel_ref r"
  shows "write_order None r' db = Inr (db\<lparr>od_orders := row_put or_id r' (od_orders db)\<rparr>)"
proof -
  from row_get_SomeD [OF assms(2)] have r: "r \<in> set (od_orders db)" "or_id r = or_id r'" by auto
  with assms(1) have "order_constraints r (filter (\<lambda>x. or_id x \<noteq> or_id r') (od_orders db))"
    by (auto simp: orders_ok_def)
  then have "order_constraints r' (filter (\<lambda>x. or_id x \<noteq> or_id r') (od_orders db))"
    using order_constraints_cong [OF assms(3-6)] by simp
  moreover have "r'\<lparr>or_id := or_id r\<rparr> = r'" using r(2) by simp
  ultimately show ?thesis using assms(2) by (simp add: write_order_def Let_def)
qed

text \<open>What \<open>transition_status\<close> does to a known order, on every branch.\<close>

definition moved :: "nat \<Rightarrow> string \<Rightarrow> string \<Rightarrow> int \<Rightarrow> order \<Rightarrow> order_db \<Rightarrow> order_db" where
  "moved oid new actor now r db =
     db\<lparr>od_orders := row_put or_id (stamp_status now (r\<lparr>or_status := new\<rparr>)) (od_orders db),
        od_events := od_events db @
          [\<lparr>ev_order = oid, ev_seq = int (length (events_of oid (od_events db))), ev_type = ''status_changed'',
            ev_actor = actor, ev_payload = [(''old_status'', JStr (or_status r)), (''new_status'', JStr new)]\<rparr>],
        od_signals := od_signals db @ [(oid, ''status_changed'', actor)]\<rparr>"

abbreviation actor_or_direct :: "string \<Rightarrow> string" where
  "actor_or_direct a \<equiv> (if a = [] then ''direct'' else a)"

lemma transition_order_exact:
  assumes ok: "od_ok db" and get: "row_get or_id oid (od_orders db) = Some r"
  shows "map_sum id snd (transition_order oid new actor now db) =
    (if new = or_status r then Inr db
     else case check_transition (or_status r) (r\<lparr>or_status := new\<rparr>) of
            Inl e \<Rightarrow> Inl e | Inr _ \<Rightarrow> Inr (moved oid new (actor_or_direct actor) now r db))"
proof -
  let ?r = "r\<lparr>or_status := new\<rparr>" and ?m = "stamp_status now (r\<lparr>or_status := new\<rparr>)"
  from row_get_SomeD [OF get] have r: "r \<in> set (od_orders db)" "or_id r = oid" by auto
  from ok have o: "orders_ok (od_orders db)" by (simp add: od_ok_def)
  have seal: "sealed_changed (load_order r\<lparr>in_row := ?r, in_actor := Some actor\<rparr>) = []"
    using sealed_changed_seal [of "load_order r\<lparr>in_row := ?r, in_actor := Some actor\<rparr>" r]
    by (simp add: load_order_def seal_of_iff)
  have ids: "distinct (map or_id (od_orders db))" using o by (simp add: orders_ok_def)
  show ?thesis
  proof (cases "new = or_status r")
    case True
    with write_order_status [OF o, of r r] get r ids seal show ?thesis
      by (simp add: transition_order_def order_save_def load_order_def row_put_same)
  next
    case False
    show ?thesis
    proof (cases "check_transition (or_status r) ?r")
      case (Inl e)
      with False get seal show ?thesis
        by (simp add: transition_order_def order_save_def load_order_def)
    next
      case (Inr u)
      let ?db1 = "db\<lparr>od_orders := row_put or_id ?m (od_orders db)\<rparr>"
      have w: "write_order None ?m db = Inr ?db1"
        using get r by (intro write_order_status [OF o, of _ r]) auto
      have get1: "row_get or_id oid (od_orders ?db1) = Some ?m"
        using get r by (simp add: row_get_put)
      have "in_sequence (\<lambda>e. ev_order e = oid) ev_seq (od_events ?db1)"
        using ok by (simp add: od_ok_def)
      note ev = emit_event_alone [OF get1 this, of "''status_changed''" "actor_or_direct actor"
        "[(''old_status'', JStr (or_status r)), (''new_status'', JStr new)]"]
      from False Inr get seal w ev r show ?thesis
        by (simp add: transition_order_def order_save_def load_order_def recapture_def moved_def
            personal_event_keys_def Let_def)
    qed
  qed
qed

end
