(* ===== verification/OrderRuns.thy ===== *)
theory OrderRuns
  imports OrderLaws
begin

text \<open>
  Runs of the order kernel: an order is placed, moved through its table, annotated and
  edited by partial saves of possibly stale instances; a refused operation changes nothing.
  Every run advances each order along its own table, keeps its seal, and leaves in the audit
  log exactly the moves it made.
\<close>

section \<open>Operations\<close>

datatype order_op =
    Place order "order_item list" string dict
  | Move_status nat string string int
  | Emit nat string string dict
  | Edit "string list" order

definition run_place :: "order \<Rightarrow> order_item list \<Rightarrow> string \<Rightarrow> dict \<Rightarrow> order_db \<Rightarrow> oerror + order_db" where
  "run_place r items actor payload db =
     (if or_id r \<in> or_id ` set (od_orders db) \<or> or_status r \<noteq> status_value Order_new then Inl IntegrityError
      else ebind (create_order r db) (\<lambda>db1.
           ebind (insert_items items (od_items db1)) (\<lambda>rows.
           emit_event (or_id r) ''created'' actor payload (db1\<lparr>od_items := rows\<rparr>))))"

definition run_edit :: "string list \<Rightarrow> order \<Rightarrow> order_db \<Rightarrow> oerror + order_db" where
  "run_edit upd w db =
     (if ''status'' \<in> set upd then Inl DatabaseError
      else case row_get or_id (or_id w) (od_orders db) of
        None \<Rightarrow> Inl DoesNotExist
      | Some r \<Rightarrow> map_sum id snd (order_save (Some upd) 0
          \<lparr>in_row = w, in_original = or_status w, in_sealed = seal_of r, in_actor = None\<rparr> db))"

fun order_step :: "order_op \<Rightarrow> order_db \<Rightarrow> oerror + order_db" where
  "order_step (Place r items actor payload) db = run_place r items actor payload db"
| "order_step (Move_status oid new actor now) db = map_sum id snd (transition_order oid new actor now db)"
| "order_step (Emit oid etype actor payload) db =
     (if etype = ''status_changed'' then Inl TypeError else emit_event oid etype actor payload db)"
| "order_step (Edit upd w) db = run_edit upd w db"

fun order_run :: "order_op list \<Rightarrow> order_db \<Rightarrow> order_db" where
  "order_run [] db = db"
| "order_run (op # ops) db = order_run ops (case order_step op db of Inl _ \<Rightarrow> db | Inr db' \<Rightarrow> db')"

definition order_init :: order_db where
  "order_init = \<lparr>od_orders = [], od_items = [], od_events = [], od_signals = []\<rparr>"

section \<open>Advancing\<close>

definition status_moves :: "nat \<Rightarrow> order_event list \<Rightarrow> dict list" where
  "status_moves oid evs = map ev_payload (filter (\<lambda>e. ev_type e = ''status_changed'') (events_of oid evs))"

definition moves_of :: "string \<Rightarrow> string list \<Rightarrow> dict list" where
  "moves_of s ts = map (\<lambda>(a, b). [(''old_status'', JStr a), (''new_status'', JStr b)]) (zip (s # ts) ts)"

lemma moves_of_simps [simp]:
  "moves_of s [] = []"
  "moves_of s (t # ts) = [(''old_status'', JStr s), (''new_status'', JStr t)] # moves_of t ts"
  by (simp_all add: moves_of_def)

lemma moves_of_append: "moves_of s (ts @ us) = moves_of s ts @ moves_of (last (s # ts)) us"
  by (induction ts arbitrary: s) auto

lemma status_moves_append [simp]:
  "status_moves oid (evs @ evs2) = status_moves oid evs @ status_moves oid evs2"
  by (simp add: status_moves_def events_of_def)

text \<open>The order \<open>r\<close> became \<open>r'\<close> by the moves \<open>ts\<close>, which the log gained.\<close>

definition went :: "order_event list \<Rightarrow> order_event list \<Rightarrow> order \<Rightarrow> order \<Rightarrow> string list \<Rightarrow> bool" where
  "went evs evs' r r' ts \<longleftrightarrow> or_id r' = or_id r \<and> seal_of r' = seal_of r
     \<and> lifecycle.history (order_table r) (or_status r) ts \<and> last (or_status r # ts) = or_status r'
     \<and> status_moves (or_id r) evs' = status_moves (or_id r) evs @ moves_of (or_status r) ts"

definition advances :: "order_db \<Rightarrow> order_db \<Rightarrow> bool" where
  "advances db db' \<longleftrightarrow> (\<forall>r \<in> set (od_orders db). \<exists>r' \<in> set (od_orders db'). \<exists>ts.
     went (od_events db) (od_events db') r r' ts)"

lemma seal_table: "seal_of r = seal_of r' \<Longrightarrow> order_table r = order_table r'"
  by (auto simp: seal_of_iff intro!: order_table_cong)

lemma went_stays: "went evs evs' r r' [] \<longleftrightarrow> or_id r' = or_id r \<and> seal_of r' = seal_of r
    \<and> or_status r' = or_status r \<and> status_moves (or_id r) evs' = status_moves (or_id r) evs"
  by (auto simp: went_def)

lemma went_trans:
  assumes "went evs evs1 r r1 ts" "went evs1 evs2 r1 r2 us"
  shows "went evs evs2 r r2 (ts @ us)"
proof -
  have "order_table r1 = order_table r" using assms(1) by (auto simp: went_def intro: seal_table)
  with assms show ?thesis
    by (cases "us = []") (auto simp: went_def lifecycle.history_append moves_of_append)
qed

lemma advances_refl: "advances db db"
  using went_stays by (fastforce simp: advances_def)

lemma advances_trans: "advances a b \<Longrightarrow> advances b c \<Longrightarrow> advances a c"
  unfolding advances_def by (meson went_trans)

section \<open>Each operation\<close>

lemma emit_event_Inr:
  assumes "od_ok db" "emit_event oid etype actor payload db = Inr db'"
  shows "oid \<in> or_id ` set (od_orders db) \<and> db' = db\<lparr>od_events := od_events db @
     [\<lparr>ev_order = oid, ev_seq = int (length (events_of oid (od_events db))), ev_type = etype,
       ev_actor = actor, ev_payload = payload\<rparr>]\<rparr>"
proof -
  obtain r where get: "row_get or_id oid (od_orders db) = Some r"
    using assms(2) by (cases "row_get or_id oid (od_orders db)") (auto simp: emit_event_def)
  have "in_sequence (\<lambda>e. ev_order e = oid) ev_seq (od_events db)" using assms(1) by (simp add: od_ok_def)
  from emit_event_alone [OF get this, of etype actor payload] row_get_SomeD [OF get] assms(2)
  show ?thesis by (force split: if_splits)
qed

lemma od_ok_append_event:
  assumes "od_ok db" "ev_order e \<in> or_id ` set (od_orders db)"
    "ev_seq e = int (length (events_of (ev_order e) (od_events db)))"
  shows "od_ok (db\<lparr>od_events := od_events db @ [e]\<rparr>)"
  using assms by (auto simp: od_ok_def in_sequence_append events_of_def)

lemma status_moves_other [simp]: "ev_type e \<noteq> ''status_changed'' \<Longrightarrow> status_moves oid [e] = []"
  by (simp add: status_moves_def events_of_def)

lemma emit_sound:
  assumes "od_ok db" "emit_event oid etype actor payload db = Inr db'" "etype \<noteq> ''status_changed''"
  shows "od_ok db' \<and> advances db db' \<and> od_orders db' = od_orders db
    \<and> (\<forall>n. status_moves n (od_events db') = status_moves n (od_events db))"
proof -
  from emit_event_Inr [OF assms(1,2)]
  show ?thesis using od_ok_append_event assms by (force simp: advances_def went_stays intro!: exI [of _ "[]"])
qed

lemma orders_ok_put:
  assumes "orders_ok rs" "or_id w \<in> or_id ` set rs"
    "order_constraints w (filter (\<lambda>x. or_id x \<noteq> or_id w) rs)"
  shows "orders_ok (row_put or_id w rs)"
  unfolding orders_ok_def
proof (intro conjI ballI)
  show "distinct (map or_id (row_put or_id w rs))" using assms(1) by (simp add: orders_ok_def)
  fix x assume "x \<in> set (row_put or_id w rs)"
  then consider "x = w" | "x \<in> set rs" "or_id x \<noteq> or_id w"
    by (auto simp: set_row_put split: if_splits)
  then show "order_constraints x (filter (\<lambda>y. or_id y \<noteq> or_id x) (row_put or_id w rs))"
  proof cases
    case 1
    with assms(3) show ?thesis by (auto simp: order_constraints_def set_row_put split: if_splits)
  next
    case 2
    with assms(1) have "order_constraints x (filter (\<lambda>y. or_id y \<noteq> or_id x) rs)"
      by (simp add: orders_ok_def)
    with 2 assms(3) show ?thesis
      by (fastforce simp: order_constraints_def set_row_put split: if_splits)
  qed
qed

lemma put_ids: "or_id w \<in> or_id ` set rs \<Longrightarrow> or_id ` set (row_put or_id w rs) = or_id ` set rs"
  by (metis list.set_map map_key_row_put)

lemma advances_put:
  assumes "orders_ok (od_orders db)" "row_get or_id (or_id w) (od_orders db) = Some r"
    and "od_orders db' = row_put or_id w (od_orders db)"
    and "went (od_events db) (od_events db') r w ts"
    and "\<And>n. n \<noteq> or_id w \<Longrightarrow> status_moves n (od_events db') = status_moves n (od_events db)"
  shows "advances db db'"
  unfolding advances_def
proof
  fix x assume x: "x \<in> set (od_orders db)"
  from row_get_SomeD [OF assms(2)] have r: "r \<in> set (od_orders db)" "or_id r = or_id w" by auto
  show "\<exists>r' \<in> set (od_orders db'). \<exists>ts. went (od_events db) (od_events db') x r' ts"
  proof (cases "or_id x = or_id w")
    case True
    with r x assms(1) have "x = r" by (metis eq_key_imp_eq_value distinct_map inj_onD orders_ok_def)
    moreover have "w \<in> set (od_orders db')" using assms(3) row_get_key [OF assms(2)] by (simp add: set_row_put)
    ultimately show ?thesis using assms(4) by blast
  next
    case False
    with x assms(3) have "x \<in> set (od_orders db')" by (auto simp: set_row_put)
    moreover have "went (od_events db) (od_events db') x x []"
      using False assms(5) by (simp add: went_stays)
    ultimately show ?thesis by blast
  qed
qed

lemma moved_sound:
  assumes ok: "od_ok db" and get: "row_get or_id oid (od_orders db) = Some r"
    and next_ok: "new \<in> set (next_statuses (order_table r) (or_status r))"
  shows "od_ok (moved oid new actor now r db) \<and> advances db (moved oid new actor now r db)"
proof -
  let ?m = "stamp_status now (r\<lparr>or_status := new\<rparr>)"
  let ?db1 = "db\<lparr>od_orders := row_put or_id ?m (od_orders db)\<rparr>"
  from row_get_SomeD [OF get] have r: "r \<in> set (od_orders db)" "or_id r = oid" by auto
  from ok r(1) have "order_constraints r (filter (\<lambda>x. or_id x \<noteq> or_id r) (od_orders db))"
    by (simp add: od_ok_def orders_ok_def)
  then have "order_constraints ?m (filter (\<lambda>x. or_id x \<noteq> or_id ?m) (od_orders db))"
    using order_constraints_cong [of ?m r] by simp
  with ok r have "orders_ok (row_put or_id ?m (od_orders db))"
    by (intro orders_ok_put) (auto simp: od_ok_def)
  moreover have ids: "or_id ` set (row_put or_id ?m (od_orders db)) = or_id ` set (od_orders db)"
    by (rule put_ids) (use r in auto)
  ultimately have "od_ok ?db1" using ok by (simp add: od_ok_def)
  then have db2: "od_ok (?db1\<lparr>od_events := od_events ?db1 @
      [\<lparr>ev_order = oid, ev_seq = int (length (events_of oid (od_events db))), ev_type = ''status_changed'',
        ev_actor = actor, ev_payload = [(''old_status'', JStr (or_status r)), (''new_status'', JStr new)]\<rparr>]\<rparr>)"
    by (rule od_ok_append_event) (use r ids in auto)
  have "od_ok (moved oid new actor now r db)" using db2 by (simp add: od_ok_def moved_def)
  moreover have "advances db (moved oid new actor now r db)"
  proof (rule advances_put)
    show "row_get or_id (or_id ?m) (od_orders db) = Some r" using get r by simp
    show "went (od_events db) (od_events (moved oid new actor now r db)) r ?m [new]"
      using next_ok r by (simp add: went_def moved_def status_moves_def events_of_def seal_of_iff)
    show "status_moves n (od_events (moved oid new actor now r db)) = status_moves n (od_events db)"
      if "n \<noteq> or_id ?m" for n
      using that r by (simp add: moved_def status_moves_def events_of_def)
  qed (use ok in \<open>simp_all add: moved_def od_ok_def\<close>)
  ultimately show ?thesis by blast
qed

lemma move_sound:
  assumes "od_ok db" "map_sum id snd (transition_order oid new actor now db) = Inr db'"
  shows "od_ok db' \<and> advances db db'"
proof -
  obtain r where get: "row_get or_id oid (od_orders db) = Some r"
    using assms(2) by (cases "row_get or_id oid (od_orders db)") (auto simp: transition_order_def)
  show ?thesis
  proof (cases "new = or_status r")
    case True
    with transition_order_exact [OF assms(1) get] assms show ?thesis by (simp add: advances_refl)
  next
    case False
    with transition_order_exact [OF assms(1) get, of new actor now] assms(2) obtain u where
      "check_transition (or_status r) (r\<lparr>or_status := new\<rparr>) = Inr u"
      and db': "db' = moved oid new (actor_or_direct actor) now r db"
      by (cases "check_transition (or_status r) (r\<lparr>or_status := new\<rparr>)") auto
    then have "new \<in> set (next_statuses (order_table r) (or_status r))"
      by (auto dest: check_transition_Inr)
    with moved_sound [OF assms(1) get] db' show ?thesis by blast
  qed
qed

lemma written_some_status: "''status'' \<notin> set upd \<Longrightarrow> or_status (written_order (Some upd) w r) = or_status r"
  by (simp add: written_order_def pick_def)

lemma written_seal: "seal_of w = seal_of r \<Longrightarrow> seal_of (written_order upd w r) = seal_of r"
  by (simp add: seal_of_iff written_order_def pick_def split: option.splits)

lemma edit_sound:
  assumes ok: "od_ok db" and run: "run_edit upd w db = Inr db'"
  shows "od_ok db' \<and> advances db db'"
proof -
  from run obtain r where get: "row_get or_id (or_id w) (od_orders db) = Some r"
    and st: "''status'' \<notin> set upd"
    by (cases "row_get or_id (or_id w) (od_orders db)") (auto simp: run_edit_def split: if_splits)
  let ?i = "\<lparr>in_row = w, in_original = or_status w, in_sealed = seal_of r, in_actor = None\<rparr>"
  let ?w = "written_order (Some upd) w r"
  from row_get_SomeD [OF get] have r: "r \<in> set (od_orders db)" "or_id r = or_id w" by auto
  have id: "or_id ?w = or_id r" by (simp add: written_order_def)
  from run get st have res: "sealed_changed ?i = []" "write_order (Some upd) w db = Inr db'"
    by (auto simp: run_edit_def order_save_def Let_def ebind_def split: if_splits sum.splits)
  from res(1) have seal: "seal_of w = seal_of r" using sealed_changed_seal [of ?i r] by simp
  from res(2) get have c: "order_constraints ?w (filter (\<lambda>x. or_id x \<noteq> or_id ?w) (od_orders db))"
    and db': "db' = db\<lparr>od_orders := row_put or_id ?w (od_orders db)\<rparr>"
    by (auto simp: write_order_def Let_def split: if_splits)
  have mem: "or_id ?w \<in> or_id ` set (od_orders db)" using row_get_key [OF get] id r by simp
  have "od_ok db'"
    using ok orders_ok_put [OF _ mem c] put_ids [OF mem] by (simp add: od_ok_def db')
  moreover have "advances db db'"
  proof (rule advances_put)
    show "row_get or_id (or_id ?w) (od_orders db) = Some r" using get id r by simp
    show "went (od_events db) (od_events db') r ?w []"
      using id st seal by (simp add: went_stays db' written_some_status written_seal)
  qed (use ok in \<open>simp_all add: db' od_ok_def\<close>)
  ultimately show ?thesis by blast
qed

lemma insert_order_ok:
  assumes "orders_ok rs" "or_id r \<notin> or_id ` set rs" "order_constraints r rs"
  shows "orders_ok (rs @ [r])"
proof -
  have others: "filter (\<lambda>x. or_id x \<noteq> or_id r) rs = rs"
    using assms(2) key_mem [of _ rs or_id "or_id r"] by (auto simp: filter_id_conv)
  have "order_constraints x (filter (\<lambda>y. or_id y \<noteq> or_id x) (rs @ [r]))" if x: "x \<in> set rs" for x
  proof -
    from assms(1) x have c: "order_constraints x (filter (\<lambda>y. or_id y \<noteq> or_id x) rs)"
      by (simp add: orders_ok_def)
    from assms(3) x have "or_ref r \<noteq> or_ref x"
      "\<not> (or_external_ref x \<noteq> None \<and> or_external_ref x \<noteq> Some []
         \<and> or_channel_ref r = or_channel_ref x \<and> or_external_ref r = or_external_ref x)"
      by (auto simp: order_constraints_def)
    with c show ?thesis by (auto simp: order_constraints_def)
  qed
  with assms others show ?thesis by (auto simp: orders_ok_def)
qed

lemma place_sound:
  assumes ok: "od_ok db" and run: "run_place r items actor payload db = Inr db'"
  shows "od_ok db' \<and> advances db db' \<and> od_orders db' = od_orders db @ [r]
    \<and> or_status r = ''new'' \<and> status_moves (or_id r) (od_events db') = []"
proof -
  from run have new: "or_id r \<notin> or_id ` set (od_orders db)" "or_status r = ''new''"
    by (auto simp: run_place_def split: if_splits)
  from run new obtain rows where c: "order_constraints r (od_orders db)"
    and e: "emit_event (or_id r) ''created'' actor payload
      (db\<lparr>od_orders := od_orders db @ [r], od_items := rows\<rparr>) = Inr db'"
    by (auto simp: run_place_def create_order_def ebind_def split: if_splits sum.splits)
  let ?db1 = "db\<lparr>od_orders := od_orders db @ [r], od_items := rows\<rparr>"
  have ok1: "od_ok ?db1"
    using ok insert_order_ok [OF _ new(1) c] by (auto simp: od_ok_def)
  note em = emit_sound [OF ok1 e]
  have none: "status_moves (or_id r) (od_events db) = []"
    using ok new(1) by (simp add: status_moves_def events_of_def od_ok_def filter_empty_conv) metis
  have "advances db db'"
    unfolding advances_def
  proof
    fix x assume "x \<in> set (od_orders db)"
    with em show "\<exists>r' \<in> set (od_orders db'). \<exists>ts. went (od_events db) (od_events db') x r' ts"
      by (intro bexI [of _ x] exI [of _ "[]"]) (simp_all add: went_stays)
  qed
  with em new none show ?thesis by simp
qed

lemma order_step_sound:
  "od_ok db \<Longrightarrow> order_step op db = Inr db' \<Longrightarrow> od_ok db' \<and> advances db db'"
  by (cases op)
     (auto dest: place_sound move_sound edit_sound emit_sound split: if_splits simp del: status_value.simps)

lemma order_run_sound: "od_ok db \<Longrightarrow> od_ok (order_run ops db) \<and> advances db (order_run ops db)"
proof (induction ops arbitrary: db)
  case Nil
  then show ?case by (simp add: advances_refl)
next
  case (Cons op ops)
  show ?case
  proof (cases "order_step op db")
    case (Inl e)
    with Cons show ?thesis by simp
  next
    case (Inr db1)
    from order_step_sound [OF Cons.prems this] Cons.IH [of db1] Inr show ?thesis
      by (auto intro: advances_trans)
  qed
qed

lemma order_ids_move:
  assumes "od_ok db" "map_sum id snd (transition_order oid new actor now db) = Inr db'"
  shows "or_id ` set (od_orders db') = or_id ` set (od_orders db)"
proof -
  obtain r where get: "row_get or_id oid (od_orders db) = Some r"
    using assms(2) by (cases "row_get or_id oid (od_orders db)") (auto simp: transition_order_def)
  then have "or_id (stamp_status now (r\<lparr>or_status := new\<rparr>)) \<in> or_id ` set (od_orders db)"
    using row_get_key [OF get] row_get_SomeD [OF get] by simp
  from put_ids [OF this] transition_order_exact [OF assms(1) get, of new actor now] assms(2)
  show ?thesis by (auto simp: moved_def split: if_splits sum.splits)
qed

lemma order_ids_edit:
  assumes "run_edit upd w db = Inr db'"
  shows "or_id ` set (od_orders db') = or_id ` set (od_orders db)"
proof -
  from assms obtain r where get: "row_get or_id (or_id w) (od_orders db) = Some r"
    and st: "''status'' \<notin> set upd"
    by (cases "row_get or_id (or_id w) (od_orders db)") (auto simp: run_edit_def split: if_splits)
  let ?w = "written_order (Some upd) w r"
  from assms get st have "write_order (Some upd) w db = Inr db'"
    by (auto simp: run_edit_def order_save_def Let_def ebind_def split: if_splits sum.splits)
  with get have db': "db' = db\<lparr>od_orders := row_put or_id ?w (od_orders db)\<rparr>"
    by (auto simp: write_order_def Let_def split: if_splits)
  have "or_id ?w \<in> or_id ` set (od_orders db)"
    using row_get_key [OF get] row_get_SomeD [OF get] by (simp add: written_order_def)
  from put_ids [OF this] show ?thesis by (simp add: db')
qed

section \<open>The log tells the whole history\<close>

definition audited :: "order_db \<Rightarrow> bool" where
  "audited db \<longleftrightarrow> (\<forall>r \<in> set (od_orders db). \<exists>ts. lifecycle.history (order_table r) ''new'' ts
     \<and> last (''new'' # ts) = or_status r \<and> status_moves (or_id r) (od_events db) = moves_of ''new'' ts)"

lemma went_audited:
  assumes "lifecycle.history (order_table r) ''new'' ts" "last (''new'' # ts) = or_status r"
    "status_moves (or_id r) evs = moves_of ''new'' ts" "went evs evs' r r' us"
  shows "lifecycle.history (order_table r') ''new'' (ts @ us) \<and> last (''new'' # ts @ us) = or_status r'
    \<and> status_moves (or_id r') evs' = moves_of ''new'' (ts @ us)"
proof -
  have "order_table r' = order_table r" using assms(4) by (auto simp: went_def intro: seal_table)
  with assms show ?thesis
    by (cases "us = []") (auto simp: went_def lifecycle.history_append moves_of_append)
qed

lemma advances_audited:
  assumes "audited db" "advances db db'" "od_ok db'" "r' \<in> set (od_orders db')"
    "or_id r' \<in> or_id ` set (od_orders db)"
  shows "\<exists>ts. lifecycle.history (order_table r') ''new'' ts \<and> last (''new'' # ts) = or_status r'
    \<and> status_moves (or_id r') (od_events db') = moves_of ''new'' ts"
proof -
  from assms(5) obtain r where r: "r \<in> set (od_orders db)" "or_id r = or_id r'" by auto
  with assms(2) obtain r2 us where r2: "r2 \<in> set (od_orders db')" "went (od_events db) (od_events db') r r2 us"
    by (auto simp: advances_def)
  have "distinct (map or_id (od_orders db'))" using assms(3) by (simp add: od_ok_def orders_ok_def)
  moreover have "or_id r2 = or_id r'" using r r2 by (simp add: went_def)
  ultimately have "r2 = r'" using r2(1) assms(4) by (metis distinct_map inj_onD)
  moreover obtain ts where "lifecycle.history (order_table r) ''new'' ts" "last (''new'' # ts) = or_status r"
    "status_moves (or_id r) (od_events db) = moves_of ''new'' ts"
    using assms(1) r(1) by (auto simp: audited_def)
  ultimately show ?thesis using went_audited r2(2) by blast
qed

lemma order_step_audited:
  assumes ok: "od_ok db" and aud: "audited db" and step: "order_step op db = Inr db'"
  shows "audited db'"
  unfolding audited_def
proof
  fix r' assume r': "r' \<in> set (od_orders db')"
  from order_step_sound [OF ok step] have ok': "od_ok db'" and adv: "advances db db'" by auto
  show "\<exists>ts. lifecycle.history (order_table r') ''new'' ts \<and> last (''new'' # ts) = or_status r'
    \<and> status_moves (or_id r') (od_events db') = moves_of ''new'' ts"
  proof (cases "or_id r' \<in> or_id ` set (od_orders db)")
    case True
    with advances_audited [OF aud adv ok' r'] show ?thesis by blast
  next
    case False
    have "\<exists>r items actor payload. op = Place r items actor payload"
    proof (rule ccontr)
      assume no: "\<not> ?thesis"
      have "or_id ` set (od_orders db') = or_id ` set (od_orders db)"
        using no step ok
      proof (cases op)
        case (Move_status oid new actor now)
        with step ok show ?thesis using order_ids_move by simp
      next
        case (Emit oid etype actor payload)
        with step ok emit_sound show ?thesis by (simp split: if_splits)
      next
        case (Edit upd w)
        with step show ?thesis using order_ids_edit by simp
      qed auto
      with False r' show False by auto
    qed
    then obtain r items actor payload where op: "op = Place r items actor payload" by blast
    with step place_sound [OF ok] have p: "od_orders db' = od_orders db @ [r]" "or_status r = ''new''"
      "status_moves (or_id r) (od_events db') = []" by auto
    with r' False have "r' = r" by auto
    with p show ?thesis by (intro exI [of _ "[]"]) simp
  qed
qed

lemma order_run_audited: "od_ok db \<Longrightarrow> audited db \<Longrightarrow> audited (order_run ops db)"
proof (induction ops arbitrary: db)
  case Nil
  then show ?case by simp
next
  case (Cons op ops)
  show ?case
  proof (cases "order_step op db")
    case (Inl e)
    with Cons show ?thesis by simp
  next
    case (Inr db1)
    from order_step_sound [OF Cons.prems(1) Inr] order_step_audited [OF Cons.prems Inr] Cons.IH [of db1] Inr
    show ?thesis by simp
  qed
qed

lemma order_init_ok [simp]: "od_ok order_init" "audited order_init"
  by (simp_all add: od_ok_def orders_ok_def order_init_def audited_def)

end
