(* ===== verification/OrderProps.thy ===== *)
theory OrderProps
  imports OrderRuns
begin

text \<open>
  Properties of the orders: the audit log tells the whole status history, the table of the
  order governs every run, a transition does exactly what the guards allow, and the numbered
  log survives concurrent emissions.
\<close>

section \<open>A shop day\<close>

definition blank_order :: "nat \<Rightarrow> string \<Rightarrow> dict \<Rightarrow> dict \<Rightarrow> int \<Rightarrow> order" where
  "blank_order k ref snap dat total_q = \<lparr>or_id = k, or_ref = ref, or_channel_ref = ''web'',
     or_session_key = ''S1'', or_handle_type = None, or_handle_ref = None, or_external_ref = None,
     or_status = ''new'', or_snapshot = snap, or_data = dat, or_currency = ''BRL'', or_total_q = total_q,
     or_created_at = 0, or_at = (\<lambda>_. None)\<rparr>"

definition shop_day :: "order_op list" where
  "shop_day =
     [Place (blank_order 1 ''WEB-A17'' [] [(''fulfillment_type'', JStr ''pickup'')] 1250)
        [\<lparr>oi_order = 1, oi_line_id = ''L1'', oi_sku = ''PAO'', oi_name = ''Pao'', oi_qty = 5,
          oi_unit_price_q = 250, oi_line_total_q = 1250, oi_meta = []\<rparr>] ''web'' [],
      Move_status 1 ''accepted'' ''ana'' 10,
      Move_status 1 ''preparing'' ''ana'' 11,
      Move_status 1 ''ready'' ''kds'' 12,
      Move_status 1 ''dispatched'' ''ana'' 13,
      Move_status 1 ''preparing'' ''kds'' 14,
      Emit 1 ''note_added'' ''ana'' [(''note'', JStr ''sem cebola'')],
      Move_status 1 ''ready'' ''kds'' 15,
      Edit [''data''] (blank_order 1 ''WEB-A17'' [] [(''notes'', JStr ''caixa'')] 1250),
      Edit [''total_q''] (blank_order 1 ''WEB-A17'' [] [] 1),
      Move_status 1 ''completed'' ''ana'' 16]"

definition shop_day_db :: order_db where
  "shop_day_db = order_run shop_day order_init"

lemma shop_day_orders: "map or_status (od_orders shop_day_db) = [''completed'']
    \<and> map or_id (od_orders shop_day_db) = [1]
    \<and> map ev_type (od_events shop_day_db) =
        [''created'', ''status_changed'', ''status_changed'', ''status_changed'', ''status_changed'',
         ''note_added'', ''status_changed'', ''status_changed'']"
  by code_simp

lemma shop_day_order: "hd (od_orders shop_day_db) \<in> set (od_orders shop_day_db)
    \<and> or_status (hd (od_orders shop_day_db)) = ''completed'' \<and> or_id (hd (od_orders shop_day_db)) = 1"
  using shop_day_orders by (cases "od_orders shop_day_db") auto

section \<open>The audit log\<close>

text \<open>C9: In every state that placing, moving, annotating and editing orders reaches from an
  empty database, the status of an order is the end of a path of transitions its own table
  allows from \<open>new\<close>, the \<open>status_changed\<close> events of its log are exactly the steps of this path
  in order, and all its events are numbered 0, 1, 2, without gaps.\<close>

theorem order_audit:
  assumes "r \<in> set (od_orders (order_run ops order_init))"
  shows "\<exists>ts. lifecycle.history (order_table r) ''new'' ts \<and> or_status r = last (''new'' # ts)
      \<and> status_moves (or_id r) (od_events (order_run ops order_init)) = moves_of ''new'' ts
      \<and> map ev_seq (events_of (or_id r) (od_events (order_run ops order_init)))
          = map int [0..<length (events_of (or_id r) (od_events (order_run ops order_init)))]"
proof -
  have "od_ok (order_run ops order_init)" using order_run_sound by simp
  then have "in_sequence (\<lambda>e. ev_order e = or_id r) ev_seq (od_events (order_run ops order_init))"
    by (simp add: od_ok_def)
  then have "map ev_seq (events_of (or_id r) (od_events (order_run ops order_init)))
      = map int [0..<length (events_of (or_id r) (od_events (order_run ops order_init)))]"
    by (simp only: in_sequence_def events_of_def)
  moreover have "audited (order_run ops order_init)" by (intro order_run_audited) simp_all
  then obtain ts where "lifecycle.history (order_table r) ''new'' ts" "last (''new'' # ts) = or_status r"
    "status_moves (or_id r) (od_events (order_run ops order_init)) = moves_of ''new'' ts"
    using assms unfolding audited_def by blast
  ultimately show ?thesis by (intro exI [of _ ts]) (simp only: simp_thms)
qed

theorem order_audit_witness:
  "\<exists>ts. lifecycle.history (order_table (hd (od_orders shop_day_db))) ''new'' ts
      \<and> or_status (hd (od_orders shop_day_db)) = last (''new'' # ts)
      \<and> status_moves (or_id (hd (od_orders shop_day_db))) (od_events shop_day_db) = moves_of ''new'' ts
      \<and> map ev_seq (events_of (or_id (hd (od_orders shop_day_db))) (od_events shop_day_db))
          = map int [0..<length (events_of (or_id (hd (od_orders shop_day_db))) (od_events shop_day_db))]"
  unfolding shop_day_db_def
  by (rule order_audit) (use shop_day_order in \<open>simp add: shop_day_db_def\<close>)

section \<open>The table governs\<close>

text \<open>From any consistent database and through any run, an order that is there stays there,
  its reference, channel, session, snapshot, total and currency never change, and its status
  only follows the transitions of its table; when the table allows nothing after the current
  status, it keeps that status for ever.\<close>

theorem order_lifecycle:
  assumes "od_ok db" "r \<in> set (od_orders db)"
  shows "\<exists>r' \<in> set (od_orders (order_run ops db)). or_id r' = or_id r \<and> seal_of r' = seal_of r
     \<and> (\<exists>ts. lifecycle.history (order_table r) (or_status r) ts \<and> or_status r' = last (or_status r # ts))
     \<and> (next_statuses (order_table r) (or_status r) = [] \<longrightarrow> or_status r' = or_status r)"
proof -
  from order_run_sound [OF assms(1), of ops] assms(2) obtain r' ts where
    r': "r' \<in> set (od_orders (order_run ops db))" and w: "went (od_events db) (od_events (order_run ops db)) r r' ts"
    by (auto simp: advances_def)
  then have h: "or_id r' = or_id r" "seal_of r' = seal_of r"
    "lifecycle.history (order_table r) (or_status r) ts" "last (or_status r # ts) = or_status r'"
    unfolding went_def by blast+
  have "next_statuses (order_table r) (or_status r) = [] \<Longrightarrow> ts = []"
    using h(3) by (rule lifecycle.terminal_history [rotated])
  then have "next_statuses (order_table r) (or_status r) = [] \<longrightarrow> or_status r' = or_status r"
    using h(4) by auto
  with r' h show ?thesis by metis
qed

text \<open>A pickup order that is ready on the counter, with the default table.\<close>

definition counter_order :: order where
  "counter_order = (blank_order 1 ''WEB-A17'' [] [(''fulfillment_type'', JStr ''pickup'')] 1250)
     \<lparr>or_status := ''ready''\<rparr>"

definition counter_db :: order_db where
  "counter_db = \<lparr>od_orders = [counter_order], od_items = [], od_events = [], od_signals = []\<rparr>"

lemma counter_facts: "od_ok counter_db" "counter_order \<in> set (od_orders counter_db)"
  "row_get or_id 1 (od_orders counter_db) = Some counter_order" "or_status counter_order = ''ready''"
  "or_id counter_order = 1"
  by (simp_all add: counter_db_def counter_order_def blank_order_def od_ok_def orders_ok_def order_constraints_def)

theorem order_lifecycle_witness:
  "\<exists>r' \<in> set (od_orders (order_run [Move_status 1 ''cancelled'' ''ana'' 20, Move_status 1 ''completed'' ''ana'' 21] counter_db)).
     or_id r' = or_id counter_order \<and> seal_of r' = seal_of counter_order
     \<and> (\<exists>ts. lifecycle.history (order_table counter_order) (or_status counter_order) ts
          \<and> or_status r' = last (or_status counter_order # ts))"
  using order_lifecycle [OF counter_facts(1,2), of "[Move_status 1 ''cancelled'' ''ana'' 20, Move_status 1 ''completed'' ''ana'' 21]"]
  by blast

section \<open>One transition\<close>

text \<open>C37: A transition of a known order to another status is refused with
  \<open>invalid_transition\<close> when its table does not list it, with
  \<open>dispatched_requires_delivery\<close> when the order is picked up in the shop, and with
  \<open>delivery_requires_dispatch_before_completion\<close> when a delivery would be completed straight
  from \<open>ready\<close>; otherwise it succeeds, writes only the status and its first time stamp, and
  appends one event with the next number and one signal.\<close>

theorem transition_exact:
  assumes "od_ok db" "row_get or_id oid (od_orders db) = Some r" "new \<noteq> or_status r"
    and "get_transitions r = Inr tbl" "allowed_next tbl (or_status r) = Inr allowed"
  shows "map_sum id snd (transition_order oid new actor now db) =
    (if JStr new \<notin> set allowed then Inl (InvalidTransition ''invalid_transition'')
     else if new = ''dispatched'' \<and> truthy (fulfillment_kind (or_data r))
             \<and> fulfillment_kind (or_data r) \<noteq> JStr ''delivery''
       then Inl (InvalidTransition ''dispatched_requires_delivery'')
     else if new = ''completed'' \<and> or_status r = ''ready'' \<and> fulfillment_kind (or_data r) = JStr ''delivery''
       then Inl (InvalidTransition ''delivery_requires_dispatch_before_completion'')
     else Inr (db\<lparr>
       od_orders := row_put or_id (stamp_status now (r\<lparr>or_status := new\<rparr>)) (od_orders db),
       od_events := od_events db @
         [\<lparr>ev_order = oid, ev_seq = int (length (events_of oid (od_events db))), ev_type = ''status_changed'',
           ev_actor = actor_or_direct actor,
           ev_payload = [(''old_status'', JStr (or_status r)), (''new_status'', JStr new)]\<rparr>],
       od_signals := od_signals db @ [(oid, ''status_changed'', actor_or_direct actor)]\<rparr>))"
proof -
  have "get_transitions (r\<lparr>or_status := new\<rparr>) = Inr tbl"
    using assms(4) get_transitions_cong [of "r\<lparr>or_status := new\<rparr>" r] by simp
  with assms(3,5) show ?thesis
    by (simp add: transition_order_exact [OF assms(1,2)] check_transition_def Let_def moved_def)
qed

theorem transition_exact_witness:
  "map_sum id snd (transition_order 1 ''dispatched'' ''ana'' 20 counter_db)
     = Inl (InvalidTransition ''dispatched_requires_delivery'')"
  using transition_exact [OF counter_facts(1,3), of "''dispatched''" default_transitions
    "[JStr ''preparing'', JStr ''dispatched'', JStr ''completed'']" "''ana''" 20]
  by (simp add: counter_order_def blank_order_def get_transitions_def lifecycle_of_def allowed_next_def
      default_transitions_def fulfillment_kind_def)

section \<open>Concurrent emissions\<close>

text \<open>C39: While fewer than six transactions commit events of the same scope between the reading
  of the maximum and the insertion, and these continue the numbering, an emission succeeds: its
  row is written after those that were committed before its last attempt, with the next number,
  and the log stays numbered without gaps or repetitions.\<close>

theorem sequence_retry:
  assumes "in_sequence scope seq (rows @ concat rivals)" "numbers scope seq mk" "length rivals < 6"
  shows "\<exists>j \<le> length rivals. \<exists>rows'. create_sequenced_event rivals scope seq mk rows = Inr rows'
     \<and> rows' = rows @ concat (take j rivals) @ [mk (scope_count scope (rows @ concat (take j rivals)))]
     \<and> in_sequence scope seq rows'"
proof -
  have "length rivals \<le> 5" using assms(3) by simp
  with sequenced_attempts_succeeds [OF assms(1), of "[mk]" 5] assms(2) obtain j where
    j: "j \<le> length rivals" "create_sequenced_event rivals scope seq mk rows
      = Inr (rows @ concat (take j rivals) @ numbered (scope_count scope (rows @ concat (take j rivals))) [mk])"
    unfolding create_sequenced_event_attempts by fastforce
  have "in_sequence scope seq ((rows @ concat (take j rivals)) @ concat (drop j rivals))"
    using assms(1) by (metis append.assoc append_take_drop_id concat_append)
  then have "in_sequence scope seq (rows @ concat (take j rivals))"
    by (blast dest: in_sequence_append [THEN iffD1])
  from numbered_in_sequence [OF this, of "[mk]"] assms(2) j show ?thesis
    by (intro exI [of _ j]) simp
qed

text \<open>Two other workers annotate the order while a payment event is being written.\<close>

definition note_by :: "string \<Rightarrow> int \<Rightarrow> order_event" where
  "note_by who k = \<lparr>ev_order = 1, ev_seq = k, ev_type = ''note'', ev_actor = who, ev_payload = []\<rparr>"

theorem sequence_retry_witness:
  "\<exists>rows'. create_sequenced_event [[note_by ''kds'' 1], [note_by ''ana'' 2]]
       (\<lambda>e. ev_order e = 1) ev_seq (note_by ''pix'') [note_by ''web'' 0] = Inr rows'
     \<and> in_sequence (\<lambda>e. ev_order e = 1) ev_seq rows'"
proof -
  have seq: "in_sequence (\<lambda>e. ev_order e = 1) ev_seq ([note_by ''web'' 0] @ concat [[note_by ''kds'' 1], [note_by ''ana'' 2]])"
    by (simp add: in_sequence_def note_by_def)
  have num: "numbers (\<lambda>e. ev_order e = 1) ev_seq (note_by ''pix'')" by (simp add: numbers_def note_by_def)
  have "length [[note_by ''kds'' 1], [note_by ''ana'' 2]] < 6" by simp
  from sequence_retry [OF seq num this] show ?thesis by blast
qed

end
