(* ===== verification/OrderDispatch.thy ===== *)
theory OrderDispatch
  imports Orderman
begin

text \<open>
  The directives of \<open>orderman\<close> (\<open>models/directive.py\<close>, \<open>claims.py\<close>, \<open>dispatch.py\<close>,
  \<open>management/commands/process_directives.py\<close>): the queue of at-least-once tasks, the claim
  of a directive by compare-and-set, the outcome written only while the claim holds, the
  retry rule, the reaper that revokes claims, the dispatch after a commit and a cycle of the
  worker. Handlers are registered by the application: a handler is a parameter that reads
  the directive, may rewrite the table, and returns or raises. A clock reading is passed for
  every call of \<open>timezone.now()\<close>, in the order of the calls.
\<close>

section \<open>Directives\<close>

datatype directive_status = Queued | Running | Done | Failed

record directive =
  di_id :: nat
  di_topic :: string
  di_status :: directive_status
  di_payload :: dict
  di_attempts :: int
  di_available_at :: int
  di_last_error :: string
  di_error_code :: string
  di_dedupe_key :: string
  di_started_at :: "int option"

definition directive_live :: "directive \<Rightarrow> bool" where
  "directive_live d \<longleftrightarrow> di_status d \<in> {Queued, Running}"

definition same_live_task :: "directive \<Rightarrow> directive \<Rightarrow> bool" where
  "same_live_task d x \<longleftrightarrow> di_dedupe_key d \<noteq> [] \<and> directive_live d \<and> directive_live x
     \<and> di_topic x = di_topic d \<and> di_dedupe_key x = di_dedupe_key d"

text \<open>\<open>Directive.objects.create\<close> of a queued directive.\<close>

definition create_directive :: "directive \<Rightarrow> directive list \<Rightarrow> oerror + directive list" where
  "create_directive d rows =
     (if \<exists>x \<in> set rows. same_live_task d x then Inl IntegrityError else Inr (rows @ [d]))"

definition queued_directive :: "nat \<Rightarrow> string \<Rightarrow> dict \<Rightarrow> int \<Rightarrow> directive" where
  "queued_directive k topic payload due = \<lparr>di_id = k, di_topic = topic, di_status = Queued, di_payload = payload,
     di_attempts = 0, di_available_at = due, di_last_error = [], di_error_code = [], di_dedupe_key = [],
     di_started_at = None\<rparr>"

section \<open>The claim\<close>

record claim_fields =
  cf_status :: "directive_status option"
  cf_error_code :: "string option"
  cf_last_error :: "string option"
  cf_available_at :: "int option"
  cf_attempts :: "int option"

definition set_fields :: "claim_fields \<Rightarrow> directive \<Rightarrow> directive" where
  "set_fields f d = d\<lparr>
     di_status := case_option (di_status d) id (cf_status f),
     di_error_code := case_option (di_error_code d) id (cf_error_code f),
     di_last_error := case_option (di_last_error d) id (cf_last_error f),
     di_available_at := case_option (di_available_at d) id (cf_available_at f),
     di_attempts := case_option (di_attempts d) id (cf_attempts f)\<rparr>"

text \<open>
  \<open>save_if_claimed\<close>: the row is read under its lock; \<open>None\<close> means that the claim was lost
  and nothing was written, otherwise the row as written is returned with the table.
\<close>

definition save_if_claimed ::
    "nat \<Rightarrow> int \<Rightarrow> int \<Rightarrow> claim_fields \<Rightarrow> bool \<Rightarrow> directive list \<Rightarrow> directive option \<times> directive list" where
  "save_if_claimed pk attempts started flds only_if_running rows =
     (case row_get di_id pk rows of
        None \<Rightarrow> (None, rows)
      | Some current \<Rightarrow>
          if di_attempts current \<noteq> attempts \<or> di_started_at current \<noteq> Some started then (None, rows)
          else let f = (if only_if_running \<and> di_status current \<noteq> Running
                        then flds\<lparr>cf_status := None\<rparr> else flds);
                   written = set_fields f current in
               (Some written, row_put di_id written rows))"

text \<open>The conditional update of \<open>_process_directive\<close>: only a queued row is claimed.\<close>

definition claimed_row :: "int \<Rightarrow> directive \<Rightarrow> directive" where
  "claimed_row now d = d\<lparr>di_status := Running, di_attempts := di_attempts d + 1, di_started_at := Some now\<rparr>"

definition claim_directive :: "nat \<Rightarrow> int \<Rightarrow> directive list \<Rightarrow> directive option \<times> directive list" where
  "claim_directive pk now rows =
     (case row_get di_id pk rows of
        None \<Rightarrow> (None, rows)
      | Some d \<Rightarrow> if di_status d \<noteq> Queued then (None, rows)
                  else (Some (claimed_row now d), row_put di_id (claimed_row now d) rows))"

section \<open>Handlers and their outcomes\<close>

datatype handle_result = Handled | Terminal_failure string | Transient_failure string | Crashed string

record handler =
  ha_retry_delays :: "int list"
  ha_handle :: "directive \<Rightarrow> directive list \<Rightarrow> handle_result \<times> directive list"

definition default_max_attempts :: int where
  "default_max_attempts = 5"

definition opportunistic_retry_limit :: nat where
  "opportunistic_retry_limit = 3"

definition backoff_seconds :: "int \<Rightarrow> int" where
  "backoff_seconds attempts = 2 ^ nat attempts"

text \<open>The ceiling of attempts and the wait before the next one.\<close>

definition retry_policy :: "handler option \<Rightarrow> int \<Rightarrow> int \<Rightarrow> int \<times> int" where
  "retry_policy h attempts max_default =
     (case h of
        Some ha \<Rightarrow>
          if ha_retry_delays ha \<noteq> [] then
            let n = int (length (ha_retry_delays ha));
                index = min (max attempts 1 - 1) (n - 1) in
            (n + 1, ha_retry_delays ha ! nat index)
          else (max_default, backoff_seconds attempts)
      | None \<Rightarrow> (max_default, backoff_seconds attempts))"

definition no_fields :: claim_fields where
  "no_fields = \<lparr>cf_status = None, cf_error_code = None, cf_last_error = None, cf_available_at = None,
     cf_attempts = None\<rparr>"

definition retry_outcome :: "int \<Rightarrow> int \<Rightarrow> int \<Rightarrow> int \<Rightarrow> string \<Rightarrow> claim_fields" where
  "retry_outcome attempts cap now delay message =
     (if attempts \<ge> cap
      then no_fields\<lparr>cf_status := Some Failed, cf_error_code := Some ''terminal'',
             cf_last_error := Some (take 500 message)\<rparr>
      else no_fields\<lparr>cf_status := Some Queued, cf_error_code := Some ''transient'',
             cf_available_at := Some (now + delay), cf_last_error := Some (take 500 message)\<rparr>)"

text \<open>The fields an execution writes, and whether its status only replaces \<open>running\<close>.\<close>

definition outcome_of :: "handle_result \<Rightarrow> int \<Rightarrow> int \<Rightarrow> int \<Rightarrow> int \<Rightarrow> claim_fields \<times> bool" where
  "outcome_of res attempts cap now delay =
     (case res of
        Handled \<Rightarrow> (no_fields\<lparr>cf_status := Some Done, cf_error_code := Some [], cf_last_error := Some []\<rparr>, True)
      | Terminal_failure m \<Rightarrow>
          (no_fields\<lparr>cf_status := Some Failed, cf_error_code := Some ''terminal'',
             cf_last_error := Some (take 500 m)\<rparr>, False)
      | Transient_failure m \<Rightarrow> (retry_outcome attempts cap now delay m, False)
      | Crashed m \<Rightarrow> (retry_outcome attempts cap now delay m, False))"

text \<open>The table and the directives whose terminal failure was announced to their handler.\<close>

record queue =
  qu_rows :: "directive list"
  qu_notified :: "nat list"

text \<open>The outcome of an execution under the claim \<open>(attempts, started)\<close>.\<close>

definition settle_claim ::
    "nat \<Rightarrow> int \<Rightarrow> int \<Rightarrow> claim_fields \<times> bool \<Rightarrow> queue \<Rightarrow> queue" where
  "settle_claim pk attempts started out q =
     (case save_if_claimed pk attempts started (fst out) (snd out) (qu_rows q) of
        (None, rows) \<Rightarrow> q\<lparr>qu_rows := rows\<rparr>
      | (Some d, rows) \<Rightarrow> q\<lparr>qu_rows := rows,
            qu_notified := (if di_status d = Failed then qu_notified q @ [pk] else qu_notified q)\<rparr>)"

definition process_directive ::
    "(string \<Rightarrow> handler option) \<Rightarrow> int \<Rightarrow> directive \<Rightarrow> queue \<Rightarrow> queue" where
  "process_directive handlers now d q =
     (case handlers (di_topic d) of
        None \<Rightarrow> q
      | Some h \<Rightarrow>
          (case claim_directive (di_id d) now (qu_rows q) of
             (None, _) \<Rightarrow> q
           | (Some c, rows) \<Rightarrow>
               let attempts = di_attempts c; (cap, delay) = retry_policy (Some h) attempts default_max_attempts;
                   (res, rows') = ha_handle h c rows in
               settle_claim (di_id d) attempts now (outcome_of res attempts cap now delay)
                 (q\<lparr>qu_rows := rows'\<rparr>)))"

section \<open>Dispatch after a commit\<close>

definition queue_order :: "directive list \<Rightarrow> directive list" where
  "queue_order ds = sort_key di_available_at (sort_key di_id ds)"

definition retryable :: "string \<Rightarrow> int \<Rightarrow> directive \<Rightarrow> bool" where
  "retryable topic now d \<longleftrightarrow> di_topic d = topic \<and> di_status d = Queued \<and> di_available_at d \<le> now
     \<and> 0 < di_attempts d \<and> di_attempts d < default_max_attempts"

fun process_all :: "(string \<Rightarrow> handler option) \<Rightarrow> (nat \<Rightarrow> int) \<Rightarrow> nat \<Rightarrow> directive list \<Rightarrow> queue \<Rightarrow> queue" where
  "process_all handlers clk i [] q = q"
| "process_all handlers clk i (d # ds) q =
     process_all handlers clk (Suc i) ds (process_directive handlers (clk i) d q)"

definition retry_failed_directives ::
    "(string \<Rightarrow> handler option) \<Rightarrow> (nat \<Rightarrow> int) \<Rightarrow> nat \<Rightarrow> string \<Rightarrow> queue \<Rightarrow> queue" where
  "retry_failed_directives handlers clk i topic q =
     process_all handlers clk (Suc i)
       (take opportunistic_retry_limit (queue_order (filter (retryable topic (clk i)) (qu_rows q)))) q"

definition on_commit_callback ::
    "(string \<Rightarrow> handler option) \<Rightarrow> (nat \<Rightarrow> int) \<Rightarrow> nat \<Rightarrow> string \<Rightarrow> queue \<Rightarrow> queue" where
  "on_commit_callback handlers clk pk topic q =
     (case row_get di_id pk (qu_rows q) of
        None \<Rightarrow> q
      | Some d \<Rightarrow>
          if di_status d \<noteq> Queued then q
          else if di_available_at d > clk 0 then q
          else retry_failed_directives handlers clk 2 topic (process_directive handlers (clk 1) d q))"

text \<open>
  \<open>on_directive_post_save\<close> followed by the commit of its transaction; \<open>dispatching\<close> is the
  thread-local guard against cascades.
\<close>

definition on_directive_post_save ::
    "(string \<Rightarrow> handler option) \<Rightarrow> (nat \<Rightarrow> int) \<Rightarrow> bool \<Rightarrow> bool \<Rightarrow> directive \<Rightarrow> queue \<Rightarrow> queue" where
  "on_directive_post_save handlers clk created dispatching d q =
     (if \<not> created \<or> di_status d \<noteq> Queued \<or> dispatching then q
      else on_commit_callback handlers clk (di_id d) (di_topic d) q)"

section \<open>The worker\<close>

definition stuck :: "int \<Rightarrow> directive \<Rightarrow> bool" where
  "stuck cutoff d \<longleftrightarrow> di_status d = Running \<and> (case di_started_at d of Some t \<Rightarrow> t \<le> cutoff | None \<Rightarrow> False)"

definition reaped_row :: "(string \<Rightarrow> handler option) \<Rightarrow> int \<Rightarrow> int \<Rightarrow> directive \<Rightarrow> directive" where
  "reaped_row handlers max_default now d =
     (if di_attempts d \<ge> fst (retry_policy (handlers (di_topic d)) (di_attempts d) max_default)
      then d\<lparr>di_status := Failed, di_last_error := ''stuck'', di_started_at := None\<rparr>
      else d\<lparr>di_status := Queued, di_available_at := now, di_last_error := ''stuck'', di_started_at := None\<rparr>)"

text \<open>
  \<open>_reap_stuck_directives\<close>; \<open>skipped\<close> are the rows another transaction has locked. The text
  of \<open>last_error\<close> is abbreviated.
\<close>

definition reap_stuck ::
    "(string \<Rightarrow> handler option) \<Rightarrow> int \<Rightarrow> int \<Rightarrow> int \<Rightarrow> nat set \<Rightarrow> queue \<Rightarrow> queue" where
  "reap_stuck handlers timeout max_default now skipped q =
     (let picked = (\<lambda>d. stuck (now - timeout) d \<and> di_id d \<notin> skipped);
          rows = map (\<lambda>d. if picked d then reaped_row handlers max_default now d else d) (qu_rows q) in
      q\<lparr>qu_rows := rows,
        qu_notified := qu_notified q @
          map di_id (filter (\<lambda>d. di_status (reaped_row handlers max_default now d) = Failed)
                      (filter picked (qu_rows q)))\<rparr>)"

definition restamp_claim ::
    "nat \<Rightarrow> int \<Rightarrow> int \<Rightarrow> int \<Rightarrow> directive list \<Rightarrow> bool \<times> directive list" where
  "restamp_claim pk attempts started stamp rows =
     (case row_get di_id pk rows of
        None \<Rightarrow> (False, rows)
      | Some d \<Rightarrow> if di_status d = Running \<and> di_attempts d = attempts \<and> di_started_at d = Some started
                  then (True, row_put di_id (d\<lparr>di_started_at := Some stamp\<rparr>) rows) else (False, rows))"

definition ready_for_worker :: "string list \<Rightarrow> int \<Rightarrow> nat set \<Rightarrow> directive \<Rightarrow> bool" where
  "ready_for_worker topics now skipped d \<longleftrightarrow> di_status d = Queued \<and> di_topic d \<in> set topics
     \<and> di_available_at d \<le> now \<and> di_id d \<notin> skipped"

text \<open>The batch a cycle locks and claims in one transaction.\<close>

definition pick_batch :: "string list \<Rightarrow> nat \<Rightarrow> int \<Rightarrow> nat set \<Rightarrow> directive list \<Rightarrow> directive list" where
  "pick_batch topics n now skipped rows =
     take n (queue_order (filter (ready_for_worker topics now skipped) rows))"

fun claim_batch :: "int \<Rightarrow> directive list \<Rightarrow> directive list \<Rightarrow> directive list" where
  "claim_batch now [] rows = rows"
| "claim_batch now (d # ds) rows = claim_batch now ds (row_put di_id (claimed_row now d) rows)"

text \<open>One directive of the batch, claimed at \<open>now\<close>; \<open>stamp\<close> is the clock when its turn comes.\<close>

definition work_on ::
    "(string \<Rightarrow> handler option) \<Rightarrow> int \<Rightarrow> int \<Rightarrow> int \<Rightarrow> directive \<Rightarrow> queue \<Rightarrow> queue" where
  "work_on handlers max_default now stamp d q =
     (let attempts = di_attempts d in
      case handlers (di_topic d) of
        None \<Rightarrow> q\<lparr>qu_rows := snd (save_if_claimed (di_id d) attempts now
                    (no_fields\<lparr>cf_status := Some Queued, cf_attempts := Some (attempts - 1)\<rparr>) False (qu_rows q))\<rparr>
      | Some h \<Rightarrow>
          (case restamp_claim (di_id d) attempts now stamp (qu_rows q) of
             (False, _) \<Rightarrow> q
           | (True, rows) \<Rightarrow>
               let (cap, delay) = retry_policy (Some h) attempts max_default;
                   (res, rows') = ha_handle h (d\<lparr>di_started_at := Some stamp\<rparr>) rows in
               settle_claim (di_id d) attempts stamp (outcome_of res attempts cap now delay)
                 (q\<lparr>qu_rows := rows'\<rparr>)))"

fun work_all ::
    "(string \<Rightarrow> handler option) \<Rightarrow> int \<Rightarrow> int \<Rightarrow> (nat \<Rightarrow> int) \<Rightarrow> nat \<Rightarrow> directive list \<Rightarrow> queue \<Rightarrow> queue" where
  "work_all handlers max_default now clk i [] q = q"
| "work_all handlers max_default now clk i (d # ds) q =
     work_all handlers max_default now clk (Suc i) ds (work_on handlers max_default now (clk i) d q)"

definition worker_cycle ::
    "(string \<Rightarrow> handler option) \<Rightarrow> string list \<Rightarrow> nat \<Rightarrow> int \<Rightarrow> (nat \<Rightarrow> int) \<Rightarrow> nat set \<Rightarrow> queue \<Rightarrow> bool \<times> queue" where
  "worker_cycle handlers topics n max_default clk skipped q =
     (let now = clk 0; batch = pick_batch topics n now skipped (qu_rows q) in
      if batch = [] then (False, q)
      else (True, work_all handlers max_default now clk 1 (map (claimed_row now) batch)
                    (q\<lparr>qu_rows := claim_batch now batch (qu_rows q)\<rparr>)))"

text \<open>One invocation without \<open>--watch\<close>: the reaper, then a cycle. A timeout of 0 disables the reaper.\<close>

definition worker_run ::
    "(string \<Rightarrow> handler option) \<Rightarrow> string list \<Rightarrow> nat \<Rightarrow> int \<Rightarrow> int \<Rightarrow> (nat \<Rightarrow> int) \<Rightarrow> nat set \<Rightarrow> queue \<Rightarrow> queue" where
  "worker_run handlers topics n max_default reap_timeout clk skipped q =
     (let cap = (if max_default = 0 then default_max_attempts else max max_default 1) in
      if topics = [] then q
      else snd (worker_cycle handlers topics (max n 1) cap (\<lambda>i. clk (Suc i)) skipped
             (if reap_timeout \<le> 0 then q
              else reap_stuck handlers (60 * reap_timeout) cap (clk 0) skipped q)))"

end
