(* ===== verification/OrderWorkers.thy ===== *)
theory OrderWorkers
  imports OrderDispatch
begin

text \<open>
  Several workers on one queue of directives, as an interleaving of the transactions of
  \<open>OrderDispatch\<close>: the dispatcher's claim, the worker's batch claim, the restamp before an
  execution, the outcome, the release when no handler is registered, the reaper, and a
  handler that rewrites its own directive. \<open>ws_tickets\<close> records every claim a worker was
  given: the directive, its attempts and the stamp. The clock moves forward at every claim.
\<close>

record workers =
  ws_queue :: queue
  ws_now :: int
  ws_tickets :: "(nat \<times> int \<times> int) list"

abbreviation ws_rows :: "workers \<Rightarrow> directive list" where
  "ws_rows w \<equiv> qu_rows (ws_queue w)"

definition with_rows :: "directive list \<Rightarrow> workers \<Rightarrow> workers" where
  "with_rows rows w = w\<lparr>ws_queue := (ws_queue w)\<lparr>qu_rows := rows\<rparr>\<rparr>"

definition give_tickets :: "(nat \<times> int \<times> int) list \<Rightarrow> int \<Rightarrow> workers \<Rightarrow> workers" where
  "give_tickets ts now w = w\<lparr>ws_tickets := ws_tickets w @ ts, ws_now := now\<rparr>"

text \<open>The ceiling of a topic over the two callers of \<open>retry_policy\<close>: the dispatcher and the worker.\<close>

definition attempt_caps :: "(string \<Rightarrow> handler option) \<Rightarrow> int \<Rightarrow> string \<Rightarrow> int set" where
  "attempt_caps handlers max_default topic =
     {fst (retry_policy (handlers topic) 0 default_max_attempts), fst (retry_policy (handlers topic) 0 max_default)}"

definition attempt_cap :: "(string \<Rightarrow> handler option) \<Rightarrow> int \<Rightarrow> string \<Rightarrow> int" where
  "attempt_cap handlers max_default topic =
     max (fst (retry_policy (handlers topic) 0 default_max_attempts)) (fst (retry_policy (handlers topic) 0 max_default))"

inductive worker_step :: "(string \<Rightarrow> handler option) \<Rightarrow> int \<Rightarrow> workers \<Rightarrow> workers \<Rightarrow> bool"
  for handlers :: "string \<Rightarrow> handler option" and max_default :: int where
  enqueue:
    "di_id d \<notin> di_id ` set (ws_rows w) \<Longrightarrow> di_id d \<notin> fst ` set (ws_tickets w) \<Longrightarrow>
     d = (queued_directive (di_id d) topic payload due)\<lparr>di_dedupe_key := key\<rparr> \<Longrightarrow>
     create_directive d (ws_rows w) = Inr rows \<Longrightarrow>
     worker_step handlers max_default w (with_rows rows w)"
| claim:
    "claim_directive pk (ws_now w) (ws_rows w) = (Some c, rows) \<Longrightarrow> ws_now w < later \<Longrightarrow>
     worker_step handlers max_default w
       (give_tickets [(pk, di_attempts c, ws_now w)] later (with_rows rows w))"
| batch:
    "ds = pick_batch topics n (ws_now w) skipped (ws_rows w) \<Longrightarrow> ws_now w < later \<Longrightarrow>
     worker_step handlers max_default w
       (give_tickets (map (\<lambda>d. (di_id d, di_attempts d + 1, ws_now w)) ds) later
          (with_rows (claim_batch (ws_now w) ds (ws_rows w)) w))"
| restamp:
    "(pk, a, t) \<in> set (ws_tickets w) \<Longrightarrow> restamp_claim pk a t (ws_now w) (ws_rows w) = (True, rows) \<Longrightarrow>
     ws_now w < later \<Longrightarrow>
     worker_step handlers max_default w (give_tickets [(pk, a, ws_now w)] later (with_rows rows w))"
| outcome:
    "(pk, a, t) \<in> set (ws_tickets w) \<Longrightarrow> row_get di_id pk (ws_rows w) = Some d \<Longrightarrow>
     cap \<in> attempt_caps handlers max_default (di_topic d) \<Longrightarrow>
     worker_step handlers max_default w
       (w\<lparr>ws_queue := settle_claim pk a t (outcome_of res a cap now delay) (ws_queue w)\<rparr>)"
| release:
    "(pk, a, t) \<in> set (ws_tickets w) \<Longrightarrow>
     worker_step handlers max_default w
       (with_rows (snd (save_if_claimed pk a t
          (no_fields\<lparr>cf_status := Some Queued, cf_attempts := Some (a - 1)\<rparr>) False (ws_rows w))) w)"
| reap:
    "worker_step handlers max_default w
       (w\<lparr>ws_queue := reap_stuck handlers timeout max_default (ws_now w) skipped (ws_queue w)\<rparr>)"
| tick:
    "ws_now w \<le> later \<Longrightarrow> worker_step handlers max_default w (w\<lparr>ws_now := later\<rparr>)"

text \<open>A handler that saves the directive it was given: everything but its key and its stamp.\<close>

inductive handler_write :: "workers \<Rightarrow> workers \<Rightarrow> bool" where
  "row_get di_id (di_id d') (ws_rows w) = Some d \<Longrightarrow> di_started_at d' = di_started_at d \<Longrightarrow>
   handler_write w (with_rows (row_put di_id d' (ws_rows w)) w)"

inductive queue_step :: "(string \<Rightarrow> handler option) \<Rightarrow> int \<Rightarrow> workers \<Rightarrow> workers \<Rightarrow> bool"
  for handlers :: "string \<Rightarrow> handler option" and max_default :: int where
  "worker_step handlers max_default w w' \<Longrightarrow> queue_step handlers max_default w w'"
| "handler_write w w' \<Longrightarrow> queue_step handlers max_default w w'"

definition workers_init :: "int \<Rightarrow> workers" where
  "workers_init now = \<lparr>ws_queue = \<lparr>qu_rows = [], qu_notified = []\<rparr>, ws_now = now, ws_tickets = []\<rparr>"

section \<open>Stamps\<close>

text \<open>
  No row carries a stamp older than a claim already given on it, and every stamp is in the
  past: this is what makes a lost claim stay lost.
\<close>

definition stamps_ok :: "workers \<Rightarrow> bool" where
  "stamps_ok w \<longleftrightarrow> distinct (map di_id (ws_rows w))
     \<and> (\<forall>(pk, a, t) \<in> set (ws_tickets w). t < ws_now w)
     \<and> (\<forall>d \<in> set (ws_rows w). \<forall>(pk, a, t) \<in> set (ws_tickets w). pk = di_id d \<longrightarrow>
          di_started_at d = None \<or> (\<exists>s. di_started_at d = Some s \<and> t \<le> s))"

text \<open>The claim does not hold: the row is gone or carries another stamp.\<close>

definition lost :: "nat \<Rightarrow> int \<Rightarrow> workers \<Rightarrow> bool" where
  "lost pk t w \<longleftrightarrow> (\<forall>d \<in> set (ws_rows w). di_id d = pk \<longrightarrow> di_started_at d \<noteq> Some t)"

text \<open>What a step may do to the stamp of a row.\<close>

definition stamp_moves :: "workers \<Rightarrow> workers \<Rightarrow> bool" where
  "stamp_moves w w' \<longleftrightarrow> ws_now w \<le> ws_now w' \<and> distinct (map di_id (ws_rows w'))
     \<and> (\<forall>d' \<in> set (ws_rows w'). di_started_at d' = None \<or> di_started_at d' = Some (ws_now w)
          \<or> (\<exists>d \<in> set (ws_rows w). di_id d = di_id d' \<and> di_started_at d = di_started_at d'))
     \<and> (\<forall>(pk, a, t) \<in> set (ws_tickets w'). (pk, a, t) \<in> set (ws_tickets w)
          \<or> (t = ws_now w \<and> ws_now w < ws_now w'
              \<and> (\<forall>d' \<in> set (ws_rows w'). di_id d' = pk \<longrightarrow> di_started_at d' = Some (ws_now w))))"

lemma with_rows_simps [simp]:
  "ws_rows (with_rows rows w) = rows" "ws_now (with_rows rows w) = ws_now w"
  "ws_tickets (with_rows rows w) = ws_tickets w"
  by (simp_all add: with_rows_def)

lemma give_tickets_simps [simp]:
  "ws_queue (give_tickets ts now w) = ws_queue w" "ws_now (give_tickets ts now w) = now"
  "ws_tickets (give_tickets ts now w) = ws_tickets w @ ts"
  by (simp_all add: give_tickets_def)

lemma claimed_row_simps [simp]:
  "di_id (claimed_row now d) = di_id d" "di_started_at (claimed_row now d) = Some now"
  "di_attempts (claimed_row now d) = di_attempts d + 1" "di_status (claimed_row now d) = Running"
  "di_topic (claimed_row now d) = di_topic d"
  by (simp_all add: claimed_row_def)

lemma set_fields_simps [simp]:
  "di_id (set_fields f d) = di_id d" "di_started_at (set_fields f d) = di_started_at d"
  "di_topic (set_fields f d) = di_topic d"
  by (simp_all add: set_fields_def)

lemma reaped_row_simps [simp]:
  "di_id (reaped_row handlers m now d) = di_id d" "di_started_at (reaped_row handlers m now d) = None"
  "di_attempts (reaped_row handlers m now d) = di_attempts d" "di_topic (reaped_row handlers m now d) = di_topic d"
  by (simp_all add: reaped_row_def)

lemma in_row_put: "x \<in> set (row_put key r rs) \<Longrightarrow> x = r \<or> x \<in> set rs"
  by (auto simp: set_row_put split: if_splits)

lemma put_same_key: "x \<in> set (row_put key r rs) \<Longrightarrow> key x = key r \<Longrightarrow> x = r"
  by (auto simp: set_row_put split: if_splits)

lemma save_if_claimed_cases:
  obtains "save_if_claimed pk a t f flag rows = (None, rows)"
  | d f' where "row_get di_id pk rows = Some d" "di_attempts d = a" "di_started_at d = Some t"
      "f' = f \<or> (f' = f\<lparr>cf_status := None\<rparr> \<and> flag \<and> di_status d \<noteq> Running)"
      "save_if_claimed pk a t f flag rows = (Some (set_fields f' d), row_put di_id (set_fields f' d) rows)"
proof (cases "row_get di_id pk rows")
  case None
  then show thesis by (intro that(1)) (simp add: save_if_claimed_def)
next
  case (Some d)
  show thesis
  proof (cases "di_attempts d = a \<and> di_started_at d = Some t")
    case True
    with Some show thesis
      by (intro that(2) [of d "if flag \<and> di_status d \<noteq> Running then f\<lparr>cf_status := None\<rparr> else f"])
         (auto simp: save_if_claimed_def Let_def)
  next
    case False
    with Some show thesis by (intro that(1)) (auto simp: save_if_claimed_def)
  qed
qed

lemma save_if_claimed_lost:
  "lost pk t w \<Longrightarrow> save_if_claimed pk a t f flag (ws_rows w) = (None, ws_rows w)"
  by (rule save_if_claimed_cases [of pk a t f flag "ws_rows w"])
     (auto simp: lost_def dest: row_get_SomeD)

lemma claim_batch_map:
  "map di_id (claim_batch now ds rows) = map di_id rows"
  by (induction ds arbitrary: rows) simp_all

lemma claim_batch_rows:
  "x \<in> set (claim_batch now ds rows) \<Longrightarrow> x \<in> set rows \<or> (\<exists>d \<in> set ds. x = claimed_row now d)"
  by (induction ds arbitrary: rows) (auto dest: in_row_put)

lemma claim_batch_claimed:
  "x \<in> set (claim_batch now ds rows) \<Longrightarrow> di_id x \<in> di_id ` set ds \<Longrightarrow>
     \<exists>d \<in> set ds. x = claimed_row now d"
proof (induction ds arbitrary: rows)
  case Nil
  then show ?case by simp
next
  case (Cons d ds)
  show ?case
  proof (cases "di_id x \<in> di_id ` set ds")
    case True
    with Cons show ?thesis by auto
  next
    case False
    with Cons.prems(1) claim_batch_rows [of x now ds "row_put di_id (claimed_row now d) rows"]
    have "x \<in> set (row_put di_id (claimed_row now d) rows)" by auto
    moreover have "di_id x = di_id d" using Cons.prems(2) False by auto
    ultimately show ?thesis using put_same_key [of x di_id "claimed_row now d" rows] by auto
  qed
qed

lemma settle_claim_rows:
  "qu_rows (settle_claim pk a t out q) = snd (save_if_claimed pk a t (fst out) (snd out) (qu_rows q))"
  by (simp add: settle_claim_def split: prod.splits option.splits)

lemma save_if_claimed_stamps:
  "map di_id (snd (save_if_claimed pk a t f flag rows)) = map di_id rows
   \<and> (\<forall>d' \<in> set (snd (save_if_claimed pk a t f flag rows)).
        \<exists>d \<in> set rows. di_id d = di_id d' \<and> di_started_at d = di_started_at d')"
  by (rule save_if_claimed_cases [of pk a t f flag rows])
     (auto dest!: in_row_put row_get_SomeD)

lemma new_claims_move:
  assumes "distinct (map di_id (ws_rows w))" "map di_id rows = map di_id (ws_rows w)" "ws_now w < later"
    and "\<forall>d' \<in> set rows. di_started_at d' = Some (ws_now w) \<or> d' \<in> set (ws_rows w)"
    and "\<forall>d' \<in> set rows. \<forall>(pk, a, t) \<in> set ts. di_id d' = pk \<longrightarrow> di_started_at d' = Some (ws_now w)"
    and "\<forall>(pk, a, t) \<in> set ts. t = ws_now w"
  shows "stamp_moves w (give_tickets ts later (with_rows rows w))"
  unfolding stamp_moves_def
proof (intro conjI)
  show "\<forall>(pk, a, t) \<in> set (ws_tickets (give_tickets ts later (with_rows rows w))).
     (pk, a, t) \<in> set (ws_tickets w) \<or> (t = ws_now w \<and> ws_now w < ws_now (give_tickets ts later (with_rows rows w))
       \<and> (\<forall>d' \<in> set (ws_rows (give_tickets ts later (with_rows rows w))). di_id d' = pk \<longrightarrow> di_started_at d' = Some (ws_now w)))"
    using assms(3,5,6) by auto
qed (use assms in auto)

lemma put_claim_moves:
  assumes "distinct (map di_id (ws_rows w))" "row_get di_id pk (ws_rows w) = Some d" "ws_now w < later"
    and "di_id c = pk" "di_started_at c = Some (ws_now w)"
  shows "stamp_moves w (give_tickets [(pk, a, ws_now w)] later (with_rows (row_put di_id c (ws_rows w)) w))"
  by (rule new_claims_move)
     (use assms put_same_key [of _ di_id c "ws_rows w"] in_row_put [of _ di_id c "ws_rows w"] in auto)

lemma worker_step_stamps:
  "worker_step handlers m w w' \<Longrightarrow> distinct (map di_id (ws_rows w)) \<Longrightarrow> stamp_moves w w'"
proof (induction rule: worker_step.induct)
  case (enqueue d w topic payload due key rows)
  then have "rows = ws_rows w @ [d]" by (auto simp: create_directive_def split: if_splits)
  moreover have "di_started_at d = None" using enqueue(3) by (metis (no_types) directive.select_convs(10) directive.surjective directive.update_convs(9) queued_directive_def)
  ultimately show ?case using enqueue by (auto simp: stamp_moves_def)
next
  case (claim pk w c rows later)
  then obtain d where "row_get di_id pk (ws_rows w) = Some d" "rows = row_put di_id (claimed_row (ws_now w) d) (ws_rows w)"
    by (auto simp: claim_directive_def split: option.splits if_splits)
  with claim put_claim_moves [of w pk d later "claimed_row (ws_now w) d" "di_attempts c"] show ?case
    by (auto dest: row_get_SomeD)
next
  case (batch ds topics n w skipped later)
  have "\<forall>x \<in> set (claim_batch (ws_now w) ds (ws_rows w)). di_id x \<in> di_id ` set ds
      \<longrightarrow> di_started_at x = Some (ws_now w)"
    by (auto dest: claim_batch_claimed)
  moreover have "\<forall>x \<in> set (claim_batch (ws_now w) ds (ws_rows w)).
      di_started_at x = Some (ws_now w) \<or> x \<in> set (ws_rows w)"
    by (auto dest: claim_batch_rows)
  ultimately show ?case using batch by (intro new_claims_move) (auto simp: claim_batch_map)
next
  case (restamp pk a t w rows later)
  then obtain d where "row_get di_id pk (ws_rows w) = Some d"
    "rows = row_put di_id (d\<lparr>di_started_at := Some (ws_now w)\<rparr>) (ws_rows w)"
    by (auto simp: restamp_claim_def split: option.splits if_splits)
  with restamp put_claim_moves [of w pk d later "d\<lparr>di_started_at := Some (ws_now w)\<rparr>" a] show ?case
    by (auto dest: row_get_SomeD)
next
  case (outcome pk a t w d cap res now delay)
  then show ?case
    using save_if_claimed_stamps [of pk a t "fst (outcome_of res a cap now delay)" "snd (outcome_of res a cap now delay)" "ws_rows w"]
    by (simp add: stamp_moves_def settle_claim_rows)
next
  case (release pk a t w)
  then show ?case
    using save_if_claimed_stamps [of pk a t "no_fields\<lparr>cf_status := Some Queued, cf_attempts := Some (a - 1)\<rparr>" False "ws_rows w"]
    by (simp add: stamp_moves_def)
next
  case (reap w timeout skipped)
  then show ?case by (auto simp: stamp_moves_def reap_stuck_def Let_def comp_def if_distrib cong: if_cong)
next
  case (tick w later)
  then show ?case by (auto simp: stamp_moves_def)
qed

lemma queue_step_stamps:
  "queue_step handlers m w w' \<Longrightarrow> distinct (map di_id (ws_rows w)) \<Longrightarrow> stamp_moves w w'"
proof (induction rule: queue_step.induct)
  case (1 w w')
  then show ?case by (rule worker_step_stamps)
next
  case (2 w w')
  then show ?case
    by (cases rule: handler_write.cases) (auto simp: stamp_moves_def dest!: in_row_put row_get_SomeD)
qed

lemma stamps_ok_step: "queue_step handlers m w w' \<Longrightarrow> stamps_ok w \<Longrightarrow> stamps_ok w'"
proof -
  assume step: "queue_step handlers m w w'" and ok: "stamps_ok w"
  from ok have dis: "distinct (map di_id (ws_rows w))" and past: "\<And>pk a t. (pk, a, t) \<in> set (ws_tickets w) \<Longrightarrow> t < ws_now w"
    and last: "\<And>d pk a t s. d \<in> set (ws_rows w) \<Longrightarrow> (pk, a, t) \<in> set (ws_tickets w) \<Longrightarrow> pk = di_id d \<Longrightarrow>
      di_started_at d = Some s \<Longrightarrow> t \<le> s"
    by (fastforce simp: stamps_ok_def)+
  from queue_step_stamps [OF step dis] have mv: "stamp_moves w w'" .
  have "t < ws_now w'" if "(pk, a, t) \<in> set (ws_tickets w')" for pk a t
    using mv that past [of pk a t] by (fastforce simp: stamp_moves_def)
  moreover have "t \<le> s" if d: "d' \<in> set (ws_rows w')" "(pk, a, t) \<in> set (ws_tickets w')" "pk = di_id d'"
      "di_started_at d' = Some s" for d' pk a t s
  proof (cases "(pk, a, t) \<in> set (ws_tickets w)")
    case True
    from mv d(1,4) consider "s = ws_now w"
      | d where "d \<in> set (ws_rows w)" "di_id d = di_id d'" "di_started_at d = Some s"
      by (fastforce simp: stamp_moves_def)
    then show ?thesis
      using True past [OF True] d(3) by cases (auto dest: last)
  next
    case False
    with mv d have "t = ws_now w" "di_started_at d' = Some (ws_now w)" by (fastforce simp: stamp_moves_def)+
    with d(4) show ?thesis by simp
  qed
  ultimately show "stamps_ok w'"
    using mv by (fastforce simp: stamps_ok_def stamp_moves_def)
qed

lemma lost_step:
  "queue_step handlers m w w' \<Longrightarrow> stamps_ok w \<Longrightarrow> (pk, a, t) \<in> set (ws_tickets w) \<Longrightarrow> lost pk t w \<Longrightarrow> lost pk t w'"
proof -
  assume step: "queue_step handlers m w w'" and ok: "stamps_ok w" and tk: "(pk, a, t) \<in> set (ws_tickets w)"
    and l: "lost pk t w"
  have mv: "stamp_moves w w'" using queue_step_stamps [OF step] ok by (simp add: stamps_ok_def)
  have "t < ws_now w" using ok tk by (fastforce simp: stamps_ok_def)
  with mv l show "lost pk t w'" by (fastforce simp: lost_def stamp_moves_def)
qed

lemma stamps_ok_run: "(queue_step handlers m)\<^sup>*\<^sup>* w w' \<Longrightarrow> stamps_ok w \<Longrightarrow> stamps_ok w'"
  by (induction rule: rtranclp_induct) (auto intro: stamps_ok_step)

lemma tickets_kept: "(queue_step handlers m)\<^sup>*\<^sup>* w w' \<Longrightarrow> set (ws_tickets w) \<subseteq> set (ws_tickets w')"
proof (induction rule: rtranclp_induct)
  case (step y z)
  have "set (ws_tickets y) \<subseteq> set (ws_tickets z)"
    using step.hyps(2) by (cases rule: queue_step.cases) (auto elim!: worker_step.cases handler_write.cases)
  with step show ?case by blast
qed simp

lemma lost_run:
  assumes "(queue_step handlers m)\<^sup>*\<^sup>* w w'" "stamps_ok w" "(pk, a, t) \<in> set (ws_tickets w)" "lost pk t w"
  shows "lost pk t w'"
  using assms(1)
proof (induction rule: rtranclp_induct)
  case base
  show ?case by (rule assms)
next
  case (step y z)
  have "(pk, a, t) \<in> set (ws_tickets y)" using tickets_kept [OF step.hyps(1)] assms(3) by blast
  with lost_step [OF step.hyps(2)] stamps_ok_run [OF step.hyps(1) assms(2)] step.IH show ?case by blast
qed

lemma later_claim_loses:
  assumes "stamps_ok w" "(pk, a', t') \<in> set (ws_tickets w)" "t < t'"
  shows "lost pk t w"
  unfolding lost_def
proof (intro ballI impI)
  fix d assume "d \<in> set (ws_rows w)" "di_id d = pk"
  with assms have "di_started_at d = None \<or> (\<exists>s. di_started_at d = Some s \<and> t' \<le> s)"
    by (fastforce simp: stamps_ok_def)
  with assms(3) show "di_started_at d \<noteq> Some t" by auto
qed

lemma workers_init_ok [simp]: "stamps_ok (workers_init now)"
  by (simp add: stamps_ok_def workers_init_def)

section \<open>Attempts\<close>

definition attempts_ok :: "(string \<Rightarrow> handler option) \<Rightarrow> int \<Rightarrow> directive \<Rightarrow> bool" where
  "attempts_ok handlers m d \<longleftrightarrow> di_attempts d \<le> attempt_cap handlers m (di_topic d)
     \<and> (di_status d = Queued \<longrightarrow> di_attempts d < attempt_cap handlers m (di_topic d))"

lemma retry_cap: "fst (retry_policy h a m) = fst (retry_policy h 0 m)"
  by (simp add: retry_policy_def Let_def split: option.splits)

lemma attempt_caps_le: "cap \<in> attempt_caps handlers m topic \<Longrightarrow> cap \<le> attempt_cap handlers m topic"
  by (auto simp: attempt_caps_def attempt_cap_def)

lemma attempt_cap_positive: "0 < attempt_cap handlers m topic"
  by (auto simp: attempt_cap_def retry_policy_def default_max_attempts_def less_max_iff_disj Let_def split: option.splits)

lemma claimed_attempts_ok:
  "attempts_ok handlers m d \<Longrightarrow> di_status d = Queued \<Longrightarrow> attempts_ok handlers m (claimed_row now d)"
  by (simp add: attempts_ok_def)

lemma reaped_attempts_ok: "attempts_ok handlers m d \<Longrightarrow> attempts_ok handlers m (reaped_row handlers m now d)"
  using retry_cap [of "handlers (di_topic d)" "di_attempts d" m]
  by (simp add: attempts_ok_def reaped_row_def attempt_cap_def less_max_iff_disj not_le)

lemma outcome_attempts_ok:
  assumes "attempts_ok handlers m d" "cap \<in> attempt_caps handlers m (di_topic d)"
    and "f = fst (outcome_of res (di_attempts d) cap now delay)
       \<or> f = (fst (outcome_of res (di_attempts d) cap now delay))\<lparr>cf_status := None\<rparr>"
  shows "attempts_ok handlers m (set_fields f d)"
  using assms attempt_caps_le [OF assms(2)]
  by (cases res) (auto simp: attempts_ok_def outcome_of_def retry_outcome_def set_fields_def no_fields_def)

lemma queue_order_set: "set (queue_order ds) = set ds"
  by (simp add: queue_order_def)

lemma pick_batch_queued: "d \<in> set (pick_batch topics n now skipped rows) \<Longrightarrow> d \<in> set rows \<and> di_status d = Queued"
  by (auto simp: pick_batch_def queue_order_set ready_for_worker_def dest!: in_set_takeD)

lemma worker_step_attempts:
  "worker_step handlers m w w' \<Longrightarrow> \<forall>d \<in> set (ws_rows w). attempts_ok handlers m d \<Longrightarrow>
     \<forall>d \<in> set (ws_rows w'). attempts_ok handlers m d"
proof (induction rule: worker_step.induct)
  case (enqueue d w topic payload due key rows)
  then have rows: "rows = ws_rows w @ [d]" by (auto simp: create_directive_def split: if_splits)
  have "di_attempts d = 0" by (subst enqueue(3)) (simp add: queued_directive_def)
  then have "attempts_ok handlers m d" using attempt_cap_positive [of handlers m "di_topic d"] by (simp add: attempts_ok_def)
  with rows enqueue show ?case by simp
next
  case (claim pk w c rows later)
  then obtain d where d: "row_get di_id pk (ws_rows w) = Some d" "di_status d = Queued"
    "rows = row_put di_id (claimed_row (ws_now w) d) (ws_rows w)"
    by (auto simp: claim_directive_def split: option.splits if_splits)
  with claim have "attempts_ok handlers m (claimed_row (ws_now w) d)"
    by (auto intro: claimed_attempts_ok dest: row_get_SomeD)
  with claim d show ?case by (auto dest!: in_row_put)
next
  case (batch ds topics n w skipped later)
  then have "\<forall>d \<in> set ds. attempts_ok handlers m (claimed_row (ws_now w) d)"
    by (auto intro: claimed_attempts_ok dest: pick_batch_queued)
  with batch show ?case by (auto dest!: claim_batch_rows)
next
  case (restamp pk a t w rows later)
  then obtain d where d: "row_get di_id pk (ws_rows w) = Some d"
    "rows = row_put di_id (d\<lparr>di_started_at := Some (ws_now w)\<rparr>) (ws_rows w)"
    by (auto simp: restamp_claim_def split: option.splits if_splits)
  with restamp have "attempts_ok handlers m (d\<lparr>di_started_at := Some (ws_now w)\<rparr>)"
    by (auto simp: attempts_ok_def dest!: row_get_SomeD)
  with restamp d show ?case by (auto dest!: in_row_put)
next
  case (outcome pk a t w d cap res now delay)
  let ?o = "outcome_of res a cap now delay"
  show ?case
  proof (rule save_if_claimed_cases [of pk a t "fst ?o" "snd ?o" "ws_rows w"])
    assume "save_if_claimed pk a t (fst ?o) (snd ?o) (ws_rows w) = (None, ws_rows w)"
    with outcome show ?thesis by (simp add: settle_claim_rows)
  next
    fix x f' assume x: "row_get di_id pk (ws_rows w) = Some x" "di_attempts x = a"
      "f' = fst ?o \<or> (f' = (fst ?o)\<lparr>cf_status := None\<rparr> \<and> snd ?o \<and> di_status x \<noteq> Running)"
      "save_if_claimed pk a t (fst ?o) (snd ?o) (ws_rows w)
        = (Some (set_fields f' x), row_put di_id (set_fields f' x) (ws_rows w))"
    with outcome have "attempts_ok handlers m (set_fields f' x)"
      by (intro outcome_attempts_ok) (auto dest: row_get_SomeD)
    with outcome x show ?thesis by (auto simp: settle_claim_rows dest!: in_row_put)
  qed
next
  case (release pk a t w)
  let ?f = "no_fields\<lparr>cf_status := Some Queued, cf_attempts := Some (a - 1)\<rparr>"
  show ?case
  proof (rule save_if_claimed_cases [of pk a t ?f False "ws_rows w"])
    assume "save_if_claimed pk a t ?f False (ws_rows w) = (None, ws_rows w)"
    with release show ?thesis by simp
  next
    fix x f' assume x: "row_get di_id pk (ws_rows w) = Some x" "di_attempts x = a"
      "f' = ?f \<or> (f' = ?f\<lparr>cf_status := None\<rparr> \<and> False \<and> di_status x \<noteq> Running)"
      "save_if_claimed pk a t ?f False (ws_rows w)
        = (Some (set_fields f' x), row_put di_id (set_fields f' x) (ws_rows w))"
    with release have "attempts_ok handlers m x" by (auto dest: row_get_SomeD)
    with x(2,3) have "attempts_ok handlers m (set_fields f' x)"
      by (auto simp: attempts_ok_def set_fields_def no_fields_def)
    with release x show ?thesis by (auto dest!: in_row_put)
  qed
next
  case (reap w timeout skipped)
  then show ?case by (auto simp: reap_stuck_def Let_def intro: reaped_attempts_ok)
next
  case (tick w later)
  then show ?case by simp
qed

lemma worker_run_attempts:
  "(worker_step handlers m)\<^sup>*\<^sup>* w w' \<Longrightarrow> \<forall>d \<in> set (ws_rows w). attempts_ok handlers m d \<Longrightarrow>
     \<forall>d \<in> set (ws_rows w'). attempts_ok handlers m d"
  by (induction rule: rtranclp_induct) (simp, blast dest: worker_step_attempts)

end
