(* ===== verification/OrderQueueProps.thy ===== *)
theory OrderQueueProps
  imports OrderWorkers
begin

text \<open>
  Properties of the queue of directives under any interleaving of the dispatcher, the worker,
  the reaper and the handlers.
\<close>

section \<open>A night with two workers\<close>

definition no_retry_delays :: handler where
  "no_retry_delays = \<lparr>ha_retry_delays = [], ha_handle = (\<lambda>d rows. (Handled, rows))\<rparr>"

definition registry :: "string \<Rightarrow> handler option" where
  "registry topic = (if topic = ''notify'' then Some no_retry_delays else None)"

definition mail :: directive where
  "mail = (queued_directive 7 ''notify'' [] 0)\<lparr>di_dedupe_key := ''A17''\<rparr>"

definition night1 :: workers where
  "night1 = with_rows [mail] (workers_init 0)"

definition night2 :: workers where
  "night2 = give_tickets [(7, 1, 0)] 700 (with_rows [claimed_row 0 mail] night1)"

definition night3 :: workers where
  "night3 = night2\<lparr>ws_queue := reap_stuck registry 600 5 700 {} (ws_queue night2)\<rparr>"

definition night4 :: workers where
  "night4 = give_tickets [(7, 2, 700)] 701 (with_rows (snd (claim_directive 7 700 (ws_rows night3))) night3)"

lemma night1_step: "worker_step registry 5 (workers_init 0) night1"
  unfolding night1_def
  by (rule enqueue [of mail _ "''A17''" "''notify''" "[]" 0])
     (simp_all add: mail_def workers_init_def queued_directive_def create_directive_def)

lemma night_steps:
  "worker_step registry 5 night1 night2" "worker_step registry 5 night2 night3" "queue_step registry 5 night3 night4"
proof -
  show "worker_step registry 5 night1 night2"
    unfolding night2_def
    using claim [of 7 night1 "claimed_row 0 mail" "[claimed_row 0 mail]" 700 registry 5]
    by (simp add: night1_def claim_directive_def mail_def queued_directive_def workers_init_def claimed_row_def)
  show "worker_step registry 5 night2 night3"
    unfolding night3_def using reap [of registry 5 night2 600 "{}"] by (simp add: night2_def)
  have "worker_step registry 5 night3 night4"
    unfolding night4_def
    using claim [of 7 night3 "claimed_row 700 (hd (ws_rows night3))" "snd (claim_directive 7 700 (ws_rows night3))" 701 registry 5]
    by (simp add: night3_def night2_def night1_def reap_stuck_def stuck_def reaped_row_def registry_def
        no_retry_delays_def retry_policy_def claim_directive_def mail_def queued_directive_def workers_init_def
        claimed_row_def)
  then show "queue_step registry 5 night3 night4" by (rule queue_step.intros(1))
qed

lemma night_runs: "(queue_step registry 5)\<^sup>*\<^sup>* (workers_init 0) night2"
  using night1_step night_steps(1) by (meson queue_step.intros(1) rtranclp.rtrancl_into_rtrancl rtranclp.rtrancl_refl)

section \<open>Claims\<close>

text \<open>The reaper takes the stamp of every row it picks, so no claim on the row holds any more.\<close>

lemma reaped_lost:
  assumes "distinct (map di_id (ws_rows w))" "d \<in> set (ws_rows w)" "stuck (ws_now w - timeout) d" "di_id d \<notin> skipped"
  shows "lost (di_id d) t (w\<lparr>ws_queue := reap_stuck handlers timeout m (ws_now w) skipped (ws_queue w)\<rparr>)"
proof -
  have "x = d" if "x \<in> set (ws_rows w)" "di_id x = di_id d" for x
    using assms(1,2) that by (auto simp: distinct_map dest: inj_onD)
  with assms(3,4) show ?thesis by (auto simp: lost_def reap_stuck_def Let_def)
qed

text \<open>C11: A claim on a directive is lost for good as soon as the reaper picks its row, or the directive has been
  claimed or restamped later: whatever interleaving of claims, restamps, outcomes, reapings and handler writes
  follows, the worker that held the earlier claim can never write an outcome again; its compare-and-set writes
  nothing and announces nothing. Two claims never carry the same time, because the clock of the model moves at every
  claim.\<close>

theorem lost_claim_never_writes:
  assumes "(queue_step handlers m)\<^sup>*\<^sup>* (workers_init start) w" "(pk, a, t) \<in> set (ws_tickets w)"
    and "(w1 = w \<and> (\<exists>a' t'. (pk, a', t') \<in> set (ws_tickets w) \<and> t < t'))
      \<or> (w1 = w\<lparr>ws_queue := reap_stuck handlers timeout m (ws_now w) skipped (ws_queue w)\<rparr>
          \<and> (\<exists>d \<in> set (ws_rows w). di_id d = pk \<and> stuck (ws_now w - timeout) d \<and> pk \<notin> skipped))"
    and "(queue_step handlers m)\<^sup>*\<^sup>* w1 w'"
  shows "save_if_claimed pk a t f flag (ws_rows w') = (None, ws_rows w')
    \<and> settle_claim pk a t out (ws_queue w') = ws_queue w'"
proof -
  have ok: "stamps_ok w" using stamps_ok_run [OF assms(1)] by simp
  have "stamps_ok w1 \<and> (pk, a, t) \<in> set (ws_tickets w1) \<and> lost pk t w1"
    using assms(3)
  proof
    assume "w1 = w \<and> (\<exists>a' t'. (pk, a', t') \<in> set (ws_tickets w) \<and> t < t')"
    with ok assms(2) show ?thesis by (auto intro: later_claim_loses)
  next
    let ?w = "w\<lparr>ws_queue := reap_stuck handlers timeout m (ws_now w) skipped (ws_queue w)\<rparr>"
    assume r: "w1 = ?w \<and> (\<exists>d \<in> set (ws_rows w). di_id d = pk \<and> stuck (ws_now w - timeout) d \<and> pk \<notin> skipped)"
    have "stamps_ok ?w" using stamps_ok_step [OF queue_step.intros(1) [OF worker_step.reap] ok] .
    moreover have "lost pk t ?w" using r reaped_lost [of w _ timeout skipped] ok by (auto simp: stamps_ok_def)
    ultimately show ?thesis using r assms(2) by simp
  qed
  with lost_run [OF assms(4)] have "lost pk t w'" by blast
  from save_if_claimed_lost [OF this] show ?thesis by (simp add: settle_claim_def)
qed

theorem lost_claim_never_writes_witness:
  "settle_claim 7 1 0 (outcome_of Handled 1 5 0 2) (ws_queue night4) = ws_queue night4"
proof -
  have "(7, 1, 0) \<in> set (ws_tickets night2)" by (simp add: night2_def)
  moreover have "\<exists>d \<in> set (ws_rows night2). di_id d = 7 \<and> stuck (ws_now night2 - 600) d \<and> 7 \<notin> ({} :: nat set)"
    by (simp add: night2_def stuck_def claimed_row_def mail_def queued_directive_def)
  moreover have "night3 = night2\<lparr>ws_queue := reap_stuck registry 600 5 (ws_now night2) {} (ws_queue night2)\<rparr>"
    by (simp add: night3_def night2_def)
  moreover have "(queue_step registry 5)\<^sup>*\<^sup>* night3 night4" using night_steps(3) by blast
  ultimately show ?thesis
    using lost_claim_never_writes [OF night_runs, of 7 1 0 night3 600 "{}" night4 no_fields False "outcome_of Handled 1 5 0 2"]
    by blast
qed

section \<open>Attempts\<close>

text \<open>C34: However dispatcher, worker and reaper interleave, no directive is attempted more often
  than the ceiling of its topic, the larger of the two the callers use, and a directive that is
  back in the queue always has an attempt left.\<close>

theorem attempts_bounded:
  assumes "(worker_step handlers m)\<^sup>*\<^sup>* (workers_init start) w" "d \<in> set (ws_rows w)"
  shows "di_attempts d \<le> attempt_cap handlers m (di_topic d)
    \<and> (di_status d = Queued \<longrightarrow> di_attempts d < attempt_cap handlers m (di_topic d))"
proof -
  have "\<forall>d \<in> set (ws_rows w). attempts_ok handlers m d"
    by (rule worker_run_attempts [OF assms(1)]) (simp add: workers_init_def)
  with assms(2) show ?thesis by (simp add: attempts_ok_def)
qed

theorem attempts_bounded_witness: "di_attempts mail \<le> attempt_cap registry 5 ''notify''"
proof -
  from night1_step have "(worker_step registry 5)\<^sup>*\<^sup>* (workers_init 0) night1" by blast
  moreover have "mail \<in> set (ws_rows night1)" by (simp add: night1_def)
  ultimately show ?thesis using attempts_bounded [of registry 5 0 night1 mail]
    by (simp add: mail_def queued_directive_def)
qed

end
