(* ===== verification/Monetary.thy ===== *)
theory Monetary
  imports Complex_Main Prelude
begin

text \<open>
  Money (\<open>utils/monetary.py\<close>): integer cents, quantities as rationals, every product and
  quotient rounded half up. The products stay within the 28 digits of Python's decimal context.
\<close>

section \<open>Rounding\<close>

text \<open>\<open>ROUND_HALF_UP\<close> of Python's \<open>decimal\<close>: a tie goes away from zero.\<close>

definition round_half_up :: "rat \<Rightarrow> int" where
  "round_half_up x = (if 0 \<le> x then \<lfloor>x + 1 / 2\<rfloor> else - \<lfloor>- x + 1 / 2\<rfloor>)"

definition monetary_mult :: "rat \<Rightarrow> int \<Rightarrow> int" where
  "monetary_mult qty unit_price_q = round_half_up (qty * of_int unit_price_q)"

definition monetary_div :: "int \<Rightarrow> int \<Rightarrow> int option" where
  "monetary_div total_q divisor =
     (if divisor \<le> 0 then None else Some (round_half_up (of_int total_q / of_int divisor)))"

definition brl_to_q :: "rat \<Rightarrow> int" where
  "brl_to_q v = round_half_up (v * 100)"

section \<open>Laws\<close>

lemma round_half_up_of_int [simp]: "round_half_up (of_int n) = n"
proof -
  have "\<lfloor>(of_int m :: rat) + 1 / 2\<rfloor> = m" for m by (simp add: floor_eq_iff)
  from this [of n] this [of "- n"] show ?thesis by (simp add: round_half_up_def)
qed

lemma round_half_up_0 [simp]: "round_half_up 0 = 0"
  using round_half_up_of_int [of 0] by simp

lemma round_half_up_nonneg: "0 \<le> x \<Longrightarrow> 0 \<le> round_half_up x"
  by (simp add: round_half_up_def)

lemma round_half_up_mono:
  assumes "x \<le> y"
  shows "round_half_up x \<le> round_half_up y"
proof (cases "0 \<le> x")
  case True
  with assms show ?thesis by (auto simp: round_half_up_def intro: floor_mono)
next
  case False
  show ?thesis
  proof (cases "0 \<le> y")
    case True
    have "0 \<le> \<lfloor>- x + 1 / 2\<rfloor>" "0 \<le> \<lfloor>y + 1 / 2\<rfloor>" using False True by simp_all
    then have "- \<lfloor>- x + 1 / 2\<rfloor> \<le> \<lfloor>y + 1 / 2\<rfloor>" by linarith
    with False True show ?thesis unfolding round_half_up_def by (simp only: if_False if_True not_False_eq_True)
  next
    case no: False
    have "\<lfloor>- y + 1 / 2\<rfloor> \<le> \<lfloor>- x + 1 / 2\<rfloor>" using assms by (intro floor_mono) simp
    with False no show ?thesis by (simp add: round_half_up_def)
  qed
qed

text \<open>Rounding moves a value by half a cent at most.\<close>

lemma round_half_up_near:
  assumes "0 \<le> x"
  shows "x - 1 / 2 \<le> of_int (round_half_up x)" "of_int (round_half_up x) \<le> x + 1 / 2"
proof -
  let ?f = "of_int \<lfloor>x + 1 / 2\<rfloor> :: rat"
  have "?f \<le> x + 1 / 2" "x + 1 / 2 < ?f + 1" by (rule of_int_floor_le, linarith)
  with assms show "x - 1 / 2 \<le> of_int (round_half_up x)" "of_int (round_half_up x) \<le> x + 1 / 2"
    by (simp_all add: round_half_up_def)
qed

lemma monetary_mult_whole: "monetary_mult (of_int k) u = k * u"
  unfolding monetary_mult_def of_int_mult [symmetric] by (rule round_half_up_of_int)

lemma monetary_mult_0 [simp]: "monetary_mult q 0 = 0"
  by (simp add: monetary_mult_def)

lemma monetary_mult_nonneg: "0 \<le> q \<Longrightarrow> 0 \<le> u \<Longrightarrow> 0 \<le> monetary_mult q u"
  by (simp add: monetary_mult_def round_half_up_nonneg)

lemma monetary_mult_mono: "0 \<le> q \<Longrightarrow> u \<le> w \<Longrightarrow> monetary_mult q u \<le> monetary_mult q w"
  unfolding monetary_mult_def by (intro round_half_up_mono mult_left_mono) simp_all

text \<open>One cent more per unit: at least a cent for a whole unit, at most a cent below one.\<close>

lemma monetary_mult_step:
  assumes "0 \<le> u" "0 \<le> q"
  shows "1 \<le> q \<Longrightarrow> monetary_mult q u + 1 \<le> monetary_mult q (u + 1)"
    and "q \<le> 1 \<Longrightarrow> monetary_mult q (u + 1) \<le> monetary_mult q u + 1"
proof -
  let ?x = "q * of_int u"
  have x: "0 \<le> ?x" using assms by simp
  have shift: "round_half_up (?x + 1) = round_half_up ?x + 1"
  proof -
    have "?x + 1 + 1 / 2 = (?x + 1 / 2) + of_int 1" by simp
    then have "\<lfloor>?x + 1 + 1 / 2\<rfloor> = \<lfloor>?x + 1 / 2\<rfloor> + 1" by (simp only: floor_add_int)
    with x show ?thesis unfolding round_half_up_def by (simp only: if_True add_nonneg_nonneg zero_le_one)
  qed
  have eq: "q * of_int (u + 1) = ?x + q" by (simp add: algebra_simps)
  show "1 \<le> q \<Longrightarrow> monetary_mult q u + 1 \<le> monetary_mult q (u + 1)"
    unfolding monetary_mult_def eq shift [symmetric] by (intro round_half_up_mono) simp
  show "q \<le> 1 \<Longrightarrow> monetary_mult q (u + 1) \<le> monetary_mult q u + 1"
    unfolding monetary_mult_def eq shift [symmetric] by (intro round_half_up_mono) simp
qed

end
