(* ===== verification/OrderSession.thy ===== *)
theory OrderSession
  imports OrderDispatch Monetary
begin

text \<open>
  The sessions of \<open>orderman\<close> (\<open>models/session.py\<close>, \<open>services/modify.py\<close>, \<open>services/write.py\<close>,
  \<open>services/resolve.py\<close>): the cart with its lines, the operations that
  edit it, the modifiers and validators the application registers (parameters), the move of
  lines between two sessions, the write-back of a check and the dispatch to a resolver.
  Quantities are decimals as rationals within the columns' three places.
\<close>

section \<open>Sessions and their lines\<close>

record item =
  it_line_id :: string
  it_sku :: string
  it_name :: string
  it_qty :: rat
  it_unit_price_q :: int
  it_line_total_q :: int
  it_meta :: dict

text \<open>A line while operations work on it: a dict whose optional keys may be missing.\<close>

record line =
  ln_id :: string
  ln_sku :: string
  ln_name :: "string option"
  ln_qty :: rat
  ln_price :: "int option"
  ln_total :: "int option"
  ln_meta :: dict

record session =
  ss_id :: nat
  ss_key :: string
  ss_channel :: string
  ss_handle_type :: "string option"
  ss_handle_ref :: "string option"
  ss_state :: string
  ss_pricing_policy :: string
  ss_edit_policy :: string
  ss_rev :: int
  ss_data :: dict
  ss_pricing :: dict
  ss_commit_token :: "string option"
  ss_committed_at :: "int option"

text \<open>An instance in memory with its cache of items.\<close>

record live =
  lv_row :: session
  lv_items :: "item list"

record session_event =
  se_session_key :: string
  se_seq :: int
  se_type :: string
  se_actor :: string
  se_payload :: dict

record idem_key =
  ik_scope :: string
  ik_key :: string
  ik_status :: string
  ik_response :: "(string \<times> string \<times> int \<times> nat) option"
  ik_expires_at :: "int option"

text \<open>\<open>sd_lines\<close> maps the key of a session to its rows of \<open>SessionItem\<close>, by id.\<close>

record sales =
  sd_orders :: order_db
  sd_sessions :: "session list"
  sd_lines :: "nat \<Rightarrow> item list"
  sd_session_events :: "session_event list"
  sd_idem :: "idem_key list"
  sd_directives :: "directive list"

definition session_constraints :: "session \<Rightarrow> session list \<Rightarrow> bool" where
  "session_constraints s others \<longleftrightarrow> (\<forall>x \<in> set others.
      \<not> (ss_channel x = ss_channel s \<and> ss_key x = ss_key s)
      \<and> \<not> (ss_state s = ''open'' \<and> ss_state x = ''open'' \<and> ss_handle_type s \<noteq> None \<and> ss_handle_ref s \<noteq> None
           \<and> ss_channel x = ss_channel s \<and> ss_handle_type x = ss_handle_type s \<and> ss_handle_ref x = ss_handle_ref s))"

definition item_constraints :: "item \<Rightarrow> bool" where
  "item_constraints i \<longleftrightarrow> 0 < it_qty i \<and> 0 \<le> it_unit_price_q i \<and> 0 \<le> it_line_total_q i"

definition line_of_item :: "item \<Rightarrow> line" where
  "line_of_item i = \<lparr>ln_id = it_line_id i, ln_sku = it_sku i, ln_name = Some (it_name i), ln_qty = it_qty i,
     ln_price = Some (it_unit_price_q i), ln_total = Some (it_line_total_q i), ln_meta = it_meta i\<rparr>"

definition normalize_line :: "string \<Rightarrow> line \<Rightarrow> item" where
  "normalize_line fresh l =
     (let price = case_option 0 id (ln_price l) in
      \<lparr>it_line_id = (if ln_id l = [] then fresh else ln_id l), it_sku = ln_sku l,
        it_name = case_option [] id (ln_name l), it_qty = ln_qty l, it_unit_price_q = price,
        it_line_total_q = (case ln_total l of Some t \<Rightarrow> t | None \<Rightarrow> monetary_mult (ln_qty l) price),
        it_meta = ln_meta l\<rparr>)"

text \<open>\<open>_normalize_items\<close>; \<open>gen i\<close> is the \<open>i\<close>-th generated line id.\<close>

fun normalize_items :: "(nat \<Rightarrow> string) \<Rightarrow> nat \<Rightarrow> line list \<Rightarrow> item list" where
  "normalize_items gen k [] = []"
| "normalize_items gen k (l # ls) = normalize_line (gen k) l # normalize_items gen (Suc k) ls"

text \<open>
  \<open>_persist_items\<close>: rows that exist are updated in place, new ones are inserted at the end in
  one statement, rows that are not in the list are deleted.
\<close>

definition persist_items :: "item list \<Rightarrow> item list \<Rightarrow> oerror + item list" where
  "persist_items items rows =
     (let existing = it_line_id ` set rows;
          new = filter (\<lambda>i. it_line_id i \<notin> existing) items;
          updated = foldl (\<lambda>rs i. if it_line_id i \<in> existing then row_put it_line_id i rs else rs) rows items in
      if \<not> list_all item_constraints items \<or> \<not> distinct (map it_line_id new) then Inl IntegrityError
      else Inr (filter (\<lambda>r. it_line_id r \<in> it_line_id ` set items) (updated @ new)))"

section \<open>Personal data\<close>

definition personal_roots :: "string list" where
  "personal_roots =
     [''customer'', ''customer_name'', ''customer_ref'', ''customer_phone'', ''customer_email'',
      ''customer_tax_id'', ''name'', ''phone'', ''email'', ''tax_id'', ''document'', ''receipt_email'',
      ''recipient_name'', ''recipient_phone'', ''delivery_address'', ''delivery_address_structured'',
      ''recipient'', ''gift_message'', ''order_notes'']"

definition is_anonymized :: "session \<Rightarrow> bool" where
  "is_anonymized s \<longleftrightarrow> ss_handle_type s = Some ''anonymized''"

definition accepts_personal_data :: "session \<Rightarrow> string list \<Rightarrow> oerror + unit" where
  "accepts_personal_data s roots =
     (if is_anonymized s \<and> (\<exists>r \<in> set roots. r \<in> set personal_roots)
      then Inl (SessionError ''session_anonymized'') else Inr ())"

definition written_session :: "string list option \<Rightarrow> session \<Rightarrow> session \<Rightarrow> session" where
  "written_session upd new old = \<lparr>
     ss_id = ss_id old,
     ss_key = pick upd ''session_key'' (ss_key new) (ss_key old),
     ss_channel = pick upd ''channel_ref'' (ss_channel new) (ss_channel old),
     ss_handle_type = pick upd ''handle_type'' (ss_handle_type new) (ss_handle_type old),
     ss_handle_ref = pick upd ''handle_ref'' (ss_handle_ref new) (ss_handle_ref old),
     ss_state = pick upd ''state'' (ss_state new) (ss_state old),
     ss_pricing_policy = pick upd ''pricing_policy'' (ss_pricing_policy new) (ss_pricing_policy old),
     ss_edit_policy = pick upd ''edit_policy'' (ss_edit_policy new) (ss_edit_policy old),
     ss_rev = pick upd ''rev'' (ss_rev new) (ss_rev old),
     ss_data = pick upd ''data'' (ss_data new) (ss_data old),
     ss_pricing = pick upd ''pricing'' (ss_pricing new) (ss_pricing old),
     ss_commit_token = pick upd ''commit_token'' (ss_commit_token new) (ss_commit_token old),
     ss_committed_at = pick upd ''committed_at'' (ss_committed_at new) (ss_committed_at old)\<rparr>"

definition wants :: "string list option \<Rightarrow> string \<Rightarrow> bool" where
  "wants upd f \<longleftrightarrow> (case upd of None \<Rightarrow> True | Some fs \<Rightarrow> f \<in> set fs)"

text \<open>\<open>Session.save\<close> of an existing session: the identity check and the write share the row lock.\<close>

definition write_session :: "string list option \<Rightarrow> session \<Rightarrow> session list \<Rightarrow> oerror + session list" where
  "write_session upd s rows =
     (case row_get ss_id (ss_id s) rows of
        None \<Rightarrow> if upd \<noteq> None then Inl DatabaseError
                else if session_constraints s rows then Inr (rows @ [s]) else Inl IntegrityError
      | Some old \<Rightarrow>
          let w = written_session upd s old in
          if session_constraints w (filter (\<lambda>x. ss_id x \<noteq> ss_id w) rows)
          then Inr (row_put ss_id w rows) else Inl IntegrityError)"

definition session_save :: "string list option \<Rightarrow> session \<Rightarrow> session list \<Rightarrow> oerror + session list" where
  "session_save upd s rows =
     (if \<not> (wants upd ''handle_type'' \<or> wants upd ''handle_ref'' \<or> wants upd ''data'') then write_session upd s rows
      else
        let sealed = (case row_get ss_id (ss_id s) rows of Some p \<Rightarrow> is_anonymized p | None \<Rightarrow> False);
            persisted_ref = (case row_get ss_id (ss_id s) rows of Some p \<Rightarrow> ss_handle_ref p | None \<Rightarrow> None) in
        if sealed \<and> wants upd ''handle_type'' \<and> \<not> is_anonymized s
        then Inl (SessionError ''session_anonymized'')
        else if sealed \<and> wants upd ''handle_ref'' \<and> ss_handle_ref s \<noteq> persisted_ref
        then Inl (SessionError ''session_anonymized'')
        else let s' = (if sealed \<and> wants upd ''data'' then s\<lparr>ss_handle_type := Some ''anonymized''\<rparr> else s) in
          ebind (if wants upd ''data'' then accepts_personal_data s' (map fst (ss_data s')) else Inr ())
            (\<lambda>_. write_session upd s' rows))"

definition create_session_row :: "session \<Rightarrow> session list \<Rightarrow> oerror + session list" where
  "create_session_row s rows =
     ebind (accepts_personal_data s (map fst (ss_data s))) (\<lambda>_.
     if session_constraints s rows then Inr (rows @ [s]) else Inl IntegrityError)"

section \<open>The audit log of a session\<close>

definition personal_session_event_keys :: "string list" where
  "personal_session_event_keys =
     [''customer'', ''customer_name'', ''customer_ref'', ''customer_phone'', ''customer_email'',
      ''customer_tax_id'', ''document'', ''receipt_email'', ''recipient_name'', ''recipient_phone'',
      ''delivery_address'', ''delivery_address_structured'', ''recipient'', ''gift_message'',
      ''order_notes'', ''from_ref'', ''to_ref'', ''note'', ''reason'', ''text'', ''message'']"

definition personal_nested_keys :: "(string \<times> string list) list" where
  "personal_nested_keys =
     [(''receipt'', [''email'', ''customer_name'', ''customer_phone'']),
      (''notification_context'', [''customer_name'', ''customer_phone'', ''customer_email'', ''recipient_name'', ''recipient_phone'']),
      (''context'', [''customer_name'', ''customer_phone'', ''customer_email'', ''recipient_name'', ''recipient_phone''])]"

definition personal_payload :: "dict \<Rightarrow> bool" where
  "personal_payload p \<longleftrightarrow> (\<exists>k \<in> fst ` set p. k \<in> set personal_session_event_keys)
     \<or> (\<exists>(c, ks) \<in> set personal_nested_keys.
          case dget p c of Some (JObj d) \<Rightarrow> (\<exists>k \<in> fst ` set d. k \<in> set ks) | _ \<Rightarrow> False)"

text \<open>
  \<open>Session.emit_events\<close>: the acting device \<open>dev\<close> is stamped on every payload, the row of the
  session is locked.
\<close>

definition emit_session_events ::
    "string \<Rightarrow> nat \<Rightarrow> (string \<times> dict) list \<Rightarrow> string \<Rightarrow> sales \<Rightarrow> oerror + sales" where
  "emit_session_events dev sid events actor db =
     (if events = [] then Inr db
      else case row_get ss_id sid (sd_sessions db) of
        None \<Rightarrow> Inl DoesNotExist
      | Some s \<Rightarrow>
          let stamped = map (\<lambda>(t, p). (t, stamp_device dev p)) events in
          if is_anonymized s \<and> (\<exists>(t, p) \<in> set stamped. personal_payload p)
          then Inl (SessionError ''session_anonymized'')
          else ebind (create_sequenced_events [] (\<lambda>e. se_session_key e = ss_key s) se_seq
                 (map (\<lambda>(t, p) k. \<lparr>se_session_key = ss_key s, se_seq = k, se_type = t, se_actor = actor, se_payload = p\<rparr>) stamped)
                 (sd_session_events db))
               (\<lambda>evs. Inr (db\<lparr>sd_session_events := evs\<rparr>)))"

section \<open>Operations on the lines\<close>

text \<open>A key of the operation that is missing, cannot be parsed, or has a value.\<close>

datatype 'a given = Absent | Malformed | Given 'a

datatype session_op =
    Add_line string "rat given" "int given" "string given" string dict
  | Remove_line "string given"
  | Set_qty "string given" "rat given"
  | Replace_sku string "string given" "int given" "dict given"
  | Set_data "string given" "json given"
  | Merge_lines "string given" "string given"
  | Unsupported_op

definition required :: "string \<Rightarrow> 'a given \<Rightarrow> oerror + 'a" where
  "required k v = (case v of Given x \<Rightarrow> Inr x | _ \<Rightarrow> Inl (KeyError k))"

definition parse_positive_qty :: "rat given \<Rightarrow> oerror + rat" where
  "parse_positive_qty v =
     (case v of Given q \<Rightarrow> if q \<le> 0 then Inl (ValidationError ''invalid_qty'') else Inr q
      | _ \<Rightarrow> Inl (ValidationError ''invalid_qty''))"

definition parse_non_negative_price_q :: "int given \<Rightarrow> oerror + int" where
  "parse_non_negative_price_q v =
     (case v of Given p \<Rightarrow> if p < 0 then Inl (ValidationError ''invalid_unit_price_q'') else Inr p
      | _ \<Rightarrow> Inl (ValidationError ''invalid_unit_price_q''))"

definition line_meta_allowed :: "session \<Rightarrow> dict \<Rightarrow> oerror + unit" where
  "line_meta_allowed s meta =
     (if is_anonymized s \<and>
         ((\<exists>k \<in> fst ` set meta. k \<in> {''customer_note'', ''notes''})
          \<or> (case dget meta ''customization'' of
               Some (JObj c) \<Rightarrow> (\<exists>k \<in> fst ` set c. k \<in> {''note'', ''text'', ''message''}) | _ \<Rightarrow> False))
      then Inl (SessionError ''session_anonymized'') else Inr ())"

definition external_needs_price :: "session \<Rightarrow> int given \<Rightarrow> oerror + unit" where
  "external_needs_price s price =
     (if ss_pricing_policy s = ''external'' \<and> price = Absent
      then Inl (ValidationError ''missing_unit_price_q'') else Inr ())"

definition op_add_line ::
    "string \<Rightarrow> session \<Rightarrow> string \<Rightarrow> rat given \<Rightarrow> int given \<Rightarrow> string given \<Rightarrow> string \<Rightarrow> dict \<Rightarrow> line list \<Rightarrow> oerror + line list" where
  "op_add_line fresh s sku qty price lid name meta items =
     (if sku = [] then Inl (ValidationError ''missing_sku'')
      else ebind (line_meta_allowed s meta) (\<lambda>_.
           ebind (parse_positive_qty qty) (\<lambda>q.
           ebind (external_needs_price s price) (\<lambda>_.
           ebind (if price = Absent then Inr None else map_sum id Some (parse_non_negative_price_q price)) (\<lambda>p.
           Inr (items @ [\<lparr>ln_id = (case lid of Given l \<Rightarrow> if l = [] then fresh else l | _ \<Rightarrow> fresh), ln_sku = sku,
                  ln_name = (if strip name = [] then None else Some (strip name)), ln_qty = q, ln_price = p,
                  ln_total = None, ln_meta = meta\<rparr>]))))))"

definition op_remove_line :: "string given \<Rightarrow> line list \<Rightarrow> oerror + line list" where
  "op_remove_line lid items =
     ebind (required ''line_id'' lid) (\<lambda>l.
     if l \<notin> ln_id ` set items then Inl (ValidationError ''unknown_line_id'')
     else Inr (filter (\<lambda>i. ln_id i \<noteq> l) items))"

text \<open>The first line with the id is changed, the loop stops there.\<close>

fun change_first :: "string \<Rightarrow> (line \<Rightarrow> oerror + line) \<Rightarrow> line list \<Rightarrow> oerror + line list" where
  "change_first l f [] = Inl (ValidationError ''unknown_line_id'')"
| "change_first l f (i # items) =
     (if ln_id i = l then map_sum id (\<lambda>i'. i' # items) (f i)
      else map_sum id (\<lambda>items'. i # items') (change_first l f items))"

definition op_set_qty :: "string given \<Rightarrow> rat given \<Rightarrow> line list \<Rightarrow> oerror + line list" where
  "op_set_qty lid qty items =
     ebind (required ''line_id'' lid) (\<lambda>l.
     ebind (parse_positive_qty qty) (\<lambda>q.
     change_first l (\<lambda>i. Inr (i\<lparr>ln_qty := q, ln_total := None\<rparr>)) items))"

definition op_replace_sku ::
    "session \<Rightarrow> string \<Rightarrow> string given \<Rightarrow> int given \<Rightarrow> dict given \<Rightarrow> line list \<Rightarrow> oerror + line list" where
  "op_replace_sku s sku lid price meta items =
     (if sku = [] then Inl (ValidationError ''missing_sku'')
      else ebind (line_meta_allowed s (case meta of Given m \<Rightarrow> m | _ \<Rightarrow> [])) (\<lambda>_.
           ebind (external_needs_price s price) (\<lambda>_.
           ebind (required ''line_id'' lid) (\<lambda>l.
           change_first l (\<lambda>i.
             ebind (if price = Absent then Inr (ln_price i) else map_sum id Some (parse_non_negative_price_q price)) (\<lambda>p.
             Inr (i\<lparr>ln_sku := sku, ln_price := p,
                    ln_meta := (case meta of Given m \<Rightarrow> m | _ \<Rightarrow> ln_meta i)\<rparr>))) items))))"

text \<open>\<open>path.split(".")\<close>.\<close>

fun split_on :: "char \<Rightarrow> string \<Rightarrow> string list" where
  "split_on c [] = [[]]"
| "split_on c (x # xs) =
     (if x = c then [] # split_on c xs
      else case split_on c xs of [] \<Rightarrow> [[x]] | w # ws \<Rightarrow> (x # w) # ws)"

fun set_path :: "string list \<Rightarrow> json \<Rightarrow> dict \<Rightarrow> oerror + dict" where
  "set_path [] v d = Inr d"
| "set_path [k] v d = Inr (dset k v d)"
| "set_path (k # k' # ks) v d =
     (case dget d k of
        None \<Rightarrow> map_sum id (\<lambda>n. dset k (JObj n) d) (set_path (k' # ks) v [])
      | Some JNull \<Rightarrow> map_sum id (\<lambda>n. dset k (JObj n) d) (set_path (k' # ks) v [])
      | Some (JObj c) \<Rightarrow> map_sum id (\<lambda>n. dset k (JObj n) d) (set_path (k' # ks) v c)
      | Some _ \<Rightarrow> Inl (ValidationError ''invalid_data_path''))"

definition path_text :: "string given \<Rightarrow> string" where
  "path_text p = lower (strip (case p of Given s \<Rightarrow> s | _ \<Rightarrow> []))"

definition op_set_data :: "string given \<Rightarrow> json given \<Rightarrow> dict \<Rightarrow> oerror + dict" where
  "op_set_data path v data =
     ebind (required ''path'' path) (\<lambda>_.
     ebind (required ''value'' v) (\<lambda>x.
     let keys = split_on CHR ''.'' (path_text path) in
     if [] \<in> set keys then Inl (ValidationError ''invalid_data_path'') else set_path keys x data))"

text \<open>\<open>merge_lines\<close>: the last lines with the two ids; the merged line keeps its other keys.\<close>

fun change_last :: "string \<Rightarrow> (line \<Rightarrow> line) \<Rightarrow> line list \<Rightarrow> line list" where
  "change_last l f [] = []"
| "change_last l f (i # items) =
     (if ln_id i = l \<and> l \<notin> ln_id ` set items then f i # items else i # change_last l f items)"

definition op_merge_lines :: "string given \<Rightarrow> string given \<Rightarrow> line list \<Rightarrow> oerror + line list" where
  "op_merge_lines from_id into_id items =
     ebind (required ''from_line_id'' from_id) (\<lambda>f.
     ebind (required ''into_line_id'' into_id) (\<lambda>t.
     if f = t then Inl (ValidationError ''invalid_merge'')
     else case (latest (\<lambda>i. ln_id i = f) items, latest (\<lambda>i. ln_id i = t) items) of
       (Some from_line, Some into_line) \<Rightarrow>
         if ln_sku from_line \<noteq> ln_sku into_line then Inl (ValidationError ''sku_mismatch'')
         else if ln_qty into_line \<le> 0 \<or> ln_qty from_line \<le> 0 then Inl (ValidationError ''invalid_qty'')
         else Inr (filter (\<lambda>i. ln_id i \<noteq> f)
                (change_last t (\<lambda>i. i\<lparr>ln_qty := ln_qty into_line + ln_qty from_line\<rparr>) items))
     | _ \<Rightarrow> Inl (ValidationError ''unknown_line_id'')))"

definition apply_op :: "string \<Rightarrow> session \<Rightarrow> session_op \<Rightarrow> line list \<times> dict \<Rightarrow> oerror + line list \<times> dict" where
  "apply_op fresh s op w = (case w of (items, data) \<Rightarrow>
     (case op of
        Add_line sku qty price lid name meta \<Rightarrow>
          map_sum id (\<lambda>is. (is, data)) (op_add_line fresh s sku qty price lid name meta items)
      | Remove_line lid \<Rightarrow> map_sum id (\<lambda>is. (is, data)) (op_remove_line lid items)
      | Set_qty lid qty \<Rightarrow> map_sum id (\<lambda>is. (is, data)) (op_set_qty lid qty items)
      | Replace_sku sku lid price meta \<Rightarrow>
          map_sum id (\<lambda>is. (is, data)) (op_replace_sku s sku lid price meta items)
      | Set_data path v \<Rightarrow>
          ebind (accepts_personal_data s [takeWhile (\<lambda>c. c \<noteq> CHR ''.'') (path_text path)]) (\<lambda>_.
          map_sum id (\<lambda>d. (items, d)) (op_set_data path v data))
      | Merge_lines f t \<Rightarrow> map_sum id (\<lambda>is. (is, data)) (op_merge_lines f t items)
      | Unsupported_op \<Rightarrow> Inl (ValidationError ''unsupported_op'')))"

fun apply_ops :: "(nat \<Rightarrow> string) \<Rightarrow> nat \<Rightarrow> session \<Rightarrow> session_op list \<Rightarrow> line list \<times> dict \<Rightarrow> oerror + line list \<times> dict" where
  "apply_ops gen k s [] w = Inr w"
| "apply_ops gen k s (op # ops) w = ebind (apply_op (gen k) s op w) (apply_ops gen (Suc k) s ops)"

section \<open>What the application registers\<close>

record customer =
  cu_ref :: string
  cu_phone :: string
  cu_active :: bool

text \<open>The customer fence: \<open>fe_lock_by_identity\<close> may raise \<open>CustomerIdentityConflict\<close> with a code.\<close>

record fence =
  fe_lock_by_ref :: "string \<Rightarrow> customer option"
  fe_is_active_owner :: "customer \<Rightarrow> string \<Rightarrow> bool"
  fe_lock_by_identity :: "string \<Rightarrow> string \<Rightarrow> string + customer option"
  fe_owns_phone :: "customer \<Rightarrow> string \<Rightarrow> bool"

type_synonym modifier = "string \<Rightarrow> dict \<Rightarrow> live \<Rightarrow> oerror + live"

type_synonym validator = "string \<Rightarrow> dict \<Rightarrow> live \<Rightarrow> oerror + unit"

record session_env =
  en_fence :: "fence option"
  en_modifiers :: "(string \<times> modifier) list"
  en_draft_validators :: "(string \<times> validator) list"
  en_commit_validators :: "(string \<times> validator) list"
  en_check_topic :: "string \<Rightarrow> string option"
  en_normalize_phone :: "string \<Rightarrow> string"
  en_decimal_text :: "rat \<Rightarrow> string"

text \<open>\<open>channel_config["rules"]\<close>; \<open>None\<close> is a key that is not there.\<close>

record channel_rules =
  ru_modifiers :: "string list option"
  ru_validators :: "string list option"
  ru_checks :: "string list"

definition item_json :: "session_env \<Rightarrow> item \<Rightarrow> json" where
  "item_json env i = JObj [(''line_id'', JStr (it_line_id i)), (''sku'', JStr (it_sku i)), (''name'', JStr (it_name i)),
     (''qty'', JStr (en_decimal_text env (it_qty i))), (''unit_price_q'', JNum (it_unit_price_q i)),
     (''line_total_q'', JNum (it_line_total_q i)), (''meta'', JObj (it_meta i))]"

definition next_pk :: "('r \<Rightarrow> nat) \<Rightarrow> 'r list \<Rightarrow> nat" where
  "next_pk key rows = Suc (fold max (map key rows) 0)"

section \<open>Modifying a session\<close>

definition json_text :: "json \<Rightarrow> string" where
  "json_text v = (case v of JStr s \<Rightarrow> strip s | _ \<Rightarrow> [])"

text \<open>The customer a \<open>set_data\<close> operation names; a reference that is no string is left out.\<close>

definition op_customer_ref :: "session_op \<Rightarrow> string" where
  "op_customer_ref op =
     (case op of
        Set_data path v \<Rightarrow>
          let p = path_text path; x = (case v of Given j \<Rightarrow> j | _ \<Rightarrow> JNull) in
          if p = ''customer_ref'' \<or> p = ''customer.ref'' then json_text x
          else if p = ''customer'' then (case x of JObj d \<Rightarrow> (case dget d ''ref'' of Some r \<Rightarrow> json_text r | None \<Rightarrow> []) | _ \<Rightarrow> [])
          else []
      | _ \<Rightarrow> [])"

definition customer_ref_from_ops :: "session_op list \<Rightarrow> oerror + string" where
  "customer_ref_from_ops ops =
     (case remdups (filter (\<lambda>r. r \<noteq> []) (map op_customer_ref ops)) of
        [] \<Rightarrow> Inr [] | [r] \<Rightarrow> Inr r | _ \<Rightarrow> Inl (ValidationError ''customer_identity_ambiguous''))"

definition session_by_key :: "string \<Rightarrow> string \<Rightarrow> sales \<Rightarrow> session option" where
  "session_by_key skey ch db = find (\<lambda>s. ss_key s = skey \<and> ss_channel s = ch) (sd_sessions db)"

text \<open>The locked titular of the identity an operation writes, refused when it is not active.\<close>

definition lock_customer_of_ops :: "session_env \<Rightarrow> string \<Rightarrow> oerror + customer option" where
  "lock_customer_of_ops env cref =
     (case en_fence env of
        None \<Rightarrow> Inr None
      | Some f \<Rightarrow>
          if cref = [] then Inr None
          else (case fe_lock_by_ref f cref of
                  None \<Rightarrow> Inr None
                | Some c \<Rightarrow> if cu_active c then Inr (Some c) else Inl (SessionError ''customer_inactive'')))"

definition still_active_owner :: "session_env \<Rightarrow> customer option \<Rightarrow> string \<Rightarrow> oerror + unit" where
  "still_active_owner env locked cref =
     (case (locked, en_fence env) of
        (Some c, Some f) \<Rightarrow> if fe_is_active_owner f c cref then Inr () else Inl (SessionError ''customer_inactive'')
      | _ \<Rightarrow> Inr ())"

definition editable :: "session \<Rightarrow> oerror + unit" where
  "editable s =
     (if ss_state s = ''committed'' then Inl (SessionError ''already_committed'')
      else if ss_state s = ''abandoned'' then Inl (SessionError ''already_abandoned'')
      else if ss_edit_policy s = ''locked'' then Inl (SessionError ''locked'')
      else Inr ())"

definition is_infra :: "string \<Rightarrow> bool" where
  "is_infra code \<longleftrightarrow> take 8 code = ''pricing.''"

definition selected :: "string list option \<Rightarrow> string \<Rightarrow> bool" where
  "selected allowed code \<longleftrightarrow> (case allowed of None \<Rightarrow> True | Some cs \<Rightarrow> code \<in> set cs)"

fun run_modifiers :: "string list option \<Rightarrow> string \<Rightarrow> dict \<Rightarrow> (string \<times> modifier) list \<Rightarrow> live \<Rightarrow> oerror + live" where
  "run_modifiers allowed ch ctx [] v = Inr v"
| "run_modifiers allowed ch ctx ((code, f) # ms) v =
     ebind (if is_infra code \<or> selected allowed code then f ch ctx v else Inr v)
       (run_modifiers allowed ch ctx ms)"

fun run_validators :: "string list option \<Rightarrow> string \<Rightarrow> dict \<Rightarrow> (string \<times> validator) list \<Rightarrow> live \<Rightarrow> oerror + unit" where
  "run_validators allowed ch ctx [] v = Inr ()"
| "run_validators allowed ch ctx ((code, f) # vs) v =
     ebind (if selected allowed code then f ch ctx v else Inr ()) (\<lambda>_. run_validators allowed ch ctx vs v)"

text \<open>The directives of the active checks, one per registered code.\<close>

fun enqueue_checks ::
    "session_env \<Rightarrow> int \<Rightarrow> live \<Rightarrow> string list \<Rightarrow> directive list \<Rightarrow> oerror + directive list" where
  "enqueue_checks env now v [] rows = Inr rows"
| "enqueue_checks env now v (code # codes) rows =
     (case en_check_topic env code of
        None \<Rightarrow> enqueue_checks env now v codes rows
      | Some topic \<Rightarrow>
          ebind (create_directive (queued_directive (next_pk di_id rows) topic
                   [(''session_key'', JStr (ss_key (lv_row v))), (''channel_ref'', JStr (ss_channel (lv_row v))),
                    (''rev'', JNum (ss_rev (lv_row v))), (''items'', JList (map (item_json env) (lv_items v)))] now) rows)
            (enqueue_checks env now v codes))"

definition cleared :: "dict \<Rightarrow> dict" where
  "cleared data = dset ''issues'' (JList []) (dset ''checks'' (JObj []) data)"

definition modify_session ::
    "session_env \<Rightarrow> channel_rules \<Rightarrow> dict \<Rightarrow> int \<Rightarrow> (nat \<Rightarrow> string) \<Rightarrow> string \<Rightarrow> string \<Rightarrow> session_op list \<Rightarrow>
       int option \<Rightarrow> sales \<Rightarrow> oerror + (live \<times> sales)" where
  "modify_session env rules ctx now gen skey ch ops expected db =
     ebind (customer_ref_from_ops ops) (\<lambda>cref.
     ebind (lock_customer_of_ops env cref) (\<lambda>locked.
     case session_by_key skey ch db of
       None \<Rightarrow> Inl (SessionError ''not_found'')
     | Some s \<Rightarrow>
         if (case expected of Some e \<Rightarrow> ss_rev s \<noteq> e | None \<Rightarrow> False)
         then Inl (ValidationError ''revision_changed'')
         else
         ebind (still_active_owner env locked cref) (\<lambda>_.
         ebind (editable s) (\<lambda>_.
         ebind (apply_ops gen 0 s ops (map line_of_item (sd_lines db (ss_id s)), ss_data s)) (\<lambda>(items, data).
         let v0 = \<lparr>lv_row = s\<lparr>ss_data := data\<rparr>, lv_items = normalize_items gen (length ops) items\<rparr> in
         ebind (run_modifiers (ru_modifiers rules) ch ctx (en_modifiers env) v0) (\<lambda>v1.
         ebind (run_validators (ru_validators rules) ch ctx (en_draft_validators env) v1) (\<lambda>_.
         ebind (persist_items (lv_items v1) (sd_lines db (ss_id s))) (\<lambda>lines.
         let r = (lv_row v1)\<lparr>ss_rev := ss_rev (lv_row v1) + 1, ss_data := cleared (ss_data (lv_row v1))\<rparr>;
             v2 = v1\<lparr>lv_row := r\<rparr> in
         ebind (session_save None r (sd_sessions db)) (\<lambda>rows.
         ebind (enqueue_checks env now v2 (ru_checks rules) (sd_directives db)) (\<lambda>dirs.
         Inr (v2, db\<lparr>sd_sessions := rows, sd_lines := (sd_lines db)(ss_id s := lines),
                     sd_directives := dirs\<rparr>)))))))))))"

section \<open>Moving lines between sessions\<close>

definition structural_total :: "item list \<Rightarrow> dict \<Rightarrow> dict" where
  "structural_total items pricing =
     dset ''items_count'' (JNum (int (length items)))
       (dset ''total_q'' (JNum (sum_list (map it_line_total_q items))) pricing)"

definition movable :: "session option \<Rightarrow> oerror + session" where
  "movable so = (case so of
       None \<Rightarrow> Inl (SessionError ''not_found'')
     | Some s \<Rightarrow> if ss_state s \<noteq> ''open'' then Inl (SessionError ''not_open'')
                 else if ss_edit_policy s = ''locked'' then Inl (SessionError ''locked'')
                 else Inr s)"

definition update_items :: "(nat \<Rightarrow> string) \<Rightarrow> line list \<Rightarrow> item list \<Rightarrow> oerror + (item list \<times> item list)" where
  "update_items gen items rows =
     (let normalized = normalize_items gen 0 items in
      map_sum id (\<lambda>rows'. (normalized, rows')) (persist_items normalized rows))"

definition moved_line :: "string \<Rightarrow> item \<Rightarrow> line" where
  "moved_line fresh src = (line_of_item src)\<lparr>ln_id := fresh\<rparr>"

definition move_lines ::
    "(nat \<Rightarrow> string) \<Rightarrow> string \<Rightarrow> string \<Rightarrow> string \<Rightarrow> string list \<Rightarrow> sales \<Rightarrow> oerror + sales" where
  "move_lines gen from_key to_key ch line_ids db =
     (if from_key = to_key then Inl (ValidationError ''same_session'')
      else if line_ids = [] then Inl (ValidationError ''no_line_ids'')
      else
      ebind (movable (session_by_key from_key ch db)) (\<lambda>source.
      ebind (movable (session_by_key to_key ch db)) (\<lambda>target.
      let source_items = sd_lines db (ss_id source) in
      if \<not> set line_ids \<subseteq> it_line_id ` set source_items then Inl (ValidationError ''unknown_line_id'')
      else
      let moved = map (\<lambda>(k, l). moved_line (gen k) (the (row_get it_line_id l source_items)))
                    (zip [0..<length line_ids] line_ids);
          kept = filter (\<lambda>i. it_line_id i \<notin> set line_ids) source_items in
      ebind (update_items gen (map line_of_item kept) source_items) (\<lambda>(source_now, source_lines).
      ebind (update_items gen (map line_of_item (sd_lines db (ss_id target)) @ moved) (sd_lines db (ss_id target)))
        (\<lambda>(target_now, target_lines).
      let source' = source\<lparr>ss_rev := ss_rev source + 1, ss_pricing := structural_total source_now (ss_pricing source)\<rparr>;
          target' = target\<lparr>ss_rev := ss_rev target + 1, ss_pricing := structural_total target_now (ss_pricing target)\<rparr> in
      ebind (session_save None source' (sd_sessions db)) (\<lambda>rows1.
      ebind (session_save None target' rows1) (\<lambda>rows2.
      Inr (db\<lparr>sd_sessions := rows2,
              sd_lines := (sd_lines db)(ss_id source := source_lines, ss_id target := target_lines)\<rparr>))))))))"

section \<open>Checks and issues\<close>

definition as_object :: "json option \<Rightarrow> oerror + dict" where
  "as_object v = (case v of None \<Rightarrow> Inr [] | Some (JObj d) \<Rightarrow> Inr d | Some _ \<Rightarrow> Inl TypeError)"

definition as_array :: "json option \<Rightarrow> oerror + json list" where
  "as_array v = (case v of None \<Rightarrow> Inr [] | Some (JList xs) \<Rightarrow> Inr xs | Some _ \<Rightarrow> Inl TypeError)"

text \<open>\<open>i.get(key)\<close> of an issue; an issue is an object.\<close>

definition jget :: "string \<Rightarrow> json \<Rightarrow> json option" where
  "jget k i = (case i of JObj d \<Rightarrow> dget d k | _ \<Rightarrow> None)"

definition apply_check_result ::
    "string \<Rightarrow> string \<Rightarrow> string \<Rightarrow> int \<Rightarrow> string \<Rightarrow> dict \<Rightarrow> json list \<Rightarrow> sales \<Rightarrow> oerror + (bool \<times> sales)" where
  "apply_check_result now_iso skey ch expected_rev code payload issues db =
     (case session_by_key skey ch db of
        None \<Rightarrow> Inr (False, db)
      | Some s \<Rightarrow>
          if ss_rev s \<noteq> expected_rev \<or> ss_state s \<noteq> ''open'' then Inr (False, db)
          else
          ebind (as_object (dget (ss_data s) ''checks'')) (\<lambda>checks.
          ebind (as_array (dget (ss_data s) ''issues'')) (\<lambda>old.
          let checks' = dset code (JObj [(''rev'', JNum (ss_rev s)), (''at'', JStr now_iso), (''result'', JObj payload)]) checks;
              issues' = filter (\<lambda>i. jget ''source'' i \<noteq> Some (JStr code)) old @ issues;
              s' = s\<lparr>ss_data := dset ''issues'' (JList issues') (dset ''checks'' (JObj checks') (ss_data s))\<rparr> in
          ebind (session_save None s' (sd_sessions db)) (\<lambda>rows. Inr (True, db\<lparr>sd_sessions := rows\<rparr>)))))"

text \<open>\<open>ResolveService.resolve\<close>: every other exception of the resolver becomes \<open>resolver_error\<close>.\<close>

definition resolve_issue ::
    "(json option \<Rightarrow> (session \<Rightarrow> json \<Rightarrow> string \<Rightarrow> sales \<Rightarrow> oerror + (session \<times> sales)) option) \<Rightarrow>
       string \<Rightarrow> string \<Rightarrow> string \<Rightarrow> string \<Rightarrow> sales \<Rightarrow> oerror + (session \<times> sales)" where
  "resolve_issue resolvers skey ch issue_id action_id db =
     (case session_by_key skey ch db of
        None \<Rightarrow> Inl (IssueResolveError ''session_not_found'')
      | Some s \<Rightarrow>
          ebind (as_array (dget (ss_data s) ''issues'')) (\<lambda>issues.
          case find (\<lambda>i. jget ''id'' i = Some (JStr issue_id)) issues of
            None \<Rightarrow> Inl (IssueResolveError ''issue_not_found'')
          | Some issue \<Rightarrow>
              (case resolvers (jget ''source'' issue) of
                 None \<Rightarrow> Inl (IssueResolveError ''no_resolver'')
               | Some resolver \<Rightarrow>
                   (case resolver s issue action_id db of
                      Inr x \<Rightarrow> Inr x
                    | Inl (IssueResolveError c) \<Rightarrow> Inl (IssueResolveError c)
                    | Inl (SessionError c) \<Rightarrow> Inl (IssueResolveError c)
                    | Inl (ValidationError c) \<Rightarrow> Inl (IssueResolveError c)
                    | Inl _ \<Rightarrow> Inl (IssueResolveError ''resolver_error'')))))"

end
