(* ===== verification/OrderSessionLaws.thy ===== *)
theory OrderSessionLaws
  imports OrderSession
begin

text \<open>
  Laws of the sessions: what a full save writes, what persisting a list of lines leaves in the
  table, normalization, and the shape of a successful modification and of a successful move.
\<close>

section \<open>Keys of sessions\<close>

definition sessions_ok :: "session list \<Rightarrow> bool" where
  "sessions_ok rows \<longleftrightarrow> distinct (map ss_id rows) \<and> distinct (map (\<lambda>s. (ss_channel s, ss_key s)) rows)"

lemma session_by_key_Some:
  "session_by_key skey ch db = Some s \<Longrightarrow> s \<in> set (sd_sessions db) \<and> ss_key s = skey \<and> ss_channel s = ch"
  by (auto simp: session_by_key_def find_Some_iff)

lemma session_by_key_iff:
  assumes "sessions_ok (sd_sessions db)"
  shows "session_by_key skey ch db = Some s \<longleftrightarrow> s \<in> set (sd_sessions db) \<and> ss_key s = skey \<and> ss_channel s = ch"
proof
  assume s: "s \<in> set (sd_sessions db) \<and> ss_key s = skey \<and> ss_channel s = ch"
  then obtain t where t: "session_by_key skey ch db = Some t"
    by (cases "session_by_key skey ch db") (auto simp: session_by_key_def find_None_iff)
  with session_by_key_Some [OF t] s assms have "t = s"
    by (auto simp: sessions_ok_def distinct_map inj_on_def)
  with t show "session_by_key skey ch db = Some s" by simp
qed (rule session_by_key_Some)

lemma session_get:
  "sessions_ok (sd_sessions db) \<Longrightarrow> session_by_key skey ch db = Some s \<Longrightarrow>
     row_get ss_id (ss_id s) (sd_sessions db) = Some s"
  by (auto simp: sessions_ok_def row_get_Some_iff dest: session_by_key_Some)

lemma same_session:
  "sessions_ok rows \<Longrightarrow> x \<in> set rows \<Longrightarrow> y \<in> set rows \<Longrightarrow> ss_id x = ss_id y \<Longrightarrow> x = y"
  by (auto simp: sessions_ok_def distinct_map inj_on_def)

section \<open>Saving a session\<close>

lemma written_session_full [simp]: "ss_id old = ss_id s \<Longrightarrow> written_session None s old = s"
  by (simp add: written_session_def pick_def)

lemma session_save_full:
  assumes "session_save None s rows = Inr rows'" "row_get ss_id (ss_id s) rows = Some old"
  shows "rows' = row_put ss_id s rows \<and> session_constraints s (filter (\<lambda>x. ss_id x \<noteq> ss_id s) rows)
    \<and> (is_anonymized old \<longrightarrow> is_anonymized s \<and> ss_handle_ref s = ss_handle_ref old)
    \<and> (is_anonymized s \<longrightarrow> (\<forall>k \<in> fst ` set (ss_data s). k \<notin> set personal_roots))"
proof -
  have id: "ss_id old = ss_id s" using row_get_SomeD [OF assms(2)] by auto
  let ?sealed = "is_anonymized old"
  let ?s = "if ?sealed then s\<lparr>ss_handle_type := Some ''anonymized''\<rparr> else s"
  from assms have c: "\<not> (?sealed \<and> \<not> is_anonymized s)" "\<not> (?sealed \<and> ss_handle_ref s \<noteq> ss_handle_ref old)"
    and w: "ebind (accepts_personal_data ?s (map fst (ss_data ?s))) (\<lambda>_. write_session None ?s rows) = Inr rows'"
    by (auto simp: session_save_def wants_def Let_def split: if_splits)
  from c(1) have s: "?s = s" by (auto simp: is_anonymized_def)
  from w s obtain u where a: "accepts_personal_data s (map fst (ss_data s)) = Inr u" and ws: "write_session None s rows = Inr rows'"
    by (auto simp: ebind_Inr)
  from ws assms(2) id have "rows' = row_put ss_id s rows"
    "session_constraints s (filter (\<lambda>x. ss_id x \<noteq> ss_id s) rows)"
    by (auto simp: write_session_def Let_def split: if_splits)
  with c a show ?thesis by (auto simp: accepts_personal_data_def split: if_splits)
qed

lemma sessions_ok_put:
  assumes "sessions_ok rows" "row_get ss_id (ss_id s) rows = Some old" "ss_key s = ss_key old" "ss_channel s = ss_channel old"
  shows "sessions_ok (row_put ss_id s rows)"
proof -
  have "distinct (map ss_id rows)" using assms(1) by (simp add: sessions_ok_def)
  from row_put_split [OF this assms(2) refl] obtain as bs where
    "rows = as @ old # bs" "row_put ss_id s rows = as @ s # bs" by blast
  moreover have "ss_id old = ss_id s" using row_get_SomeD [OF assms(2)] by simp
  ultimately show ?thesis using assms(1,3,4) by (auto simp: sessions_ok_def)
qed

section \<open>Lines\<close>

lemma normalize_items_same:
  "list_all (\<lambda>i. it_line_id i \<noteq> []) items \<Longrightarrow> normalize_items gen k (map line_of_item items) = items"
  by (induction items arbitrary: k) (auto simp: normalize_line_def line_of_item_def)

lemma normalize_items_append:
  "normalize_items gen k (xs @ ys) = normalize_items gen k xs @ normalize_items gen (k + length xs) ys"
  by (induction xs arbitrary: k) auto

lemma persist_updates_same:
  "distinct (map it_line_id rows) \<Longrightarrow>
   \<forall>i \<in> set items. it_line_id i \<in> existing \<longrightarrow> i \<in> set rows \<Longrightarrow>
     foldl (\<lambda>rs i. if it_line_id i \<in> existing then row_put it_line_id i rs else rs) rows items = rows"
  by (induction items) (auto simp: row_put_same)

text \<open>Unchanged rows and new ones: the table keeps exactly the list.\<close>

lemma persist_keep:
  assumes "distinct (map it_line_id rows)" "\<forall>i \<in> set new. it_line_id i \<notin> it_line_id ` set rows"
    and "persist_items (filter P rows @ new) rows = Inr rows'"
  shows "rows' = filter P rows @ new"
proof -
  let ?items = "filter P rows @ new"
  have upd: "foldl (\<lambda>rs i. if it_line_id i \<in> it_line_id ` set rows then row_put it_line_id i rs else rs) rows ?items = rows"
    using assms(2) by (intro persist_updates_same [OF assms(1)]) auto
  have new: "filter (\<lambda>i. it_line_id i \<notin> it_line_id ` set rows) ?items = new"
    using assms(2) by (auto simp: filter_id_conv filter_empty_conv)
  have "filter (\<lambda>r. it_line_id r \<in> it_line_id ` set ?items) rows = filter P rows"
  proof (rule filter_cong [OF refl])
    fix r assume r: "r \<in> set rows"
    have inj: "x = r" if "x \<in> set rows" "it_line_id x = it_line_id r" for x
      using that r assms(1) by (metis distinct_map inj_onD)
    have other: "it_line_id x \<noteq> it_line_id r" if "x \<in> set new" for x
      using that r assms(2) by (metis imageI)
    show "it_line_id r \<in> it_line_id ` set ?items \<longleftrightarrow> P r"
    proof
      assume "it_line_id r \<in> it_line_id ` set ?items"
      then obtain x where x: "x \<in> set ?items" "it_line_id x = it_line_id r" by (metis image_iff)
      with other have "x \<in> set (filter P rows)" by auto
      with inj x(2) show "P r" by auto
    next
      assume "P r"
      with r have "r \<in> set ?items" by simp
      then show "it_line_id r \<in> it_line_id ` set ?items" by (rule imageI)
    qed
  qed
  moreover have "filter (\<lambda>r. it_line_id r \<in> it_line_id ` set ?items) new = new"
    by (auto simp: filter_id_conv)
  moreover have "rows' = filter (\<lambda>r. it_line_id r \<in> it_line_id ` set ?items) (rows @ new)"
    using assms(3) unfolding persist_items_def Let_def upd new by (simp only: if_Inl_Inr sum.inject)
  ultimately show ?thesis by (simp only: filter_append)
qed

lemma row_get_image: "l \<in> key ` set rows \<Longrightarrow> \<exists>r. row_get key l rs = Some r \<or> row_get key l rs = None"
  by (cases "row_get key l rs") auto

text \<open>The rows with distinct keys of a list, looked up one by one.\<close>

lemma sum_looked_up:
  assumes "distinct (map key rows)" "distinct ls" "set ls \<subseteq> key ` set rows"
  shows "sum_list (map (\<lambda>l. f (the (row_get key l rows))) ls) = (\<Sum>r \<in> {r \<in> set rows. key r \<in> set ls}. f r :: int)"
proof -
  have get: "row_get key (key r) rows = Some r" if "r \<in> set rows" for r
    using that assms(1) by (simp add: row_get_Some_iff)
  let ?R = "{r \<in> set rows. key r \<in> set ls}"
  have "sum_list (map (\<lambda>l. f (the (row_get key l rows))) ls) = (\<Sum>l \<in> set ls. f (the (row_get key l rows)))"
    using assms(2) by (simp add: sum_list_distinct_conv_sum_set)
  also have "set ls = key ` ?R" using assms(3) by blast
  also have "(\<Sum>l \<in> key ` ?R. f (the (row_get key l rows))) = (\<Sum>r \<in> ?R. f (the (row_get key (key r) rows)))"
    using assms(1) by (intro sum.reindex [unfolded comp_def]) (auto simp: distinct_map inj_on_def)
  also have "\<dots> = (\<Sum>r \<in> ?R. f r)" by (intro sum.cong) (auto simp: get)
  finally show ?thesis .
qed

lemma sum_kept_and_taken:
  assumes "distinct (map key rows)" "distinct ls" "set ls \<subseteq> key ` set rows"
  shows "sum_list (map f (filter (\<lambda>r. key r \<notin> set ls) rows))
      + sum_list (map (\<lambda>l. f (the (row_get key l rows))) ls) = (sum_list (map f rows) :: int)"
proof -
  have d: "distinct rows" using assms(1) by (simp add: distinct_map)
  then have "sum_list (map f (filter (\<lambda>r. key r \<notin> set ls) rows)) = (\<Sum>r \<in> {r \<in> set rows. key r \<notin> set ls}. f r)"
    by (simp add: sum_list_distinct_conv_sum_set)
  moreover have "(\<Sum>r \<in> {r \<in> set rows. key r \<notin> set ls}. f r) + (\<Sum>r \<in> {r \<in> set rows. key r \<in> set ls}. f r)
      = (\<Sum>r \<in> set rows. f r)"
    by (subst sum.union_disjoint [symmetric]) (auto intro: sum.cong)
  ultimately show ?thesis
    using sum_looked_up [OF assms, of f] d by (simp add: sum_list_distinct_conv_sum_set)
qed

end
