(* ===== verification/OrderSessionProps.thy ===== *)
theory OrderSessionProps
  imports OrderSessionLaws
begin

text \<open>
  Properties of the sessions: a move of lines conserves their value, a modification clears the
  checks and raises the revision, an anonymized session never recovers its identity; and two
  runs the code accepts where the value of the lines changes: a line named twice in a move, and
  a merge that keeps the old total.
\<close>

section \<open>Moving lines\<close>

definition lines_ok :: "item list \<Rightarrow> bool" where
  "lines_ok rows \<longleftrightarrow> distinct (map it_line_id rows) \<and> list_all (\<lambda>i. it_line_id i \<noteq> []) rows"

text \<open>The first \<open>n\<close> generated line ids are new: not blank, distinct, none of the given ones.\<close>

definition fresh_line_ids :: "(nat \<Rightarrow> string) \<Rightarrow> nat \<Rightarrow> item list \<Rightarrow> bool" where
  "fresh_line_ids gen n rows \<longleftrightarrow> distinct (map gen [0..<n])
     \<and> list_all (\<lambda>k. gen k \<noteq> [] \<and> gen k \<notin> it_line_id ` set rows) [0..<n]"

definition lines_total :: "item list \<Rightarrow> int" where
  "lines_total rows = sum_list (map it_line_total_q rows)"

text \<open>The rows a move creates in the target.\<close>

definition moved_rows :: "(nat \<Rightarrow> string) \<Rightarrow> item list \<Rightarrow> string list \<Rightarrow> item list" where
  "moved_rows gen rows ls =
     map (\<lambda>(k, l). (the (row_get it_line_id l rows))\<lparr>it_line_id := gen k\<rparr>) (zip [0..<length ls] ls)"

lemma normalize_moved:
  assumes "list_all (\<lambda>k. gen k \<noteq> []) [0..<length ls]"
  shows "normalize_items g j (map (\<lambda>(k, l). moved_line (gen k) (the (row_get it_line_id l rows))) (zip [0..<length ls] ls))
    = moved_rows gen rows ls"
proof -
  have "normalize_items g j (map (\<lambda>(k, l). moved_line (gen k) (the (row_get it_line_id l rows))) ps)
      = map (\<lambda>(k, l). (the (row_get it_line_id l rows))\<lparr>it_line_id := gen k\<rparr>) ps"
    if "\<forall>(k, l) \<in> set ps. gen k \<noteq> []" for ps
    using that
    by (induction ps arbitrary: j) (auto simp: moved_line_def line_of_item_def normalize_line_def)
  moreover have "\<forall>(k, l) \<in> set (zip [0..<length ls] ls). gen k \<noteq> []"
    using assms by (auto simp: list_all_iff dest: set_zip_leftD)
  ultimately show ?thesis by (simp add: moved_rows_def)
qed

lemma map_zip_fst: "length xs = length ys \<Longrightarrow> map (\<lambda>p. g (fst p)) (zip xs ys) = map g xs"
  by (induction xs ys rule: list_induct2) auto

lemma map_zip_snd: "length xs = length ys \<Longrightarrow> map (\<lambda>p. g (snd p)) (zip xs ys) = map g ys"
  by (induction xs ys rule: list_induct2) auto

lemma moved_rows_ids: "map it_line_id (moved_rows gen rows ls) = map gen [0..<length ls]"
  by (simp add: moved_rows_def case_prod_unfold comp_def map_zip_fst del: upt_Suc)

lemma moved_rows_total:
  "lines_total (moved_rows gen rows ls) = sum_list (map (\<lambda>l. it_line_total_q (the (row_get it_line_id l rows))) ls)"
  using map_zip_snd [of "[0..<length ls]" ls "\<lambda>l. it_line_total_q (the (row_get it_line_id l rows))"]
  by (simp add: lines_total_def moved_rows_def case_prod_unfold comp_def)

lemma move_lines_Inr:
  assumes "move_lines gen from_key to_key ch ids db = Inr db'"
    and "session_by_key from_key ch db = Some src" "session_by_key to_key ch db = Some tgt"
  obtains a b sn tn rows1 rows2 where
    "from_key \<noteq> to_key" "set ids \<subseteq> it_line_id ` set (sd_lines db (ss_id src))"
    "update_items gen (map line_of_item (filter (\<lambda>i. it_line_id i \<notin> set ids) (sd_lines db (ss_id src))))
       (sd_lines db (ss_id src)) = Inr (sn, a)"
    "update_items gen (map line_of_item (sd_lines db (ss_id tgt))
        @ map (\<lambda>(k, l). moved_line (gen k) (the (row_get it_line_id l (sd_lines db (ss_id src))))) (zip [0..<length ids] ids))
       (sd_lines db (ss_id tgt)) = Inr (tn, b)"
    "session_save None (src\<lparr>ss_rev := ss_rev src + 1, ss_pricing := structural_total sn (ss_pricing src)\<rparr>) (sd_sessions db) = Inr rows1"
    "session_save None (tgt\<lparr>ss_rev := ss_rev tgt + 1, ss_pricing := structural_total tn (ss_pricing tgt)\<rparr>) rows1 = Inr rows2"
    "db' = db\<lparr>sd_sessions := rows2, sd_lines := (sd_lines db)(ss_id src := a, ss_id tgt := b)\<rparr>"
    "ss_state src = ''open''" "ss_state tgt = ''open''"
  using assms
  by (auto simp: move_lines_def movable_def ebind_Inr Let_def split: if_splits)

lemma update_items_Inr:
  assumes "update_items gen ls rows = Inr (now_items, rows')" "normalize_items gen 0 ls = filter P rows @ new"
    and "distinct (map it_line_id rows)" "\<forall>i \<in> set new. it_line_id i \<notin> it_line_id ` set rows"
  shows "now_items = filter P rows @ new \<and> rows' = filter P rows @ new"
  using assms(1,2) persist_keep [OF assms(3,4), of P]
  by (auto simp: update_items_def Let_def map_sum_def split: sum.splits)

text \<open>C35: Moving distinct lines of one open session to another keeps the others where they are and
  appends the moved ones to the target with new ids and the same product, quantity, price, total
  and data; the value of the two sessions together does not change, the structural total of each
  session is the sum of its lines, and each revision goes up by one.\<close>

theorem move_conserves:
  assumes ok: "sessions_ok (sd_sessions db)"
    and src: "session_by_key from_key ch db = Some src" and tgt: "session_by_key to_key ch db = Some tgt"
    and lines: "lines_ok (sd_lines db (ss_id src))" "lines_ok (sd_lines db (ss_id tgt))"
    and ids: "distinct ids" "fresh_line_ids gen (length ids) (sd_lines db (ss_id tgt))"
    and run: "move_lines gen from_key to_key ch ids db = Inr db'"
  shows "sd_lines db' (ss_id src) = filter (\<lambda>i. it_line_id i \<notin> set ids) (sd_lines db (ss_id src))
    \<and> sd_lines db' (ss_id tgt) = sd_lines db (ss_id tgt) @ moved_rows gen (sd_lines db (ss_id src)) ids
    \<and> lines_total (sd_lines db' (ss_id src)) + lines_total (sd_lines db' (ss_id tgt))
        = lines_total (sd_lines db (ss_id src)) + lines_total (sd_lines db (ss_id tgt))
    \<and> (\<exists>src' tgt'. session_by_key from_key ch db' = Some src' \<and> session_by_key to_key ch db' = Some tgt'
         \<and> dget (ss_pricing src') ''total_q'' = Some (JNum (lines_total (sd_lines db' (ss_id src))))
         \<and> dget (ss_pricing tgt') ''total_q'' = Some (JNum (lines_total (sd_lines db' (ss_id tgt))))
         \<and> ss_rev src' = ss_rev src + 1 \<and> ss_rev tgt' = ss_rev tgt + 1)"
proof -
  let ?S = "sd_lines db (ss_id src)" and ?T = "sd_lines db (ss_id tgt)"
  let ?kept = "filter (\<lambda>i. it_line_id i \<notin> set ids) ?S" and ?moved = "moved_rows gen ?S ids"
  obtain a b sn tn rows1 rows2 where r: "from_key \<noteq> to_key" "set ids \<subseteq> it_line_id ` set ?S"
    and ua: "update_items gen (map line_of_item ?kept) ?S = Inr (sn, a)"
    and ub: "update_items gen (map line_of_item ?T @ map (\<lambda>(k, l). moved_line (gen k) (the (row_get it_line_id l ?S))) (zip [0..<length ids] ids)) ?T = Inr (tn, b)"
    and s1: "session_save None (src\<lparr>ss_rev := ss_rev src + 1, ss_pricing := structural_total sn (ss_pricing src)\<rparr>) (sd_sessions db) = Inr rows1"
    and s2: "session_save None (tgt\<lparr>ss_rev := ss_rev tgt + 1, ss_pricing := structural_total tn (ss_pricing tgt)\<rparr>) rows1 = Inr rows2"
    and db': "db' = db\<lparr>sd_sessions := rows2, sd_lines := (sd_lines db)(ss_id src := a, ss_id tgt := b)\<rparr>"
    by (rule move_lines_Inr [OF run src tgt])
  have keys: "ss_key src = from_key" "ss_channel src = ch" "ss_key tgt = to_key" "ss_channel tgt = ch"
    using session_by_key_Some [OF src] session_by_key_Some [OF tgt] by auto
  have gs: "row_get ss_id (ss_id src) (sd_sessions db) = Some src" by (rule session_get [OF ok src])
  have gt: "row_get ss_id (ss_id tgt) (sd_sessions db) = Some tgt" by (rule session_get [OF ok tgt])
  have "src \<noteq> tgt" using r(1) keys by auto
  then have ne: "ss_id src \<noteq> ss_id tgt" using gs gt by auto
  have g: "list_all (\<lambda>k. gen k \<noteq> []) [0..<length ids]"
    "list_all (\<lambda>k. gen k \<notin> it_line_id ` set ?T) [0..<length ids]"
    using ids(2) by (auto simp: fresh_line_ids_def list_all_iff)
  have A: "sn = ?kept \<and> a = ?kept"
    using update_items_Inr [OF ua, of "\<lambda>i. it_line_id i \<notin> set ids" "[]"] lines(1)
    by (auto simp: lines_ok_def normalize_items_same list_all_iff)
  have B: "tn = ?T @ ?moved \<and> b = ?T @ ?moved"
  proof -
    have "normalize_items gen 0 (map line_of_item ?T @ map (\<lambda>(k, l). moved_line (gen k) (the (row_get it_line_id l ?S))) (zip [0..<length ids] ids))
        = filter (\<lambda>_. True) ?T @ ?moved"
      using lines(2) by (simp add: normalize_items_append normalize_items_same normalize_moved [OF g(1)] lines_ok_def)
    moreover have "it_line_id i \<notin> it_line_id ` set ?T" if "i \<in> set ?moved" for i
    proof -
      from that have "it_line_id i \<in> set (map it_line_id ?moved)" by simp
      then obtain k where "it_line_id i = gen k" "k < length ids" by (auto simp: moved_rows_ids)
      then show ?thesis using g(2) by (simp add: list_all_iff)
    qed
    ultimately show ?thesis
      using update_items_Inr [OF ub, of "\<lambda>_. True" ?moved] lines(2) by (simp add: lines_ok_def)
  qed
  let ?src' = "src\<lparr>ss_rev := ss_rev src + 1, ss_pricing := structural_total sn (ss_pricing src)\<rparr>"
  let ?tgt' = "tgt\<lparr>ss_rev := ss_rev tgt + 1, ss_pricing := structural_total tn (ss_pricing tgt)\<rparr>"
  have rows1: "rows1 = row_put ss_id ?src' (sd_sessions db)" using session_save_full [OF s1] gs by simp
  have g1: "row_get ss_id (ss_id ?tgt') rows1 = Some tgt" using gt ne by (simp add: rows1 row_get_put)
  have rows2: "rows2 = row_put ss_id ?tgt' rows1" using session_save_full [OF s2 g1] by simp
  have ok2: "sessions_ok rows2"
    unfolding rows2 using g1 gs ok by (intro sessions_ok_put) (auto simp: rows1 intro!: sessions_ok_put)
  have "row_get ss_id (ss_id src) rows2 = Some ?src'" "row_get ss_id (ss_id tgt) rows2 = Some ?tgt'"
    using gs gt ne by (simp_all add: rows2 rows1 row_get_put)
  then have "?src' \<in> set rows2" "?tgt' \<in> set rows2" by (auto dest: row_get_SomeD)
  then have found: "session_by_key from_key ch db' = Some ?src'" "session_by_key to_key ch db' = Some ?tgt'"
    using session_by_key_iff [of db'] ok2 keys by (simp_all add: db')
  have tot: "dget (structural_total is p) ''total_q'' = Some (JNum (lines_total is))" for "is" p
    by (simp add: structural_total_def lines_total_def)
  have "lines_total ?kept + lines_total ?moved = lines_total ?S"
    using sum_kept_and_taken [of it_line_id ?S ids it_line_total_q] lines(1) ids(1) r(2)
    by (simp add: moved_rows_total lines_ok_def) (simp add: lines_total_def)
  moreover have "sd_lines db' (ss_id src) = ?kept" "sd_lines db' (ss_id tgt) = ?T @ ?moved"
    using A B ne by (simp_all add: db')
  ultimately show ?thesis using found A B tot by (simp add: lines_total_def)
qed

text \<open>Two tables of a cafe.\<close>

definition comanda :: "nat \<Rightarrow> string \<Rightarrow> dict \<Rightarrow> session" where
  "comanda k skey data = \<lparr>ss_id = k, ss_key = skey, ss_channel = ''pdv'', ss_handle_type = Some ''pos_tab'',
     ss_handle_ref = Some skey, ss_state = ''open'', ss_pricing_policy = ''internal'', ss_edit_policy = ''open'',
     ss_rev = 3, ss_data = data, ss_pricing = [], ss_commit_token = None, ss_committed_at = None\<rparr>"

definition bread_line :: "string \<Rightarrow> rat \<Rightarrow> int \<Rightarrow> item" where
  "bread_line l qty tot = \<lparr>it_line_id = l, it_sku = ''PAO'', it_name = ''Pao'', it_qty = qty,
     it_unit_price_q = 250, it_line_total_q = tot, it_meta = []\<rparr>"

definition no_orders :: order_db where
  "no_orders = \<lparr>od_orders = [], od_items = [], od_events = [], od_signals = []\<rparr>"

definition cafe :: sales where
  "cafe = \<lparr>sd_orders = no_orders, sd_sessions = [comanda 1 ''T1'' [], comanda 2 ''T2'' []],
     sd_lines = (\<lambda>_. [])(1 := [bread_line ''L1'' 2 500, bread_line ''L2'' 3 750], 2 := [bread_line ''M1'' 1 250]),
     sd_session_events = [], sd_idem = [], sd_directives = []\<rparr>"

definition new_line_id :: "nat \<Rightarrow> string" where
  "new_line_id k = ''N'' @ replicate k CHR ''x''"

definition cafe_moved :: sales where
  "cafe_moved = (case move_lines new_line_id ''T1'' ''T2'' ''pdv'' [''L2''] cafe of Inr d \<Rightarrow> d | Inl _ \<Rightarrow> cafe)"

lemma cafe_move_runs: "move_lines new_line_id ''T1'' ''T2'' ''pdv'' [''L2''] cafe = Inr cafe_moved"
proof -
  have "\<not> isl (move_lines new_line_id ''T1'' ''T2'' ''pdv'' [''L2''] cafe)" by code_simp
  then show ?thesis unfolding cafe_moved_def by (auto split: sum.splits)
qed

lemma cafe_facts: "sessions_ok (sd_sessions cafe)" "session_by_key ''T1'' ''pdv'' cafe = Some (comanda 1 ''T1'' [])"
  "session_by_key ''T2'' ''pdv'' cafe = Some (comanda 2 ''T2'' [])"
  "lines_ok (sd_lines cafe 1)" "lines_ok (sd_lines cafe 2)" "fresh_line_ids new_line_id 1 (sd_lines cafe 2)"
  by (simp_all add: cafe_def comanda_def sessions_ok_def session_by_key_def lines_ok_def bread_line_def
      fresh_line_ids_def new_line_id_def)

theorem move_conserves_witness:
  "lines_total (sd_lines cafe_moved 1) + lines_total (sd_lines cafe_moved 2)
     = lines_total (sd_lines cafe 1) + lines_total (sd_lines cafe 2)"
proof -
  have i: "ss_id (comanda k skey d) = k" for k skey d by (simp add: comanda_def)
  have d: "distinct [''L2'']" "fresh_line_ids new_line_id (length [''L2'']) (sd_lines cafe 2)"
    using cafe_facts(6) by simp_all
  show ?thesis
    using move_conserves [OF cafe_facts(1-3), unfolded i, OF cafe_facts(4,5) d cafe_move_runs] by blast
qed

text \<open>The move does not remove repetitions from the lines it is given: asked to move one line
  twice, it takes it once from the source and creates it twice in the target, so two breads that
  were worth 500 become four worth 1000.\<close>

theorem move_repeated_line_doubles:
  "(case move_lines new_line_id ''T1'' ''T2'' ''pdv'' [''L1'', ''L1''] cafe of
      Inl _ \<Rightarrow> False
    | Inr db \<Rightarrow> map it_qty (sd_lines db 2) = [1, 2, 2]
        \<and> lines_total (sd_lines cafe 1) + lines_total (sd_lines cafe 2) = 1500
        \<and> lines_total (sd_lines db 1) + lines_total (sd_lines db 2) = 2000)"
  by code_simp

section \<open>Modifying\<close>

definition bare_env :: session_env where
  "bare_env = \<lparr>en_fence = None, en_modifiers = [], en_draft_validators = [], en_commit_validators = [],
     en_check_topic = (\<lambda>_. None), en_normalize_phone = (\<lambda>p. p), en_decimal_text = (\<lambda>_. [])\<rparr>"

definition no_rules :: channel_rules where
  "no_rules = \<lparr>ru_modifiers = None, ru_validators = None, ru_checks = []\<rparr>"

text \<open>Merging two lines adds the quantities but keeps the total of the line that stays, which
  the normalization then takes as given: without a modifier that prices the lines again, five
  breads at 250 are sold for the 750 of three, and the cart loses 500. Setting the quantity
  clears the total and is not affected.\<close>

theorem merge_keeps_old_total:
  "(case modify_session bare_env no_rules [] 0 new_line_id ''T1'' ''pdv''
           [Merge_lines (Given ''L1'') (Given ''L2'')] None cafe of
      Inl _ \<Rightarrow> False
    | Inr (_, db) \<Rightarrow> map it_qty (sd_lines db 1) = [5] \<and> lines_total (sd_lines db 1) = 750)
   \<and> (case modify_session bare_env no_rules [] 0 new_line_id ''T1'' ''pdv''
           [Set_qty (Given ''L2'') (Given 5), Remove_line (Given ''L1'')] None cafe of
      Inl _ \<Rightarrow> False
    | Inr (_, db) \<Rightarrow> map it_qty (sd_lines db 1) = [5] \<and> lines_total (sd_lines db 1) = 1250)"
  by code_simp

text \<open>Registered modifiers leave the identity, the state and the revision of the session alone.\<close>

definition keeps_keys :: "session \<Rightarrow> session \<Rightarrow> bool" where
  "keeps_keys s s' \<longleftrightarrow> ss_id s' = ss_id s \<and> ss_key s' = ss_key s \<and> ss_channel s' = ss_channel s
     \<and> ss_state s' = ss_state s \<and> ss_rev s' = ss_rev s"

definition modifiers_keep_session :: "session_env \<Rightarrow> bool" where
  "modifiers_keep_session env \<longleftrightarrow> (\<forall>(code, f) \<in> set (en_modifiers env). \<forall>ch ctx v v'.
     f ch ctx v = Inr v' \<longrightarrow> keeps_keys (lv_row v) (lv_row v'))"

lemma run_modifiers_keep:
  assumes "run_modifiers allowed ch ctx ms v = Inr v'"
    and "\<forall>(code, f) \<in> set ms. \<forall>ch ctx v v'. f ch ctx v = Inr v' \<longrightarrow> keeps_keys (lv_row v) (lv_row v')"
  shows "keeps_keys (lv_row v) (lv_row v')"
  using assms
proof (induction ms arbitrary: v)
  case Nil
  then show ?case by (simp add: keeps_keys_def)
next
  case (Cons m ms)
  obtain code f where m: "m = (code, f)" by (cases m)
  from Cons.prems(1) m obtain w where w: "(if is_infra code \<or> selected allowed code then f ch ctx v else Inr v) = Inr w"
    and rest: "run_modifiers allowed ch ctx ms w = Inr v'"
    by (auto simp: ebind_Inr)
  have "keeps_keys (lv_row v) (lv_row w)"
    using w Cons.prems(2) m by (auto simp: keeps_keys_def split: if_splits)
  moreover have "keeps_keys (lv_row w) (lv_row v')" using Cons.IH [OF rest] Cons.prems(2) by simp
  ultimately show ?case by (simp add: keeps_keys_def)
qed

text \<open>What a successful modification leaves behind.\<close>

lemma modify_session_Inr:
  assumes ok: "sessions_ok (sd_sessions db)" and mods: "modifiers_keep_session env"
    and run: "modify_session env rules ctx now gen skey ch ops expected db = Inr (v, db')"
  obtains s where "session_by_key skey ch db = Some s" "ss_state s \<noteq> ''committed''" "ss_state s \<noteq> ''abandoned''"
    "ss_edit_policy s \<noteq> ''locked''" "expected = None \<or> expected = Some (ss_rev s)"
    "session_by_key skey ch db' = Some (lv_row v)" "ss_id (lv_row v) = ss_id s" "ss_state (lv_row v) = ss_state s"
    "ss_rev (lv_row v) = ss_rev s + 1" "dget (ss_data (lv_row v)) ''checks'' = Some (JObj [])"
    "dget (ss_data (lv_row v)) ''issues'' = Some (JList [])"
    "sd_sessions db' = row_put ss_id (lv_row v) (sd_sessions db)" "sessions_ok (sd_sessions db')"
    "sd_orders db' = sd_orders db" "sd_idem db' = sd_idem db"
proof -
  from run obtain s where s: "session_by_key skey ch db = Some s"
    by (auto simp: modify_session_def ebind_Inr split: option.splits)
  from run s obtain v1 lines rows dirs w where st: "editable s = Inr ()"
    and e: "expected = None \<or> expected = Some (ss_rev s)"
    and m: "run_modifiers (ru_modifiers rules) ch ctx (en_modifiers env) w = Inr v1"
    and w: "lv_row w = s\<lparr>ss_data := ss_data (lv_row w)\<rparr>"
    and v: "v = v1\<lparr>lv_row := (lv_row v1)\<lparr>ss_rev := ss_rev (lv_row v1) + 1, ss_data := cleared (ss_data (lv_row v1))\<rparr>\<rparr>"
    and sv: "session_save None (lv_row v) (sd_sessions db) = Inr rows"
    and db': "db' = db\<lparr>sd_sessions := rows, sd_lines := (sd_lines db)(ss_id s := lines), sd_directives := dirs\<rparr>"
    by (fastforce simp: modify_session_def ebind_Inr Let_def split: if_splits option.splits)
  from run_modifiers_keep [OF m] mods have "keeps_keys (lv_row w) (lv_row v1)"
    by (simp add: modifiers_keep_session_def)
  moreover have "keeps_keys s (lv_row w)" by (subst w) (simp add: keeps_keys_def)
  ultimately have keep: "ss_id (lv_row v1) = ss_id s" "ss_key (lv_row v1) = ss_key s"
    "ss_channel (lv_row v1) = ss_channel s" "ss_state (lv_row v1) = ss_state s" "ss_rev (lv_row v1) = ss_rev s"
    by (simp_all add: keeps_keys_def)
  note key = session_by_key_Some [OF s]
  have get: "row_get ss_id (ss_id (lv_row v)) (sd_sessions db) = Some s"
    using session_get [OF ok s] keep v by simp
  have rows: "rows = row_put ss_id (lv_row v) (sd_sessions db)" using session_save_full [OF sv get] by simp
  have ok': "sessions_ok rows" unfolding rows using get ok keep v by (intro sessions_ok_put) auto
  have "row_get ss_id (ss_id s) rows = Some (lv_row v)"
    using get keep v by (simp add: rows row_get_put)
  then have "lv_row v \<in> set rows" by (auto dest: row_get_SomeD)
  then have "session_by_key skey ch db' = Some (lv_row v)"
    using session_by_key_iff [of db'] ok' key keep v by (simp add: db')
  moreover have "ss_state s \<noteq> ''committed''" "ss_state s \<noteq> ''abandoned''" "ss_edit_policy s \<noteq> ''locked''"
    using st by (auto simp: editable_def split: if_splits)
  ultimately show thesis
    using that [OF s _ _ _ e] keep v rows ok' by (simp add: db' cleared_def)
qed

section \<open>Anonymized sessions\<close>

definition no_personal_data :: "session \<Rightarrow> bool" where
  "no_personal_data s \<longleftrightarrow> (\<forall>k \<in> fst ` set (ss_data s). k \<notin> set personal_roots)"

lemma pick_cases: "pick upd f new old = (if wants upd f then new else old)"
  by (simp add: pick_def wants_def split: option.splits)

text \<open>Once the row of a session is anonymized, no save of any instance, however stale and
  whatever columns it names, gives it an identity or another handle again, and a row without
  personal data roots never receives one.\<close>

theorem anonymized_stays:
  assumes "row_get ss_id k rows = Some p" "is_anonymized p" "session_save upd s rows = Inr rows'"
  shows "\<exists>p'. row_get ss_id k rows' = Some p' \<and> is_anonymized p' \<and> ss_handle_ref p' = ss_handle_ref p
    \<and> (no_personal_data p \<longrightarrow> no_personal_data p')"
proof (cases "ss_id s = k")
  case False
  have "ss_id s \<noteq> k" by (rule False)
  define s' where "s' = (if (case row_get ss_id (ss_id s) rows of Some q \<Rightarrow> is_anonymized q | None \<Rightarrow> False) \<and> wants upd ''data''
    then s\<lparr>ss_handle_type := Some ''anonymized''\<rparr> else s)"
  have "\<exists>t. ss_id t = ss_id s \<and> write_session upd t rows = Inr rows'"
  proof (cases "wants upd ''handle_type'' \<or> wants upd ''handle_ref'' \<or> wants upd ''data''")
    case True
    with assms(3) have "write_session upd s' rows = Inr rows'"
      by (auto simp: session_save_def s'_def Let_def ebind_Inr split: if_splits)
    then show ?thesis by (intro exI [of _ s']) (simp add: s'_def)
  next
    case False
    with assms(3) show ?thesis by (intro exI [of _ s]) (simp add: session_save_def)
  qed
  then obtain t where t: "ss_id t = ss_id s" "write_session upd t rows = Inr rows'" by blast
  have "row_get ss_id k rows' = Some p"
  proof (cases "row_get ss_id (ss_id t) rows")
    case None
    with t(2) assms(1) show ?thesis by (auto simp: write_session_def row_get_append split: if_splits)
  next
    case (Some old)
    then have "ss_id old = ss_id t" by (auto dest: row_get_SomeD)
    with t \<open>ss_id s \<noteq> k\<close> Some assms(1) show ?thesis
      by (auto simp: write_session_def Let_def row_get_put written_session_def split: if_splits)
  qed
  with assms(2) show ?thesis by blast
next
  case True
  have id: "ss_id p = k" using row_get_SomeD [OF assms(1)] by simp
  have written: "row_get ss_id k rows' = Some (written_session upd t p)"
    if "write_session upd t rows = Inr rows'" "ss_id t = k" for t
    using that assms(1) id by (auto simp: write_session_def Let_def row_get_put written_session_def split: if_splits)
  show ?thesis
  proof (cases "wants upd ''handle_type'' \<or> wants upd ''handle_ref'' \<or> wants upd ''data''")
    case False
    with assms(3) have "write_session upd s rows = Inr rows'" by (simp add: session_save_def)
    from written [OF this True] show ?thesis
      using False assms(2) by (simp add: written_session_def pick_cases is_anonymized_def no_personal_data_def)
  next
    case wide: True
    let ?t = "if wants upd ''data'' then s\<lparr>ss_handle_type := Some ''anonymized''\<rparr> else s"
    from assms True wide have c: "wants upd ''handle_type'' \<longrightarrow> is_anonymized s"
      "wants upd ''handle_ref'' \<longrightarrow> ss_handle_ref s = ss_handle_ref p"
      and e: "ebind (if wants upd ''data'' then accepts_personal_data ?t (map fst (ss_data ?t)) else Inr ())
          (\<lambda>_. write_session upd ?t rows) = Inr rows'"
      by (auto simp: session_save_def Let_def split: if_splits)
    from e have w: "write_session upd ?t rows = Inr rows'" and
      d: "wants upd ''data'' \<longrightarrow> (\<forall>x \<in> fst ` set (ss_data s). x \<notin> set personal_roots)"
      by (auto simp: ebind_Inr accepts_personal_data_def is_anonymized_def split: if_splits)
    have "ss_id ?t = k" using True by simp
    from written [OF w this] show ?thesis
      using c d assms(2) by (simp add: written_session_def pick_cases is_anonymized_def no_personal_data_def)
  qed
qed

text \<open>A cart saved by a request that read it before the account was deleted.\<close>

definition forgotten :: session where
  "forgotten = (comanda 1 ''T1'' [])\<lparr>ss_handle_type := Some ''anonymized'', ss_handle_ref := Some ''anon-1''\<rparr>"

theorem anonymized_stays_witness:
  "\<exists>p'. row_get ss_id 1 (case session_save (Some [''rev'', ''data'']) (comanda 1 ''T1'' [(''tab'', JNum 4)]) [forgotten] of
      Inr rows \<Rightarrow> rows | Inl _ \<Rightarrow> []) = Some p' \<and> is_anonymized p' \<and> no_personal_data p'"
proof -
  have g: "row_get ss_id 1 [forgotten] = Some forgotten" "is_anonymized forgotten" "no_personal_data forgotten"
    by (simp_all add: forgotten_def comanda_def is_anonymized_def no_personal_data_def)
  have "\<not> isl (session_save (Some [''rev'', ''data'']) (comanda 1 ''T1'' [(''tab'', JNum 4)]) [forgotten])"
    by code_simp
  then obtain rows' where
    "session_save (Some [''rev'', ''data'']) (comanda 1 ''T1'' [(''tab'', JNum 4)]) [forgotten] = Inr rows'"
    by (cases "session_save (Some [''rev'', ''data'']) (comanda 1 ''T1'' [(''tab'', JNum 4)]) [forgotten]") auto
  with anonymized_stays [OF g(1,2) this] g(3) show ?thesis by auto
qed

end
