(* ===== verification/OrderCommit.thy ===== *)
theory OrderCommit
  imports OrderSession
begin

text \<open>
  The commit of a session (\<open>services/commit.py\<close>, \<open>models/idempotency.py\<close>): the idempotency
  receipt, the customer fence, the seal of revision and total, the required checks, the order
  with its items, first event and snapshot, and the state of the session. A commit that
  raises rolls its transaction back and leaves at most a failed receipt. References are drawn
  by \<open>refs\<close>; \<open>ce_iso\<close>, \<open>ce_is_future\<close> and \<open>ce_reminder_at\<close> read the ISO dates of the
  standard library, \<open>ce_sha256\<close> its digest.
\<close>

section \<open>Results and parameters\<close>

record commit_result =
  cr_order_ref :: string
  cr_status :: string
  cr_total_q :: int
  cr_items_count :: nat

record seal =
  sl_revision :: int
  sl_total_q :: int
  sl_authority :: string

record commit_config =
  cc_checks :: "string list"
  cc_lifecycle :: json
  cc_ref_prefix :: string

record commit_clock =
  ce_sha256 :: "string \<Rightarrow> string"
  ce_now :: int
  ce_now_iso :: string
  ce_iso :: "string \<Rightarrow> int option"
  ce_is_future :: "string \<Rightarrow> bool option"
  ce_reminder_at :: "string \<Rightarrow> int option"

section \<open>The receipt\<close>

definition idempotency_scope :: "(string \<Rightarrow> string) \<Rightarrow> string \<Rightarrow> string \<Rightarrow> string" where
  "idempotency_scope sha256 skey ch =
     (let scope = ''commit:'' @ ch @ '':'' @ skey in
      if length scope > 64 then ''commit:'' @ take 57 (sha256 scope) else scope)"

definition idem_get :: "string \<Rightarrow> string \<Rightarrow> idem_key list \<Rightarrow> idem_key option" where
  "idem_get scope key rows = find (\<lambda>k. ik_scope k = scope \<and> ik_key k = key) rows"

definition idem_put :: "idem_key \<Rightarrow> idem_key list \<Rightarrow> idem_key list" where
  "idem_put k rows = row_put (\<lambda>x. (ik_scope x, ik_key x)) k rows"

definition result_of_response :: "string \<times> string \<times> int \<times> nat \<Rightarrow> commit_result" where
  "result_of_response r = (case r of (ref, st, tot, n) \<Rightarrow>
     \<lparr>cr_order_ref = ref, cr_status = st, cr_total_q = tot, cr_items_count = n\<rparr>)"

definition response_of_result :: "commit_result \<Rightarrow> string \<times> string \<times> int \<times> nat" where
  "response_of_result r = (cr_order_ref r, cr_status r, cr_total_q r, cr_items_count r)"

definition completed_response :: "string \<Rightarrow> string \<Rightarrow> idem_key list \<Rightarrow> commit_result option" where
  "completed_response scope key rows =
     (case idem_get scope key rows of
        Some k \<Rightarrow> if ik_status k = ''done'' then map_option result_of_response (ik_response k) else None
      | None \<Rightarrow> None)"

datatype acquired = Cache_hit commit_result | Acquired idem_key "idem_key list"

definition a_day :: int where
  "a_day = 86400"

text \<open>
  \<open>_acquire_idempotency_lock\<close>: \<open>seen\<close> is what the first read sees, \<open>rows\<close> the table when the
  row is locked or inserted; a key that is in \<open>rows\<close> only was created by a rival in between.
\<close>

definition acquire_idempotency_lock ::
    "int \<Rightarrow> string \<Rightarrow> string \<Rightarrow> idem_key list \<Rightarrow> idem_key list \<Rightarrow> oerror + acquired" where
  "acquire_idempotency_lock now scope key seen rows =
     (case idem_get scope key rows of
        None \<Rightarrow>
          let k = \<lparr>ik_scope = scope, ik_key = key, ik_status = ''in_progress'', ik_response = None,
                   ik_expires_at = Some (now + a_day)\<rparr> in
          Inr (Acquired k (rows @ [k]))
      | Some k \<Rightarrow>
          if ik_status k = ''done'' \<and> ik_response k \<noteq> None
          then Inr (Cache_hit (result_of_response (the (ik_response k))))
          else if ik_status k = ''in_progress'' then
            (if idem_get scope key seen \<noteq> None
                \<and> (case ik_expires_at k of Some e \<Rightarrow> e \<le> now | None \<Rightarrow> False)
             then let k' = k\<lparr>ik_expires_at := Some (now + a_day)\<rparr> in Inr (Acquired k' (idem_put k' rows))
             else Inl (CommitError ''in_progress''))
          else let k' = k\<lparr>ik_status := ''in_progress''\<rparr> in Inr (Acquired k' (idem_put k' rows)))"

section \<open>Fences\<close>

definition validate_expected_revision :: "session \<Rightarrow> int \<Rightarrow> oerror + unit" where
  "validate_expected_revision s e = (if ss_rev s = e then Inr () else Inl (ValidationError ''revision_changed''))"

fun calculate_total :: "line list \<Rightarrow> int" where
  "calculate_total [] = 0"
| "calculate_total (l # ls) =
     (case ln_total l of Some t \<Rightarrow> t | None \<Rightarrow> monetary_mult (ln_qty l) (case_option 0 id (ln_price l)))
     + calculate_total ls"

definition validate_expected_total :: "item list \<Rightarrow> int \<Rightarrow> oerror + unit" where
  "validate_expected_total items e =
     (if calculate_total (map line_of_item items) = e then Inr () else Inl (ValidationError ''total_changed''))"

text \<open>\<open>str(a or b or "").strip()\<close> over JSON strings.\<close>

definition first_text :: "json option list \<Rightarrow> string" where
  "first_text vs = (case filter (\<lambda>v. case v of Some j \<Rightarrow> truthy j | None \<Rightarrow> False) vs of
     Some j # _ \<Rightarrow> json_text j | _ \<Rightarrow> [])"

definition session_customer_identity ::
    "(string \<Rightarrow> string) \<Rightarrow> dict \<Rightarrow> string option \<Rightarrow> string option \<Rightarrow> string \<times> string" where
  "session_customer_identity norm_phone data handle_type handle_ref =
     (let ht = case_option [] id handle_type; hr = case_option [] id handle_ref;
          customer = (case dget data ''customer'' of Some (JObj d) \<Rightarrow> d | _ \<Rightarrow> []);
          ref0 = first_text [dget data ''customer_ref'', dget customer ''ref''];
          phone0 = first_text [dget customer ''phone''];
          ref1 = (if ref0 = [] \<and> ht = ''customer'' then strip hr else ref0);
          phone1 = (if phone0 = [] \<and> ht \<in> {''phone'', ''whatsapp'', ''manychat''} then strip hr else phone0) in
      (ref1, if norm_phone phone1 \<noteq> [] then norm_phone phone1 else phone1))"

abbreviation identity_of :: "session_env \<Rightarrow> session \<Rightarrow> string \<times> string" where
  "identity_of env s \<equiv>
     session_customer_identity (en_normalize_phone env) (ss_data s) (ss_handle_type s) (ss_handle_ref s)"

definition lock_active_session_customer :: "session_env \<Rightarrow> session \<Rightarrow> oerror + customer option" where
  "lock_active_session_customer env s =
     (let (cref, phone) = identity_of env s in
      if cref = [] \<and> phone = [] then Inr None
      else case en_fence env of
        None \<Rightarrow> Inr None
      | Some f \<Rightarrow> (case fe_lock_by_identity f cref phone of
            Inl code \<Rightarrow> Inl (CommitError code)
          | Inr None \<Rightarrow> Inr None
          | Inr (Some c) \<Rightarrow> if cu_active c then Inr (Some c) else Inl (CommitError ''customer_inactive'')))"

definition revalidate_session_customer ::
    "session_env \<Rightarrow> session \<Rightarrow> session \<Rightarrow> customer option \<Rightarrow> oerror + unit" where
  "revalidate_session_customer env before s locked =
     (if identity_of env before \<noteq> identity_of env s then Inl (CommitError ''customer_identity_changed'')
      else case locked of
        None \<Rightarrow> Inr ()
      | Some c \<Rightarrow>
          let (cref, phone) = identity_of env s;
              owns = (case en_fence env of Some f \<Rightarrow> fe_owns_phone f c phone | None \<Rightarrow> False);
              ref_matches = (cref = [] \<or> cref = cu_ref c);
              phone_matches = (phone = [] \<or> phone = cu_phone c \<or> owns) in
          if ref_matches \<and> phone_matches then Inr () else Inl (CommitError ''customer_identity_changed''))"

section \<open>Checks\<close>

text \<open>A deadline that is set, can be parsed and has passed.\<close>

definition expired_at :: "commit_clock \<Rightarrow> json option \<Rightarrow> oerror + bool" where
  "expired_at clk v =
     (case v of
        None \<Rightarrow> Inr False
      | Some j \<Rightarrow> if \<not> truthy j then Inr False
                  else (case j of
                          JStr s \<Rightarrow> Inr (case ce_iso clk s of Some t \<Rightarrow> t \<le> ce_now clk | None \<Rightarrow> False)
                        | _ \<Rightarrow> Inl TypeError))"

fun holds_fresh :: "commit_clock \<Rightarrow> json list \<Rightarrow> oerror + unit" where
  "holds_fresh clk [] = Inr ()"
| "holds_fresh clk (h # hs) =
     ebind (expired_at clk (jget ''expires_at'' h)) (\<lambda>e.
     if e then Inl (CommitError ''hold_expired'') else holds_fresh clk hs)"

fun checks_fresh :: "commit_clock \<Rightarrow> int \<Rightarrow> dict \<Rightarrow> string list \<Rightarrow> oerror + unit" where
  "checks_fresh clk n checks [] = Inr ()"
| "checks_fresh clk n checks (code # codes) =
     (case dget checks code of
        None \<Rightarrow> Inl (CommitError ''missing_check'')
      | Some check \<Rightarrow>
          if \<not> truthy check then Inl (CommitError ''missing_check'')
          else if jget ''rev'' check \<noteq> Some (JNum n) then Inl (CommitError ''stale_check'')
          else
            ebind (as_object (case jget ''result'' check of Some r \<Rightarrow> if truthy r then Some r else None | None \<Rightarrow> None))
              (\<lambda>result.
            ebind (expired_at clk (dget result ''hold_expires_at'')) (\<lambda>late.
            if late then Inl (CommitError ''hold_expired'')
            else ebind (as_array (dget result ''holds'')) (\<lambda>hs.
              ebind (holds_fresh clk hs) (\<lambda>_. checks_fresh clk n checks codes)))))"

definition commitment_snapshot :: "commit_clock \<Rightarrow> session \<Rightarrow> dict \<Rightarrow> json \<Rightarrow> string list \<Rightarrow> dict" where
  "commitment_snapshot clk s checks issues codes =
     [(''session_rev'', JNum (ss_rev s)), (''checked_at'', JStr (ce_now_iso clk)),
      (''required_checks'', JList (map JStr codes)),
      (''checks'', JObj (foldl (\<lambda>d c. case dget checks c of Some v \<Rightarrow> dset c v d | None \<Rightarrow> d) [] codes)),
      (''issues'', issues)]"

definition blocking :: "json \<Rightarrow> bool" where
  "blocking i \<longleftrightarrow> (case jget ''blocking'' i of Some b \<Rightarrow> truthy b | None \<Rightarrow> False)"

section \<open>The order\<close>

definition order_data_keys :: "string list" where
  "order_data_keys =
     [''customer'', ''customer_ref'', ''fulfillment_type'', ''delivery_address'', ''save_as_default'',
      ''saved_address_id'', ''address_label'', ''delivery_address_structured'', ''delivery_date'',
      ''delivery_time_slot'', ''order_notes'', ''origin_channel'', ''payment'', ''loyalty'', ''fiscal'',
      ''receipt'', ''delivery_fee_q'', ''delivery_distance_km'', ''is_gift'', ''recipient'',
      ''gift_message'', ''gift_hide_values'', ''transferred_from'']"

text \<open>The keys carried over, the reference of the customer, and the preorder flag.\<close>

definition order_data_of :: "commit_clock \<Rightarrow> dict \<Rightarrow> dict" where
  "order_data_of clk data =
     (let copied = foldl (\<lambda>d k. case dget data k of Some v \<Rightarrow> dset k v d | None \<Rightarrow> d) [] order_data_keys;
          with_ref = (case (dget copied ''customer_ref'', dget data ''customer'') of
            (None, Some (JObj c)) \<Rightarrow> (case dget c ''ref'' of
                Some r \<Rightarrow> if truthy r then dset ''customer_ref'' r copied else copied | None \<Rightarrow> copied)
          | _ \<Rightarrow> copied) in
      case dget data ''delivery_date'' of
        Some (JStr d) \<Rightarrow> if d = [] then with_ref
                        else (case ce_is_future clk d of Some b \<Rightarrow> dset ''is_preorder'' (JBool b) with_ref | None \<Rightarrow> with_ref)
      | _ \<Rightarrow> with_ref)"

definition order_handle :: "session_env \<Rightarrow> session \<Rightarrow> string option \<times> string option" where
  "order_handle env s =
     (if case_option [] id (ss_handle_ref s) \<noteq> [] then (ss_handle_type s, ss_handle_ref s)
      else let (cref, phone) = identity_of env s in
        if phone \<noteq> [] then (Some ''phone'', Some phone)
        else if cref \<noteq> [] then (Some ''customer'', Some cref)
        else (ss_handle_type s, ss_handle_ref s))"

definition order_snapshot ::
    "session_env \<Rightarrow> commit_config \<Rightarrow> seal \<Rightarrow> session \<Rightarrow> item list \<Rightarrow> dict \<Rightarrow> dict" where
  "order_snapshot env cfg sl s items commitment =
     [(''items'', JList (map (item_json env) items)), (''data'', JObj (ss_data s)), (''pricing'', JObj (ss_pricing s)),
      (''rev'', JNum (ss_rev s)),
      (''commit'', JObj [(''authority'', JStr (sl_authority sl)), (''expected_revision'', JNum (sl_revision sl)),
                         (''expected_total_q'', JNum (sl_total_q sl))]),
      (''commitment'', JObj commitment), (''lifecycle'', cc_lifecycle cfg)]"

definition new_order ::
    "session_env \<Rightarrow> commit_clock \<Rightarrow> commit_config \<Rightarrow> seal \<Rightarrow> string \<Rightarrow> string \<Rightarrow> session \<Rightarrow> item list \<Rightarrow> dict \<Rightarrow> nat \<Rightarrow> order" where
  "new_order env clk cfg sl skey ch s items commitment pk =
     \<lparr>or_id = pk, or_ref = [], or_channel_ref = ch, or_session_key = skey,
      or_handle_type = fst (order_handle env s), or_handle_ref = snd (order_handle env s), or_external_ref = None,
      or_status = status_value Order_new, or_snapshot = order_snapshot env cfg sl s items commitment,
      or_data = order_data_of clk (ss_data s), or_currency = ''BRL'',
      or_total_q = calculate_total (map line_of_item items), or_created_at = ce_now clk, or_at = (\<lambda>_. None)\<rparr>"

text \<open>Up to \<open>n\<close> references are tried, each in its own savepoint.\<close>

fun create_with_ref :: "nat \<Rightarrow> (nat \<Rightarrow> string) \<Rightarrow> nat \<Rightarrow> order \<Rightarrow> order_db \<Rightarrow> oerror + (order \<times> order_db)" where
  "create_with_ref 0 refs k r db = Inl IntegrityError"
| "create_with_ref (Suc n) refs k r db =
     (case create_order (r\<lparr>or_ref := refs k\<rparr>) db of
        Inr db' \<Rightarrow> Inr (r\<lparr>or_ref := refs k\<rparr>, db')
      | Inl _ \<Rightarrow> create_with_ref n refs (Suc k) r db)"

definition order_create_max_tries :: nat where
  "order_create_max_tries = 5"

definition order_item_of :: "nat \<Rightarrow> item \<Rightarrow> order_item" where
  "order_item_of pk i = \<lparr>oi_order = pk, oi_line_id = it_line_id i, oi_sku = it_sku i, oi_name = it_name i,
     oi_qty = it_qty i, oi_unit_price_q = it_unit_price_q i, oi_line_total_q = it_line_total_q i, oi_meta = it_meta i\<rparr>"

definition ctx_actor :: "dict \<Rightarrow> string" where
  "ctx_actor ctx = (case dget ctx ''actor'' of Some (JStr a) \<Rightarrow> a | _ \<Rightarrow> ''system'')"

fun joined :: "string \<Rightarrow> string list \<Rightarrow> string" where
  "joined sep [] = []"
| "joined sep [w] = w"
| "joined sep (w # w' # ws) = w @ sep @ joined sep (w' # ws)"

text \<open>The reminder the day before the delivery of a preorder.\<close>

definition preorder_reminder ::
    "session_env \<Rightarrow> commit_clock \<Rightarrow> string \<Rightarrow> dict \<Rightarrow> item list \<Rightarrow> directive list \<Rightarrow> oerror + directive list" where
  "preorder_reminder env clk order_ref data items rows =
     (case (dget data ''is_preorder'', dget data ''delivery_date'') of
        (Some (JBool True), Some (JStr d)) \<Rightarrow>
          (case ce_reminder_at clk d of
             None \<Rightarrow> Inr rows
           | Some due \<Rightarrow>
               ebind (case dget data ''customer'' of
                        Some (JObj c) \<Rightarrow> Inr c | None \<Rightarrow> Inr [] | Some _ \<Rightarrow> Inl AttributeError) (\<lambda>customer.
               let get = (\<lambda>dct k dflt. case dget dct k of Some v \<Rightarrow> v | None \<Rightarrow> JStr dflt) in
               create_directive (queued_directive (next_pk di_id rows) ''notification.send''
                 [(''order_ref'', JStr order_ref), (''template'', JStr ''preorder_reminder''),
                  (''context'', JObj
                     [(''customer_name'', get customer ''name'' []), (''delivery_date'', JStr d),
                      (''delivery_time_slot'', get data ''delivery_time_slot'' []),
                      (''items_summary'', JStr (joined '', ''
                          (map (\<lambda>i. en_decimal_text env (it_qty i) @ ''x '' @ it_name i) (take 5 items)))),
                      (''fulfillment_type'', get data ''fulfillment_type'' ''pickup'')])] due) rows))
      | _ \<Rightarrow> Inr rows)"

section \<open>The commit\<close>

text \<open>The order of a committed session, the newest first.\<close>

definition order_of_session :: "string \<Rightarrow> string \<Rightarrow> order_db \<Rightarrow> order option" where
  "order_of_session skey ch db = latest (\<lambda>r. or_session_key r = skey \<and> or_channel_ref r = ch) (od_orders db)"

text \<open>Everything that must hold of an open session before its order is built.\<close>

definition commit_fences ::
    "session_env \<Rightarrow> commit_clock \<Rightarrow> commit_config \<Rightarrow> dict \<Rightarrow> seal \<Rightarrow> string \<Rightarrow> session \<Rightarrow> item list \<Rightarrow> oerror + dict" where
  "commit_fences env clk cfg ctx sl ch s items =
     ebind (validate_expected_revision s (sl_revision sl)) (\<lambda>_.
     ebind (as_object (dget (ss_data s) ''checks'')) (\<lambda>checks.
     ebind (checks_fresh clk (ss_rev s) checks (cc_checks cfg)) (\<lambda>_.
     ebind (as_array (dget (ss_data s) ''issues'')) (\<lambda>issues.
     if \<exists>i \<in> set issues. blocking i then Inl (CommitError ''blocking_issues'')
     else
     ebind (run_validators None ch ctx (en_commit_validators env) \<lparr>lv_row = s, lv_items = items\<rparr>) (\<lambda>_.
     if items = [] then Inl (CommitError ''empty_session'')
     else
     ebind (validate_expected_total items (sl_total_q sl)) (\<lambda>_.
     Inr (commitment_snapshot clk s checks (JList issues) (cc_checks cfg))))))))"

definition seal_order ::
    "session_env \<Rightarrow> commit_clock \<Rightarrow> commit_config \<Rightarrow> dict \<Rightarrow> seal \<Rightarrow> (nat \<Rightarrow> string) \<Rightarrow> string \<Rightarrow> string \<Rightarrow> string \<Rightarrow>
       session \<Rightarrow> item list \<Rightarrow> dict \<Rightarrow> sales \<Rightarrow> oerror + (commit_result \<times> sales)" where
  "seal_order env clk cfg ctx sl refs skey ch key s items commitment db =
     (let pk = next_pk or_id (od_orders (sd_orders db)) in
     ebind (create_with_ref order_create_max_tries refs 0
              (new_order env clk cfg sl skey ch s items commitment pk) (sd_orders db)) (\<lambda>(r, odb).
     ebind (insert_items (map (order_item_of pk) items) (od_items odb)) (\<lambda>rows.
     ebind (emit_event pk ''created'' (ctx_actor ctx)
              [(''from_session'', JStr skey), (''commit_authority'', JStr (sl_authority sl)),
               (''expected_revision'', JNum (sl_revision sl)), (''expected_total_q'', JNum (sl_total_q sl))]
              (odb\<lparr>od_items := rows\<rparr>)) (\<lambda>odb2.
     let odb3 = odb2\<lparr>od_signals := od_signals odb2 @ [(pk, ''created'', ctx_actor ctx)]\<rparr>;
         s' = s\<lparr>ss_state := ''committed'', ss_committed_at := Some (ce_now clk), ss_commit_token := Some key\<rparr> in
     ebind (session_save None s' (sd_sessions db)) (\<lambda>sessions.
     ebind (preorder_reminder env clk (or_ref r) (or_data r) items (sd_directives db)) (\<lambda>dirs.
     Inr (\<lparr>cr_order_ref = or_ref r, cr_status = ''committed'', cr_total_q = or_total_q r,
            cr_items_count = length items\<rparr>,
          db\<lparr>sd_orders := odb3, sd_sessions := sessions, sd_directives := dirs\<rparr>)))))))"

text \<open>\<open>before\<close> is the session as read before the locks, if it was there.\<close>

definition do_commit ::
    "session_env \<Rightarrow> commit_clock \<Rightarrow> commit_config \<Rightarrow> dict \<Rightarrow> seal \<Rightarrow> (nat \<Rightarrow> string) \<Rightarrow> string \<Rightarrow> string \<Rightarrow> string \<Rightarrow>
       session option \<Rightarrow> sales \<Rightarrow> oerror + (commit_result \<times> sales)" where
  "do_commit env clk cfg ctx sl refs skey ch key before db =
     (case before of
        None \<Rightarrow> Inl (SessionError ''not_found'')
      | Some b \<Rightarrow>
     ebind (lock_active_session_customer env b) (\<lambda>locked.
     case session_by_key skey ch db of
       None \<Rightarrow> Inl (SessionError ''not_found'')
     | Some s \<Rightarrow>
     ebind (revalidate_session_customer env b s locked) (\<lambda>_.
     if ss_state s = ''committed'' then
       (case order_of_session skey ch (sd_orders db) of
          Some r \<Rightarrow> Inr (\<lparr>cr_order_ref = or_ref r, cr_status = ''already_committed'', cr_total_q = or_total_q r,
              cr_items_count = length (filter (\<lambda>i. oi_order i = or_id r) (od_items (sd_orders db)))\<rparr>, db)
        | None \<Rightarrow> Inl (CommitError ''already_committed''))
     else if ss_state s = ''abandoned'' then Inl (CommitError ''abandoned'')
     else
     ebind (commit_fences env clk cfg ctx sl ch s (sd_lines db (ss_id s))) (\<lambda>commitment.
     seal_order env clk cfg ctx sl refs skey ch key s (sd_lines db (ss_id s)) commitment db))))"

text \<open>One transaction: receipt, seal and response. An error rolls all of it back.\<close>

definition commit_atomic ::
    "session_env \<Rightarrow> commit_clock \<Rightarrow> commit_config \<Rightarrow> dict \<Rightarrow> seal \<Rightarrow> (nat \<Rightarrow> string) \<Rightarrow> string \<Rightarrow> string \<Rightarrow> string \<Rightarrow>
       idem_key list \<Rightarrow> session option \<Rightarrow> sales \<Rightarrow> oerror + (commit_result \<times> sales)" where
  "commit_atomic env clk cfg ctx sl refs skey ch key seen before db =
     ebind (acquire_idempotency_lock (ce_now clk) (idempotency_scope (ce_sha256 clk) skey ch) key seen (sd_idem db)) (\<lambda>got.
     case got of
       Cache_hit r \<Rightarrow> Inr (r, db)
     | Acquired k rows \<Rightarrow>
         ebind (do_commit env clk cfg ctx sl refs skey ch key before (db\<lparr>sd_idem := rows\<rparr>)) (\<lambda>(r, db').
         Inr (r, db'\<lparr>sd_idem := idem_put (k\<lparr>ik_status := ''done'', ik_response := Some (response_of_result r)\<rparr>)
                               (sd_idem db')\<rparr>)))"

text \<open>After an error the receipt is created as failed, unless there is one.\<close>

definition failed_receipt :: "string \<Rightarrow> string \<Rightarrow> idem_key list \<Rightarrow> idem_key list" where
  "failed_receipt scope key rows =
     (if idem_get scope key rows \<noteq> None then rows
      else rows @ [\<lparr>ik_scope = scope, ik_key = key, ik_status = ''failed'', ik_response = None, ik_expires_at = None\<rparr>])"

definition commit ::
    "session_env \<Rightarrow> commit_clock \<Rightarrow> commit_config \<Rightarrow> dict \<Rightarrow> seal \<Rightarrow> (nat \<Rightarrow> string) \<Rightarrow> string \<Rightarrow> string \<Rightarrow> string \<Rightarrow>
       idem_key list \<Rightarrow> session option \<Rightarrow> sales \<Rightarrow> (oerror + commit_result) \<times> sales" where
  "commit env clk cfg ctx sl refs skey ch key seen before db =
     (case commit_atomic env clk cfg ctx sl refs skey ch key seen before db of
        Inr (r, db') \<Rightarrow> (Inr r, db')
      | Inl e \<Rightarrow> (Inl e, db\<lparr>sd_idem := failed_receipt (idempotency_scope (ce_sha256 clk) skey ch) key (sd_idem db)\<rparr>))"

end
