(* ===== verification/OrderCommitLaws.thy ===== *)
theory OrderCommitLaws
  imports OrderCommit OrderRuns OrderSessionProps
begin

text \<open>
  Laws of the commit: what a successful seal writes, the steps of the whole sales kernel, and
  the invariant that ties orders, committed sessions and receipts together.
\<close>

section \<open>Sealing\<close>

lemma fold_max_ge: "(b::nat) \<le> fold max xs b \<and> (\<forall>x \<in> set xs. x \<le> fold max xs b)"
proof (induction xs arbitrary: b)
  case (Cons a xs)
  from Cons.IH [of "max a b"] show ?case by auto
qed simp

lemma next_pk_fresh: "next_pk key rows \<notin> key ` set rows"
proof
  assume "next_pk key rows \<in> key ` set rows"
  then have "next_pk key rows \<in> set (map key rows)" by auto
  then have "next_pk key rows \<le> fold max (map key rows) 0" using fold_max_ge by blast
  then show False by (simp add: next_pk_def)
qed

lemma create_with_ref_Inr:
  "create_with_ref n refs k r db = Inr (r', db') \<Longrightarrow>
     \<exists>j. r' = r\<lparr>or_ref := refs j\<rparr> \<and> order_constraints r' (od_orders db)
       \<and> db' = db\<lparr>od_orders := od_orders db @ [r']\<rparr>"
  by (induction n arbitrary: k) (auto simp: create_order_def split: sum.splits if_splits)

lemma insert_items_Inr: "insert_items is rows = Inr rows' \<Longrightarrow> rows' = rows @ is"
proof (induction "is" arbitrary: rows)
  case (Cons i "is")
  from Cons.IH [of "rows @ [i]"] Cons.prems show ?case by (simp split: if_splits)
qed simp

lemma calculate_total_items: "calculate_total (map line_of_item items) = lines_total items"
  by (induction items) (simp_all add: line_of_item_def lines_total_def)

text \<open>The invariant of orders is kept when one is inserted with its first event.\<close>

lemma place_order_event:
  assumes "od_ok db" "or_id r \<notin> or_id ` set (od_orders db)" "order_constraints r (od_orders db)"
    and "emit_event (or_id r) ''created'' actor payload (db\<lparr>od_orders := od_orders db @ [r], od_items := rows\<rparr>) = Inr db'"
  shows "od_ok db' \<and> od_orders db' = od_orders db @ [r] \<and> od_items db' = rows"
proof -
  have ok1: "od_ok (db\<lparr>od_orders := od_orders db @ [r], od_items := rows\<rparr>)"
    using assms(1) insert_order_ok [OF _ assms(2,3)] by (auto simp: od_ok_def)
  from emit_sound [OF ok1 assms(4)] emit_event_Inr [OF ok1 assms(4)] show ?thesis by auto
qed

lemma seal_order_Inr:
  assumes ok: "od_ok (sd_orders db)" and sok: "sessions_ok (sd_sessions db)"
    and s: "session_by_key skey ch db = Some s"
    and run: "seal_order env clk cfg ctx sl refs skey ch key s items commitment db = Inr (r, db')"
  obtains ord s' where "od_orders (sd_orders db') = od_orders (sd_orders db) @ [ord]"
    "or_id ord \<notin> or_id ` set (od_orders (sd_orders db))" "od_ok (sd_orders db')"
    "or_session_key ord = skey" "or_channel_ref ord = ch" "or_status ord = ''new''"
    "or_total_q ord = lines_total items" "cr_order_ref r = or_ref ord" "cr_total_q r = or_total_q ord"
    "cr_items_count r = length items"
    "od_items (sd_orders db') = od_items (sd_orders db) @ map (order_item_of (or_id ord)) items"
    "sd_sessions db' = row_put ss_id s' (sd_sessions db)" "s' = s\<lparr>ss_state := ''committed'', ss_committed_at := Some (ce_now clk), ss_commit_token := Some key\<rparr>"
    "sessions_ok (sd_sessions db')" "sd_idem db' = sd_idem db" "sd_lines db' = sd_lines db"
proof -
  let ?pk = "next_pk or_id (od_orders (sd_orders db))"
  let ?r0 = "new_order env clk cfg sl skey ch s items commitment ?pk"
  let ?s' = "s\<lparr>ss_state := ''committed'', ss_committed_at := Some (ce_now clk), ss_commit_token := Some key\<rparr>"
  from run obtain ord odb rows odb2 sessions dirs payload where
    c: "create_with_ref order_create_max_tries refs 0 ?r0 (sd_orders db) = Inr (ord, odb)"
    and i: "insert_items (map (order_item_of ?pk) items) (od_items odb) = Inr rows"
    and e: "emit_event ?pk ''created'' (ctx_actor ctx) payload (odb\<lparr>od_items := rows\<rparr>) = Inr odb2"
    and sv: "session_save None ?s' (sd_sessions db) = Inr sessions"
    and r: "r = \<lparr>cr_order_ref = or_ref ord, cr_status = ''committed'', cr_total_q = or_total_q ord, cr_items_count = length items\<rparr>"
    and db': "db' = db\<lparr>sd_orders := odb2\<lparr>od_signals := od_signals odb2 @ [(?pk, ''created'', ctx_actor ctx)]\<rparr>,
      sd_sessions := sessions, sd_directives := dirs\<rparr>"
    by (auto simp: seal_order_def ebind_Inr Let_def)
  from create_with_ref_Inr [OF c] obtain j where ord: "ord = ?r0\<lparr>or_ref := refs j\<rparr>"
    and con: "order_constraints ord (od_orders (sd_orders db))"
    and odb: "odb = (sd_orders db)\<lparr>od_orders := od_orders (sd_orders db) @ [ord]\<rparr>" by blast
  have id: "or_id ord = ?pk" by (simp add: ord new_order_def)
  have fresh: "or_id ord \<notin> or_id ` set (od_orders (sd_orders db))" using next_pk_fresh by (simp add: id)
  from e odb id have e': "emit_event (or_id ord) ''created'' (ctx_actor ctx) payload
    ((sd_orders db)\<lparr>od_orders := od_orders (sd_orders db) @ [ord], od_items := rows\<rparr>) = Inr odb2" by simp
  note pl = place_order_event [OF ok fresh con e']
  have get: "row_get ss_id (ss_id ?s') (sd_sessions db) = Some s" using session_get [OF sok s] by simp
  from session_save_full [OF sv get] have sess: "sessions = row_put ss_id ?s' (sd_sessions db)" by simp
  have sok': "sessions_ok sessions" unfolding sess using sok get by (intro sessions_ok_put) auto
  have rows: "rows = od_items (sd_orders db) @ map (order_item_of ?pk) items"
    using insert_items_Inr [OF i] odb by simp
  have okd: "od_ok (odb2\<lparr>od_signals := od_signals odb2 @ [(?pk, ''created'', ctx_actor ctx)]\<rparr>)"
    using conjunct1 [OF pl] by (simp add: od_ok_def)
  have fields: "or_session_key ord = skey" "or_channel_ref ord = ch" "or_status ord = ''new''"
    "or_total_q ord = lines_total items"
    by (simp_all add: ord new_order_def calculate_total_items)
  show thesis
    by (rule that [of ord ?s']) (use pl okd fields fresh sess sok' rows id in \<open>simp_all add: db' r\<close>)
qed

section \<open>Fences\<close>

lemma checks_fresh_Inr:
  "checks_fresh clk n checks codes = Inr u \<Longrightarrow> c \<in> set codes \<Longrightarrow>
     \<exists>check. dget checks c = Some check \<and> jget ''rev'' check = Some (JNum n)"
  by (induction codes) (auto simp: ebind_Inr split: option.splits if_splits)

lemma commit_fences_Inr:
  assumes "commit_fences env clk cfg ctx sl ch s items = Inr commitment"
  shows "ss_rev s = sl_revision sl \<and> items \<noteq> [] \<and> lines_total items = sl_total_q sl
    \<and> (\<exists>checks. as_object (dget (ss_data s) ''checks'') = Inr checks
         \<and> checks_fresh clk (ss_rev s) checks (cc_checks cfg) = Inr ())
    \<and> (\<exists>issues. as_array (dget (ss_data s) ''issues'') = Inr issues \<and> \<not> (\<exists>i \<in> set issues. blocking i))"
  using assms
  by (auto simp: commit_fences_def ebind_Inr validate_expected_revision_def validate_expected_total_def
      calculate_total_items split: if_splits)

lemma do_commit_open:
  assumes "do_commit env clk cfg ctx sl refs skey ch key before db = Inr (r, db')"
    and "session_by_key skey ch db = Some s" "ss_state s \<noteq> ''committed''"
  obtains commitment where "commit_fences env clk cfg ctx sl ch s (sd_lines db (ss_id s)) = Inr commitment"
    "seal_order env clk cfg ctx sl refs skey ch key s (sd_lines db (ss_id s)) commitment db = Inr (r, db')"
  using assms by (auto simp: do_commit_def ebind_Inr split: option.splits if_splits)

lemma do_commit_closed:
  assumes "do_commit env clk cfg ctx sl refs skey ch key before db = Inr (r, db')"
    and "session_by_key skey ch db = Some s" "ss_state s = ''committed''"
  obtains ord where "order_of_session skey ch (sd_orders db) = Some ord" "cr_order_ref r = or_ref ord"
    "cr_total_q r = or_total_q ord" "db' = db"
  using assms by (auto simp: do_commit_def ebind_Inr split: option.splits if_splits)

lemma do_commit_session:
  "do_commit env clk cfg ctx sl refs skey ch key before db = Inr (r, db') \<Longrightarrow> \<exists>s. session_by_key skey ch db = Some s"
  by (auto simp: do_commit_def ebind_Inr split: option.splits)

end
