(* ===== verification/OrderCommitRuns.thy ===== *)
theory OrderCommitRuns
  imports OrderCommitLaws
begin

text \<open>
  Runs of the whole sales kernel: sessions are opened, modified, checked, moved between and
  abandoned, committed with any receipt, and their orders move on. The invariant: an order
  belongs to exactly one session, which is committed, no session has two orders, and a
  completed receipt names the order of its session.
\<close>

inductive sales_step :: "(string \<Rightarrow> string) \<Rightarrow> sales \<Rightarrow> sales \<Rightarrow> bool" for sha :: "string \<Rightarrow> string" where
  opened:
    "create_session_row s (sd_sessions db) = Inr rows \<Longrightarrow> ss_id s \<notin> ss_id ` set (sd_sessions db) \<Longrightarrow>
     ss_state s = ''open'' \<Longrightarrow>
     sales_step sha db (db\<lparr>sd_sessions := rows, sd_lines := (sd_lines db)(ss_id s := [])\<rparr>)"
| modified:
    "modifiers_keep_session env \<Longrightarrow>
     modify_session env rules ctx now gen skey ch ops expected db = Inr (v, db') \<Longrightarrow> sales_step sha db db'"
| moved_lines:
    "move_lines gen from_key to_key ch ids db = Inr db' \<Longrightarrow> sales_step sha db db'"
| checked:
    "apply_check_result stamp skey ch n code payload issues db = Inr (done, db') \<Longrightarrow> sales_step sha db db'"
| committed:
    "ce_sha256 clk = sha \<Longrightarrow>
     commit env clk cfg ctx sl refs skey ch key seen before db = (res, db') \<Longrightarrow> sales_step sha db db'"
| abandoned:
    "session_by_key skey ch db = Some s \<Longrightarrow> ss_state s = ''open'' \<Longrightarrow>
     session_save None (s\<lparr>ss_state := ''abandoned''\<rparr>) (sd_sessions db) = Inr rows \<Longrightarrow>
     sales_step sha db (db\<lparr>sd_sessions := rows\<rparr>)"
| order_went:
    "order_step op (sd_orders db) = Inr odb \<Longrightarrow> \<nexists>r items actor payload. op = Place r items actor payload \<Longrightarrow>
     sales_step sha db (db\<lparr>sd_orders := odb\<rparr>)"

definition sales_init :: sales where
  "sales_init = \<lparr>sd_orders = order_init, sd_sessions = [], sd_lines = (\<lambda>_. []), sd_session_events = [],
     sd_idem = [], sd_directives = []\<rparr>"

section \<open>The invariant\<close>

definition order_of_key :: "order \<Rightarrow> string \<Rightarrow> string \<Rightarrow> bool" where
  "order_of_key r skey ch \<longleftrightarrow> or_session_key r = skey \<and> or_channel_ref r = ch"

definition receipt_ok :: "(string \<Rightarrow> string) \<Rightarrow> order list \<Rightarrow> idem_key \<Rightarrow> bool" where
  "receipt_ok sha orders k \<longleftrightarrow> (\<forall>ref st tot n. ik_status k = ''done'' \<longrightarrow> ik_response k = Some (ref, st, tot, n) \<longrightarrow>
     (\<exists>r \<in> set orders. or_ref r = ref \<and> or_total_q r = tot
        \<and> ik_scope k = idempotency_scope sha (or_session_key r) (or_channel_ref r)))"

definition orders_sealed :: "sales \<Rightarrow> bool" where
  "orders_sealed db \<longleftrightarrow>
     (\<forall>r \<in> set (od_orders (sd_orders db)). \<exists>s \<in> set (sd_sessions db).
        order_of_key r (ss_key s) (ss_channel s) \<and> ss_state s = ''committed'')
     \<and> (\<forall>r \<in> set (od_orders (sd_orders db)). \<forall>q \<in> set (od_orders (sd_orders db)).
          order_of_key q (or_session_key r) (or_channel_ref r) \<longrightarrow> q = r)"

definition sales_ok :: "(string \<Rightarrow> string) \<Rightarrow> sales \<Rightarrow> bool" where
  "sales_ok sha db \<longleftrightarrow> sessions_ok (sd_sessions db) \<and> od_ok (sd_orders db) \<and> orders_sealed db
     \<and> (\<forall>k \<in> set (sd_idem db). receipt_ok sha (od_orders (sd_orders db)) k)"

text \<open>Every order stays, with its seal.\<close>

definition orders_stay :: "sales \<Rightarrow> sales \<Rightarrow> bool" where
  "orders_stay db db' \<longleftrightarrow> (\<forall>r \<in> set (od_orders (sd_orders db)). \<exists>r' \<in> set (od_orders (sd_orders db')).
     or_id r' = or_id r \<and> seal_of r' = seal_of r)"

lemma orders_stay_same: "sd_orders db' = sd_orders db \<Longrightarrow> orders_stay db db'"
  by (auto simp: orders_stay_def)

lemma orders_stay_trans: "orders_stay a b \<Longrightarrow> orders_stay b c \<Longrightarrow> orders_stay a c"
  unfolding orders_stay_def by metis

lemma receipt_ok_stay: "receipt_ok sha (od_orders (sd_orders db)) k \<Longrightarrow> orders_stay db db' \<Longrightarrow>
    receipt_ok sha (od_orders (sd_orders db')) k"
  unfolding receipt_ok_def orders_stay_def seal_of_iff by metis

text \<open>Steps that leave the orders and the receipts alone and only rewrite one session row.\<close>

lemma sales_ok_session_put:
  assumes ok: "sales_ok sha db" and s: "s \<in> set (sd_sessions db)"
    and same: "ss_id s' = ss_id s" "ss_key s' = ss_key s" "ss_channel s' = ss_channel s"
    and st: "ss_state s = ''committed'' \<longrightarrow> ss_state s' = ''committed''"
    and db': "sd_sessions db' = row_put ss_id s' (sd_sessions db)" "sd_orders db' = sd_orders db" "sd_idem db' = sd_idem db"
  shows "sales_ok sha db'"
proof -
  from ok have sok: "sessions_ok (sd_sessions db)" by (simp add: sales_ok_def)
  have get: "row_get ss_id (ss_id s') (sd_sessions db) = Some s"
    using sok s same(1) by (simp add: sessions_ok_def row_get_Some_iff)
  have "sessions_ok (sd_sessions db')" unfolding db' using sok get same by (intro sessions_ok_put)
  moreover have "orders_sealed db'"
  proof -
    have "\<exists>t \<in> set (sd_sessions db'). order_of_key r (ss_key t) (ss_channel t) \<and> ss_state t = ''committed''"
      if r: "r \<in> set (od_orders (sd_orders db))" for r
    proof -
      from ok r obtain t where t: "t \<in> set (sd_sessions db)" "order_of_key r (ss_key t) (ss_channel t)" "ss_state t = ''committed''"
        by (auto simp: sales_ok_def orders_sealed_def)
      show ?thesis
      proof (cases "ss_id t = ss_id s")
        case True
        with sok s t have "t = s" by (auto intro: same_session)
        moreover have "s' \<in> set (sd_sessions db')" using row_get_key [OF get] by (simp add: db' set_row_put)
        ultimately show ?thesis using t same st by (intro bexI [of _ s']) auto
      next
        case False
        with t same(1) have "t \<in> set (sd_sessions db')" by (simp add: db' set_row_put)
        with t show ?thesis by blast
      qed
    qed
    then show ?thesis using ok db'(2) by (simp add: sales_ok_def orders_sealed_def)
  qed
  ultimately show ?thesis using ok by (simp add: sales_ok_def db'(2,3))
qed

lemma saved_session_ok:
  assumes "sales_ok sha db" "s \<in> set (sd_sessions db)" "session_save None s' (sd_sessions db) = Inr rows"
    and "ss_id s' = ss_id s" "ss_key s' = ss_key s" "ss_channel s' = ss_channel s"
    and "ss_state s = ''committed'' \<longrightarrow> ss_state s' = ''committed''"
    and "sd_sessions db' = rows" "sd_orders db' = sd_orders db" "sd_idem db' = sd_idem db"
  shows "sales_ok sha db'"
proof -
  have "sessions_ok (sd_sessions db)" using assms(1) by (simp add: sales_ok_def)
  then have "row_get ss_id (ss_id s') (sd_sessions db) = Some s"
    using assms(2,4) by (simp add: sessions_ok_def row_get_Some_iff)
  from session_save_full [OF assms(3) this] have "rows = row_put ss_id s' (sd_sessions db)" by simp
  with assms show ?thesis by (intro sales_ok_session_put [OF assms(1,2)]) simp_all
qed

lemma opened_ok:
  assumes "sales_ok sha db" "create_session_row s (sd_sessions db) = Inr rows"
    "ss_id s \<notin> ss_id ` set (sd_sessions db)"
  shows "sales_ok sha (db\<lparr>sd_sessions := rows, sd_lines := ls\<rparr>)"
proof -
  from assms(2) have rows: "rows = sd_sessions db @ [s]" and c: "session_constraints s (sd_sessions db)"
    by (auto simp: create_session_row_def ebind_Inr split: if_splits)
  have "sessions_ok rows"
    using assms(1,3) c by (auto simp: rows sales_ok_def sessions_ok_def session_constraints_def)
  then show ?thesis using assms(1) by (fastforce simp: sales_ok_def orders_sealed_def rows)
qed

lemma modified_ok:
  assumes "sales_ok sha db" "modifiers_keep_session env"
    "modify_session env rules ctx now gen skey ch ops expected db = Inr (v, db')"
  shows "sales_ok sha db' \<and> sd_orders db' = sd_orders db"
proof -
  have sok: "sessions_ok (sd_sessions db)" using assms(1) by (simp add: sales_ok_def)
  obtain s where s: "session_by_key skey ch db = Some s" "ss_state s \<noteq> ''committed''"
    "session_by_key skey ch db' = Some (lv_row v)" "ss_id (lv_row v) = ss_id s"
    "sd_sessions db' = row_put ss_id (lv_row v) (sd_sessions db)"
    "sd_orders db' = sd_orders db" "sd_idem db' = sd_idem db"
    by (rule modify_session_Inr [OF sok assms(2,3)])
  have "ss_key (lv_row v) = ss_key s" "ss_channel (lv_row v) = ss_channel s" "s \<in> set (sd_sessions db)"
    using session_by_key_Some [OF s(1)] session_by_key_Some [OF s(3)] by auto
  with s show ?thesis by (intro conjI sales_ok_session_put [OF assms(1), of s "lv_row v"]) simp_all
qed

lemma moved_ok:
  assumes ok: "sales_ok sha db" and run: "move_lines gen from_key to_key ch ids db = Inr db'"
  shows "sales_ok sha db' \<and> sd_orders db' = sd_orders db"
proof -
  from run obtain src tgt where src: "session_by_key from_key ch db = Some src"
    and tgt: "session_by_key to_key ch db = Some tgt"
    by (auto simp: move_lines_def movable_def ebind_Inr split: if_splits option.splits)
  obtain a b sn tn rows1 rows2 where ne: "from_key \<noteq> to_key"
    and s1: "session_save None (src\<lparr>ss_rev := ss_rev src + 1, ss_pricing := structural_total sn (ss_pricing src)\<rparr>) (sd_sessions db) = Inr rows1"
    and s2: "session_save None (tgt\<lparr>ss_rev := ss_rev tgt + 1, ss_pricing := structural_total tn (ss_pricing tgt)\<rparr>) rows1 = Inr rows2"
    and db': "db' = db\<lparr>sd_sessions := rows2, sd_lines := (sd_lines db)(ss_id src := a, ss_id tgt := b)\<rparr>"
    by (rule move_lines_Inr [OF run src tgt])
  let ?db1 = "db\<lparr>sd_sessions := rows1\<rparr>"
  have ok1: "sales_ok sha ?db1"
    using session_by_key_Some [OF src] by (intro saved_session_ok [OF ok _ s1]) auto
  have sok: "sessions_ok (sd_sessions db)" using ok by (simp add: sales_ok_def)
  have "rows1 = row_put ss_id (src\<lparr>ss_rev := ss_rev src + 1, ss_pricing := structural_total sn (ss_pricing src)\<rparr>) (sd_sessions db)"
    using session_save_full [OF s1] session_get [OF sok src] by simp
  moreover have "ss_id tgt \<noteq> ss_id src"
    using ne session_by_key_Some [OF src] session_by_key_Some [OF tgt] same_session [OF sok] by auto
  ultimately have "tgt \<in> set rows1" using session_by_key_Some [OF tgt] by (simp add: set_row_put)
  then have t1: "tgt \<in> set (sd_sessions ?db1)" by simp
  have s2': "session_save None (tgt\<lparr>ss_rev := ss_rev tgt + 1, ss_pricing := structural_total tn (ss_pricing tgt)\<rparr>)
    (sd_sessions ?db1) = Inr rows2" using s2 by simp
  have "sales_ok sha db'" by (rule saved_session_ok [OF ok1 t1 s2']) (simp_all add: db')
  then show ?thesis by (simp add: db')
qed

lemma checked_ok:
  assumes ok: "sales_ok sha db" and run: "apply_check_result stamp skey ch n code payload issues db = Inr (done, db')"
  shows "sales_ok sha db' \<and> sd_orders db' = sd_orders db"
proof (cases "db' = db")
  case True
  with ok show ?thesis by simp
next
  case False
  with run obtain s d rows where s: "session_by_key skey ch db = Some s"
    and sv: "session_save None (s\<lparr>ss_data := d\<rparr>) (sd_sessions db) = Inr rows"
    and db': "db' = db\<lparr>sd_sessions := rows\<rparr>"
    by (auto simp: apply_check_result_def ebind_Inr Let_def split: option.splits if_splits)
  have "sales_ok sha db'"
    using session_by_key_Some [OF s] by (intro saved_session_ok [OF ok _ sv]) (auto simp: db')
  then show ?thesis by (simp add: db')
qed

section \<open>Orders that move on\<close>

lemma order_step_ids:
  assumes "od_ok db" "order_step op db = Inr db'" "\<nexists>r items actor payload. op = Place r items actor payload"
  shows "or_id ` set (od_orders db') = or_id ` set (od_orders db)"
proof (cases op)
  case (Place r items actor payload)
  with assms(3) show ?thesis by blast
next
  case (Move_status oid new actor now)
  with assms order_ids_move show ?thesis by simp
next
  case (Emit oid etype actor payload)
  with assms emit_sound show ?thesis by (simp split: if_splits)
next
  case (Edit upd w)
  with assms order_ids_edit show ?thesis by simp
qed

lemma order_step_seals:
  assumes ok: "od_ok db" and run: "order_step op db = Inr db'"
    and np: "\<nexists>r items actor payload. op = Place r items actor payload"
  shows "(\<forall>r \<in> set (od_orders db). \<exists>r' \<in> set (od_orders db'). or_id r' = or_id r \<and> seal_of r' = seal_of r)
    \<and> (\<forall>r' \<in> set (od_orders db'). \<exists>r \<in> set (od_orders db). or_id r' = or_id r \<and> seal_of r' = seal_of r)"
proof -
  from order_step_sound [OF ok run] have ok': "od_ok db'" and adv: "advances db db'" by auto
  have fwd: "\<forall>r \<in> set (od_orders db). \<exists>r' \<in> set (od_orders db'). or_id r' = or_id r \<and> seal_of r' = seal_of r"
    using adv unfolding advances_def went_def by blast
  moreover have "\<exists>r \<in> set (od_orders db). or_id r' = or_id r \<and> seal_of r' = seal_of r" if r': "r' \<in> set (od_orders db')" for r'
  proof -
    from r' order_step_ids [OF ok run np] obtain r where r: "r \<in> set (od_orders db)" "or_id r = or_id r'"
      by (metis imageE imageI)
    with fwd obtain q where q: "q \<in> set (od_orders db')" "or_id q = or_id r" "seal_of q = seal_of r" by blast
    have "distinct (map or_id (od_orders db'))" using ok' by (simp add: od_ok_def orders_ok_def)
    with q r r' have "q = r'" by (metis distinct_map inj_onD)
    with q r show ?thesis by metis
  qed
  ultimately show ?thesis by blast
qed

lemma order_went_ok:
  assumes ok: "sales_ok sha db" and run: "order_step op (sd_orders db) = Inr odb"
    and np: "\<nexists>r items actor payload. op = Place r items actor payload"
  shows "sales_ok sha (db\<lparr>sd_orders := odb\<rparr>) \<and> orders_stay db (db\<lparr>sd_orders := odb\<rparr>)"
proof -
  have ook: "od_ok (sd_orders db)" using ok by (simp add: sales_ok_def)
  note seals = order_step_seals [OF ook run np]
  have ook': "od_ok odb" using order_step_sound [OF ook run] by simp
  have dis: "distinct (map or_id (od_orders odb))" using ook' by (simp add: od_ok_def orders_ok_def)
  have stay: "orders_stay db (db\<lparr>sd_orders := odb\<rparr>)" using seals by (simp add: orders_stay_def)
  have sealed: "orders_sealed (db\<lparr>sd_orders := odb\<rparr>)"
    unfolding orders_sealed_def
  proof (intro conjI ballI impI)
    fix r' assume r': "r' \<in> set (od_orders (sd_orders (db\<lparr>sd_orders := odb\<rparr>)))"
    with seals obtain r where r: "r \<in> set (od_orders (sd_orders db))" "seal_of r' = seal_of r" by auto
    with ok obtain s where "s \<in> set (sd_sessions db)" "order_of_key r (ss_key s) (ss_channel s)" "ss_state s = ''committed''"
      by (auto simp: sales_ok_def orders_sealed_def)
    with r show "\<exists>s \<in> set (sd_sessions (db\<lparr>sd_orders := odb\<rparr>)). order_of_key r' (ss_key s) (ss_channel s) \<and> ss_state s = ''committed''"
      by (auto simp: order_of_key_def seal_of_iff)
    fix q' assume q': "q' \<in> set (od_orders (sd_orders (db\<lparr>sd_orders := odb\<rparr>)))"
      and k: "order_of_key q' (or_session_key r') (or_channel_ref r')"
    from q' seals obtain q where q: "q \<in> set (od_orders (sd_orders db))" "or_id q' = or_id q" "seal_of q' = seal_of q" by auto
    from r' seals obtain p where p: "p \<in> set (od_orders (sd_orders db))" "or_id r' = or_id p" "seal_of r' = seal_of p" by auto
    have "order_of_key q (or_session_key p) (or_channel_ref p)"
      using k p(3) q(3) by (simp add: order_of_key_def seal_of_iff)
    with ok p q have "q = p" by (auto simp: sales_ok_def orders_sealed_def)
    with p q have "or_id q' = or_id r'" by simp
    with dis q' r' show "q' = r'" by (auto simp: distinct_map inj_on_def)
  qed
  have "\<forall>k \<in> set (sd_idem db). receipt_ok sha (od_orders odb) k"
    using ok receipt_ok_stay [OF _ stay] by (auto simp: sales_ok_def)
  with ok ook' sealed stay show ?thesis by (simp add: sales_ok_def)
qed

section \<open>Commits\<close>

lemma idem_get_Some: "idem_get scope key rows = Some k \<Longrightarrow> k \<in> set rows \<and> ik_scope k = scope \<and> ik_key k = key"
  by (auto simp: idem_get_def find_Some_iff)

lemma idem_get_put: "idem_get scope key rows = Some x \<Longrightarrow> ik_scope k = scope \<Longrightarrow> ik_key k = key \<Longrightarrow>
    idem_get scope key (idem_put k rows) = Some k"
  by (induction rows) (auto simp: idem_get_def idem_put_def split: if_splits)

lemma in_idem_put: "x \<in> set (idem_put k rows) \<Longrightarrow> x = k \<or> x \<in> set rows"
  unfolding idem_put_def by (auto dest: set_row_put [THEN equalityD1, THEN subsetD] split: if_splits)

lemma acquire_Acquired:
  assumes "acquire_idempotency_lock now scope key seen rows = Inr (Acquired k rows')"
  shows "ik_scope k = scope \<and> ik_key k = key \<and> ik_status k = ''in_progress''
    \<and> idem_get scope key rows' = Some k \<and> (\<forall>x \<in> set rows'. x = k \<or> x \<in> set rows)"
proof (cases "idem_get scope key rows")
  case None
  then have "idem_get scope key (rows @ [k]) = Some k" if "ik_scope k = scope" "ik_key k = key"
    using that by (induction rows) (auto simp: idem_get_def split: if_splits)
  with None assms show ?thesis by (auto simp: acquire_idempotency_lock_def Let_def)
next
  case (Some x)
  have "rows' = idem_put k rows" "ik_scope k = scope" "ik_key k = key" "ik_status k = ''in_progress''"
    using assms Some idem_get_Some [OF Some]
    by (auto simp: acquire_idempotency_lock_def Let_def split: if_splits option.splits)
  with idem_get_put [OF Some] show ?thesis by (auto dest: in_idem_put)
qed

lemma acquire_Cache_hit:
  assumes "acquire_idempotency_lock now scope key seen rows = Inr (Cache_hit r)"
  shows "\<exists>k resp. idem_get scope key rows = Some k \<and> ik_status k = ''done'' \<and> ik_response k = Some resp
    \<and> r = result_of_response resp"
  using assms by (auto simp: acquire_idempotency_lock_def Let_def split: option.splits if_splits)

text \<open>The order a result names, among the orders of its session.\<close>

definition names_order :: "commit_result \<Rightarrow> string \<Rightarrow> string \<Rightarrow> sales \<Rightarrow> bool" where
  "names_order r skey ch db \<longleftrightarrow> (\<exists>ord \<in> set (od_orders (sd_orders db)). order_of_key ord skey ch
     \<and> or_ref ord = cr_order_ref r \<and> or_total_q ord = cr_total_q r)"

lemma do_commit_ok:
  assumes ok: "sales_ok sha db" and run: "do_commit env clk cfg ctx sl refs skey ch key before db = Inr (r, db')"
  shows "sales_ok sha db' \<and> orders_stay db db' \<and> names_order r skey ch db' \<and> sd_idem db' = sd_idem db"
proof -
  obtain s where s: "session_by_key skey ch db = Some s" using do_commit_session [OF run] by blast
  from ok have ook: "od_ok (sd_orders db)" and sok: "sessions_ok (sd_sessions db)" by (simp_all add: sales_ok_def)
  show ?thesis
  proof (cases "ss_state s = ''committed''")
    case True
    obtain ord where o: "order_of_session skey ch (sd_orders db) = Some ord" "cr_order_ref r = or_ref ord"
      "cr_total_q r = or_total_q ord" "db' = db"
      by (rule do_commit_closed [OF run s True])
    from latest_Some [OF o(1) [unfolded order_of_session_def]]
    have "ord \<in> set (od_orders (sd_orders db))" "order_of_key ord skey ch" by (auto simp: order_of_key_def)
    with o ok show ?thesis by (auto simp: names_order_def intro: orders_stay_same)
  next
    case False
    obtain commitment where "seal_order env clk cfg ctx sl refs skey ch key s (sd_lines db (ss_id s)) commitment db = Inr (r, db')"
      by (rule do_commit_open [OF run s False])
    from this obtain ord s' where o: "od_orders (sd_orders db') = od_orders (sd_orders db) @ [ord]"
      and fresh: "or_id ord \<notin> or_id ` set (od_orders (sd_orders db))" and okd: "od_ok (sd_orders db')"
      and f: "or_session_key ord = skey" "or_channel_ref ord = ch" "cr_order_ref r = or_ref ord" "cr_total_q r = or_total_q ord"
      and ss: "sd_sessions db' = row_put ss_id s' (sd_sessions db)"
        "s' = s\<lparr>ss_state := ''committed'', ss_committed_at := Some (ce_now clk), ss_commit_token := Some key\<rparr>"
      and sokd: "sessions_ok (sd_sessions db')" and idem: "sd_idem db' = sd_idem db"
      by (rule seal_order_Inr [OF ook sok s])
    have key: "s \<in> set (sd_sessions db)" "ss_key s = skey" "ss_channel s = ch" using session_by_key_Some [OF s] by auto
    have stay: "orders_stay db db'" using o by (auto simp: orders_stay_def)
    let ?db1 = "db\<lparr>sd_sessions := sd_sessions db'\<rparr>"
    have ok1: "sales_ok sha ?db1"
      using ss by (intro sales_ok_session_put [OF ok key(1), of s']) simp_all
    have none: "\<not> order_of_key q skey ch" if q: "q \<in> set (od_orders (sd_orders db))" for q
    proof
      assume k: "order_of_key q skey ch"
      from ok q obtain t where t: "t \<in> set (sd_sessions db)" "order_of_key q (ss_key t) (ss_channel t)" "ss_state t = ''committed''"
        by (auto simp: sales_ok_def orders_sealed_def)
      with k key have "session_by_key skey ch db = Some t"
        using session_by_key_iff [OF sok, of skey ch t] by (auto simp: order_of_key_def)
      with s t False show False by simp
    qed
    have "s' \<in> set (sd_sessions db')"
      using ss key(1) key_mem [of s "sd_sessions db" ss_id "ss_id s"] by (simp add: set_row_put)
    then have home: "\<exists>t \<in> set (sd_sessions db'). order_of_key ord (ss_key t) (ss_channel t) \<and> ss_state t = ''committed''"
      using ss(2) key f by (intro bexI [of _ s']) (auto simp: order_of_key_def)
    have "orders_sealed db'"
      using ok1 home none f unfolding orders_sealed_def sales_ok_def o
      by (fastforce simp: order_of_key_def)
    moreover have "\<forall>k \<in> set (sd_idem db'). receipt_ok sha (od_orders (sd_orders db')) k"
      using ok receipt_ok_stay [OF _ stay] by (auto simp: sales_ok_def idem)
    ultimately have "sales_ok sha db'" using okd sokd by (simp add: sales_ok_def)
    moreover have "names_order r skey ch db'" using o f by (simp add: names_order_def order_of_key_def)
    ultimately show ?thesis using stay idem by simp
  qed
qed

lemma commit_ok:
  assumes ok: "sales_ok sha db" and sha: "ce_sha256 clk = sha"
    and run: "commit env clk cfg ctx sl refs skey ch key seen before db = (res, db')"
  shows "sales_ok sha db' \<and> orders_stay db db'"
proof -
  let ?scope = "idempotency_scope (ce_sha256 clk) skey ch"
  let ?atomic = "commit_atomic env clk cfg ctx sl refs skey ch key seen before db"
  show ?thesis
  proof (cases ?atomic)
    case (Inl e)
    have fr: "receipt_ok sha os k" if "k \<in> set (failed_receipt ?scope key (sd_idem db))" "k \<notin> set (sd_idem db)" for os k
      using that by (auto simp: failed_receipt_def receipt_ok_def split: if_splits)
    from run Inl have db': "db' = db\<lparr>sd_idem := failed_receipt ?scope key (sd_idem db)\<rparr>" by (simp add: commit_def)
    have "sales_ok sha db'"
      using ok fr by (auto simp: sales_ok_def orders_sealed_def db')
    then show ?thesis by (simp add: db' orders_stay_def) blast
  next
    case (Inr x)
    with run obtain r where at: "?atomic = Inr (r, db')" by (cases x) (auto simp: commit_def)
    then obtain got where got: "acquire_idempotency_lock (ce_now clk) ?scope key seen (sd_idem db) = Inr got"
      by (auto simp: commit_atomic_def ebind_Inr)
    show ?thesis
    proof (cases got)
      case (Cache_hit c)
      with at got have "db' = db" by (simp add: commit_atomic_def)
      with ok show ?thesis by (simp add: orders_stay_same)
    next
      case (Acquired k rows)
      let ?db0 = "db\<lparr>sd_idem := rows\<rparr>"
      from acquire_Acquired got Acquired have k: "ik_scope k = ?scope" "ik_status k = ''in_progress''"
        "\<forall>x \<in> set rows. x = k \<or> x \<in> set (sd_idem db)" by blast+
      have ok0: "sales_ok sha ?db0"
        using ok k by (auto simp: sales_ok_def orders_sealed_def receipt_ok_def)
      from at got Acquired obtain db1 where dc: "do_commit env clk cfg ctx sl refs skey ch key before ?db0 = Inr (r, db1)"
        and db': "db' = db1\<lparr>sd_idem := idem_put (k\<lparr>ik_status := ''done'', ik_response := Some (response_of_result r)\<rparr>) (sd_idem db1)\<rparr>"
        by (auto simp: commit_atomic_def ebind_Inr)
      note d = do_commit_ok [OF ok0 dc]
      have new: "receipt_ok sha (od_orders (sd_orders db1)) (k\<lparr>ik_status := ''done'', ik_response := Some (response_of_result r)\<rparr>)"
        using d k(1) sha by (auto simp: receipt_ok_def names_order_def response_of_result_def order_of_key_def)
      have "sales_ok sha db'"
        using d new unfolding db' by (auto simp: sales_ok_def orders_sealed_def dest!: in_idem_put)
      moreover have "orders_stay db db'" using d by (simp add: db' orders_stay_def)
      ultimately show ?thesis by blast
    qed
  qed
qed

end
