(* ===== verification/OrderCommitProps.thy ===== *)
theory OrderCommitProps
  imports OrderCommitRuns
begin

text \<open>
  Properties of the commit: the order is what was reviewed, a receipt is answered again
  without effect, a session yields one order for ever, and a modified session cannot be
  committed on old checks.
\<close>

section \<open>What is sealed\<close>

text \<open>C7: A commit that seals an open session appends exactly one new order, with the reviewed
  revision and the reviewed total: the total of the order, of its items and of the answer is the
  sum of the lines and equals the seal; every required check was made at this revision, no issue
  blocks, there is at least one line, the items are copied line by line, and the session is
  committed.\<close>

theorem commit_seals_review:
  assumes "od_ok (sd_orders db)" "sessions_ok (sd_sessions db)"
    and "session_by_key skey ch db = Some s" "ss_state s \<noteq> ''committed''"
    and "do_commit env clk cfg ctx sl refs skey ch key before db = Inr (r, db')"
  shows "\<exists>ord. od_orders (sd_orders db') = od_orders (sd_orders db) @ [ord]
      \<and> or_session_key ord = skey \<and> or_channel_ref ord = ch \<and> or_status ord = ''new''
      \<and> cr_order_ref r = or_ref ord \<and> cr_total_q r = or_total_q ord \<and> or_total_q ord = sl_total_q sl
      \<and> od_items (sd_orders db') = od_items (sd_orders db) @ map (order_item_of (or_id ord)) (sd_lines db (ss_id s))
      \<and> sum_list (map (\<lambda>i. oi_line_total_q (order_item_of (or_id ord) i)) (sd_lines db (ss_id s))) = or_total_q ord
      \<and> sd_lines db (ss_id s) \<noteq> [] \<and> ss_rev s = sl_revision sl
      \<and> (\<forall>code \<in> set (cc_checks cfg). \<exists>checks check. as_object (dget (ss_data s) ''checks'') = Inr checks
           \<and> dget checks code = Some check \<and> jget ''rev'' check = Some (JNum (ss_rev s)))
      \<and> (\<exists>issues. as_array (dget (ss_data s) ''issues'') = Inr issues \<and> \<not> (\<exists>i \<in> set issues. blocking i))
      \<and> (\<exists>s'. session_by_key skey ch db' = Some s' \<and> ss_state s' = ''committed'' \<and> ss_rev s' = ss_rev s)"
proof -
  obtain commitment where f: "commit_fences env clk cfg ctx sl ch s (sd_lines db (ss_id s)) = Inr commitment"
    and so: "seal_order env clk cfg ctx sl refs skey ch key s (sd_lines db (ss_id s)) commitment db = Inr (r, db')"
    by (rule do_commit_open [OF assms(5,3,4)])
  note fence = commit_fences_Inr [OF f]
  then obtain checks where c: "as_object (dget (ss_data s) ''checks'') = Inr checks"
    "checks_fresh clk (ss_rev s) checks (cc_checks cfg) = Inr ()" by blast
  obtain ord s' where o: "od_orders (sd_orders db') = od_orders (sd_orders db) @ [ord]"
    "or_session_key ord = skey" "or_channel_ref ord = ch" "or_status ord = ''new''"
    "or_total_q ord = lines_total (sd_lines db (ss_id s))" "cr_order_ref r = or_ref ord" "cr_total_q r = or_total_q ord"
    "od_items (sd_orders db') = od_items (sd_orders db) @ map (order_item_of (or_id ord)) (sd_lines db (ss_id s))"
    and ss: "sd_sessions db' = row_put ss_id s' (sd_sessions db)"
      "s' = s\<lparr>ss_state := ''committed'', ss_committed_at := Some (ce_now clk), ss_commit_token := Some key\<rparr>"
    and sok: "sessions_ok (sd_sessions db')"
    by (rule seal_order_Inr [OF assms(1,2,3) so])
  note key = session_by_key_Some [OF assms(3)]
  have "s' \<in> set (sd_sessions db')"
    using ss key key_mem [of s "sd_sessions db" ss_id "ss_id s"] by (simp add: set_row_put)
  then have "session_by_key skey ch db' = Some s'"
    using session_by_key_iff [OF sok, of skey ch s'] key ss(2) by simp
  moreover have "\<forall>code \<in> set (cc_checks cfg). \<exists>checks check. as_object (dget (ss_data s) ''checks'') = Inr checks
      \<and> dget checks code = Some check \<and> jget ''rev'' check = Some (JNum (ss_rev s))"
    using checks_fresh_Inr [OF c(2)] c(1) by blast
  moreover have "sum_list (map (\<lambda>i. oi_line_total_q (order_item_of (or_id ord) i)) (sd_lines db (ss_id s))) = or_total_q ord"
    using o(5) by (simp add: order_item_of_def lines_total_def)
  moreover have "\<exists>issues. as_array (dget (ss_data s) ''issues'') = Inr issues \<and> \<not> (\<exists>i \<in> set issues. blocking i)"
    using fence by blast
  moreover have "sd_lines db (ss_id s) \<noteq> []" "ss_rev s = sl_revision sl" "or_total_q ord = sl_total_q sl"
    "ss_state s' = ''committed''" "ss_rev s' = ss_rev s"
    using fence o(5) ss(2) by simp_all
  ultimately show ?thesis
    using o(1-4,6-8) by (intro exI [of _ ord] conjI) blast+
qed

text \<open>The comanda of the cafe, reviewed at revision 3 for 1250 and closed.\<close>

definition cafe_clock :: commit_clock where
  "cafe_clock = \<lparr>ce_sha256 = (\<lambda>_. replicate 64 CHR ''f''), ce_now = 100, ce_now_iso = [],
     ce_iso = (\<lambda>_. None), ce_is_future = (\<lambda>_. None), ce_reminder_at = (\<lambda>_. None)\<rparr>"

definition cafe_config :: commit_config where
  "cafe_config = \<lparr>cc_checks = [], cc_lifecycle = JObj [], cc_ref_prefix = []\<rparr>"

definition cafe_seal :: seal where
  "cafe_seal = \<lparr>sl_revision = 3, sl_total_q = 1250, sl_authority = ''operator_reviewed''\<rparr>"

definition cafe_ref :: "nat \<Rightarrow> string" where
  "cafe_ref k = ''PDV-A17''"

abbreviation cafe_commit :: "sales \<Rightarrow> oerror + (commit_result \<times> sales)" where
  "cafe_commit db \<equiv> do_commit bare_env cafe_clock cafe_config [] cafe_seal cafe_ref ''T1'' ''pdv'' ''IDEM-1''
     (session_by_key ''T1'' ''pdv'' db) db"

theorem commit_seals_review_witness:
  "\<exists>r db' ord. cafe_commit cafe = Inr (r, db') \<and> od_orders (sd_orders db') = [ord]
     \<and> or_total_q ord = 1250 \<and> cr_total_q r = 1250"
proof -
  have "\<not> isl (cafe_commit cafe)" by code_simp
  then obtain r db' where run: "cafe_commit cafe = Inr (r, db')" by (cases "cafe_commit cafe") auto
  have ok: "od_ok (sd_orders cafe)" "od_orders (sd_orders cafe) = []"
    by (simp_all add: cafe_def no_orders_def od_ok_def orders_ok_def)
  have st: "ss_state (comanda 1 ''T1'' []) \<noteq> ''committed''" "sl_total_q cafe_seal = 1250"
    by (simp_all add: comanda_def cafe_seal_def)
  from commit_seals_review [OF ok(1) cafe_facts(1,2) st(1) run] ok(2) st(2) run show ?thesis by fastforce
qed

section \<open>Receipts\<close>

lemma do_commit_idem:
  "do_commit env clk cfg ctx sl refs skey ch key before db = Inr (r, db') \<Longrightarrow> sd_idem db' = sd_idem db"
  by (auto simp: do_commit_def seal_order_def ebind_Inr Let_def split: option.splits if_splits)

lemma result_of_response_of [simp]: "result_of_response (response_of_result r) = r"
  by (simp add: result_of_response_def response_of_result_def)

lemma commit_receipt:
  assumes "commit env clk cfg ctx sl refs skey ch key seen before db = (Inr r, db')"
  shows "\<exists>k resp. idem_get (idempotency_scope (ce_sha256 clk) skey ch) key (sd_idem db') = Some k
    \<and> ik_status k = ''done'' \<and> ik_response k = Some resp \<and> r = result_of_response resp"
proof -
  let ?scope = "idempotency_scope (ce_sha256 clk) skey ch"
  from assms have at: "commit_atomic env clk cfg ctx sl refs skey ch key seen before db = Inr (r, db')"
    by (auto simp: commit_def split: sum.splits)
  then obtain got where got: "acquire_idempotency_lock (ce_now clk) ?scope key seen (sd_idem db) = Inr got"
    by (auto simp: commit_atomic_def ebind_Inr)
  show ?thesis
  proof (cases got)
    case (Cache_hit c)
    with at got have "db' = db" "c = r" by (auto simp: commit_atomic_def)
    with acquire_Cache_hit got Cache_hit show ?thesis by blast
  next
    case (Acquired k rows)
    from acquire_Acquired got Acquired have k: "ik_scope k = ?scope" "ik_key k = key" "idem_get ?scope key rows = Some k"
      by blast+
    from at got Acquired obtain db1 where dc: "do_commit env clk cfg ctx sl refs skey ch key before (db\<lparr>sd_idem := rows\<rparr>) = Inr (r, db1)"
      and db': "db' = db1\<lparr>sd_idem := idem_put (k\<lparr>ik_status := ''done'', ik_response := Some (response_of_result r)\<rparr>) (sd_idem db1)\<rparr>"
      by (auto simp: commit_atomic_def ebind_Inr)
    have "sd_idem db1 = rows" using do_commit_idem [OF dc] by simp
    with idem_get_put [OF k(3), of "k\<lparr>ik_status := ''done'', ik_response := Some (response_of_result r)\<rparr>"] k
    show ?thesis
      by (intro exI [of _ "k\<lparr>ik_status := ''done'', ik_response := Some (response_of_result r)\<rparr>"]
          exI [of _ "response_of_result r"]) (simp add: db')
  qed
qed

text \<open>C28: A commit that answered is answered again with the same result when it is repeated with
  the same key for the same session, whatever seal, context, configuration and time the
  repetition carries, and the repetition changes nothing.\<close>

theorem commit_replay:
  assumes "commit env clk cfg ctx sl refs skey ch key seen before db = (Inr r, db')"
    and "ce_sha256 clk2 = ce_sha256 clk"
  shows "commit env2 clk2 cfg2 ctx2 sl2 refs2 skey ch key seen2 before2 db' = (Inr r, db')"
proof -
  obtain k resp where k: "idem_get (idempotency_scope (ce_sha256 clk) skey ch) key (sd_idem db') = Some k"
    "ik_status k = ''done''" "ik_response k = Some resp" "r = result_of_response resp"
    using commit_receipt [OF assms(1)] by blast
  then have "acquire_idempotency_lock (ce_now clk2) (idempotency_scope (ce_sha256 clk2) skey ch) key seen2 (sd_idem db')
      = Inr (Cache_hit r)"
    using assms(2) by (simp add: acquire_idempotency_lock_def)
  then show ?thesis by (simp add: commit_def commit_atomic_def)
qed

abbreviation cafe_close :: "string \<Rightarrow> seal \<Rightarrow> sales \<Rightarrow> (oerror + commit_result) \<times> sales" where
  "cafe_close key sl db \<equiv> commit bare_env cafe_clock cafe_config [] sl cafe_ref ''T1'' ''pdv'' key []
     (session_by_key ''T1'' ''pdv'' db) db"

theorem commit_replay_witness:
  "\<exists>r db'. cafe_close ''IDEM-1'' cafe_seal cafe = (Inr r, db')
     \<and> cafe_close ''IDEM-1'' (cafe_seal\<lparr>sl_total_q := 1\<rparr>) db' = (Inr r, db')"
proof -
  have "\<not> isl (fst (cafe_close ''IDEM-1'' cafe_seal cafe))" by code_simp
  then obtain r db' where run: "cafe_close ''IDEM-1'' cafe_seal cafe = (Inr r, db')"
    by (cases "cafe_close ''IDEM-1'' cafe_seal cafe"; cases "fst (cafe_close ''IDEM-1'' cafe_seal cafe)") auto
  from commit_replay [OF this refl] run show ?thesis by blast
qed


section \<open>One order per session\<close>

lemma sales_ok_init: "sales_ok sha sales_init"
  by (simp add: sales_ok_def sales_init_def order_init_def sessions_ok_def od_ok_def orders_ok_def orders_sealed_def
      in_sequence_def events_of_def)

lemma sales_step_ok: "sales_step sha db db' \<Longrightarrow> sales_ok sha db \<Longrightarrow> sales_ok sha db' \<and> orders_stay db db'"
proof (induction rule: sales_step.induct)
  case (opened s db rows)
  then show ?case using opened_ok [OF _ opened(1,2)] by (simp add: orders_stay_same)
next
  case (modified env rules ctx now gen skey ch ops expected db v db')
  then show ?case using modified_ok by (blast intro: orders_stay_same)
next
  case (moved_lines gen from_key to_key ch ids db db')
  then show ?case using moved_ok by (blast intro: orders_stay_same)
next
  case (checked stamp skey ch n code payload issues db done' db')
  then show ?case using checked_ok by (blast intro: orders_stay_same)
next
  case (committed clk env cfg ctx sl refs skey ch key seen before db res db')
  then show ?case using commit_ok by blast
next
  case (abandoned skey ch db s rows)
  have "s \<in> set (sd_sessions db)" using session_by_key_Some [OF abandoned(1)] by simp
  from saved_session_ok [OF abandoned(4) this abandoned(3), of "db\<lparr>sd_sessions := rows\<rparr>"] abandoned(2)
  show ?case by (simp add: orders_stay_same)
next
  case (order_went op db odb)
  then show ?case using order_went_ok by blast
qed

lemma sales_run_ok: "(sales_step sha)\<^sup>*\<^sup>* db db' \<Longrightarrow> sales_ok sha db \<Longrightarrow> sales_ok sha db' \<and> orders_stay db db'"
proof (induction rule: rtranclp_induct)
  case base
  then show ?case by (simp add: orders_stay_same)
next
  case (step y z)
  then show ?case using sales_step_ok orders_stay_trans by blast
qed

definition scope_unique :: "(string \<Rightarrow> string) \<Rightarrow> string \<Rightarrow> string \<Rightarrow> bool" where
  "scope_unique sha skey ch \<longleftrightarrow> (\<forall>s c. idempotency_scope sha s c = idempotency_scope sha skey ch \<longrightarrow> s = skey \<and> c = ch)"

text \<open>Every answer of the commit, fresh, repeated or for a session already sealed, names an order
  of the session.\<close>

lemma commit_names_order:
  assumes ok: "sales_ok (ce_sha256 clk) db" and uniq: "scope_unique (ce_sha256 clk) skey ch"
    and run: "commit env clk cfg ctx sl refs skey ch key seen before db = (Inr r, db')"
  shows "names_order r skey ch db'"
proof -
  let ?scope = "idempotency_scope (ce_sha256 clk) skey ch"
  obtain k resp where k: "idem_get ?scope key (sd_idem db') = Some k" "ik_status k = ''done''"
    "ik_response k = Some resp" "r = result_of_response resp"
    using commit_receipt [OF run] by blast
  obtain ref st tot n where resp: "resp = (ref, st, tot, n)" by (cases resp)
  have "sales_ok (ce_sha256 clk) db'" using commit_ok [OF ok refl run] by blast
  then have "receipt_ok (ce_sha256 clk) (od_orders (sd_orders db')) k"
    using idem_get_Some [OF k(1)] by (simp add: sales_ok_def)
  with k resp obtain ord where ord: "ord \<in> set (od_orders (sd_orders db'))" "or_ref ord = ref" "or_total_q ord = tot"
    "ik_scope k = idempotency_scope (ce_sha256 clk) (or_session_key ord) (or_channel_ref ord)"
    unfolding receipt_ok_def by blast
  with uniq idem_get_Some [OF k(1)] have "order_of_key ord skey ch" by (auto simp: scope_unique_def order_of_key_def)
  with ord k(4) resp show ?thesis by (auto simp: names_order_def result_of_response_def)
qed

text \<open>C1: Whatever happened before, between and after, with any keys, seals and configurations, two
  answered commits of one session name the same order with the same total, and that order is the
  only one of the session.\<close>

theorem session_has_one_order:
  assumes "(sales_step sha)\<^sup>*\<^sup>* sales_init db"
    and "commit env clk cfg ctx sl refs skey ch key seen before db = (Inr r1, db1)"
    and "(sales_step sha)\<^sup>*\<^sup>* db1 db2"
    and "commit env2 clk2 cfg2 ctx2 sl2 refs2 skey ch key2 seen2 before2 db2 = (Inr r2, db3)"
    and "ce_sha256 clk = sha" "ce_sha256 clk2 = sha" "scope_unique sha skey ch"
  shows "cr_order_ref r2 = cr_order_ref r1 \<and> cr_total_q r2 = cr_total_q r1
    \<and> (\<exists>!ord. ord \<in> set (od_orders (sd_orders db3)) \<and> order_of_key ord skey ch)"
proof -
  have ok: "sales_ok sha db" using sales_run_ok [OF assms(1) sales_ok_init] by blast
  with commit_ok [OF _ assms(5,2)] have ok1: "sales_ok sha db1" by blast
  note run12 = sales_run_ok [OF assms(3) ok1]
  then have ok2: "sales_ok sha db2" by blast
  from commit_ok [OF ok2 assms(6,4)] have ok3: "sales_ok sha db3" and stay23: "orders_stay db2 db3" by blast+
  from run12 stay23 have stay: "orders_stay db1 db3" by (blast intro: orders_stay_trans)
  from commit_names_order [OF _ _ assms(2)] ok assms(5,7) obtain a where
    a: "a \<in> set (od_orders (sd_orders db1))" "order_of_key a skey ch" "or_ref a = cr_order_ref r1" "or_total_q a = cr_total_q r1"
    by (auto simp: names_order_def)
  from stay a(1) obtain a' where a': "a' \<in> set (od_orders (sd_orders db3))" "seal_of a' = seal_of a"
    unfolding orders_stay_def by blast
  then have same: "order_of_key a' skey ch" "or_ref a' = cr_order_ref r1" "or_total_q a' = cr_total_q r1"
    using a by (auto simp: order_of_key_def seal_of_iff)
  from commit_names_order [OF _ _ assms(4)] ok2 assms(6,7) obtain b where
    b: "b \<in> set (od_orders (sd_orders db3))" "order_of_key b skey ch" "or_ref b = cr_order_ref r2" "or_total_q b = cr_total_q r2"
    by (auto simp: names_order_def)
  have one: "x = y" if "x \<in> set (od_orders (sd_orders db3))" "order_of_key x skey ch"
    "y \<in> set (od_orders (sd_orders db3))" "order_of_key y skey ch" for x y
    using ok3 that by (auto simp: sales_ok_def orders_sealed_def order_of_key_def)
  have "a' = b" by (rule one [OF a'(1) same(1) b(1,2)])
  with same b one show ?thesis by (metis (no_types, lifting))
qed

text \<open>A day at the counter: a tab is opened, a bread is added, and the tab is closed twice with
  different keys.\<close>

abbreviation counter_sha :: "string \<Rightarrow> string" where
  "counter_sha \<equiv> ce_sha256 cafe_clock"

definition counter_opened :: sales where
  "counter_opened = sales_init\<lparr>sd_sessions := [comanda 1 ''T1'' []], sd_lines := (sd_lines sales_init)(1 := [])\<rparr>"

definition counter_run :: "oerror + (live \<times> sales)" where
  "counter_run = modify_session bare_env no_rules [] 0 new_line_id ''T1'' ''pdv''
     [Add_line ''PAO'' (Given 2) (Given 250) Absent ''Pao'' []] (Some 3) counter_opened"

definition counter_served :: sales where
  "counter_served = (case counter_run of Inr (_, db) \<Rightarrow> db | Inl _ \<Rightarrow> sales_init)"

definition counter_seal :: seal where
  "counter_seal = \<lparr>sl_revision = 4, sl_total_q = 500, sl_authority = ''operator_reviewed''\<rparr>"

lemma counter_ran: "\<exists>v. counter_run = Inr (v, counter_served)"
proof (cases counter_run)
  case (Inl e)
  have "\<not> isl counter_run" by code_simp
  then show ?thesis unfolding Inl by simp
next
  case (Inr x)
  obtain v db where "x = (v, db)" by (cases x)
  then show ?thesis unfolding counter_served_def Inr by simp
qed

lemma counter_served_reachable: "(sales_step counter_sha)\<^sup>*\<^sup>* sales_init counter_served"
proof -
  have c: "ss_id (comanda 1 ''T1'' []) = 1" "ss_state (comanda 1 ''T1'' []) = ''open''" by (simp_all add: comanda_def)
  have "create_session_row (comanda 1 ''T1'' []) (sd_sessions sales_init) = Inr [comanda 1 ''T1'' []]"
    by (simp add: sales_init_def create_session_row_def session_constraints_def accepts_personal_data_def
        is_anonymized_def comanda_def ebind_def)
  from sales_step.opened [OF this] c have one: "sales_step counter_sha sales_init counter_opened"
    by (simp add: counter_opened_def sales_init_def)
  from counter_ran obtain v where run: "counter_run = Inr (v, counter_served)" ..
  have "modifiers_keep_session bare_env" by (simp add: modifiers_keep_session_def bare_env_def)
  from sales_step.modified [OF this run [unfolded counter_run_def]] one show ?thesis by (meson rtranclp.simps)
qed

lemma counter_scope: "scope_unique counter_sha ''T1'' ''pdv''"
  unfolding scope_unique_def
proof (intro allI impI)
  fix s c assume eq: "idempotency_scope counter_sha s c = idempotency_scope counter_sha ''T1'' ''pdv''"
  have "length (idempotency_scope counter_sha ''T1'' ''pdv'') = 13" by code_simp
  moreover have "replicate 57 CHR ''f'' \<noteq> ''pdv:T1''" by code_simp
  ultimately have "c @ '':'' @ s = ''pdv:T1''"
    using eq by (auto simp: idempotency_scope_def cafe_clock_def Let_def split: if_splits)
  then show "s = ''T1'' \<and> c = ''pdv''" by (auto simp: append_eq_Cons_conv)
qed

theorem session_has_one_order_witness:
  "\<exists>r1 db1 r2 db3. cafe_close ''IDEM-1'' counter_seal counter_served = (Inr r1, db1)
     \<and> cafe_close ''IDEM-2'' counter_seal db1 = (Inr r2, db3) \<and> cr_order_ref r2 = cr_order_ref r1
     \<and> cr_total_q r2 = cr_total_q r1"
proof -
  have "\<not> isl (fst (cafe_close ''IDEM-1'' counter_seal counter_served))" by code_simp
  then obtain r1 db1 where run1: "cafe_close ''IDEM-1'' counter_seal counter_served = (Inr r1, db1)"
    by (cases "cafe_close ''IDEM-1'' counter_seal counter_served"; cases "fst (cafe_close ''IDEM-1'' counter_seal counter_served)") auto
  have "\<not> isl (fst (cafe_close ''IDEM-2'' counter_seal (snd (cafe_close ''IDEM-1'' counter_seal counter_served))))" by code_simp
  with run1 obtain r2 db3 where run2: "cafe_close ''IDEM-2'' counter_seal db1 = (Inr r2, db3)"
    by (cases "cafe_close ''IDEM-2'' counter_seal db1"; cases "fst (cafe_close ''IDEM-2'' counter_seal db1)") auto
  from session_has_one_order [OF counter_served_reachable run1 rtranclp.rtrancl_refl run2 refl refl counter_scope] run1 run2
  show ?thesis by blast
qed

section \<open>Modified after the review\<close>

text \<open>C31: A successful modification raises the revision of the session by exactly one and empties its checks and
  its issues: whatever was checked or reviewed before, the session cannot be sealed where its channel requires a
  check, and a check result computed for the revision before the modification, or for any other than the new one,
  is refused without effect.\<close>

theorem modified_needs_checks:
  assumes "sessions_ok (sd_sessions db)" "modifiers_keep_session env" "session_by_key skey ch db = Some s0"
    and "modify_session env rules ctx now gen skey ch ops expected db = Inr (v, db')"
    and "cc_checks cfg \<noteq> []" "checked_rev \<noteq> ss_rev s0 + 1"
  shows "session_by_key skey ch db' = Some (lv_row v) \<and> ss_rev (lv_row v) = ss_rev s0 + 1
    \<and> dget (ss_data (lv_row v)) ''checks'' = Some (JObj []) \<and> dget (ss_data (lv_row v)) ''issues'' = Some (JList [])
    \<and> isl (do_commit env2 clk cfg ctx2 sl refs skey ch key before db')
    \<and> apply_check_result stamp skey ch checked_rev code payload issues db' = Inr (False, db')"
proof -
  obtain s1 where s1: "session_by_key skey ch db = Some s1"
    and s: "session_by_key skey ch db' = Some (lv_row v)" "ss_state (lv_row v) \<noteq> ''committed''"
    "dget (ss_data (lv_row v)) ''checks'' = Some (JObj [])"
    and new: "ss_rev (lv_row v) = ss_rev s1 + 1" "dget (ss_data (lv_row v)) ''issues'' = Some (JList [])"
    by (rule modify_session_Inr [OF assms(1,2,4)]) auto
  have up: "ss_rev (lv_row v) = ss_rev s0 + 1" using s1 new(1) assms(3) by simp
  have "isl (do_commit env2 clk cfg ctx2 sl refs skey ch key before db')"
  proof (cases "do_commit env2 clk cfg ctx2 sl refs skey ch key before db'")
    case (Inr x)
    then obtain r db2 where run: "do_commit env2 clk cfg ctx2 sl refs skey ch key before db' = Inr (r, db2)"
      by (cases x) auto
    obtain commitment where "commit_fences env2 clk cfg ctx2 sl ch (lv_row v) (sd_lines db' (ss_id (lv_row v))) = Inr commitment"
      by (rule do_commit_open [OF run s(1,2)])
    from commit_fences_Inr [OF this] s(3) have "checks_fresh clk (ss_rev (lv_row v)) [] (cc_checks cfg) = Inr ()"
      by (auto simp: as_object_def)
    with assms(5) show ?thesis by (cases "cc_checks cfg") simp_all
  qed simp
  moreover have "apply_check_result stamp skey ch checked_rev code payload issues db' = Inr (False, db')"
    using s(1) assms(6) up by (simp add: apply_check_result_def)
  ultimately show ?thesis using s(1,3) new(2) up by blast
qed

theorem modified_needs_checks_witness:
  "\<exists>v db'. counter_run = Inr (v, db') \<and> ss_rev (lv_row v) = 4
     \<and> isl (do_commit bare_env cafe_clock (cafe_config\<lparr>cc_checks := [''stock'']\<rparr>) [] counter_seal cafe_ref ''T1'' ''pdv'' ''IDEM-1''
         (session_by_key ''T1'' ''pdv'' db') db')
     \<and> apply_check_result [] ''T1'' ''pdv'' 3 ''stock'' [] [] db' = Inr (False, db')"
proof -
  from counter_ran obtain v db' where run: "counter_run = Inr (v, db')" by blast
  have ok: "sessions_ok (sd_sessions counter_opened)" by (simp add: counter_opened_def sessions_ok_def comanda_def)
  have keep: "modifiers_keep_session bare_env" by (simp add: modifiers_keep_session_def bare_env_def)
  have tab: "session_by_key ''T1'' ''pdv'' counter_opened = Some (comanda 1 ''T1'' [])"
    by (simp add: counter_opened_def session_by_key_def comanda_def)
  have cfg: "cc_checks (cafe_config\<lparr>cc_checks := [''stock'']\<rparr>) \<noteq> []" by simp
  have rev3: "ss_rev (comanda 1 ''T1'' []) = 3" by (simp add: comanda_def)
  then have other: "3 \<noteq> ss_rev (comanda 1 ''T1'' []) + 1" by simp
  from modified_needs_checks [OF ok keep tab run [unfolded counter_run_def] cfg other] rev3 run
  show ?thesis by fastforce
qed

end
