(* ===== verification/Craftsman.thy ===== *)
theory Craftsman
  imports Complex_Main Machines Sequences Numerals "HOL-Library.List_Lexorder" "HOL-Library.Char_ord"
begin

text \<open>
  The production kernel (\<open>packages/craftsman\<close>): recipes with their items, work orders with
  their revision, the audit log of a work order with its idempotency keys, the ledger of
  materials, and the commands plan, adjust, start, advance a step, finish and void
  (\<open>services/scheduling.py\<close>, \<open>services/execution.py\<close>).

  A command takes the state under the lock of its work order; \<open>cm_rev\<close> is the revision the
  caller saw. Quantities of a column are rationals of three places (PostgreSQL rounds what is
  written to them), quantities of a caller are decimals; the text of a quotient, the text of a
  date and of an instant are Python's (\<open>craft_env\<close>), as are the two optional backends.
\<close>

section \<open>Errors and rows\<close>

datatype craft_error =
    Craft_error string
  | Stale_revision
  | Craft_key_error
  | Craft_type_error
  | Craft_invalid_operation
  | Craft_validation
  | Craft_integrity
  | Work_order_missing

datatype wo_status = Wo_planned | Wo_started | Wo_finished | Wo_void

datatype event_kind =
    Ev_planned | Ev_planning_confirmed | Ev_adjusted | Ev_started | Ev_step_advanced
  | Ev_oven_armed | Ev_oven_concluded | Ev_oven_abandoned | Ev_shortage_overridden
  | Ev_formula_deviation | Ev_finished | Ev_quality_corrected | Ev_quality_reviewed | Ev_voided

datatype production_mode = Batch_mode | Made_to_order

datatype item_kind = Requirement | Consumption | Output | Waste

record recipe =
  re_ref :: string
  re_output_sku :: string
  re_batch_size :: rat
  re_steps :: "json list"
  re_active :: bool
  re_mode :: production_mode
  re_meta :: dict

record recipe_item =
  ri_recipe :: nat
  ri_sku :: string
  ri_quantity :: rat
  ri_usable :: rat
  ri_unit :: string
  ri_sort :: int
  ri_optional :: bool
  ri_meta :: dict

record work_order =
  wo_id :: nat
  wo_ref :: string
  wo_recipe :: nat
  wo_output_sku :: string
  wo_quantity :: rat
  wo_finished :: "rat option"
  wo_status :: wo_status
  wo_rev :: int
  wo_target :: "int option"
  wo_started_at :: "int option"
  wo_finished_at :: "int option"
  wo_source_ref :: string
  wo_position_ref :: string
  wo_operator_ref :: string
  wo_meta :: dict

record wo_event =
  we_order :: nat
  we_seq :: int
  we_kind :: event_kind
  we_payload :: dict
  we_actor :: string
  we_key :: "string option"

record wo_item =
  wi_order :: nat
  wi_kind :: item_kind
  wi_ref :: string
  wi_quantity :: rat
  wi_unit :: string
  wi_recorded_at :: int
  wi_recorded_by :: string
  wi_meta :: dict
  wi_grade :: string
  wi_defect :: string
  wi_batch :: string

text \<open>A recipe is known by its position in \<open>cr_recipes\<close>. A signal names its work order and action.\<close>

record craft =
  cr_recipes :: "recipe list"
  cr_recipe_items :: "recipe_item list"
  cr_orders :: "work_order list"
  cr_events :: "wo_event list"
  cr_items :: "wo_item list"
  cr_sequences :: "(string \<times> nat) list"
  cr_signals :: "(nat \<times> string) list"

record craft_env =
  ce_year :: "int \<Rightarrow> int"
  ce_date_text :: "int \<Rightarrow> string"
  ce_stamp_text :: "int \<Rightarrow> string"
  ce_quotient_text :: "rat \<Rightarrow> string"
  ce_demand :: "(string \<Rightarrow> int option \<Rightarrow> rat option) option"
  ce_inventory :: "((string \<times> rat \<times> string) list \<Rightarrow> bool option) option"
  ce_strict :: bool

text \<open>What every command carries; \<open>cm_attempt\<close> is \<open>attempt_payload\<close>, empty when it is not given.\<close>

record command =
  cm_rev :: "int option"
  cm_actor :: string
  cm_key :: "string option"
  cm_attempt :: dict

section \<open>Canonical values\<close>

text \<open>\<open>_canonical_attempt_value\<close>: the keys of every object in order.\<close>

primrec canonical :: "json \<Rightarrow> json" where
  "canonical JNull = JNull"
| "canonical (JBool b) = JBool b"
| "canonical (JNum n) = JNum n"
| "canonical (JStr s) = JStr s"
| "canonical (JList xs) = JList (map canonical xs)"
| "canonical (JObj kvs) = JObj (sort_key fst (map (map_prod id canonical) kvs))"

section \<open>Rows of a work order\<close>

definition order_row :: "nat \<Rightarrow> craft \<Rightarrow> work_order option" where
  "order_row pk st = row_get wo_id pk (cr_orders st)"

definition put_order :: "work_order \<Rightarrow> craft \<Rightarrow> craft" where
  "put_order o1 st = st\<lparr>cr_orders := row_put wo_id o1 (cr_orders st)\<rparr>"

definition locked_order :: "nat \<Rightarrow> craft \<Rightarrow> craft_error + work_order" where
  "locked_order pk st = (case order_row pk st of None \<Rightarrow> Inl Work_order_missing | Some o1 \<Rightarrow> Inr o1)"

definition pget :: "dict \<Rightarrow> string \<Rightarrow> json" where
  "pget d k = (case dget d k of Some v \<Rightarrow> v | None \<Rightarrow> JNull)"

text \<open>\<open>_check_rev\<close>: with an expected revision a compare and set, else an increment.\<close>

definition check_rev :: "work_order \<Rightarrow> int option \<Rightarrow> craft \<Rightarrow> craft_error + (work_order \<times> craft)" where
  "check_rev o1 expected st =
     (if (case expected of Some e \<Rightarrow> wo_rev o1 \<noteq> e | None \<Rightarrow> False) then Inl Stale_revision
      else let o2 = o1\<lparr>wo_rev := wo_rev o1 + 1\<rparr> in Inr (o2, put_order o2 st))"

definition next_seq :: "nat \<Rightarrow> craft \<Rightarrow> int" where
  "next_seq pk st = last_seq (\<lambda>e. we_order e = pk) we_seq (cr_events st) + 1"

definition add_event :: "wo_event \<Rightarrow> craft \<Rightarrow> craft_error + craft" where
  "add_event e st =
     (if (\<exists>x \<in> set (cr_events st). we_order x = we_order e \<and> we_seq x = we_seq e)
         \<or> (\<exists>x \<in> set (cr_events st). we_key x \<noteq> None \<and> we_key x = we_key e)
      then Inl Craft_integrity
      else Inr (st\<lparr>cr_events := cr_events st @ [e]\<rparr>))"

definition log_event ::
    "nat \<Rightarrow> event_kind \<Rightarrow> dict \<Rightarrow> string \<Rightarrow> string option \<Rightarrow> craft \<Rightarrow> craft_error + craft" where
  "log_event pk kind payload actor key st =
     add_event \<lparr>we_order = pk, we_seq = next_seq pk st, we_kind = kind, we_payload = payload,
                we_actor = actor, we_key = key\<rparr> st"

definition event_by_key :: "string \<Rightarrow> craft \<Rightarrow> wo_event option" where
  "event_by_key key st = find (\<lambda>e. we_key e = Some key) (cr_events st)"

text \<open>
  The replay of a command: a key that an event carries answers with the work order of that
  event when the event \<open>matches\<close> the request, and is a conflict otherwise.
\<close>

definition replayed ::
    "string option \<Rightarrow> (wo_event \<Rightarrow> craft_error + bool) \<Rightarrow> craft \<Rightarrow> craft_error + work_order option" where
  "replayed key matches st =
     (case key of
        None \<Rightarrow> Inr None
      | Some k \<Rightarrow>
          if k = [] then Inr None
          else (case event_by_key k st of
                  None \<Rightarrow> Inr None
                | Some e \<Rightarrow>
                    ebind (matches e) (\<lambda>ok.
                    if ok then map_sum id Some (locked_order (we_order e) st)
                    else Inl (Craft_error ''IDEMPOTENCY_CONFLICT''))))"

definition attempt_field :: "dict \<Rightarrow> dict" where
  "attempt_field a = (if a = [] then [] else [(''attempt'', JObj a)])"

definition announce :: "nat \<Rightarrow> string \<Rightarrow> craft \<Rightarrow> craft" where
  "announce pk action st = st\<lparr>cr_signals := cr_signals st @ [(pk, action)]\<rparr>"

section \<open>The quantity that entered production\<close>

text \<open>\<open>Decimal(str(v))\<close> of a JSON value.\<close>

definition decimal_of_json :: "json \<Rightarrow> craft_error + decimal" where
  "decimal_of_json v =
     (case (case v of JStr s \<Rightarrow> dec_parse s | JNum n \<Rightarrow> Some (Dec n 0) | _ \<Rightarrow> None) of
        Some d \<Rightarrow> Inr d | None \<Rightarrow> Inl Craft_invalid_operation)"

text \<open>The event of the kind with the highest number.\<close>

definition last_event :: "event_kind \<Rightarrow> nat \<Rightarrow> craft \<Rightarrow> wo_event option" where
  "last_event kind pk st =
     (case filter (\<lambda>e. we_order e = pk \<and> we_kind e = kind) (cr_events st) of
        [] \<Rightarrow> None
      | e # es \<Rightarrow> Some (foldl (\<lambda>a b. if we_seq a < we_seq b then b else a) e es))"

definition started_qty :: "nat \<Rightarrow> craft \<Rightarrow> craft_error + decimal option" where
  "started_qty pk st =
     (case last_event Ev_started pk st of
        None \<Rightarrow> Inr None
      | Some e \<Rightarrow> map_sum id Some (decimal_of_json (case dget (we_payload e) ''quantity'' of Some v \<Rightarrow> v | None \<Rightarrow> JStr ''0'')))"

text \<open>\<open>order.started_qty or order.quantity\<close>.\<close>

definition effective_qty :: "work_order \<Rightarrow> craft \<Rightarrow> craft_error + decimal" where
  "effective_qty o1 st =
     map_sum id (\<lambda>q. case q of Some d \<Rightarrow> if dec_val d = 0 then dec3 (wo_quantity o1) else d
                            | None \<Rightarrow> dec3 (wo_quantity o1)) (started_qty (wo_id o1) st)"

definition loss :: "work_order \<Rightarrow> craft \<Rightarrow> craft_error + rat option" where
  "loss o1 st =
     (case wo_finished o1 of
        None \<Rightarrow> Inr None
      | Some f \<Rightarrow> map_sum id (\<lambda>d. Some (max (dec_val d - f) 0)) (effective_qty o1 st))"

section \<open>The recipe, frozen\<close>

definition gross_quantity :: "recipe_item \<Rightarrow> decimal" where
  "gross_quantity ri = half_even 3 (context28 (ri_quantity ri / ri_usable ri))"

definition usable_text :: "rat \<Rightarrow> string" where
  "usable_text r = dec_text (Dec \<lfloor>r * 10000\<rfloor> 4)"

definition item_snapshot :: "recipe_item \<Rightarrow> dict" where
  "item_snapshot ri =
     [(''input_sku'', JStr (ri_sku ri)), (''quantity'', JStr (dec_text (dec3 (ri_quantity ri)))),
      (''gross_quantity'', JStr (dec_text (gross_quantity ri))),
      (''usable_factor'', JStr (usable_text (ri_usable ri))), (''unit'', JStr (ri_unit ri))]"

definition required_items :: "nat \<Rightarrow> craft \<Rightarrow> recipe_item list" where
  "required_items r st = sort_key ri_sort (filter (\<lambda>ri. ri_recipe ri = r \<and> \<not> ri_optional ri) (cr_recipe_items st))"

definition build_recipe_snapshot :: "nat \<Rightarrow> recipe \<Rightarrow> craft \<Rightarrow> dict" where
  "build_recipe_snapshot r re st =
     [(''batch_size'', JStr (dec_text (dec3 (re_batch_size re)))),
      (''version_ref'', case dget (re_meta re) ''version_ref'' of Some v \<Rightarrow> v | None \<Rightarrow> JStr []),
      (''items'', JList (map (\<lambda>ri. JObj (item_snapshot ri)) (required_items r st))),
      (''production'', JObj
         [(''requires_batch_tracking'', JBool (truthy (pget (re_meta re) ''requires_batch_tracking''))),
          (''shelf_life_days'', pget (re_meta re) ''shelf_life_days''),
          (''steps'', JList (re_steps re))])]"

section \<open>Planning\<close>

record plan_args =
  pa_source_ref :: "string option"
  pa_position_ref :: "string option"
  pa_operator_ref :: "string option"
  pa_meta :: "dict option"
  pa_result :: string

text \<open>\<open>RefSequence.next_value\<close>.\<close>

definition next_value :: "string \<Rightarrow> craft \<Rightarrow> nat \<times> craft" where
  "next_value prefix st =
     (let n = Suc (case map_of (cr_sequences st) prefix of Some k \<Rightarrow> k | None \<Rightarrow> 0) in
      (n, st\<lparr>cr_sequences := AList.update prefix n (cr_sequences st)\<rparr>))"

definition pad5 :: "nat \<Rightarrow> string" where
  "pad5 n = replicate (5 - length (nat_text n)) CHR ''0'' @ nat_text n"

definition wo_prefix :: "int \<Rightarrow> string" where
  "wo_prefix year = ''WO-'' @ int_text year"

definition generate_ref :: "craft_env \<Rightarrow> int \<Rightarrow> craft \<Rightarrow> string \<times> craft" where
  "generate_ref env now st =
     (let prefix = wo_prefix (ce_year env now); (n, st1) = next_value prefix st in (prefix @ ''-'' @ pad5 n, st1))"

text \<open>\<open>WorkOrder.objects.create\<close>: the validators of the columns, then the row.\<close>

definition valid_quantity :: "decimal \<Rightarrow> bool" where
  "valid_quantity d \<longleftrightarrow> 0 < dec_val d \<and> dec_places d \<le> 3 \<and> \<bar>dec_val d\<bar> < 10 ^ 9"

definition json_or_null :: "string option \<Rightarrow> json" where
  "json_or_null so = (case so of None \<Rightarrow> JNull | Some s \<Rightarrow> JStr s)"

definition date_json :: "craft_env \<Rightarrow> int option \<Rightarrow> json" where
  "date_json env d = json_or_null (map_option (ce_date_text env) d)"

definition create_work_order ::
    "craft_env \<Rightarrow> int \<Rightarrow> nat \<Rightarrow> decimal \<Rightarrow> int option \<Rightarrow> plan_args \<Rightarrow> command \<Rightarrow> craft \<Rightarrow> craft_error + (work_order \<times> craft)" where
  "create_work_order env now r q date a cm st =
     (if r \<ge> length (cr_recipes st) then Inl Craft_type_error
      else let re = cr_recipes st ! r in
      if re_mode re = Made_to_order then Inl (Craft_error ''MADE_TO_ORDER_RECIPE'')
      else let (ref, st1) = generate_ref env now st;
               o1 = \<lparr>wo_id = length (cr_orders st), wo_ref = ref, wo_recipe = r, wo_output_sku = re_output_sku re,
                 wo_quantity = column3 (dec_val q), wo_finished = None, wo_status = Wo_planned, wo_rev = 0,
                 wo_target = date, wo_started_at = None, wo_finished_at = None,
                 wo_source_ref = case_option [] id (pa_source_ref a), wo_position_ref = case_option [] id (pa_position_ref a),
                 wo_operator_ref = case_option [] id (pa_operator_ref a),
                 wo_meta = dset ''_recipe_snapshot'' (JObj (build_recipe_snapshot r re st)) (case_option [] id (pa_meta a))\<rparr> in
      if \<not> valid_quantity q \<or> ref \<in> wo_ref ` set (cr_orders st) then Inl Craft_validation
      else map_sum id (\<lambda>st2. (o1, st2)) (add_event
        \<lparr>we_order = wo_id o1, we_seq = 0, we_kind = Ev_planned,
         we_payload = [(''quantity'', JStr (dec_text q)), (''recipe'', JStr (re_ref re)),
           (''output_sku'', JStr (re_output_sku re)), (''target_date'', date_json env date),
           (''source_ref'', JStr (wo_source_ref o1)), (''position_ref'', JStr (wo_position_ref o1)),
           (''operator_ref'', JStr (wo_operator_ref o1)),
           (''result'', JStr (if pa_result a = [] then ''created'' else pa_result a))] @ attempt_field (cm_attempt cm),
         we_actor = cm_actor cm, we_key = cm_key cm\<rparr>
        (st1\<lparr>cr_orders := cr_orders st @ [o1]\<rparr>)))"

definition plan_matches ::
    "craft_env \<Rightarrow> decimal \<Rightarrow> recipe \<Rightarrow> int option \<Rightarrow> plan_args \<Rightarrow> command \<Rightarrow> wo_event \<Rightarrow> craft_error + bool" where
  "plan_matches env q re date a cm e =
     Inr (we_kind e = Ev_planned \<and> we_actor e = cm_actor cm
       \<and> list_all (\<lambda>(k, v). pget (we_payload e) k = v)
           [(''quantity'', JStr (dec_text q)), (''recipe'', JStr (re_ref re)), (''target_date'', date_json env date),
            (''position_ref'', JStr (case_option [] id (pa_position_ref a))),
            (''operator_ref'', JStr (case_option [] id (pa_operator_ref a))),
            (''source_ref'', JStr (case_option [] id (pa_source_ref a)))])"

text \<open>\<open>Decimal(str(quantity))\<close> of an argument that does not read as a number raises.\<close>

definition read_quantity :: "decimal option \<Rightarrow> craft_error + decimal" where
  "read_quantity q = (case q of None \<Rightarrow> Inl Craft_invalid_operation | Some d \<Rightarrow> Inr d)"

definition plan ::
    "craft_env \<Rightarrow> int \<Rightarrow> nat \<Rightarrow> decimal option \<Rightarrow> int option \<Rightarrow> plan_args \<Rightarrow> command \<Rightarrow> craft \<Rightarrow> craft_error + (work_order \<times> craft)" where
  "plan env now r quantity date a cm st =
     ebind (read_quantity quantity) (\<lambda>q.
     if dec_val q \<le> 0 then Inl (Craft_error ''INVALID_QUANTITY'')
     else if r \<ge> length (cr_recipes st) then Inl Craft_type_error
     else ebind (replayed (cm_key cm) (plan_matches env q (cr_recipes st ! r) date a cm) st) (\<lambda>old.
     case old of
       Some o1 \<Rightarrow> Inr (o1, st)
     | None \<Rightarrow> map_sum id (\<lambda>(o1, st1). (o1, announce (wo_id o1) ''planned'' st1))
                (create_work_order env now r q date a cm st)))"

text \<open>Several work orders in one transaction; the signals come after all of them.\<close>

fun create_batch ::
    "craft_env \<Rightarrow> int \<Rightarrow> (nat \<times> decimal option) list \<Rightarrow> int option \<Rightarrow> plan_args \<Rightarrow> command \<Rightarrow> craft \<Rightarrow> craft_error + (work_order list \<times> craft)" where
  "create_batch env now [] date a cm st = Inr ([], st)"
| "create_batch env now ((r, quantity) # rs) date a cm st =
     ebind (read_quantity quantity) (\<lambda>q.
     if dec_val q \<le> 0 then Inl (Craft_error ''INVALID_QUANTITY'')
     else ebind (create_work_order env now r q date a cm st) (\<lambda>(o1, st1).
          map_sum id (\<lambda>(os, st2). (o1 # os, st2)) (create_batch env now rs date a cm st1)))"

definition plan_batch ::
    "craft_env \<Rightarrow> int \<Rightarrow> (nat \<times> decimal option) list \<Rightarrow> int option \<Rightarrow> plan_args \<Rightarrow> command \<Rightarrow> craft \<Rightarrow> craft_error + (work_order list \<times> craft)" where
  "plan_batch env now rs date a cm st =
     map_sum id (\<lambda>(os, st1). (os, fold (\<lambda>o1. announce (wo_id o1) ''planned'') os st1))
       (create_batch env now rs date a cm st)"

end
