(* ===== verification/CraftOps.thy ===== *)
theory CraftOps
  imports Craftsman
begin

text \<open>
  The commands on a work order that exists: adjust with its three guards, start, the advance of
  a step and void (\<open>services/scheduling.py\<close>, \<open>services/execution.py\<close>). The replay of a key comes
  first, then the status, then the revision, then the guards, the row and its event.
\<close>

section \<open>Void\<close>

definition same_json :: "json \<Rightarrow> json \<Rightarrow> bool" where
  "same_json a b \<longleftrightarrow> canonical a = canonical b"

definition attempt_agrees :: "dict \<Rightarrow> wo_event \<Rightarrow> bool" where
  "attempt_agrees a e \<longleftrightarrow> a = [] \<or> same_json (pget (we_payload e) ''attempt'') (JObj a)"

definition void_matches :: "nat \<Rightarrow> string \<Rightarrow> command \<Rightarrow> wo_event \<Rightarrow> craft_error + bool" where
  "void_matches pk reason cm e =
     Inr (we_order e = pk \<and> we_kind e = Ev_voided \<and> we_actor e = cm_actor cm
       \<and> pget (we_payload e) ''reason'' = JStr reason \<and> attempt_agrees (cm_attempt cm) e)"

definition void :: "nat \<Rightarrow> string \<Rightarrow> string \<Rightarrow> command \<Rightarrow> craft \<Rightarrow> craft_error + (work_order \<times> craft)" where
  "void pk reason result cm st =
     ebind (locked_order pk st) (\<lambda>o1.
     ebind (replayed (cm_key cm) (void_matches pk reason cm) st) (\<lambda>old.
     case old of
       Some o2 \<Rightarrow> Inr (o2, st)
     | None \<Rightarrow>
         if wo_status o1 = Wo_finished then Inl (Craft_error ''VOID_FROM_DONE'')
         else if wo_status o1 = Wo_void then Inl (Craft_error ''TERMINAL_STATUS'')
         else ebind (check_rev o1 (cm_rev cm) st) (\<lambda>(o2, st1).
              let o3 = o2\<lparr>wo_status := Wo_void\<rparr> in
              map_sum id (\<lambda>st2. (o3, announce pk ''voided'' st2))
                (log_event pk Ev_voided
                   ([(''reason'', JStr reason), (''result'', JStr (if result = [] then ''cleared'' else result))]
                      @ attempt_field (cm_attempt cm))
                   (cm_actor cm) (cm_key cm) (put_order o3 st1)))))"

section \<open>The guards of an adjustment\<close>

definition recipe_of :: "work_order \<Rightarrow> craft \<Rightarrow> recipe" where
  "recipe_of o1 st = cr_recipes st ! wo_recipe o1"

text \<open>V1, the units customers have committed. A backend that raises counts only in strict mode.\<close>

definition committed_holds :: "craft_env \<Rightarrow> work_order \<Rightarrow> rat \<Rightarrow> craft_error + unit" where
  "committed_holds env o1 q =
     (case ce_demand env of
        None \<Rightarrow> Inr ()
      | Some demand \<Rightarrow>
          (case demand (wo_output_sku o1) (wo_target o1) of
             Some committed \<Rightarrow> guard_e (committed \<le> q) (Craft_error ''COMMITTED_HOLDS'')
           | None \<Rightarrow> guard_e (\<not> ce_strict env) (Craft_error ''DEMAND_BACKEND_FAILED'')))"

text \<open>
  V2, the ingredients the order shares with the other open orders of its date. \<open>None\<close> is a
  quotient by a batch size of zero.
\<close>

type_synonym needs = "((string \<times> string) \<times> rat) list"

definition add_need :: "string \<times> string \<Rightarrow> rat \<Rightarrow> needs \<Rightarrow> needs" where
  "add_need k q ns = AList.update k (context28 ((case map_of ns k of Some x \<Rightarrow> x | None \<Rightarrow> 0) + q)) ns"

definition recipe_needs :: "nat \<Rightarrow> rat \<Rightarrow> (string \<times> string \<Rightarrow> bool) \<Rightarrow> needs \<Rightarrow> craft \<Rightarrow> needs option" where
  "recipe_needs r q wanted ns st =
     (let batch = re_batch_size (cr_recipes st ! r) in
      if batch = 0 then None
      else Some (foldl (\<lambda>a ri. if wanted (ri_sku ri, ri_unit ri)
                               then add_need (ri_sku ri, ri_unit ri) (context28 (ri_quantity ri * context28 (q / batch))) a
                               else a)
                  ns (required_items r st)))"

definition open_orders :: "work_order \<Rightarrow> craft \<Rightarrow> work_order list" where
  "open_orders o1 st = filter (\<lambda>x. wo_status x \<in> {Wo_planned, Wo_started} \<and> wo_target x = wo_target o1
     \<and> wo_id x \<noteq> wo_id o1) (cr_orders st)"

fun other_needs :: "work_order list \<Rightarrow> (string \<times> string \<Rightarrow> bool) \<Rightarrow> needs \<Rightarrow> craft \<Rightarrow> needs option" where
  "other_needs [] wanted ns st = Some ns"
| "other_needs (x # xs) wanted ns st =
     (case recipe_needs (wo_recipe x) (wo_quantity x) wanted ns st of
        None \<Rightarrow> None | Some ns1 \<Rightarrow> other_needs xs wanted ns1 st)"

definition material_needs :: "work_order \<Rightarrow> rat \<Rightarrow> craft \<Rightarrow> (string \<times> rat \<times> string) list option" where
  "material_needs o1 q st =
     (case recipe_needs (wo_recipe o1) q (\<lambda>_. True) [] st of
        None \<Rightarrow> None
      | Some own \<Rightarrow>
          if own = [] then Some []
          else map_option (\<lambda>other. map (\<lambda>((sku, unit), n).
                   (sku, context28 (n + (case map_of other (sku, unit) of Some x \<Rightarrow> x | None \<Rightarrow> 0)), unit)) own)
                 (other_needs (open_orders o1 st) (\<lambda>k. map_of own k \<noteq> None) [] st))"

definition shared_ingredients :: "craft_env \<Rightarrow> work_order \<Rightarrow> rat \<Rightarrow> craft \<Rightarrow> craft_error + unit" where
  "shared_ingredients env o1 q st =
     (case ce_inventory env of
        None \<Rightarrow> Inr ()
      | Some available \<Rightarrow>
          (case material_needs o1 q st of
             Some [] \<Rightarrow> Inr ()
           | Some ns \<Rightarrow>
               (case available ns of
                  Some ok \<Rightarrow> guard_e ok (Craft_error ''INSUFFICIENT_MATERIALS'')
                | None \<Rightarrow> guard_e (\<not> ce_strict env) (Craft_error ''INVENTORY_BACKEND_FAILED''))
           | None \<Rightarrow> guard_e (\<not> ce_strict env) (Craft_error ''INVENTORY_BACKEND_FAILED'')))"

text \<open>
  V3, the open orders of the date that use what this order makes. A failure of the check (a
  quotient by zero) is a warning.
\<close>

definition uses_output :: "string \<Rightarrow> nat \<Rightarrow> craft \<Rightarrow> recipe_item list" where
  "uses_output sku r st = filter (\<lambda>ri. ri_recipe ri = r \<and> ri_sku ri = sku) (cr_recipe_items st)"

definition downstream_orders :: "work_order \<Rightarrow> craft \<Rightarrow> work_order list" where
  "downstream_orders o1 st = filter (\<lambda>x. uses_output (wo_output_sku o1) (wo_recipe x) st \<noteq> []
     \<and> re_active (recipe_of x st) \<and> re_mode (recipe_of x st) = Batch_mode) (open_orders o1 st)"

definition downstream_deficit :: "work_order \<Rightarrow> rat \<Rightarrow> bool \<Rightarrow> craft \<Rightarrow> craft_error + unit" where
  "downstream_deficit o1 q force st =
     (let down = downstream_orders o1 st in
      if wo_quantity o1 \<le> q \<or> force \<or> (\<exists>x \<in> set down. re_batch_size (recipe_of x st) = 0) then Inr ()
      else guard_e (\<forall>x \<in> set down. \<forall>ri \<in> set (uses_output (wo_output_sku o1) (wo_recipe x) st).
             context28 (ri_quantity ri * context28 (wo_quantity x / re_batch_size (recipe_of x st))) \<le> 0)
           (Craft_error ''DOWNSTREAM_DEFICIT''))"

section \<open>Adjust\<close>

text \<open>A value written to a column of twelve digits and three places.\<close>

definition column_value :: "rat \<Rightarrow> craft_error + rat" where
  "column_value r = (let v = column3 r in if 0 < v \<and> v < 10 ^ 9 then Inr v else Inl Craft_integrity)"

definition adjust_matches :: "nat \<Rightarrow> decimal \<Rightarrow> string \<Rightarrow> command \<Rightarrow> wo_event \<Rightarrow> craft_error + bool" where
  "adjust_matches pk q reason cm e =
     Inr (we_order e = pk \<and> we_kind e = Ev_adjusted \<and> we_actor e = cm_actor cm
       \<and> pget (we_payload e) ''to'' = JStr (dec_text q) \<and> pget (we_payload e) ''reason'' = JStr reason
       \<and> attempt_agrees (cm_attempt cm) e)"

definition adjust_order ::
    "craft_env \<Rightarrow> nat \<Rightarrow> decimal \<Rightarrow> string \<Rightarrow> string \<Rightarrow> bool \<Rightarrow> command \<Rightarrow> craft \<Rightarrow> craft_error + (work_order \<times> craft)" where
  "adjust_order env pk q reason result force cm st =
     ebind (locked_order pk st) (\<lambda>o1.
     ebind (replayed (cm_key cm) (adjust_matches pk q reason cm) st) (\<lambda>old.
     case old of
       Some o2 \<Rightarrow> Inr (o2, st)
     | None \<Rightarrow>
         if wo_status o1 \<noteq> Wo_planned then Inl (Craft_error ''INVALID_STATUS'')
         else ebind (check_rev o1 (cm_rev cm) st) (\<lambda>(o2, st1).
              ebind (committed_holds env o2 (dec_val q)) (\<lambda>_.
              ebind (shared_ingredients env o2 (dec_val q) st1) (\<lambda>_.
              ebind (downstream_deficit o2 (dec_val q) force st1) (\<lambda>_.
              ebind (column_value (dec_val q)) (\<lambda>v.
              let o3 = o2\<lparr>wo_quantity := v\<rparr> in
              map_sum id (\<lambda>st2. (o3, announce pk ''adjusted'' st2))
                (log_event pk Ev_adjusted
                   ([(''from'', JStr (dec_text (dec3 (wo_quantity o1)))), (''to'', JStr (dec_text q)),
                     (''reason'', JStr reason), (''result'', JStr (if result = [] then ''adjusted'' else result))]
                      @ attempt_field (cm_attempt cm))
                   (cm_actor cm) (cm_key cm) (put_order o3 st1)))))))))"

definition adjust ::
    "craft_env \<Rightarrow> nat \<Rightarrow> decimal option \<Rightarrow> string \<Rightarrow> string \<Rightarrow> bool \<Rightarrow> command \<Rightarrow> craft \<Rightarrow> craft_error + (work_order \<times> craft)" where
  "adjust env pk quantity reason result force cm st =
     ebind (read_quantity quantity) (\<lambda>q.
     if dec_val q < 0 then Inl (Craft_error ''INVALID_QUANTITY'')
     else if dec_val q = 0 then void pk (if reason = [] then ''Remanejo: zerado'' else reason) [] cm st
     else adjust_order env pk q reason result force cm st)"

section \<open>Start\<close>

record start_args =
  sa_operator :: "string option"
  sa_position :: "string option"
  sa_note :: string

definition start_matches :: "nat \<Rightarrow> decimal \<Rightarrow> start_args \<Rightarrow> command \<Rightarrow> wo_event \<Rightarrow> craft_error + bool" where
  "start_matches pk q a cm e =
     Inr (we_order e = pk \<and> we_kind e = Ev_started \<and> we_actor e = cm_actor cm
       \<and> (if cm_attempt cm \<noteq> [] then attempt_agrees (cm_attempt cm) e
          else list_all (\<lambda>(k, v). pget (we_payload e) k = v)
            [(''quantity'', JStr (dec_text q)), (''operator_ref'', JStr (case_option [] id (sa_operator a))),
             (''position_ref'', JStr (case_option [] id (sa_position a))), (''note'', JStr (sa_note a))]))"

definition start ::
    "int \<Rightarrow> nat \<Rightarrow> decimal option \<Rightarrow> start_args \<Rightarrow> command \<Rightarrow> craft \<Rightarrow> craft_error + (work_order \<times> craft)" where
  "start now pk quantity a cm st =
     ebind (read_quantity quantity) (\<lambda>q.
     if dec_val q \<le> 0 then Inl (Craft_error ''INVALID_QUANTITY'')
     else ebind (locked_order pk st) (\<lambda>o1.
     ebind (replayed (cm_key cm) (start_matches pk q a cm) st) (\<lambda>old.
     case old of
       Some o2 \<Rightarrow> Inr (o2, st)
     | None \<Rightarrow>
         if wo_status o1 \<noteq> Wo_planned then Inl (Craft_error ''INVALID_STATUS'')
         else ebind (check_rev o1 (cm_rev cm) st) (\<lambda>(o2, st1).
              let o3 = o2\<lparr>wo_started_at := (case wo_started_at o2 of None \<Rightarrow> Some now | t \<Rightarrow> t), wo_status := Wo_started,
                          wo_operator_ref := case_option (wo_operator_ref o2) id (sa_operator a),
                          wo_position_ref := case_option (wo_position_ref o2) id (sa_position a)\<rparr> in
              map_sum id (\<lambda>st2. (o3, announce pk ''started'' st2))
                (log_event pk Ev_started
                   ([(''quantity'', JStr (dec_text q)), (''operator_ref'', JStr (wo_operator_ref o3)),
                     (''position_ref'', JStr (wo_position_ref o3)), (''note'', JStr (sa_note a))]
                      @ attempt_field (cm_attempt cm))
                   (cm_actor cm) (cm_key cm) (put_order o3 st1))))))"

section \<open>Advance of a step\<close>

definition step_attempt :: "json \<Rightarrow> json \<Rightarrow> json" where
  "step_attempt index name = JObj [(''step_index'', index), (''step_name'', name)]"

text \<open>An event with no attempt is compared by its own two fields.\<close>

definition step_matches :: "nat \<Rightarrow> int \<Rightarrow> string \<Rightarrow> command \<Rightarrow> wo_event \<Rightarrow> craft_error + bool" where
  "step_matches pk index name cm e =
     Inr (we_order e = pk \<and> we_kind e = Ev_step_advanced \<and> we_actor e = cm_actor cm
       \<and> same_json
           (case dget (we_payload e) ''attempt'' of
              Some v \<Rightarrow> v
            | None \<Rightarrow> step_attempt (pget (we_payload e) ''step_index'')
                        (case dget (we_payload e) ''step_name'' of Some v \<Rightarrow> v | None \<Rightarrow> JStr []))
           (step_attempt (JNum index) (JStr name)))"

definition advance_step ::
    "craft_env \<Rightarrow> int \<Rightarrow> nat \<Rightarrow> int option \<Rightarrow> string \<Rightarrow> command \<Rightarrow> craft \<Rightarrow> craft_error + (work_order \<times> craft)" where
  "advance_step env now pk step_index name cm st =
     (case step_index of
        None \<Rightarrow> Inl (Craft_error ''INVALID_PAYLOAD'')
      | Some index \<Rightarrow>
     if index \<le> 0 then Inl (Craft_error ''INVALID_PAYLOAD'')
     else ebind (locked_order pk st) (\<lambda>o1.
     ebind (replayed (cm_key cm) (step_matches pk index name cm) st) (\<lambda>old.
     case old of
       Some o2 \<Rightarrow> Inr (o2, st)
     | None \<Rightarrow>
         if wo_status o1 \<noteq> Wo_started then Inl (Craft_error ''INVALID_STATUS'')
         else ebind (check_rev o1 (cm_rev cm) st) (\<lambda>(o2, st1).
              let o3 = o2\<lparr>wo_meta := dset ''steps_progress_updated_at'' (JStr (ce_stamp_text env now))
                         (dset ''steps_progress_actor'' (JStr (cm_actor cm))
                         (dset ''steps_progress'' (JNum index) (wo_meta o2)))\<rparr> in
              map_sum id (\<lambda>st2. (o3, st2))
                (log_event pk Ev_step_advanced
                   [(''step_index'', JNum index), (''step_name'', JStr name),
                    (''attempt'', step_attempt (JNum index) (JStr name))]
                   (cm_actor cm) (cm_key cm) (put_order o3 st1))))))"

end
