(* ===== verification/CraftFinish.thy ===== *)
theory CraftFinish
  imports CraftOps
begin

text \<open>
  \<open>CraftExecution.finish\<close>: the arguments read and put in canonical form (the attempt), the
  replay of a key, the implicit start of a planned order, the requirements and consumptions
  computed from the frozen recipe, outputs, waste and their partition, the ledger rows and the
  \<open>finished\<close> event.

  A scalar is a number or, \<open>None\<close>, a text that does not read as one; a line of a list is a
  mapping (\<open>Some\<close>) or not. Of a mapping the kernel reads the seven fields of \<open>line_arg\<close>.
\<close>

section \<open>Arguments\<close>

record line_arg =
  la_ref :: "string option"
  la_quantity :: "decimal option"
  la_unit :: "string option"
  la_grade :: "string option"
  la_defect :: "string option"
  la_batch :: "string option"
  la_meta :: "dict option"

datatype amounts = Scalar "decimal option" | Partition "line_arg option list"

record finish_args =
  fa_finished :: amounts
  fa_consumed :: "line_arg option list option"
  fa_wasted :: "amounts option"
  fa_declared :: "decimal option option"
  fa_note :: string
  fa_context :: dict
  fa_summary_replay :: bool

definition positive_decimal :: "decimal option \<Rightarrow> craft_error + decimal" where
  "positive_decimal v =
     (case v of
        None \<Rightarrow> Inl (Craft_error ''INVALID_QUANTITY'')
      | Some d \<Rightarrow> if dec_val d \<le> 0 then Inl (Craft_error ''INVALID_QUANTITY'') else Inr d)"

definition required_ref :: "string option \<Rightarrow> craft_error + string" where
  "required_ref v = (let r = strip (case_option [] id v) in
     if r = [] then Inl (Craft_error ''INVALID_REF'') else Inr r)"

definition mapping_item :: "line_arg option \<Rightarrow> craft_error + line_arg" where
  "mapping_item v = (case v of None \<Rightarrow> Inl (Craft_error ''INVALID_PAYLOAD'') | Some l \<Rightarrow> Inr l)"

definition line_quantity :: "line_arg option \<Rightarrow> craft_error + decimal" where
  "line_quantity v = ebind (mapping_item v) (\<lambda>l. positive_decimal (la_quantity l))"

definition wasted_empty :: "amounts option \<Rightarrow> bool" where
  "wasted_empty w \<longleftrightarrow> (case w of None \<Rightarrow> True | Some (Scalar None) \<Rightarrow> False
     | Some (Scalar (Some d)) \<Rightarrow> dec_val d = 0 | Some (Partition ls) \<Rightarrow> ls = [])"

definition finished_total :: "finish_args \<Rightarrow> craft_error + decimal" where
  "finished_total a =
     (case fa_finished a of
        Scalar v \<Rightarrow> positive_decimal v
      | Partition ls \<Rightarrow>
          if ls = [] \<and> wasted_empty (fa_wasted a) then Inl (Craft_error ''INVALID_QUANTITY'')
          else map_sum id dec_sum (emap line_quantity ls))"

definition declared_decimal :: "finish_args \<Rightarrow> craft_error + decimal option" where
  "declared_decimal a = (case fa_declared a of None \<Rightarrow> Inr None | Some v \<Rightarrow> map_sum id Some (positive_decimal v))"

section \<open>The attempt\<close>

definition text_field :: "string \<Rightarrow> string option \<Rightarrow> dict" where
  "text_field k v = (case v of None \<Rightarrow> [] | Some s \<Rightarrow> [(k, JStr s)])"

text \<open>The fields of a line in the order of their keys, the quantity in its canonical text.\<close>

definition attempt_row :: "line_arg \<Rightarrow> decimal \<Rightarrow> json" where
  "attempt_row l q = JObj
     (text_field ''batch_ref'' (la_batch l) @ text_field ''item_ref'' (la_ref l)
      @ (case la_meta l of None \<Rightarrow> [] | Some d \<Rightarrow> [(''meta'', canonical (JObj d))])
      @ text_field ''quality_defect_ref'' (la_defect l) @ text_field ''quality_grade_ref'' (la_grade l)
      @ [(''quantity'', JStr (dec_wire q))] @ text_field ''unit'' (la_unit l))"

definition attempt_rows :: "line_arg option list \<Rightarrow> craft_error + json" where
  "attempt_rows ls = map_sum id JList (emap (\<lambda>v. ebind (mapping_item v) (\<lambda>l.
     map_sum id (attempt_row l) (positive_decimal (la_quantity l)))) ls)"

definition mode_of :: "string \<Rightarrow> dict \<Rightarrow> json" where
  "mode_of mode fs = JObj ((''mode'', JStr mode) # fs)"

definition attempt_part :: "string \<Rightarrow> amounts \<Rightarrow> craft_error + json" where
  "attempt_part mode v =
     (case v of
        Scalar q \<Rightarrow> map_sum id (\<lambda>d. mode_of ''scalar'' [(''quantity'', JStr (dec_wire d))]) (positive_decimal q)
      | Partition ls \<Rightarrow> map_sum id (\<lambda>rows. mode_of mode [(''items'', rows)]) (attempt_rows ls))"

definition automatic :: json where
  "automatic = mode_of ''automatic'' []"

definition finish_attempt :: "decimal option \<Rightarrow> finish_args \<Rightarrow> craft_error + dict" where
  "finish_attempt declared a =
     ebind (attempt_part ''partition'' (fa_finished a)) (\<lambda>fin.
     ebind (case fa_consumed a of None \<Rightarrow> Inr automatic | Some ls \<Rightarrow> attempt_part ''explicit'' (Partition ls)) (\<lambda>con.
     map_sum id (\<lambda>was.
        [(''finished'', fin), (''consumed'', con), (''wasted'', was),
         (''declared_total'', json_or_null (map_option dec_wire declared)),
         (''note'', JStr (fa_note a)), (''context'', canonical (JObj (fa_context a)))])
       (case fa_wasted a of None \<Rightarrow> Inr automatic | Some v \<Rightarrow> attempt_part ''explicit'' v)))"

text \<open>\<open>_decimal_wire(Decimal(str(existing.payload.get("finished_qty"))))\<close>.\<close>

definition recorded_total :: "wo_event \<Rightarrow> craft_error + string" where
  "recorded_total e = map_sum id dec_wire (decimal_of_json (pget (we_payload e) ''finished_qty''))"

definition attempt_same :: "dict \<Rightarrow> decimal \<Rightarrow> finish_args \<Rightarrow> wo_event \<Rightarrow> craft_error + bool" where
  "attempt_same attempt tot a e =
     (if pget (we_payload e) ''attempt'' \<noteq> JNull
      then Inr (same_json (pget (we_payload e) ''attempt'') (JObj attempt))
      else case fa_finished a of
             Partition _ \<Rightarrow> Inr False
           | Scalar _ \<Rightarrow> map_sum id (\<lambda>w. w = dec_wire tot \<and> fa_consumed a = None \<and> fa_wasted a = None
                              \<and> fa_note a = [] \<and> fa_context a = []) (recorded_total e))"

definition finish_matches ::
    "nat \<Rightarrow> dict \<Rightarrow> decimal \<Rightarrow> finish_args \<Rightarrow> command \<Rightarrow> wo_event \<Rightarrow> craft_error + bool" where
  "finish_matches pk attempt tot a cm e =
     ebind (attempt_same attempt tot a e) (\<lambda>same.
     ebind (if fa_summary_replay a then map_sum id (\<lambda>w. w = dec_wire tot) (recorded_total e) else Inr same) (\<lambda>ok.
     Inr (we_order e = pk \<and> we_kind e = Ev_finished \<and> we_actor e = cm_actor cm \<and> ok)))"

section \<open>Materials\<close>

record material =
  mt_ref :: string
  mt_quantity :: rat
  mt_unit :: string
  mt_meta :: dict

definition need :: "dict \<Rightarrow> string \<Rightarrow> craft_error + json" where
  "need d k = (case dget d k of None \<Rightarrow> Inl Craft_key_error | Some v \<Rightarrow> Inr v)"

text \<open>\<open>Decimal(v)\<close>; the texts of a frozen recipe are strings.\<close>

definition decimal_arg :: "json \<Rightarrow> craft_error + decimal" where
  "decimal_arg v = (case v of JStr _ \<Rightarrow> decimal_of_json v | JNum _ \<Rightarrow> decimal_of_json v | _ \<Rightarrow> Inl Craft_type_error)"

definition json_text :: "json \<Rightarrow> string" where
  "json_text v = (case v of JStr s \<Rightarrow> s | _ \<Rightarrow> [])"

definition object_of :: "json \<Rightarrow> craft_error + dict" where
  "object_of v = (case v of JObj d \<Rightarrow> Inr d | _ \<Rightarrow> Inl Craft_type_error)"

definition yield_meta :: "craft_env \<Rightarrow> json \<Rightarrow> rat \<Rightarrow> craft_error + dict" where
  "yield_meta env factor net =
     map_sum id (\<lambda>d. if 1 \<le> dec_val d then []
       else [(''net_quantity'', JStr (ce_quotient_text env net)), (''usable_factor'', JStr (json_text factor)),
             (''approximate'', JBool True)]) (decimal_of_json factor)"

definition material_of :: "craft_env \<Rightarrow> rat \<Rightarrow> json \<Rightarrow> craft_error + material" where
  "material_of env coeff item =
     ebind (object_of item) (\<lambda>d.
     if dget d ''gross_quantity'' = None
     then ebind (need d ''input_sku'') (\<lambda>_. Inl (Craft_error ''INVALID_PAYLOAD''))
     else ebind (need d ''gross_quantity'') (\<lambda>g. ebind (decimal_arg g) (\<lambda>gross.
          ebind (need d ''quantity'') (\<lambda>n. ebind (decimal_arg n) (\<lambda>net.
          ebind (need d ''input_sku'') (\<lambda>sku. ebind (need d ''unit'') (\<lambda>unit.
          ebind (need d ''usable_factor'') (\<lambda>factor.
          map_sum id (\<lambda>m. \<lparr>mt_ref = json_text sku, mt_quantity = context28 (dec_val gross * coeff),
                            mt_unit = json_text unit, mt_meta = m\<rparr>)
            (yield_meta env factor (context28 (dec_val net * coeff)))))))))))"

definition coefficient :: "decimal \<Rightarrow> rat \<Rightarrow> craft_error + rat" where
  "coefficient started batch =
     (if batch = 0 then Inl Craft_invalid_operation else Inr (context28 (dec_val started / batch)))"

text \<open>The frozen recipe, or the recipe as it is now when the order carries none.\<close>

definition recipe_lines :: "work_order \<Rightarrow> decimal \<Rightarrow> craft \<Rightarrow> craft_error + (rat \<times> json list)" where
  "recipe_lines o1 started st =
     (let snapshot = pget (wo_meta o1) ''_recipe_snapshot'' in
      if truthy snapshot
      then ebind (object_of snapshot) (\<lambda>d. ebind (need d ''batch_size'') (\<lambda>b. ebind (decimal_arg b) (\<lambda>batch.
           ebind (coefficient started (dec_val batch)) (\<lambda>c. ebind (need d ''items'') (\<lambda>items.
           case items of JList xs \<Rightarrow> Inr (c, xs) | _ \<Rightarrow> Inl Craft_type_error)))))
      else map_sum id (\<lambda>c. (c, map (\<lambda>ri. JObj (item_snapshot ri)) (required_items (wo_recipe o1) st)))
             (coefficient started (re_batch_size (recipe_of o1 st))))"

definition materials :: "craft_env \<Rightarrow> work_order \<Rightarrow> decimal \<Rightarrow> craft \<Rightarrow> craft_error + material list" where
  "materials env o1 started st = ebind (recipe_lines o1 started st) (\<lambda>(c, xs). emap (material_of env c) xs)"

section \<open>Ledger rows\<close>

definition new_item ::
    "int \<Rightarrow> string \<Rightarrow> nat \<Rightarrow> item_kind \<Rightarrow> string \<Rightarrow> rat \<Rightarrow> string \<Rightarrow> dict \<Rightarrow> wo_item" where
  "new_item now actor pk kind ref q unit meta =
     \<lparr>wi_order = pk, wi_kind = kind, wi_ref = ref, wi_quantity = q, wi_unit = unit, wi_recorded_at = now,
      wi_recorded_by = actor, wi_meta = meta, wi_grade = [], wi_defect = [], wi_batch = []\<rparr>"

definition material_item :: "int \<Rightarrow> string \<Rightarrow> nat \<Rightarrow> item_kind \<Rightarrow> material \<Rightarrow> wo_item" where
  "material_item now actor pk kind mt = new_item now actor pk kind (mt_ref mt) (mt_quantity mt) (mt_unit mt) (mt_meta mt)"

text \<open>A row of a list given by the caller; \<open>(row, quantity)\<close>, the quantity before the column rounds it.\<close>

definition line_item :: "int \<Rightarrow> string \<Rightarrow> nat \<Rightarrow> item_kind \<Rightarrow> line_arg option \<Rightarrow> craft_error + (wo_item \<times> decimal)" where
  "line_item now actor pk kind v =
     ebind (mapping_item v) (\<lambda>l.
     ebind (required_ref (la_ref l)) (\<lambda>ref.
     map_sum id (\<lambda>q.
       ((new_item now actor pk kind ref (dec_val q) (case_option [] id (la_unit l)) (case_option [] id (la_meta l)))
          \<lparr>wi_grade := (if kind = Consumption then [] else case_option [] id (la_grade l)),
           wi_defect := (if kind = Consumption then [] else case_option [] id (la_defect l)),
           wi_batch := (if kind = Output then case_option [] id (la_batch l) else [])\<rparr>, q))
       (positive_decimal (la_quantity l))))"

text \<open>The warning about a substitution reads \<open>c["item_ref"]\<close> of every line first.\<close>

definition refs_present :: "line_arg option list \<Rightarrow> craft_error + unit" where
  "refs_present ls = map_sum id (\<lambda>_. ()) (emap (\<lambda>v. case v of
       None \<Rightarrow> Inl Craft_type_error
     | Some l \<Rightarrow> guard_e (la_ref l \<noteq> None) Craft_key_error) ls)"

definition consumption_items ::
    "int \<Rightarrow> string \<Rightarrow> nat \<Rightarrow> material list \<Rightarrow> finish_args \<Rightarrow> craft_error + wo_item list" where
  "consumption_items now actor pk mts a =
     (case fa_consumed a of
        None \<Rightarrow> Inr (map (material_item now actor pk Consumption) mts)
      | Some ls \<Rightarrow> ebind (refs_present ls) (\<lambda>_.
                   map_sum id (map fst) (emap (line_item now actor pk Consumption) ls)))"

definition output_items ::
    "int \<Rightarrow> string \<Rightarrow> work_order \<Rightarrow> decimal \<Rightarrow> finish_args \<Rightarrow> craft_error + (wo_item \<times> decimal) list" where
  "output_items now actor o1 tot a =
     (case fa_finished a of
        Scalar _ \<Rightarrow> Inr [(new_item now actor (wo_id o1) Output (wo_output_sku o1) (dec_val tot) [] [], tot)]
      | Partition ls \<Rightarrow> emap (line_item now actor (wo_id o1) Output) ls)"

definition waste_items ::
    "int \<Rightarrow> string \<Rightarrow> work_order \<Rightarrow> decimal \<Rightarrow> decimal \<Rightarrow> finish_args \<Rightarrow> craft_error + (wo_item \<times> decimal) list" where
  "waste_items now actor o1 started tot a =
     (let own = (\<lambda>q. (new_item now actor (wo_id o1) Waste (wo_output_sku o1) (dec_val q) [] [], q)) in
      case fa_wasted a of
        None \<Rightarrow> (let q = dec_add started (dec_neg tot) in Inr (if 0 < dec_val q then [own q] else []))
      | Some (Scalar v) \<Rightarrow> map_sum id (\<lambda>q. [own q]) (positive_decimal v)
      | Some (Partition ls) \<Rightarrow> emap (line_item now actor (wo_id o1) Waste) ls)"

definition partition_ok :: "work_order \<Rightarrow> decimal \<Rightarrow> decimal option \<Rightarrow> decimal \<Rightarrow> (wo_item \<times> decimal) list \<Rightarrow> finish_args \<Rightarrow> bool" where
  "partition_ok o1 started declared tot wastes a \<longleftrightarrow>
     (case fa_finished a of
        Scalar _ \<Rightarrow> True
      | Partition _ \<Rightarrow>
          dec_val tot + sum_list (map (\<lambda>(i, q). dec_val q) (filter (\<lambda>(i, q). wi_ref i = wo_output_sku o1) wastes))
            = dec_val (case declared of Some d \<Rightarrow> d | None \<Rightarrow> started))"

definition store_item :: "wo_item \<Rightarrow> craft_error + wo_item" where
  "store_item i = map_sum id (\<lambda>q. i\<lparr>wi_quantity := q\<rparr>) (column_value (wi_quantity i))"

definition bulk_create :: "wo_item list \<Rightarrow> craft \<Rightarrow> craft_error + craft" where
  "bulk_create rows st = map_sum id (\<lambda>rs. st\<lparr>cr_items := cr_items st @ rs\<rparr>) (emap store_item rows)"

section \<open>Finish\<close>

definition partition_payload :: "(wo_item \<times> decimal) list \<Rightarrow> json list" where
  "partition_payload ls =
     map (\<lambda>(i, q). JObj
       ([(''item_ref'', JStr (wi_ref i)), (''quantity'', JStr (dec_text q)), (''quality_grade_ref'', JStr (wi_grade i)),
         (''quality_defect_ref'', JStr (wi_defect i)), (''batch_ref'', JStr (wi_batch i))]
        @ (if wi_meta i = [] then [] else [(''meta'', JObj (wi_meta i))])))
     (filter (\<lambda>(i, q). wi_grade i \<noteq> [] \<or> wi_defect i \<noteq> [] \<or> wi_batch i \<noteq> []) ls)"

definition finished_payload ::
    "craft_env \<Rightarrow> work_order \<Rightarrow> decimal \<Rightarrow> decimal \<Rightarrow> (wo_item \<times> decimal) list \<Rightarrow> (wo_item \<times> decimal) list
     \<Rightarrow> dict \<Rightarrow> finish_args \<Rightarrow> dict" where
  "finished_payload env o1 started tot outs wastes attempt a =
     [(''finished_qty'', JStr (dec_text tot)), (''planned_qty'', JStr (dec_text (dec3 (wo_quantity o1)))),
      (''started_qty'', JStr (dec_text started)), (''loss_qty'', JStr (dec_text (dec_sum (map snd wastes)))),
      (''output_sku'', JStr (wo_output_sku o1)), (''target_date'', date_json env (wo_target o1)),
      (''source_ref'', JStr (wo_source_ref o1)), (''position_ref'', JStr (wo_position_ref o1)),
      (''operator_ref'', JStr (wo_operator_ref o1))]
     @ (if partition_payload (outs @ wastes) = [] then [] else [(''partition'', JList (partition_payload (outs @ wastes)))])
     @ (if fa_context a = [] then [] else [(''context'', JObj (fa_context a))])
     @ [(''attempt'', JObj attempt)]"

text \<open>A planned order starts with what was planned: its own event, no new revision.\<close>

definition implicit_start :: "int \<Rightarrow> work_order \<Rightarrow> string \<Rightarrow> string \<Rightarrow> craft \<Rightarrow> craft_error + (work_order \<times> craft)" where
  "implicit_start now o1 note actor st =
     (let o2 = o1\<lparr>wo_started_at := (case wo_started_at o1 of None \<Rightarrow> Some now | t \<Rightarrow> t)\<rparr> in
      if wo_status o2 \<noteq> Wo_planned then Inr (o2, st)
      else let o3 = o2\<lparr>wo_status := Wo_started\<rparr> in
           map_sum id (\<lambda>st1. (o3, put_order o3 st1))
             (log_event (wo_id o1) Ev_started
                [(''quantity'', JStr (dec_text (dec3 (wo_quantity o1)))), (''operator_ref'', JStr (wo_operator_ref o1)),
                 (''position_ref'', JStr (wo_position_ref o1)), (''note'', JStr note), (''implicit'', JBool True)]
                actor None st))"

definition close_order ::
    "craft_env \<Rightarrow> int \<Rightarrow> work_order \<Rightarrow> decimal \<Rightarrow> decimal option \<Rightarrow> dict \<Rightarrow> finish_args \<Rightarrow> command \<Rightarrow> craft
     \<Rightarrow> craft_error + (work_order \<times> craft)" where
  "close_order env now o1 tot declared attempt a cm st =
     ebind (effective_qty o1 st) (\<lambda>started.
     ebind (materials env o1 started st) (\<lambda>mts.
     ebind (consumption_items now (cm_actor cm) (wo_id o1) mts a) (\<lambda>cons.
     ebind (output_items now (cm_actor cm) o1 tot a) (\<lambda>outs.
     ebind (waste_items now (cm_actor cm) o1 started tot a) (\<lambda>wastes.
     if \<not> partition_ok o1 started declared tot wastes a then Inl (Craft_error ''PARTITION_MISMATCH'')
     else ebind (bulk_create (map (material_item now (cm_actor cm) (wo_id o1) Requirement) mts
                    @ cons @ map fst outs @ map fst wastes) st) (\<lambda>st1.
          let v = column3 (dec_val tot);
              o2 = o1\<lparr>wo_finished := Some v, wo_status := Wo_finished, wo_finished_at := Some now\<rparr> in
          if 10 ^ 9 \<le> v then Inl Craft_integrity
          else map_sum id (\<lambda>st2. (o2, st2))
            (log_event (wo_id o1) Ev_finished (finished_payload env o1 started tot outs wastes attempt a)
               (cm_actor cm) (cm_key cm) (put_order o2 st1))))))))"

definition finish ::
    "craft_env \<Rightarrow> int \<Rightarrow> nat \<Rightarrow> finish_args \<Rightarrow> command \<Rightarrow> craft \<Rightarrow> craft_error + (work_order \<times> craft)" where
  "finish env now pk a cm st =
     ebind (finished_total a) (\<lambda>tot.
     ebind (declared_decimal a) (\<lambda>declared.
     ebind (finish_attempt declared a) (\<lambda>attempt.
     ebind (locked_order pk st) (\<lambda>o1.
     ebind (replayed (cm_key cm) (finish_matches pk attempt tot a cm) st) (\<lambda>old.
     case old of
       Some o2 \<Rightarrow> Inr (o2, st)
     | None \<Rightarrow>
         if wo_status o1 = Wo_finished \<or> wo_status o1 = Wo_void then Inl (Craft_error ''TERMINAL_STATUS'')
         else ebind (check_rev o1 (cm_rev cm) st) (\<lambda>(o2, st1).
              ebind (implicit_start now o2 (fa_note a) (cm_actor cm) st1) (\<lambda>(o3, st2).
              map_sum id (\<lambda>(o4, st3). (o4, announce pk ''finished'' st3))
                (close_order env now o3 tot declared attempt a cm st2))))))))"

end
