(* ===== verification/CraftLaws.thy ===== *)
theory CraftLaws
  imports CraftFinish
begin

text \<open>
  The contract of the production kernel: the audit log of a work order is its state. An
  abstract machine reads the events of an order (\<open>apply_event\<close>); every command appends the
  events that take the machine from the row before it to the row after it, raises the revision
  by one and touches no other order, or answers a replay and changes nothing.
\<close>

section \<open>The log as a machine\<close>

type_synonym wo_view = "wo_status \<times> int \<times> rat \<times> rat option"

definition log_view :: "work_order \<Rightarrow> wo_view" where
  "log_view o1 = (wo_status o1, wo_rev o1, wo_quantity o1, wo_finished o1)"

definition recorded :: "string \<Rightarrow> wo_event \<Rightarrow> rat" where
  "recorded k e = (case pget (we_payload e) k of
     JStr s \<Rightarrow> (case dec_parse s of Some d \<Rightarrow> column3 (dec_val d) | None \<Rightarrow> 0) | _ \<Rightarrow> 0)"

fun apply_event :: "wo_view \<Rightarrow> wo_event \<Rightarrow> wo_view option" where
  "apply_event (s, n, q, f) e =
     (case we_kind e of
        Ev_adjusted \<Rightarrow> if s = Wo_planned then Some (s, n + 1, recorded ''to'' e, f) else None
      | Ev_started \<Rightarrow>
          if s = Wo_planned
          then Some (Wo_started, if pget (we_payload e) ''implicit'' = JBool True then n else n + 1, q, f) else None
      | Ev_step_advanced \<Rightarrow> if s = Wo_started then Some (s, n + 1, q, f) else None
      | Ev_finished \<Rightarrow> if s = Wo_started then Some (Wo_finished, n + 1, q, Some (recorded ''finished_qty'' e)) else None
      | Ev_voided \<Rightarrow> if s = Wo_planned \<or> s = Wo_started then Some (Wo_void, n + 1, q, f) else None
      | _ \<Rightarrow> None)"

fun run_log :: "wo_view \<Rightarrow> wo_event list \<Rightarrow> wo_view option" where
  "run_log v [] = Some v"
| "run_log v (e # es) = (case apply_event v e of None \<Rightarrow> None | Some w \<Rightarrow> run_log w es)"

fun log_state :: "wo_event list \<Rightarrow> wo_view option" where
  "log_state [] = None"
| "log_state (e # es) =
     (if we_kind e = Ev_planned then run_log (Wo_planned, 0, recorded ''quantity'' e, None) es else None)"

lemma run_log_append: "run_log v (es @ fs) = Option.bind (run_log v es) (\<lambda>w. run_log w fs)"
  by (induction es arbitrary: v) (auto split: option.splits)

lemma log_state_append: "log_state es = Some v \<Longrightarrow> log_state (es @ fs) = run_log v fs"
  by (cases es) (auto simp: run_log_append split: if_splits)

definition order_log :: "nat \<Rightarrow> craft \<Rightarrow> wo_event list" where
  "order_log pk st = filter (\<lambda>e. we_order e = pk) (cr_events st)"

definition keys :: "wo_event list \<Rightarrow> string option list" where
  "keys es = filter (\<lambda>k. k \<noteq> None) (map we_key es)"

definition craft_ok :: "craft \<Rightarrow> bool" where
  "craft_ok st \<longleftrightarrow>
     map wo_id (cr_orders st) = [0..<length (cr_orders st)]
     \<and> distinct (map wo_ref (cr_orders st))
     \<and> (\<forall>o1 \<in> set (cr_orders st). wo_recipe o1 < length (cr_recipes st) \<and> 0 < wo_quantity o1
          \<and> log_state (order_log (wo_id o1) st) = Some (log_view o1))
     \<and> (\<forall>e \<in> set (cr_events st). we_order e < length (cr_orders st))
     \<and> (\<forall>pk. in_sequence (\<lambda>e. we_order e = pk) we_seq (cr_events st))
     \<and> distinct (keys (cr_events st))
     \<and> (\<forall>i \<in> set (cr_items st). 0 < wi_quantity i
          \<and> (\<exists>o1 \<in> set (cr_orders st). wo_id o1 = wi_order i \<and> wo_status o1 = Wo_finished))"

lemma craft_okD:
  assumes "craft_ok st"
  shows "map wo_id (cr_orders st) = [0..<length (cr_orders st)]" "distinct (map wo_ref (cr_orders st))"
    "\<And>o1. o1 \<in> set (cr_orders st) \<Longrightarrow> wo_recipe o1 < length (cr_recipes st)"
    "\<And>o1. o1 \<in> set (cr_orders st) \<Longrightarrow> 0 < wo_quantity o1"
    "\<And>o1. o1 \<in> set (cr_orders st) \<Longrightarrow> log_state (order_log (wo_id o1) st) = Some (log_view o1)"
    "\<And>e. e \<in> set (cr_events st) \<Longrightarrow> we_order e < length (cr_orders st)"
    "\<And>pk. in_sequence (\<lambda>e. we_order e = pk) we_seq (cr_events st)" "distinct (keys (cr_events st))"
    "\<And>i. i \<in> set (cr_items st) \<Longrightarrow> 0 < wi_quantity i
       \<and> (\<exists>o1 \<in> set (cr_orders st). wo_id o1 = wi_order i \<and> wo_status o1 = Wo_finished)"
  using assms unfolding craft_ok_def by blast+

lemma order_ids_distinct: "craft_ok st \<Longrightarrow> distinct (map wo_id (cr_orders st))"
  using craft_okD(1) by fastforce

lemma order_row_iff: "craft_ok st \<Longrightarrow> order_row pk st = Some o1 \<longleftrightarrow> o1 \<in> set (cr_orders st) \<and> wo_id o1 = pk"
  unfolding order_row_def by (rule row_get_Some_iff) (rule order_ids_distinct)

section \<open>Events\<close>

lemma in_keys: "k \<noteq> None \<Longrightarrow> k \<in> set (keys es) \<longleftrightarrow> (\<exists>e \<in> set es. we_key e = k)"
  by (auto simp: keys_def intro: rev_image_eqI)

lemma keys_append [simp]: "keys (es @ fs) = keys es @ keys fs"
  by (simp add: keys_def)

lemma keys_single: "keys [e] = (if we_key e = None then [] else [we_key e])"
  by (simp add: keys_def)

definition fresh_key :: "string option \<Rightarrow> wo_event list \<Rightarrow> bool" where
  "fresh_key k es \<longleftrightarrow> k \<notin> set (keys es)"

lemma add_event_Inr:
  "add_event e st = Inr st' \<longleftrightarrow> st' = st\<lparr>cr_events := cr_events st @ [e]\<rparr> \<and> fresh_key (we_key e) (cr_events st)
     \<and> \<not> (\<exists>x \<in> set (cr_events st). we_order x = we_order e \<and> we_seq x = we_seq e)"
  by (auto simp: add_event_def fresh_key_def keys_def intro: rev_image_eqI)

lemma last_seq_max: "scope r \<Longrightarrow> r \<in> set rows \<Longrightarrow> seq r \<le> last_seq scope seq rows"
proof -
  assume a: "scope r" "r \<in> set rows"
  then have "filter scope rows \<noteq> []" by (auto simp: filter_empty_conv)
  moreover have "seq r \<le> Max (seq ` set (filter scope rows))" using a by (intro Max_ge) auto
  ultimately show ?thesis by (simp add: last_seq_def fold_max_le)
qed

lemma last_seq_snoc:
  "last_seq scope seq (rows @ [r]) = (if scope r then max (seq r) (last_seq scope seq rows) else last_seq scope seq rows)"
  by (simp add: last_seq_def)

text \<open>The number of a new event is never taken.\<close>

lemma log_event_Inr:
  "log_event pk kind payload actor key st = Inr st' \<longleftrightarrow> fresh_key key (cr_events st)
     \<and> st' = st\<lparr>cr_events := cr_events st @ [\<lparr>we_order = pk, we_seq = next_seq pk st, we_kind = kind,
         we_payload = payload, we_actor = actor, we_key = key\<rparr>]\<rparr>"
proof -
  have "\<not> (\<exists>x \<in> set (cr_events st). we_order x = pk \<and> we_seq x = next_seq pk st)"
    using last_seq_max [of "\<lambda>e. we_order e = pk" _ "cr_events st" we_seq] by (fastforce simp: next_seq_def)
  then show ?thesis by (auto simp: log_event_def add_event_Inr)
qed

section \<open>What a command writes\<close>

text \<open>Everything of a row but what the log determines and its annotations.\<close>

definition wo_card :: "work_order \<Rightarrow> nat \<times> string \<times> nat \<times> string \<times> int option \<times> string \<times> json option" where
  "wo_card o1 = (wo_id o1, wo_ref o1, wo_recipe o1, wo_output_sku o1, wo_target o1, wo_source_ref o1,
     dget (wo_meta o1) ''_recipe_snapshot'')"

definition numbered_from :: "int \<Rightarrow> wo_event list \<Rightarrow> bool" where
  "numbered_from n es \<longleftrightarrow> map we_seq es = map (\<lambda>i. n + int i) [0..<length es]"

definition wrote :: "nat \<Rightarrow> wo_event list \<Rightarrow> work_order \<Rightarrow> work_order \<Rightarrow> craft \<Rightarrow> craft \<Rightarrow> bool" where
  "wrote pk es o1 o2 st st' \<longleftrightarrow>
     order_row pk st = Some o1 \<and> wo_card o2 = wo_card o1 \<and> 0 < wo_quantity o2 \<and> wo_rev o2 = wo_rev o1 + 1
     \<and> run_log (log_view o1) es = Some (log_view o2)
     \<and> cr_orders st' = row_put wo_id o2 (cr_orders st) \<and> cr_events st' = cr_events st @ es
     \<and> cr_recipes st' = cr_recipes st
     \<and> (\<forall>e \<in> set es. we_order e = pk) \<and> numbered_from (next_seq pk st) es
     \<and> distinct (keys es) \<and> set (keys es) \<inter> set (keys (cr_events st)) = {}
     \<and> (\<exists>rows. cr_items st' = cr_items st @ rows \<and> (\<forall>i \<in> set rows. wi_order i = pk \<and> 0 < wi_quantity i)
          \<and> (rows \<noteq> [] \<longrightarrow> wo_status o2 = Wo_finished))"

lemma apply_closed: "v = (Wo_finished, w) \<or> v = (Wo_void, w) \<Longrightarrow> apply_event v e = None"
  by (cases w) (auto split: event_kind.splits)

lemma wrote_live: "wrote pk es o1 o2 st st' \<Longrightarrow> wo_status o1 = Wo_planned \<or> wo_status o1 = Wo_started"
proof (rule ccontr)
  assume w: "wrote pk es o1 o2 st st'" and n: "\<not> (wo_status o1 = Wo_planned \<or> wo_status o1 = Wo_started)"
  then have closed: "wo_status o1 = Wo_finished \<or> wo_status o1 = Wo_void" by (cases "wo_status o1") auto
  have "es = []"
  proof (cases es)
    case (Cons e fs)
    have "apply_event (log_view o1) e = None"
      using closed by (intro apply_closed [of _ "snd (log_view o1)"]) (auto simp: log_view_def)
    with w Cons show ?thesis by (simp add: wrote_def)
  qed
  with w show False by (auto simp: wrote_def log_view_def)
qed

lemma numbered_append:
  assumes "in_sequence scope we_seq rows" "\<forall>e \<in> set es. scope e" "numbered_from (last_seq scope we_seq rows + 1) es"
  shows "in_sequence scope we_seq (rows @ es)"
proof -
  have "filter scope es = es" using assms(2) by simp
  moreover have "map (\<lambda>i. int n + int i) [0..<k] = map int [n..<n + k]" for n k
    by (induction k) auto
  ultimately show ?thesis
    using assms(1,3) by (simp add: in_sequence_append numbered_from_def last_seq_in_sequence)
qed

lemma order_log_append: "order_log pk (st\<lparr>cr_events := cr_events st @ es\<rparr>) = order_log pk st @ filter (\<lambda>e. we_order e = pk) es"
  by (simp add: order_log_def)

lemma wrote_ok:
  assumes ok: "craft_ok st" and w: "wrote pk es o1 o2 st st'"
  shows "craft_ok st'"
proof -
  note D = craft_okD [OF ok]
  from w have row: "order_row pk st = Some o1" and card: "wo_card o2 = wo_card o1"
    and ords: "cr_orders st' = row_put wo_id o2 (cr_orders st)" and evs: "cr_events st' = cr_events st @ es"
    and pks: "\<forall>e \<in> set es. we_order e = pk" and rec: "cr_recipes st' = cr_recipes st"
    by (auto simp: wrote_def)
  from row ok have mem: "o1 \<in> set (cr_orders st)" and pk: "wo_id o1 = pk" by (simp_all add: order_row_iff)
  from card pk have ids: "wo_id o2 = pk" "wo_ref o2 = wo_ref o1" "wo_recipe o2 = wo_recipe o1" by (simp_all add: wo_card_def)
  have ids': "map wo_id (cr_orders st') = map wo_id (cr_orders st)" using ords by simp
  have len: "length (cr_orders st') = length (cr_orders st)" using ords by simp
  have refs: "map wo_ref (cr_orders st') = map wo_ref (cr_orders st)"
  proof -
    have "wo_ref (if wo_id x = wo_id o2 then o2 else x) = wo_ref x" if "x \<in> set (cr_orders st)" for x
    proof (cases "wo_id x = wo_id o2")
      case True
      with that mem pk ids order_ids_distinct [OF ok] have "x = o1" by (auto simp: distinct_map inj_on_def)
      with True ids show ?thesis by simp
    qed simp
    then show ?thesis by (simp add: ords row_put_def)
  qed
  have members: "x \<in> set (cr_orders st') \<Longrightarrow> x = o2 \<or> x \<in> set (cr_orders st) \<and> wo_id x \<noteq> pk" for x
    using ids by (auto simp: ords set_row_put split: if_splits)
  have log: "order_log k st' = order_log k st @ (if k = pk then es else [])" for k
    using pks by (auto simp: order_log_def evs intro: filter_False filter_True)
  have seqs: "in_sequence (\<lambda>e. we_order e = k) we_seq (cr_events st')" for k
  proof (cases "k = pk")
    case True
    show ?thesis unfolding evs using D(7) pks w True
      by (intro numbered_append) (auto simp: wrote_def next_seq_def)
  next
    case False
    then have "filter (\<lambda>e. we_order e = k) es = []" using pks by (auto simp: filter_empty_conv)
    with D(7) show ?thesis by (simp add: evs in_sequence_other)
  qed
  have rows: "0 < wi_quantity i \<and> (\<exists>x \<in> set (cr_orders st'). wo_id x = wi_order i \<and> wo_status x = Wo_finished)"
    if i: "i \<in> set (cr_items st')" for i
  proof (cases "i \<in> set (cr_items st)")
    case True
    with D(9) obtain x where x: "0 < wi_quantity i" "x \<in> set (cr_orders st)" "wo_id x = wi_order i" "wo_status x = Wo_finished"
      by blast
    have "x \<noteq> o1" using wrote_live [OF w] x(4) by auto
    then have "wo_id x \<noteq> wo_id o2" using x(2) mem pk ids order_ids_distinct [OF ok] by (auto simp: distinct_map inj_on_def)
    with x show ?thesis by (auto simp: ords set_row_put)
  next
    case False
    with w i have "wi_order i = pk" "0 < wi_quantity i" "wo_status o2 = Wo_finished" by (auto simp: wrote_def)
    moreover have "pk \<in> wo_id ` set (cr_orders st)" using mem pk by (rule key_mem)
    ultimately show ?thesis using ids by (auto simp: ords set_row_put)
  qed
  have logs: "log_state (order_log (wo_id x) st') = Some (log_view x)" if "x \<in> set (cr_orders st')" for x
    using members [OF that] D(5) [OF mem] D(5) pk ids w by (auto simp: log log_state_append wrote_def)
  have old: "wo_recipe x < length (cr_recipes st') \<and> 0 < wo_quantity x" if "x \<in> set (cr_orders st')" for x
    using members [OF that] D(3) D(4) mem ids w rec by (auto simp: wrote_def)
  have "pk < length (cr_orders st)" using D(1) mem pk by (metis atLeastLessThan_iff image_eqI set_map set_upt)
  then have orders: "we_order e < length (cr_orders st')" if "e \<in> set (cr_events st')" for e
    using that D(6) pks by (auto simp: evs len)
  have "distinct (keys (cr_events st'))" using D(8) w by (auto simp: evs wrote_def)
  with old logs rows orders seqs D(1,2) ids' len refs show ?thesis by (simp add: craft_ok_def)
qed

section \<open>Every command\<close>

datatype wo_command =
    Adjust "decimal option" string string bool
  | Start "decimal option" start_args
  | Advance "int option" string
  | Finish finish_args
  | Void string string

fun exec :: "craft_env \<Rightarrow> int \<Rightarrow> nat \<Rightarrow> wo_command \<Rightarrow> command \<Rightarrow> craft \<Rightarrow> craft_error + (work_order \<times> craft)" where
  "exec env now pk (Adjust q reason result force) cm st = adjust env pk q reason result force cm st"
| "exec env now pk (Start q a) cm st = start now pk q a cm st"
| "exec env now pk (Advance i name) cm st = advance_step env now pk i name cm st"
| "exec env now pk (Finish a) cm st = finish env now pk a cm st"
| "exec env now pk (Void reason result) cm st = void pk reason result cm st"

text \<open>The commands end alike: the revision, the row and one event with the key of the command.\<close>

lemma locked_order_Inr [err]: "locked_order pk st = Inr o1 \<longleftrightarrow> order_row pk st = Some o1"
  by (simp add: locked_order_def err split: option.splits)

lemma check_rev_Inr [err]:
  "check_rev o1 expected st = Inr (o2, st') \<longleftrightarrow> (\<forall>e. expected = Some e \<longrightarrow> wo_rev o1 = e)
     \<and> o2 = o1\<lparr>wo_rev := wo_rev o1 + 1\<rparr> \<and> st' = put_order o2 st"
  by (auto simp: check_rev_def Let_def split: option.splits)

lemma put_twice: "wo_id o2 = wo_id o1 \<Longrightarrow> put_order o2 (put_order o1 st) = put_order o2 st"
  by (simp add: put_order_def row_put_def comp_def)

lemma put_order_fields [simp]:
  "cr_events (put_order o1 st) = cr_events st" "cr_items (put_order o1 st) = cr_items st"
  "cr_recipes (put_order o1 st) = cr_recipes st" "cr_recipe_items (put_order o1 st) = cr_recipe_items st"
  "next_seq pk (put_order o1 st) = next_seq pk st"
  by (simp_all add: put_order_def next_seq_def)

lemma announce_fields [simp]:
  "cr_orders (announce pk a st) = cr_orders st" "cr_events (announce pk a st) = cr_events st"
  "cr_items (announce pk a st) = cr_items st" "cr_recipes (announce pk a st) = cr_recipes st"
  by (simp_all add: announce_def)

lemma numbered_single [simp]: "numbered_from n [e] \<longleftrightarrow> we_seq e = n"
  by (simp add: numbered_from_def)

lemma wrote_single:
  assumes "order_row pk st = Some o1" "wo_card o2 = wo_card o1" "0 < wo_quantity o2" "wo_rev o2 = wo_rev o1 + 1"
    and "apply_event (log_view o1) e = Some (log_view o2)" "we_order e = pk" "we_seq e = next_seq pk st"
    and "fresh_key (we_key e) (cr_events st)"
    and "cr_orders st' = row_put wo_id o2 (cr_orders st)" "cr_events st' = cr_events st @ [e]"
    and "cr_recipes st' = cr_recipes st" "cr_items st' = cr_items st"
  shows "wrote pk [e] o1 o2 st st'"
  using assms by (simp add: wrote_def fresh_key_def keys_single)

lemma order_row_id: "order_row pk st = Some o1 \<Longrightarrow> wo_id o1 = pk"
  unfolding order_row_def by (blast dest: row_get_SomeD)

lemma order_row_quantity: "craft_ok st \<Longrightarrow> order_row pk st = Some o1 \<Longrightarrow> 0 < wo_quantity o1"
  by (simp add: order_row_iff craft_okD(4))

text \<open>An event written after the row of a command that raised the revision.\<close>

lemma logged_writes:
  assumes row: "order_row pk st = Some o1" and card: "wo_card o3 = wo_card o1" and q: "0 < wo_quantity o3"
    and rev: "wo_rev o3 = wo_rev o1 + 1"
    and step: "\<And>e. we_kind e = kind \<Longrightarrow> we_payload e = payload \<Longrightarrow> apply_event (log_view o1) e = Some (log_view o3)"
    and log: "log_event pk kind payload actor key (put_order o3 (put_order (o1\<lparr>wo_rev := n\<rparr>) st)) = Inr st'"
  shows "\<exists>e. we_key e = key \<and> wrote pk [e] o1 o3 st st'" "\<exists>e. we_key e = key \<and> wrote pk [e] o1 o3 st (announce pk a st')"
proof -
  let ?e = "\<lparr>we_order = pk, we_seq = next_seq pk st, we_kind = kind, we_payload = payload, we_actor = actor, we_key = key\<rparr>"
  have id: "wo_id o3 = wo_id o1" using card by (simp add: wo_card_def)
  have st': "fresh_key key (cr_events st)" "st' = put_order o3 st\<lparr>cr_events := cr_events st @ [?e]\<rparr>"
    using log id by (simp_all add: log_event_Inr put_twice)
  have "wrote pk [?e] o1 o3 st st'"
    using row card q rev step st' by (intro wrote_single) (simp_all add: put_order_def)
  moreover from this have "wrote pk [?e] o1 o3 st (announce pk a st')" by (simp add: wrote_def)
  ultimately show "\<exists>e. we_key e = key \<and> wrote pk [e] o1 o3 st st'"
    "\<exists>e. we_key e = key \<and> wrote pk [e] o1 o3 st (announce pk a st')" by (metis wo_event.select_convs(6))+
qed

definition command_done :: "nat \<Rightarrow> command \<Rightarrow> work_order \<Rightarrow> craft \<Rightarrow> craft \<Rightarrow> bool" where
  "command_done pk cm o2 st st' \<longleftrightarrow>
     st' = st \<and> cm_key cm \<noteq> None
     \<or> (\<exists>o1 es e. wrote pk (es @ [e]) o1 o2 st st' \<and> we_key e = cm_key cm \<and> keys es = []
          \<and> (\<forall>n. cm_rev cm = Some n \<longrightarrow> wo_rev o1 = n))"

lemma done_single:
  "\<exists>e. we_key e = cm_key cm \<and> wrote pk [e] o1 o2 st st' \<Longrightarrow> \<forall>n. cm_rev cm = Some n \<longrightarrow> wo_rev o1 = n \<Longrightarrow>
     command_done pk cm o2 st st'"
  unfolding command_done_def by (metis append_Nil keys_def list.map(1) filter.simps(1))

lemma replayed_some: "replayed key matches st = Inr (Some o1) \<Longrightarrow> key \<noteq> None"
  by (auto simp: replayed_def split: option.splits)

lemma void_writes:
  assumes "void pk reason result cm st = Inr (o2, st')" "craft_ok st"
  shows "command_done pk cm o2 st st'"
proof -
  from assms(1) obtain o1 old where row: "order_row pk st = Some o1"
    and old: "replayed (cm_key cm) (void_matches pk reason cm) st = Inr old"
    by (auto simp: void_def err)
  show ?thesis
  proof (cases old)
    case (Some o3)
    with assms row old show ?thesis by (auto simp: void_def err command_done_def dest: replayed_some)
  next
    case None
    let ?o3 = "o1\<lparr>wo_rev := wo_rev o1 + 1, wo_status := Wo_void\<rparr>"
    from assms row old None obtain st2 where live: "wo_status o1 \<noteq> Wo_finished" "wo_status o1 \<noteq> Wo_void"
      and rev: "\<forall>n. cm_rev cm = Some n \<longrightarrow> wo_rev o1 = n"
      and log: "log_event pk Ev_voided
          ([(''reason'', JStr reason), (''result'', JStr (if result = [] then ''cleared'' else result))] @ attempt_field (cm_attempt cm))
          (cm_actor cm) (cm_key cm) (put_order ?o3 (put_order (o1\<lparr>wo_rev := wo_rev o1 + 1\<rparr>) st)) = Inr st2"
      and res: "o2 = ?o3" "st' = announce pk ''voided'' st2"
      by (auto simp: void_def err Let_def locked_order_def split: if_splits)
    have "wo_status o1 = Wo_planned \<or> wo_status o1 = Wo_started" using live by (cases "wo_status o1") auto
    then show ?thesis unfolding res using rev row order_row_quantity [OF assms(2) row]
      by (intro done_single [OF logged_writes(2) [OF row _ _ _ _ log]]) (auto simp: wo_card_def log_view_def)
  qed
qed

lemma column_value_Inr [err]: "column_value r = Inr v \<longleftrightarrow> v = column3 r \<and> 0 < v \<and> v < 10 ^ 9"
  by (auto simp: column_value_def Let_def)

lemma recorded_text: "dget (we_payload e) k = Some (JStr (dec_text q)) \<Longrightarrow> recorded k e = column3 (dec_val q)"
  by (simp add: recorded_def pget_def dec_parse_text)

lemma adjust_writes:
  assumes "adjust_order env pk q reason result force cm st = Inr (o2, st')" "craft_ok st"
  shows "command_done pk cm o2 st st'"
proof -
  from assms(1) obtain o1 old where row: "order_row pk st = Some o1"
    and old: "replayed (cm_key cm) (adjust_matches pk q reason cm) st = Inr old"
    by (auto simp: adjust_order_def err)
  show ?thesis
  proof (cases old)
    case (Some o3)
    with assms row old show ?thesis by (auto simp: adjust_order_def err command_done_def dest: replayed_some)
  next
    case None
    let ?o3 = "o1\<lparr>wo_rev := wo_rev o1 + 1, wo_quantity := column3 (dec_val q)\<rparr>"
    let ?p = "[(''from'', JStr (dec_text (dec3 (wo_quantity o1)))), (''to'', JStr (dec_text q)), (''reason'', JStr reason),
        (''result'', JStr (if result = [] then ''adjusted'' else result))] @ attempt_field (cm_attempt cm)"
    from assms row old None obtain st2 where live: "wo_status o1 = Wo_planned" "0 < column3 (dec_val q)"
      and rev: "\<forall>n. cm_rev cm = Some n \<longrightarrow> wo_rev o1 = n"
      and log: "log_event pk Ev_adjusted ?p (cm_actor cm) (cm_key cm)
                 (put_order ?o3 (put_order (o1\<lparr>wo_rev := wo_rev o1 + 1\<rparr>) st)) = Inr st2"
      and res: "o2 = ?o3" "st' = announce pk ''adjusted'' st2"
      by (auto simp: adjust_order_def err Let_def locked_order_def split: if_splits)
    show ?thesis unfolding res using rev live
      by (intro done_single [OF logged_writes(2) [OF row _ _ _ _ log]]) (auto simp: wo_card_def log_view_def recorded_text)
  qed
qed

lemma start_writes:
  assumes "start now pk quantity a cm st = Inr (o2, st')" "craft_ok st"
  shows "command_done pk cm o2 st st'"
proof -
  from assms(1) obtain q o1 old where q: "quantity = Some q" "0 < dec_val q" and row: "order_row pk st = Some o1"
    and old: "replayed (cm_key cm) (start_matches pk q a cm) st = Inr old"
    by (auto simp: start_def err read_quantity_def split: option.splits if_splits)
  show ?thesis
  proof (cases old)
    case (Some o3)
    with assms q row old show ?thesis
      by (auto simp: start_def err read_quantity_def command_done_def dest: replayed_some)
  next
    case None
    let ?o2 = "o1\<lparr>wo_rev := wo_rev o1 + 1\<rparr>"
    let ?o3 = "?o2\<lparr>wo_started_at := (case wo_started_at ?o2 of None \<Rightarrow> Some now | t \<Rightarrow> t),
        wo_status := Wo_started, wo_operator_ref := case_option (wo_operator_ref ?o2) id (sa_operator a),
        wo_position_ref := case_option (wo_position_ref ?o2) id (sa_position a)\<rparr>"
    let ?p = "[(''quantity'', JStr (dec_text q)), (''operator_ref'', JStr (wo_operator_ref ?o3)),
        (''position_ref'', JStr (wo_position_ref ?o3)), (''note'', JStr (sa_note a))] @ attempt_field (cm_attempt cm)"
    from assms q row old None obtain st2 where live: "wo_status o1 = Wo_planned"
      and rev: "\<forall>n. cm_rev cm = Some n \<longrightarrow> wo_rev o1 = n"
      and log: "log_event pk Ev_started ?p (cm_actor cm) (cm_key cm)
                 (put_order ?o3 (put_order (o1\<lparr>wo_rev := wo_rev o1 + 1\<rparr>) st)) = Inr st2"
      and res: "o2 = ?o3" "st' = announce pk ''started'' st2"
      by (auto simp: start_def err read_quantity_def Let_def locked_order_def split: if_splits)
    have "pget ?p ''implicit'' \<noteq> JBool True" by (simp add: pget_def attempt_field_def)
    then show ?thesis unfolding res using rev live order_row_quantity [OF assms(2) row]
      by (intro done_single [OF logged_writes(2) [OF row _ _ _ _ log]]) (auto simp: wo_card_def log_view_def)
  qed
qed

lemma advance_writes:
  assumes "advance_step env now pk i name cm st = Inr (o2, st')" "craft_ok st"
  shows "command_done pk cm o2 st st'"
proof -
  from assms(1) obtain n o1 old where n: "i = Some n" "0 < n" and row: "order_row pk st = Some o1"
    and old: "replayed (cm_key cm) (step_matches pk n name cm) st = Inr old"
    by (auto simp: advance_step_def err split: option.splits if_splits)
  show ?thesis
  proof (cases old)
    case (Some o3)
    with assms n row old show ?thesis by (auto simp: advance_step_def err command_done_def dest: replayed_some)
  next
    case None
    define m where "m = dset ''steps_progress_updated_at'' (JStr (ce_stamp_text env now))
        (dset ''steps_progress_actor'' (JStr (cm_actor cm)) (dset ''steps_progress'' (JNum n) (wo_meta o1)))"
    let ?o3 = "o1\<lparr>wo_rev := wo_rev o1 + 1, wo_meta := m\<rparr>"
    let ?p = "[(''step_index'', JNum n), (''step_name'', JStr name), (''attempt'', step_attempt (JNum n) (JStr name))]"
    from assms n row old None obtain st2 where live: "wo_status o1 = Wo_started"
      and rev: "\<forall>n. cm_rev cm = Some n \<longrightarrow> wo_rev o1 = n"
      and log: "log_event pk Ev_step_advanced ?p (cm_actor cm) (cm_key cm)
                 (put_order ?o3 (put_order (o1\<lparr>wo_rev := wo_rev o1 + 1\<rparr>) st)) = Inr st2"
      and res: "o2 = ?o3" "st' = st2"
      by (auto simp: advance_step_def err Let_def locked_order_def m_def split: if_splits)
    show ?thesis unfolding res using rev live order_row_quantity [OF assms(2) row]
      by (intro done_single [OF logged_writes(1) [OF row _ _ _ _ log]]) (auto simp: wo_card_def log_view_def m_def)
  qed
qed

section \<open>Finish\<close>

text \<open>The quantity that entered production; a planned order enters with what was planned.\<close>

definition entered :: "work_order \<Rightarrow> craft \<Rightarrow> craft_error + decimal" where
  "entered o1 st = (if wo_status o1 = Wo_planned then Inr (dec3 (wo_quantity o1)) else effective_qty o1 st)"

lemma new_item_order [simp]: "wi_order (new_item now actor pk kind ref q unit meta) = pk"
  by (simp add: new_item_def)

lemma material_item_order [simp]: "wi_order (material_item now actor pk kind mt) = pk"
  by (simp add: material_item_def)

lemma line_item_order: "line_item now actor pk kind v = Inr (i, q) \<Longrightarrow> wi_order i = pk"
  by (auto simp: line_item_def err)

lemma emap_all: "emap f xs = Inr ys \<Longrightarrow> (\<And>x y. f x = Inr y \<Longrightarrow> P y) \<Longrightarrow> \<forall>y \<in> set ys. P y"
  unfolding emap_Inr by (induction rule: list_all2_induct) auto

lemma line_items_order: "emap (line_item now actor pk kind) ls = Inr rows \<Longrightarrow> \<forall>r \<in> set rows. wi_order (fst r) = pk"
  by (erule emap_all) (auto dest: line_item_order)

lemma consumption_order: "consumption_items now actor pk mts a = Inr rows \<Longrightarrow> \<forall>i \<in> set rows. wi_order i = pk"
  by (auto simp: consumption_items_def err dest!: line_items_order split: option.splits)

lemma output_order: "output_items now actor o1 tot a = Inr rows \<Longrightarrow> \<forall>r \<in> set rows. wi_order (fst r) = wo_id o1"
  by (auto simp: output_items_def dest!: line_items_order split: amounts.splits)

lemma waste_order: "waste_items now actor o1 started tot a = Inr rows \<Longrightarrow> \<forall>r \<in> set rows. wi_order (fst r) = wo_id o1"
  by (auto simp: waste_items_def err Let_def dest!: line_items_order split: option.splits amounts.splits if_splits)

definition stored :: "wo_item \<Rightarrow> wo_item \<Rightarrow> bool" where
  "stored i j \<longleftrightarrow> j = i\<lparr>wi_quantity := column3 (wi_quantity i)\<rparr> \<and> 0 < wi_quantity j \<and> wi_quantity j < 10 ^ 9"

lemma store_item_Inr: "store_item i = Inr j \<longleftrightarrow> stored i j"
  by (auto simp: store_item_def stored_def err)

lemma bulk_create_Inr:
  "bulk_create rows st = Inr st' \<longleftrightarrow> (\<exists>new. list_all2 stored rows new \<and> st' = st\<lparr>cr_items := cr_items st @ new\<rparr>)"
  by (simp add: bulk_create_def map_sum_Inr emap_Inr store_item_Inr)

lemma stored_rows:
  assumes "list_all2 stored rows new" "\<forall>i \<in> set rows. wi_order i = pk"
  shows "\<forall>j \<in> set new. wi_order j = pk \<and> 0 < wi_quantity j"
proof
  fix j assume "j \<in> set new"
  with assms(1) obtain i where "i \<in> set rows" "stored i j" by (metis in_set_conv_nth list_all2_conv_all_nth)
  then have "wi_order j = wi_order i" "0 < wi_quantity j" by (auto simp: stored_def)
  with assms(2) \<open>i \<in> set rows\<close> show "wi_order j = pk \<and> 0 < wi_quantity j" by simp
qed

lemma close_order_writes:
  assumes "close_order env now o1 tot declared attempt a cm st = Inr (o2, st')"
  shows "\<exists>e rows. o2 = o1\<lparr>wo_finished := Some (column3 (dec_val tot)), wo_status := Wo_finished, wo_finished_at := Some now\<rparr>
    \<and> fresh_key (cm_key cm) (cr_events st) \<and> we_order e = wo_id o1 \<and> we_kind e = Ev_finished
    \<and> we_seq e = next_seq (wo_id o1) st \<and> we_key e = cm_key cm \<and> recorded ''finished_qty'' e = column3 (dec_val tot)
    \<and> cr_orders st' = row_put wo_id o2 (cr_orders st) \<and> cr_events st' = cr_events st @ [e]
    \<and> cr_recipes st' = cr_recipes st \<and> cr_items st' = cr_items st @ rows
    \<and> (\<forall>i \<in> set rows. wi_order i = wo_id o1 \<and> 0 < wi_quantity i)"
proof -
  let ?o2 = "o1\<lparr>wo_finished := Some (column3 (dec_val tot)), wo_status := Wo_finished, wo_finished_at := Some now\<rparr>"
  from assms obtain started mts cons outs wastes new where
    cons: "consumption_items now (cm_actor cm) (wo_id o1) mts a = Inr cons"
    and outs: "output_items now (cm_actor cm) o1 tot a = Inr outs"
    and wastes: "waste_items now (cm_actor cm) o1 started tot a = Inr wastes"
    and new: "list_all2 stored
        (map (material_item now (cm_actor cm) (wo_id o1) Requirement) mts @ cons @ map fst outs @ map fst wastes) new"
    and log: "log_event (wo_id o1) Ev_finished (finished_payload env o1 started tot outs wastes attempt a)
        (cm_actor cm) (cm_key cm) (put_order ?o2 (st\<lparr>cr_items := cr_items st @ new\<rparr>)) = Inr st'"
    and o2: "o2 = ?o2"
    by (auto simp: close_order_def ebind_Inr map_sum_Inr if_Inl_Inr bulk_create_Inr Let_def)
  have rows: "\<forall>j \<in> set new. wi_order j = wo_id o1 \<and> 0 < wi_quantity j"
    using consumption_order [OF cons] output_order [OF outs] waste_order [OF wastes]
    by (intro stored_rows [OF new]) auto
  let ?p = "finished_payload env o1 started tot outs wastes attempt a"
  have "dget ?p ''finished_qty'' = Some (JStr (dec_text tot))" by (simp add: finished_payload_def)
  then have rec: "we_payload e = ?p \<Longrightarrow> recorded ''finished_qty'' e = column3 (dec_val tot)" for e
    by (simp add: recorded_text)
  from log have "fresh_key (cm_key cm) (cr_events st)"
    "st' = put_order ?o2 (st\<lparr>cr_items := cr_items st @ new\<rparr>)\<lparr>cr_events := cr_events st @
       [\<lparr>we_order = wo_id o1, we_seq = next_seq (wo_id o1) st, we_kind = Ev_finished, we_payload = ?p,
         we_actor = cm_actor cm, we_key = cm_key cm\<rparr>]\<rparr>"
    by (simp_all add: log_event_Inr) (simp add: next_seq_def put_order_def)
  with rows rec show ?thesis unfolding o2
    by (intro exI conjI) (auto simp: put_order_def)
qed

lemma numbered_pair [simp]: "numbered_from n [e, f] \<longleftrightarrow> we_seq e = n \<and> we_seq f = n + 1"
  by (simp add: numbered_from_def upt_rec)

lemma implicit_start_cases:
  assumes "implicit_start now o1 note actor st = Inr (o2, st')"
  shows "wo_card o2 = wo_card o1 \<and> wo_rev o2 = wo_rev o1 \<and> wo_quantity o2 = wo_quantity o1 \<and> wo_finished o2 = wo_finished o1
    \<and> wo_meta o2 = wo_meta o1 \<and> cr_items st' = cr_items st \<and> cr_recipes st' = cr_recipes st
    \<and> (wo_status o1 \<noteq> Wo_planned \<and> wo_status o2 = wo_status o1 \<and> st' = st
      \<or> wo_status o1 = Wo_planned \<and> wo_status o2 = Wo_started
        \<and> (\<exists>e. we_order e = wo_id o1 \<and> we_kind e = Ev_started \<and> we_seq e = next_seq (wo_id o1) st \<and> we_key e = None
            \<and> pget (we_payload e) ''implicit'' = JBool True
            \<and> dget (we_payload e) ''quantity'' = Some (JStr (dec_text (dec3 (wo_quantity o1))))
            \<and> st' = put_order o2 (st\<lparr>cr_events := cr_events st @ [e]\<rparr>)))"
proof (cases "wo_status o1 = Wo_planned")
  case True
  let ?o2 = "o1\<lparr>wo_started_at := (case wo_started_at o1 of None \<Rightarrow> Some now | t \<Rightarrow> t), wo_status := Wo_started\<rparr>"
  let ?p = "[(''quantity'', JStr (dec_text (dec3 (wo_quantity o1)))), (''operator_ref'', JStr (wo_operator_ref o1)),
      (''position_ref'', JStr (wo_position_ref o1)), (''note'', JStr note), (''implicit'', JBool True)]"
  let ?e = "\<lparr>we_order = wo_id o1, we_seq = next_seq (wo_id o1) st, we_kind = Ev_started, we_payload = ?p,
      we_actor = actor, we_key = None\<rparr>"
  from assms True have "o2 = ?o2" "st' = put_order ?o2 (st\<lparr>cr_events := cr_events st @ [?e]\<rparr>)"
    by (auto simp: implicit_start_def Let_def err log_event_Inr)
  moreover have "pget ?p ''implicit'' = JBool True" "dget ?p ''quantity'' = Some (JStr (dec_text (dec3 (wo_quantity o1))))"
    by (simp_all add: pget_def)
  ultimately show ?thesis using True by (auto simp: wo_card_def intro!: exI [of _ ?e])
next
  case False
  with assms show ?thesis by (auto simp: implicit_start_def Let_def wo_card_def)
qed

lemma finish_writes:
  assumes "finish env now pk a cm st = Inr (o2, st')" "craft_ok st"
  shows "command_done pk cm o2 st st'"
proof -
  from assms(1) obtain tot declared attempt o1 old where row: "order_row pk st = Some o1"
    and args: "finished_total a = Inr tot" "declared_decimal a = Inr declared" "finish_attempt declared a = Inr attempt"
    and old: "replayed (cm_key cm) (finish_matches pk attempt tot a cm) st = Inr old"
    by (auto simp: finish_def err)
  show ?thesis
  proof (cases old)
    case (Some o3)
    with assms args row old show ?thesis by (auto simp: finish_def err command_done_def dest: replayed_some)
  next
    case None
    let ?o2 = "o1\<lparr>wo_rev := wo_rev o1 + 1\<rparr>"
    from assms args row old None obtain o3 st2 st3 where live: "wo_status o1 \<noteq> Wo_finished" "wo_status o1 \<noteq> Wo_void"
      and rev: "\<forall>n. cm_rev cm = Some n \<longrightarrow> wo_rev o1 = n"
      and imp: "implicit_start now ?o2 (fa_note a) (cm_actor cm) (put_order ?o2 st) = Inr (o3, st2)"
      and close: "close_order env now o3 tot declared attempt a cm st2 = Inr (o2, st3)"
      and res: "st' = announce pk ''finished'' st3"
      by (auto simp: finish_def err locked_order_def split: if_splits)
    have id: "wo_id o1 = pk" using row by (rule order_row_id)
    note I = implicit_start_cases [OF imp]
    then have id3: "wo_id o3 = pk" using id by (auto simp: wo_card_def)
    obtain e rows where C: "o2 = o3\<lparr>wo_finished := Some (column3 (dec_val tot)), wo_status := Wo_finished, wo_finished_at := Some now\<rparr>"
      "fresh_key (cm_key cm) (cr_events st2)" "we_order e = pk" "we_kind e = Ev_finished" "we_seq e = next_seq pk st2"
      "we_key e = cm_key cm" "recorded ''finished_qty'' e = column3 (dec_val tot)"
      "cr_orders st3 = row_put wo_id o2 (cr_orders st2)" "cr_events st3 = cr_events st2 @ [e]"
      "cr_recipes st3 = cr_recipes st2" "cr_items st3 = cr_items st2 @ rows" "\<forall>i \<in> set rows. wi_order i = pk \<and> 0 < wi_quantity i"
      using close_order_writes [OF close] unfolding id3 by blast
    have card: "wo_card o2 = wo_card o1" "wo_rev o2 = wo_rev o1 + 1" "wo_quantity o2 = wo_quantity o1"
      using I C(1) by (auto simp: wo_card_def)
    have id2: "wo_id o2 = pk" using card(1) id by (simp add: wo_card_def)
    have q: "0 < wo_quantity o2" using card(3) order_row_quantity [OF assms(2) row] by simp
    have key: "keys [e] = [] \<or> keys [e] = [cm_key cm]" using C(6) by (simp add: keys_single)
    show ?thesis
    proof (cases "wo_status o1 = Wo_planned")
      case False
      then have st: "wo_status o1 = Wo_started" using live by (cases "wo_status o1") auto
      with I False have st2: "st2 = put_order ?o2 st" "wo_status o3 = Wo_started" by auto
      have "wrote pk [e] o1 o2 st (announce pk ''finished'' st3)"
        unfolding wrote_def using row card q I C st st2 id id2 key
        by (auto simp: log_view_def put_order_def row_put_def fresh_key_def next_seq_def keys_def)
      then show ?thesis unfolding res using rev C(6) by (intro done_single) auto
    next
      case True
      with I obtain e1 where e1: "we_order e1 = pk" "we_kind e1 = Ev_started" "we_seq e1 = next_seq pk st" "we_key e1 = None"
        "pget (we_payload e1) ''implicit'' = JBool True" "wo_status o3 = Wo_started"
        "st2 = put_order o3 (put_order ?o2 st\<lparr>cr_events := cr_events st @ [e1]\<rparr>)"
        using id by auto
      have seq: "we_seq e = next_seq pk st + 1"
        using C(5) e1 last_seq_snoc [of "\<lambda>x. we_order x = pk" we_seq "cr_events st" e1]
        by (simp add: next_seq_def put_order_def)
      have ev: "cr_events st2 = cr_events st @ [e1]" "cr_orders st2 = row_put wo_id o3 (row_put wo_id ?o2 (cr_orders st))"
        using e1(7) by (simp_all add: put_order_def)
      have ord: "cr_orders st3 = row_put wo_id o2 (cr_orders st)"
        unfolding C(8) ev(2) using id id3 id2 by (simp add: row_put_def comp_def)
      have k1: "keys [e1] = []" using e1(4) by (simp add: keys_single)
      have "wrote pk ([e1] @ [e]) o1 o2 st (announce pk ''finished'' st3)"
        unfolding wrote_def
      proof (intro conjI)
        show "run_log (log_view o1) ([e1] @ [e]) = Some (log_view o2)"
          using C(1,4,7) e1 True I by (simp add: log_view_def)
        have fresh: "fresh_key (cm_key cm) (cr_events st)" using C(2) k1 by (simp add: ev fresh_key_def)
        show "distinct (keys ([e1] @ [e]))" "set (keys ([e1] @ [e])) \<inter> set (keys (cr_events st)) = {}"
          unfolding keys_append using key k1 fresh by (auto simp: fresh_key_def)
        show "\<exists>new. cr_items (announce pk ''finished'' st3) = cr_items st @ new
            \<and> (\<forall>i \<in> set new. wi_order i = pk \<and> 0 < wi_quantity i) \<and> (new \<noteq> [] \<longrightarrow> wo_status o2 = Wo_finished)"
          using C(1,11,12) I by auto
      qed (use row card q C e1 ev seq ord I in simp_all)
      moreover note k1
      ultimately show ?thesis unfolding res command_done_def using rev C(6) by blast
    qed
  qed
qed

lemma exec_writes:
  assumes "exec env now pk c cm st = Inr (o2, st')" "craft_ok st"
  shows "command_done pk cm o2 st st'"
proof (cases c)
  case (Adjust q reason result force)
  with assms show ?thesis
    by (auto simp: adjust_def err read_quantity_def split: option.splits if_splits intro: void_writes adjust_writes)
qed (use assms start_writes advance_writes finish_writes void_writes in auto)

end
