(* ===== verification/CraftRuns.thy ===== *)
theory CraftRuns
  imports CraftLaws
begin

text \<open>
  Runs of the production kernel: work orders are planned, one by one and in batches, commanded,
  and recipes are edited between the commands. Every step keeps the contract of \<open>CraftLaws\<close>,
  only appends to the audit log and to the ledger of materials, and either leaves the row of a
  work order as it is or raises its revision.
\<close>

section \<open>Planning\<close>

lemma create_Inr:
  assumes "create_work_order env now r q date a cm st = Inr (o1, st')" "craft_ok st"
  shows "\<exists>e ref. r < length (cr_recipes st) \<and> wo_id o1 = length (cr_orders st) \<and> wo_ref o1 = ref
     \<and> ref \<notin> wo_ref ` set (cr_orders st) \<and> wo_recipe o1 = r \<and> wo_quantity o1 = column3 (dec_val q) \<and> 0 < wo_quantity o1
     \<and> log_view o1 = (Wo_planned, 0, column3 (dec_val q), None)
     \<and> cr_orders st' = cr_orders st @ [o1] \<and> cr_events st' = cr_events st @ [e]
     \<and> cr_items st' = cr_items st \<and> cr_recipes st' = cr_recipes st
     \<and> we_order e = wo_id o1 \<and> we_seq e = 0 \<and> we_kind e = Ev_planned \<and> recorded ''quantity'' e = column3 (dec_val q)
     \<and> we_key e = cm_key cm \<and> fresh_key (cm_key cm) (cr_events st)"
proof -
  have grid: "column3 (dec_val q) = dec_val q" if "valid_quantity q"
  proof (rule column3_same)
    have "dec_val q * 1000 = of_int (dec_coef q * 10 ^ (3 - dec_places q))"
      using that power_add [of "10::rat" "dec_places q" "3 - dec_places q"]
      by (simp add: valid_quantity_def dec_val_def field_simps)
    then show "dec_val q * 1000 \<in> \<int>" by simp
  qed
  obtain ref st1 where ref: "generate_ref env now st = (ref, st1)" by (cases "generate_ref env now st")
  then have st1: "cr_events st1 = cr_events st" "cr_items st1 = cr_items st" "cr_recipes st1 = cr_recipes st"
    by (auto simp: generate_ref_def next_value_def Let_def)
  show ?thesis
    using assms(1) grid ref st1
    by (auto simp: create_work_order_def err Let_def add_event_Inr log_view_def recorded_def pget_def
        dec_parse_text valid_quantity_def split: if_splits)
qed

lemma keys_snoc: "fresh_key (we_key e) es \<Longrightarrow> distinct (keys es) \<Longrightarrow> distinct (keys (es @ [e]))"
  by (simp add: keys_single fresh_key_def)

lemma create_ok:
  assumes "create_work_order env now r q date a cm st = Inr (o1, st')" and ok: "craft_ok st"
  shows "craft_ok st'"
proof -
  note D = craft_okD [OF ok]
  let ?n = "length (cr_orders st)"
  obtain e where C: "r < length (cr_recipes st)" "wo_id o1 = ?n" "wo_ref o1 \<notin> wo_ref ` set (cr_orders st)"
    "wo_recipe o1 = r" "0 < wo_quantity o1" "log_view o1 = (Wo_planned, 0, column3 (dec_val q), None)"
    "cr_orders st' = cr_orders st @ [o1]" "cr_events st' = cr_events st @ [e]"
    "cr_items st' = cr_items st" "cr_recipes st' = cr_recipes st"
    "we_order e = ?n" "we_seq e = 0" "we_kind e = Ev_planned" "recorded ''quantity'' e = column3 (dec_val q)"
    "fresh_key (we_key e) (cr_events st)"
    using create_Inr [OF assms] by auto
  have empty: "order_log ?n st = []" using D(6) by (force simp: order_log_def filter_empty_conv)
  have below: "wo_id x < ?n" if "x \<in> set (cr_orders st)" for x
    using D(1) that by (metis atLeastLessThan_iff image_eqI set_map set_upt)
  have logs: "log_state (order_log (wo_id x) st') = Some (log_view x)" if "x \<in> set (cr_orders st')" for x
  proof (cases "x = o1")
    case True
    with empty C show ?thesis by (simp add: order_log_def)
  next
    case False
    with that C(7) have x: "x \<in> set (cr_orders st)" by simp
    with below have "order_log (wo_id x) st' = order_log (wo_id x) st" using C(8,11) by (fastforce simp: order_log_def)
    with D(5) x show ?thesis by simp
  qed
  have seqs: "in_sequence (\<lambda>e. we_order e = pk) we_seq (cr_events st')" for pk
    using D(7) [of pk] empty C(8,11,12)
    by (auto simp: in_sequence_snoc order_log_def last_seq_def)
  have keys: "distinct (keys (cr_events st'))" unfolding C(8) using C(15) D(8) by (rule keys_snoc)
  show ?thesis unfolding craft_ok_def
  proof (intro conjI)
    show "map wo_id (cr_orders st') = [0..<length (cr_orders st')]" using C(2,7) D(1) by simp
    show "distinct (map wo_ref (cr_orders st'))" using C(3,7) D(2) by simp
    show "\<forall>x \<in> set (cr_orders st'). wo_recipe x < length (cr_recipes st') \<and> 0 < wo_quantity x
        \<and> log_state (order_log (wo_id x) st') = Some (log_view x)"
      using logs C D(3,4) by auto
    show "\<forall>e \<in> set (cr_events st'). we_order e < length (cr_orders st')" using C D(6) by (auto simp: less_Suc_eq)
    show "\<forall>i \<in> set (cr_items st'). 0 < wi_quantity i
        \<and> (\<exists>x \<in> set (cr_orders st'). wo_id x = wi_order i \<and> wo_status x = Wo_finished)"
      using D(9) C by auto
  qed (use seqs keys in simp_all)
qed

section \<open>Runs\<close>

inductive craft_step :: "craft_env \<Rightarrow> craft \<Rightarrow> craft \<Rightarrow> bool" for env where
  Planned: "plan env now r q date a cm st = Inr (o1, st') \<Longrightarrow> craft_step env st st'"
| Batched: "plan_batch env now rs date a cm st = Inr (os, st') \<Longrightarrow> craft_step env st st'"
| Commanded: "exec env now pk c cm st = Inr (o1, st') \<Longrightarrow> craft_step env st st'"
| Recipes_edited: "length (cr_recipes st) \<le> length rs \<Longrightarrow>
    craft_step env st (st\<lparr>cr_recipes := rs, cr_recipe_items := items\<rparr>)"

abbreviation craft_run :: "craft_env \<Rightarrow> craft \<Rightarrow> craft \<Rightarrow> bool" where
  "craft_run env \<equiv> (craft_step env)\<^sup>*\<^sup>*"

definition craft_init :: "recipe list \<Rightarrow> recipe_item list \<Rightarrow> craft" where
  "craft_init rs items = \<lparr>cr_recipes = rs, cr_recipe_items = items, cr_orders = [], cr_events = [],
     cr_items = [], cr_sequences = [], cr_signals = []\<rparr>"

lemma craft_init_ok [simp]: "craft_ok (craft_init rs items)"
  by (simp add: craft_ok_def craft_init_def keys_def)

text \<open>What no step undoes: the row of an order stays or its revision grows, rows are only added.\<close>

definition later :: "craft \<Rightarrow> craft \<Rightarrow> bool" where
  "later st st' \<longleftrightarrow>
     (\<forall>pk o1. order_row pk st = Some o1 \<longrightarrow> (\<exists>o2. order_row pk st' = Some o2 \<and> wo_card o2 = wo_card o1
        \<and> (o2 = o1 \<or> wo_rev o1 < wo_rev o2 \<and> (wo_status o1 = Wo_planned \<or> wo_status o1 = Wo_started))))
     \<and> (\<exists>es. cr_events st' = cr_events st @ es) \<and> (\<exists>rows. cr_items st' = cr_items st @ rows)
     \<and> (\<forall>pk o1. order_row pk st = Some o1 \<and> wo_status o1 \<noteq> Wo_planned \<and> wo_status o1 \<noteq> Wo_started \<longrightarrow>
          filter (\<lambda>i. wi_order i = pk) (cr_items st') = filter (\<lambda>i. wi_order i = pk) (cr_items st))"

lemma later_refl [simp]: "later st st"
  by (auto simp: later_def)

lemma later_row:
  assumes "later st st'" "order_row pk st = Some o1"
  shows "\<exists>o2. order_row pk st' = Some o2 \<and> wo_card o2 = wo_card o1
    \<and> (o2 = o1 \<or> wo_rev o1 < wo_rev o2 \<and> (wo_status o1 = Wo_planned \<or> wo_status o1 = Wo_started))"
  using assms unfolding later_def by blast

lemma later_closed:
  assumes "later st st'" "order_row pk st = Some o1" "wo_status o1 = Wo_finished \<or> wo_status o1 = Wo_void"
  shows "order_row pk st' = Some o1" "filter (\<lambda>i. wi_order i = pk) (cr_items st') = filter (\<lambda>i. wi_order i = pk) (cr_items st)"
proof -
  show "order_row pk st' = Some o1" using later_row [OF assms(1,2)] assms(3) by auto
  have "wo_status o1 \<noteq> Wo_planned \<and> wo_status o1 \<noteq> Wo_started" using assms(3) by auto
  with assms(1,2) show "filter (\<lambda>i. wi_order i = pk) (cr_items st') = filter (\<lambda>i. wi_order i = pk) (cr_items st)"
    unfolding later_def by blast
qed

lemma later_trans: "later a b \<Longrightarrow> later b c \<Longrightarrow> later a c"
  unfolding later_def
proof (intro conjI allI impI, goal_cases)
  case (1 pk o1)
  then obtain o2 where o2: "order_row pk b = Some o2" "wo_card o2 = wo_card o1"
    "o2 = o1 \<or> wo_rev o1 < wo_rev o2 \<and> (wo_status o1 = Wo_planned \<or> wo_status o1 = Wo_started)" by blast
  with 1 obtain o3 where "order_row pk c = Some o3" "wo_card o3 = wo_card o2"
    "o3 = o2 \<or> wo_rev o2 < wo_rev o3 \<and> (wo_status o2 = Wo_planned \<or> wo_status o2 = Wo_started)" by blast
  with o2 show ?case by auto
next
  case (4 pk o1)
  then obtain o2 where "order_row pk b = Some o2" "o2 = o1" by blast
  with 4 show ?case by simp
qed (metis append.assoc)+

lemma wrote_later: "wrote pk es o1 o2 st st' \<Longrightarrow> later st st'"
proof -
  assume w: "wrote pk es o1 o2 st st'"
  note live = wrote_live [OF w]
  have id: "wo_id o2 = pk" using w order_row_id by (auto simp: wrote_def wo_card_def)
  have "order_row k st' = (if k = pk then map_option (\<lambda>_. o2) (order_row k st) else order_row k st)" for k
    using w id by (simp add: order_row_def wrote_def row_get_put)
  moreover from w obtain rows where rows: "cr_items st' = cr_items st @ rows" "\<forall>i \<in> set rows. wi_order i = pk"
    by (auto simp: wrote_def)
  moreover have "filter (\<lambda>i. wi_order i = k) rows = []"
    if "order_row k st = Some x" "wo_status x \<noteq> Wo_planned" "wo_status x \<noteq> Wo_started" for k x
  proof -
    have "k \<noteq> pk" using that w live by (auto simp: wrote_def)
    then show ?thesis using rows(2) by (auto simp: filter_empty_conv)
  qed
  ultimately show ?thesis using w live by (auto simp: later_def wrote_def)
qed

lemma create_later:
  assumes "create_work_order env now r q date a cm st = Inr (o1, st')" "craft_ok st"
  shows "later st st'"
proof -
  from create_Inr [OF assms] have "cr_orders st' = cr_orders st @ [o1]" "cr_items st' = cr_items st"
    "\<exists>es. cr_events st' = cr_events st @ es" by auto
  then show ?thesis by (auto simp: later_def order_row_def row_get_append)
qed

lemma announced_ok [simp]: "craft_ok (announce pk a st) = craft_ok st"
  by (simp add: craft_ok_def order_log_def)

lemma announced_later [simp]: "later st (announce pk a st') = later st st'"
  by (simp add: later_def order_row_def)

lemma announced_all [simp]:
  "craft_ok (fold (\<lambda>o1. announce (wo_id o1) a) os st) = craft_ok st"
  "later st (fold (\<lambda>o1. announce (wo_id o1) a) os st') = later st st'"
  by (induction os arbitrary: st st') simp_all

lemma create_batch_ok:
  "create_batch env now rs date a cm st = Inr (os, st') \<Longrightarrow> craft_ok st \<Longrightarrow> craft_ok st' \<and> later st st'"
proof (induction rs arbitrary: st os)
  case Nil
  then show ?case by simp
next
  case (Cons x rs)
  obtain r quantity where x: "x = (r, quantity)" by (cases x)
  from Cons.prems(1) x obtain q o1 st1 os1 where c: "create_work_order env now r q date a cm st = Inr (o1, st1)"
    and rest: "create_batch env now rs date a cm st1 = Inr (os1, st')"
    by (auto simp: err read_quantity_def)
  from Cons.IH [OF rest create_ok [OF c Cons.prems(2)]] create_later [OF c Cons.prems(2)]
  show ?case by (blast intro: later_trans)
qed

lemma done_ok: "command_done pk cm o2 st st' \<Longrightarrow> craft_ok st \<Longrightarrow> craft_ok st' \<and> later st st'"
  by (auto simp: command_done_def intro: wrote_ok wrote_later)

lemma step_ok: "craft_step env st st' \<Longrightarrow> craft_ok st \<Longrightarrow> craft_ok st' \<and> later st st'"
proof (induction rule: craft_step.induct)
  case (Planned now r q date a cm st o1 st')
  then show ?case by (auto simp: plan_def err split: option.splits if_splits intro: create_ok create_later)
next
  case (Batched now rs date a cm st os st')
  then show ?case by (auto simp: plan_batch_def err dest: create_batch_ok)
next
  case (Commanded now pk c cm st o1 st')
  from done_ok [OF exec_writes [OF Commanded] Commanded(2)] show ?case .
next
  case (Recipes_edited st rs items)
  then show ?case by (auto simp: craft_ok_def order_log_def later_def order_row_def)
qed

lemma run_ok: "craft_run env st st' \<Longrightarrow> craft_ok st \<Longrightarrow> craft_ok st' \<and> later st st'"
proof (induction rule: rtranclp_induct)
  case base
  then show ?case by simp
next
  case (step st1 st2)
  then show ?case using step_ok later_trans by blast
qed

text \<open>The audit log and the ledger of materials are append-only ledgers of the runs.\<close>

definition sound_step :: "craft_env \<Rightarrow> craft \<Rightarrow> craft \<Rightarrow> bool" where
  "sound_step env st st' \<longleftrightarrow> craft_ok st \<and> craft_step env st st'"

interpretation craft_log: append_ledger cr_events "sound_step env" for env
  by unfold_locales (auto simp: sound_step_def later_def dest: step_ok)

interpretation craft_ledger: append_ledger cr_items "sound_step env" for env
  by unfold_locales (auto simp: sound_step_def later_def dest: step_ok)

lemma craft_run_sound: "craft_run env st st' \<Longrightarrow> craft_ok st \<Longrightarrow> (sound_step env)\<^sup>*\<^sup>* st st'"
proof (induction rule: rtranclp_induct)
  case (step st1 st2)
  then have "sound_step env st1 st2" using run_ok by (auto simp: sound_step_def)
  with step show ?case by (meson rtranclp.rtrancl_into_rtrancl)
qed simp

end
