(* ===== verification/CraftReplay.thy ===== *)
theory CraftReplay
  imports CraftRuns
begin

text \<open>
  Idempotency keys: the event a keyed command leaves is the one its retry finds, for as long as
  the log lives, and it agrees with the retry.
\<close>

lemma find_append: "find P (xs @ ys) = (case find P xs of None \<Rightarrow> find P ys | Some x \<Rightarrow> Some x)"
  by (induction xs) auto

lemma event_by_key_later: "event_by_key k st = Some e \<Longrightarrow> cr_events st' = cr_events st @ es \<Longrightarrow> event_by_key k st' = Some e"
  by (simp add: event_by_key_def find_append)

lemma event_by_key_new:
  "fresh_key (Some k) (cr_events st) \<Longrightarrow> cr_events st' = cr_events st @ es @ [e] \<Longrightarrow> keys es = [] \<Longrightarrow> we_key e = Some k \<Longrightarrow>
     event_by_key k st' = Some e"
proof -
  assume a: "fresh_key (Some k) (cr_events st)" "cr_events st' = cr_events st @ es @ [e]" "keys es = []" "we_key e = Some k"
  have "we_key x \<noteq> Some k" if "x \<in> set (cr_events st) \<or> x \<in> set es" for x
    using that a(1,3) in_keys [of "Some k" "cr_events st"] in_keys [of "Some k" es] by (auto simp: fresh_key_def)
  then have "find (\<lambda>e. we_key e = Some k) (cr_events st) = None" "find (\<lambda>e. we_key e = Some k) es = None"
    by (auto simp: find_None_iff)
  with a show ?thesis by (simp add: event_by_key_def find_append)
qed

lemma replayed_Some:
  "replayed (Some k) matches st = Inr (Some o1) \<longleftrightarrow>
     k \<noteq> [] \<and> (\<exists>e. event_by_key k st = Some e \<and> matches e = Inr True \<and> order_row (we_order e) st = Some o1)"
  by (auto simp: replayed_def err split: option.splits)

lemma replayed_None:
  "k \<noteq> [] \<Longrightarrow> replayed (Some k) matches st = Inr None \<longleftrightarrow> event_by_key k st = None"
  by (auto simp: replayed_def err split: option.splits)

lemma no_event_fresh: "event_by_key k st = None \<Longrightarrow> fresh_key (Some k) (cr_events st)"
  by (auto simp: event_by_key_def find_None_iff fresh_key_def in_keys)

text \<open>What a keyed command leaves in the log: its event, which the request matches.\<close>

definition left :: "string \<Rightarrow> nat \<Rightarrow> (wo_event \<Rightarrow> craft_error + bool) \<Rightarrow> craft \<Rightarrow> bool" where
  "left k pk matches st \<longleftrightarrow>
     (\<exists>e. event_by_key k st = Some e \<and> we_order e = pk \<and> matches e = Inr True)"

lemma left_replayed:
  "left k pk matches st \<Longrightarrow> k \<noteq> [] \<Longrightarrow> order_row pk st = Some o1 \<Longrightarrow> replayed (Some k) matches st = Inr (Some o1)"
  by (auto simp: left_def replayed_Some)

lemma left_later: "left k pk matches st \<Longrightarrow> later st st' \<Longrightarrow> left k pk matches st'"
  by (auto simp: left_def later_def intro: event_by_key_later)

lemma replay_left:
  "replayed (Some k) matches st = Inr (Some o1) \<Longrightarrow> (\<And>e. matches e = Inr True \<Longrightarrow> we_order e = pk) \<Longrightarrow> left k pk matches st"
  by (auto simp: replayed_Some left_def)

lemma logged_left:
  assumes "log_event pk kind payload actor (Some k) st = Inr st'" "event_by_key k st = None"
    and "matches \<lparr>we_order = pk, we_seq = next_seq pk st, we_kind = kind, we_payload = payload, we_actor = actor,
           we_key = Some k\<rparr> = Inr True"
  shows "left k pk matches st'" "left k pk matches (announce pk a st')"
proof -
  from assms(1) have "event_by_key k st' = Some \<lparr>we_order = pk, we_seq = next_seq pk st, we_kind = kind,
      we_payload = payload, we_actor = actor, we_key = Some k\<rparr>"
    using no_event_fresh [OF assms(2)]
    by (intro event_by_key_new [where es = "[]" and st = st]) (auto simp: log_event_Inr keys_def)
  with assms(3) show "left k pk matches st'" "left k pk matches (announce pk a st')"
    by (simp_all add: left_def event_by_key_def)
qed

lemma agrees_new: "attempt_agrees a e" if "we_payload e = fs @ attempt_field a" "''attempt'' \<notin> fst ` set fs"
proof -
  have "dget fs ''attempt'' = None" using that(2) by (simp add: map_of_eq_None_iff)
  with that(1) show ?thesis by (auto simp: attempt_agrees_def attempt_field_def pget_def same_json_def map_add_def)
qed

lemma event_by_key_put [simp]: "event_by_key k (put_order o1 st) = event_by_key k st"
  by (simp add: event_by_key_def)

lemma void_left:
  assumes "void pk reason result cm st = Inr (o1, st')" "cm_key cm = Some k" "k \<noteq> []"
  shows "left k pk (void_matches pk reason cm) st'"
proof -
  from assms obtain o0 old where row: "order_row pk st = Some o0"
    and old: "replayed (Some k) (void_matches pk reason cm) st = Inr old"
    by (auto simp: void_def err)
  show ?thesis
  proof (cases old)
    case (Some o2)
    with assms row old have "st' = st" by (auto simp: void_def err)
    with old Some show ?thesis by (auto intro!: replay_left simp: void_matches_def)
  next
    case None
    with assms row old show ?thesis
      by (auto simp: void_def err Let_def locked_order_def replayed_None void_matches_def pget_def
          split: if_splits intro!: logged_left(2) agrees_new)
  qed
qed

lemma adjust_left:
  assumes "adjust_order env pk q reason result force cm st = Inr (o1, st')" "cm_key cm = Some k" "k \<noteq> []"
  shows "left k pk (adjust_matches pk q reason cm) st'"
proof -
  from assms obtain o0 old where row: "order_row pk st = Some o0"
    and old: "replayed (Some k) (adjust_matches pk q reason cm) st = Inr old"
    by (auto simp: adjust_order_def err)
  show ?thesis
  proof (cases old)
    case (Some o2)
    with assms row old have "st' = st" by (auto simp: adjust_order_def err)
    with old Some show ?thesis by (auto intro!: replay_left simp: adjust_matches_def)
  next
    case None
    with assms row old show ?thesis
      by (auto simp: adjust_order_def err Let_def locked_order_def replayed_None adjust_matches_def pget_def
          split: if_splits intro!: logged_left(2) agrees_new)
  qed
qed

text \<open>A start leaves the references of the row it wrote; with no attempt its retry compares its own.\<close>

definition retry_safe :: "wo_command \<Rightarrow> command \<Rightarrow> work_order \<Rightarrow> bool" where
  "retry_safe c cm o1 \<longleftrightarrow>
     (case c of
        Start q a \<Rightarrow> cm_attempt cm \<noteq> []
          \<or> (sa_operator a = None \<longrightarrow> wo_operator_ref o1 = []) \<and> (sa_position a = None \<longrightarrow> wo_position_ref o1 = [])
      | _ \<Rightarrow> True)"

lemma start_left:
  assumes "start now pk (Some q) a cm st = Inr (o1, st')" "cm_key cm = Some k" "k \<noteq> []"
    and safe: "order_row pk st = Some o0" "retry_safe (Start (Some q) a) cm o0"
  shows "left k pk (start_matches pk q a cm) st'"
proof -
  from assms obtain old where old: "replayed (Some k) (start_matches pk q a cm) st = Inr old"
    by (auto simp: start_def err read_quantity_def split: if_splits)
  show ?thesis
  proof (cases old)
    case (Some o2)
    with assms old have "st' = st" by (auto simp: start_def err read_quantity_def split: if_splits)
    with old Some show ?thesis by (auto intro!: replay_left simp: start_matches_def)
  next
    case None
    let ?o2 = "o0\<lparr>wo_rev := wo_rev o0 + 1\<rparr>"
    let ?o3 = "?o2\<lparr>wo_started_at := (case wo_started_at ?o2 of None \<Rightarrow> Some now | t \<Rightarrow> t),
        wo_status := Wo_started, wo_operator_ref := case_option (wo_operator_ref ?o2) id (sa_operator a),
        wo_position_ref := case_option (wo_position_ref ?o2) id (sa_position a)\<rparr>"
    let ?p = "[(''quantity'', JStr (dec_text q)), (''operator_ref'', JStr (wo_operator_ref ?o3)),
        (''position_ref'', JStr (wo_position_ref ?o3)), (''note'', JStr (sa_note a))]"
    from assms old None obtain st2 where
      log: "log_event pk Ev_started (?p @ attempt_field (cm_attempt cm)) (cm_actor cm) (Some k)
                 (put_order ?o3 (put_order ?o2 st)) = Inr st2"
      and res: "st' = announce pk ''started'' st2" and none: "event_by_key k st = None"
      by (auto simp: start_def err read_quantity_def Let_def locked_order_def replayed_None split: if_splits)
    show ?thesis unfolding res
    proof (rule logged_left(2) [OF log])
      let ?e = "\<lparr>we_order = pk, we_seq = next_seq pk (put_order ?o3 (put_order ?o2 st)), we_kind = Ev_started,
          we_payload = ?p @ attempt_field (cm_attempt cm), we_actor = cm_actor cm, we_key = Some k\<rparr>"
      have "attempt_agrees (cm_attempt cm) ?e" by (intro agrees_new [of _ ?p]) auto
      moreover have "case_option (wo_operator_ref ?o2) id (sa_operator a) = case_option [] id (sa_operator a)"
        "case_option (wo_position_ref ?o2) id (sa_position a) = case_option [] id (sa_position a)" if "cm_attempt cm = []"
        using safe(2) that by (auto simp: retry_safe_def split: option.splits)
      ultimately show "start_matches pk q a cm ?e = Inr True"
        by (auto simp: start_matches_def pget_def)
    qed (use none in simp)
  qed
qed

lemma advance_left:
  assumes "advance_step env now pk (Some i) name cm st = Inr (o1, st')" "cm_key cm = Some k" "k \<noteq> []"
  shows "left k pk (step_matches pk i name cm) st'"
proof -
  from assms obtain o0 old where row: "order_row pk st = Some o0"
    and old: "replayed (Some k) (step_matches pk i name cm) st = Inr old"
    by (auto simp: advance_step_def err split: if_splits)
  show ?thesis
  proof (cases old)
    case (Some o2)
    with assms row old have "st' = st" by (auto simp: advance_step_def err split: if_splits)
    with old Some show ?thesis by (auto intro!: replay_left simp: step_matches_def)
  next
    case None
    with assms row old show ?thesis
      by (auto simp: advance_step_def err Let_def locked_order_def replayed_None step_matches_def same_json_def pget_def
          split: if_splits intro!: logged_left(1))
  qed
qed

lemma close_order_event:
  assumes "close_order env now o1 tot declared attempt a cm st = Inr (o2, st')"
  shows "\<exists>e. cr_events st' = cr_events st @ [e] \<and> fresh_key (cm_key cm) (cr_events st) \<and> we_order e = wo_id o1
    \<and> we_kind e = Ev_finished \<and> we_actor e = cm_actor cm \<and> we_key e = cm_key cm
    \<and> pget (we_payload e) ''finished_qty'' = JStr (dec_text tot) \<and> pget (we_payload e) ''attempt'' = JObj attempt"
proof -
  have p: "pget (finished_payload env o1 s tot outs wastes attempt a) ''finished_qty'' = JStr (dec_text tot)"
    "pget (finished_payload env o1 s tot outs wastes attempt a) ''attempt'' = JObj attempt" for s outs wastes
    by (simp_all add: finished_payload_def pget_def)
  from assms show ?thesis
    using p by (auto simp: close_order_def ebind_Inr map_sum_Inr if_Inl_Inr bulk_create_Inr Let_def log_event_Inr)
qed

lemma finish_left:
  assumes fin: "finish env now pk a cm st = Inr (o1, st')" and key: "cm_key cm = Some k" "k \<noteq> []"
    and args: "finished_total a = Inr tot" "declared_decimal a = Inr declared" "finish_attempt declared a = Inr attempt"
  shows "left k pk (finish_matches pk attempt tot a cm) st'"
proof -
  from assms obtain o0 old where row: "order_row pk st = Some o0"
    and old: "replayed (Some k) (finish_matches pk attempt tot a cm) st = Inr old"
    by (auto simp: finish_def err)
  show ?thesis
  proof (cases old)
    case (Some o2)
    with fin key args row old have "st' = st" by (auto simp: finish_def err)
    with old Some show ?thesis by (auto intro!: replay_left simp: finish_matches_def err)
  next
    case None
    let ?o2 = "o0\<lparr>wo_rev := wo_rev o0 + 1\<rparr>"
    from fin key args row old None obtain o3 st2 st3 where none: "event_by_key k st = None"
      and imp: "implicit_start now ?o2 (fa_note a) (cm_actor cm) (put_order ?o2 st) = Inr (o3, st2)"
      and close: "close_order env now o3 tot declared attempt a cm st2 = Inr (o1, st3)"
      and res: "st' = announce pk ''finished'' st3"
      by (auto simp: finish_def err locked_order_def replayed_None split: if_splits)
    obtain e where e: "cr_events st3 = cr_events st2 @ [e]" "fresh_key (cm_key cm) (cr_events st2)" "we_order e = wo_id o3"
      "we_kind e = Ev_finished" "we_actor e = cm_actor cm" "we_key e = cm_key cm"
      "pget (we_payload e) ''finished_qty'' = JStr (dec_text tot)" "pget (we_payload e) ''attempt'' = JObj attempt"
      using close_order_event [OF close] by blast
    have "wo_id o3 = wo_id o0" using implicit_start_cases [OF imp] by (auto simp: wo_card_def)
    with row have pk: "wo_id o3 = pk" by (simp add: order_row_id)
    have "event_by_key k st' = Some e"
      unfolding res using e key
      by (intro event_by_key_new [where es = "[]" and st = st2]) (auto simp: keys_def)
    moreover have "finish_matches pk attempt tot a cm e = Inr True"
      using e pk by (simp add: finish_matches_def attempt_same_def same_json_def recorded_total_def decimal_of_json_def dec_parse_text)
    ultimately show ?thesis using e(3) pk by (simp add: left_def)
  qed
qed

end
