(* ===== verification/CraftBakery.thy ===== *)
theory CraftBakery
  imports CraftReplay
begin

text \<open>
  A bakery day on which the properties of the production kernel are applied: ten loaves are
  planned for \<open>ana\<close>, started and finished, as one number or by parts.
\<close>

definition bake_env :: craft_env where
  "bake_env = \<lparr>ce_year = (\<lambda>_. 2026), ce_date_text = (\<lambda>_. ''2026-08-01''), ce_stamp_text = (\<lambda>_. ''2026-08-01T05:00''),
     ce_quotient_text = (\<lambda>_. ''0.250''), ce_demand = None, ce_inventory = None, ce_strict = False\<rparr>"

definition loaf_recipe :: recipe where
  "loaf_recipe = \<lparr>re_ref = ''loaf-v1'', re_output_sku = ''loaf'', re_batch_size = 10, re_steps = [], re_active = True,
     re_mode = Batch_mode, re_meta = []\<rparr>"

definition flour_item :: recipe_item where
  "flour_item = \<lparr>ri_recipe = 0, ri_sku = ''flour'', ri_quantity = 5, ri_usable = 1, ri_unit = ''kg'', ri_sort = 0,
     ri_optional = False, ri_meta = []\<rparr>"

definition bakery :: craft where
  "bakery = craft_init [loaf_recipe] [flour_item]"

definition keyed :: "string \<Rightarrow> int option \<Rightarrow> command" where
  "keyed k n = \<lparr>cm_rev = n, cm_actor = ''ana'', cm_key = Some k, cm_attempt = []\<rparr>"

definition outcome :: "craft_error + (work_order \<times> craft) \<Rightarrow> craft" where
  "outcome r = (case r of Inr (_, st) \<Rightarrow> st | Inl _ \<Rightarrow> bakery)"

definition for_ana :: plan_args where
  "for_ana = \<lparr>pa_source_ref = None, pa_position_ref = None, pa_operator_ref = Some ''ana'', pa_meta = None, pa_result = []\<rparr>"

definition loaf_plan :: "craft_error + (work_order \<times> craft)" where
  "loaf_plan = plan bake_env 100 0 (Some (Dec 10 0)) (Some 20) for_ana (keyed ''p1'' None) bakery"

definition planned_loaves :: craft where
  "planned_loaves = outcome loaf_plan"

definition start_plain :: start_args where
  "start_plain = \<lparr>sa_operator = None, sa_position = None, sa_note = []\<rparr>"

definition loaf_start :: "craft_error + (work_order \<times> craft)" where
  "loaf_start = start 120 0 (Some (Dec 10 0)) start_plain (keyed ''s1'' (Some 0)) planned_loaves"

definition started_loaves :: craft where
  "started_loaves = outcome loaf_start"

definition bake_all :: finish_args where
  "bake_all = \<lparr>fa_finished = Scalar (Some (Dec 95 1)), fa_consumed = None, fa_wasted = None, fa_declared = None, fa_note = [],
     fa_context = [], fa_summary_replay = False\<rparr>"

definition loaf_finish :: "craft_error + (work_order \<times> craft)" where
  "loaf_finish = finish bake_env 130 0 bake_all (keyed ''f1'' (Some 1)) started_loaves"

definition finished_loaves :: craft where
  "finished_loaves = outcome loaf_finish"

definition loaf_line :: "decimal \<Rightarrow> line_arg option" where
  "loaf_line q = Some \<lparr>la_ref = Some ''loaf'', la_quantity = Some q, la_unit = None, la_grade = Some ''standard'',
     la_defect = None, la_batch = None, la_meta = None\<rparr>"

definition bake_parts :: finish_args where
  "bake_parts = bake_all\<lparr>fa_finished := Partition [loaf_line (Dec 6 0), loaf_line (Dec 25 1)],
     fa_wasted := Some (Partition [loaf_line (Dec 15 1)])\<rparr>"

definition parts_finish :: "craft_error + (work_order \<times> craft)" where
  "parts_finish = finish bake_env 130 0 bake_parts (keyed ''f1'' (Some 1)) started_loaves"

lemma outcome_row: "\<not> isl r \<Longrightarrow> \<exists>o1. r = Inr (o1, outcome r)"
  by (cases r) (auto simp: outcome_def split: prod.splits)

lemma bakery_results: "\<not> isl loaf_plan" "\<not> isl loaf_start" "\<not> isl loaf_finish" "\<not> isl parts_finish"
  by code_simp+

lemma bakery_rows:
  "map_option (\<lambda>o1. (log_view o1, wo_operator_ref o1)) (order_row 0 planned_loaves) = Some ((Wo_planned, 0, 10, None), ''ana'')"
  "map_option (\<lambda>o1. (log_view o1, entered o1 started_loaves, wo_output_sku o1)) (order_row 0 started_loaves)
     = Some ((Wo_started, 1, 10, None), Inr (Dec 10 0), ''loaf'')"
  "map_option log_view (order_row 0 finished_loaves) = Some (Wo_finished, 2, 10, Some (19 / 2))"
  "map_option log_view (order_row 0 (outcome parts_finish)) = Some (Wo_finished, 2, 10, Some (17 / 2))"
proof -
  show "map_option (\<lambda>o1. (log_view o1, wo_operator_ref o1)) (order_row 0 planned_loaves) = Some ((Wo_planned, 0, 10, None), ''ana'')"
    by code_simp
  show "map_option (\<lambda>o1. (log_view o1, entered o1 started_loaves, wo_output_sku o1)) (order_row 0 started_loaves)
     = Some ((Wo_started, 1, 10, None), Inr (Dec 10 0), ''loaf'')"
    by code_simp
  show "map_option log_view (order_row 0 finished_loaves) = Some (Wo_finished, 2, 10, Some (19 / 2))"
    by code_simp
  show "map_option log_view (order_row 0 (outcome parts_finish)) = Some (Wo_finished, 2, 10, Some (17 / 2))"
    by code_simp
qed

lemma bakery_ok [simp]: "craft_ok bakery"
  by (simp add: bakery_def)

lemma bakery_steps:
  "\<exists>o1. loaf_plan = Inr (o1, planned_loaves)" "\<exists>o1. loaf_start = Inr (o1, started_loaves)"
  "\<exists>o1. loaf_finish = Inr (o1, finished_loaves)" "\<exists>o1. parts_finish = Inr (o1, outcome parts_finish)"
  unfolding planned_loaves_def started_loaves_def finished_loaves_def using bakery_results outcome_row by blast+

lemma bakery_orders:
  "planned_loaves \<noteq> bakery" "map wo_id (cr_orders planned_loaves) = [0]" "required_items 0 bakery = [flour_item]"
  "dec_val (gross_quantity flour_item) = 5" "cr_recipes bakery ! 0 = loaf_recipe"
proof -
  show ids: "map wo_id (cr_orders planned_loaves) = [0]" by code_simp
  have "cr_orders bakery = []" by (simp add: bakery_def craft_init_def)
  with ids show "planned_loaves \<noteq> bakery" by force
  show "required_items 0 bakery = [flour_item]" by code_simp
  show "dec_val (gross_quantity flour_item) = 5" by code_simp
  show "cr_recipes bakery ! 0 = loaf_recipe" by (simp add: bakery_def craft_init_def)
qed

text \<open>The day as a run.\<close>

lemma bakery_run:
  "craft_run bake_env bakery planned_loaves" "craft_run bake_env bakery started_loaves"
  "craft_run bake_env bakery finished_loaves" "craft_run bake_env planned_loaves started_loaves"
proof -
  have "craft_step bake_env bakery planned_loaves"
    using bakery_steps(1) unfolding loaf_plan_def by (blast intro: craft_step.Planned)
  then show a: "craft_run bake_env bakery planned_loaves" by blast
  have s: "exec bake_env 120 0 (Start (Some (Dec 10 0)) start_plain) (keyed ''s1'' (Some 0)) planned_loaves = loaf_start"
    by (simp add: loaf_start_def)
  have "craft_step bake_env planned_loaves started_loaves"
    using bakery_steps(2) unfolding s [symmetric] by (blast intro: craft_step.Commanded)
  then show "craft_run bake_env planned_loaves started_loaves" by blast
  with a show b: "craft_run bake_env bakery started_loaves" by (rule rtranclp_trans)
  have f: "exec bake_env 130 0 (Finish bake_all) (keyed ''f1'' (Some 1)) started_loaves = loaf_finish"
    by (simp add: loaf_finish_def)
  have "craft_step bake_env started_loaves finished_loaves"
    using bakery_steps(3) unfolding f [symmetric] by (blast intro: craft_step.Commanded)
  with b show "craft_run bake_env bakery finished_loaves" by (rule rtranclp.rtrancl_into_rtrancl)
qed

lemma bakery_changes: "started_loaves \<noteq> planned_loaves" "finished_loaves \<noteq> started_loaves"
  using bakery_rows by (auto simp: log_view_def)

end
