(* ===== verification/CraftProps.thy ===== *)
theory CraftProps
  imports CraftBakery
begin

text \<open>
  Properties of the production kernel over every run from an empty kernel: the audit log is the
  state, one command per revision, closed orders stay closed, and a keyed command can be
  repeated, but for a start that names no operator on an order that has one.
\<close>

section \<open>Repeating a command\<close>

lemma void_again:
  "left k pk (void_matches pk reason cm) st \<Longrightarrow> k \<noteq> [] \<Longrightarrow> cm_key cm = Some k \<Longrightarrow> order_row pk st = Some o1 \<Longrightarrow>
     void pk reason result (cm\<lparr>cm_rev := r\<rparr>) st = Inr (o1, st)"
proof -
  assume a: "left k pk (void_matches pk reason cm) st" "k \<noteq> []" "cm_key cm = Some k" "order_row pk st = Some o1"
  have "void_matches pk reason (cm\<lparr>cm_rev := r\<rparr>) = void_matches pk reason cm" by (rule ext) (simp add: void_matches_def)
  with a left_replayed [OF a(1,2,4)] show ?thesis by (simp add: void_def locked_order_def)
qed

lemma adjust_again:
  "left k pk (adjust_matches pk q reason cm) st \<Longrightarrow> k \<noteq> [] \<Longrightarrow> cm_key cm = Some k \<Longrightarrow> order_row pk st = Some o1 \<Longrightarrow>
     adjust_order env pk q reason result force (cm\<lparr>cm_rev := r\<rparr>) st = Inr (o1, st)"
proof -
  assume a: "left k pk (adjust_matches pk q reason cm) st" "k \<noteq> []" "cm_key cm = Some k" "order_row pk st = Some o1"
  have "adjust_matches pk q reason (cm\<lparr>cm_rev := r\<rparr>) = adjust_matches pk q reason cm" by (rule ext) (simp add: adjust_matches_def)
  with a left_replayed [OF a(1,2,4)] show ?thesis by (simp add: adjust_order_def locked_order_def)
qed

lemma start_again:
  "left k pk (start_matches pk q a cm) st \<Longrightarrow> k \<noteq> [] \<Longrightarrow> cm_key cm = Some k \<Longrightarrow> order_row pk st = Some o1 \<Longrightarrow> 0 < dec_val q \<Longrightarrow>
     start now pk (Some q) a (cm\<lparr>cm_rev := r\<rparr>) st = Inr (o1, st)"
proof -
  assume a: "left k pk (start_matches pk q a cm) st" "k \<noteq> []" "cm_key cm = Some k" "order_row pk st = Some o1" "0 < dec_val q"
  have "start_matches pk q a (cm\<lparr>cm_rev := r\<rparr>) = start_matches pk q a cm" by (rule ext) (simp add: start_matches_def)
  with a left_replayed [OF a(1,2,4)] show ?thesis by (simp add: start_def read_quantity_def locked_order_def)
qed

lemma advance_again:
  "left k pk (step_matches pk i name cm) st \<Longrightarrow> k \<noteq> [] \<Longrightarrow> cm_key cm = Some k \<Longrightarrow> order_row pk st = Some o1 \<Longrightarrow> 0 < i \<Longrightarrow>
     advance_step env now pk (Some i) name (cm\<lparr>cm_rev := r\<rparr>) st = Inr (o1, st)"
proof -
  assume a: "left k pk (step_matches pk i name cm) st" "k \<noteq> []" "cm_key cm = Some k" "order_row pk st = Some o1" "0 < i"
  have "step_matches pk i name (cm\<lparr>cm_rev := r\<rparr>) = step_matches pk i name cm" by (rule ext) (simp add: step_matches_def)
  with a left_replayed [OF a(1,2,4)] show ?thesis by (simp add: advance_step_def locked_order_def)
qed

lemma finish_again:
  assumes "left k pk (finish_matches pk attempt tot a cm) st" "k \<noteq> []" "cm_key cm = Some k" "order_row pk st = Some o1"
    and args: "finished_total a = Inr tot" "declared_decimal a = Inr declared" "finish_attempt declared a = Inr attempt"
  shows "finish env now pk a (cm\<lparr>cm_rev := r\<rparr>) st = Inr (o1, st)"
proof -
  have "finish_matches pk attempt tot a (cm\<lparr>cm_rev := r\<rparr>) = finish_matches pk attempt tot a cm"
    by (rule ext) (simp add: finish_matches_def)
  with assms left_replayed [OF assms(1,2,4)] show ?thesis by (simp add: finish_def locked_order_def)
qed

lemma exec_again:
  assumes first: "exec env now pk c cm st = Inr (o1, st1)" and key: "cm_key cm = Some k" "k \<noteq> []"
    and row: "order_row pk st = Some o0" and safe: "retry_safe c cm o0"
    and later: "later st1 st2" and row2: "order_row pk st2 = Some o2"
  shows "exec env now2 pk c (cm\<lparr>cm_rev := r\<rparr>) st2 = Inr (o2, st2)"
proof (cases c)
  case (Adjust q reason result force)
  with first obtain d where d: "q = Some d" "0 \<le> dec_val d" by (auto simp: adjust_def err read_quantity_def split: option.splits if_splits)
  show ?thesis
  proof (cases "dec_val d = 0")
    case True
    with first Adjust d have "void pk (if reason = [] then ''Remanejo: zerado'' else reason) [] cm st = Inr (o1, st1)"
      by (simp add: adjust_def read_quantity_def)
    from void_again [OF left_later [OF void_left [OF this key] later] key(2,1) row2] True d Adjust
    show ?thesis by (simp add: adjust_def read_quantity_def)
  next
    case False
    with first Adjust d have "adjust_order env pk d reason result force cm st = Inr (o1, st1)"
      by (simp add: adjust_def read_quantity_def split: if_splits)
    from adjust_again [OF left_later [OF adjust_left [OF this key] later] key(2,1) row2] False d Adjust
    show ?thesis by (simp add: adjust_def read_quantity_def)
  qed
next
  case (Start q a)
  with first obtain d where d: "q = Some d" "0 < dec_val d" by (auto simp: start_def err read_quantity_def split: option.splits if_splits)
  with first Start have s: "start now pk (Some d) a cm st = Inr (o1, st1)" by simp
  from safe Start d have "retry_safe (Start (Some d) a) cm o0" by simp
  from start_again [OF left_later [OF start_left [OF s key row this] later] key(2,1) row2 d(2)] d Start
  show ?thesis by simp
next
  case (Advance i name)
  with first obtain n where n: "i = Some n" "0 < n" by (auto simp: advance_step_def split: option.splits if_splits)
  with first Advance have "advance_step env now pk (Some n) name cm st = Inr (o1, st1)" by simp
  from advance_again [OF left_later [OF advance_left [OF this key] later] key(2,1) row2 n(2)] n Advance
  show ?thesis by simp
next
  case (Finish a)
  with first have f: "finish env now pk a cm st = Inr (o1, st1)" by simp
  then obtain tot declared attempt where
    args: "finished_total a = Inr tot" "declared_decimal a = Inr declared" "finish_attempt declared a = Inr attempt"
    by (auto simp: finish_def err)
  from finish_again [OF left_later [OF finish_left [OF f key args] later] key(2,1) row2 args] Finish
  show ?thesis by simp
next
  case (Void reason result)
  with first have "void pk reason result cm st = Inr (o1, st1)" by simp
  from void_again [OF left_later [OF void_left [OF this key] later] key(2,1) row2] Void
  show ?thesis by simp
qed

section \<open>The properties\<close>

text \<open>C4: In every run the audit log of a work order is its state: read from its first event, the events give
  the status, the revision, the planned quantity and the finished quantity that the row holds.\<close>

theorem work_order_log:
  assumes "craft_run env (craft_init rs items) st" "order_row pk st = Some o1"
  shows "log_state (order_log pk st) = Some (wo_status o1, wo_rev o1, wo_quantity o1, wo_finished o1)"
proof -
  have "craft_ok st" using run_ok [OF assms(1)] by simp
  with assms(2) show ?thesis using craft_okD(5) by (auto simp: order_row_iff log_view_def)
qed

theorem work_order_log_witness:
  "log_state (order_log 0 finished_loaves) = Some (Wo_finished, 2, 10, Some (19 / 2))"
proof -
  obtain o1 where "order_row 0 finished_loaves = Some o1" "log_view o1 = (Wo_finished, 2, 10, Some (19 / 2))"
    using bakery_rows(3) by auto
  with work_order_log [OF bakery_run(3) [unfolded bakery_def]] show ?thesis by (simp add: log_view_def)
qed

text \<open>C5: Of the commands that were sent with the same expected revision of a work order, at most one takes
  effect: after one has changed the state, any other that succeeds, at any later point, answers a replay.\<close>

theorem one_command_per_revision:
  assumes "craft_run env (craft_init rs items) st"
    and "exec env now pk c1 cm1 st = Inr (o1, st1)" "st1 \<noteq> st" "cm_rev cm1 = Some n"
    and "craft_run env st1 st2" "exec env now2 pk c2 cm2 st2 = Inr (o2, st3)" "cm_rev cm2 = Some n"
  shows "st3 = st2"
proof (rule ccontr)
  assume changed: "st3 \<noteq> st2"
  have ok: "craft_ok st" using run_ok [OF assms(1)] by simp
  have ok1: "craft_ok st1" using done_ok [OF exec_writes [OF assms(2) ok] ok] by simp
  note R = run_ok [OF assms(5) ok1]
  from exec_writes [OF assms(2) ok] assms(3,4) obtain o0 es e where w1: "wrote pk (es @ [e]) o0 o1 st st1" "wo_rev o0 = n"
    by (auto simp: command_done_def)
  from exec_writes [OF assms(6)] R changed assms(7) obtain p es2 e2 where w2: "wrote pk (es2 @ [e2]) p o2 st2 st3" "wo_rev p = n"
    by (auto simp: command_done_def)
  have id: "wo_id o1 = pk" using w1(1) order_row_id by (auto simp: wrote_def wo_card_def)
  with w1(1) have "order_row pk st1 = Some o1" by (auto simp: wrote_def order_row_def row_get_put)
  with R w2(1) have "p = o1 \<or> wo_rev o1 < wo_rev p" by (auto simp: wrote_def dest: later_row)
  with w1 w2(2) show False by (auto simp: wrote_def)
qed

theorem one_command_per_revision_witness:
  "\<exists>o2 st3. exec bake_env 140 0 (Finish bake_all) (keyed ''f1'' (Some 1)) finished_loaves = Inr (o2, st3) \<and> st3 = finished_loaves"
proof -
  obtain o0 o1 where first: "exec bake_env 130 0 (Finish bake_all) (keyed ''f1'' (Some 1)) started_loaves = Inr (o1, finished_loaves)"
    and rows: "order_row 0 started_loaves = Some o0" "order_row 0 finished_loaves \<noteq> None"
    using bakery_steps(3) bakery_rows by (auto simp: loaf_finish_def)
  then obtain o2 where "exec bake_env 140 0 (Finish bake_all) (keyed ''f1'' (Some 1)\<lparr>cm_rev := Some 1\<rparr>) finished_loaves
      = Inr (o2, finished_loaves)"
    using exec_again [OF first _ _ rows(1)] by (auto simp: keyed_def retry_safe_def)
  then have again: "exec bake_env 140 0 (Finish bake_all) (keyed ''f1'' (Some 1)) finished_loaves = Inr (o2, finished_loaves)"
    by (simp add: keyed_def)
  from one_command_per_revision [OF bakery_run(2) [unfolded bakery_def] first bakery_changes(2) _ rtranclp.rtrancl_refl again]
  show ?thesis using again by (simp add: keyed_def)
qed

text \<open>A finished or voided work order is closed for good: whatever the rest of the run does, its row, its
  rows in the ledger of materials and its audit log stay what they were.\<close>

theorem closed_order_stays:
  assumes "craft_run env (craft_init rs items) st" "craft_run env st st'"
    and "order_row pk st = Some o1" "wo_status o1 = Wo_finished \<or> wo_status o1 = Wo_void"
  shows "order_row pk st' = Some o1 \<and> order_log pk st' = order_log pk st
    \<and> filter (\<lambda>i. wi_order i = pk) (cr_items st') = filter (\<lambda>i. wi_order i = pk) (cr_items st)"
proof -
  have ok: "craft_ok st" using run_ok [OF assms(1)] by simp
  note R = run_ok [OF assms(2) ok]
  note closed = later_closed [OF conjunct2 [OF R] assms(3,4)]
  obtain es where es: "cr_events st' = cr_events st @ es"
    using craft_log.run_appends [OF craft_run_sound [OF assms(2) ok]] by blast
  let ?new = "filter (\<lambda>e. we_order e = pk) es"
  have "log_state (order_log pk st) = Some (log_view o1)" "log_state (order_log pk st @ ?new) = Some (log_view o1)"
    using craft_okD(5) [OF ok, of o1] craft_okD(5) [of st' o1] R ok assms(3) closed(1) es by (auto simp: order_row_iff order_log_def)
  then have run: "run_log (log_view o1) ?new = Some (log_view o1)" by (simp add: log_state_append)
  have "?new = []"
  proof (cases ?new)
    case (Cons e fs)
    have "apply_event (log_view o1) e = None"
      using assms(4) by (intro apply_closed [of _ "snd (log_view o1)"]) (auto simp: log_view_def)
    with run Cons show ?thesis by simp
  qed
  with closed es show ?thesis by (simp add: order_log_def)
qed

theorem closed_order_stays_witness:
  "map_option wo_status (order_row 0 (finished_loaves\<lparr>cr_recipes := cr_recipes finished_loaves, cr_recipe_items := []\<rparr>)) = Some Wo_finished"
proof -
  obtain o1 where o1: "order_row 0 finished_loaves = Some o1" "wo_status o1 = Wo_finished"
    using bakery_rows(3) by (auto simp: log_view_def)
  have "craft_run bake_env finished_loaves (finished_loaves\<lparr>cr_recipes := cr_recipes finished_loaves, cr_recipe_items := []\<rparr>)"
    by (blast intro: craft_step.Recipes_edited)
  from closed_order_stays [OF bakery_run(3) [unfolded bakery_def] this o1(1)] o1(2) show ?thesis by simp
qed

text \<open>C20: A keyed command can be repeated: once it has succeeded, the same request with any expected revision,
  at any later point of the run, returns the work order as it is and changes nothing. A start is repeatable
  when it carries an attempt, or names the operator and the position the order already had.\<close>

theorem command_repeatable:
  assumes "craft_run env (craft_init rs items) st" "order_row pk st = Some o0"
    and "exec env now pk c cm st = Inr (o1, st1)" "cm_key cm = Some k" "k \<noteq> []" "retry_safe c cm o0"
    and "craft_run env st1 st2"
  shows "\<exists>o2. order_row pk st2 = Some o2 \<and> exec env now2 pk c (cm\<lparr>cm_rev := r\<rparr>) st2 = Inr (o2, st2)"
proof -
  have ok: "craft_ok st" using run_ok [OF assms(1)] by simp
  note D = done_ok [OF exec_writes [OF assms(3) ok] ok]
  note R = run_ok [OF assms(7) conjunct1 [OF D]]
  have later: "later st st2" using D R later_trans by blast
  obtain o2 where "order_row pk st2 = Some o2" using later_row [OF later assms(2)] by blast
  with exec_again [OF assms(3-5,2,6)] R show ?thesis by blast
qed

theorem command_repeatable_witness:
  "\<exists>o2. exec bake_env 200 0 (Finish bake_all) (keyed ''f1'' (Some 7)) finished_loaves = Inr (o2, finished_loaves)"
proof -
  obtain o0 o1 where "exec bake_env 130 0 (Finish bake_all) (keyed ''f1'' (Some 1)) started_loaves = Inr (o1, finished_loaves)"
    "order_row 0 started_loaves = Some o0"
    using bakery_steps(3) bakery_rows by (auto simp: loaf_finish_def)
  from command_repeatable [OF bakery_run(2) [unfolded bakery_def] this(2,1) _ _ _ rtranclp.rtrancl_refl, where r = "Some 7"]
  show ?thesis by (auto simp: keyed_def retry_safe_def)
qed

text \<open>C38: A start that names no operator and carries no attempt, on an order planned with an operator, is not
  repeatable: its exact retry, with the same key, is refused as a conflict although the first call succeeded. (A
  command that carries an attempt is recognised by it, and its retry is answered, as the property on repeated
  commands states.)\<close>

theorem start_retry_conflict:
  assumes "order_row pk st = Some o0" "wo_operator_ref o0 \<noteq> []"
    and "start now pk (Some q) a cm st = Inr (o1, st1)" "st1 \<noteq> st"
    and "cm_key cm = Some k" "k \<noteq> []" "cm_attempt cm = []" "sa_operator a = None"
  shows "start now2 pk (Some q) a cm st1 = Inl (Craft_error ''IDEMPOTENCY_CONFLICT'')"
proof -
  from assms obtain old where q: "0 < dec_val q" and old: "replayed (Some k) (start_matches pk q a cm) st = Inr old"
    by (auto simp: start_def err read_quantity_def split: if_splits)
  with assms have None: "old = None" by (cases old) (auto simp: start_def err read_quantity_def split: if_splits)
  let ?o2 = "o0\<lparr>wo_rev := wo_rev o0 + 1\<rparr>"
  let ?o3 = "?o2\<lparr>wo_started_at := (case wo_started_at ?o2 of None \<Rightarrow> Some now | t \<Rightarrow> t),
      wo_status := Wo_started, wo_operator_ref := case_option (wo_operator_ref ?o2) id (sa_operator a),
      wo_position_ref := case_option (wo_position_ref ?o2) id (sa_position a)\<rparr>"
  let ?p = "[(''quantity'', JStr (dec_text q)), (''operator_ref'', JStr (wo_operator_ref ?o3)),
      (''position_ref'', JStr (wo_position_ref ?o3)), (''note'', JStr (sa_note a))]"
  from assms old None obtain st2 where none: "event_by_key k st = None"
    and log: "log_event pk Ev_started ?p (cm_actor cm) (Some k) (put_order ?o3 (put_order ?o2 st)) = Inr st2"
    and res: "st1 = announce pk ''started'' st2"
    by (auto simp: start_def err read_quantity_def Let_def locked_order_def replayed_None attempt_field_def split: if_splits)
  have conflict: "start_matches pk q a cm e \<noteq> Inr True" if "we_payload e = ?p" for e
    using assms(2,7,8) that by (simp add: start_matches_def pget_def)
  obtain e where e: "event_by_key k st1 = Some e" "we_payload e = ?p"
    using logged_left(2) [OF log, of "\<lambda>e. Inr (we_order e = pk \<and> we_payload e = ?p)" "''started''"] none res
    by (auto simp: left_def)
  have "order_row pk st1 = Some ?o3"
    using log res order_row_id [OF assms(1)] assms(1)
    by (simp add: log_event_Inr order_row_def put_order_def row_get_put)
  moreover have "start_matches pk q a cm e = Inr False" using conflict [OF e(2)] by (auto simp: start_matches_def)
  ultimately show ?thesis using q e assms(5,6)
    by (simp add: start_def read_quantity_def locked_order_def replayed_def)
qed

theorem start_retry_conflict_witness:
  "start 125 0 (Some (Dec 10 0)) start_plain (keyed ''s1'' (Some 0)) started_loaves = Inl (Craft_error ''IDEMPOTENCY_CONFLICT'')"
proof -
  obtain o0 o1 where "order_row 0 planned_loaves = Some o0" "wo_operator_ref o0 = ''ana''"
    "start 120 0 (Some (Dec 10 0)) start_plain (keyed ''s1'' (Some 0)) planned_loaves = Inr (o1, started_loaves)"
    using bakery_steps(2) bakery_rows(1) by (auto simp: loaf_start_def)
  from start_retry_conflict [OF this(1) _ this(3) bakery_changes(1)] this(2)
  show ?thesis by (simp add: keyed_def start_plain_def)
qed

end
