(* ===== verification/CraftFinishProps.thy ===== *)
theory CraftFinishProps
  imports CraftProps
begin

text \<open>
  What a finish writes in the ledger of materials: the partition of the batch between outputs and
  waste, the consumption computed from the frozen recipe with its bound against the exact
  quotient, and the canonical form of the request.
\<close>

section \<open>The rows of a finish\<close>

definition column_row :: "wo_item \<Rightarrow> wo_item" where
  "column_row i = i\<lparr>wi_quantity := column3 (wi_quantity i)\<rparr>"

lemma stored_map: "list_all2 stored rows new \<Longrightarrow> new = map column_row rows"
  by (induction rule: list_all2_induct) (auto simp: stored_def column_row_def)

lemma latest_kept: "foldl (\<lambda>a b. if we_seq a < we_seq b then b else a) e es \<in> set (e # es)"
  by (induction es arbitrary: e) auto

lemma last_event_new:
  assumes "we_order e = pk" "we_kind e = kind" "we_seq e = next_seq pk st" "cr_events st' = cr_events st @ [e]"
  shows "last_event kind pk st' = Some e"
proof (cases "filter (\<lambda>e. we_order e = pk \<and> we_kind e = kind) (cr_events st)")
  case Nil
  with assms show ?thesis by (simp add: last_event_def)
next
  case (Cons x xs)
  let ?y = "foldl (\<lambda>a b. if we_seq a < we_seq b then b else a) x xs"
  have "?y \<in> set (filter (\<lambda>e. we_order e = pk \<and> we_kind e = kind) (cr_events st))"
    using latest_kept [of x xs] Cons by simp
  then have "we_seq ?y < we_seq e"
    using last_seq_max [of "\<lambda>e. we_order e = pk" ?y "cr_events st" we_seq] assms(3) by (simp add: next_seq_def)
  with assms Cons show ?thesis by (simp add: last_event_def)
qed

lemma output_items_card: "wo_card o2 = wo_card o1 \<Longrightarrow> output_items now actor o2 tot a = output_items now actor o1 tot a"
  by (simp add: output_items_def wo_card_def split: amounts.split)

lemma waste_items_card: "wo_card o2 = wo_card o1 \<Longrightarrow> waste_items now actor o2 s tot a = waste_items now actor o1 s tot a"
  by (simp add: waste_items_def wo_card_def split: option.split amounts.split)

lemma partition_ok_card: "wo_card o2 = wo_card o1 \<Longrightarrow> partition_ok o2 s d tot w a = partition_ok o1 s d tot w a"
  by (simp add: partition_ok_def wo_card_def split: amounts.split)

lemma materials_same:
  "wo_meta o2 = wo_meta o1 \<Longrightarrow> wo_card o2 = wo_card o1 \<Longrightarrow> cr_recipes st' = cr_recipes st \<Longrightarrow> cr_recipe_items st' = cr_recipe_items st \<Longrightarrow>
     materials env o2 s st' = materials env o1 s st"
  by (simp add: materials_def recipe_lines_def wo_card_def required_items_def recipe_of_def Let_def)

lemma finish_rows:
  assumes fin: "finish env now pk a cm st = Inr (o2, st')" "st' \<noteq> st" and row: "order_row pk st = Some o1"
  shows "\<exists>tot declared started mts cons outs wastes.
    finished_total a = Inr tot \<and> declared_decimal a = Inr declared \<and> entered o1 st = Inr started
    \<and> materials env o1 started st = Inr mts \<and> consumption_items now (cm_actor cm) pk mts a = Inr cons
    \<and> output_items now (cm_actor cm) o1 tot a = Inr outs \<and> waste_items now (cm_actor cm) o1 started tot a = Inr wastes
    \<and> partition_ok o1 started declared tot wastes a \<and> wo_finished o2 = Some (column3 (dec_val tot))
    \<and> cr_items st' = cr_items st
        @ map column_row (map (material_item now (cm_actor cm) pk Requirement) mts @ cons @ map fst outs @ map fst wastes)"
proof -
  from fin row obtain tot declared attempt old where
    args: "finished_total a = Inr tot" "declared_decimal a = Inr declared" "finish_attempt declared a = Inr attempt"
    and old: "replayed (cm_key cm) (finish_matches pk attempt tot a cm) st = Inr old"
    by (auto simp: finish_def err)
  have None: "old = None" using fin args row old by (cases old) (auto simp: finish_def err)
  let ?o2 = "o1\<lparr>wo_rev := wo_rev o1 + 1\<rparr>"
  from fin args row old None obtain o3 st2 st3 where
    imp: "implicit_start now ?o2 (fa_note a) (cm_actor cm) (put_order ?o2 st) = Inr (o3, st2)"
    and close: "close_order env now o3 tot declared attempt a cm st2 = Inr (o2, st3)"
    and res: "st' = announce pk ''finished'' st3"
    by (auto simp: finish_def err locked_order_def split: if_splits)
  note I = implicit_start_cases [OF imp]
  have id: "wo_id o1 = pk" using row by (rule order_row_id)
  have card: "wo_card o3 = wo_card o1" "wo_meta o3 = wo_meta o1" "wo_quantity o3 = wo_quantity o1"
    using I by (auto simp: wo_card_def)
  then have id3: "wo_id o3 = pk" using id by (simp add: wo_card_def)
  have entered: "effective_qty o3 st2 = entered o1 st"
  proof (cases "wo_status o1 = Wo_planned")
    case True
    let ?st1 = "put_order ?o2 st"
    from I True obtain e where e: "we_order e = pk" "we_kind e = Ev_started" "we_seq e = next_seq pk ?st1"
      "dget (we_payload e) ''quantity'' = Some (JStr (dec_text (dec3 (wo_quantity o1))))" "cr_events st2 = cr_events ?st1 @ [e]"
      using id by (auto simp: put_order_def)
    from last_event_new [OF e(1-3,5)] e(4) card(3) True show ?thesis
      by (simp add: effective_qty_def started_qty_def id3 entered_def decimal_of_json_def dec_parse_text)
  next
    case False
    with I have "st2 = put_order ?o2 st" by auto
    then have "last_event k pk st2 = last_event k pk st" for k by (simp add: last_event_def)
    with False id show ?thesis unfolding entered_def effective_qty_def started_qty_def card(3) id3 by simp
  qed
  have recipes: "cr_recipes st2 = cr_recipes st" "cr_recipe_items st2 = cr_recipe_items st" "cr_items st2 = cr_items st"
    using imp I by (auto simp: implicit_start_def Let_def err log_event_Inr split: if_splits)
  from close obtain started mts cons outs wastes new where C: "effective_qty o3 st2 = Inr started"
    "materials env o3 started st2 = Inr mts"
    "consumption_items now (cm_actor cm) pk mts a = Inr cons" "output_items now (cm_actor cm) o3 tot a = Inr outs"
    "waste_items now (cm_actor cm) o3 started tot a = Inr wastes" "partition_ok o3 started declared tot wastes a"
    "list_all2 stored (map (material_item now (cm_actor cm) pk Requirement) mts @ cons @ map fst outs @ map fst wastes) new"
    "cr_items st3 = cr_items st2 @ new" "wo_finished o2 = Some (column3 (dec_val tot))"
    by (auto simp: close_order_def ebind_Inr map_sum_Inr if_Inl_Inr bulk_create_Inr Let_def log_event_Inr id3)
  show ?thesis
    using C(1-6,8,9) stored_map [OF C(7)] args recipes
    unfolding entered materials_same [OF card(2,1) recipes(1,2)] output_items_card [OF card(1)] waste_items_card [OF card(1)]
      partition_ok_card [OF card(1)] res
    by auto
qed

section \<open>Sums of the rows\<close>

text \<open>Lines of at most three places: what the column keeps is what the caller said.\<close>

definition three_places :: "line_arg option list \<Rightarrow> bool" where
  "three_places ls \<longleftrightarrow> (\<forall>l d. Some l \<in> set ls \<and> la_quantity l = Some d \<longrightarrow> dec_places d \<le> 3)"

lemma short_column: "dec_places d \<le> 3 \<Longrightarrow> column3 (dec_val d) = dec_val d"
proof (rule column3_same)
  assume "dec_places d \<le> 3"
  then have "dec_val d * 1000 = of_int (dec_coef d * 10 ^ (3 - dec_places d))"
    using power_add [of "10::rat" "dec_places d" "3 - dec_places d"] by (simp add: dec_val_def field_simps)
  then show "dec_val d * 1000 \<in> \<int>" by simp
qed

lemma line_item_row:
  "line_item now actor pk kind v = Inr (i, q) \<Longrightarrow> three_places [v] \<Longrightarrow>
     line_quantity v = Inr q \<and> wi_kind i = kind \<and> wi_order i = pk \<and> wi_quantity i = dec_val q \<and> column3 (dec_val q) = dec_val q"
  by (cases v) (auto simp: line_item_def err line_quantity_def mapping_item_def new_item_def three_places_def
      positive_decimal_def split: option.splits if_splits intro!: short_column)

lemma line_items_rows:
  "emap (line_item now actor pk kind) ls = Inr rows \<Longrightarrow> three_places ls \<Longrightarrow>
     emap line_quantity ls = Inr (map snd rows) \<and> (\<forall>(i, q) \<in> set rows. wi_kind i = kind \<and> wi_order i = pk
       \<and> wi_quantity i = dec_val q \<and> column3 (dec_val q) = dec_val q)"
proof (induction ls arbitrary: rows)
  case Nil
  then show ?case by simp
next
  case (Cons v ls)
  from Cons.prems(2) have "three_places [v]" "three_places ls" by (auto simp: three_places_def)
  with Cons show ?case by (fastforce simp: err dest: line_item_row)
qed

lemma column_row_fields [simp]:
  "wi_order (column_row i) = wi_order i" "wi_kind (column_row i) = wi_kind i" "wi_ref (column_row i) = wi_ref i"
  "wi_quantity (column_row i) = column3 (wi_quantity i)"
  by (simp_all add: column_row_def)

text \<open>The sum over the ledger of an order that had no rows is the sum over what the finish wrote.\<close>

lemma sum_column_rows:
  assumes "\<forall>(i, q) \<in> set rows. wi_kind i = kind \<and> wi_order i = pk \<and> wi_quantity i = dec_val q \<and> column3 (dec_val q) = dec_val q"
  shows "sum_where (\<lambda>i. wi_order i = pk \<and> wi_kind i = kind \<and> P (wi_ref i)) wi_quantity (map column_row (map fst rows))
    = sum_list (map (\<lambda>(i, q). dec_val q) (filter (\<lambda>(i, q). P (wi_ref i)) rows))"
  using assms by (induction rows) auto

lemma sum_other_kind:
  "\<forall>i \<in> set rows. wi_kind i \<noteq> kind \<Longrightarrow>
     sum_where (\<lambda>i. wi_order i = pk \<and> wi_kind i = kind \<and> P (wi_ref i)) wi_quantity (map column_row rows) = 0"
  by (intro sum_where_none) auto

definition ledger_sum :: "nat \<Rightarrow> item_kind \<Rightarrow> (string \<Rightarrow> bool) \<Rightarrow> craft \<Rightarrow> rat" where
  "ledger_sum pk kind P st = sum_where (\<lambda>i. wi_order i = pk \<and> wi_kind i = kind \<and> P (wi_ref i)) wi_quantity (cr_items st)"

lemma no_rows_of:
  assumes "craft_ok st" "order_row pk st = Some o1" "wo_status o1 \<noteq> Wo_finished" "i \<in> set (cr_items st)"
  shows "wi_order i \<noteq> pk"
proof
  assume "wi_order i = pk"
  with craft_okD(9) [OF assms(1,4)] obtain x where "x \<in> set (cr_orders st)" "wo_id x = pk" "wo_status x = Wo_finished" by blast
  moreover from this have "order_row pk st = Some x" using order_row_iff [OF assms(1)] by blast
  ultimately show False using assms(2,3) by simp
qed

lemma no_rows_yet:
  assumes "craft_ok st" "order_row pk st = Some o1" "wo_status o1 \<noteq> Wo_finished"
  shows "ledger_sum pk kind P st = 0"
  unfolding ledger_sum_def by (rule sum_where_none) (use no_rows_of [OF assms] in auto)

lemma material_kind: "wi_kind (material_item now actor pk kind mt) = kind"
  by (simp add: material_item_def new_item_def)

lemma consumption_kind: "consumption_items now actor pk mts a = Inr rows \<Longrightarrow> \<forall>i \<in> set rows. wi_kind i = Consumption"
proof -
  assume c: "consumption_items now actor pk mts a = Inr rows"
  have k: "line_item now actor pk kind v = Inr x \<Longrightarrow> wi_kind (fst x) = kind" for kind v x
    by (auto simp: line_item_def err new_item_def)
  have all: "\<forall>x \<in> set xs. wi_kind (fst x) = Consumption" if "emap (line_item now actor pk Consumption) ls = Inr xs" for ls xs
    using that by (rule emap_all) (rule k)
  from c show ?thesis by (auto simp: consumption_items_def err material_kind dest!: all split: option.splits)
qed

lemma line_items_kind: "emap (line_item now actor pk kind) ls = Inr rows \<Longrightarrow> \<forall>x \<in> set rows. wi_kind (fst x) = kind"
  by (erule emap_all) (auto simp: line_item_def err new_item_def)

lemma output_kind: "output_items now actor o1 tot a = Inr rows \<Longrightarrow> \<forall>x \<in> set rows. wi_kind (fst x) = Output"
  by (auto simp: output_items_def new_item_def dest!: line_items_kind split: amounts.splits)

lemma waste_kind: "waste_items now actor o1 started tot a = Inr rows \<Longrightarrow> \<forall>x \<in> set rows. wi_kind (fst x) = Waste"
  by (auto simp: waste_items_def err Let_def new_item_def dest!: line_items_kind split: option.splits amounts.splits if_splits)

lemma new_sums:
  assumes outs: "\<forall>(i, q) \<in> set outs. wi_kind i = Output \<and> wi_order i = pk \<and> wi_quantity i = dec_val q \<and> column3 (dec_val q) = dec_val q"
    and wastes: "\<forall>(i, q) \<in> set wastes. wi_kind i = Waste \<and> wi_order i = pk \<and> wi_quantity i = dec_val q \<and> column3 (dec_val q) = dec_val q"
    and cons: "\<forall>i \<in> set cons. wi_kind i = Consumption"
    and new: "cr_items st' = cr_items st
        @ map column_row (map (material_item now actor pk Requirement) mts @ cons @ map fst outs @ map fst wastes)"
  shows "ledger_sum pk Output P st' = ledger_sum pk Output P st
      + sum_list (map (\<lambda>(i, q). dec_val q) (filter (\<lambda>(i, q). P (wi_ref i)) outs))"
    and "ledger_sum pk Waste P st' = ledger_sum pk Waste P st
      + sum_list (map (\<lambda>(i, q). dec_val q) (filter (\<lambda>(i, q). P (wi_ref i)) wastes))"
proof -
  have others: "\<forall>i \<in> set (map (material_item now actor pk Requirement) mts @ cons). wi_kind i \<noteq> Output \<and> wi_kind i \<noteq> Waste"
    using cons by (auto simp: material_kind)
  have w: "\<forall>i \<in> set (map fst wastes). wi_kind i \<noteq> Output" and o: "\<forall>i \<in> set (map fst outs). wi_kind i \<noteq> Waste"
    using outs wastes by auto
  let ?pre = "map (material_item now actor pk Requirement) mts @ cons"
  have split: "ledger_sum pk kind P st' = ledger_sum pk kind P st
      + sum_where (\<lambda>i. wi_order i = pk \<and> wi_kind i = kind \<and> P (wi_ref i)) wi_quantity (map column_row ?pre)
      + sum_where (\<lambda>i. wi_order i = pk \<and> wi_kind i = kind \<and> P (wi_ref i)) wi_quantity (map column_row (map fst outs))
      + sum_where (\<lambda>i. wi_order i = pk \<and> wi_kind i = kind \<and> P (wi_ref i)) wi_quantity (map column_row (map fst wastes))" for kind
    unfolding ledger_sum_def new by (simp only: map_append sum_where_append add.assoc)
  show "ledger_sum pk Output P st' = ledger_sum pk Output P st
      + sum_list (map (\<lambda>(i, q). dec_val q) (filter (\<lambda>(i, q). P (wi_ref i)) outs))"
    unfolding split sum_column_rows [OF outs] using sum_other_kind [OF w] sum_other_kind [of ?pre Output pk P] others by simp
  show "ledger_sum pk Waste P st' = ledger_sum pk Waste P st
      + sum_list (map (\<lambda>(i, q). dec_val q) (filter (\<lambda>(i, q). P (wi_ref i)) wastes))"
    unfolding split sum_column_rows [OF wastes] using sum_other_kind [OF o] sum_other_kind [of ?pre Waste pk P] others by simp
qed

lemma finish_open:
  assumes "craft_ok st" "order_row pk st = Some o1" "finish env now pk a cm st = Inr (o2, st')" "st' \<noteq> st"
  shows "wo_status o1 \<noteq> Wo_finished"
proof -
  from finish_writes [OF assms(3,1)] assms(4) obtain x es e where w: "wrote pk (es @ [e]) x o2 st st'"
    by (auto simp: command_done_def)
  then have "order_row pk st = Some x" by (simp add: wrote_def)
  with assms(2) wrote_live [OF w] show ?thesis by auto
qed

section \<open>The frozen recipe\<close>

lemma snapshot_fields:
  "dget (item_snapshot ri) ''gross_quantity'' = Some (JStr (dec_text (gross_quantity ri)))"
  "dget (item_snapshot ri) ''quantity'' = Some (JStr (dec_text (dec3 (ri_quantity ri))))"
  "dget (item_snapshot ri) ''input_sku'' = Some (JStr (ri_sku ri))" "dget (item_snapshot ri) ''unit'' = Some (JStr (ri_unit ri))"
  "dget (item_snapshot ri) ''usable_factor'' = Some (JStr (usable_text (ri_usable ri)))"
  by (simp_all add: item_snapshot_def)

lemma material_of_snapshot:
  "\<exists>m. material_of env c (JObj (item_snapshot ri))
     = Inr \<lparr>mt_ref = ri_sku ri, mt_quantity = context28 (dec_val (gross_quantity ri) * c), mt_unit = ri_unit ri, mt_meta = m\<rparr>"
  by (simp add: material_of_def object_of_def need_def snapshot_fields decimal_arg_def decimal_of_json_def dec_parse_text
      yield_meta_def usable_text_def json_text_def)

lemma materials_of_snapshot:
  "\<exists>mts. emap (material_of env c) (map (\<lambda>ri. JObj (item_snapshot ri)) ris) = Inr mts
     \<and> list_all2 (\<lambda>ri mt. mt_ref mt = ri_sku ri \<and> mt_unit mt = ri_unit ri
          \<and> mt_quantity mt = context28 (dec_val (gross_quantity ri) * c)) ris mts"
proof (induction ris)
  case (Cons ri ris)
  then obtain mts where IH: "emap (material_of env c) (map (\<lambda>ri. JObj (item_snapshot ri)) ris) = Inr mts"
    "list_all2 (\<lambda>ri mt. mt_ref mt = ri_sku ri \<and> mt_unit mt = ri_unit ri
       \<and> mt_quantity mt = context28 (dec_val (gross_quantity ri) * c)) ris mts" by blast
  obtain m where m: "material_of env c (JObj (item_snapshot ri))
      = Inr \<lparr>mt_ref = ri_sku ri, mt_quantity = context28 (dec_val (gross_quantity ri) * c), mt_unit = ri_unit ri, mt_meta = m\<rparr>"
    using material_of_snapshot by blast
  show ?case using IH m by auto
qed simp

lemma two_roundings: "\<bar>context28 (g * context28 x) - g * x\<bar> \<le> \<bar>g * x\<bar> / 10 ^ 26"
proof -
  let ?e = "1 / (2 * 10 ^ 27) :: rat"
  have a: "\<bar>context28 x - x\<bar> \<le> \<bar>x\<bar> * ?e" using context28_error [of x] by simp
  have b: "\<bar>context28 (g * context28 x) - g * context28 x\<bar> \<le> \<bar>g * context28 x\<bar> * ?e"
    using context28_error [of "g * context28 x"] by simp
  have c: "\<bar>g * context28 x - g * x\<bar> \<le> \<bar>g * x\<bar> * ?e"
  proof -
    have "\<bar>g * context28 x - g * x\<bar> = \<bar>g\<bar> * \<bar>context28 x - x\<bar>" by (simp add: abs_mult flip: right_diff_distrib)
    also have "\<dots> \<le> \<bar>g\<bar> * (\<bar>x\<bar> * ?e)" using a by (intro mult_left_mono) auto
    finally show ?thesis by (simp add: abs_mult)
  qed
  have "\<bar>g * context28 x\<bar> \<le> \<bar>g * x\<bar> + \<bar>g * x\<bar> * ?e" using c by linarith
  also have "\<dots> \<le> 2 * \<bar>g * x\<bar>" by (simp add: field_simps)
  finally have "\<bar>g * context28 x\<bar> * ?e \<le> 2 * \<bar>g * x\<bar> * ?e" by (intro mult_right_mono) auto
  with b c have "\<bar>context28 (g * context28 x) - g * x\<bar> \<le> 3 * (\<bar>g * x\<bar> * ?e)" by linarith
  also have "\<dots> \<le> \<bar>g * x\<bar> / 10 ^ 26" by (simp add: field_simps)
  finally show ?thesis .
qed

text \<open>A material drawn from an ingredient for a batch that is \<open>x\<close> times the recipe, and its row in
  the ledger, whose column keeps three places.\<close>

definition drawn_from :: "rat \<Rightarrow> recipe_item \<Rightarrow> material \<Rightarrow> bool" where
  "drawn_from x ri mt \<longleftrightarrow> mt_ref mt = ri_sku ri \<and> mt_unit mt = ri_unit ri
     \<and> \<bar>mt_quantity mt - dec_val (gross_quantity ri) * x\<bar> \<le> \<bar>dec_val (gross_quantity ri) * x\<bar> / 10 ^ 26"

definition written_for :: "rat \<Rightarrow> recipe_item \<Rightarrow> wo_item \<Rightarrow> bool" where
  "written_for x ri i \<longleftrightarrow> wi_ref i = ri_sku ri \<and> wi_unit i = ri_unit ri
     \<and> \<bar>wi_quantity i - dec_val (gross_quantity ri) * x\<bar> \<le> 1 / 2000 + \<bar>dec_val (gross_quantity ri) * x\<bar> / 10 ^ 26"

lemma column3_error: "\<bar>column3 x - x\<bar> \<le> 1 / 2000"
proof -
  have near: "\<bar>of_int \<lfloor>y * 1000 + 1 / 2\<rfloor> / 1000 - y\<bar> \<le> 1 / 2000" for y :: rat
  proof -
    have "of_int \<lfloor>y * 1000 + 1 / 2\<rfloor> \<le> y * 1000 + 1 / 2" "y * 1000 + 1 / 2 < of_int \<lfloor>y * 1000 + 1 / 2\<rfloor> + (1::rat)"
      using floor_correct [of "y * 1000 + 1 / 2"] by simp_all
    then show ?thesis unfolding abs_le_iff by linarith
  qed
  show ?thesis
  proof (cases "x < 0")
    case True
    then have "\<bar>column3 x - x\<bar> = \<bar>of_int \<lfloor>- x * 1000 + 1 / 2\<rfloor> / 1000 - (- x)\<bar>"
      by (simp add: column3_def abs_minus_commute)
    then show ?thesis using near [of "- x"] by simp
  next
    case False
    then show ?thesis using near [of x] by (simp add: column3_def)
  qed
qed

lemma written_drawn: "drawn_from x ri mt \<Longrightarrow> written_for x ri (column_row (material_item now actor pk kind mt))"
proof -
  assume d: "drawn_from x ri mt"
  let ?g = "dec_val (gross_quantity ri) * x"
  have "\<bar>column3 (mt_quantity mt) - ?g\<bar> \<le> \<bar>column3 (mt_quantity mt) - mt_quantity mt\<bar> + \<bar>mt_quantity mt - ?g\<bar>" by linarith
  also have "\<dots> \<le> 1 / 2000 + \<bar>?g\<bar> / 10 ^ 26" using d column3_error by (intro add_mono) (auto simp: drawn_from_def)
  finally show ?thesis using d by (simp add: written_for_def drawn_from_def column_row_def material_item_def new_item_def)
qed

text \<open>What the frozen recipe makes of a quantity that enters.\<close>

lemma frozen_materials:
  assumes "dget (wo_meta o1) ''_recipe_snapshot'' = Some (JObj (build_recipe_snapshot r re st0))"
    and "0 < re_batch_size re" "column3 (re_batch_size re) = re_batch_size re"
  shows "\<exists>mts. materials env o1 started st = Inr mts
    \<and> list_all2 (drawn_from (dec_val started / re_batch_size re)) (required_items r st0) mts"
proof -
  let ?c = "context28 (dec_val started / re_batch_size re)"
  have batch: "dec_val (dec3 (re_batch_size re)) = re_batch_size re" using dec3_column [of "re_batch_size re"] assms(3) by simp
  have snap: "dget (build_recipe_snapshot r re st0) ''batch_size'' = Some (JStr (dec_text (dec3 (re_batch_size re))))"
    "dget (build_recipe_snapshot r re st0) ''items'' = Some (JList (map (\<lambda>ri. JObj (item_snapshot ri)) (required_items r st0)))"
    by (simp_all add: build_recipe_snapshot_def)
  have "build_recipe_snapshot r re st0 \<noteq> []" by (simp add: build_recipe_snapshot_def)
  then have "materials env o1 started st
      = emap (material_of env ?c) (map (\<lambda>ri. JObj (item_snapshot ri)) (required_items r st0))"
    using assms(1,2) batch
    by (simp add: materials_def recipe_lines_def pget_def object_of_def need_def snap decimal_arg_def decimal_of_json_def
        dec_parse_text coefficient_def)
  moreover obtain mts where "emap (material_of env ?c) (map (\<lambda>ri. JObj (item_snapshot ri)) (required_items r st0)) = Inr mts"
    and all: "list_all2 (\<lambda>ri mt. mt_ref mt = ri_sku ri \<and> mt_unit mt = ri_unit ri
         \<and> mt_quantity mt = context28 (dec_val (gross_quantity ri) * ?c)) (required_items r st0) mts"
    using materials_of_snapshot by blast
  moreover from all have "list_all2 (drawn_from (dec_val started / re_batch_size re)) (required_items r st0) mts"
    by (rule list_all2_mono) (metis drawn_from_def two_roundings)
  ultimately show ?thesis by auto
qed

text \<open>A plan that is no replay creates the order with the recipe of that day in its row.\<close>

lemma planned_row:
  assumes "craft_ok st" "plan env now r (Some q) date pa cm st = Inr (o0, st')" "st' \<noteq> st"
  shows "o0 \<in> set (cr_orders st')"
    and "dget (wo_meta o0) ''_recipe_snapshot'' = Some (JObj (build_recipe_snapshot r (cr_recipes st ! r) st))"
proof -
  from assms(2) obtain old where old: "replayed (cm_key cm) (plan_matches env q (cr_recipes st ! r) date pa cm) st = Inr old"
    by (auto simp: plan_def err read_quantity_def split: if_splits)
  have "old = None" using assms(2,3) old by (cases old) (auto simp: plan_def err read_quantity_def split: if_splits)
  with assms(2) old obtain st1 where c: "create_work_order env now r q date pa cm st = Inr (o0, st1)"
    and res: "st' = announce (wo_id o0) ''planned'' st1"
    by (auto simp: plan_def err read_quantity_def split: if_splits)
  obtain ref st2 where ref: "generate_ref env now st = (ref, st2)" by (cases "generate_ref env now st")
  show "o0 \<in> set (cr_orders st')" using create_Inr [OF c assms(1)] by (auto simp: res)
  show "dget (wo_meta o0) ''_recipe_snapshot'' = Some (JObj (build_recipe_snapshot r (cr_recipes st ! r) st))"
    using c ref by (auto simp: create_work_order_def Let_def err split: if_splits)
qed

text \<open>Whatever happens afterwards, the row still carries that recipe.\<close>

lemma snapshot_kept:
  assumes "craft_ok st0" "plan env now r (Some q) date pa cm st0 = Inr (o0, st1)" "st1 \<noteq> st0"
    and "craft_run env st1 st" "order_row (wo_id o0) st = Some o1"
  shows "dget (wo_meta o1) ''_recipe_snapshot'' = Some (JObj (build_recipe_snapshot r (cr_recipes st0 ! r) st0))"
proof -
  have ok1: "craft_ok st1" using step_ok [OF craft_step.Planned [OF assms(2)] assms(1)] by simp
  have "order_row (wo_id o0) st1 = Some o0" using planned_row(1) [OF assms(1-3)] order_row_iff [OF ok1] by blast
  with run_ok [OF assms(4) ok1] later_row obtain o2 where "order_row (wo_id o0) st = Some o2" "wo_card o2 = wo_card o0" by blast
  then have "dget (wo_meta o1) ''_recipe_snapshot'' = dget (wo_meta o0) ''_recipe_snapshot''"
    using assms(5) by (simp add: wo_card_def)
  with planned_row(2) [OF assms(1-3)] show ?thesis by simp
qed

lemma kind_rows:
  assumes "\<forall>i \<in> set xs. wi_order i = pk \<and> wi_kind i = kind" "\<forall>i \<in> set ys. wi_kind i \<noteq> kind"
    and "filter (\<lambda>i. wi_order i = pk \<and> wi_kind i = kind) old = []"
  shows "filter (\<lambda>i. wi_order i = pk \<and> wi_kind i = kind) (old @ map column_row (xs @ ys)) = map column_row xs"
proof -
  have "filter (\<lambda>i. wi_order i = pk \<and> wi_kind i = kind) (map column_row xs) = map column_row xs"
    using assms(1) by (auto simp: filter_map comp_def)
  moreover have "filter (\<lambda>i. wi_order i = pk \<and> wi_kind i = kind) (map column_row ys) = []"
    using assms(2) by (auto simp: filter_empty_conv)
  ultimately show ?thesis using assms(3) by simp
qed

section \<open>The properties\<close>

text \<open>C22: A finish by parts accounts for the whole batch: with quantities of at most three places, the outputs
  it writes and the waste of the product add up to the declared total, or to what entered production.\<close>

theorem finish_partition_accounts:
  assumes "craft_run env (craft_init rs items) st" "order_row pk st = Some o1"
    and "finish env now pk a cm st = Inr (o2, st')" "st' \<noteq> st"
    and "fa_finished a = Partition ls" "fa_wasted a = Some (Partition ws)" "three_places ls" "three_places ws"
    and "declared_decimal a = Inr declared" "entered o1 st = Inr started"
  shows "ledger_sum pk Output (\<lambda>_. True) st' + ledger_sum pk Waste (\<lambda>sku. sku = wo_output_sku o1) st'
    = dec_val (case declared of Some d \<Rightarrow> d | None \<Rightarrow> started)"
proof -
  have ok: "craft_ok st" using run_ok [OF assms(1)] by simp
  have id: "wo_id o1 = pk" using assms(2) by (rule order_row_id)
  note open1 = finish_open [OF ok assms(2-4)]
  from finish_rows [OF assms(3,4,2)] assms(9,10) obtain tot mts cons outs wastes where F: "finished_total a = Inr tot"
    "consumption_items now (cm_actor cm) pk mts a = Inr cons" "output_items now (cm_actor cm) o1 tot a = Inr outs"
    "waste_items now (cm_actor cm) o1 started tot a = Inr wastes" "partition_ok o1 started declared tot wastes a"
    "cr_items st' = cr_items st
        @ map column_row (map (material_item now (cm_actor cm) pk Requirement) mts @ cons @ map fst outs @ map fst wastes)"
    by auto
  from F(3,4) assms(5,6) id have lines: "emap (line_item now (cm_actor cm) pk Output) ls = Inr outs"
    "emap (line_item now (cm_actor cm) pk Waste) ws = Inr wastes" by (simp_all add: output_items_def waste_items_def)
  note O = line_items_rows [OF lines(1) assms(7)] and W = line_items_rows [OF lines(2) assms(8)]
  have tot: "dec_val tot = sum_list (map (\<lambda>(i, q). dec_val q) outs)"
    using F(1) O assms(5) by (auto simp: finished_total_def err case_prod_unfold comp_def split: if_splits)
  note sums = new_sums [OF conjunct2 [OF O] conjunct2 [OF W] consumption_kind [OF F(2)] F(6)]
  show ?thesis
    using F(5) assms(5) tot unfolding sums no_rows_yet [OF ok assms(2) open1]
    by (simp add: partition_ok_def)
qed

theorem finish_partition_accounts_witness:
  "ledger_sum 0 Output (\<lambda>_. True) (outcome parts_finish) + ledger_sum 0 Waste (\<lambda>sku. sku = ''loaf'') (outcome parts_finish) = 10"
proof -
  obtain o1 o2 where o1: "order_row 0 started_loaves = Some o1" "entered o1 started_loaves = Inr (Dec 10 0)" "wo_output_sku o1 = ''loaf''"
    "log_view o1 = (Wo_started, 1, 10, None)"
    and fin: "finish bake_env 130 0 bake_parts (keyed ''f1'' (Some 1)) started_loaves = Inr (o2, outcome parts_finish)"
    using bakery_rows(2) bakery_steps(4) by (auto simp: parts_finish_def)
  have changed: "outcome parts_finish \<noteq> started_loaves"
    using bakery_rows(4) o1(1,4) by (auto simp: log_view_def)
  have three: "three_places [loaf_line (Dec 6 0), loaf_line (Dec 25 1)]" "three_places [loaf_line (Dec 15 1)]"
    by (auto simp: three_places_def loaf_line_def)
  have "declared_decimal bake_parts = Inr None" by (simp add: declared_decimal_def bake_parts_def bake_all_def)
  from finish_partition_accounts [OF bakery_run(2) [unfolded bakery_def] o1(1) fin changed _ _ three this o1(2)] o1(3)
  show ?thesis by (simp add: bake_parts_def)
qed

text \<open>A finish with one number and no list of waste accounts for what entered production: the output and
  the waste it writes add up to it, or to the output alone when more came out than went in.\<close>

theorem finish_scalar_accounts:
  assumes "craft_run env (craft_init rs items) st" "order_row pk st = Some o1"
    and "finish env now pk a cm st = Inr (o2, st')" "st' \<noteq> st"
    and "fa_finished a = Scalar (Some d)" "fa_wasted a = None" "dec_places d \<le> 3"
    and "entered o1 st = Inr started" "dec_places started \<le> 3"
  shows "ledger_sum pk Output (\<lambda>sku. sku = wo_output_sku o1) st' = dec_val d
    \<and> ledger_sum pk Output (\<lambda>_. True) st' + ledger_sum pk Waste (\<lambda>_. True) st' = max (dec_val started) (dec_val d)"
proof -
  have ok: "craft_ok st" using run_ok [OF assms(1)] by simp
  have id: "wo_id o1 = pk" using assms(2) by (rule order_row_id)
  note open1 = finish_open [OF ok assms(2-4)]
  from finish_rows [OF assms(3,4,2)] assms(8) obtain tot mts cons outs wastes where F: "finished_total a = Inr tot"
    "consumption_items now (cm_actor cm) pk mts a = Inr cons" "output_items now (cm_actor cm) o1 tot a = Inr outs"
    "waste_items now (cm_actor cm) o1 started tot a = Inr wastes"
    "cr_items st' = cr_items st
        @ map column_row (map (material_item now (cm_actor cm) pk Requirement) mts @ cons @ map fst outs @ map fst wastes)"
    by auto
  let ?own = "\<lambda>kind q. (new_item now (cm_actor cm) pk kind (wo_output_sku o1) (dec_val q) [] [], q)"
  from F(1) assms(5) have tot: "tot = d" by (auto simp: finished_total_def positive_decimal_def split: if_splits)
  with F(3,4) assms(5,6) id have lines: "outs = [?own Output d]"
    "wastes = (if dec_val started - dec_val d > 0 then [?own Waste (dec_add started (dec_neg d))] else [])"
    by (simp_all add: output_items_def waste_items_def Let_def split: if_splits)
  have "dec_places (dec_add started (dec_neg d)) \<le> 3"
    using assms(7,9) by (simp add: dec_add_def dec_neg_def Let_def)
  from short_column [OF this] short_column [OF assms(7)]
  have grid: "column3 (dec_val started - dec_val d) = dec_val started - dec_val d" "column3 (dec_val d) = dec_val d" by simp_all
  have O: "\<forall>(i, q) \<in> set outs. wi_kind i = Output \<and> wi_order i = pk \<and> wi_quantity i = dec_val q \<and> column3 (dec_val q) = dec_val q"
    and W: "\<forall>(i, q) \<in> set wastes. wi_kind i = Waste \<and> wi_order i = pk \<and> wi_quantity i = dec_val q \<and> column3 (dec_val q) = dec_val q"
    using lines grid by (auto simp: new_item_def)
  note sums = new_sums [OF O W consumption_kind [OF F(2)] F(5)]
  show ?thesis unfolding sums no_rows_yet [OF ok assms(2) open1] using lines by (simp add: new_item_def)
qed

theorem finish_scalar_accounts_witness:
  "ledger_sum 0 Output (\<lambda>sku. sku = ''loaf'') finished_loaves = 19 / 2
   \<and> ledger_sum 0 Output (\<lambda>_. True) finished_loaves + ledger_sum 0 Waste (\<lambda>_. True) finished_loaves = 10"
proof -
  obtain o1 o2 where o1: "order_row 0 started_loaves = Some o1" "entered o1 started_loaves = Inr (Dec 10 0)" "wo_output_sku o1 = ''loaf''"
    and fin: "finish bake_env 130 0 bake_all (keyed ''f1'' (Some 1)) started_loaves = Inr (o2, finished_loaves)"
    using bakery_rows(2) bakery_steps(3) by (auto simp: loaf_finish_def)
  from finish_scalar_accounts [OF bakery_run(2) [unfolded bakery_def] o1(1) fin bakery_changes(2) _ _ _ o1(2)] o1(3)
  show ?thesis by (simp add: bake_all_def dec_val_def)
qed

text \<open>C23: When an order planned by itself, from a recipe whose batch size is positive and fits its column, is finished,
  the finish requires the recipe as it was when the order was planned, whatever was edited since and whatever was
  done with the order in between: one requirement per ingredient, in order and in its unit, of its gross quantity times
  what entered production over the batch size, to half a unit of the third decimal and one part in ten to the
  twenty-six; when the caller lists no consumption of his own, the same rows are what the finish consumes.\<close>

theorem frozen_recipe_consumed:
  assumes "craft_run env (craft_init rs items) st0"
    and "plan env now0 r (Some q) date pa cm0 st0 = Inr (o0, st1)" "st1 \<noteq> st0"
    and "craft_run env st1 st" "order_row (wo_id o0) st = Some o1" "entered o1 st = Inr started"
    and "finish env now (wo_id o0) a cm st = Inr (o2, st')" "st' \<noteq> st"
    and "re = cr_recipes st0 ! r" "0 < re_batch_size re" "column3 (re_batch_size re) = re_batch_size re"
  shows "list_all2 (written_for (dec_val started / re_batch_size re)) (required_items r st0)
      (filter (\<lambda>i. wi_order i = wo_id o0 \<and> wi_kind i = Requirement) (cr_items st'))
    \<and> (fa_consumed a = None \<longrightarrow>
         list_all2 (written_for (dec_val started / re_batch_size re)) (required_items r st0)
           (filter (\<lambda>i. wi_order i = wo_id o0 \<and> wi_kind i = Consumption) (cr_items st')))"
proof -
  let ?x = "dec_val started / re_batch_size re" and ?pk = "wo_id o0"
  have ok0: "craft_ok st0" using run_ok [OF assms(1)] by simp
  have ok: "craft_ok st" using run_ok [OF assms(4)] step_ok [OF craft_step.Planned [OF assms(2)] ok0] by blast
  note open1 = finish_open [OF ok assms(5,7,8)]
  from finish_rows [OF assms(7,8,5)] assms(6) obtain tot mts cons outs wastes where F:
    "materials env o1 started st = Inr mts" "consumption_items now (cm_actor cm) ?pk mts a = Inr cons"
    "output_items now (cm_actor cm) o1 tot a = Inr outs" "waste_items now (cm_actor cm) o1 started tot a = Inr wastes"
    "cr_items st' = cr_items st
        @ map column_row (map (material_item now (cm_actor cm) ?pk Requirement) mts @ cons @ map fst outs @ map fst wastes)"
    by auto
  have drawn: "list_all2 (drawn_from ?x) (required_items r st0) mts"
    using frozen_materials [OF snapshot_kept [OF ok0 assms(2-5), folded assms(9)] assms(10,11), of env started st] F(1) by simp
  have rows: "list_all2 (written_for ?x) (required_items r st0) (map column_row (map (material_item now (cm_actor cm) ?pk kind) mts))"
    for kind using drawn by (auto simp: list_all2_map2 intro: list_all2_mono written_drawn)
  let ?R = "map (material_item now (cm_actor cm) ?pk Requirement) mts"
  have none: "filter (\<lambda>i. wi_order i = ?pk \<and> wi_kind i = kind) (cr_items st) = []" for kind
    using no_rows_of [OF ok assms(5) open1] by (auto simp: filter_empty_conv)
  have others: "\<forall>i \<in> set (map fst outs @ map fst wastes). wi_kind i \<noteq> Requirement \<and> wi_kind i \<noteq> Consumption"
    using output_kind [OF F(3)] waste_kind [OF F(4)] by auto
  have req: "filter (\<lambda>i. wi_order i = ?pk \<and> wi_kind i = Requirement) (cr_items st') = map column_row ?R"
    unfolding F(5) by (rule kind_rows [OF _ _ none]) (use others consumption_kind [OF F(2)] in \<open>auto simp: material_kind\<close>)
  have "filter (\<lambda>i. wi_order i = ?pk \<and> wi_kind i = Consumption) (cr_items st')
      = map column_row (map (material_item now (cm_actor cm) ?pk Consumption) mts)" if c: "fa_consumed a = None"
  proof -
    have "cons = map (material_item now (cm_actor cm) ?pk Consumption) mts" using F(2) c by (simp add: consumption_items_def)
    moreover have "filter (\<lambda>i. wi_order i = ?pk \<and> wi_kind i = Consumption) (cr_items st @ map column_row ?R) = []"
      using none [of Consumption] by (auto simp: filter_empty_conv material_kind)
    ultimately show ?thesis
      using kind_rows [of cons ?pk Consumption "map fst outs @ map fst wastes" "cr_items st @ map column_row ?R"] others
      by (auto simp: F(5) material_kind)
  qed
  with req rows show ?thesis by simp
qed

theorem frozen_recipe_consumed_witness:
  "\<exists>i. filter (\<lambda>i. wi_order i = 0 \<and> wi_kind i = Consumption) (cr_items finished_loaves) = [i]
     \<and> wi_ref i = ''flour'' \<and> \<bar>wi_quantity i - 5\<bar> \<le> 1 / 1000"
proof -
  obtain o0 where plan: "plan bake_env 100 0 (Some (Dec 10 0)) (Some 20) for_ana (keyed ''p1'' None) bakery = Inr (o0, planned_loaves)"
    using bakery_steps(1) by (auto simp: loaf_plan_def)
  have news: "planned_loaves \<noteq> bakery" "map wo_id (cr_orders planned_loaves) = [0]" "required_items 0 bakery = [flour_item]"
    "dec_val (gross_quantity flour_item) = 5" "cr_recipes bakery ! 0 = loaf_recipe"
    by (rule bakery_orders)+
  have o0: "wo_id o0 = 0" using planned_row(1) [OF bakery_ok plan news(1)] news(2) by fastforce
  obtain o1 o2 where o1: "order_row (wo_id o0) started_loaves = Some o1" "entered o1 started_loaves = Inr (Dec 10 0)"
    and fin: "finish bake_env 130 (wo_id o0) bake_all (keyed ''f1'' (Some 1)) started_loaves = Inr (o2, finished_loaves)"
    using bakery_rows(2) bakery_steps(3) o0 by (auto simp: loaf_finish_def)
  have start: "craft_run bake_env (craft_init [loaf_recipe] [flour_item]) bakery" by (simp add: bakery_def)
  have batch: "0 < re_batch_size loaf_recipe" "column3 (re_batch_size loaf_recipe) = re_batch_size loaf_recipe"
    by code_simp+
  have "fa_consumed bake_all = None" by (simp add: bake_all_def)
  with frozen_recipe_consumed [OF start plan news(1) bakery_run(4) o1 fin bakery_changes(2) news(5) [symmetric] batch] news(3) o0
  have "list_all2 (written_for (dec_val (Dec 10 0) / re_batch_size loaf_recipe)) [flour_item]
      (filter (\<lambda>i. wi_order i = 0 \<and> wi_kind i = Consumption) (cr_items finished_loaves))" by simp
  moreover have "dec_val (Dec 10 0) / re_batch_size loaf_recipe = 1" by (simp add: dec_val_def loaf_recipe_def)
  ultimately obtain i where "filter (\<lambda>i. wi_order i = 0 \<and> wi_kind i = Consumption) (cr_items finished_loaves) = [i]"
    "written_for 1 flour_item i" by (auto simp: list_all2_Cons1)
  moreover have "ri_sku flour_item = ''flour''" by (simp add: flour_item_def)
  ultimately show ?thesis using news(4) by (auto simp: written_for_def)
qed

text \<open>The attempt a finish is remembered by does not depend on how its quantity was written, and tells two
  quantities apart: two requests that differ in the finished quantity alone have the same attempt exactly when
  the quantities are equal as numbers.\<close>

theorem attempt_spelling:
  assumes "0 < dec_val d" "0 < dec_val e" "finish_attempt declared (a\<lparr>fa_finished := Scalar (Some d)\<rparr>) = Inr x"
  shows "finish_attempt declared (a\<lparr>fa_finished := Scalar (Some e)\<rparr>) = Inr x \<longleftrightarrow> dec_val d = dec_val e"
  using assms by (auto simp: finish_attempt_def err attempt_part_def positive_decimal_def mode_of_def dec_wire_iff)

theorem attempt_spelling_witness:
  "finish_attempt None (bake_all\<lparr>fa_finished := Scalar (Some (Dec 950 2))\<rparr>)
   = finish_attempt None (bake_all\<lparr>fa_finished := Scalar (Some (Dec 95 1))\<rparr>)"
proof -
  obtain x where x: "finish_attempt None (bake_all\<lparr>fa_finished := Scalar (Some (Dec 95 1))\<rparr>) = Inr x"
    by (simp add: finish_attempt_def attempt_part_def positive_decimal_def dec_val_def bake_all_def)
  have "dec_val (Dec 95 1) = dec_val (Dec 950 2)" "0 < dec_val (Dec 95 1)" "0 < dec_val (Dec 950 2)" by (simp_all add: dec_val_def)
  with attempt_spelling [OF _ _ x, of "Dec 950 2"] x show ?thesis by simp
qed

end
