(* ===== verification/CraftStock.thy ===== *)
theory CraftStock
  imports CraftFinish StockHolds StockQueries "HOL-Library.Product_Lexorder"
begin

text \<open>
  What the production kernel writes in the stock ledger (\<open>contrib/stockman/handlers.py\<close>): the
  receivers of \<open>production_changed\<close> for planned, adjusted, started, voided and finished orders.
  The finish has two legs, ingredients out and output in, each run at most once under the lock
  of the work order by a stamp in its \<open>meta\<close>.

  The state is the kernel's with the stock's. A handler outside a transaction keeps what its
  earlier writes did when a later one raises; a leg is one transaction. The reasons of the
  moves are shortened: they hold the reference of the order and no numbers.
\<close>

record shop_floor =
  sf_craft :: craft
  sf_stock :: stock

datatype leg_error = Leg_stock stock_error | Leg_craft craft_error | Leg_value_error | Leg_concurrent_modification

record leg_env =
  lg_clock :: clock
  lg_catalogue :: catalogue
  lg_ttl :: int
  lg_stamp :: string
  lg_from_saleable :: bool

abbreviation in_stock :: "stock_error + 'a \<Rightarrow> leg_error + 'a" where
  "in_stock \<equiv> map_sum Leg_stock id"

abbreviation in_craft :: "craft_error + 'a \<Rightarrow> leg_error + 'a" where
  "in_craft \<equiv> map_sum Leg_craft id"

section \<open>The stamps\<close>

definition consumed_key :: string where "consumed_key = ''stock_consumed_at''"
definition realized_key :: string where "realized_key = ''stock_realized_at''"
definition started_batch :: string where "started_batch = ''started''"

definition leg_done :: "work_order \<Rightarrow> string \<Rightarrow> bool" where
  "leg_done o1 key \<longleftrightarrow> truthy (pget (wo_meta o1) key)"

definition stamp_leg :: "string \<Rightarrow> work_order \<Rightarrow> string \<Rightarrow> craft \<Rightarrow> work_order \<times> craft" where
  "stamp_leg stamp o1 key st =
     (if leg_done o1 key then (o1, st)
      else let m = dset key (JStr stamp) (wo_meta o1) in
           (o1\<lparr>wo_meta := m\<rparr>,
            case order_row (wo_id o1) st of None \<Rightarrow> st | Some r \<Rightarrow> put_order (r\<lparr>wo_meta := m\<rparr>) st))"

text \<open>\<open>_leg_lock\<close>: the order with the \<open>meta\<close> of its row.\<close>

definition leg_lock :: "work_order \<Rightarrow> craft \<Rightarrow> work_order" where
  "leg_lock o1 st = (case order_row (wo_id o1) st of None \<Rightarrow> o1 | Some r \<Rightarrow> o1\<lparr>wo_meta := wo_meta r\<rparr>)"

definition stock_legs_complete :: "work_order \<Rightarrow> bool" where
  "stock_legs_complete o1 \<longleftrightarrow> leg_done o1 consumed_key \<and> leg_done o1 realized_key"

section \<open>Where the supply is\<close>

definition resolve_position :: "string \<Rightarrow> stock \<Rightarrow> string option" where
  "resolve_position ref st = (if ref = [] then None else map_option po_ref (row_get po_ref ref (positions st)))"

definition supply_entered_started_batch :: "work_order \<Rightarrow> craft \<Rightarrow> bool" where
  "supply_entered_started_batch o1 st =
     (case last_event Ev_started (wo_id o1) st of None \<Rightarrow> False
      | Some e \<Rightarrow> \<not> truthy (pget (we_payload e) ''implicit''))"

definition find_planned_quant :: "work_order \<Rightarrow> string \<Rightarrow> int \<Rightarrow> stock \<Rightarrow> quant option" where
  "find_planned_quant o1 sku date st =
     (case get_quant sku (resolve_position (wo_position_ref o1) st) (Some date) [] st of
        Some q \<Rightarrow> Some q
      | None \<Rightarrow> find (\<lambda>q. qu_sku q = sku \<and> qu_target q = Some date \<and> qu_batch q = []) (quants st))"

text \<open>\<open>work_order.started_qty or 0\<close> and \<open>work_order.started_qty or work_order.quantity\<close>.\<close>

definition started_or_zero :: "work_order \<Rightarrow> craft \<Rightarrow> craft_error + rat" where
  "started_or_zero o1 st = map_sum id (\<lambda>q. case q of None \<Rightarrow> 0 | Some d \<Rightarrow> dec_val d) (started_qty (wo_id o1) st)"

definition started_or_planned :: "work_order \<Rightarrow> craft \<Rightarrow> craft_error + rat" where
  "started_or_planned o1 st = map_sum id dec_val (effective_qty o1 st)"

section \<open>Planned, adjusted, started, voided\<close>

definition supply_args :: "work_order \<Rightarrow> int \<Rightarrow> string \<Rightarrow> string \<Rightarrow> dict \<Rightarrow> stock \<Rightarrow> receive_args" where
  "supply_args o1 date b reason md st =
     \<lparr>ra_position = resolve_position (wo_position_ref o1) st, ra_target = Some date, ra_batch = b, ra_user = None,
      ra_reason = reason @ wo_ref o1, ra_kind = Make_move, ra_metadata = md\<rparr>"

definition planned_metadata :: "work_order \<Rightarrow> dict" where
  "planned_metadata o1 =
     (let m = wo_meta o1 in
      if truthy (pget m ''suppress_notifications'')
      then [(''suppress_notifications'', JBool True)]
        @ (if truthy (pget m ''synthetic_source'') then [(''synthetic_source'', pget m ''synthetic_source'')] else [])
      else [])"

text \<open>A service call outside a transaction: its error ends the handler, what came before stays.\<close>

definition after_call :: "leg_error + stock \<Rightarrow> stock \<Rightarrow> (stock \<Rightarrow> stock \<times> leg_error option) \<Rightarrow> stock \<times> leg_error option" where
  "after_call r st k = (case r of Inl e \<Rightarrow> (st, Some e) | Inr st1 \<Rightarrow> k st1)"

definition receive_supply :: "leg_env \<Rightarrow> rat \<Rightarrow> string \<Rightarrow> receive_args \<Rightarrow> stock \<Rightarrow> leg_error + stock" where
  "receive_supply env n sku a st = map_sum Leg_stock fst (atomically (receive (lg_clock env) (lg_catalogue env) n sku a st))"

definition adjust_supply :: "leg_env \<Rightarrow> quant \<Rightarrow> rat \<Rightarrow> string \<Rightarrow> stock \<Rightarrow> leg_error + stock" where
  "adjust_supply env q n reason st = map_sum Leg_stock fst (Stockman.adjust (lg_clock env) (qu_id q) n reason None st)"

definition handle_planned :: "leg_env \<Rightarrow> work_order \<Rightarrow> string \<Rightarrow> int option \<Rightarrow> stock \<Rightarrow> stock \<times> leg_error option" where
  "handle_planned env o1 sku date st =
     (case date of
        None \<Rightarrow> (st, None)
      | Some d \<Rightarrow> after_call (receive_supply env (wo_quantity o1) sku
                    (supply_args o1 d [] ''Producao planejada: '' (planned_metadata o1) st) st) st (\<lambda>st1. (st1, None)))"

definition handle_adjusted ::
    "leg_env \<Rightarrow> work_order \<Rightarrow> string \<Rightarrow> int option \<Rightarrow> rat option \<Rightarrow> stock \<Rightarrow> stock \<times> leg_error option" where
  "handle_adjusted env o1 sku date previous st =
     (case date of
        None \<Rightarrow> (st, None)
      | Some d \<Rightarrow>
          (case find_planned_quant o1 sku d st of
             None \<Rightarrow> after_call (receive_supply env (wo_quantity o1) sku
                       (supply_args o1 d [] ''Producao planejada (ajuste): '' [(''reference'', JStr (wo_ref o1))] st) st) st
                       (\<lambda>st1. (st1, None))
           | Some q \<Rightarrow>
               (case previous of
                  None \<Rightarrow> (st, Some Leg_concurrent_modification)
                | Some p \<Rightarrow> after_call (adjust_supply env q (max (qu_quantity q + (wo_quantity o1 - p)) 0)
                              (''Ajuste WO '' @ wo_ref o1) st) st (\<lambda>st1. (st1, None)))))"

definition handle_started ::
    "leg_env \<Rightarrow> work_order \<Rightarrow> string \<Rightarrow> int option \<Rightarrow> craft \<Rightarrow> stock \<Rightarrow> stock \<times> leg_error option" where
  "handle_started env o1 sku date cr st =
     (case date of
        None \<Rightarrow> (st, None)
      | Some d \<Rightarrow>
          (case started_or_planned o1 cr of
             Inl e \<Rightarrow> (st, Some (Leg_craft e))
           | Inr n \<Rightarrow>
               let pos = resolve_position (wo_position_ref o1) st;
                   planned = (case get_quant sku pos (Some d) [] st of Some q \<Rightarrow> Some q
                              | None \<Rightarrow> get_quant sku None (Some d) [] st) in
               after_call (case planned of None \<Rightarrow> Inr st
                           | Some q \<Rightarrow> adjust_supply env q (max (qu_quantity q - n) 0) (''Entrada em producao: '' @ wo_ref o1) st)
                 st (\<lambda>st1. after_call (receive_supply env n sku
                       (supply_args o1 d started_batch ''Producao do lote: '' [] st) st1) st1 (\<lambda>st2. (st2, None)))))"

definition handle_voided ::
    "leg_env \<Rightarrow> work_order \<Rightarrow> string \<Rightarrow> int option \<Rightarrow> craft \<Rightarrow> stock \<Rightarrow> stock \<times> leg_error option" where
  "handle_voided env o1 sku date cr st =
     (case date of
        None \<Rightarrow> (st, None)
      | Some d \<Rightarrow>
          let planned = find_planned_quant o1 sku d st;
              baking = get_quant sku (resolve_position (wo_position_ref o1) st) (Some d) started_batch st in
          if planned = None \<and> baking = None then (st, None)
          else case started_or_zero o1 cr of
            Inl e \<Rightarrow> (st, Some (Leg_craft e))
          | Inr n \<Rightarrow>
              let contribution = max (wo_quantity o1 - n) 0 in
              after_call (case planned of None \<Rightarrow> Inr st
                  | Some q \<Rightarrow> if 0 < qu_quantity q \<and> 0 < contribution
                              then adjust_supply env q (max (qu_quantity q - contribution) 0) (''WO cancelada: '' @ wo_ref o1) st
                              else Inr st)
                st (\<lambda>st1. after_call (case baking of None \<Rightarrow> Inr st1
                  | Some q \<Rightarrow> if 0 < qu_quantity q \<and> 0 < n
                              then adjust_supply env q (max (qu_quantity q - n) 0) (''WO cancelada apos inicio: '' @ wo_ref o1) st1
                              else Inr st1) st1 (\<lambda>st2. (st2, None))))"

section \<open>Ingredients out\<close>

text \<open>The last day of \<open>datetime.date\<close>.\<close>

definition date_max :: int where "date_max = 3652059"

definition quant_saleable :: "stock \<Rightarrow> quant \<Rightarrow> bool" where
  "quant_saleable st q =
     (case qu_position q of None \<Rightarrow> False
      | Some p \<Rightarrow> (case row_get po_ref p (positions st) of None \<Rightarrow> False | Some r \<Rightarrow> po_is_saleable r))"

definition lot_expiry :: "int \<Rightarrow> string \<Rightarrow> stock \<Rightarrow> quant \<Rightarrow> int" where
  "lot_expiry day sku st q =
     (case find (\<lambda>b. ba_sku b = sku \<and> ba_ref b = qu_batch q \<and> (case ba_expiry b of None \<Rightarrow> False | Some e \<Rightarrow> day \<le> e))
        (batches st) of None \<Rightarrow> date_max | Some b \<Rightarrow> (case ba_expiry b of None \<Rightarrow> date_max | Some e \<Rightarrow> e))"

definition expired_refs :: "int \<Rightarrow> string \<Rightarrow> stock \<Rightarrow> string list" where
  "expired_refs day sku st =
     map ba_ref (filter (\<lambda>b. ba_sku b = sku \<and> (case ba_expiry b of None \<Rightarrow> False | Some e \<Rightarrow> e < day)) (batches st))"

definition consume_key :: "int \<Rightarrow> string \<Rightarrow> stock \<Rightarrow> quant \<Rightarrow> nat \<times> (nat \<times> int) \<times> int \<times> nat" where
  "consume_key day sku st q =
     (if quant_saleable st q then 1 else 0, case qu_target q of None \<Rightarrow> (0, 0) | Some d \<Rightarrow> (1, d),
      lot_expiry day sku st q, qu_id q)"

definition consumable_quants :: "leg_env \<Rightarrow> string \<Rightarrow> stock \<Rightarrow> quant list" where
  "consumable_quants env sku st =
     (let day = today (lg_clock env) in
      sort_key (consume_key day sku st)
        (filter (\<lambda>q. qu_batch q \<notin> set (expired_refs day sku st) \<and> (lg_from_saleable env \<or> \<not> quant_saleable st q))
          (list_quants (lg_clock env) (Some sku) None True False st)))"

definition dict_of :: "json \<Rightarrow> dict" where
  "dict_of v = (case v of JObj d \<Rightarrow> d | _ \<Rightarrow> [])"

definition list_of :: "json \<Rightarrow> json list" where
  "list_of v = (case v of JList xs \<Rightarrow> xs | _ \<Rightarrow> [])"

text \<open>The lot frozen for each ingredient; two lots for one ingredient raise \<open>ValueError\<close>.\<close>

fun select_batches :: "json list \<Rightarrow> (string \<times> string) list \<Rightarrow> leg_error + (string \<times> string) list" where
  "select_batches [] chosen = Inr chosen"
| "select_batches (x # xs) chosen =
     (let sku = strip (json_text (pget (dict_of x) ''input_sku''));
          b = strip (json_text (pget (dict_of (pget (dict_of x) ''meta'')) ''batch_ref'')) in
      if sku = [] \<or> b = [] then select_batches xs chosen
      else if (case map_of chosen sku of None \<Rightarrow> False | Some p \<Rightarrow> p \<noteq> b) then Inl Leg_value_error
      else select_batches xs (AList.update sku b chosen))"

definition selected_ingredient_batches :: "work_order \<Rightarrow> leg_error + (string \<times> string) list" where
  "selected_ingredient_batches o1 = select_batches (list_of (pget (dict_of (pget (wo_meta o1) ''_recipe_snapshot'')) ''items'')) []"

text \<open>The shortages an operator accepted, by ingredient; a shortage that is no number is skipped.\<close>

fun add_approved :: "json list \<Rightarrow> (string \<times> rat) list \<Rightarrow> (string \<times> rat) list" where
  "add_approved [] acc = acc"
| "add_approved (x # xs) acc =
     (let sku = json_text (pget (dict_of x) ''sku''); v = pget (dict_of x) ''shortage'' in
      case decimal_of_json (if truthy v then v else JStr ''0'') of
        Inl _ \<Rightarrow> add_approved xs acc
      | Inr d \<Rightarrow> add_approved xs (AList.update sku ((case map_of acc sku of None \<Rightarrow> 0 | Some q \<Rightarrow> q) + dec_val d) acc))"

definition approved_shortages :: "nat \<Rightarrow> craft \<Rightarrow> (string \<times> rat) list" where
  "approved_shortages pk cr =
     foldl (\<lambda>acc e. add_approved (list_of (pget (dict_of (pget (we_payload e) ''impact'')) ''missing'')) acc) []
       (filter (\<lambda>e. we_order e = pk \<and> we_kind e = Ev_shortage_overridden
          \<and> json_text (pget (we_payload e) ''action'') \<in> {''finish'', ''quick_finish''}) (cr_events cr))"

fun issue_from :: "leg_env \<Rightarrow> bool \<Rightarrow> string \<Rightarrow> nat list \<Rightarrow> rat \<Rightarrow> stock \<Rightarrow> leg_error + (rat \<times> stock)" where
  "issue_from env fail_closed reason [] remaining st = Inr (remaining, st)"
| "issue_from env fail_closed reason (q # qs) remaining st =
     (if remaining \<le> 0 then Inr (remaining, st)
      else case row_get qu_id q (quants st) of
        None \<Rightarrow> issue_from env fail_closed reason qs remaining st
      | Some r \<Rightarrow>
          let n = min remaining (quant_available (now_at (lg_clock env)) r st) in
          if n \<le> 0 then issue_from env fail_closed reason qs remaining st
          else case issue (lg_clock env) n q None reason Make_move [] st of
            Inl e \<Rightarrow> if fail_closed then Inl (Leg_stock e) else issue_from env fail_closed reason qs remaining st
          | Inr (st1, _) \<Rightarrow> issue_from env fail_closed reason qs (remaining - n) st1)"

record shortfall =
  sh_sku :: string
  sh_needed :: rat
  sh_short :: rat

definition of_batch :: "string option \<Rightarrow> quant list \<Rightarrow> quant list" where
  "of_batch chosen qs = (case chosen of None \<Rightarrow> qs | Some b \<Rightarrow> filter (\<lambda>q. qu_batch q = b) qs)"

fun consume_items ::
    "leg_env \<Rightarrow> bool \<Rightarrow> string \<Rightarrow> (string \<times> string) list \<Rightarrow> wo_item list \<Rightarrow> (string \<times> rat) list \<Rightarrow> stock
     \<Rightarrow> leg_error + (shortfall list \<times> stock)" where
  "consume_items env fail_closed reason chosen [] approved st = Inr ([], st)"
| "consume_items env fail_closed reason chosen (i # rest) approved st =
     (if wi_quantity i \<le> 0 then consume_items env fail_closed reason chosen rest approved st
      else ebind (issue_from env fail_closed reason
                    (map qu_id (of_batch (map_of chosen (wi_ref i)) (consumable_quants env (wi_ref i) st)))
                    (wi_quantity i) st) (\<lambda>(remaining, st1).
        if remaining \<le> 0 then consume_items env fail_closed reason chosen rest approved st1
        else let ok = (case map_of approved (wi_ref i) of None \<Rightarrow> 0 | Some q \<Rightarrow> q) in
             if fail_closed \<and> ok < remaining then Inl (Leg_stock (Stk_insufficient_quantity (wi_quantity i - remaining)))
             else map_sum id (\<lambda>(ss, st2).
                    (\<lparr>sh_sku = wi_ref i, sh_needed = wi_quantity i, sh_short = remaining\<rparr> # ss, st2))
                    (consume_items env fail_closed reason chosen rest (AList.update (wi_ref i) (max (ok - remaining) 0) approved) st1)))"

definition consumptions :: "nat \<Rightarrow> craft \<Rightarrow> wo_item list" where
  "consumptions pk cr = filter (\<lambda>i. wi_order i = pk \<and> wi_kind i = Consumption) (cr_items cr)"

definition consume_materials :: "leg_env \<Rightarrow> bool \<Rightarrow> work_order \<Rightarrow> shop_floor \<Rightarrow> leg_error + (shortfall list \<times> stock)" where
  "consume_materials env fail_closed o1 fl =
     ebind (selected_ingredient_batches o1) (\<lambda>chosen.
     consume_items env fail_closed (''Consumo de producao: '' @ wo_ref o1) chosen (consumptions (wo_id o1) (sf_craft fl))
       (approved_shortages (wo_id o1) (sf_craft fl)) (sf_stock fl))"

text \<open>The first leg, under the lock: consumed and stamped together, or not at all.\<close>

definition consume_leg :: "leg_env \<Rightarrow> bool \<Rightarrow> work_order \<Rightarrow> shop_floor \<Rightarrow> leg_error + (work_order \<times> shortfall list \<times> shop_floor)" where
  "consume_leg env fail_closed o0 fl =
     (let o1 = leg_lock o0 (sf_craft fl) in
      if leg_done o1 consumed_key then Inr (o1, [], fl)
      else map_sum id (\<lambda>(ss, st1).
             let (o2, cr1) = stamp_leg (lg_stamp env) o1 consumed_key (sf_craft fl) in
             (o2, ss, \<lparr>sf_craft = cr1, sf_stock = st1\<rparr>))
           (consume_materials env fail_closed o1 fl))"

section \<open>Output in\<close>

definition ledger_move :: "leg_env \<Rightarrow> quant \<Rightarrow> rat \<Rightarrow> string \<Rightarrow> move_kind \<Rightarrow> stock \<Rightarrow> leg_error + stock" where
  "ledger_move env q delta reason k st =
     in_stock (save_move \<lparr>mv_quant = qu_id q, mv_delta = delta, mv_kind = k, mv_reason = reason, mv_metadata = [],
                         mv_at = now_at (lg_clock env), mv_user = None\<rparr> st)"

definition cancel_unstarted :: "leg_env \<Rightarrow> work_order \<Rightarrow> string \<Rightarrow> int \<Rightarrow> craft \<Rightarrow> stock \<Rightarrow> leg_error + stock" where
  "cancel_unstarted env o1 sku date cr st =
     ebind (in_craft (started_or_planned o1 cr)) (\<lambda>n.
     let unstarted = max (wo_quantity o1 - n) 0 in
     if unstarted \<le> 0 then Inr st
     else case find_planned_quant o1 sku date st of
       None \<Rightarrow> Inl (Leg_stock Stk_quant_not_found)
     | Some q \<Rightarrow>
         if qu_quantity q < unstarted then Inl (Leg_stock (Stk_insufficient_available (qu_quantity q)))
         else ledger_move env q (- unstarted) (''Plano encerrado apos inicio parcial: '' @ wo_ref o1) Adjust_move st)"

definition first_stocked :: "string \<Rightarrow> int \<Rightarrow> string \<Rightarrow> stock \<Rightarrow> quant option" where
  "first_stocked sku date b st =
     find (\<lambda>q. qu_sku q = sku \<and> qu_target q = Some date \<and> qu_batch q = b \<and> 0 < qu_quantity q) (quants st)"

definition write_off_quant :: "work_order \<Rightarrow> string \<Rightarrow> int \<Rightarrow> craft \<Rightarrow> stock \<Rightarrow> quant option" where
  "write_off_quant o1 sku date cr st =
     (let pos = resolve_position (wo_position_ref o1) st;
          q = (if supply_entered_started_batch o1 cr
               then (case get_quant sku pos (Some date) started_batch st of Some q \<Rightarrow> Some q
                     | None \<Rightarrow> first_stocked sku date started_batch st)
               else None);
          q = (case q of Some q \<Rightarrow> Some q | None \<Rightarrow> get_quant sku pos (Some date) [] st) in
      case q of Some q \<Rightarrow> Some q | None \<Rightarrow> first_stocked sku date [] st)"

definition write_off_shortfall ::
    "leg_env \<Rightarrow> bool \<Rightarrow> work_order \<Rightarrow> string \<Rightarrow> int \<Rightarrow> rat \<Rightarrow> craft \<Rightarrow> stock \<Rightarrow> leg_error + stock" where
  "write_off_shortfall env fail_closed o1 sku date finished cr st =
     ebind (in_craft (started_or_planned o1 cr)) (\<lambda>n.
     let short = n - finished in
     if short \<le> 0 then Inr st
     else case write_off_quant o1 sku date cr st of
       None \<Rightarrow> if fail_closed then Inl (Leg_stock Stk_quant_not_found) else Inr st
     | Some q \<Rightarrow>
         let off = min short (qu_quantity q) in
         if fail_closed \<and> off \<noteq> short then Inl (Leg_stock (Stk_insufficient_available off))
         else if off \<le> 0 then Inr st
         else ledger_move env q (- off) (''Perda: '' @ wo_ref o1) Waste_move st)"

text \<open>The quant the output leaves, with its lot: the started lot when the supply is there.\<close>

definition output_source :: "work_order \<Rightarrow> string \<Rightarrow> int \<Rightarrow> craft \<Rightarrow> stock \<Rightarrow> (quant \<times> string) option" where
  "output_source o1 sku date cr st =
     (let pos = resolve_position (wo_position_ref o1) st;
          in_started = supply_entered_started_batch o1 cr;
          baking = (if in_started then get_quant sku pos (Some date) started_batch st else None) in
      case baking of Some q \<Rightarrow> Some (q, started_batch)
      | None \<Rightarrow>
      case get_quant sku pos (Some date) [] st of Some q \<Rightarrow> Some (q, [])
      | None \<Rightarrow>
      case (if in_started then get_quant sku None (Some date) started_batch st else None) of Some q \<Rightarrow> Some (q, started_batch)
      | None \<Rightarrow>
      case get_quant sku None (Some date) [] st of Some q \<Rightarrow> Some (q, []) | None \<Rightarrow> None)"

text \<open>The parts with a lot, when they add up to what finished; else the daily lot.\<close>

definition output_legs :: "work_order \<Rightarrow> string \<Rightarrow> rat \<Rightarrow> craft \<Rightarrow> (rat \<times> string \<times> string) list" where
  "output_legs o1 sku finished cr =
     (let ls = filter (\<lambda>i. wi_order i = wo_id o1 \<and> wi_kind i = Output \<and> wi_ref i = sku \<and> wi_batch i \<noteq> []) (cr_items cr) in
      if ls \<noteq> [] \<and> sum_list (map wi_quantity ls) = finished
      then map (\<lambda>i. (wi_quantity i, wi_batch i, wi_grade i)) ls
      else [(finished, [], [])])"

fun realize_legs :: "leg_env \<Rightarrow> string \<Rightarrow> int \<Rightarrow> realize_args \<Rightarrow> (rat \<times> string \<times> string) list \<Rightarrow> stock \<Rightarrow> leg_error + stock" where
  "realize_legs env sku date a [] st = Inr st"
| "realize_legs env sku date a ((n, b, grade) # legs) st =
     ebind (in_stock (realize_stock (lg_clock env) (lg_catalogue env) (lg_ttl env) (just_sku sku) date n
              (a\<lparr>re_to_batch := b, re_to_grade := grade\<rparr>) st)) (\<lambda>(st1, _).
     realize_legs env sku date a legs st1)"

text \<open>
  What the leg writes, and whether it is closed by it: a missing shelf or a missing planned quant
  leaves it open, to be tried again, but keeps the cancellation of what was never started.
\<close>

definition output_leg ::
    "leg_env \<Rightarrow> bool \<Rightarrow> work_order \<Rightarrow> string \<Rightarrow> int option \<Rightarrow> craft \<Rightarrow> stock \<Rightarrow> leg_error + (stock \<times> bool)" where
  "output_leg env fail_closed o1 sku date cr st =
     (case date of
        None \<Rightarrow> Inr (st, True)
      | Some d \<Rightarrow>
          let finished = (case wo_finished o1 of Some f \<Rightarrow> f | None \<Rightarrow> wo_quantity o1) in
          ebind (cancel_unstarted env o1 sku d cr st) (\<lambda>st1.
          if finished \<le> 0
          then map_sum id (\<lambda>st2. (st2, True)) (write_off_shortfall env fail_closed o1 sku d finished cr st1)
          else case find po_is_saleable (positions st1) of
            None \<Rightarrow> if fail_closed then Inl (Leg_stock Stk_quant_not_found) else Inr (st1, False)
          | Some shelf \<Rightarrow>
          case output_source o1 sku d cr st1 of
            None \<Rightarrow> if fail_closed then Inl (Leg_stock Stk_quant_not_found) else Inr (st1, False)
          | Some (q, b) \<Rightarrow>
              ebind (realize_legs env sku d
                 \<lparr>re_to_position = Some (po_ref shelf), re_from_position = resolve_position (wo_position_ref o1) st1,
                  re_from_batch = b, re_user = None, re_reason = ''Finalizacao do lote: '' @ wo_ref o1,
                  re_kind = Make_move, re_to_batch = [], re_to_grade = []\<rparr>
                 (output_legs o1 sku finished cr) st1) (\<lambda>st2.
              map_sum id (\<lambda>st3. (st3, True)) (write_off_shortfall env fail_closed o1 sku d finished cr st2))))"

text \<open>\<open>_realize_output_leg\<close> under the lock: written and stamped together, or not at all.\<close>

definition realize_leg ::
    "leg_env \<Rightarrow> bool \<Rightarrow> work_order \<Rightarrow> string \<Rightarrow> int option \<Rightarrow> shop_floor \<Rightarrow> leg_error + (work_order \<times> shop_floor)" where
  "realize_leg env fail_closed o0 sku date fl =
     (let o1 = leg_lock o0 (sf_craft fl) in
      if leg_done o1 realized_key then Inr (o1, fl)
      else map_sum id (\<lambda>(st1, shut).
             if shut then let (o2, cr1) = stamp_leg (lg_stamp env) o1 realized_key (sf_craft fl) in
                            (o2, \<lparr>sf_craft = cr1, sf_stock = st1\<rparr>)
             else (o1, fl\<lparr>sf_stock := st1\<rparr>))
           (output_leg env fail_closed o1 sku date (sf_craft fl) (sf_stock fl)))"

section \<open>The receiver\<close>

text \<open>Two transactions: when the second leg raises, the first one stays.\<close>

definition handle_finished ::
    "leg_env \<Rightarrow> bool \<Rightarrow> work_order \<Rightarrow> string \<Rightarrow> int option \<Rightarrow> shop_floor \<Rightarrow> shop_floor \<times> shortfall list \<times> leg_error option" where
  "handle_finished env fail_closed o1 sku date fl =
     (case consume_leg env fail_closed o1 fl of
        Inl e \<Rightarrow> (fl, [], Some e)
      | Inr (o2, ss, fl1) \<Rightarrow>
          (case realize_leg env fail_closed o2 sku date fl1 of
             Inl e \<Rightarrow> (fl1, ss, Some e)
           | Inr (_, fl2) \<Rightarrow> (fl2, ss, None)))"

definition realize_finished_production :: "leg_env \<Rightarrow> work_order \<Rightarrow> shop_floor \<Rightarrow> shop_floor \<times> shortfall list \<times> leg_error option" where
  "realize_finished_production env o1 fl = handle_finished env True o1 (wo_output_sku o1) (wo_target o1) fl"

definition handle_production_changed ::
    "leg_env \<Rightarrow> bool \<Rightarrow> string \<Rightarrow> work_order \<Rightarrow> rat option \<Rightarrow> shop_floor \<Rightarrow> shop_floor \<times> leg_error option" where
  "handle_production_changed env fail_closed action o1 previous fl =
     (let sku = wo_output_sku o1; date = wo_target o1; cr = sf_craft fl; st = sf_stock fl;
          told = (\<lambda>(st1, e). (fl\<lparr>sf_stock := st1\<rparr>, if fail_closed then e else None)) in
      if action = ''planned'' then told (handle_planned env o1 sku date st)
      else if action = ''adjusted'' then told (handle_adjusted env o1 sku date previous st)
      else if action = ''started'' then told (handle_started env o1 sku date cr st)
      else if action = ''voided'' then told (handle_voided env o1 sku date cr st)
      else if action = ''finished'' then
        (let (fl1, _, e) = handle_finished env fail_closed o1 sku date fl in (fl1, e))
      else (fl, None))"

end
