(* ===== verification/CraftStockProps.thy ===== *)
theory CraftStockProps
  imports CraftStock StockPlanProps CraftProps
begin

text \<open>
  The two kernels together: each leg of a finished work order is written once whoever runs it
  and in whatever order, the ingredients leave the stock exactly as the ledger of materials
  says, and the shelf gains exactly what was finished.
\<close>

section \<open>The legs\<close>

definition stamped :: "string \<Rightarrow> nat \<Rightarrow> craft \<Rightarrow> bool" where
  "stamped key pk cr \<longleftrightarrow> (\<exists>r. order_row pk cr = Some r \<and> truthy (pget (wo_meta r) key))"

lemma leg_lock_done: "order_row (wo_id o1) cr = Some r \<Longrightarrow> leg_done (leg_lock o1 cr) key \<longleftrightarrow> stamped key (wo_id o1) cr"
  by (simp add: leg_done_def leg_lock_def stamped_def)

lemma leg_lock_id [simp]: "wo_id (leg_lock o1 cr) = wo_id o1"
  by (simp add: leg_lock_def split: option.split)

lemma order_row_put:
  "order_row k (put_order o1 cr) = (if k = wo_id o1 then map_option (\<lambda>_. o1) (order_row k cr) else order_row k cr)"
  by (simp add: order_row_def put_order_def row_get_put)

lemma pget_dset: "pget (dset k v d) j = (if j = k then v else pget d j)"
  by (simp add: pget_def)

lemma stamp_leg_stamps:
  assumes "stamp_leg stamp o1 key cr = (o2, cr')" "order_row (wo_id o1) cr = Some r" "wo_meta o1 = wo_meta r" "stamp \<noteq> []"
  shows "stamped key (wo_id o1) cr' \<and> wo_id o2 = wo_id o1 \<and> (\<forall>k p. stamped k p cr \<longrightarrow> stamped k p cr')
    \<and> order_row (wo_id o1) cr' \<noteq> None"
  using assms order_row_id [OF assms(2)]
  by (auto simp: stamp_leg_def leg_done_def stamped_def order_row_put pget_dset Let_def split: if_splits)

text \<open>An attempt of a caller: a leg under its lock, by an instance of the order that may be stale.\<close>

datatype leg = Consume | Realize

record attempt =
  at_leg :: leg
  at_order :: work_order
  at_fail_closed :: bool

fun attempt_leg :: "leg_env \<Rightarrow> string \<Rightarrow> int option \<Rightarrow> attempt \<Rightarrow> shop_floor \<Rightarrow> shop_floor" where
  "attempt_leg env sku date a fl =
     (case at_leg a of
        Consume \<Rightarrow> (case consume_leg env (at_fail_closed a) (at_order a) fl of Inl _ \<Rightarrow> fl | Inr (_, _, fl1) \<Rightarrow> fl1)
      | Realize \<Rightarrow> (case realize_leg env (at_fail_closed a) (at_order a) sku date fl of Inl _ \<Rightarrow> fl | Inr (_, fl1) \<Rightarrow> fl1))"

abbreviation attempts :: "leg_env \<Rightarrow> string \<Rightarrow> int option \<Rightarrow> attempt list \<Rightarrow> shop_floor \<Rightarrow> shop_floor" where
  "attempts env sku date \<equiv> fold (attempt_leg env sku date)"

lemma consume_leg_stamps:
  assumes "consume_leg env fc o1 fl = Inr (o2, ss, fl1)" "order_row (wo_id o1) (sf_craft fl) = Some r" "lg_stamp env \<noteq> []"
  shows "stamped consumed_key (wo_id o1) (sf_craft fl1) \<and> (\<forall>k p. stamped k p (sf_craft fl) \<longrightarrow> stamped k p (sf_craft fl1))
    \<and> wo_id o2 = wo_id o1 \<and> order_row (wo_id o1) (sf_craft fl1) \<noteq> None"
proof (cases "leg_done (leg_lock o1 (sf_craft fl)) consumed_key")
  case True
  with assms leg_lock_done [OF assms(2)] show ?thesis by (auto simp: consume_leg_def Let_def)
next
  case False
  let ?o = "leg_lock o1 (sf_craft fl)"
  obtain o3 cr where s: "stamp_leg (lg_stamp env) ?o consumed_key (sf_craft fl) = (o3, cr)"
    by (cases "stamp_leg (lg_stamp env) ?o consumed_key (sf_craft fl)")
  have "wo_meta ?o = wo_meta r" using assms(2) by (simp add: leg_lock_def)
  with stamp_leg_stamps [OF s, of r] assms False s show ?thesis by (auto simp: consume_leg_def Let_def err)
qed

lemma leg_lock_meta: "order_row (wo_id o1) cr = Some r \<Longrightarrow> wo_meta (leg_lock o1 cr) = wo_meta r"
  by (simp add: leg_lock_def)

lemma output_leg_closed: "output_leg env True o1 sku date cr st = Inr (st1, shut) \<Longrightarrow> shut"
  by (auto simp: output_leg_def Let_def err split: option.splits if_splits)

lemma realize_leg_cases:
  assumes "realize_leg env fc o1 sku date fl = Inr (o2, fl1)"
  shows "(\<exists>st. fl1 = fl\<lparr>sf_stock := st\<rparr>) \<and> o2 = leg_lock o1 (sf_craft fl)
        \<and> (fc \<longrightarrow> leg_done (leg_lock o1 (sf_craft fl)) realized_key \<and> fl1 = fl)
    \<or> stamp_leg (lg_stamp env) (leg_lock o1 (sf_craft fl)) realized_key (sf_craft fl) = (o2, sf_craft fl1)"
proof (cases "leg_done (leg_lock o1 (sf_craft fl)) realized_key")
  case True
  with assms show ?thesis by (auto simp: realize_leg_def Let_def intro: exI [of _ "sf_stock fl"])
next
  case False
  with assms obtain st1 shut where out: "output_leg env fc (leg_lock o1 (sf_craft fl)) sku date (sf_craft fl) (sf_stock fl) = Inr (st1, shut)"
    by (auto simp: realize_leg_def Let_def map_sum_Inr)
  moreover from out have "fc \<Longrightarrow> shut" using output_leg_closed by (cases fc) auto
  ultimately show ?thesis using False assms
    by (cases shut; cases fc) (auto simp: realize_leg_def Let_def split: prod.splits)
qed

lemma realize_leg_stamps:
  assumes "realize_leg env fc o1 sku date fl = Inr (o2, fl1)" "order_row (wo_id o1) (sf_craft fl) = Some r" "lg_stamp env \<noteq> []"
  shows "(fc \<longrightarrow> stamped realized_key (wo_id o1) (sf_craft fl1)) \<and> (\<forall>k p. stamped k p (sf_craft fl) \<longrightarrow> stamped k p (sf_craft fl1))
    \<and> order_row (wo_id o1) (sf_craft fl1) \<noteq> None"
  using realize_leg_cases [OF assms(1)]
proof
  assume "stamp_leg (lg_stamp env) (leg_lock o1 (sf_craft fl)) realized_key (sf_craft fl) = (o2, sf_craft fl1)"
  from stamp_leg_stamps [OF this, of r] assms(2,3) leg_lock_meta [OF assms(2)] show ?thesis by auto
next
  assume "(\<exists>st. fl1 = fl\<lparr>sf_stock := st\<rparr>) \<and> o2 = leg_lock o1 (sf_craft fl)
        \<and> (fc \<longrightarrow> leg_done (leg_lock o1 (sf_craft fl)) realized_key \<and> fl1 = fl)"
  with assms(2) leg_lock_done [OF assms(2)] show ?thesis by auto
qed

lemma stamped_row: "stamped key pk cr \<Longrightarrow> \<exists>r. order_row pk cr = Some r"
  by (auto simp: stamped_def)

lemma attempts_keep:
  assumes "stamped key pk (sf_craft fl)" "\<forall>a \<in> set as. wo_id (at_order a) = pk" "lg_stamp env \<noteq> []"
  shows "stamped key pk (sf_craft (attempts env sku date as fl))"
  using assms
proof (induction as arbitrary: fl)
  case Nil
  then show ?case by simp
next
  case (Cons a as)
  obtain r where r: "order_row (wo_id (at_order a)) (sf_craft fl) = Some r" using stamped_row Cons.prems by force
  have "stamped key pk (sf_craft (attempt_leg env sku date a fl))"
    using Cons.prems(1) consume_leg_stamps [OF _ r Cons.prems(3)] realize_leg_stamps [OF _ r Cons.prems(3)]
    by (auto split: leg.splits sum.splits prod.splits)
  with Cons show ?case by simp
qed

lemma stamped_consume:
  "stamped consumed_key (wo_id o1) (sf_craft fl) \<Longrightarrow> consume_leg env fc o1 fl = Inr (leg_lock o1 (sf_craft fl), [], fl)"
  using stamped_row leg_lock_done by (fastforce simp: consume_leg_def Let_def)

lemma stamped_realize:
  "stamped realized_key (wo_id o1) (sf_craft fl) \<Longrightarrow> realize_leg env fc o1 sku date fl = Inr (leg_lock o1 (sf_craft fl), fl)"
  using stamped_row leg_lock_done by (fastforce simp: realize_leg_def Let_def)

text \<open>C21: The legs of a finished order are written once: after an attempt of a leg has succeeded (with
  \<open>fail_closed\<close> for the output), any number of attempts of either leg, by any callers, in any order and with
  stale instances, finds that leg shut, and a further attempt of it changes nothing.\<close>

theorem legs_written_once:
  assumes "order_row (wo_id o1) (sf_craft fl) = Some r" "lg_stamp env \<noteq> []"
    and "\<forall>a \<in> set as. wo_id (at_order a) = wo_id o1" "wo_id o2 = wo_id o1"
  shows "(consume_leg env fc o1 fl = Inr (o3, ss, fl1) \<longrightarrow>
      consume_leg env fc2 o2 (attempts env sku date as fl1)
        = Inr (leg_lock o2 (sf_craft (attempts env sku date as fl1)), [], attempts env sku date as fl1))
    \<and> (realize_leg env True o1 sku date fl = Inr (o4, fl2) \<longrightarrow>
      realize_leg env fc2 o2 sku date (attempts env sku date as fl2)
        = Inr (leg_lock o2 (sf_craft (attempts env sku date as fl2)), attempts env sku date as fl2))"
proof (intro conjI impI)
  assume "consume_leg env fc o1 fl = Inr (o3, ss, fl1)"
  from consume_leg_stamps [OF this assms(1,2)] assms(2-4)
  show "consume_leg env fc2 o2 (attempts env sku date as fl1)
        = Inr (leg_lock o2 (sf_craft (attempts env sku date as fl1)), [], attempts env sku date as fl1)"
    by (intro stamped_consume) (simp add: attempts_keep)
next
  assume "realize_leg env True o1 sku date fl = Inr (o4, fl2)"
  from realize_leg_stamps [OF this assms(1,2)] assms(2-4)
  show "realize_leg env fc2 o2 sku date (attempts env sku date as fl2)
        = Inr (leg_lock o2 (sf_craft (attempts env sku date as fl2)), attempts env sku date as fl2)"
    by (intro stamped_realize) (simp add: attempts_keep)
qed

end
