(* ===== verification/CraftStockLedger.thy ===== *)
theory CraftStockLedger
  imports CraftStockProps
begin

text \<open>
  What the two legs of a finished order do to the stock: the first takes from every ingredient
  what the ledger of materials says, less what an operator allowed to be missing, and nothing
  from the shelf; the second writes the finished quantity on the shelf.
\<close>

lemma map_sum_id [err]: "map_sum f id r = Inr y \<longleftrightarrow> r = Inr y"
  by (cases r) auto

section \<open>Ingredients out\<close>

definition shelf_rows :: "stock \<Rightarrow> quant list" where
  "shelf_rows st = filter (quant_saleable st) (quants st)"

text \<open>Stock that left by moves off the shelf only, so much of each SKU.\<close>

definition taken :: "int \<Rightarrow> bool \<Rightarrow> (string \<Rightarrow> rat) \<Rightarrow> stock \<Rightarrow> stock \<Rightarrow> bool" where
  "taken now shelf d st st' \<longleftrightarrow> stock_inv st' \<and> positions st' = positions st
     \<and> map coordinate (quants st') = map coordinate (quants st) \<and> (shelf \<or> shelf_rows st' = shelf_rows st)
     \<and> (covered now st \<longrightarrow> covered now st') \<and> (\<forall>x. sku_total st' x = sku_total st x - d x)"

lemma taken_refl: "stock_inv st \<Longrightarrow> taken now shelf (\<lambda>_. 0) st st"
  by (simp add: taken_def)

lemma taken_trans: "taken now shelf d a b \<Longrightarrow> taken now shelf e b c \<Longrightarrow> taken now shelf (\<lambda>x. d x + e x) a c"
  by (auto simp: taken_def)

lemma taken_inv: "taken now shelf d a b \<Longrightarrow> stock_inv b"
  by (simp add: taken_def)

lemma quant_saleable_cong:
  "positions st' = positions st \<Longrightarrow> qu_position q' = qu_position q \<Longrightarrow> quant_saleable st' q' = quant_saleable st q"
  by (simp add: quant_saleable_def split: option.split)

lemma filter_bump:
  assumes "\<And>q. q \<in> set qs \<Longrightarrow> P q \<Longrightarrow> qu_id q \<noteq> mv_quant m" "\<And>q. P' (bump m q) = P q"
  shows "filter P' (map (bump m) qs) = filter P qs"
  using assms by (induction qs) auto

lemma total_moved:
  assumes "stock_inv st" "q \<in> set (quants st)" "qu_id q = mv_quant m"
  shows "sku_total (moved m st) x = sku_total st x + (if qu_sku q = x then mv_delta m else 0)"
proof -
  have ids: "map qu_id (quants st) = [0..<length (quants st)]" using assms(1) by (simp add: stock_inv_def quants_inv_def)
  have k: "mv_quant m < length (quants st)" using assms ids_member [OF ids] by metis
  then have "quants st ! mv_quant m = q"
    using ids_key_eq [OF ids, of "quants st ! mv_quant m" q] assms(2,3) ids
    by (metis add.left_neutral nth_map nth_mem nth_upt)
  moreover have "sku_total (moved m st) x
      = sum_where (\<lambda>q. qu_sku q = x) (\<lambda>q. qu_quantity q + (if qu_id q = mv_quant m then mv_delta m else 0)) (quants st)"
    unfolding sku_total_def moved_simps by (induction "quants st") (auto simp: bump_def sum_where_def comp_def filter_map intro!: arg_cong [of _ _ sum_list])
  ultimately show ?thesis using sum_where_row [OF ids k, of "\<lambda>q. qu_sku q = x" "mv_delta m"]
    unfolding sku_total_def by (simp only: sum_where_plus)
qed

lemma issue_taken:
  assumes "stock_inv st" "issue c n k user reason kind md st = Inr (st', m)" "row_get qu_id k (quants st) = Some q"
    and "shelf \<or> \<not> quant_saleable st q"
  shows "taken (now_at c) shelf (\<lambda>x. if qu_sku q = x then n else 0) st st'"
proof -
  note spec = issue_spec [OF assms(1,2)]
  have q: "q \<in> set (quants st)" "qu_id q = mv_quant m" using row_get_SomeD [OF assms(3)] spec by auto
  have "shelf_rows (moved m st) = shelf_rows st" if free: "\<not> quant_saleable st q"
    unfolding shelf_rows_def moved_simps
  proof (rule filter_bump)
    show "qu_id r \<noteq> mv_quant m" if "r \<in> set (quants st)" "quant_saleable st r" for r
      using inv_same_row [OF assms(1) q(1) that(1)] that(2) free q(2) by auto
    show "quant_saleable (moved m st) (bump m r) = quant_saleable st r" for r
      by (rule quant_saleable_cong) simp_all
  qed
  moreover have "sku_total st' x = sku_total st x - (if qu_sku q = x then n else 0)" for x
    using total_moved [OF assms(1) q, of x] spec by simp
  ultimately show ?thesis using spec assms(4) unfolding taken_def good_step_def
    by (simp add: comp_def) blast
qed

text \<open>The quants a recipe may take one ingredient from.\<close>

definition sources_of :: "bool \<Rightarrow> string \<Rightarrow> nat list \<Rightarrow> stock \<Rightarrow> bool" where
  "sources_of shelf sku qs st \<longleftrightarrow>
     (\<forall>k \<in> set qs. \<forall>q. row_get qu_id k (quants st) = Some q \<longrightarrow> qu_sku q = sku \<and> (shelf \<or> \<not> quant_saleable st q))"

lemma same_row:
  assumes "map coordinate (quants st') = map coordinate (quants st)" "stock_inv st" "stock_inv st'"
    and "row_get qu_id k (quants st') = Some q'"
  shows "\<exists>q. row_get qu_id k (quants st) = Some q \<and> coordinate q = coordinate q'"
proof -
  have ids: "map qu_id (quants s) = [0..<length (quants s)]" if "stock_inv s" for s
    using that by (simp add: stock_inv_def quants_inv_def)
  have q': "q' \<in> set (quants st')" "qu_id q' = k" using row_get_SomeD [OF assms(4)] by auto
  have len: "length (quants st') = length (quants st)" using assms(1) by (metis length_map)
  then have k: "k < length (quants st')" "k < length (quants st)"
    using q' ids_member [OF ids [OF assms(3)]] by auto
  have nth: "qu_id (quants s ! k) = k" if "stock_inv s" "k < length (quants s)" for s
    using ids [OF that(1)] that(2) by (metis add.left_neutral nth_map nth_upt)
  have "quants st' ! k = q'"
    using inv_same_row [OF assms(3) _ q'(1)] nth [OF assms(3) k(1)] q'(2) k(1) by simp
  moreover have "coordinate (quants st' ! k) = coordinate (quants st ! k)"
    using arg_cong [OF assms(1), of "\<lambda>xs. xs ! k"] k by simp
  moreover have "row_get qu_id k (quants st) = Some (quants st ! k)"
    using inv_get_quant [OF assms(2)] nth [OF assms(2) k(2)] k(2) by simp
  ultimately show ?thesis by metis
qed

lemma coordinate_same:
  assumes "coordinate q = coordinate q'"
  shows "qu_sku q' = qu_sku q \<and> qu_position q' = qu_position q"
  using assms by (simp add: coordinate_def)

lemma sources_taken:
  assumes "sources_of shelf sku qs st" "taken now shelf d st st'" "stock_inv st"
  shows "sources_of shelf sku qs st'"
  unfolding sources_of_def
proof (intro ballI allI impI)
  fix k q'
  assume k: "k \<in> set qs" "row_get qu_id k (quants st') = Some q'"
  from assms(2) have t: "map coordinate (quants st') = map coordinate (quants st)" "positions st' = positions st" "stock_inv st'"
    by (simp_all add: taken_def)
  from same_row [OF t(1) assms(3) t(3) k(2)] obtain q where q: "row_get qu_id k (quants st) = Some q" "coordinate q = coordinate q'"
    by blast
  from assms(1) k(1) q(1) have "qu_sku q = sku \<and> (shelf \<or> \<not> quant_saleable st q)" by (simp add: sources_of_def)
  with coordinate_same [OF q(2)] quant_saleable_cong [OF t(2)] show "qu_sku q' = sku \<and> (shelf \<or> \<not> quant_saleable st' q')"
    by simp
qed

lemma sources_tail: "sources_of shelf sku (q # qs) st \<Longrightarrow> sources_of shelf sku qs st"
  by (simp add: sources_of_def)

lemma issue_from_taken:
  assumes "stock_inv st" "0 \<le> n" "sources_of shelf sku qs st" "issue_from env fc reason qs n st = Inr (over, st')"
  shows "0 \<le> over \<and> over \<le> n \<and> taken (now_at (lg_clock env)) shelf (\<lambda>x. if sku = x then n - over else 0) st st'"
  using assms
proof (induction qs arbitrary: n st)
  case Nil
  then show ?case using taken_refl [of st] by (simp add: if_distrib cong: if_cong)
next
  case (Cons k qs)
  note tl = sources_tail [OF Cons.prems(3)]
  consider "n \<le> 0" | "0 < n" "issue_from env fc reason qs n st = Inr (over, st')"
    | q s st1 m where "0 < n" "row_get qu_id k (quants st) = Some q" "s = min n (quant_available (now_at (lg_clock env)) q st)" "0 < s"
        "issue (lg_clock env) s k None reason Make_move [] st = Inr (st1, m)" "issue_from env fc reason qs (n - s) st1 = Inr (over, st')"
    using Cons.prems(4) by (auto simp: Let_def not_le split: option.splits if_splits sum.splits prod.splits)
  then show ?case
  proof cases
    case 1
    with Cons.prems have "over = n" "st' = st" by simp_all
    then show ?thesis using Cons.prems taken_refl [of st] by (simp add: if_distrib cong: if_cong)
  next
    case 2
    then show ?thesis using Cons.IH [OF Cons.prems(1,2) tl] by blast
  next
    case 3
    from Cons.prems(3) 3(2) have q: "qu_sku q = sku" "shelf \<or> \<not> quant_saleable st q" by (simp_all add: sources_of_def)
    note t = issue_taken [OF Cons.prems(1) 3(5) 3(2) q(2)]
    have "0 \<le> n - s" using 3(3) by simp
    from Cons.IH [OF taken_inv [OF t] this sources_taken [OF tl t Cons.prems(1)] 3(6)] 3(4)
    have r: "0 \<le> over" "over \<le> n - s" "taken (now_at (lg_clock env)) shelf (\<lambda>x. if sku = x then n - s - over else 0) st1 st'"
      by auto
    have "(\<lambda>x. (if qu_sku q = x then s else 0) + (if sku = x then n - s - over else 0)) = (\<lambda>x. if sku = x then n - over else 0)"
      using q(1) by (auto simp: fun_eq_iff)
    with taken_trans [OF t r(3)] r(1,2) 3(4) show ?thesis by simp
  qed
qed

lemma consumable_sources:
  assumes "stock_inv st"
  shows "sources_of (lg_from_saleable env) sku (map qu_id (of_batch b (consumable_quants env sku st))) st"
proof -
  have "qu_sku q = sku \<and> (lg_from_saleable env \<or> \<not> quant_saleable st q) \<and> q \<in> set (quants st)"
    if "q \<in> set (of_batch b (consumable_quants env sku st))" for q
    using that by (auto simp: of_batch_def consumable_quants_def list_quants_def Let_def split: option.splits)
  then show ?thesis unfolding sources_of_def inv_get_quant [OF assms]
    using inv_same_row [OF assms] by fastforce
qed

text \<open>What the ledger of materials asks of a SKU, what the run lacked and what was allowed to lack.\<close>

definition asked :: "wo_item list \<Rightarrow> string \<Rightarrow> rat" where
  "asked is x = sum_where (\<lambda>i. wi_ref i = x \<and> 0 < wi_quantity i) wi_quantity is"

definition lacked :: "shortfall list \<Rightarrow> string \<Rightarrow> rat" where
  "lacked ss x = sum_where (\<lambda>s. sh_sku s = x) sh_short ss"

definition allowed :: "(string \<times> rat) list \<Rightarrow> string \<Rightarrow> rat" where
  "allowed approved x = max (case map_of approved x of None \<Rightarrow> 0 | Some q \<Rightarrow> q) 0"

lemma lacked_nonneg: "\<forall>s \<in> set ss. 0 < sh_short s \<Longrightarrow> 0 \<le> lacked ss x"
  unfolding lacked_def by (intro sum_where_nonneg) auto

lemma allowed_update: "allowed (AList.update k v approved) x = (if x = k then max v 0 else allowed approved x)"
  by (simp add: allowed_def update_conv)

lemma consume_items_taken:
  assumes "stock_inv st" "consume_items env fc reason chosen is approved st = Inr (ss, st')"
  shows "taken (now_at (lg_clock env)) (lg_from_saleable env) (\<lambda>x. asked is x - lacked ss x) st st'
    \<and> (\<forall>s \<in> set ss. 0 < sh_short s) \<and> (fc \<longrightarrow> (\<forall>x. lacked ss x \<le> allowed approved x))"
  using assms
proof (induction "is" arbitrary: approved st ss)
  case Nil
  then show ?case using taken_refl [of st] by (simp add: asked_def lacked_def allowed_def)
next
  case (Cons i rest)
  let ?qs = "map qu_id (of_batch (map_of chosen (wi_ref i)) (consumable_quants env (wi_ref i) st))"
  show ?case
  proof (cases "0 < wi_quantity i")
    case False
    then have "asked (i # rest) = asked rest" by (simp add: asked_def fun_eq_iff)
    moreover have "consume_items env fc reason chosen rest approved st = Inr (ss, st')" using Cons.prems(2) False by simp
    ultimately show ?thesis using Cons.IH [OF Cons.prems(1), of approved ss] by simp
  next
    case True
    then obtain r st1 where first: "issue_from env fc reason ?qs (wi_quantity i) st = Inr (r, st1)"
      using Cons.prems(2) by (auto simp: ebind_Inr)
    note t = issue_from_taken [OF Cons.prems(1) less_imp_le [OF True] consumable_sources [OF Cons.prems(1)] first]
    then have inv1: "stock_inv st1" using taken_inv by blast
    have asked: "asked (i # rest) x = (if wi_ref i = x then wi_quantity i else 0) + asked rest x" for x
      using True by (simp add: asked_def)
    show ?thesis
    proof (cases "r \<le> 0")
      case enough: True
      then have "consume_items env fc reason chosen rest approved st1 = Inr (ss, st')" and r: "r = 0"
        using Cons.prems(2) True first t by auto
      note ih = Cons.IH [OF inv1 this(1)]
      from taken_trans [OF t [THEN conjunct2, THEN conjunct2] ih [THEN conjunct1]] ih show ?thesis
        unfolding asked r by (simp add: add_diff_eq cong: if_cong)
    next
      case False
      define ok where "ok = (case map_of approved (wi_ref i) of None \<Rightarrow> 0 | Some q \<Rightarrow> q)"
      obtain ss' where run: "consume_items env fc reason chosen rest (AList.update (wi_ref i) (max (ok - r) 0) approved) st1 = Inr (ss', st')"
        and ss: "ss = \<lparr>sh_sku = wi_ref i, sh_needed = wi_quantity i, sh_short = r\<rparr> # ss'"
        and okr: "fc \<Longrightarrow> r \<le> ok"
        using Cons.prems(2) True first False unfolding ok_def
        by (auto simp: Let_def not_less map_sum_Inr split: if_splits prod.splits)
      note ih = Cons.IH [OF inv1 run]
      have lack: "lacked ss x = (if wi_ref i = x then r else 0) + lacked ss' x" for x
        by (simp add: ss lacked_def)
      have "(\<lambda>x. (if wi_ref i = x then wi_quantity i - r else 0) + (asked rest x - lacked ss' x)) = (\<lambda>x. asked (i # rest) x - lacked ss x)"
        by (auto simp: fun_eq_iff asked lack)
      with taken_trans [OF t [THEN conjunct2, THEN conjunct2] ih [THEN conjunct1]]
      have "taken (now_at (lg_clock env)) (lg_from_saleable env) (\<lambda>x. asked (i # rest) x - lacked ss x) st st'" by simp
      moreover have "lacked ss x \<le> allowed approved x" if fc for x
      proof (cases "x = wi_ref i")
        case True
        from ih that have "lacked ss' x \<le> allowed (AList.update (wi_ref i) (max (ok - r) 0) approved) x" by blast
        with okr [OF that] True have "r + lacked ss' x \<le> ok" by (simp add: allowed_update)
        then show ?thesis using True by (simp add: lack allowed_def ok_def)
      next
        case False
        from ih that have "lacked ss' x \<le> allowed (AList.update (wi_ref i) (max (ok - r) 0) approved) x" by blast
        with False show ?thesis by (simp add: lack allowed_update)
      qed
      ultimately show ?thesis using ih False by (simp add: ss)
    qed
  qed
qed

text \<open>C17: The first leg takes from the stock exactly what the order's ledger of materials says of every
  ingredient, less the shortages it reports; a shortage is positive, and under \<open>fail_closed\<close> never more than what
  an operator accepted for that ingredient. Unless the shop consumes from the shelf, no quant of the shelf is
  touched, and no quant is left with less than what is held on it.\<close>

theorem consumption_exact:
  assumes "stock_inv (sf_stock fl)" "consume_leg env fc o1 fl = Inr (o2, ss, fl')"
    and "\<not> leg_done (leg_lock o1 (sf_craft fl)) consumed_key"
  shows "sku_total (sf_stock fl') x
      = sku_total (sf_stock fl) x - asked (consumptions (wo_id o1) (sf_craft fl)) x + lacked ss x
    \<and> 0 \<le> lacked ss x \<and> (fc \<longrightarrow> lacked ss x \<le> allowed (approved_shortages (wo_id o1) (sf_craft fl)) x)
    \<and> (\<not> lg_from_saleable env \<longrightarrow> shelf_rows (sf_stock fl') = shelf_rows (sf_stock fl))
    \<and> stock_inv (sf_stock fl')
    \<and> (covered (now_at (lg_clock env)) (sf_stock fl) \<longrightarrow> covered (now_at (lg_clock env)) (sf_stock fl'))"
proof -
  have "consume_materials env fc (leg_lock o1 (sf_craft fl)) fl = Inr (ss, sf_stock fl')"
    using assms(2,3)
    by (cases "stamp_leg (lg_stamp env) (leg_lock o1 (sf_craft fl)) consumed_key (sf_craft fl)")
      (auto simp: consume_leg_def Let_def map_sum_Inr)
  then obtain chosen reason where "consume_items env fc reason chosen (consumptions (wo_id o1) (sf_craft fl))
       (approved_shortages (wo_id o1) (sf_craft fl)) (sf_stock fl) = Inr (ss, sf_stock fl')"
    by (auto simp: consume_materials_def ebind_Inr)
  from consume_items_taken [OF assms(1) this] lacked_nonneg show ?thesis by (auto simp: taken_def)
qed

section \<open>Output in\<close>

text \<open>What a list of moves books on the quants with a coordinate in a set, read in a later state.\<close>

definition booked :: "(quant \<Rightarrow> bool) \<Rightarrow> stock \<Rightarrow> move list \<Rightarrow> rat" where
  "booked P st ms = sum_where (\<lambda>m. P (quants st ! mv_quant m)) mv_delta ms"

definition on_display :: "string \<Rightarrow> string \<Rightarrow> quant \<Rightarrow> bool" where
  "on_display sku shelf q \<longleftrightarrow> qu_sku q = sku \<and> qu_position q = Some shelf \<and> qu_target q = None"

definition in_plan :: "string \<Rightarrow> int \<Rightarrow> quant \<Rightarrow> bool" where
  "in_plan sku date q \<longleftrightarrow> qu_sku q = sku \<and> qu_target q = Some date"

text \<open>A step of the output leg: so much on the shelf, between so much and so much off the plan, nothing else.\<close>

definition outcome_step :: "string \<Rightarrow> int \<Rightarrow> string \<Rightarrow> rat \<Rightarrow> rat \<Rightarrow> rat \<Rightarrow> stock \<Rightarrow> stock \<Rightarrow> bool" where
  "outcome_step sku date shelf n d e st st' \<longleftrightarrow> stock_inv st' \<and> extends st st' \<and>
     (\<exists>ms. moves st' = moves st @ ms \<and> booked (on_display sku shelf) st' ms = n
       \<and> - d \<le> booked (in_plan sku date) st' ms \<and> booked (in_plan sku date) st' ms \<le> - e
       \<and> (\<forall>m \<in> set ms. mv_quant m < length (quants st')
          \<and> (on_display sku shelf (quants st' ! mv_quant m) \<or> in_plan sku date (quants st' ! mv_quant m))))"

lemma outcome_refl: "stock_inv st \<Longrightarrow> outcome_step sku date shelf 0 0 0 st st"
  by (auto simp: outcome_step_def booked_def intro!: exI [of _ "[]"])

lemma extends_coordinate:
  assumes "extends st st'" "k < length (quants st)"
  shows "coordinate (quants st' ! k) = coordinate (quants st ! k)"
proof -
  have "map coordinate (quants st') ! k = map coordinate (quants st) ! k"
    using assms by (auto simp: extends_def nth_append)
  then show ?thesis using assms extends_length [OF assms(1)] by simp
qed

lemma extends_place:
  assumes "extends st st'" "k < length (quants st)"
  shows "on_display sku shelf (quants st' ! k) = on_display sku shelf (quants st ! k)"
    "in_plan sku date (quants st' ! k) = in_plan sku date (quants st ! k)"
  using extends_coordinate [OF assms] by (auto simp: on_display_def in_plan_def coordinate_def)

lemma booked_extends:
  assumes "extends st st'" "\<forall>m \<in> set ms. mv_quant m < length (quants st)"
  shows "booked (on_display sku shelf) st' ms = booked (on_display sku shelf) st ms"
    "booked (in_plan sku date) st' ms = booked (in_plan sku date) st ms"
  unfolding booked_def using assms extends_place [OF assms(1)] by (auto intro!: sum_where_cong)

lemma outcome_trans:
  assumes "outcome_step sku date shelf n d e a b" "outcome_step sku date shelf n' d' e' b c"
  shows "outcome_step sku date shelf (n + n') (d + d') (e + e') a c"
proof -
  from assms(1) obtain ms where 1: "extends a b" "moves b = moves a @ ms" "booked (on_display sku shelf) b ms = n"
    "- d \<le> booked (in_plan sku date) b ms" "booked (in_plan sku date) b ms \<le> - e"
    "\<forall>m \<in> set ms. mv_quant m < length (quants b)
       \<and> (on_display sku shelf (quants b ! mv_quant m) \<or> in_plan sku date (quants b ! mv_quant m))"
    by (auto simp: outcome_step_def)
  from assms(2) obtain ns where 2: "stock_inv c" "extends b c" "moves c = moves b @ ns" "booked (on_display sku shelf) c ns = n'"
    "- d' \<le> booked (in_plan sku date) c ns" "booked (in_plan sku date) c ns \<le> - e'"
    "\<forall>m \<in> set ns. mv_quant m < length (quants c)
       \<and> (on_display sku shelf (quants c ! mv_quant m) \<or> in_plan sku date (quants c ! mv_quant m))"
    by (auto simp: outcome_step_def)
  have len: "length (quants b) \<le> length (quants c)" using extends_length [OF 2(2)] .
  have ms: "\<forall>m \<in> set ms. mv_quant m < length (quants b)" using 1(6) by blast
  have "booked P c (ms @ ns) = booked P c ms + booked P c ns" for P by (simp add: booked_def)
  moreover have "\<forall>m \<in> set (ms @ ns). mv_quant m < length (quants c)
       \<and> (on_display sku shelf (quants c ! mv_quant m) \<or> in_plan sku date (quants c ! mv_quant m))"
    using 1(6) 2(7) len extends_place [OF 2(2)] by fastforce
  ultimately show ?thesis
    using 1(3-5) 2 booked_extends [OF 2(2) ms] extends_trans [OF 1(1) 2(2)] 1(2)
    unfolding outcome_step_def by (intro conjI exI [of _ "ms @ ns"]) auto
qed

text \<open>One move off the plan.\<close>

lemma outcome_off_plan:
  assumes "stock_inv st" "save_move m st = Inr st'" "q \<in> set (quants st)" "qu_id q = mv_quant m"
    and "mv_delta m = - d" "in_plan sku date q"
  shows "outcome_step sku date shelf 0 d d st st'"
proof -
  have st': "st' = moved m st" using assms(2) by (simp add: save_move_Inr)
  have ids: "map qu_id (quants st) = [0..<length (quants st)]" using assms(1) by (simp add: stock_inv_def quants_inv_def)
  have k: "mv_quant m < length (quants st)" using assms(3,4) ids_member [OF ids] by metis
  have nth: "quants st ! mv_quant m = q" using inv_nth [OF assms(1,3)] assms(4) by simp
  have "stock_inv st'" unfolding st' using assms(2) k by (intro moved_inv [OF assms(1)]) (simp_all add: save_move_Inr)
  moreover have "extends st st'" by (simp add: st')
  moreover have "in_plan sku date (quants st' ! mv_quant m)" "\<not> on_display sku shelf (quants st' ! mv_quant m)"
    using extends_place [OF \<open>extends st st'\<close> k] assms(6) nth by (auto simp: in_plan_def on_display_def)
  ultimately show ?thesis unfolding outcome_step_def using st' assms(5) k
    by (intro conjI exI [of _ "[m]"]) (auto simp: booked_def)
qed

lemma outcome_realize:
  assumes "stock_inv st" "realize_stock c cat ttl (just_sku sku) date n a st = Inr (st', q)"
    and "re_to_position a = Some shelf"
  shows "outcome_step sku date shelf n n 0 st st'"
proof -
  from realize_spec [OF assms(1,2)] obtain planned ds credit where r: "stock_inv st'" "extends st st'" "q \<in> set (quants st')"
    "qu_sku q = sku" "qu_position q = Some shelf" "qu_target q = None"
    "planned \<in> set (quants st)" "qu_sku planned = sku" "qu_target planned = Some date"
    "moves st' = moves st @ ds @ [credit]" "mv_quant credit = qu_id q" "mv_delta credit = n"
    "\<forall>d \<in> set ds. mv_quant d = qu_id planned" "sum_list (map mv_delta ds) = - min n (qu_quantity planned)"
    using assms(3) by auto
  have "0 < n" using assms(2) by (simp add: realize_stock_def split: if_splits)
  have ids: "map qu_id (quants s) = [0..<length (quants s)]" if "stock_inv s" for s
    using that by (simp add: stock_inv_def quants_inv_def)
  have pk: "qu_id planned < length (quants st)" using r(7) ids_member [OF ids [OF assms(1)]] by simp
  have qk: "qu_id q < length (quants st')" using r(3) ids_member [OF ids [OF r(1)]] by simp
  have p: "in_plan sku date (quants st' ! qu_id planned)" "\<not> on_display sku shelf (quants st' ! qu_id planned)"
    using extends_place [OF r(2) pk] inv_nth [OF assms(1) r(7)] r(8,9) by (auto simp: in_plan_def on_display_def)
  have q: "on_display sku shelf (quants st' ! qu_id q)" "\<not> in_plan sku date (quants st' ! qu_id q)"
    using inv_nth [OF r(1,3)] r(4-6) by (auto simp: in_plan_def on_display_def)
  have "booked P st' ds = (if P (quants st' ! qu_id planned) then sum_list (map mv_delta ds) else 0)" for P
    unfolding booked_def using r(13) by (induction ds) auto
  moreover have "0 \<le> qu_quantity planned" by (rule inv_nonneg [OF assms(1) r(7)])
  ultimately show ?thesis unfolding outcome_step_def using r p q pk qk extends_length [OF r(2)] \<open>0 < n\<close>
    by (intro conjI exI [of _ "ds @ [credit]"]) (auto simp: booked_def)
qed

lemma outcome_inv: "outcome_step sku date shelf n d e st st' \<Longrightarrow> stock_inv st'"
  by (simp add: outcome_step_def)

lemma realize_legs_outcome:
  assumes "stock_inv st" "realize_legs env sku date a legs st = Inr st'" "re_to_position a = Some shelf"
  shows "outcome_step sku date shelf (sum_list (map fst legs)) (sum_list (map fst legs)) 0 st st'"
  using assms
proof (induction legs arbitrary: st)
  case Nil
  then show ?case using outcome_refl by simp
next
  case (Cons l legs)
  obtain n b g where l: "l = (n, b, g)" by (cases l)
  let ?a = "a\<lparr>re_to_batch := b, re_to_grade := g\<rparr>"
  from Cons.prems(2) obtain st1 q where r: "realize_stock (lg_clock env) (lg_catalogue env) (lg_ttl env) (just_sku sku) date n ?a st = Inr (st1, q)"
    "realize_legs env sku date a legs st1 = Inr st'"
    by (auto simp: l ebind_Inr map_sum_id)
  from outcome_realize [OF Cons.prems(1) r(1)] Cons.prems(3) have 1: "outcome_step sku date shelf n n 0 st st1" by simp
  from outcome_trans [OF 1 Cons.IH [OF outcome_inv [OF 1] r(2) Cons.prems(3)]] show ?case by (simp add: l)
qed

lemma output_legs_sum: "sum_list (map fst (output_legs o1 sku f cr)) = f"
  by (auto simp: output_legs_def Let_def comp_def)

lemma found_in_plan:
  "find_planned_quant o1 sku date st = Some q \<Longrightarrow> q \<in> set (quants st) \<and> in_plan sku date q"
  "write_off_quant o1 sku date cr st = Some q \<Longrightarrow> q \<in> set (quants st) \<and> in_plan sku date q"
proof -
  have g: "get_quant sku p (Some date) b st = Some q \<Longrightarrow> q \<in> set (quants st) \<and> in_plan sku date q" for p b q
    using get_quant_Some by (fastforce simp: same_coordinate_def in_plan_def)
  have f: "first_stocked sku date b st = Some q \<Longrightarrow> q \<in> set (quants st) \<and> in_plan sku date q" for b q
    by (auto simp: first_stocked_def find_Some_iff in_plan_def)
  show "find_planned_quant o1 sku date st = Some q \<Longrightarrow> q \<in> set (quants st) \<and> in_plan sku date q"
    using g by (auto simp: find_planned_quant_def find_Some_iff in_plan_def split: option.splits)
  show "write_off_quant o1 sku date cr st = Some q \<Longrightarrow> q \<in> set (quants st) \<and> in_plan sku date q"
    using g f by (auto simp: write_off_quant_def Let_def split: option.splits if_splits)
qed

lemma ledger_move_outcome:
  assumes "stock_inv st" "ledger_move env q (- d) reason k st = Inr st'" "q \<in> set (quants st) \<and> in_plan sku date q"
  shows "outcome_step sku date shelf 0 d d st st'"
proof -
  from assms(2) obtain m where "save_move m st = Inr st'" "mv_quant m = qu_id q" "mv_delta m = - d"
    by (auto simp: ledger_move_def map_sum_id)
  with assms show ?thesis by (auto intro: outcome_off_plan)
qed

lemma cancel_unstarted_outcome:
  assumes "stock_inv st" "cancel_unstarted env o1 sku date cr st = Inr st'" "started_or_planned o1 cr = Inr n"
  shows "outcome_step sku date shelf 0 (max (wo_quantity o1 - n) 0) (max (wo_quantity o1 - n) 0) st st'"
proof (cases "wo_quantity o1 - n \<le> 0")
  case True
  with assms have "st' = st" by (auto simp: cancel_unstarted_def Let_def)
  with outcome_refl [OF assms(1)] True show ?thesis by (simp add: max_absorb2)
next
  case False
  with assms(2,3) obtain q where "find_planned_quant o1 sku date st = Some q"
    "\<exists>reason. ledger_move env q (- max (wo_quantity o1 - n) 0) reason Adjust_move st = Inr st'"
    by (auto simp: cancel_unstarted_def Let_def split: option.splits if_splits)
  with ledger_move_outcome [OF assms(1)] found_in_plan(1) show ?thesis by blast
qed

lemma write_off_outcome:
  assumes "stock_inv st" "write_off_shortfall env True o1 sku date f cr st = Inr st'" "started_or_planned o1 cr = Inr n"
  shows "outcome_step sku date shelf 0 (max (n - f) 0) (max (n - f) 0) st st'"
proof (cases "n - f \<le> 0")
  case True
  with assms have "st' = st" by (auto simp: write_off_shortfall_def Let_def)
  with outcome_refl [OF assms(1)] True show ?thesis by (simp add: max_absorb2)
next
  case False
  with assms(2,3) obtain q where q: "write_off_quant o1 sku date cr st = Some q"
    "\<exists>reason. ledger_move env q (- max (n - f) 0) reason Waste_move st = Inr st'"
    by (auto simp: write_off_shortfall_def Let_def max_def split: option.splits if_splits)
  with ledger_move_outcome [OF assms(1)] found_in_plan(2) [OF q(1)] show ?thesis by blast
qed

lemma outcome_positions: "outcome_step sku date shelf n d e st st' \<Longrightarrow> positions st' = positions st"
  by (simp add: outcome_step_def extends_def)

lemma output_leg_outcome:
  assumes "stock_inv st" "output_leg env True o1 sku (Some date) cr st = Inr (st', shut)" "wo_finished o1 = Some f"
  shows "\<exists>n shelf. started_or_planned o1 cr = Inr n \<and> (0 < f \<longrightarrow> map_option po_ref (find po_is_saleable (positions st)) = Some shelf)
    \<and> outcome_step sku date shelf (max f 0) (max (wo_quantity o1 - n) 0 + max f 0 + max (n - f) 0)
        (max (wo_quantity o1 - n) 0 + max (n - f) 0) st st'"
proof -
  obtain st1 where c: "cancel_unstarted env o1 sku date cr st = Inr st1"
    using assms(2) by (auto simp: output_leg_def Let_def ebind_Inr)
  then obtain n where n: "started_or_planned o1 cr = Inr n" by (auto simp: cancel_unstarted_def ebind_Inr map_sum_id)
  note c1 = cancel_unstarted_outcome [OF assms(1) c n]
  have inv1: "stock_inv st1" using outcome_inv [OF c1] .
  show ?thesis
  proof (cases "f \<le> 0")
    case True
    then have "write_off_shortfall env True o1 sku date f cr st1 = Inr st'"
      using assms(2,3) c by (auto simp: output_leg_def map_sum_Inr)
    from outcome_trans [OF c1 write_off_outcome [OF inv1 this n]] n True show ?thesis by (auto simp: max_absorb2)
  next
    case False
    with assms(2,3) c obtain p q b where p: "find po_is_saleable (positions st1) = Some p" "output_source o1 sku date cr st1 = Some (q, b)"
      by (auto simp: output_leg_def split: option.splits)
    with False assms(2,3) c obtain st2 a where r: "realize_legs env sku date a (output_legs o1 sku f cr) st1 = Inr st2"
      "re_to_position a = Some (po_ref p)" "write_off_shortfall env True o1 sku date f cr st2 = Inr st'"
      by (auto simp: output_leg_def ebind_Inr map_sum_Inr)
    note l = realize_legs_outcome [OF inv1 r(1,2), unfolded output_legs_sum]
    note w = write_off_outcome [OF outcome_inv [OF l] r(3) n]
    from outcome_trans [OF outcome_trans [OF c1 l] w] outcome_positions [OF c1] p(1) n False
    show ?thesis by (auto simp: max_absorb1)
  qed
qed

text \<open>C6: The second leg, when the output must be written (\<open>fail_closed\<close>) and was not, writes on the quants of
  the selling position exactly what finished, takes off the plan of that day what was never started, plus what was
  lost between start and finish, plus at most what finished, and writes nowhere else; a total loss writes nothing
  on the shelf.\<close>

theorem output_exact:
  assumes "stock_inv (sf_stock fl)" "realize_leg env True o1 sku (Some date) fl = Inr (o2, fl')"
    and "\<not> leg_done (leg_lock o1 (sf_craft fl)) realized_key" "wo_finished o1 = Some f"
  shows "\<exists>n shelf ms. started_or_planned o1 (sf_craft fl) = Inr n
    \<and> (0 < f \<longrightarrow> map_option po_ref (find po_is_saleable (positions (sf_stock fl))) = Some shelf)
    \<and> stock_inv (sf_stock fl') \<and> moves (sf_stock fl') = moves (sf_stock fl) @ ms
    \<and> booked (on_display sku shelf) (sf_stock fl') ms = max f 0
    \<and> - (max (wo_quantity o1 - n) 0 + max f 0 + max (n - f) 0) \<le> booked (in_plan sku date) (sf_stock fl') ms
    \<and> booked (in_plan sku date) (sf_stock fl') ms \<le> - (max (wo_quantity o1 - n) 0 + max (n - f) 0)
    \<and> (\<forall>m \<in> set ms. on_display sku shelf (quants (sf_stock fl') ! mv_quant m)
         \<or> in_plan sku date (quants (sf_stock fl') ! mv_quant m))"
proof -
  let ?o = "leg_lock o1 (sf_craft fl)"
  obtain shut where "output_leg env True ?o sku (Some date) (sf_craft fl) (sf_stock fl) = Inr (sf_stock fl', shut)"
    using assms(2,3) by (auto simp: realize_leg_def Let_def map_sum_Inr split: prod.splits if_splits)
  moreover have same: "wo_finished ?o = wo_finished o1" "wo_quantity ?o = wo_quantity o1"
    by (simp_all add: leg_lock_def split: option.split)
  moreover have "started_or_planned ?o (sf_craft fl) = started_or_planned o1 (sf_craft fl)"
    unfolding started_or_planned_def effective_qty_def same leg_lock_id by (rule refl)
  ultimately show ?thesis using output_leg_outcome [OF assms(1)] assms(4) unfolding outcome_step_def by (metis (no_types, lifting))
qed

end
