(* ===== verification/CraftStockDay.thy ===== *)
theory CraftStockDay
  imports CraftStockLedger
begin

text \<open>
  A bakery day with its stock: six kilos of flour, twelve loaves planned, ten started, nine
  finished. The properties of the two legs are applied to it, and the two places where the
  code loses an order's output or its plan are evaluated on it.
\<close>

definition day_env :: leg_env where
  "day_env = \<lparr>lg_clock = shop_clock 1500, lg_catalogue = bakery_catalogue, lg_ttl = 30, lg_stamp = ''2026-08-01T09:00'',
     lg_from_saleable = False\<rparr>"

definition day_order :: work_order where
  "day_order = \<lparr>wo_id = 0, wo_ref = ''WO-2026-00001'', wo_recipe = 0, wo_output_sku = ''loaf'', wo_quantity = 12,
     wo_finished = Some 9, wo_status = Wo_finished, wo_rev = 2, wo_target = Some 20, wo_started_at = Some 120,
     wo_finished_at = Some 130, wo_source_ref = [], wo_position_ref = [], wo_operator_ref = ''ana'', wo_meta = []\<rparr>"

definition day_start :: wo_event where
  "day_start = \<lparr>we_order = 0, we_seq = 1, we_kind = Ev_started, we_payload = [(''quantity'', JStr ''10'')], we_actor = ''ana'', we_key = None\<rparr>"

definition day_flour :: wo_item where
  "day_flour = \<lparr>wi_order = 0, wi_kind = Consumption, wi_ref = ''flour'', wi_quantity = 5, wi_unit = ''kg'', wi_recorded_at = 130,
     wi_recorded_by = ''ana'', wi_meta = [], wi_grade = [], wi_defect = [], wi_batch = []\<rparr>"

definition day_craft :: craft where
  "day_craft = \<lparr>cr_recipes = [], cr_recipe_items = [], cr_orders = [day_order], cr_events = [day_start], cr_items = [day_flour],
     cr_sequences = [], cr_signals = []\<rparr>"

definition flour_args :: receive_args where
  "flour_args = \<lparr>ra_position = None, ra_target = None, ra_batch = [], ra_user = None,
     ra_reason = ''compra'', ra_kind = Buy_move, ra_metadata = []\<rparr>"

definition pantry :: "position list \<Rightarrow> stock" where
  "pantry ps = fst (handle_started day_env day_order ''loaf'' (Some 20) day_craft
     (fst (handle_planned day_env day_order ''loaf'' (Some 20)
       (fst (receive (shop_clock 1000) bakery_catalogue 6 ''flour'' flour_args (stock_init ps))))))"

definition day_floor :: "position list \<Rightarrow> shop_floor" where
  "day_floor ps = \<lparr>sf_craft = day_craft, sf_stock = pantry ps\<rparr>"

definition stock_rows :: "shop_floor \<Rightarrow> (string \<times> int option \<times> string \<times> rat) list" where
  "stock_rows fl = map (\<lambda>q. (qu_sku q, qu_target q, qu_batch q, qu_quantity q)) (quants (sf_stock fl))"

definition consumed_floor :: shop_floor where
  "consumed_floor = (case consume_leg day_env True day_order (day_floor shop_positions) of Inl _ \<Rightarrow> day_floor shop_positions | Inr (_, _, fl) \<Rightarrow> fl)"

definition realized_floor :: shop_floor where
  "realized_floor = (case realize_leg day_env True day_order ''loaf'' (Some 20) (day_floor shop_positions) of
     Inl _ \<Rightarrow> day_floor shop_positions | Inr (_, fl) \<Rightarrow> fl)"

lemma day_rows: "stock_rows (day_floor shop_positions) = [(''flour'', None, [], 6), (''loaf'', Some 20, [], 2), (''loaf'', Some 20, ''started'', 10)]"
  by code_simp

lemma day_inv: "stock_inv (sf_stock (day_floor shop_positions))"
  by code_simp

lemma day_legs:
  "\<not> isl (consume_leg day_env True day_order (day_floor shop_positions))"
  "\<not> isl (realize_leg day_env True day_order ''loaf'' (Some 20) (day_floor shop_positions))"
  by code_simp+

lemma day_open: "\<not> leg_done (leg_lock day_order (sf_craft (day_floor shop_positions))) k"
  by (simp add: leg_done_def leg_lock_def day_floor_def day_craft_def order_row_def day_order_def row_get_def pget_def)

lemma day_consumed: "\<exists>o2 ss. consume_leg day_env True day_order (day_floor shop_positions) = Inr (o2, ss, consumed_floor)"
  using day_legs(1) by (cases "consume_leg day_env True day_order (day_floor shop_positions)") (auto simp: consumed_floor_def)

lemma day_realized: "\<exists>o2. realize_leg day_env True day_order ''loaf'' (Some 20) (day_floor shop_positions) = Inr (o2, realized_floor)"
  using day_legs(2) by (cases "realize_leg day_env True day_order ''loaf'' (Some 20) (day_floor shop_positions)") (auto simp: realized_floor_def)

lemma day_asked: "asked (consumptions 0 day_craft) ''flour'' = 5 \<and> approved_shortages 0 day_craft = []"
  by code_simp

theorem consumption_exact_witness: "sku_total (sf_stock consumed_floor) ''flour'' = sku_total (sf_stock (day_floor shop_positions)) ''flour'' - 5"
proof -
  obtain o2 ss where c: "consume_leg day_env True day_order (day_floor shop_positions) = Inr (o2, ss, consumed_floor)"
    using day_consumed by blast
  from consumption_exact [OF day_inv c day_open, of "''flour''"] day_asked show ?thesis
    by (simp add: day_floor_def day_order_def allowed_def)
qed

theorem output_exact_witness:
  "\<exists>ms. moves (sf_stock realized_floor) = moves (sf_stock (day_floor shop_positions)) @ ms
    \<and> booked (on_display ''loaf'' ''vitrine'') (sf_stock realized_floor) ms = 9"
proof -
  obtain o2 where r: "realize_leg day_env True day_order ''loaf'' (Some 20) (day_floor shop_positions) = Inr (o2, realized_floor)"
    using day_realized by blast
  have "find po_is_saleable (positions (sf_stock (day_floor shop_positions))) = find po_is_saleable shop_positions" by code_simp
  moreover have "wo_finished day_order = Some 9" by (simp add: day_order_def)
  ultimately show ?thesis using output_exact [OF day_inv r day_open, of 9] by (auto simp: shop_positions_def)
qed

theorem legs_written_once_witness:
  "consume_leg day_env False day_order (attempts day_env ''loaf'' (Some 20)
      [\<lparr>at_leg = Realize, at_order = day_order, at_fail_closed = True\<rparr>, \<lparr>at_leg = Consume, at_order = day_order, at_fail_closed = False\<rparr>]
      consumed_floor)
    = Inr (leg_lock day_order (sf_craft (attempts day_env ''loaf'' (Some 20)
      [\<lparr>at_leg = Realize, at_order = day_order, at_fail_closed = True\<rparr>, \<lparr>at_leg = Consume, at_order = day_order, at_fail_closed = False\<rparr>]
      consumed_floor)), [], attempts day_env ''loaf'' (Some 20)
      [\<lparr>at_leg = Realize, at_order = day_order, at_fail_closed = True\<rparr>, \<lparr>at_leg = Consume, at_order = day_order, at_fail_closed = False\<rparr>]
      consumed_floor)"
proof -
  obtain o2 ss where c: "consume_leg day_env True day_order (day_floor shop_positions) = Inr (o2, ss, consumed_floor)"
    using day_consumed by blast
  have row: "order_row (wo_id day_order) (sf_craft (day_floor shop_positions)) = Some day_order"
    by (simp add: day_floor_def day_craft_def order_row_def row_get_def)
  show ?thesis
    by (rule mp [OF legs_written_once [OF row, of day_env, THEN conjunct1] c]) (simp_all add: day_env_def)
qed

text \<open>
  A finish without \<open>fail_closed\<close> in a shop that has no selling position keeps the cancellation of
  what was never started and leaves the leg open. When the position exists, the recovery cancels
  it again, finds the plan short and raises: the loaves never reach the shelf.
\<close>

definition shelfless_floor :: shop_floor where
  "shelfless_floor = (case realize_leg day_env False day_order ''loaf'' (Some 20) (day_floor []) of Inl _ \<Rightarrow> day_floor [] | Inr (_, fl) \<Rightarrow> fl)"

definition with_shelf :: "shop_floor \<Rightarrow> shop_floor" where
  "with_shelf fl = fl\<lparr>sf_stock := (sf_stock fl)\<lparr>positions := shop_positions\<rparr>\<rparr>"

theorem cancelled_twice:
  "stock_rows (day_floor []) = [(''flour'', None, [], 6), (''loaf'', Some 20, [], 2), (''loaf'', Some 20, ''started'', 10)]
   \<and> stock_rows shelfless_floor = [(''flour'', None, [], 6), (''loaf'', Some 20, [], 0), (''loaf'', Some 20, ''started'', 10)]
   \<and> map_sum id (\<lambda>_. ()) (realize_leg day_env True day_order ''loaf'' (Some 20) (with_shelf shelfless_floor))
       = Inl (Leg_stock (Stk_insufficient_available 0))"
  by code_simp

end
