(* ===== verification/DoorCodes.thy ===== *)
theory DoorCodes
  imports Prelude
begin

text \<open>
  One-time codes (\<open>doorman/models/verification_code.py\<close>, \<open>gates.py\<close>, \<open>services/verification.py\<close>
  and the conference of a contact code in \<open>shop/services/auth.py\<close>): the row of a code, the
  gates on asking for one, the three phases of a request around the call to the provider, the
  two ways to use a code, the reconciliation of an interrupted delivery and the clean-up.

  Instants are integers in seconds; the table lists the codes in creation order, which is the
  order of \<open>created_at\<close>. HMAC under the key of the shop, the drawn code, the uuid of the row
  and the configured \<open>AUTH_ADAPTER\<close> are arguments; each phase takes the adapter's answers as
  they are then. A transaction that returns a refusal is committed, one that raises is not.
\<close>

section \<open>Rows and errors\<close>

datatype code_status = Code_pending | Code_sent | Code_verified | Code_expired | Code_failed

datatype code_purpose = Login | Verify_contact

record vcode =
  vc_id :: string
  vc_hash :: string
  vc_target :: string
  vc_purpose :: code_purpose
  vc_status :: code_status
  vc_created_at :: int
  vc_expires_at :: int
  vc_delivery_started :: "int option"
  vc_reconciled_at :: "int option"
  vc_evidence :: string
  vc_sent_at :: "int option"
  vc_verified_at :: "int option"
  vc_method :: string
  vc_attempts :: nat
  vc_max_attempts :: nat
  vc_ip :: "string option"
  vc_customer :: "string option"

datatype door_error = Door_rate_limit | Door_cooldown int "(int \<times> string) option" | Door_ip_rate_limit | Door_send_failed
  | Door_code_expired | Door_code_invalid nat | Door_max_attempts | Door_too_many_failures | Door_account_not_found
  | Door_account_inactive | Door_identity_conflict | Door_invalid_input | Door_invalid_target | Door_integrity

text \<open>The settings of the installation.\<close>

record door_conf =
  dc_ttl :: int
  dc_max_attempts :: nat
  dc_rate_max :: nat
  dc_rate_window :: int
  dc_cooldown :: int
  dc_max_failures :: nat
  dc_failure_window :: int

text \<open>
  The adapter: how a raw target is read, who owns a handle, the lock on a customer, what a new
  customer and a proven handle become. \<open>Inl ()\<close> is the exception \<open>IdentityConflict\<close>.
\<close>

type_synonym handle = "string \<times> string"

record identity_port =
  ip_handle :: "string \<Rightarrow> handle"
  ip_allowed :: "string \<Rightarrow> string \<Rightarrow> bool"
  ip_resolve :: "handle \<Rightarrow> unit + string option"
  ip_lock :: "string \<Rightarrow> string option"
  ip_belongs :: "string \<Rightarrow> handle \<Rightarrow> unit + bool"
  ip_get :: "string \<Rightarrow> string option"
  ip_auto_create :: bool
  ip_create :: "handle \<Rightarrow> string"
  ip_bind :: "string \<Rightarrow> handle \<Rightarrow> string \<Rightarrow> unit + string"

definition delivery_methods :: "string list" where
  "delivery_methods = [''whatsapp'', ''sms'', ''email'']"

section \<open>The model\<close>

definition code_expired :: "int \<Rightarrow> vcode \<Rightarrow> bool" where
  "code_expired now v \<longleftrightarrow> vc_expires_at v < now"

definition code_valid :: "int \<Rightarrow> vcode \<Rightarrow> bool" where
  "code_valid now v \<longleftrightarrow> vc_status v = Code_sent \<and> \<not> code_expired now v \<and> vc_attempts v < vc_max_attempts v"

definition attempts_remaining :: "vcode \<Rightarrow> nat" where
  "attempts_remaining v = vc_max_attempts v - vc_attempts v"

definition hmac_matches :: "(string \<Rightarrow> string) \<Rightarrow> string \<Rightarrow> string \<Rightarrow> bool" where
  "hmac_matches hmac stored input \<longleftrightarrow> stored = hmac (strip input)"

definition code_verify :: "(string \<Rightarrow> string) \<Rightarrow> int \<Rightarrow> string \<Rightarrow> vcode \<Rightarrow> bool" where
  "code_verify hmac now input v \<longleftrightarrow> code_valid now v \<and> hmac_matches hmac (vc_hash v) input"

abbreviation put_code :: "vcode \<Rightarrow> vcode list \<Rightarrow> vcode list" where
  "put_code \<equiv> row_put vc_id"

abbreviation get_code :: "string \<Rightarrow> vcode list \<Rightarrow> vcode option" where
  "get_code \<equiv> row_get vc_id"

definition record_attempt :: "vcode \<Rightarrow> vcode" where
  "record_attempt v =
     (let n = vc_attempts v + 1 in
      v\<lparr>vc_attempts := n, vc_status := (if vc_max_attempts v \<le> n then Code_failed else vc_status v)\<rparr>)"

definition mark_verified :: "int \<Rightarrow> string \<Rightarrow> vcode \<Rightarrow> vcode" where
  "mark_verified now customer v = v\<lparr>vc_status := Code_verified, vc_verified_at := Some now, vc_customer := Some customer\<rparr>"

section \<open>The gates\<close>

definition rate_limit :: "door_conf \<Rightarrow> int \<Rightarrow> string \<Rightarrow> vcode list \<Rightarrow> bool" where
  "rate_limit cf now key codes \<longleftrightarrow>
     length (filter (\<lambda>v. vc_target v = key \<and> now - dc_rate_window cf \<le> vc_created_at v) codes) < dc_rate_max cf"

definition code_failures :: "string \<Rightarrow> int \<Rightarrow> vcode list \<Rightarrow> nat" where
  "code_failures target start codes = sum_where (\<lambda>v. vc_target v = target \<and> start \<le> vc_created_at v) vc_attempts codes"

definition failure_limit :: "door_conf \<Rightarrow> int \<Rightarrow> string \<Rightarrow> vcode list \<Rightarrow> bool" where
  "failure_limit cf now target codes \<longleftrightarrow> code_failures target (now - dc_failure_window cf) codes < dc_max_failures cf"

text \<open>\<open>None\<close> when the gate is open, else the seconds to wait.\<close>

definition code_cooldown :: "door_conf \<Rightarrow> int \<Rightarrow> string \<Rightarrow> vcode list \<Rightarrow> int option" where
  "code_cooldown cf now target codes =
     (case latest (\<lambda>v. vc_target v = target) codes of
        None \<Rightarrow> None
      | Some v \<Rightarrow>
          if vc_max_attempts v \<le> vc_attempts v then None
          else let elapsed = now - vc_created_at v in
               if elapsed < dc_cooldown cf then Some (max 1 (dc_cooldown cf - elapsed)) else None)"

definition ip_rate_limit :: "int \<Rightarrow> string \<Rightarrow> vcode list \<Rightarrow> bool" where
  "ip_rate_limit now ip codes \<longleftrightarrow>
     ip = [] \<or> length (filter (\<lambda>v. vc_ip v = Some ip \<and> now - 60 * 60 \<le> vc_created_at v) codes) < 20"

definition latest_valid_code :: "int \<Rightarrow> string \<Rightarrow> code_purpose \<Rightarrow> vcode list \<Rightarrow> vcode option" where
  "latest_valid_code now target p codes =
     latest (\<lambda>v. vc_target v = target \<and> vc_purpose v = p \<and> vc_status v = Code_sent \<and> now < vc_expires_at v) codes"

definition latest_exhausted :: "string \<Rightarrow> code_purpose \<Rightarrow> vcode list \<Rightarrow> bool" where
  "latest_exhausted target p codes =
     (case latest (\<lambda>v. vc_target v = target \<and> vc_purpose v = p) codes of
        None \<Rightarrow> False | Some v \<Rightarrow> vc_max_attempts v \<le> vc_attempts v)"

section \<open>Asking for a code\<close>

text \<open>
  The revalidation under the customer's lock, the same in the three phases: the customer that
  the code will be bound to, or the refusal.
\<close>

definition revalidate :: "identity_port \<Rightarrow> code_purpose \<Rightarrow> handle \<Rightarrow> string option \<Rightarrow> door_error + string option" where
  "revalidate port p h customer =
     (case customer of
        None \<Rightarrow> Inr None
      | Some c \<Rightarrow>
          (case ip_lock port c of
             None \<Rightarrow> Inl Door_account_inactive
           | Some locked \<Rightarrow>
               if p \<noteq> Login then Inr (Some locked)
               else (case ip_belongs port locked h of
                       Inl _ \<Rightarrow> Inl Door_identity_conflict
                     | Inr ok \<Rightarrow> if ok then Inr (Some locked) else Inl Door_account_inactive)))"

definition owner_hint :: "identity_port \<Rightarrow> code_purpose \<Rightarrow> handle \<Rightarrow> string option \<Rightarrow> door_error + string option" where
  "owner_hint port p h customer =
     (if p = Login \<and> customer = None
      then (case ip_resolve port h of Inl _ \<Rightarrow> Inl Door_identity_conflict | Inr r \<Rightarrow> Inr r)
      else Inr customer)"

record code_request =
  cr_target :: string
  cr_purpose :: code_purpose
  cr_method :: string
  cr_ip :: "string option"
  cr_customer :: "string option"

text \<open>What a request expires before it makes its own code.\<close>

definition superseded :: "string \<Rightarrow> code_purpose \<Rightarrow> vcode \<Rightarrow> bool" where
  "superseded target p v \<longleftrightarrow> vc_target v = target \<and> vc_purpose v = p
     \<and> (vc_status v = Code_sent \<or> vc_status v = Code_pending \<and> vc_delivery_started v = None)"

definition in_flight :: "string \<Rightarrow> code_purpose \<Rightarrow> vcode \<Rightarrow> bool" where
  "in_flight target p v \<longleftrightarrow> vc_target v = target \<and> vc_purpose v = p
     \<and> vc_status v = Code_pending \<and> vc_delivery_started v \<noteq> None"

definition new_code :: "door_conf \<Rightarrow> int \<Rightarrow> string \<Rightarrow> string \<Rightarrow> handle \<Rightarrow> code_request \<Rightarrow> string option \<Rightarrow> vcode" where
  "new_code cf now pk digest h rq customer =
     \<lparr>vc_id = pk, vc_hash = digest, vc_target = snd h, vc_purpose = cr_purpose rq, vc_status = Code_pending,
      vc_created_at = now, vc_expires_at = now + dc_ttl cf, vc_delivery_started = None, vc_reconciled_at = None,
      vc_evidence = [], vc_sent_at = None, vc_verified_at = None, vc_method = cr_method rq, vc_attempts = 0,
      vc_max_attempts = dc_max_attempts cf, vc_ip = cr_ip rq, vc_customer = customer\<rparr>"

text \<open>
  Phase A takes no lock on the codes. Each of its queries reads the table as committed when the
  query runs: the gates, the codes in flight, the rows its update picks. \<open>rd_at\<close> is the instant of
  the gates. Other requests may commit between these readings and the new row, unless they wait
  for the row of the same customer.
\<close>

record door_reads =
  rd_at :: int
  rd_rate :: "vcode list"
  rd_failures :: "vcode list"
  rd_cooldown :: "vcode list"
  rd_pending :: "vcode list"
  rd_ip :: "vcode list"
  rd_flight :: "vcode list"
  rd_previous :: "vcode list"

definition reads_of :: "int \<Rightarrow> vcode list \<Rightarrow> door_reads" where
  "reads_of now codes = \<lparr>rd_at = now, rd_rate = codes, rd_failures = codes, rd_cooldown = codes, rd_pending = codes,
     rd_ip = codes, rd_flight = codes, rd_previous = codes\<rparr>"

text \<open>The update expires the rows it picked that are still to be expired when it gets their locks.\<close>

definition expire_previous :: "string \<Rightarrow> code_purpose \<Rightarrow> vcode list \<Rightarrow> vcode list \<Rightarrow> vcode list" where
  "expire_previous target p picked codes =
     map (\<lambda>c. if superseded target p c \<and> vc_id c \<in> vc_id ` set (filter (superseded target p) picked)
              then c\<lparr>vc_status := Code_expired\<rparr> else c) codes"

text \<open>Phase A: the gates, then the durable code. Returns its row.\<close>

definition prepare_code ::
    "door_conf \<Rightarrow> identity_port \<Rightarrow> door_reads \<Rightarrow> int \<Rightarrow> string \<Rightarrow> string \<Rightarrow> code_request \<Rightarrow> vcode list
     \<Rightarrow> door_error + (vcode \<times> vcode list)" where
  "prepare_code cf port seen now pk digest rq codes =
     (let h = ip_handle port (cr_target rq); target = snd h; p = cr_purpose rq in
      if target = [] then Inl Door_invalid_target
      else if cr_method rq \<notin> set delivery_methods then Inl Door_invalid_input
      else if \<not> ip_allowed port target (cr_method rq) then Inl Door_account_inactive
      else ebind (owner_hint port p h (cr_customer rq)) (\<lambda>hint.
           ebind (revalidate port p h hint) (\<lambda>customer.
           if \<not> rate_limit cf (rd_at seen) target (rd_rate seen) then Inl Door_rate_limit
           else if \<not> failure_limit cf (rd_at seen) target (rd_failures seen) then Inl Door_too_many_failures
           else (case code_cooldown cf (rd_at seen) target (rd_cooldown seen) of
                   Some wait \<Rightarrow> Inl (Door_cooldown wait
                     (map_option (\<lambda>v. (vc_expires_at v, vc_method v)) (latest_valid_code (rd_at seen) target p (rd_pending seen))))
                 | None \<Rightarrow>
           if \<not> (case cr_ip rq of None \<Rightarrow> True | Some ip \<Rightarrow> ip_rate_limit (rd_at seen) ip (rd_ip seen)) then Inl Door_ip_rate_limit
           else if \<exists>v \<in> set (rd_flight seen). in_flight target p v then Inl Door_send_failed
           else if pk \<in> vc_id ` set codes then Inl Door_integrity
           else let v = new_code cf now pk digest h rq customer in
                Inr (v, expire_previous target p (rd_previous seen) codes @ [v])))))"

definition fail_pending :: "string \<Rightarrow> vcode list \<Rightarrow> vcode list" where
  "fail_pending pk codes = map (\<lambda>v. if vc_id v = pk \<and> vc_status v = Code_pending then v\<lparr>vc_status := Code_failed\<rparr> else v) codes"

text \<open>The fence before the provider is called: the delivery has started.\<close>

definition fence_code ::
    "identity_port \<Rightarrow> int \<Rightarrow> code_purpose \<Rightarrow> handle \<Rightarrow> string option \<Rightarrow> string \<Rightarrow> vcode list \<Rightarrow> vcode list \<times> door_error option" where
  "fence_code port now p h customer pk codes =
     (case revalidate port p h customer of
        Inl e \<Rightarrow> (fail_pending pk codes, Some e)
      | Inr _ \<Rightarrow>
          (case get_code pk codes of
             None \<Rightarrow> (codes, Some Door_send_failed)
           | Some v \<Rightarrow>
               if vc_status v \<noteq> Code_pending \<or> code_expired now v then (fail_pending pk codes, Some Door_send_failed)
               else (put_code (v\<lparr>vc_delivery_started := Some now\<rparr>) codes, None)))"

text \<open>Phase C: the provider took the message by some method.\<close>

definition finish_delivery ::
    "identity_port \<Rightarrow> int \<Rightarrow> code_purpose \<Rightarrow> handle \<Rightarrow> string option \<Rightarrow> string \<Rightarrow> string \<Rightarrow> vcode list
     \<Rightarrow> vcode list \<times> (door_error + vcode)" where
  "finish_delivery port now p h customer pk how codes =
     (case revalidate port p h customer of
        Inl e \<Rightarrow> (fail_pending pk codes, Inl e)
      | Inr _ \<Rightarrow>
          (case get_code pk codes of
             None \<Rightarrow> (codes, Inl Door_send_failed)
           | Some v \<Rightarrow>
               if vc_status v \<noteq> Code_pending then (codes, Inl Door_send_failed)
               else let v1 = v\<lparr>vc_status := Code_sent, vc_sent_at := Some now, vc_method := how\<rparr> in
                    (put_code v1 codes, Inr v1)))"

text \<open>
  The whole request when nothing runs between its phases. The provider answers with the method
  that delivered, \<open>Some None\<close> when it refused, \<open>None\<close> when the call never returned: then the
  code stays in flight, to be reconciled.
\<close>

definition request_code ::
    "door_conf \<Rightarrow> identity_port \<Rightarrow> identity_port \<Rightarrow> identity_port \<Rightarrow> int \<Rightarrow> int \<Rightarrow> int \<Rightarrow> string option option \<Rightarrow> string \<Rightarrow> string
     \<Rightarrow> code_request \<Rightarrow> vcode list \<Rightarrow> vcode list \<times> (door_error + vcode) option" where
  "request_code cf port1 port2 port3 t1 t2 t3 answer pk digest rq codes =
     (case prepare_code cf port1 (reads_of t1 codes) t1 pk digest rq codes of
        Inl e \<Rightarrow> (codes, Some (Inl e))
      | Inr (v, codes1) \<Rightarrow>
          let h = ip_handle port1 (cr_target rq); p = cr_purpose rq; c = vc_customer v in
          (case fence_code port2 t2 p h c pk codes1 of
             (codes2, Some e) \<Rightarrow> (codes2, Some (Inl e))
           | (codes2, None) \<Rightarrow>
               (case answer of
                  None \<Rightarrow> (codes2, None)
                | Some None \<Rightarrow> (fail_pending pk codes2, Some (Inl Door_send_failed))
                | Some (Some how) \<Rightarrow>
                    (case finish_delivery port3 t3 p h c pk how codes2 of (codes3, r) \<Rightarrow> (codes3, Some r)))))"

section \<open>Using a code\<close>

text \<open>
  A login reads the code twice: before the lock on its owner, to know the owner (\<open>seen\<close>), and
  under it. The owner is the customer the code was issued for, else the one of the handle.
\<close>

definition login_owner :: "identity_port \<Rightarrow> handle \<Rightarrow> string option \<Rightarrow> door_error + string option" where
  "login_owner port h bound =
     ebind (case (case bound of None \<Rightarrow> None | Some c \<Rightarrow> ip_get port c) of
              Some c \<Rightarrow> Inr (Some c)
            | None \<Rightarrow> (case ip_resolve port h of Inl _ \<Rightarrow> Inl Door_identity_conflict | Inr r \<Rightarrow> Inr r)) (\<lambda>hint.
     ebind (case hint of
              None \<Rightarrow> Inr None
            | Some c \<Rightarrow>
                (case ip_lock port c of
                   None \<Rightarrow> Inl Door_account_inactive
                 | Some locked \<Rightarrow>
                     (case ip_belongs port locked h of
                        Inl _ \<Rightarrow> Inl Door_identity_conflict
                      | Inr ok \<Rightarrow> if ok then Inr (Some locked) else Inl Door_code_expired))) (\<lambda>customer.
     if bound \<noteq> None \<and> customer \<noteq> bound then Inl Door_code_expired else Inr customer))"

definition login_customer :: "identity_port \<Rightarrow> handle \<Rightarrow> string option \<Rightarrow> string \<Rightarrow> door_error + (string \<times> bool)" where
  "login_customer port h customer proof =
     ebind (case customer of
              Some c \<Rightarrow> Inr (c, False)
            | None \<Rightarrow> if ip_auto_create port then Inr (ip_create port h, True) else Inl Door_account_not_found) (\<lambda>(c, created).
     case ip_bind port c h proof of Inl _ \<Rightarrow> Inl Door_identity_conflict | Inr c1 \<Rightarrow> Inr (c1, created))"

definition use_login_code ::
    "(string \<Rightarrow> string) \<Rightarrow> identity_port \<Rightarrow> int \<Rightarrow> handle \<Rightarrow> string option \<Rightarrow> string \<Rightarrow> vcode \<Rightarrow> vcode list
     \<Rightarrow> vcode list \<times> (door_error + (string \<times> bool))" where
  "use_login_code hmac port now h customer input v codes =
     (if \<not> code_verify hmac now input v
      then let v1 = record_attempt v in
           (put_code v1 codes, Inl (if attempts_remaining v1 = 0 then Door_max_attempts else Door_code_invalid (attempts_remaining v1)))
      else case login_customer port h customer (vc_method v) of
        Inl e \<Rightarrow> (codes, Inl e)
      | Inr (c, created) \<Rightarrow> (put_code (mark_verified now c v) codes, Inr (c, created)))"

definition verify_for_login ::
    "(string \<Rightarrow> string) \<Rightarrow> identity_port \<Rightarrow> int \<Rightarrow> string \<Rightarrow> string \<Rightarrow> vcode list \<Rightarrow> vcode list
     \<Rightarrow> vcode list \<times> (door_error + (string \<times> bool))" where
  "verify_for_login hmac port now raw input seen codes =
     (let h = ip_handle port raw; target = snd h in
      if target = [] then (codes, Inl Door_invalid_target)
      else case latest_valid_code now target Login seen of
        None \<Rightarrow> (codes, Inl (if latest_exhausted target Login seen then Door_max_attempts else Door_code_expired))
      | Some hint \<Rightarrow>
      case login_owner port h (vc_customer hint) of
        Inl e \<Rightarrow> (codes, Inl e)
      | Inr customer \<Rightarrow>
      case find (\<lambda>v. vc_id v = vc_id hint \<and> vc_target v = target \<and> vc_purpose v = Login
                  \<and> vc_status v = Code_sent \<and> now < vc_expires_at v) codes of
        None \<Rightarrow> (codes, Inl Door_code_expired)
      | Some v \<Rightarrow>
      if vc_customer v \<noteq> None \<and> customer \<noteq> vc_customer v then (codes, Inl Door_code_expired)
      else use_login_code hmac port now h customer input v codes)"

text \<open>The conference of a contact code for a customer that is logged in.\<close>

definition verify_contact_code ::
    "(string \<Rightarrow> string) \<Rightarrow> identity_port \<Rightarrow> int \<Rightarrow> string \<Rightarrow> string \<Rightarrow> string \<Rightarrow> vcode list \<Rightarrow> vcode list \<times> (door_error + string)" where
  "verify_contact_code hmac port now raw input customer codes =
     (let h = ip_handle port raw in
      if fst h \<noteq> ''phone'' \<or> snd h = [] then (codes, Inl Door_invalid_target)
      else case latest_valid_code now (snd h) Verify_contact codes of
        None \<Rightarrow> (codes, Inl Door_code_expired)
      | Some v \<Rightarrow>
          if \<not> code_verify hmac now input v
          then let v1 = record_attempt v in (put_code v1 codes, Inl (Door_code_invalid (attempts_remaining v1)))
          else (put_code (mark_verified now customer v) codes, Inr (vc_method v)))"

section \<open>Reconciliation and clean-up\<close>

definition evidence_char :: "char \<Rightarrow> bool" where
  "evidence_char ch \<longleftrightarrow> ch \<in> set ''ABCDEFGHIJKLMNOPQRSTUVWXYZabcdefghijklmnopqrstuvwxyz0123456789''"

definition evidence_ok :: "string \<Rightarrow> bool" where
  "evidence_ok s = (case s of [] \<Rightarrow> False
     | ch # cs \<Rightarrow> evidence_char ch \<and> 2 \<le> length cs \<and> length cs \<le> 119
         \<and> list_all (\<lambda>x. evidence_char x \<or> x \<in> set ''._:/-'') cs)"

definition reconcile_delivery :: "identity_port \<Rightarrow> int \<Rightarrow> string \<Rightarrow> bool \<Rightarrow> string \<Rightarrow> vcode list \<Rightarrow> door_error + vcode list" where
  "reconcile_delivery port now pk accepted evidence codes =
     (if \<not> evidence_ok (strip evidence) then Inl Door_invalid_input
      else case get_code pk codes of
        None \<Rightarrow> Inl Door_invalid_input
      | Some v \<Rightarrow>
          if vc_status v \<noteq> Code_pending \<or> vc_delivery_started v = None then Inl Door_invalid_input
          else let locked = (case vc_customer v of None \<Rightarrow> None | Some c \<Rightarrow> ip_lock port c) in
          ebind (case locked of
                   None \<Rightarrow> Inr False
                 | Some c \<Rightarrow> if vc_purpose v \<noteq> Login then Inr True
                             else (case ip_belongs port c (ip_handle port (vc_target v)) of
                                     Inl _ \<Rightarrow> Inl Door_identity_conflict | Inr ok \<Rightarrow> Inr ok)) (\<lambda>authorized.
          if accepted \<and> vc_customer v \<noteq> None \<and> \<not> authorized then Inl Door_invalid_input
          else Inr (put_code (v\<lparr>vc_reconciled_at := Some now, vc_evidence := strip evidence,
                                vc_status := (if accepted then Code_sent else Code_failed),
                                vc_sent_at := (if accepted \<and> vc_sent_at v = None then Some now else vc_sent_at v)\<rparr>) codes)))"

definition cleanup_codes :: "int \<Rightarrow> int \<Rightarrow> vcode list \<Rightarrow> vcode list" where
  "cleanup_codes now days codes =
     filter (\<lambda>v. \<not> (vc_expires_at v < now - days * 86400)
        \<or> (vc_status v = Code_pending \<and> vc_delivery_started v \<noteq> None)) codes"

end
