(* ===== verification/DoorCodeProps.thy ===== *)
theory DoorCodeProps
  imports DoorCodes
begin

text \<open>
  Runs of the one-time codes: any interleaving of requests (each of their phases a transaction of
  its own, the first over tables it read earlier), guesses, reconciliations and clean-ups. A code
  never takes more wrong guesses than it allows, and one that has left the live states stays as it
  is. A target whose requests wait for one another has one live code per purpose and a bounded
  number of wrong guesses in the window of the failure gate; for a target nobody owns, whose
  requests take no lock, two requests that overlap leave two live codes.
\<close>

section \<open>The invariant\<close>

definition code_live :: "vcode \<Rightarrow> bool" where
  "code_live v \<longleftrightarrow> vc_status v = Code_pending \<or> vc_status v = Code_sent"

text \<open>The wrong guesses a code has taken, or may still take.\<close>

definition exposure :: "nat \<Rightarrow> vcode \<Rightarrow> nat" where
  "exposure m v = (if code_live v then m else vc_attempts v)"

definition risk :: "nat \<Rightarrow> string \<Rightarrow> int \<Rightarrow> vcode list \<Rightarrow> nat" where
  "risk m target start = sum_where (\<lambda>v. vc_target v = target \<and> start \<le> vc_created_at v) (exposure m)"

text \<open>\<open>S\<close> are the targets whose requests wait for one another.\<close>

definition single_live :: "string set \<Rightarrow> vcode list \<Rightarrow> bool" where
  "single_live S codes \<longleftrightarrow> (\<forall>v \<in> set codes. \<forall>w \<in> set codes. vc_target v \<in> S \<longrightarrow> code_live v \<longrightarrow> code_live w
     \<longrightarrow> vc_target v = vc_target w \<longrightarrow> vc_purpose v = vc_purpose w \<longrightarrow> v = w)"

definition within_budget :: "nat \<Rightarrow> vcode \<Rightarrow> bool" where
  "within_budget m v \<longleftrightarrow> vc_attempts v \<le> m \<and> (code_live v \<longrightarrow> vc_attempts v < m)"

text \<open>What a table is at any time, and what it is now.\<close>

definition table_ok :: "door_conf \<Rightarrow> string set \<Rightarrow> vcode list \<Rightarrow> bool" where
  "table_ok cf S codes \<longleftrightarrow> distinct (map vc_id codes) \<and> single_live S codes
     \<and> (\<forall>v \<in> set codes. vc_max_attempts v = dc_max_attempts cf \<and> within_budget (dc_max_attempts cf) v)"

definition codes_ok :: "door_conf \<Rightarrow> string set \<Rightarrow> int \<Rightarrow> vcode list \<Rightarrow> bool" where
  "codes_ok cf S now codes \<longleftrightarrow> table_ok cf S codes \<and> (\<forall>v \<in> set codes. vc_created_at v \<le> now)
     \<and> (\<forall>target start. target \<in> S \<longrightarrow> now - dc_failure_window cf \<le> start
          \<longrightarrow> risk (dc_max_attempts cf) target start codes < dc_max_failures cf + 3 * dc_max_attempts cf)"

lemma codes_ok_empty: "0 < dc_max_attempts cf \<Longrightarrow> codes_ok cf S now []"
  by (simp add: codes_ok_def table_ok_def single_live_def risk_def)

lemma codes_ok_later: "codes_ok cf S t codes \<Longrightarrow> t \<le> t' \<Longrightarrow> codes_ok cf S t' codes"
  by (fastforce simp: codes_ok_def)

text \<open>Rewriting rows so that none becomes live and the exposure does not grow.\<close>

definition tamed :: "nat \<Rightarrow> vcode \<Rightarrow> vcode \<Rightarrow> bool" where
  "tamed m v w \<longleftrightarrow> vc_id w = vc_id v \<and> vc_target w = vc_target v \<and> vc_purpose w = vc_purpose v
     \<and> vc_created_at w = vc_created_at v \<and> vc_expires_at w = vc_expires_at v \<and> vc_max_attempts w = vc_max_attempts v
     \<and> within_budget m w \<and> (code_live w \<longrightarrow> code_live v) \<and> exposure m w \<le> exposure m v \<and> (\<not> code_live v \<longrightarrow> w = v)"

text \<open>A guess or a failed delivery: a row that stays live keeps its status and its delivery.\<close>

definition calm :: "nat \<Rightarrow> vcode \<Rightarrow> vcode \<Rightarrow> bool" where
  "calm m v w \<longleftrightarrow> tamed m v w \<and> (code_live w \<longrightarrow> vc_status w = vc_status v \<and> vc_delivery_started w = vc_delivery_started v)"

lemma tamed_refl: "within_budget m v \<Longrightarrow> tamed m v v"
  by (simp add: tamed_def)

lemma calm_refl: "within_budget m v \<Longrightarrow> calm m v v"
  by (simp add: calm_def tamed_refl)

lemma tamed_trans:
  assumes "tamed m u v" "tamed m v w"
  shows "tamed m u w"
proof (cases "code_live u")
  case True
  with assms show ?thesis by (simp add: tamed_def)
next
  case False
  with assms(1) have "v = u" by (simp add: tamed_def)
  with assms(2) show ?thesis by simp
qed

lemma calm_trans:
  assumes "calm m u v" "calm m v w"
  shows "calm m u w"
proof -
  have "code_live v" if "code_live w" using that assms(2) by (simp add: calm_def tamed_def)
  then show ?thesis using assms tamed_trans [of m u v w] by (simp add: calm_def)
qed

lemma sum_where_map_mono:
  fixes f :: "'a \<Rightarrow> nat"
  assumes "\<forall>v \<in> set xs. P (g v) \<longrightarrow> P v \<and> f (g v) \<le> f v"
  shows "sum_where P f (map g xs) \<le> sum_where P f xs"
  using assms by (induction xs) auto

lemma table_ok_map:
  assumes ok: "table_ok cf S codes" and g: "\<forall>v \<in> set codes. tamed (dc_max_attempts cf) v (g v)"
  shows "table_ok cf S (map g codes)"
proof -
  have "vc_id (g v) = vc_id v" if "v \<in> set codes" for v using bspec [OF g that] by (simp add: tamed_def)
  then have "map vc_id (map g codes) = map vc_id codes" by simp
  then have ids: "distinct (map vc_id (map g codes))" using ok by (metis table_ok_def)
  have "g v = g w" if vw: "v \<in> set codes" "w \<in> set codes" "vc_target (g v) \<in> S" "code_live (g v)" "code_live (g w)"
      "vc_target (g v) = vc_target (g w)" "vc_purpose (g v) = vc_purpose (g w)" for v w
  proof -
    note gv = bspec [OF g vw(1)] and gw = bspec [OF g vw(2)]
    from ok have "single_live S codes" by (simp add: table_ok_def)
    moreover have "code_live v" "code_live w" "vc_target v = vc_target w" "vc_purpose v = vc_purpose w" "vc_target v \<in> S"
      using gv gw vw(3-7) by (simp_all add: tamed_def)
    ultimately have "v = w" using vw(1,2) unfolding single_live_def by blast
    then show "g v = g w" by simp
  qed
  then have "single_live S (map g codes)" unfolding single_live_def set_map by blast
  moreover have "\<forall>v \<in> set (map g codes). vc_max_attempts v = dc_max_attempts cf \<and> within_budget (dc_max_attempts cf) v"
  proof (clarsimp)
    fix v
    assume v: "v \<in> set codes"
    with ok have "vc_max_attempts v = dc_max_attempts cf" by (simp add: table_ok_def)
    with bspec [OF g v] show "vc_max_attempts (g v) = dc_max_attempts cf \<and> within_budget (dc_max_attempts cf) (g v)"
      by (simp add: tamed_def)
  qed
  ultimately show ?thesis using ids unfolding table_ok_def by blast
qed

lemma risk_map:
  assumes g: "\<forall>v \<in> set codes. tamed m v (g v)"
  shows "risk m target start (map g codes) \<le> risk m target start codes"
  unfolding risk_def
proof (intro sum_where_map_mono ballI impI)
  fix v
  assume v: "v \<in> set codes" "vc_target (g v) = target \<and> start \<le> vc_created_at (g v)"
  have "vc_target (g v) = vc_target v" "vc_created_at (g v) = vc_created_at v" "exposure m (g v) \<le> exposure m v"
    using bspec [OF g v(1)] by (simp_all add: tamed_def)
  with v(2) show "(vc_target v = target \<and> start \<le> vc_created_at v) \<and> exposure m (g v) \<le> exposure m v" by simp
qed

lemma codes_ok_map:
  assumes ok: "codes_ok cf S t codes" and g: "\<forall>v \<in> set codes. tamed (dc_max_attempts cf) v (g v)"
  shows "codes_ok cf S t (map g codes)"
proof -
  have "vc_created_at (g v) \<le> t" if "v \<in> set codes" for v
    using ok bspec [OF g that] that by (simp add: codes_ok_def tamed_def)
  then have "\<forall>v \<in> set (map g codes). vc_created_at v \<le> t" by simp
  moreover have "risk (dc_max_attempts cf) target start (map g codes) < dc_max_failures cf + 3 * dc_max_attempts cf"
    if "target \<in> S" "t - dc_failure_window cf \<le> start" for target start
    using ok that risk_map [OF g, of target start] unfolding codes_ok_def by (meson le_less_trans)
  ultimately show ?thesis using ok table_ok_map [OF _ g] by (simp add: codes_ok_def)
qed

lemma put_code_map: "put_code w codes = map (\<lambda>v. if vc_id v = vc_id w then w else v) codes"
  by (induction codes) auto

lemma put_one:
  assumes "table_ok cf S codes" "v \<in> set codes" "K v w" "vc_id w = vc_id v" "\<And>x. x \<in> set codes \<Longrightarrow> K x x"
  shows "\<forall>x \<in> set codes. K x (if vc_id x = vc_id w then w else x)"
proof
  fix x
  assume x: "x \<in> set codes"
  have "x = v" if "vc_id x = vc_id w"
    using that x assms by (auto simp: table_ok_def distinct_map inj_on_def)
  with x assms show "K x (if vc_id x = vc_id w then w else x)" by auto
qed

lemma codes_ok_put:
  assumes ok: "codes_ok cf S t codes" and v: "v \<in> set codes" and w: "tamed (dc_max_attempts cf) v w"
  shows "codes_ok cf S t (put_code w codes)"
  unfolding put_code_map
proof (rule codes_ok_map [OF ok])
  have t: "table_ok cf S codes" using ok by (simp add: codes_ok_def)
  have "vc_id w = vc_id v" using w by (simp add: tamed_def)
  moreover have "tamed (dc_max_attempts cf) x x" if "x \<in> set codes" for x
    using that t by (intro tamed_refl) (simp add: table_ok_def)
  ultimately show "\<forall>x \<in> set codes. tamed (dc_max_attempts cf) x (if vc_id x = vc_id w then w else x)"
    using put_one [where K = "tamed (dc_max_attempts cf)", OF t v w] by blast
qed

lemma calm_attempt:
  assumes "vc_max_attempts v = m" "vc_attempts v < m" "vc_status v = Code_sent"
  shows "calm m v (record_attempt v)"
  using assms by (auto simp: calm_def tamed_def within_budget_def record_attempt_def exposure_def code_live_def Let_def)

lemma calm_verified: "within_budget m v \<Longrightarrow> code_live v \<Longrightarrow> calm m v (mark_verified now c v)"
  by (auto simp: calm_def tamed_def within_budget_def mark_verified_def exposure_def code_live_def)

lemma risk_filter: "risk m target start (filter P codes) \<le> risk m target start codes"
  unfolding risk_def by (induction codes) auto

lemma codes_ok_filter: "codes_ok cf S t codes \<Longrightarrow> codes_ok cf S t (filter P codes)"
  unfolding codes_ok_def table_ok_def
  by (auto simp: distinct_map_filter single_live_def intro: le_less_trans [OF risk_filter])

section \<open>An earlier table\<close>

text \<open>Since the table \<open>T\<close> was read only guesses, failed deliveries and clean-ups touched the rows of the target.\<close>

definition quiet :: "nat \<Rightarrow> string \<Rightarrow> vcode list \<Rightarrow> vcode list \<Rightarrow> bool" where
  "quiet m target T codes \<longleftrightarrow> (\<forall>w \<in> set codes. vc_target w = target \<longrightarrow> (\<exists>v \<in> set T. calm m v w))"

lemma quiet_refl: "table_ok cf S codes \<Longrightarrow> quiet (dc_max_attempts cf) target codes codes"
  by (auto simp: quiet_def table_ok_def intro: calm_refl)

lemma quiet_map:
  assumes "quiet m target T codes" "\<forall>v \<in> set codes. calm m v (g v)"
  shows "quiet m target T (map g codes)"
proof -
  have "\<exists>u \<in> set T. calm m u (g v)" if v: "v \<in> set codes" "vc_target (g v) = target" for v
  proof -
    note g = bspec [OF assms(2) v(1)]
    then have "vc_target v = target" using v(2) by (simp add: calm_def tamed_def)
    with assms(1) v(1) obtain u where "u \<in> set T" "calm m u v" by (auto simp: quiet_def)
    with calm_trans [OF this(2) g] show ?thesis by blast
  qed
  then show ?thesis unfolding quiet_def set_map by blast
qed

lemma quiet_sub: "quiet m target T codes \<Longrightarrow> \<forall>w \<in> set codes'. vc_target w = target \<longrightarrow> w \<in> set codes \<Longrightarrow> quiet m target T codes'"
  by (auto simp: quiet_def)

lemma sum_where_set:
  fixes f :: "'a \<Rightarrow> nat"
  shows "distinct xs \<Longrightarrow> sum_where P f xs = sum f {x \<in> set xs. P x}"
proof (induction xs)
  case (Cons x xs)
  have "{y \<in> set (x # xs). P y} = (if P x then insert x {y \<in> set xs. P y} else {y \<in> set xs. P y})" by auto
  with Cons show ?case by simp
qed simp

lemma quiet_risk:
  assumes "quiet m target T codes" "distinct (map vc_id T)" "distinct (map vc_id codes)"
  shows "risk m target start codes \<le> risk m target start T"
proof -
  let ?P = "\<lambda>v. vc_target v = target \<and> start \<le> vc_created_at v"
  let ?A = "{v \<in> set codes. ?P v}" and ?B = "{v \<in> set T. ?P v}"
  define h where "h w = (SOME v. v \<in> set T \<and> calm m v w)" for w
  have h: "h w \<in> set T \<and> calm m (h w) w" if "w \<in> ?A" for w
    using that assms(1) someI_ex [of "\<lambda>v. v \<in> set T \<and> calm m v w"] by (auto simp: quiet_def h_def)
  have "inj_on h ?A"
  proof (rule inj_onI)
    fix v w assume vw: "v \<in> ?A" "w \<in> ?A" "h v = h w"
    then have "vc_id v = vc_id w" using h [of v] h [of w] by (simp add: calm_def tamed_def)
    with vw(1,2) assms(3) show "v = w" by (auto simp: distinct_map inj_on_def)
  qed
  moreover have "h ` ?A \<subseteq> ?B"
  proof
    fix v assume "v \<in> h ` ?A"
    then obtain w where w: "w \<in> ?A" "v = h w" by blast
    with h [OF w(1)] show "v \<in> ?B" by (simp add: calm_def tamed_def)
  qed
  moreover have "sum (exposure m) ?A \<le> sum (\<lambda>w. exposure m (h w)) ?A"
  proof (rule sum_mono)
    fix w assume "w \<in> ?A"
    from h [OF this] show "exposure m w \<le> exposure m (h w)" by (simp add: calm_def tamed_def)
  qed
  ultimately have "sum (exposure m) ?A \<le> sum (exposure m) ?B"
    using sum.reindex [of h ?A "exposure m"] sum_mono2 [of ?B "h ` ?A" "exposure m"] by simp
  then show ?thesis using assms(2,3) by (simp add: risk_def sum_where_set distinct_map)
qed

section \<open>A new code\<close>

definition tables_read :: "door_reads \<Rightarrow> vcode list set" where
  "tables_read seen = {rd_rate seen, rd_failures seen, rd_cooldown seen, rd_pending seen, rd_ip seen, rd_flight seen, rd_previous seen}"

lemma prepare_Inr:
  assumes "prepare_code cf port seen now pk digest rq codes = Inr (v, codes')"
    and "target = snd (ip_handle port (cr_target rq))" "p = cr_purpose rq"
  shows "(\<exists>customer. v = new_code cf now pk digest (ip_handle port (cr_target rq)) rq customer)
    \<and> failure_limit cf (rd_at seen) target (rd_failures seen) \<and> (\<forall>c \<in> set (rd_flight seen). \<not> in_flight target p c) \<and> pk \<notin> vc_id ` set codes
    \<and> codes' = expire_previous target p (rd_previous seen) codes @ [v]"
proof -
  let ?h = "ip_handle port (cr_target rq)"
  from assms(1) obtain hint customer where r: "owner_hint port p ?h (cr_customer rq) = Inr hint" "revalidate port p ?h hint = Inr customer"
    unfolding prepare_code_def Let_def assms(3) [symmetric] by (auto simp: ebind_Inr if_Inl_Inr)
  note step = assms(1) [unfolded prepare_code_def Let_def, folded assms(2,3), unfolded r, simplified]
  show ?thesis
  proof (cases "code_cooldown cf (rd_at seen) target (rd_cooldown seen)")
    case None
    with step r show ?thesis by (simp add: if_Inl_Inr) blast
  next
    case (Some w)
    with step r show ?thesis by (simp add: if_Inl_Inr)
  qed
qed

lemma risk_one_live:
  assumes "distinct codes" "\<forall>v \<in> set codes. \<forall>w \<in> set codes. P v \<and> code_live v \<longrightarrow> P w \<and> code_live w \<longrightarrow> v = w"
  shows "sum_where P (exposure m) codes \<le> sum_where P vc_attempts codes + m"
  using assms
proof (induction codes)
  case (Cons v codes)
  show ?case
  proof (cases "P v \<and> code_live v")
    case True
    with Cons.prems have "\<forall>w \<in> set codes. P w \<longrightarrow> \<not> code_live w" by auto
    then have "sum_where P (exposure m) codes = sum_where P vc_attempts codes"
      by (intro sum_where_cong) (auto simp: exposure_def)
    moreover have "exposure m v = m" using True by (simp add: exposure_def)
    ultimately show ?thesis using True by simp
  next
    case False
    then have "P v \<Longrightarrow> exposure m v = vc_attempts v" by (simp add: exposure_def)
    with Cons show ?thesis by simp
  qed
qed simp

text \<open>Two purposes, so at most two live codes of a target.\<close>

lemma risk_table:
  assumes ok: "table_ok cf S T" and "target \<in> S"
  shows "risk m target start T \<le> code_failures target start T + 2 * m"
proof -
  let ?P = "\<lambda>v. vc_target v = target \<and> start \<le> vc_created_at v" and ?L = "\<lambda>v. vc_purpose v = Login"
  have dist: "distinct T" using ok by (auto simp: table_ok_def distinct_map)
  have sole: "v = w" if "v \<in> set T" "w \<in> set T" "?P v" "?P w" "code_live v" "code_live w" "vc_purpose v = vc_purpose w" for v w
    using ok that assms(2) unfolding table_ok_def single_live_def by metis
  have other: "v = w" if "\<not> ?L v" "\<not> ?L w" "v \<in> set T" "w \<in> set T" "?P v" "?P w" "code_live v" "code_live w" for v w
    using that by (intro sole) (cases "vc_purpose v"; cases "vc_purpose w"; simp)+
  have "risk m target start T = sum_where (\<lambda>v. ?P v \<and> ?L v) (exposure m) T + sum_where (\<lambda>v. ?P v \<and> \<not> ?L v) (exposure m) T"
    unfolding risk_def by (rule sum_where_split)
  also have "\<dots> \<le> (sum_where (\<lambda>v. ?P v \<and> ?L v) vc_attempts T + m) + (sum_where (\<lambda>v. ?P v \<and> \<not> ?L v) vc_attempts T + m)"
  proof (rule add_mono; rule risk_one_live [OF dist])
    show "\<forall>v \<in> set T. \<forall>w \<in> set T. (?P v \<and> ?L v) \<and> code_live v \<longrightarrow> (?P w \<and> ?L w) \<and> code_live w \<longrightarrow> v = w"
      using sole by simp
    show "\<forall>v \<in> set T. \<forall>w \<in> set T. (?P v \<and> \<not> ?L v) \<and> code_live v \<longrightarrow> (?P w \<and> \<not> ?L w) \<and> code_live w \<longrightarrow> v = w"
      using other by simp
  qed
  also have "\<dots> = code_failures target start T + 2 * m"
    unfolding code_failures_def using sum_where_split [of ?P vc_attempts T ?L] by simp
  finally show ?thesis .
qed

lemma window_mono: "start' \<le> start \<Longrightarrow> code_failures target start codes \<le> code_failures target start' codes"
  unfolding code_failures_def by (induction codes) auto

text \<open>The live codes of a serialised target are all expired by the update.\<close>

lemma previous_dead:
  assumes "quiet m target F codes" "quiet m target T codes" "\<forall>c \<in> set F. \<not> in_flight target p c"
    and "c \<in> set (expire_previous target p T codes)" "vc_target c = target" "vc_purpose c = p"
  shows "\<not> code_live c"
proof
  assume live: "code_live c"
  obtain c0 where c0: "c0 \<in> set codes" "c = (if superseded target p c0 \<and> vc_id c0 \<in> vc_id ` set (filter (superseded target p) T)
      then c0\<lparr>vc_status := Code_expired\<rparr> else c0)"
    using assms(4) by (auto simp: expire_previous_def)
  with live have kept: "c = c0" "\<not> (superseded target p c0 \<and> vc_id c0 \<in> vc_id ` set (filter (superseded target p) T))"
    by (auto simp: code_live_def split: if_splits)
  then have here: "vc_target c0 = target" "vc_purpose c0 = p" "code_live c0" using assms(5,6) live by simp_all
  obtain f where f: "f \<in> set F" "calm m f c0" using assms(1) c0(1) here(1) by (auto simp: quiet_def)
  obtain v where v: "v \<in> set T" "calm m v c0" using assms(2) c0(1) here(1) by (auto simp: quiet_def)
  have "\<not> in_flight target p f" using assms(3) f(1) by blast
  moreover have "vc_status f = vc_status c0" "vc_delivery_started f = vc_delivery_started c0" "vc_target f = target" "vc_purpose f = p"
    using f(2) here by (simp_all add: calm_def tamed_def)
  ultimately have sup: "superseded target p c0" using here by (auto simp: in_flight_def superseded_def code_live_def)
  have "vc_status v = vc_status c0" "vc_delivery_started v = vc_delivery_started c0" "vc_target v = target" "vc_purpose v = p"
    "vc_id v = vc_id c0" using v(2) here by (simp_all add: calm_def tamed_def)
  with sup have "superseded target p v" "vc_id v = vc_id c0" by (simp_all add: superseded_def)
  then have "v \<in> set (filter (superseded target p) T)" using v(1) by simp
  from imageI [OF this, of vc_id] kept(2) sup \<open>vc_id v = vc_id c0\<close> show False by simp
qed

lemma expire_tamed:
  assumes "table_ok cf S codes" "v \<in> set codes"
  shows "tamed (dc_max_attempts cf) v (if superseded target p v \<and> B then v\<lparr>vc_status := Code_expired\<rparr> else v)"
proof -
  have "within_budget (dc_max_attempts cf) v" using assms by (simp add: table_ok_def)
  then show ?thesis by (auto simp: tamed_def within_budget_def superseded_def exposure_def code_live_def)
qed

lemma prepare_ok:
  assumes ok: "codes_ok cf S now codes" and positive: "0 < dc_max_attempts cf" and early: "rd_at seen \<le> now"
    and prep: "prepare_code cf port seen now pk digest rq codes = Inr (v, codes')"
    and views: "\<And>T. T \<in> tables_read seen \<Longrightarrow> vc_target v \<in> S \<Longrightarrow> table_ok cf S T \<and> quiet (dc_max_attempts cf) (vc_target v) T codes"
  shows "codes_ok cf S now codes'"
proof -
  let ?M = "dc_max_attempts cf" and ?p = "cr_purpose rq"
  define target where "target = snd (ip_handle port (cr_target rq))"
  obtain customer where v: "v = new_code cf now pk digest (ip_handle port (cr_target rq)) rq customer"
    and gate: "failure_limit cf (rd_at seen) target (rd_failures seen)"
    and free: "\<forall>c \<in> set (rd_flight seen). \<not> in_flight target ?p c" and pk: "pk \<notin> vc_id ` set codes"
    and new: "codes' = expire_previous target ?p (rd_previous seen) codes @ [v]"
    using prepare_Inr [OF prep target_def refl] by blast
  define olds where "olds = expire_previous target ?p (rd_previous seen) codes"
  have row: "vc_id v = pk" "vc_target v = target" "vc_purpose v = ?p" "vc_max_attempts v = ?M" "vc_attempts v = 0"
    "vc_created_at v = now" "code_live v"
    by (simp_all add: v new_code_def target_def code_live_def)
  have tab: "table_ok cf S codes" using ok by (simp add: codes_ok_def)
  have ok1: "codes_ok cf S now olds" unfolding olds_def expire_previous_def
    by (rule codes_ok_map [OF ok]) (use expire_tamed [OF tab] in blast)
  have seen: "table_ok cf S T \<and> quiet ?M target T codes" if "T \<in> {rd_failures seen, rd_flight seen, rd_previous seen}" "target \<in> S" for T
    using views [of T] that row(2) by (auto simp: tables_read_def)
  have dead: "\<not> code_live c" if c: "c \<in> set olds" "vc_target c = target" "vc_purpose c = ?p" "target \<in> S" for c
    using previous_dead [OF _ _ free c(1) [unfolded olds_def] c(2,3)] seen [OF _ c(4)] by blast
  have ids: "map vc_id olds = map vc_id codes" by (simp add: olds_def expire_previous_def)
  have "distinct (map vc_id (olds @ [v]))" using tab pk row(1) by (simp add: table_ok_def ids)
  moreover have "single_live S (olds @ [v])"
    using ok1 dead row unfolding codes_ok_def table_ok_def single_live_def by (fastforce simp: ball_Un)
  moreover have "risk ?M x start (olds @ [v]) < dc_max_failures cf + 3 * ?M"
    if x: "x \<in> S" and start: "now - dc_failure_window cf \<le> start" for x start
  proof (cases "x = target \<and> start \<le> now")
    case False
    then have "risk ?M x start (olds @ [v]) = risk ?M x start olds" using row by (auto simp: risk_def)
    with ok1 x start show ?thesis by (simp add: codes_ok_def)
  next
    case True
    let ?T = "rd_failures seen"
    have T: "table_ok cf S ?T" "quiet ?M target ?T codes" and S: "target \<in> S" using seen True x by auto
    have "risk ?M target start olds \<le> risk ?M target start codes"
      unfolding olds_def expire_previous_def by (rule risk_map) (use expire_tamed [OF tab] in blast)
    also have "\<dots> \<le> risk ?M target start ?T" using T tab by (intro quiet_risk) (simp_all add: table_ok_def)
    also have "\<dots> \<le> code_failures target start ?T + 2 * ?M" by (rule risk_table [OF T(1) S])
    also have "code_failures target start ?T \<le> code_failures target (rd_at seen - dc_failure_window cf) ?T"
      using early start by (intro window_mono) simp
    also have "\<dots> < dc_max_failures cf" using gate by (simp add: failure_limit_def)
    finally show ?thesis using True row by (simp add: risk_def exposure_def)
  qed
  moreover have "within_budget ?M v" using row positive by (simp add: within_budget_def)
  ultimately show ?thesis using ok1 row unfolding new codes_ok_def table_ok_def olds_def [symmetric] by auto
qed

section \<open>Runs\<close>

text \<open>
  The door at an instant: the table, and every table committed so far with the targets a locked
  transaction wrote since. The transactions that hold the row of the customer of their code are the
  three phases of a request and a reconciliation; guesses are not counted among them, the failure of
  an undelivered code and the clean-up lock nothing.
\<close>

record door =
  dr_now :: int
  dr_codes :: "vcode list"
  dr_views :: "(vcode list \<times> string set) list"

definition door_init :: "int \<Rightarrow> door" where
  "door_init t = \<lparr>dr_now = t, dr_codes = [], dr_views = [([], {})]\<rparr>"

definition written :: "vcode list \<Rightarrow> vcode list \<Rightarrow> string set" where
  "written codes codes' = vc_target ` (set codes' - set codes)"

definition commits :: "bool \<Rightarrow> vcode list \<Rightarrow> door \<Rightarrow> door" where
  "commits locked codes' w = w\<lparr>dr_codes := codes',
     dr_views := (codes', {}) # map (\<lambda>(T, ts). (T, if locked then ts \<union> written (dr_codes w) codes' else ts)) (dr_views w)\<rparr>"

text \<open>
  Every interleaving of the transactions; \<open>cf\<close> stays what it is through the run. A request reads any
  tables committed before it; for a target in \<open>S\<close>, whose requests wait for the row of one customer,
  they are tables since which no locked transaction wrote a code of that target.
\<close>

inductive door_step :: "door_conf \<Rightarrow> string set \<Rightarrow> door \<Rightarrow> door \<Rightarrow> bool" for cf S where
  Waited: "dr_now w \<le> now \<Longrightarrow> door_step cf S w (w\<lparr>dr_now := now\<rparr>)"
| Prepared: "prepare_code cf port seen (dr_now w) pk digest rq (dr_codes w) = Inr (v, codes') \<Longrightarrow> rd_at seen \<le> dr_now w \<Longrightarrow>
    \<forall>T \<in> tables_read seen. \<exists>ts. (T, ts) \<in> set (dr_views w) \<and> (vc_target v \<in> S \<longrightarrow> vc_target v \<notin> ts) \<Longrightarrow>
    door_step cf S w (commits True codes' w)"
| Fenced: "fence_code port (dr_now w) p h customer pk (dr_codes w) = (codes', e) \<Longrightarrow> door_step cf S w (commits True codes' w)"
| Undelivered: "door_step cf S w (commits False (fail_pending pk (dr_codes w)) w)"
| Delivered: "finish_delivery port (dr_now w) p h customer pk how (dr_codes w) = (codes', r) \<Longrightarrow>
    door_step cf S w (commits True codes' w)"
| Guessed_login: "verify_for_login hmac port (dr_now w) raw input seen (dr_codes w) = (codes', r1) \<Longrightarrow>
    door_step cf S w (commits False codes' w)"
| Guessed_contact: "verify_contact_code hmac port (dr_now w) raw input c (dr_codes w) = (codes', r2) \<Longrightarrow>
    door_step cf S w (commits False codes' w)"
| Reconciled: "reconcile_delivery port (dr_now w) pk accepted evidence (dr_codes w) = Inr codes' \<Longrightarrow>
    door_step cf S w (commits True codes' w)"
| Cleaned: "0 \<le> days \<Longrightarrow> door_step cf S w (commits False (cleanup_codes (dr_now w) days (dr_codes w)) w)"

abbreviation door_run :: "door_conf \<Rightarrow> string set \<Rightarrow> door \<Rightarrow> door \<Rightarrow> bool" where
  "door_run cf S \<equiv> (door_step cf S)\<^sup>*\<^sup>*"

definition views_ok :: "door_conf \<Rightarrow> string set \<Rightarrow> door \<Rightarrow> bool" where
  "views_ok cf S w \<longleftrightarrow> (\<forall>(T, ts) \<in> set (dr_views w). table_ok cf S T
     \<and> (\<forall>target \<in> S - ts. quiet (dc_max_attempts cf) target T (dr_codes w)))"

definition door_ok :: "door_conf \<Rightarrow> string set \<Rightarrow> door \<Rightarrow> bool" where
  "door_ok cf S w \<longleftrightarrow> codes_ok cf S (dr_now w) (dr_codes w) \<and> views_ok cf S w"

lemma commits_simps [simp]: "dr_now (commits b codes w) = dr_now w" "dr_codes (commits b codes w) = codes"
  by (simp_all add: commits_def)

lemma door_ok_init: "0 < dc_max_attempts cf \<Longrightarrow> door_ok cf S (door_init t)"
  using codes_ok_empty [of cf S t] by (simp add: door_ok_def views_ok_def door_init_def codes_ok_def quiet_def)

text \<open>Commits that keep the earlier tables what they are.\<close>

lemma locked_ok:
  assumes "door_ok cf S w" "codes_ok cf S (dr_now w) codes'"
  shows "door_ok cf S (commits True codes' w)"
proof -
  have t: "table_ok cf S codes'" using assms(2) by (simp add: codes_ok_def)
  have "quiet (dc_max_attempts cf) target T codes'"
    if "(T, ts) \<in> set (dr_views w)" "target \<in> S" "target \<notin> ts" "target \<notin> written (dr_codes w) codes'" for T ts target
  proof -
    have "quiet (dc_max_attempts cf) target T (dr_codes w)" using assms(1) that(1-3) by (fastforce simp: door_ok_def views_ok_def)
    moreover have "\<forall>x \<in> set codes'. vc_target x = target \<longrightarrow> x \<in> set (dr_codes w)" using that(4) by (auto simp: written_def)
    ultimately show ?thesis by (rule quiet_sub)
  qed
  moreover have "table_ok cf S T" if "(T, ts) \<in> set (dr_views w)" for T ts
    using assms(1) that by (fastforce simp: door_ok_def views_ok_def)
  ultimately show ?thesis using assms(2) t quiet_refl [OF t] by (auto simp: door_ok_def views_ok_def commits_def)
qed

lemma unlocked_ok:
  assumes "door_ok cf S w" "codes_ok cf S (dr_now w) codes'"
    and "\<And>T target. quiet (dc_max_attempts cf) target T (dr_codes w) \<Longrightarrow> quiet (dc_max_attempts cf) target T codes'"
  shows "door_ok cf S (commits False codes' w)"
proof -
  have t: "table_ok cf S codes'" using assms(2) by (simp add: codes_ok_def)
  have "table_ok cf S T \<and> (\<forall>target \<in> S - ts. quiet (dc_max_attempts cf) target T codes')" if "(T, ts) \<in> set (dr_views w)" for T ts
    using assms(1,3) that by (fastforce simp: door_ok_def views_ok_def)
  then show ?thesis using assms(2) t quiet_refl [OF t] by (auto simp: door_ok_def views_ok_def commits_def)
qed

text \<open>A step that makes no code rewrites one live row, drops rows or changes nothing.\<close>

definition one_row :: "(vcode \<Rightarrow> vcode \<Rightarrow> bool) \<Rightarrow> vcode list \<Rightarrow> vcode list \<Rightarrow> bool" where
  "one_row K codes codes' \<longleftrightarrow> codes' = codes \<or> (\<exists>v \<in> set codes. \<exists>w. code_live v \<and> K v w \<and> codes' = put_code w codes)"

lemma one_row_refl [simp]: "one_row K codes codes"
  by (simp add: one_row_def)

lemma one_row_calm: "one_row (calm m) codes codes' \<Longrightarrow> one_row (tamed m) codes codes'"
  by (auto simp: one_row_def calm_def)

lemma one_row_ok: "codes_ok cf S t codes \<Longrightarrow> one_row (tamed (dc_max_attempts cf)) codes codes' \<Longrightarrow> codes_ok cf S t codes'"
  using codes_ok_put unfolding one_row_def by blast

lemma one_row_quiet:
  assumes "codes_ok cf S t codes" "one_row (calm (dc_max_attempts cf)) codes codes'" "quiet (dc_max_attempts cf) target T codes"
  shows "quiet (dc_max_attempts cf) target T codes'"
proof (cases "codes' = codes")
  case False
  then obtain v w where v: "v \<in> set codes" "calm (dc_max_attempts cf) v w" "codes' = put_code w codes"
    using assms(2) by (auto simp: one_row_def)
  have t: "table_ok cf S codes" using assms(1) by (simp add: codes_ok_def)
  have "vc_id w = vc_id v" using v(2) by (simp add: calm_def tamed_def)
  moreover have "calm (dc_max_attempts cf) x x" if "x \<in> set codes" for x using that t by (intro calm_refl) (simp add: table_ok_def)
  ultimately have "\<forall>x \<in> set codes. calm (dc_max_attempts cf) x (if vc_id x = vc_id w then w else x)"
    using put_one [where K = "calm (dc_max_attempts cf)", OF t v(1,2)] by blast
  then show ?thesis unfolding v(3) put_code_map by (rule quiet_map [OF assms(3)])
qed (use assms(3) in simp)

lemma locked_row: "door_ok cf S w \<Longrightarrow> one_row (tamed (dc_max_attempts cf)) (dr_codes w) codes' \<Longrightarrow> door_ok cf S (commits True codes' w)"
  using locked_ok one_row_ok unfolding door_ok_def by blast

lemma unlocked_row:
  assumes "door_ok cf S w" "one_row (calm (dc_max_attempts cf)) (dr_codes w) codes'"
  shows "door_ok cf S (commits False codes' w)"
proof (rule unlocked_ok [OF assms(1)])
  have ok: "codes_ok cf S (dr_now w) (dr_codes w)" using assms(1) by (simp add: door_ok_def)
  then show "codes_ok cf S (dr_now w) codes'" using one_row_calm [OF assms(2)] by (rule one_row_ok)
  show "\<And>T target. quiet (dc_max_attempts cf) target T (dr_codes w) \<Longrightarrow> quiet (dc_max_attempts cf) target T codes'"
    by (rule one_row_quiet [OF ok assms(2)])
qed

lemma get_code_in: "get_code pk codes = Some v \<Longrightarrow> v \<in> set codes \<and> vc_id v = pk"
  using row_get_SomeD by metis

lemma tamed_pending:
  assumes "vc_status v = Code_pending" "within_budget m v" "vc_id w = vc_id v" "vc_target w = vc_target v" "vc_purpose w = vc_purpose v"
    "vc_created_at w = vc_created_at v" "vc_expires_at w = vc_expires_at v" "vc_max_attempts w = vc_max_attempts v" "vc_attempts w = vc_attempts v"
  shows "code_live v \<and> tamed m v w"
  using assms by (auto simp: tamed_def within_budget_def code_live_def exposure_def)

lemma fail_pending_ok:
  assumes "codes_ok cf S t codes"
  shows "one_row (calm (dc_max_attempts cf)) codes (fail_pending pk codes)"
proof (cases "\<exists>v \<in> set codes. vc_id v = pk \<and> vc_status v = Code_pending")
  case False
  then have "fail_pending pk codes = codes" by (auto simp: fail_pending_def intro: map_idI)
  then show ?thesis by simp
next
  case True
  then obtain v where v: "v \<in> set codes" "vc_id v = pk" "vc_status v = Code_pending" by blast
  let ?w = "v\<lparr>vc_status := Code_failed\<rparr>"
  have ids: "distinct (map vc_id codes)" using assms by (simp add: codes_ok_def table_ok_def)
  have "(if vc_id x = pk \<and> vc_status x = Code_pending then x\<lparr>vc_status := Code_failed\<rparr> else x) = (if vc_id x = vc_id ?w then ?w else x)"
    if "x \<in> set codes" for x
  proof (cases "vc_id x = pk")
    case True
    with that v ids have "x = v" by (metis distinct_map inj_onD)
    with v show ?thesis by simp
  qed (use v in simp)
  then have "fail_pending pk codes = put_code ?w codes" unfolding fail_pending_def put_code_map by (intro map_cong refl)
  moreover have "within_budget (dc_max_attempts cf) v" using v(1) assms by (simp add: codes_ok_def table_ok_def)
  from tamed_pending [OF v(3) this, of ?w] have "code_live v \<and> calm (dc_max_attempts cf) v ?w" by (simp add: calm_def code_live_def)
  ultimately show ?thesis using v(1) unfolding one_row_def by blast
qed

lemma put_pending_ok:
  assumes "codes_ok cf S t codes" "get_code pk codes = Some v" "vc_status v = Code_pending"
    and "vc_id w = vc_id v" "vc_target w = vc_target v" "vc_purpose w = vc_purpose v" "vc_created_at w = vc_created_at v"
    "vc_expires_at w = vc_expires_at v" "vc_max_attempts w = vc_max_attempts v" "vc_attempts w = vc_attempts v"
  shows "one_row (tamed (dc_max_attempts cf)) codes (put_code w codes)"
proof -
  have v: "v \<in> set codes" using get_code_in assms(2) by blast
  then have "within_budget (dc_max_attempts cf) v" using assms(1) by (simp add: codes_ok_def table_ok_def)
  with tamed_pending [OF assms(3) this] assms v show ?thesis unfolding one_row_def by blast
qed

lemma fence_row:
  assumes "codes_ok cf S t codes" "fence_code port now p h customer pk codes = (codes', e)"
  shows "one_row (tamed (dc_max_attempts cf)) codes codes'"
  using assms(2) one_row_calm [OF fail_pending_ok [OF assms(1), of pk]] put_pending_ok [OF assms(1), of pk]
  by (auto simp: fence_code_def split: sum.splits option.splits if_splits)

lemma delivery_row:
  assumes "codes_ok cf S t codes" "finish_delivery port now p h customer pk how codes = (codes', r)"
  shows "one_row (tamed (dc_max_attempts cf)) codes codes'"
  using assms(2) one_row_calm [OF fail_pending_ok [OF assms(1), of pk]] put_pending_ok [OF assms(1), of pk]
  by (auto simp: finish_delivery_def Let_def split: sum.splits option.splits if_splits)

lemma reconcile_row:
  assumes "codes_ok cf S t codes" "reconcile_delivery port now pk accepted evidence codes = Inr codes'"
  shows "one_row (tamed (dc_max_attempts cf)) codes codes'"
proof -
  obtain v where v: "get_code pk codes = Some v" "vc_status v = Code_pending"
    using assms(2) by (auto simp: reconcile_delivery_def if_Inl_Inr split: option.splits if_splits)
  with assms(2) have "\<exists>w. codes' = put_code w codes \<and> vc_id w = vc_id v \<and> vc_target w = vc_target v \<and> vc_purpose w = vc_purpose v
      \<and> vc_created_at w = vc_created_at v \<and> vc_expires_at w = vc_expires_at v \<and> vc_max_attempts w = vc_max_attempts v
      \<and> vc_attempts w = vc_attempts v"
    by (auto simp: reconcile_delivery_def Let_def if_Inl_Inr ebind_Inr)
  with put_pending_ok [OF assms(1) v] show ?thesis by blast
qed

text \<open>The three outcomes of a guess.\<close>

lemma use_login_cases:
  assumes "use_login_code hmac port now h customer input v codes = (codes', r)" "vc_customer v \<noteq> None \<longrightarrow> customer = vc_customer v"
  shows "codes' = codes \<and> (\<exists>e. r = Inl e)
    \<or> \<not> code_verify hmac now input v \<and> codes' = put_code (record_attempt v) codes
      \<and> r = Inl (if vc_max_attempts v \<le> vc_attempts v + 1 then Door_max_attempts else Door_code_invalid (vc_max_attempts v - (vc_attempts v + 1)))
    \<or> code_verify hmac now input v \<and> (\<exists>c created. codes' = put_code (mark_verified now c v) codes \<and> r = Inr (c, created)
        \<and> (vc_customer v \<noteq> None \<longrightarrow> \<not> created \<and> ip_bind port (the (vc_customer v)) h (vc_method v) = Inr c))"
proof (cases "code_verify hmac now input v")
  case False
  with assms(1) show ?thesis by (auto simp: use_login_code_def attempts_remaining_def record_attempt_def Let_def)
next
  case True
  show ?thesis
  proof (cases "login_customer port h customer (vc_method v)")
    case (Inl e)
    with True assms(1) have "codes' = codes \<and> r = Inl e" by (simp add: use_login_code_def)
    then show ?thesis by blast
  next
    case (Inr x)
    obtain c created where x: "x = (c, created)" by (cases x)
    have bound: "\<not> created \<and> ip_bind port (the (vc_customer v)) h (vc_method v) = Inr c" if "vc_customer v \<noteq> None"
    proof -
      from that assms(2) obtain c0 where "vc_customer v = Some c0" "customer = Some c0" by auto
      with Inr x show ?thesis by (simp add: login_customer_def split: sum.splits)
    qed
    have "codes' = put_code (mark_verified now c v) codes" "r = Inr (c, created)"
      using True assms(1) Inr x by (simp_all add: use_login_code_def)
    with True bound show ?thesis by blast
  qed
qed

definition login_code :: "identity_port \<Rightarrow> string \<Rightarrow> int \<Rightarrow> vcode list \<Rightarrow> vcode \<Rightarrow> bool" where
  "login_code port raw now codes v \<longleftrightarrow> v \<in> set codes \<and> vc_target v = snd (ip_handle port raw) \<and> vc_purpose v = Login
     \<and> vc_status v = Code_sent \<and> now < vc_expires_at v"

lemma login_cases:
  assumes "verify_for_login hmac port now raw input seen codes = (codes', r)"
  shows "codes' = codes \<and> (\<exists>e. r = Inl e)
    \<or> (\<exists>v customer. login_code port raw now codes v \<and> (vc_customer v \<noteq> None \<longrightarrow> customer = vc_customer v)
         \<and> use_login_code hmac port now (ip_handle port raw) customer input v codes = (codes', r))"
proof -
  let ?h = "ip_handle port raw"
  have Inl: ?thesis if "(codes, Inl e) = (codes', r)" for e using that by auto
  note run = assms [unfolded verify_for_login_def Let_def]
  show ?thesis
  proof (cases "snd ?h = []")
    case True
    with run show ?thesis by auto
  next
    case t: False
    show ?thesis
    proof (cases "latest_valid_code now (snd ?h) Login seen")
      case None
      with run t show ?thesis by auto
    next
      case hint: (Some hint)
      show ?thesis
      proof (cases "login_owner port ?h (vc_customer hint)")
        case (Inl e)
        with run t hint show ?thesis by auto
      next
        case owner: (Inr customer)
        let ?f = "find (\<lambda>v. vc_id v = vc_id hint \<and> vc_target v = snd ?h \<and> vc_purpose v = Login
                  \<and> vc_status v = Code_sent \<and> now < vc_expires_at v) codes"
        show ?thesis
        proof (cases ?f)
          case None
          with run t hint owner show ?thesis by auto
        next
          case v: (Some v)
          then have row: "login_code port raw now codes v" by (auto simp: login_code_def find_Some_iff)
          show ?thesis
          proof (cases "vc_customer v \<noteq> None \<and> customer \<noteq> vc_customer v")
            case True
            with run t hint owner v show ?thesis by auto
          next
            case False
            with run t hint owner v have "use_login_code hmac port now ?h customer input v codes = (codes', r)"
              by (auto split: if_splits)
            with row False show ?thesis by blast
          qed
        qed
      qed
    qed
  qed
qed

lemma sent_rows:
  assumes "codes_ok cf S t codes" "v \<in> set codes" "vc_status v = Code_sent"
  shows "one_row (calm (dc_max_attempts cf)) codes (put_code (record_attempt v) codes)"
    "one_row (calm (dc_max_attempts cf)) codes (put_code (mark_verified now c v) codes)"
proof -
  have live: "code_live v" using assms(3) by (simp add: code_live_def)
  have v: "vc_max_attempts v = dc_max_attempts cf" "within_budget (dc_max_attempts cf) v"
    using assms(1,2) by (simp_all add: codes_ok_def table_ok_def)
  then have "calm (dc_max_attempts cf) v (record_attempt v)" using live assms(3) by (intro calm_attempt) (simp_all add: within_budget_def)
  with live assms(2) show "one_row (calm (dc_max_attempts cf)) codes (put_code (record_attempt v) codes)" unfolding one_row_def by blast
  from calm_verified [OF v(2) live] live assms(2)
  show "one_row (calm (dc_max_attempts cf)) codes (put_code (mark_verified now c v) codes)" unfolding one_row_def by blast
qed

lemma login_row:
  assumes "codes_ok cf S t codes" "verify_for_login hmac port now raw input seen codes = (codes', r)"
  shows "one_row (calm (dc_max_attempts cf)) codes codes'"
  using login_cases [OF assms(2)]
proof
  assume "\<exists>v customer. login_code port raw now codes v \<and> (vc_customer v \<noteq> None \<longrightarrow> customer = vc_customer v)
         \<and> use_login_code hmac port now (ip_handle port raw) customer input v codes = (codes', r)"
  then obtain v customer where v: "login_code port raw now codes v" "vc_customer v \<noteq> None \<longrightarrow> customer = vc_customer v"
    "use_login_code hmac port now (ip_handle port raw) customer input v codes = (codes', r)" by blast
  then have "v \<in> set codes" "vc_status v = Code_sent" by (simp_all add: login_code_def)
  with use_login_cases [OF v(3,2)] sent_rows [OF assms(1)] show ?thesis by auto
qed simp

lemma contact_row:
  assumes "codes_ok cf S t codes" "verify_contact_code hmac port now raw input c codes = (codes', r)"
  shows "one_row (calm (dc_max_attempts cf)) codes codes'"
proof (cases "codes' = codes")
  case False
  with assms(2) obtain v where v: "latest_valid_code now (snd (ip_handle port raw)) Verify_contact codes = Some v"
    "codes' = put_code (record_attempt v) codes \<or> codes' = put_code (mark_verified now c v) codes"
    by (auto simp: verify_contact_code_def Let_def split: if_splits option.splits)
  then have "v \<in> set codes" "vc_status v = Code_sent" using latest_Some by (fastforce simp: latest_valid_code_def)+
  with v(2) sent_rows [OF assms(1)] show ?thesis by auto
qed simp

lemma door_step_ok:
  assumes "door_step cf S w w'" "door_ok cf S w" "0 < dc_max_attempts cf"
  shows "door_ok cf S w'"
  using assms
proof (induction rule: door_step.induct)
  case (Waited w now)
  then show ?case using codes_ok_later [of cf S "dr_now w" "dr_codes w" now] by (simp add: door_ok_def views_ok_def)
next
  case (Prepared port seen w pk digest rq v codes')
  have "table_ok cf S T \<and> quiet (dc_max_attempts cf) (vc_target v) T (dr_codes w)" if "T \<in> tables_read seen" "vc_target v \<in> S" for T
  proof -
    from Prepared.hyps(3) that obtain ts where "(T, ts) \<in> set (dr_views w)" "vc_target v \<notin> ts" by blast
    with Prepared.prems(1) that(2) show ?thesis by (fastforce simp: door_ok_def views_ok_def)
  qed
  from prepare_ok [OF _ Prepared.prems(2) Prepared.hyps(2,1) this] Prepared.prems(1)
  have "codes_ok cf S (dr_now w) codes'" by (simp add: door_ok_def)
  with Prepared.prems(1) show ?case by (rule locked_ok)
next
  case (Cleaned days w)
  then have "codes_ok cf S (dr_now w) (cleanup_codes (dr_now w) days (dr_codes w))"
    using codes_ok_filter by (simp add: cleanup_codes_def door_ok_def)
  with Cleaned.prems(1) show ?case by (rule unlocked_ok) (auto simp: cleanup_codes_def elim: quiet_sub)
next
  case (Fenced port w p h customer pk codes' e)
  then show ?case using fence_row [OF _ Fenced.hyps] by (intro locked_row) (auto simp: door_ok_def)
next
  case (Undelivered w pk)
  then show ?case using fail_pending_ok by (intro unlocked_row) (auto simp: door_ok_def)
next
  case (Delivered port w p h customer pk how codes' r)
  then show ?case using delivery_row [OF _ Delivered.hyps] by (intro locked_row) (auto simp: door_ok_def)
next
  case (Guessed_login hmac port w raw input seen codes' r1)
  then show ?case using login_row [OF _ Guessed_login.hyps] by (intro unlocked_row) (auto simp: door_ok_def)
next
  case (Guessed_contact hmac port w raw input c codes' r2)
  then show ?case using contact_row [OF _ Guessed_contact.hyps] by (intro unlocked_row) (auto simp: door_ok_def)
next
  case (Reconciled port w pk accepted evidence codes')
  then show ?case using reconcile_row [OF _ Reconciled.hyps] by (intro locked_row) (auto simp: door_ok_def)
qed

lemma door_run_ok: "door_run cf S w w' \<Longrightarrow> door_ok cf S w \<Longrightarrow> 0 < dc_max_attempts cf \<Longrightarrow> door_ok cf S w'"
  by (induction rule: rtranclp_induct) (auto intro: door_step_ok)

lemma recorded_risk:
  assumes "table_ok cf S codes"
  shows "code_failures target start codes \<le> risk (dc_max_attempts cf) target start codes"
proof -
  have "vc_attempts v \<le> exposure (dc_max_attempts cf) v" if "v \<in> set codes" for v
    using that assms by (auto simp: table_ok_def within_budget_def exposure_def)
  then show ?thesis unfolding code_failures_def risk_def by (induction codes) (auto intro: add_mono)
qed

section \<open>Spent codes\<close>

text \<open>What a step does to the rows: a dead row stays or is swept, every row comes from one or is new.\<close>

lemma put_keeps:
  assumes "distinct (map vc_id codes)" "v \<in> set codes" "code_live v" "tamed m v w" "x \<in> set codes" "\<not> code_live x"
  shows "x \<in> set (put_code w codes)"
proof -
  have "vc_id x \<noteq> vc_id w" using assms by (auto simp: tamed_def distinct_map inj_on_def)
  with assms(5) show ?thesis by (auto simp: put_code_map)
qed

definition from_rows :: "int \<Rightarrow> vcode list \<Rightarrow> vcode list \<Rightarrow> bool" where
  "from_rows t codes codes' \<longleftrightarrow> (\<forall>w \<in> set codes'. (\<exists>v \<in> set codes. vc_id v = vc_id w \<and> vc_created_at v = vc_created_at w)
     \<or> vc_created_at w = t)"

lemma one_row_from: "one_row (tamed m) codes codes' \<Longrightarrow> from_rows t codes codes'"
  unfolding one_row_def from_rows_def put_code_map by (fastforce simp: tamed_def)

lemma one_row_keeps:
  "one_row (tamed m) codes codes' \<Longrightarrow> distinct (map vc_id codes) \<Longrightarrow> x \<in> set codes \<Longrightarrow> \<not> code_live x \<Longrightarrow> x \<in> set codes'"
  unfolding one_row_def using put_keeps by metis

lemma door_codes: "door_ok cf S w \<Longrightarrow> codes_ok cf S (dr_now w) (dr_codes w)"
  by (simp add: door_ok_def)

lemma row_step:
  assumes "door_ok cf S w" "one_row (tamed m) (dr_codes w) codes'"
  shows "from_rows (dr_now w) (dr_codes w) codes' \<and> (\<forall>x \<in> set (dr_codes w). \<not> code_live x \<longrightarrow> x \<in> set codes')"
  using one_row_from [OF assms(2)] one_row_keeps [OF assms(2)] assms(1) by (simp add: door_ok_def codes_ok_def table_ok_def)

lemma door_step_rows:
  assumes "door_step cf S w w'" "door_ok cf S w"
  shows "dr_now w \<le> dr_now w' \<and> from_rows (dr_now w') (dr_codes w) (dr_codes w')
    \<and> (\<forall>x \<in> set (dr_codes w). \<not> code_live x \<longrightarrow> x \<in> set (dr_codes w')
         \<or> vc_expires_at x < dr_now w' \<and> vc_id x \<notin> vc_id ` set (dr_codes w'))"
  using assms
proof (induction rule: door_step.induct)
  case (Waited w now)
  then show ?case by (auto simp: from_rows_def)
next
  case (Prepared port seen w pk digest rq v codes')
  define target where "target = snd (ip_handle port (cr_target rq))"
  let ?e = "\<lambda>c. if superseded target (cr_purpose rq) c \<and> vc_id c \<in> vc_id ` set (filter (superseded target (cr_purpose rq)) (rd_previous seen))
    then c\<lparr>vc_status := Code_expired\<rparr> else c"
  from prepare_Inr [OF Prepared.hyps(1) target_def refl] have new: "codes' = map ?e (dr_codes w) @ [v]" "vc_created_at v = dr_now w"
    by (auto simp: new_code_def expire_previous_def)
  have "x \<in> set codes'" if x: "x \<in> set (dr_codes w)" "\<not> code_live x" for x
  proof -
    have "?e x = x" using x(2) by (auto simp: superseded_def code_live_def)
    moreover have "?e x \<in> set codes'" using x(1) new(1) by simp
    ultimately show ?thesis by metis
  qed
  moreover have "from_rows (dr_now w) (dr_codes w) codes'" using new by (auto simp: from_rows_def)
  ultimately show ?case by simp
next
  case (Cleaned days w)
  let ?codes = "cleanup_codes (dr_now w) days (dr_codes w)"
  have "x \<in> set ?codes \<or> vc_expires_at x < dr_now w \<and> vc_id x \<notin> vc_id ` set ?codes" if "x \<in> set (dr_codes w)" for x
  proof (cases "x \<in> set ?codes")
    case False
    with that have "vc_expires_at x < dr_now w - days * 86400" by (simp add: cleanup_codes_def)
    moreover have "y = x" if "y \<in> set (dr_codes w)" "vc_id y = vc_id x" for y
      using that \<open>x \<in> set (dr_codes w)\<close> Cleaned.prems(1) by (auto simp: door_ok_def codes_ok_def table_ok_def distinct_map inj_on_def)
    ultimately show ?thesis using False Cleaned.hyps by (auto simp: cleanup_codes_def)
  qed simp
  moreover have "from_rows (dr_now w) (dr_codes w) ?codes" by (auto simp: from_rows_def cleanup_codes_def)
  ultimately show ?case by simp
next
  case (Fenced port w p h customer pk codes' e)
  from row_step [OF Fenced.prems fence_row [OF door_codes [OF Fenced.prems] Fenced.hyps]] show ?case by simp
next
  case (Undelivered w pk)
  from row_step [OF Undelivered.prems one_row_calm [OF fail_pending_ok [OF door_codes [OF Undelivered.prems]]]] show ?case by simp
next
  case (Delivered port w p h customer pk how codes' r)
  from row_step [OF Delivered.prems delivery_row [OF door_codes [OF Delivered.prems] Delivered.hyps]] show ?case by simp
next
  case (Guessed_login hmac port w raw input seen codes' r1)
  from row_step [OF Guessed_login.prems one_row_calm [OF login_row [OF door_codes [OF Guessed_login.prems] Guessed_login.hyps]]] show ?case by simp
next
  case (Guessed_contact hmac port w raw input c codes' r2)
  from row_step [OF Guessed_contact.prems one_row_calm [OF contact_row [OF door_codes [OF Guessed_contact.prems] Guessed_contact.hyps]]] show ?case by simp
next
  case (Reconciled port w pk accepted evidence codes')
  from row_step [OF Reconciled.prems reconcile_row [OF door_codes [OF Reconciled.prems] Reconciled.hyps]] show ?case by simp
qed

lemma spent_kept:
  assumes "door_run cf S s s'" "door_ok cf S s" "0 < dc_max_attempts cf" "x \<in> set (dr_codes s)" "\<not> code_live x"
  shows "x \<in> set (dr_codes s') \<or> vc_expires_at x < dr_now s'
    \<and> (\<forall>w \<in> set (dr_codes s'). vc_id w = vc_id x \<longrightarrow> vc_expires_at x < vc_created_at w)"
  using assms(1)
proof (induction rule: rtranclp_induct)
  case base
  then show ?case using assms(4) by simp
next
  case (step y z)
  have ok: "door_ok cf S y" using door_run_ok [OF step.hyps(1) assms(2,3)] .
  note rows = door_step_rows [OF step.hyps(2) ok]
  from step.IH show ?case
  proof
    assume "x \<in> set (dr_codes y)"
    with rows assms(5) have "x \<in> set (dr_codes z) \<or> vc_expires_at x < dr_now z \<and> vc_id x \<notin> vc_id ` set (dr_codes z)" by blast
    then show ?thesis by (metis image_eqI)
  next
    assume gone: "vc_expires_at x < dr_now y \<and> (\<forall>w \<in> set (dr_codes y). vc_id w = vc_id x \<longrightarrow> vc_expires_at x < vc_created_at w)"
    have "vc_expires_at x < vc_created_at w" if "w \<in> set (dr_codes z)" "vc_id w = vc_id x" for w
      using rows gone that unfolding from_rows_def by fastforce
    with rows gone show ?thesis by auto
  qed
qed

section \<open>The properties\<close>

text \<open>C18: However requests, deliveries, guesses of login and contact codes, reconciliations and clean-ups are
  interleaved, and however old the tables are that a request reads before it writes, no code takes more wrong guesses
  than it allows. For a target whose requests wait for the row of one customer, so that no other request wrote its
  codes between the readings and the new code, the wrong guesses recorded against it within the window of the failure
  gate stay below its limit plus three full codes, and it has at most one code in use per purpose.\<close>

theorem guesses_bounded:
  assumes "door_run cf S (door_init t0) w" "0 < dc_max_attempts cf"
  shows "(\<forall>v \<in> set (dr_codes w). vc_attempts v \<le> dc_max_attempts cf)
    \<and> (\<forall>target \<in> S. code_failures target (dr_now w - dc_failure_window cf) (dr_codes w) < dc_max_failures cf + 3 * dc_max_attempts cf)
    \<and> (\<forall>v \<in> set (dr_codes w). \<forall>x \<in> set (dr_codes w). vc_target v \<in> S \<and> code_live v \<and> code_live x
         \<and> vc_target v = vc_target x \<and> vc_purpose v = vc_purpose x \<longrightarrow> v = x)"
proof -
  have "door_ok cf S w" using door_run_ok [OF assms(1)] door_ok_init [OF assms(2)] assms(2) by simp
  then have ok: "codes_ok cf S (dr_now w) (dr_codes w)" and tab: "table_ok cf S (dr_codes w)" by (simp_all add: door_ok_def codes_ok_def)
  have "code_failures target (dr_now w - dc_failure_window cf) (dr_codes w) < dc_max_failures cf + 3 * dc_max_attempts cf"
    if "target \<in> S" for target
    using recorded_risk [OF tab, of target] ok that unfolding codes_ok_def by (meson le_less_trans order_refl)
  moreover have "\<forall>v \<in> set (dr_codes w). vc_attempts v \<le> dc_max_attempts cf" using tab by (simp add: table_ok_def within_budget_def)
  ultimately show ?thesis using tab unfolding table_ok_def single_live_def by blast
qed

text \<open>A code that was used, expired, failed or was spent by wrong guesses never comes back: in the rest of the
  run its row is what it was, until the clean-up removes it after its expiry, and a new row with its identifier
  would be a later code.\<close>

theorem spent_code_stays:
  assumes "door_run cf S (door_init t0) w" "0 < dc_max_attempts cf" "door_run cf S w w'"
    and "v \<in> set (dr_codes w)" "vc_status v \<in> {Code_verified, Code_expired, Code_failed}"
  shows "v \<in> set (dr_codes w') \<or> vc_expires_at v < dr_now w'
    \<and> (\<forall>x \<in> set (dr_codes w'). vc_id x = vc_id v \<longrightarrow> vc_expires_at v < vc_created_at x)"
proof -
  have "door_ok cf S w" using door_run_ok [OF assms(1)] door_ok_init [OF assms(2)] assms(2) by simp
  with spent_kept [OF assms(3) _ assms(2), of v] assms(4,5) show ?thesis by (auto simp: code_live_def)
qed

text \<open>C19: A login attempt either changes nothing and is refused, or judges one code that was sent for that target,
  is not expired and is bound to the customer it answers for: the right digits use the code up and name the
  customer; wrong ones are refused, add exactly one to its attempts, and the last one allowed kills it.\<close>

theorem login_judged:
  assumes "verify_for_login hmac port now raw input seen codes = (codes', r)"
  shows "codes' = codes \<and> (\<exists>e. r = Inl e) \<or> (\<exists>v. login_code port raw now codes v \<and>
     (if code_verify hmac now input v
      then \<exists>c created. codes' = put_code (mark_verified now c v) codes \<and> r = Inr (c, created) \<and> vc_hash v = hmac (strip input)
             \<and> vc_attempts v < vc_max_attempts v
             \<and> (vc_customer v \<noteq> None \<longrightarrow> \<not> created \<and> ip_bind port (the (vc_customer v)) (ip_handle port raw) (vc_method v) = Inr c)
      else codes' = put_code (record_attempt v) codes \<and> vc_attempts (record_attempt v) = vc_attempts v + 1
             \<and> r = Inl (if vc_max_attempts v \<le> vc_attempts v + 1 then Door_max_attempts
                        else Door_code_invalid (vc_max_attempts v - (vc_attempts v + 1)))
             \<and> (vc_max_attempts v \<le> vc_attempts v + 1 \<longrightarrow> vc_status (record_attempt v) = Code_failed)))"
  using login_cases [OF assms]
proof
  assume "\<exists>v customer. login_code port raw now codes v \<and> (vc_customer v \<noteq> None \<longrightarrow> customer = vc_customer v)
         \<and> use_login_code hmac port now (ip_handle port raw) customer input v codes = (codes', r)"
  then obtain v customer where v: "login_code port raw now codes v" "vc_customer v \<noteq> None \<longrightarrow> customer = vc_customer v"
    "use_login_code hmac port now (ip_handle port raw) customer input v codes = (codes', r)" by blast
  have "vc_attempts (record_attempt v) = vc_attempts v + 1"
    "vc_max_attempts v \<le> vc_attempts v + 1 \<Longrightarrow> vc_status (record_attempt v) = Code_failed"
    by (simp_all add: record_attempt_def Let_def)
  moreover have "code_verify hmac now input v \<Longrightarrow> vc_hash v = hmac (strip input) \<and> vc_attempts v < vc_max_attempts v"
    by (simp add: code_verify_def hmac_matches_def code_valid_def)
  moreover note use_login_cases [OF v(3,2)]
  ultimately have "codes' = codes \<and> (\<exists>e. r = Inl e) \<or> (if code_verify hmac now input v
      then \<exists>c created. codes' = put_code (mark_verified now c v) codes \<and> r = Inr (c, created) \<and> vc_hash v = hmac (strip input)
             \<and> vc_attempts v < vc_max_attempts v
             \<and> (vc_customer v \<noteq> None \<longrightarrow> \<not> created \<and> ip_bind port (the (vc_customer v)) (ip_handle port raw) (vc_method v) = Inr c)
      else codes' = put_code (record_attempt v) codes \<and> vc_attempts (record_attempt v) = vc_attempts v + 1
             \<and> r = Inl (if vc_max_attempts v \<le> vc_attempts v + 1 then Door_max_attempts
                        else Door_code_invalid (vc_max_attempts v - (vc_attempts v + 1)))
             \<and> (vc_max_attempts v \<le> vc_attempts v + 1 \<longrightarrow> vc_status (record_attempt v) = Code_failed))"
    unfolding if_bool_eq_conj [of "code_verify hmac now input v"] by blast
  with v(1) show ?thesis by blast
qed blast

section \<open>A login\<close>

text \<open>A whole request is a run of its phases, for any targets that wait for one another.\<close>

lemma wait_run: "dr_now w \<le> t \<Longrightarrow> door_run cf S w (w\<lparr>dr_now := t\<rparr>)"
  by (rule r_into_rtranclp) (rule door_step.Waited)

lemma request_prepared:
  assumes "prepare_code cf port (reads_of (dr_now w) (dr_codes w)) (dr_now w) pk digest rq (dr_codes w) = Inr (v, codes')"
    and "(dr_codes w, {}) \<in> set (dr_views w)"
  shows "door_step cf S w (commits True codes' w)"
  by (rule door_step.Prepared [OF assms(1)]) (use assms(2) in \<open>auto simp: reads_of_def tables_read_def\<close>)

lemma request_code_runs:
  assumes "request_code cf port1 port2 port3 (dr_now w) t2 t3 answer pk digest rq (dr_codes w) = (codes', r)"
    and "dr_now w \<le> t2" "t2 \<le> t3" "(dr_codes w, {}) \<in> set (dr_views w)"
  obtains w' where "door_run cf S w w'" "dr_now w' = t3" "dr_codes w' = codes'"
proof (cases "prepare_code cf port1 (reads_of (dr_now w) (dr_codes w)) (dr_now w) pk digest rq (dr_codes w)")
  case (Inl e)
  with assms wait_run [of w t3 cf S] that [of "w\<lparr>dr_now := t3\<rparr>"] show ?thesis by (simp add: request_code_def)
next
  case (Inr p)
  obtain v codes1 where p: "p = (v, codes1)" by (cases p)
  let ?h = "ip_handle port1 (cr_target rq)"
  obtain codes2 e where f: "fence_code port2 t2 (cr_purpose rq) ?h (vc_customer v) pk codes1 = (codes2, e)" by fastforce
  define w2 where "w2 = (commits True codes1 w)\<lparr>dr_now := t2\<rparr>"
  define w3 where "w3 = commits True codes2 w2"
  have "door_run cf S w w2" unfolding w2_def
  proof (rule converse_rtranclp_into_rtranclp)
    show "door_step cf S w (commits True codes1 w)" by (rule request_prepared [OF Inr [unfolded p] assms(4)])
    show "door_run cf S (commits True codes1 w) ((commits True codes1 w)\<lparr>dr_now := t2\<rparr>)" using assms(2) by (simp add: wait_run)
  qed
  moreover have "door_step cf S w2 w3" unfolding w3_def
    by (rule door_step.Fenced) (use f in \<open>simp add: w2_def\<close>)
  ultimately have run: "door_run cf S w w3" by (rule rtranclp.rtrancl_into_rtrancl)
  define w4 where "w4 = w3\<lparr>dr_now := t3\<rparr>"
  have w4: "dr_now w4 = t3" "dr_codes w4 = codes2" by (simp_all add: w4_def w3_def w2_def)
  have "dr_now w3 \<le> t3" using assms(3) by (simp add: w3_def w2_def)
  then have run4: "door_run cf S w w4" unfolding w4_def using run wait_run [of w3 t3 cf S] by simp
  note out = assms(1) [unfolded request_code_def Inr p sum.case prod.case Let_def f]
  consider "codes' = codes2" | "codes' = fail_pending pk codes2"
    | how r3 where "finish_delivery port3 t3 (cr_purpose rq) ?h (vc_customer v) pk how codes2 = (codes', r3)"
    using out by (auto split: option.splits prod.splits)
  then show ?thesis
  proof cases
    case 1
    with run4 w4 that show ?thesis by blast
  next
    case 2
    with that [OF rtranclp.rtrancl_into_rtrancl [OF run4 door_step.Undelivered [of _ _ _ pk]]] w4 show ?thesis by simp
  next
    case 3
    have "door_step cf S w4 (commits True codes' w4)" by (rule door_step.Delivered) (use 3 w4 in simp)
    with that [OF rtranclp.rtrancl_into_rtrancl [OF run4]] w4 show ?thesis by simp
  qed
qed

definition house_rules :: door_conf where
  "house_rules = \<lparr>dc_ttl = 600, dc_max_attempts = 5, dc_rate_max = 5, dc_rate_window = 900, dc_cooldown = 60,
     dc_max_failures = 15, dc_failure_window = 86400\<rparr>"

definition phone_port :: identity_port where
  "phone_port = \<lparr>ip_handle = (\<lambda>raw. (''phone'', raw)), ip_allowed = (\<lambda>_ _. True), ip_resolve = (\<lambda>_. Inr (Some ''maria'')),
     ip_lock = Some, ip_belongs = (\<lambda>_ _. Inr True), ip_get = Some, ip_auto_create = True, ip_create = snd,
     ip_bind = (\<lambda>c _ _. Inr c)\<rparr>"

definition marked :: "string \<Rightarrow> string" where "marked s = s @ ''#''"

definition code_for_maria :: code_request where
  "code_for_maria = \<lparr>cr_target = ''+554399'', cr_purpose = Login, cr_method = ''whatsapp'', cr_ip = None, cr_customer = None\<rparr>"

definition codes_sent :: "vcode list" where
  "codes_sent = fst (request_code house_rules phone_port phone_port phone_port 1000 1001 1002 (Some (Some ''whatsapp''))
     ''k1'' (marked ''482913'') code_for_maria [])"

definition codes_missed :: "vcode list" where
  "codes_missed = fst (verify_for_login marked phone_port 1002 ''+554399'' ''000000'' codes_sent codes_sent)"

definition codes_used :: "vcode list" where
  "codes_used = fst (verify_for_login marked phone_port 1002 ''+554399'' '' 482913 '' codes_missed codes_missed)"

lemma login_day:
  "map (\<lambda>v. (vc_status v, vc_attempts v)) codes_sent = [(Code_sent, 0)]"
  "map (\<lambda>v. (vc_status v, vc_attempts v)) codes_missed = [(Code_sent, 1)]"
  "map (\<lambda>v. (vc_status v, vc_customer v)) codes_used = [(Code_verified, Some ''maria'')]"
  "snd (verify_for_login marked phone_port 1002 ''+554399'' '' 482913 '' codes_missed codes_missed) = Inr (''maria'', False)"
  by code_simp+

lemma login_run:
  obtains w1 w2 where "door_run house_rules S (door_init 1000) w1" "dr_now w1 = 1002" "dr_codes w1 = codes_missed"
    "door_run house_rules S (door_init 1000) w2" "dr_now w2 = 1002" "dr_codes w2 = codes_used"
proof -
  obtain w where w: "door_run house_rules S (door_init 1000) w" "dr_now w = 1002" "dr_codes w = codes_sent"
  proof (rule request_code_runs [of house_rules phone_port phone_port phone_port "door_init 1000" 1001 1002
        "Some (Some ''whatsapp'')" "''k1''" "marked ''482913''" code_for_maria codes_sent _ S])
    show "request_code house_rules phone_port phone_port phone_port (dr_now (door_init 1000)) 1001 1002 (Some (Some ''whatsapp'')) ''k1''
        (marked ''482913'') code_for_maria (dr_codes (door_init 1000))
      = (codes_sent, snd (request_code house_rules phone_port phone_port phone_port 1000 1001 1002 (Some (Some ''whatsapp''))
          ''k1'' (marked ''482913'') code_for_maria []))"
      by (simp add: codes_sent_def door_init_def)
  qed (auto simp: door_init_def)
  have "door_step house_rules S w (commits False codes_missed w)" unfolding codes_missed_def
    by (rule door_step.Guessed_login) (simp add: w(2,3) prod_eq_iff; blast)
  with w(1) have one: "door_run house_rules S (door_init 1000) (commits False codes_missed w)" by (rule rtranclp.rtrancl_into_rtrancl)
  have "door_step house_rules S (commits False codes_missed w) (commits False codes_used (commits False codes_missed w))"
    unfolding codes_used_def by (rule door_step.Guessed_login) (simp add: w(2) prod_eq_iff; blast)
  with one have "door_run house_rules S (door_init 1000) (commits False codes_used (commits False codes_missed w))"
    by (rule rtranclp.rtrancl_into_rtrancl)
  with one w(2) that show ?thesis by simp
qed

theorem guesses_bounded_witness:
  "code_failures ''+554399'' (1002 - 86400) codes_missed < 30
   \<and> (\<exists>v. codes_missed = [v] \<and> vc_status v = Code_sent \<and> vc_attempts v = 1 \<and> vc_attempts v \<le> dc_max_attempts house_rules)"
proof -
  obtain w where w: "door_run house_rules {''+554399''} (door_init 1000) w" "dr_now w = 1002" "dr_codes w = codes_missed" by (rule login_run)
  have "0 < dc_max_attempts house_rules" by (simp add: house_rules_def)
  note all = guesses_bounded [OF w(1) this]
  have "code_failures ''+554399'' (1002 - 86400) codes_missed < 30" using all w(2,3) by (simp add: house_rules_def)
  moreover obtain v where v: "codes_missed = [v]" "vc_status v = Code_sent" "vc_attempts v = 1" using login_day(2) by auto
  have "v \<in> set (dr_codes w)" by (simp add: w(3) v(1))
  then have "vc_attempts v \<le> dc_max_attempts house_rules" using all by blast
  ultimately show ?thesis using v by blast
qed

theorem spent_code_stays_witness:
  "\<exists>v. vc_status v = Code_verified \<and> v \<in> set (fst (verify_for_login marked phone_port 1002 ''+554399'' ''482913'' codes_used codes_used))"
proof -
  let ?again = "fst (verify_for_login marked phone_port 1002 ''+554399'' ''482913'' codes_used codes_used)"
  obtain v where v: "codes_used = [v]" "vc_status v = Code_verified" using login_day(3) by auto
  obtain w where w: "door_run house_rules {} (door_init 1000) w" "dr_now w = 1002" "dr_codes w = codes_used" by (rule login_run)
  have "door_step house_rules {} w (commits False ?again w)"
    by (rule door_step.Guessed_login) (simp add: w(2,3) prod_eq_iff; blast)
  then have "door_run house_rules {} w (commits False ?again w)" by blast
  moreover have "v \<in> set (dr_codes w)" by (simp add: v(1) w(3))
  ultimately have "v \<in> set ?again \<or> vc_expires_at v < 1002"
    using spent_code_stays [OF w(1) _ _ , of "commits False ?again w" v] v(2) w(2) by (simp add: house_rules_def) blast
  moreover have "vc_expires_at v = 1600"
  proof -
    have "map vc_expires_at [v] = [1600]" unfolding v(1) [symmetric] by code_simp
    then show ?thesis by simp
  qed
  ultimately show ?thesis using v(2) by (auto intro: exI [of _ v])
qed

theorem login_judged_witness:
  "\<exists>v. login_code phone_port ''+554399'' 1002 codes_missed v \<and> codes_used = put_code (mark_verified 1002 ''maria'' v) codes_missed"
proof -
  have run: "verify_for_login marked phone_port 1002 ''+554399'' '' 482913 '' codes_missed codes_missed = (codes_used, Inr (''maria'', False))"
    using login_day(4) by (simp add: codes_used_def prod_eq_iff)
  from login_judged [OF run] show ?thesis by (auto split: if_splits)
qed

section \<open>Requests that overlap\<close>

text \<open>
  Two requests for a number that no customer owns take no lock in common: each reads the empty table,
  both pass the gates, and neither expires the code of the other. Two codes of one purpose stay to be
  delivered and guessed, each with its own attempts.
\<close>

definition nobodys_port :: identity_port where
  "nobodys_port = phone_port\<lparr>ip_resolve := (\<lambda>_. Inr None)\<rparr>"

definition overlap1 :: "vcode list" where
  "overlap1 = (case prepare_code house_rules nobodys_port (reads_of 1000 []) 1000 ''k1'' (marked ''111111'') code_for_maria [] of
     Inr (_, codes) \<Rightarrow> codes | Inl _ \<Rightarrow> [])"

definition overlap2 :: "vcode list" where
  "overlap2 = (case prepare_code house_rules nobodys_port (reads_of 1000 []) 1000 ''k2'' (marked ''222222'') code_for_maria overlap1 of
     Inr (_, codes) \<Rightarrow> codes | Inl _ \<Rightarrow> [])"

lemma overlap_codes:
  "\<not> isl (prepare_code house_rules nobodys_port (reads_of 1000 []) 1000 ''k1'' (marked ''111111'') code_for_maria [])"
  "\<not> isl (prepare_code house_rules nobodys_port (reads_of 1000 []) 1000 ''k2'' (marked ''222222'') code_for_maria overlap1)"
  "map (\<lambda>v. (vc_id v, vc_target v, vc_purpose v, vc_status v)) overlap2
     = [(''k1'', ''+554399'', Login, Code_pending), (''k2'', ''+554399'', Login, Code_pending)]"
  by code_simp+

lemma overlapping_requests:
  "\<exists>w v x. door_run house_rules {} (door_init 1000) w \<and> v \<in> set (dr_codes w) \<and> x \<in> set (dr_codes w) \<and> v \<noteq> x
     \<and> code_live v \<and> code_live x \<and> vc_target v = vc_target x \<and> vc_purpose v = vc_purpose x"
proof -
  let ?w1 = "commits True overlap1 (door_init 1000)"
  let ?w2 = "commits True overlap2 ?w1"
  obtain v1 where p1: "prepare_code house_rules nobodys_port (reads_of 1000 []) 1000 ''k1'' (marked ''111111'') code_for_maria [] = Inr (v1, overlap1)"
    using overlap_codes(1) by (cases "prepare_code house_rules nobodys_port (reads_of 1000 []) 1000 ''k1'' (marked ''111111'') code_for_maria []")
      (auto simp: overlap1_def)
  obtain v2 where p2: "prepare_code house_rules nobodys_port (reads_of 1000 []) 1000 ''k2'' (marked ''222222'') code_for_maria overlap1 = Inr (v2, overlap2)"
    using overlap_codes(2) by (cases "prepare_code house_rules nobodys_port (reads_of 1000 []) 1000 ''k2'' (marked ''222222'') code_for_maria overlap1")
      (auto simp: overlap2_def)
  have views: "([], {}) \<in> set (dr_views (door_init 1000))" "\<exists>ts. ([], ts) \<in> set (dr_views ?w1)"
    by (auto simp: door_init_def commits_def)
  have "door_step house_rules {} (door_init 1000) ?w1"
    by (rule door_step.Prepared [where seen = "reads_of 1000 []"]) (use p1 views in \<open>auto simp: door_init_def reads_of_def tables_read_def\<close>)
  moreover have "door_step house_rules {} ?w1 ?w2"
    by (rule door_step.Prepared [where seen = "reads_of 1000 []"]) (use p2 views in \<open>auto simp: door_init_def reads_of_def tables_read_def\<close>)
  ultimately have run: "door_run house_rules {} (door_init 1000) ?w2" by (meson converse_rtranclp_into_rtranclp r_into_rtranclp)
  obtain v x where two: "overlap2 = [v, x]" "vc_id v = ''k1''" "vc_id x = ''k2''" "vc_target v = vc_target x" "vc_purpose v = vc_purpose x"
    "vc_status v = Code_pending" "vc_status x = Code_pending"
    using overlap_codes(3) by auto
  then have "v \<noteq> x" "code_live v" "code_live x" by (auto simp: code_live_def)
  moreover have "v \<in> set (dr_codes ?w2)" "x \<in> set (dr_codes ?w2)" by (simp_all add: two(1))
  ultimately show ?thesis using run two(4,5) by blast
qed

end
