(* ===== verification/Promotions.thy ===== *)
theory Promotions
  imports Monetary
begin

text \<open>
  Promotions and coupons of the shop (\<open>shop/policies/promotion.py\<close>,
  \<open>policies/group_advantage.py\<close>, \<open>services/promotions.py\<close>, \<open>models/promotion.py\<close>), the delivery
  zones and bands (\<open>models/delivery.py\<close>) and the unit prices of the catalogue
  (\<open>offerman/service.py\<close>, the catalogue of now). Instants are integers, distances rationals;
  the tables of zones and bands come in the order of their queries.
\<close>

section \<open>Promotions and coupons\<close>

datatype promo_type = Percent_off | Fixed_off | Free_delivery

record promotion =
  pm_ref :: string
  pm_name :: string
  pm_type :: promo_type
  pm_value :: int
  pm_from :: int
  pm_until :: int
  pm_skus :: "string list"
  pm_collections :: "string list"
  pm_min :: int
  pm_fulfillment :: "string list"
  pm_segments :: "string list"
  pm_birthday :: bool
  pm_channels :: "string list"
  pm_active :: bool

record coupon =
  co_code :: string
  co_promotion :: string
  co_max_uses :: nat
  co_uses :: nat
  co_active :: bool

definition applies_to_channel :: "string \<Rightarrow> promotion \<Rightarrow> bool" where
  "applies_to_channel channel p \<longleftrightarrow> pm_channels p = [] \<or> channel \<in> set (pm_channels p)"

definition coupon_available :: "coupon \<Rightarrow> bool" where
  "coupon_available c \<longleftrightarrow> co_active c \<and> (co_max_uses c = 0 \<or> co_uses c < co_max_uses c)"

definition normalize_coupon_code :: "string \<Rightarrow> string" where
  "normalize_coupon_code code = upper (strip code)"

definition in_force :: "int \<Rightarrow> promotion \<Rightarrow> bool" where
  "in_force now p \<longleftrightarrow> pm_active p \<and> pm_from p \<le> now \<and> now \<le> pm_until p"

text \<open>The newest promotion first, as the model orders them.\<close>

definition active_promotions :: "int \<Rightarrow> string \<Rightarrow> coupon list \<Rightarrow> promotion list \<Rightarrow> promotion list" where
  "active_promotions now channel coupons ps =
     filter (\<lambda>p. channel = [] \<or> applies_to_channel channel p)
       (sort_key (\<lambda>p. - pm_from p) (filter (\<lambda>p. in_force now p \<and> pm_ref p \<notin> co_promotion ` set coupons) ps))"

definition coupon_promotion :: "string \<Rightarrow> int \<Rightarrow> string \<Rightarrow> coupon list \<Rightarrow> promotion list \<Rightarrow> promotion option" where
  "coupon_promotion code now channel coupons ps =
     (case find (\<lambda>c. co_code c = code \<and> co_active c) coupons of
        None \<Rightarrow> None
      | Some c \<Rightarrow>
          if \<not> coupon_available c then None
          else (case row_get pm_ref (co_promotion c) ps of
                  None \<Rightarrow> None
                | Some p \<Rightarrow> if in_force now p \<and> (channel = [] \<or> applies_to_channel channel p) then Some p else None))"

text \<open>The conditional update: counts the use and says whether it did.\<close>

definition record_coupon_use :: "string \<Rightarrow> coupon list \<Rightarrow> coupon list \<times> bool" where
  "record_coupon_use code coupons =
     (let hit = (\<lambda>c. co_code c = code \<and> (co_max_uses c = 0 \<or> co_uses c < co_max_uses c)) in
      (map (\<lambda>c. if hit c then c\<lparr>co_uses := co_uses c + 1\<rparr> else c) coupons, \<exists>c \<in> set coupons. hit c))"

definition release_coupon_use :: "string \<Rightarrow> coupon list \<Rightarrow> coupon list" where
  "release_coupon_use code coupons =
     map (\<lambda>c. if co_code c = code \<and> 0 < co_uses c then c\<lparr>co_uses := co_uses c - 1\<rparr> else c) coupons"

section \<open>The policy\<close>

record shopper =
  sh_segment :: string
  sh_tiers :: "string list"
  sh_birthday :: bool

record promo_ctx =
  px_shopper :: shopper
  px_sku :: "string option"
  px_collections :: "string list"
  px_fulfillment :: "string option"
  px_subtotal :: "int option"
  px_promise :: bool

definition anonymous :: shopper where
  "anonymous = \<lparr>sh_segment = [], sh_tiers = [], sh_birthday = False\<rparr>"

definition no_question :: promo_ctx where
  "no_question = \<lparr>px_shopper = anonymous, px_sku = None, px_collections = [], px_fulfillment = None,
     px_subtotal = None, px_promise = False\<rparr>"

definition birthday_on :: "(nat \<times> nat) option \<Rightarrow> nat \<times> nat \<Rightarrow> bool" where
  "birthday_on birthday day \<longleftrightarrow> birthday = Some day"

definition minimum_eligible :: "int \<Rightarrow> int \<Rightarrow> bool" where
  "minimum_eligible min_order_q subtotal \<longleftrightarrow> min_order_q = 0 \<or> min_order_q \<le> subtotal"

datatype unmet = Unmet_customer | Unmet_fulfillment | Unmet_minimum | Unmet_items

definition unmet_condition :: "promotion \<Rightarrow> promo_ctx \<Rightarrow> unmet option" where
  "unmet_condition p ctx =
     (let sh = px_shopper ctx; segments = pm_segments p; kinds = pm_fulfillment p in
      if segments \<noteq> [] \<and> sh_segment sh \<notin> set segments \<and> set (sh_tiers sh) \<inter> set segments = {} then Some Unmet_customer
      else if pm_birthday p \<and> \<not> sh_birthday sh then Some Unmet_customer
      else if px_promise ctx \<and> kinds \<noteq> [] then Some Unmet_fulfillment
      else if px_promise ctx \<and> pm_min p \<noteq> 0 then Some Unmet_minimum
      else if kinds \<noteq> [] \<and> (case px_fulfillment ctx of
                None \<Rightarrow> False
              | Some f \<Rightarrow> (if strip f \<noteq> [] then strip f \<notin> set kinds else ''pickup'' \<notin> set kinds)) then Some Unmet_fulfillment
      else if (case px_subtotal ctx of None \<Rightarrow> False | Some s \<Rightarrow> \<not> minimum_eligible (pm_min p) s) then Some Unmet_minimum
      else if (case px_sku ctx of
                None \<Rightarrow> False
              | Some sku \<Rightarrow> pm_skus p \<noteq> [] \<and> sku \<notin> set (pm_skus p)
                  \<or> pm_collections p \<noteq> [] \<and> set (px_collections ctx) \<inter> set (pm_collections p) = {}) then Some Unmet_items
      else None)"

definition promotion_matches :: "promotion \<Rightarrow> promo_ctx \<Rightarrow> bool" where
  "promotion_matches p ctx \<longleftrightarrow> unmet_condition p ctx = None"

definition minimum_missing :: "promotion \<Rightarrow> int \<Rightarrow> int" where
  "minimum_missing p subtotal = max 0 (pm_min p - subtotal)"

datatype zero_reason = Reason_unavailable | Reason_customer | Reason_fulfillment "string list" | Reason_minimum int
  | Reason_items | Reason_already_discounted

text \<open>Why a coupon takes nothing off: one context for the order, one for each line.\<close>

definition coupon_zero_reason :: "promotion option \<Rightarrow> promo_ctx \<Rightarrow> promo_ctx list \<Rightarrow> zero_reason" where
  "coupon_zero_reason promo order_ctx line_ctxs =
     (case promo of
        None \<Rightarrow> Reason_unavailable
      | Some p \<Rightarrow>
          (case unmet_condition p (order_ctx\<lparr>px_sku := None\<rparr>) of
             Some Unmet_minimum \<Rightarrow> Reason_minimum (minimum_missing p (case_option 0 id (px_subtotal order_ctx)))
           | Some Unmet_fulfillment \<Rightarrow> Reason_fulfillment (pm_fulfillment p)
           | Some Unmet_customer \<Rightarrow> Reason_customer
           | Some Unmet_items \<Rightarrow> Reason_items
           | None \<Rightarrow> if \<exists>c \<in> set line_ctxs. promotion_matches p c then Reason_already_discounted else Reason_items))"

section \<open>Advantages of a customer's groups\<close>

definition group_discount_ref :: "string \<Rightarrow> string" where
  "group_discount_ref tier = ''grupo-'' @ tier"

fun clean_refs :: "string list \<Rightarrow> string list \<Rightarrow> string list" where
  "clean_refs seen [] = []"
| "clean_refs seen (r # rs) =
     (let ref = strip r in
      if ref = [] \<or> ref \<in> set seen then clean_refs seen rs else ref # clean_refs (ref # seen) rs)"

definition tier_refs :: "string list \<Rightarrow> string list" where
  "tier_refs raw = clean_refs [] raw"

record advantage =
  ad_tier :: string
  ad_tier_name :: string
  ad_free_shipping :: bool
  ad_min :: int
  ad_active :: bool
  ad_priority :: int
  ad_tier_priority :: int

definition free_shipping_minimum :: "advantage \<Rightarrow> int" where
  "free_shipping_minimum a = max 0 (ad_min a)"

text \<open>The highest priorities first; among them the first of the lowest minimum.\<close>

definition best_free_shipping :: "string list \<Rightarrow> advantage list \<Rightarrow> advantage option" where
  "best_free_shipping refs as =
     (case sort_key free_shipping_minimum
             (sort_key (\<lambda>a. - ad_priority a) (sort_key (\<lambda>a. - ad_tier_priority a)
               (filter (\<lambda>a. ad_tier a \<in> set (tier_refs refs) \<and> ad_free_shipping a \<and> ad_active a) as))) of
        [] \<Rightarrow> None | a # _ \<Rightarrow> Some a)"

definition group_free_shipping_for_order :: "advantage option \<Rightarrow> int \<Rightarrow> advantage option" where
  "group_free_shipping_for_order best merchandise =
     (case best of
        None \<Rightarrow> None
      | Some a \<Rightarrow> if minimum_eligible (free_shipping_minimum a) merchandise then Some a else None)"

section \<open>Delivery zones and bands\<close>

record zone =
  zn_name :: string
  zn_prefix :: bool
  zn_match :: string
  zn_exclude :: bool
  zn_fee :: int
  zn_active :: bool

fun first_max :: "('a \<Rightarrow> nat) \<Rightarrow> 'a \<Rightarrow> 'a list \<Rightarrow> 'a" where
  "first_max f best [] = best"
| "first_max f best (x # xs) = first_max f (if f best < f x then x else best) xs"

definition is_digit :: "char \<Rightarrow> bool" where
  "is_digit ch \<longleftrightarrow> ch \<in> set ''0123456789''"

definition starts_with :: "string \<Rightarrow> string \<Rightarrow> bool" where
  "starts_with s pre \<longleftrightarrow> take (length pre) s = pre"

text \<open>The longest matching prefix of the postal code, else the neighbourhood by name.\<close>

definition match_zone :: "string \<Rightarrow> string \<Rightarrow> zone list \<Rightarrow> zone option" where
  "match_zone postal neighborhood zs =
     (let active = filter zn_active zs; digits = filter is_digit postal; nb = lower (strip neighborhood) in
      case filter (\<lambda>z. zn_prefix z \<and> digits \<noteq> [] \<and> starts_with digits (strip (zn_match z))) active of
        z # rest \<Rightarrow> Some (first_max (\<lambda>x. length (strip (zn_match x))) z rest)
      | [] \<Rightarrow> find (\<lambda>z. \<not> zn_prefix z \<and> nb \<noteq> [] \<and> lower (strip (zn_match z)) = nb) active)"

record band =
  bd_max :: rat
  bd_fee :: int
  bd_active :: bool

definition match_band :: "rat \<Rightarrow> band list \<Rightarrow> band option" where
  "match_band distance bs = find (\<lambda>b. distance \<le> bd_max b) (filter bd_active bs)"

section \<open>Unit prices of the catalogue\<close>

record listing_item =
  li_listing :: string
  li_sku :: string
  li_min :: rat
  li_price :: int
  li_sellable :: bool
  li_valid :: bool

record product =
  pd_sku :: string
  pd_base :: int
  pd_active :: bool

definition product_base :: "product list \<Rightarrow> string \<Rightarrow> int option" where
  "product_base ps sku = map_option pd_base (find (\<lambda>p. pd_sku p = sku \<and> pd_active p) ps)"

text \<open>The tiers of a product in a listing, the largest minimum first.\<close>

definition listing_tiers :: "listing_item list \<Rightarrow> string \<Rightarrow> string \<Rightarrow> listing_item list" where
  "listing_tiers items ref sku =
     sort_key (\<lambda>i. - li_min i) (filter (\<lambda>i. li_listing i = ref \<and> li_sku i = sku \<and> li_sellable i \<and> li_valid i) items)"

definition tier_price :: "listing_item list \<Rightarrow> string \<Rightarrow> rat \<Rightarrow> string \<Rightarrow> int option" where
  "tier_price items sku qty ref = map_option li_price (find (\<lambda>i. li_min i \<le> max qty 1) (listing_tiers items ref sku))"

fun first_listing :: "(string \<Rightarrow> int option) \<Rightarrow> string list \<Rightarrow> int option" where
  "first_listing price [] = None"
| "first_listing price (r # rs) = (case price r of Some p \<Rightarrow> Some p | None \<Rightarrow> first_listing price rs)"

text \<open>\<open>None\<close> for a quantity that is not positive (\<open>INVALID_QUANTITY\<close>), which refuses the whole batch.\<close>

definition unit_prices ::
    "product list \<Rightarrow> listing_item list \<Rightarrow> string list \<Rightarrow> (string \<times> rat) list \<Rightarrow> int option list option" where
  "unit_prices products items listings ls =
     (if \<exists>(sku, qty) \<in> set ls. qty \<le> 0 then None
      else Some (map (\<lambda>(sku, qty).
        case product_base products sku of
          None \<Rightarrow> None
        | Some base \<Rightarrow> Some (case first_listing (tier_price items sku qty) (filter (\<lambda>r. r \<noteq> []) listings) of
                              Some p \<Rightarrow> p | None \<Rightarrow> base)) ls))"

end
