(* ===== verification/Pricing.thy ===== *)
theory Pricing
  imports Promotions
begin

text \<open>
  The price of a cart (\<open>shop/modifiers.py\<close>, \<open>shop/handlers/pricing.py\<close>): what the modifiers that
  run after every change of a session do to its lines, to the record of its discounts
  (\<open>session.pricing\<close>) and to its data.

  A line is the dict of \<open>session.items\<close> with the keys of its \<open>meta\<close> that pricing reads as fields;
  \<open>session.pricing\<close> and \<open>session.data\<close> are records of the keys read and written here. A modifier
  works on a copy of the lines and writes it back when it changed something, so it returns the
  lines. Percentages and values typed by the operator are rationals, a product of two Python
  floats is taken as exact. Labels that come from the copy of the shop are arguments.
\<close>

section \<open>Lines and records\<close>

datatype disc_type = Disc_promotion | Disc_coupon | Disc_manual | Disc_lot | Disc_happy

text \<open>\<open>ds_slice\<close> marks a line that carries a slice of a discount of the whole order.\<close>

record disc =
  ds_type :: disc_type
  ds_amount :: int
  ds_label :: string
  ds_slice :: "int option"

record line_manual =
  lm_value :: rat
  lm_fixed :: bool
  lm_reason :: string

record pline =
  pl_id :: string
  pl_sku :: string
  pl_qty :: rat
  pl_unit :: int
  pl_total :: int
  pl_list :: "int option"
  pl_disc :: "disc option"
  pl_batch :: string
  pl_manual :: "line_manual option"
  pl_type :: string
  pl_source :: string

record drec =
  dr_line :: string
  dr_sku :: string
  dr_type :: disc_type
  dr_name :: string
  dr_original :: int
  dr_q :: int
  dr_qty :: rat
  dr_fulfillment :: "string list"
  dr_kind :: "string option"
  dr_group :: "string option"

record savings =
  sv_amount :: int
  sv_group :: string
  sv_kind :: string
  sv_message :: string

record coupon_note =
  cn_code :: string
  cn_q :: int
  cn_reason :: "zero_reason option"

record pricing =
  pr_discount :: "(int \<times> drec list \<times> savings option) option"
  pr_coupon :: "coupon_note option"
  pr_lot :: "(int \<times> string) option"
  pr_happy :: "(int \<times> string) option"
  pr_loyalty :: "(int \<times> string) option"
  pr_manual :: "(int \<times> string) option"
  pr_total :: "(int \<times> nat) option"

definition non_merchandise :: "pline \<Rightarrow> bool" where
  "non_merchandise l \<longleftrightarrow> pl_sku l = ''__DELIVERY_FEE__'' \<or> pl_type l = ''delivery_fee''"

definition merchandise_q :: "pline list \<Rightarrow> int" where
  "merchandise_q ls = sum_where (\<lambda>l. \<not> non_merchandise l) pl_total ls"

section \<open>Quantities, list prices, records\<close>

text \<open>A line without a quantity above zero counts as one unit (\<open>_qty_decimal\<close>, \<open>_line_qty\<close>).\<close>

definition line_qty :: "pline \<Rightarrow> rat" where
  "line_qty l = (if 0 < pl_qty l then pl_qty l else 1)"

definition record_total :: "drec \<Rightarrow> int" where
  "record_total d = monetary_mult (dr_qty d) (dr_q d)"

definition list_price :: "pline \<Rightarrow> int" where
  "list_price l = (case pl_list l of Some q \<Rightarrow> q | None \<Rightarrow> pl_unit l)"

definition current_disc :: "pline \<Rightarrow> int" where
  "current_disc l = max 0 (list_price l - pl_unit l)"

definition round_to_step :: "int \<Rightarrow> int \<Rightarrow> int" where
  "round_to_step price step = (if step \<le> 1 then price else round_half_up (of_int price / of_int step) * step)"

definition percent_off :: "int \<Rightarrow> rat \<Rightarrow> int" where
  "percent_off price percent = round_half_up (of_int price * percent / 100)"

definition stamp_disc :: "disc_type \<Rightarrow> int \<Rightarrow> string \<Rightarrow> int option \<Rightarrow> pline \<Rightarrow> pline" where
  "stamp_disc t amount label slice l =
     l\<lparr>pl_disc := Some \<lparr>ds_type = t, ds_amount = amount, ds_label = label, ds_slice = slice\<rparr>\<rparr>"

definition in_time_window :: "nat \<Rightarrow> nat \<Rightarrow> nat \<Rightarrow> bool" where
  "in_time_window start finish now =
     (if start \<le> finish then start \<le> now \<and> now < finish else start \<le> now \<or> now < finish)"

section \<open>Spreading a discount of the order\<close>

text \<open>An entry of the plan: the quantity, the unit price and the total of a line, and its cut per unit.\<close>

record entry =
  en_qty :: rat
  en_unit :: int
  en_total :: int
  en_per :: int

definition en_cost :: "entry \<Rightarrow> int \<Rightarrow> int" where
  "en_cost e p = en_total e - monetary_mult (en_qty e) (en_unit e - p)"

definition en_step :: "entry \<Rightarrow> int" where
  "en_step e = en_cost e (en_per e + 1) - en_cost e (en_per e)"

definition bump :: "entry \<Rightarrow> entry" where
  "bump e = e\<lparr>en_per := en_per e + 1\<rparr>"

text \<open>The two loops that look for the largest cut per unit within the share of a line.\<close>

function fit_down :: "entry \<Rightarrow> int \<Rightarrow> int \<Rightarrow> int" where
  "fit_down e share p = (if 0 < p \<and> share < en_cost e p then fit_down e share (p - 1) else p)"
  by auto
termination by (relation "measure (\<lambda>(e, share, p). nat p)") auto

function fit_up :: "entry \<Rightarrow> int \<Rightarrow> int \<Rightarrow> int" where
  "fit_up e share p = (if p < en_unit e \<and> en_cost e (p + 1) \<le> share then fit_up e share (p + 1) else p)"
  by auto
termination by (relation "measure (\<lambda>(e, share, p). nat (en_unit e - p))") auto

declare fit_down.simps [simp del] fit_up.simps [simp del]

definition fit_entry :: "pline \<Rightarrow> int \<Rightarrow> entry" where
  "fit_entry l share =
     (let e = \<lparr>en_qty = line_qty l, en_unit = pl_unit l, en_total = pl_total l, en_per = 0\<rparr>;
          guess = max 0 (min (pl_unit l) \<lfloor>of_int share / line_qty l\<rfloor>) in
      e\<lparr>en_per := fit_up e share (fit_down e share guess)\<rparr>)"

text \<open>The share of each line: proportional, what remains for the last one.\<close>

fun spread_shares :: "int \<Rightarrow> int \<Rightarrow> int \<Rightarrow> pline list \<Rightarrow> int list" where
  "spread_shares amount subtotal remaining [] = []"
| "spread_shares amount subtotal remaining (l # ls) =
     (let quota = (if ls = [] then remaining else round_half_up (of_int (amount * pl_total l) / of_int subtotal));
          share = max 0 (min (min quota (pl_total l)) remaining) in
      share # spread_shares amount subtotal (remaining - share) ls)"

definition plan_cost :: "entry list \<Rightarrow> int" where
  "plan_cost plan = sum_list (map (\<lambda>e. en_cost e (en_per e)) plan)"

text \<open>The lines that can still be cut, the cheapest cent per unit first.\<close>

definition candidates :: "entry list \<Rightarrow> nat list" where
  "candidates plan = sort_key (\<lambda>i. en_step (plan ! i)) (filter (\<lambda>i. en_per (plan ! i) < en_unit (plan ! i)) [0..<length plan])"

function pour :: "int \<Rightarrow> entry list \<Rightarrow> int \<times> entry list" where
  "pour remaining plan =
     (if remaining \<le> 0 then (remaining, plan)
      else case find (\<lambda>i. 0 < en_step (plan ! i) \<and> en_step (plan ! i) \<le> remaining) (candidates plan) of
        None \<Rightarrow> (remaining, plan)
      | Some i \<Rightarrow> pour (remaining - en_step (plan ! i)) (plan[i := bump (plan ! i)]))"
  by auto
termination
  by (relation "measure (\<lambda>(remaining, plan). nat remaining)") (auto simp: find_Some_iff)

declare pour.simps [simp del]

definition top_up :: "int \<Rightarrow> entry list \<Rightarrow> entry list" where
  "top_up remaining plan =
     (if remaining \<le> 0 then plan
      else case filter (\<lambda>i. 0 < en_step (plan ! i)) (candidates plan) of
        [] \<Rightarrow> plan | i # _ \<Rightarrow> plan[i := bump (plan ! i)])"

definition spread_plan :: "bool \<Rightarrow> int \<Rightarrow> pline list \<Rightarrow> entry list" where
  "spread_plan at_least amount ls =
     (let subtotal = sum_list (map pl_total ls); a = min amount subtotal;
          plan = map2 fit_entry ls (spread_shares a subtotal a ls) in
      case pour (a - plan_cost plan) plan of
        (remaining, plan1) \<Rightarrow> if at_least then top_up remaining plan1 else plan1)"

definition spread_pers :: "bool \<Rightarrow> int \<Rightarrow> pline list \<Rightarrow> int list" where
  "spread_pers at_least amount ls =
     (if sum_list (map pl_total ls) \<le> 0 \<or> amount \<le> 0 then map (\<lambda>_. 0) ls
      else map en_per (spread_plan at_least amount ls))"

definition cut_line :: "int \<Rightarrow> pline \<Rightarrow> pline" where
  "cut_line p l = l\<lparr>pl_unit := pl_unit l - p, pl_total := monetary_mult (line_qty l) (pl_unit l - p)\<rparr>"

text \<open>The cuts go back to the lines they were computed for; the others keep their price.\<close>

fun assign_cuts :: "(pline \<Rightarrow> bool) \<Rightarrow> pline list \<Rightarrow> int list \<Rightarrow> (pline \<times> int) list" where
  "assign_cuts ok [] ps = []"
| "assign_cuts ok (l # ls) ps =
     (if ok l then (case ps of [] \<Rightarrow> (l, 0) # assign_cuts ok ls [] | p # qs \<Rightarrow> (l, p) # assign_cuts ok ls qs)
      else (l, 0) # assign_cuts ok ls ps)"

text \<open>
  \<open>_spread_order_discount\<close> over the lines the caller selects, with the stamp of the caller: the
  lines, and what was really taken off.
\<close>

definition spread_order_discount ::
    "bool \<Rightarrow> int \<Rightarrow> (pline \<Rightarrow> bool) \<Rightarrow> (int \<Rightarrow> int \<Rightarrow> pline \<Rightarrow> pline) \<Rightarrow> pline list \<Rightarrow> pline list \<times> int" where
  "spread_order_discount at_least amount ok stamp ls =
     (let sel = (\<lambda>l. ok l \<and> 0 < pl_total l);
          cuts = assign_cuts sel ls (spread_pers at_least amount (filter sel ls)) in
      (map (\<lambda>(l, p). if p \<le> 0 then l else let l1 = cut_line p l in stamp p (pl_total l - pl_total l1) l1) cuts,
       sum_list (map (\<lambda>(l, p). if p \<le> 0 then 0 else pl_total l - pl_total (cut_line p l)) cuts)))"

section \<open>The best discount wins the line\<close>

text \<open>\<open>_reverse_order_level_share\<close>: the first record of the order loses the slice.\<close>

fun reverse_share :: "disc_type \<Rightarrow> int \<Rightarrow> drec list \<Rightarrow> drec list" where
  "reverse_share t share [] = []"
| "reverse_share t share (d # ds) =
     (if share \<noteq> 0 \<and> dr_sku d = [] \<and> dr_type d = t
      then (if dr_q d - share \<le> 0 then ds else d\<lparr>dr_q := dr_q d - share\<rparr> # ds)
      else d # reverse_share t share ds)"

definition record_of_line :: "disc_type \<Rightarrow> pline \<Rightarrow> drec \<Rightarrow> bool" where
  "record_of_line t l d \<longleftrightarrow> dr_type d = t
     \<and> (if pl_id l \<noteq> [] \<and> dr_line d \<noteq> [] then dr_line d = pl_id l else dr_sku d = pl_sku l)"

definition lower_entry :: "int \<Rightarrow> (int \<times> string) option \<Rightarrow> (int \<times> string) option" where
  "lower_entry amount e =
     (case e of None \<Rightarrow> None | Some (t, label) \<Rightarrow> if 0 < t - amount then Some (t - amount, label) else None)"

text \<open>\<open>_reverse_prior_pricing\<close>: what the discount the line carries leaves in the records.\<close>

definition reverse_prior :: "pline \<Rightarrow> pricing \<Rightarrow> pricing" where
  "reverse_prior l pr =
     (case pl_disc l of
        None \<Rightarrow> pr
      | Some d \<Rightarrow>
          (case ds_type d of
             Disc_lot \<Rightarrow> pr\<lparr>pr_lot := lower_entry (monetary_mult (line_qty l) (ds_amount d)) (pr_lot pr)\<rparr>
           | Disc_happy \<Rightarrow> pr\<lparr>pr_happy := lower_entry (monetary_mult (line_qty l) (ds_amount d)) (pr_happy pr)\<rparr>
           | t \<Rightarrow>
               let (items, sv) = (case pr_discount pr of None \<Rightarrow> ([], None) | Some (_, items, sv) \<Rightarrow> (items, sv));
                   kept = (case ds_slice d of
                             Some slice \<Rightarrow> reverse_share t (max 0 slice) items
                           | None \<Rightarrow> filter (\<lambda>r. \<not> record_of_line t l r) items);
                   q = sum_where (\<lambda>r. dr_type r = Disc_coupon) record_total kept in
               pr\<lparr>pr_discount := Some (sum_list (map record_total kept), kept, sv),
                  pr_coupon := (if t = Disc_coupon
                                then map_option (\<lambda>c. if 0 < q then c\<lparr>cn_q := q\<rparr>
                                       else c\<lparr>cn_q := q, cn_reason := Some Reason_already_discounted\<rparr>) (pr_coupon pr)
                                else pr_coupon pr)\<rparr>))"

text \<open>
  One line against a percentage of its list price: it wins only over a smaller discount. Returns
  the line, the records and what was won on the total.
\<close>

definition win_line :: "rat \<Rightarrow> disc_type \<Rightarrow> string \<Rightarrow> pline \<Rightarrow> pricing \<Rightarrow> pline \<times> pricing \<times> int" where
  "win_line percent t label l pr =
     (let mine = percent_off (list_price l) percent in
      if non_merchandise l \<or> list_price l \<le> 0 \<or> mine \<le> current_disc l then (l, pr, 0)
      else (stamp_disc t mine label None
              (l\<lparr>pl_unit := list_price l - mine, pl_total := monetary_mult (line_qty l) (list_price l - mine)\<rparr>),
            reverse_prior l pr, monetary_mult (line_qty l) mine))"

fun win_lines :: "(pline \<Rightarrow> rat option) \<Rightarrow> disc_type \<Rightarrow> string \<Rightarrow> pline list \<Rightarrow> pricing \<Rightarrow> pline list \<times> pricing \<times> int" where
  "win_lines percent t label [] pr = ([], pr, 0)"
| "win_lines percent t label (l # ls) pr =
     (case (case percent l of None \<Rightarrow> (l, pr, 0) | Some p \<Rightarrow> win_line p t label l pr) of
        (l1, pr1, won) \<Rightarrow>
          (case win_lines percent t label ls pr1 of (ls1, pr2, won1) \<Rightarrow> (l1 # ls1, pr2, won + won1)))"

definition entry_of :: "int \<Rightarrow> string \<Rightarrow> (int \<times> string) option" where
  "entry_of won label = (if 0 < won then Some (won, label) else None)"

text \<open>\<open>LotDiscountModifier\<close>; \<open>lot\<close> is the percentage of a batch (\<open>percent_for_lot\<close>).\<close>

definition lot_percent :: "int \<Rightarrow> int option \<Rightarrow> int" where
  "lot_percent declared automatic =
     max (max 0 (min 100 declared)) (case automatic of None \<Rightarrow> 0 | Some a \<Rightarrow> max 0 (min 100 a))"

definition lot_discount :: "(string \<Rightarrow> int option) \<Rightarrow> string \<Rightarrow> pline list \<times> pricing \<Rightarrow> pline list \<times> pricing" where
  "lot_discount lot label = (\<lambda>(ls, pr).
     if ls = [] then (ls, pr)
     else case win_lines (\<lambda>l. if pl_batch l = [] then None
                             else let p = lot_percent 0 (lot (pl_batch l)) in if p \<le> 0 then None else Some (of_int p))
                 Disc_lot label ls pr of
       (ls1, pr1, won) \<Rightarrow> (ls1, pr1\<lparr>pr_lot := entry_of won label\<rparr>))"

record time_rule =
  tm_percent :: rat
  tm_start :: nat
  tm_finish :: nat
  tm_label :: string

text \<open>\<open>TimeWindowDiscountModifier\<close>; the rule is absent when it is off or not for the channel.\<close>

definition time_window_discount :: "time_rule option \<Rightarrow> nat \<Rightarrow> pline list \<times> pricing \<Rightarrow> pline list \<times> pricing" where
  "time_window_discount rule tod = (\<lambda>(ls, pr).
     case rule of
       None \<Rightarrow> (ls, pr)
     | Some r \<Rightarrow>
         if \<not> in_time_window (tm_start r) (tm_finish r) tod then (ls, pr\<lparr>pr_happy := None\<rparr>)
         else (case win_lines (\<lambda>_. Some (tm_percent r)) Disc_happy (tm_label r) ls pr of
                 (ls1, pr1, won) \<Rightarrow> (ls1, pr1\<lparr>pr_happy := entry_of won (tm_label r)\<rparr>)))"

definition offer_price :: "time_rule \<Rightarrow> nat \<Rightarrow> int \<Rightarrow> int" where
  "offer_price r tod list_q =
     (if \<not> in_time_window (tm_start r) (tm_finish r) tod \<or> list_q \<le> 0 then list_q
      else list_q - percent_off list_q (tm_percent r))"

end
