(* ===== verification/PricingSpread.thy ===== *)
theory PricingSpread
  imports Pricing
begin

text \<open>
  What spreading a discount of the order does (\<open>_spread_order_discount\<close>): the cuts stay within
  the price, every line keeps its total the product of quantity and unit price, and what is
  taken off is at most the target, or at least the target when the house promised it.
\<close>

section \<open>Entries\<close>

definition entry_ok :: "entry \<Rightarrow> bool" where
  "entry_ok e \<longleftrightarrow> 0 < en_qty e \<and> en_total e = monetary_mult (en_qty e) (en_unit e) \<and> 0 \<le> en_per e \<and> en_per e \<le> en_unit e"

definition coherent :: "pline \<Rightarrow> bool" where
  "coherent l \<longleftrightarrow> 0 \<le> pl_unit l \<and> pl_total l = monetary_mult (line_qty l) (pl_unit l)"

named_theorems cents "costs of entries"

lemma line_qty_pos [simp]: "0 < line_qty l"
  by (simp add: line_qty_def)

lemma en_cost_0 [cents]: "entry_ok e \<Longrightarrow> en_cost e 0 = 0"
  by (simp add: entry_ok_def en_cost_def)

lemma en_cost_unit [cents]: "en_cost e (en_unit e) = en_total e"
  by (simp add: en_cost_def)

lemma en_cost_mono: "0 < en_qty e \<Longrightarrow> p \<le> p' \<Longrightarrow> en_cost e p \<le> en_cost e p'"
  by (simp add: en_cost_def monetary_mult_mono)

lemma en_cost_bump [cents]: "en_cost (bump e) p = en_cost e p" "en_per (bump e) = en_per e + 1" "en_unit (bump e) = en_unit e"
  by (simp_all add: en_cost_def bump_def)

lemma en_step_nonneg: "0 < en_qty e \<Longrightarrow> 0 \<le> en_step e"
  by (simp add: en_step_def en_cost_mono)

lemma en_step_bounds:
  assumes "0 < en_qty e" "en_per e < en_unit e"
  shows "1 \<le> en_qty e \<Longrightarrow> 1 \<le> en_step e" "en_qty e \<le> 1 \<Longrightarrow> en_step e \<le> 1"
  using monetary_mult_step [of "en_unit e - en_per e - 1" "en_qty e"] assms
  by (simp_all add: en_step_def en_cost_def algebra_simps)

section \<open>The share of a line\<close>

lemma fit_down_facts:
  "0 \<le> p \<Longrightarrow> en_cost e 0 \<le> share \<Longrightarrow> 0 \<le> fit_down e share p \<and> fit_down e share p \<le> p \<and> en_cost e (fit_down e share p) \<le> share"
proof (induction e share p rule: fit_down.induct)
  case (1 e share p)
  show ?case
  proof (cases "0 < p \<and> share < en_cost e p")
    case True
    with 1 have "0 \<le> fit_down e share (p - 1) \<and> fit_down e share (p - 1) \<le> p - 1 \<and> en_cost e (fit_down e share (p - 1)) \<le> share"
      by simp
    with True show ?thesis by (subst (1 2 3) fit_down.simps) auto
  next
    case False
    with 1 have "en_cost e p \<le> share" by (cases "p = 0") auto
    with False 1 show ?thesis by (subst (1 2 3) fit_down.simps) auto
  qed
qed

lemma fit_up_facts:
  "p \<le> en_unit e \<Longrightarrow> en_cost e p \<le> share \<Longrightarrow>
     p \<le> fit_up e share p \<and> fit_up e share p \<le> en_unit e \<and> en_cost e (fit_up e share p) \<le> share
     \<and> (fit_up e share p = en_unit e \<or> share < en_cost e (fit_up e share p + 1))"
proof (induction e share p rule: fit_up.induct)
  case (1 e share p)
  show ?case
  proof (cases "p < en_unit e \<and> en_cost e (p + 1) \<le> share")
    case True
    then have "fit_up e share p = fit_up e share (p + 1)" by (subst fit_up.simps) simp
    with 1 True show ?thesis by auto
  next
    case False
    then have "fit_up e share p = p" by (subst fit_up.simps) auto
    with False 1 show ?thesis by auto
  qed
qed

text \<open>An entry stands for its line with a share that it fills as far as whole cents per unit allow.\<close>

definition fits :: "pline \<Rightarrow> int \<Rightarrow> entry \<Rightarrow> bool" where
  "fits l share e \<longleftrightarrow> entry_ok e \<and> en_qty e = line_qty l \<and> en_unit e = pl_unit l \<and> en_total e = pl_total l
     \<and> en_cost e (en_per e) \<le> share \<and> (en_per e = en_unit e \<or> share < en_cost e (en_per e) + en_step e)"

lemma fit_entry_fits:
  assumes "coherent l" "0 \<le> share"
  shows "fits l share (fit_entry l share)"
proof -
  let ?e = "\<lparr>en_qty = line_qty l, en_unit = pl_unit l, en_total = pl_total l, en_per = 0\<rparr>"
  let ?g = "max 0 (min (pl_unit l) \<lfloor>of_int share / line_qty l\<rfloor>)"
  have ok: "entry_ok ?e" using assms by (simp add: entry_ok_def coherent_def)
  have g: "0 \<le> ?g" "?g \<le> en_unit ?e" using assms(1) by (auto simp: coherent_def)
  have c0: "en_cost ?e 0 \<le> share" using en_cost_0 [OF ok] assms(2) by simp
  note d = fit_down_facts [OF g(1) c0]
  have "fit_down ?e share ?g \<le> en_unit ?e" using d g(2) by linarith
  note u = fit_up_facts [OF this, of share]
  have same: "en_cost (?e\<lparr>en_per := p\<rparr>) q = en_cost ?e q" for p q by (simp add: en_cost_def)
  show ?thesis
    using d u ok unfolding fit_entry_def Let_def fits_def en_step_def same by (auto simp: entry_ok_def)
qed

section \<open>Giving away the residue\<close>

definition grows :: "entry \<Rightarrow> entry \<Rightarrow> bool" where
  "grows e e' \<longleftrightarrow> en_qty e' = en_qty e \<and> en_unit e' = en_unit e \<and> en_total e' = en_total e \<and> en_per e \<le> en_per e' \<and> entry_ok e'"

lemma grows_same: "entry_ok e \<Longrightarrow> grows e e"
  by (simp add: grows_def)

lemma grows_fields:
  assumes "grows e e'"
  shows "en_qty e' = en_qty e" "en_unit e' = en_unit e" "en_total e' = en_total e" "en_cost e' p = en_cost e p"
    "en_per e \<le> en_per e'" "entry_ok e'"
  using assms by (simp_all add: grows_def en_cost_def)

lemma grows_trans: "grows e e' \<Longrightarrow> grows e' e'' \<Longrightarrow> grows e e''"
  by (auto simp: grows_def)

lemma grows_bump: "entry_ok e \<Longrightarrow> en_per e < en_unit e \<Longrightarrow> grows e (bump e)"
  by (simp add: grows_def bump_def entry_ok_def)

lemma plan_cost_bump: "i < length plan \<Longrightarrow> plan_cost (plan[i := bump (plan ! i)]) = plan_cost plan + en_step (plan ! i)"
proof (induction plan arbitrary: i)
  case (Cons e plan)
  then show ?case by (cases i) (simp_all add: plan_cost_def cents en_step_def)
qed simp

lemma candidates_iff: "i \<in> set (candidates plan) \<longleftrightarrow> i < length plan \<and> en_per (plan ! i) < en_unit (plan ! i)"
  by (auto simp: candidates_def)

lemma list_all2_grows_update:
  assumes "list_all2 grows plan plan'" "i < length plan'" "en_per (plan' ! i) < en_unit (plan' ! i)"
  shows "list_all2 grows plan (plan'[i := bump (plan' ! i)])"
proof (rule list_all2_all_nthI)
  show "length plan = length (plan'[i := bump (plan' ! i)])" using assms(1) by (simp add: list_all2_lengthD)
  fix j assume j: "j < length plan"
  with assms(1) have g: "grows (plan ! j) (plan' ! j)" by (simp add: list_all2_nthD)
  show "grows (plan ! j) (plan'[i := bump (plan' ! i)] ! j)"
    using grows_trans [OF g grows_bump] grows_fields(6) [OF g] assms g
    by (cases "j = i") auto
qed

text \<open>The loop keeps the sum, never goes below nothing left, and stops when no cent more fits.\<close>

lemma pour_facts:
  assumes "\<forall>e \<in> set plan. entry_ok e" "pour remaining plan = (r, plan')"
  shows "list_all2 grows plan plan'" "r + plan_cost plan' = remaining + plan_cost plan"
    "0 \<le> remaining \<Longrightarrow> 0 \<le> r" "0 < r \<Longrightarrow> i < length plan' \<Longrightarrow> en_per (plan' ! i) < en_unit (plan' ! i) \<Longrightarrow>
       0 < en_step (plan' ! i) \<Longrightarrow> r < en_step (plan' ! i)"
proof -
  have "list_all2 grows plan plan' \<and> r + plan_cost plan' = remaining + plan_cost plan \<and> (0 \<le> remaining \<longrightarrow> 0 \<le> r)
     \<and> (0 < r \<longrightarrow> (\<forall>i < length plan'. en_per (plan' ! i) < en_unit (plan' ! i) \<longrightarrow> 0 < en_step (plan' ! i) \<longrightarrow> r < en_step (plan' ! i)))"
    using assms
  proof (induction remaining plan arbitrary: r plan' rule: pour.induct)
    case (1 remaining plan)
    let ?ok = "\<lambda>i. 0 < en_step (plan ! i) \<and> en_step (plan ! i) \<le> remaining"
    have refl: "list_all2 grows plan plan" using "1.prems"(1) by (auto simp: grows_same list_all2_same)
    show ?case
    proof (cases "remaining \<le> 0")
      case True
      with "1.prems"(2) have "r = remaining" "plan' = plan" by (simp_all add: pour.simps)
      with True refl show ?thesis by simp
    next
      case pos: False
      show ?thesis
      proof (cases "find ?ok (candidates plan)")
        case None
        with pos "1.prems"(2) have "r = remaining" "plan' = plan" by (simp_all add: pour.simps)
        with pos refl None show ?thesis by (auto simp: find_None_iff candidates_iff not_le)
      next
        case (Some i)
        then have i: "?ok i" "i \<in> set (candidates plan)" by (auto simp: find_Some_iff)
        then have len: "i < length plan" "en_per (plan ! i) < en_unit (plan ! i)" by (simp_all add: candidates_iff)
        let ?plan = "plan[i := bump (plan ! i)]"
        have up: "list_all2 grows plan ?plan" using refl len by (rule list_all2_grows_update)
        then have ok: "\<forall>e \<in> set ?plan. entry_ok e"
          by (metis grows_fields(6) in_set_conv_nth list_all2_lengthD list_all2_nthD2)
        have "pour (remaining - en_step (plan ! i)) ?plan = (r, plan')"
          using "1.prems"(2) pos Some by (simp add: pour.simps [of remaining plan])
        from "1.IH" [OF pos Some ok this] i(1) plan_cost_bump [OF len(1)]
        show ?thesis using list_all2_trans [of grows grows grows, OF grows_trans up] by auto
      qed
    qed
  qed
  then show "list_all2 grows plan plan'" "r + plan_cost plan' = remaining + plan_cost plan"
    "0 \<le> remaining \<Longrightarrow> 0 \<le> r" "0 < r \<Longrightarrow> i < length plan' \<Longrightarrow> en_per (plan' ! i) < en_unit (plan' ! i) \<Longrightarrow>
       0 < en_step (plan' ! i) \<Longrightarrow> r < en_step (plan' ! i)" by auto
qed

section \<open>The shares\<close>

lemma spread_shares_none: "\<forall>l \<in> set ls. 0 < pl_total l \<Longrightarrow> sum_list (spread_shares a s 0 ls) = 0"
  by (induction ls) (auto simp: Let_def)

text \<open>
  The shares are within the totals and the amount. They add up to the amount, unless the last
  line was too small for what remained; then every other line has its quota.
\<close>

definition quota_kept :: "int \<Rightarrow> int \<Rightarrow> pline \<Rightarrow> int \<Rightarrow> bool" where
  "quota_kept a s l share \<longleftrightarrow> share = pl_total l \<or> of_int (a * pl_total l) / of_int s - 1 / 2 \<le> (of_int share :: rat)"

lemma spread_shares_facts:
  assumes "\<forall>l \<in> set ls. 0 < pl_total l" "0 \<le> r" "0 \<le> a" "0 < s"
  shows "list_all2 (\<lambda>l share. 0 \<le> share \<and> share \<le> pl_total l) ls (spread_shares a s r ls)
    \<and> sum_list (spread_shares a s r ls) \<le> r
    \<and> (sum_list (spread_shares a s r ls) = r \<or> list_all2 (quota_kept a s) ls (spread_shares a s r ls))"
  using assms(1,2)
proof (induction ls arbitrary: r)
  case Nil
  then show ?case by simp
next
  case (Cons l ls)
  define q where "q = (if ls = [] then r else round_half_up (of_int (a * pl_total l) / of_int s))"
  define share where "share = max 0 (min (min q (pl_total l)) r)"
  have eq: "spread_shares a s r (l # ls) = share # spread_shares a s (r - share) ls"
    by (simp add: share_def q_def Let_def)
  have l: "0 < pl_total l" "0 \<le> r" using Cons.prems by simp_all
  have "(0 :: rat) \<le> of_int (a * pl_total l) / of_int s"
    using assms(3,4) l by (simp add: zero_le_divide_iff zero_le_mult_iff)
  note near = round_half_up_near [OF this] round_half_up_nonneg [OF this]
  have q0: "0 \<le> q" using near l by (simp add: q_def)
  have b: "0 \<le> share" "share \<le> pl_total l" "share \<le> r" using l q0 by (auto simp: share_def)
  have IH: "list_all2 (\<lambda>l share. 0 \<le> share \<and> share \<le> pl_total l) ls (spread_shares a s (r - share) ls)"
    "sum_list (spread_shares a s (r - share) ls) \<le> r - share"
    "sum_list (spread_shares a s (r - share) ls) = r - share \<or> list_all2 (quota_kept a s) ls (spread_shares a s (r - share) ls)"
    using Cons.IH [of "r - share"] Cons.prems b by auto
  have "sum_list (spread_shares a s (r - share) ls) = r - share \<or> quota_kept a s l share"
  proof (cases "share = r")
    case True
    with spread_shares_none [of ls] Cons.prems show ?thesis by simp
  next
    case False
    then consider "share = pl_total l" | "share = q" "share < r"
      using q0 l b by (auto simp: share_def min_def split: if_splits)
    then show ?thesis
    proof cases
      case 2
      then have "ls \<noteq> []" by (auto simp: q_def)
      with 2 near show ?thesis by (simp add: quota_kept_def q_def)
    qed (simp add: quota_kept_def)
  qed
  with IH b show ?case unfolding eq by auto
qed

section \<open>The plan\<close>

definition shared :: "pline \<Rightarrow> int \<Rightarrow> entry \<Rightarrow> bool" where
  "shared l share e \<longleftrightarrow> (\<exists>e0. fits l share e0 \<and> grows e0 e)"

lemma shared_fields:
  assumes "shared l share e"
  shows "entry_ok e" "en_qty e = line_qty l" "en_unit e = pl_unit l" "en_total e = pl_total l"
  using assms by (auto simp: shared_def grows_def fits_def)

text \<open>An entry that no positive step can grow any more has been given all of its share, and more.\<close>

lemma stuck_share:
  assumes "shared l share e" "share \<le> pl_total l" "en_per e < en_unit e \<Longrightarrow> en_step e \<le> 0"
  shows "en_cost e (en_per e) = pl_total l \<or> share + 1 \<le> en_cost e (en_per e)"
proof (cases "en_per e < en_unit e")
  case False
  with shared_fields [OF assms(1)] have "en_per e = en_unit e" by (simp add: entry_ok_def)
  then show ?thesis using en_cost_unit [of e] shared_fields [OF assms(1)] by simp
next
  case True
  from assms(1) obtain e0 where e0: "fits l share e0" "grows e0 e" by (auto simp: shared_def)
  note g = grows_fields [OF e0(2)]
  have q: "0 < en_qty e" using g(6) by (simp add: entry_ok_def)
  have "en_qty e < 1" using en_step_bounds(1) [OF q True] assms(3) [OF True] by force
  moreover have less: "en_per e0 < en_unit e0" using g True by linarith
  ultimately have s0: "en_step e0 \<le> 1" using en_step_bounds(2) [of e0] q g by simp
  with e0(1) less have full: "en_cost e0 (en_per e0) = share" "en_step e0 = 1" by (auto simp: fits_def)
  have "en_per e \<noteq> en_per e0"
  proof
    assume same: "en_per e = en_per e0"
    then have "en_step e = en_step e0" using g by (simp add: en_step_def)
    with full assms(3) [OF True] show False by simp
  qed
  then have "en_per e0 + 1 \<le> en_per e" using g by linarith
  then have "en_cost e (en_per e0 + 1) \<le> en_cost e (en_per e)" using q by (intro en_cost_mono)
  moreover have "en_cost e (en_per e0 + 1) = share + 1" using full g by (simp add: en_step_def)
  ultimately show ?thesis by simp
qed

lemma sum_nth: "length ls = length es \<Longrightarrow> (\<And>i. i < length ls \<Longrightarrow> f (ls ! i) \<le> g (es ! i)) \<Longrightarrow>
    sum_list (map f ls) \<le> (sum_list (map g es) :: 'a :: ordered_comm_monoid_add)"
proof (induction ls es rule: list_induct2)
  case (Cons l ls e es)
  from Cons.prems [of 0] Cons.IH [OF Cons.prems [of "Suc i" for i, simplified]] show ?case by (auto intro: add_mono)
qed simp

text \<open>When no positive step is left, the whole amount has been given.\<close>

lemma stuck_is_full:
  assumes len: "length sh = length ls" "length plan = length ls"
    and sh: "\<And>i. i < length ls \<Longrightarrow> shared (ls ! i) (sh ! i) (plan ! i)"
    and facts: "list_all2 (\<lambda>l share. 0 \<le> share \<and> share \<le> pl_total l) ls sh"
      "sum_list sh = a \<or> list_all2 (quota_kept a (sum_list (map pl_total ls))) ls sh"
    and a: "0 \<le> a" "a \<le> sum_list (map pl_total ls)" "0 < sum_list (map pl_total ls)" "\<forall>l \<in> set ls. 0 < pl_total l"
    and stuck: "\<And>i. i < length ls \<Longrightarrow> en_per (plan ! i) < en_unit (plan ! i) \<Longrightarrow> en_step (plan ! i) \<le> 0"
  shows "a \<le> plan_cost plan"
proof -
  let ?S = "sum_list (map pl_total ls)" and ?c = "\<lambda>e. en_cost e (en_per e)"
  have full: "?c (plan ! i) = pl_total (ls ! i) \<or> sh ! i + 1 \<le> ?c (plan ! i)" if "i < length ls" for i
    using stuck_share [OF sh [OF that]] stuck [OF that] facts(1) that by (simp add: list_all2_conv_all_nth)
  show ?thesis
  proof (cases "sum_list sh = a")
    case True
    have "sum_list (map id sh) \<le> sum_list (map ?c plan)"
      using len full facts(1) by (intro sum_nth) (fastforce simp: list_all2_conv_all_nth)+
    with True show ?thesis by (simp add: plan_cost_def)
  next
    case False
    with facts(2) have quota: "list_all2 (quota_kept a ?S) ls sh" by blast
    let ?q = "\<lambda>l. of_int (a * pl_total l) / of_int ?S :: rat"
    have "?q (ls ! i) \<le> of_int (?c (plan ! i))" if i: "i < length ls" for i
    proof -
      have t: "0 < pl_total (ls ! i)" using a(4) i by simp
      have "a * pl_total (ls ! i) \<le> ?S * pl_total (ls ! i)" using a t by (simp add: mult_right_mono)
      then have "of_int (a * pl_total (ls ! i)) \<le> (of_int (pl_total (ls ! i)) * of_int ?S :: rat)"
        by (metis mult.commute of_int_le_iff of_int_mult)
      then have top: "?q (ls ! i) \<le> of_int (pl_total (ls ! i))" using a(3) by (simp add: pos_divide_le_eq)
      from full [OF i] show ?thesis
      proof
        assume "?c (plan ! i) = pl_total (ls ! i)"
        with top show ?thesis by simp
      next
        assume more: "sh ! i + 1 \<le> ?c (plan ! i)"
        then have "of_int (sh ! i) + 1 \<le> (of_int (?c (plan ! i)) :: rat)" by linarith
        moreover have "quota_kept a ?S (ls ! i) (sh ! i)" using quota i by (simp add: list_all2_conv_all_nth)
        ultimately show ?thesis using top unfolding quota_kept_def by fastforce
      qed
    qed
    then have "sum_list (map ?q ls) \<le> sum_list (map (\<lambda>e. of_int (?c e)) plan)" using len by (intro sum_nth) simp_all
    moreover have "sum_list (map ?q xs) = of_int (a * sum_list (map pl_total xs)) / of_int ?S" for xs
      by (induction xs) (simp_all add: add_divide_distrib algebra_simps)
    moreover have "sum_list (map (\<lambda>e. of_int (?c e)) es) = (of_int (plan_cost es) :: rat)" for es
      by (induction es) (simp_all add: plan_cost_def)
    ultimately have "of_int (a * ?S) / of_int ?S \<le> (of_int (plan_cost plan) :: rat)" by metis
    with a(3) show ?thesis by simp
  qed
qed

text \<open>The plan: cuts within the price; at most the amount, or at least the amount.\<close>

lemma spread_plan_facts:
  fixes at_least :: bool
  assumes "\<forall>l \<in> set ls. coherent l \<and> 0 < pl_total l" "ls \<noteq> []" "0 < amount"
  defines "a \<equiv> min amount (sum_list (map pl_total ls))" and "plan \<equiv> spread_plan at_least amount ls"
  shows "list_all2 (\<lambda>l e. entry_ok e \<and> en_qty e = line_qty l \<and> en_unit e = pl_unit l \<and> en_total e = pl_total l) ls plan"
    and "\<not> at_least \<Longrightarrow> plan_cost plan \<le> a"
    and "\<not> at_least \<Longrightarrow> e \<in> set plan \<Longrightarrow> en_per e < en_unit e \<Longrightarrow> 0 < en_step e \<Longrightarrow> a < plan_cost plan + en_step e"
    and "at_least \<Longrightarrow> a \<le> plan_cost plan"
proof -
  let ?S = "sum_list (map pl_total ls)"
  have S: "0 < ?S" using assms(1,2)
  proof (induction ls)
    case (Cons l ls)
    then show ?case by (cases ls) auto
  qed simp
  have a: "0 \<le> a" "a \<le> ?S" using S assms(3) by (auto simp: a_def)
  have t: "\<forall>l \<in> set ls. 0 < pl_total l" using assms(1) by blast
  define sh where "sh = spread_shares a ?S a ls"
  note facts = spread_shares_facts [OF t a(1) a(1) S, folded sh_def]
  have len: "length sh = length ls" using list_all2_lengthD [OF conjunct1 [OF facts]] by simp
  define plan0 where "plan0 = map2 fit_entry ls sh"
  have fit: "fits (ls ! i) (sh ! i) (plan0 ! i)" if "i < length ls" for i
    using assms(1) len facts that by (simp add: plan0_def fit_entry_fits list_all2_conv_all_nth)
  have len0: "length plan0 = length ls" using len by (simp add: plan0_def)
  have ok0: "\<forall>e \<in> set plan0. entry_ok e" using fit len0 by (auto simp: in_set_conv_nth fits_def)
  obtain r plan1 where p: "pour (a - plan_cost plan0) plan0 = (r, plan1)" by fastforce
  have final: "plan = (if at_least then top_up r plan1 else plan1)"
    using p unfolding plan_def spread_plan_def Let_def a_def [symmetric] sh_def [symmetric] plan0_def [symmetric] by simp
  note pour = pour_facts [OF ok0 p]
  have len1: "length plan1 = length ls" using pour(1) len0 by (simp add: list_all2_lengthD)
  have sh1: "shared (ls ! i) (sh ! i) (plan1 ! i)" if "i < length ls" for i
    using fit [OF that] pour(1) len0 that by (auto simp: shared_def list_all2_conv_all_nth)
  have "plan_cost plan0 \<le> sum_list sh"
    using sum_nth [of plan0 sh "\<lambda>e. en_cost e (en_per e)" id] fit len len0 by (simp add: plan_cost_def fits_def)
  then have "0 \<le> a - plan_cost plan0" using facts by linarith
  then have r0: "0 \<le> r" using pour(3) by simp
  have sum1: "r + plan_cost plan1 = a" using pour(2) by simp
  have all1: "list_all2 (\<lambda>l e. entry_ok e \<and> en_qty e = line_qty l \<and> en_unit e = pl_unit l \<and> en_total e = pl_total l) ls plan1"
    using shared_fields [OF sh1] len1 by (simp add: list_all2_conv_all_nth)
  show "\<not> at_least \<Longrightarrow> plan_cost plan \<le> a" using final sum1 r0 by simp
  show "\<not> at_least \<Longrightarrow> e \<in> set plan \<Longrightarrow> en_per e < en_unit e \<Longrightarrow> 0 < en_step e \<Longrightarrow> a < plan_cost plan + en_step e"
    using final sum1 r0 pour(4) by (cases "r = 0") (auto simp: in_set_conv_nth)
  show "list_all2 (\<lambda>l e. entry_ok e \<and> en_qty e = line_qty l \<and> en_unit e = pl_unit l \<and> en_total e = pl_total l) ls plan"
  proof (cases "at_least \<and> 0 < r \<and> filter (\<lambda>i. 0 < en_step (plan1 ! i)) (candidates plan1) \<noteq> []")
    case False
    then have "plan = plan1" using final by (auto simp: top_up_def split: list.splits)
    with all1 show ?thesis by simp
  next
    case True
    then obtain i js where i: "filter (\<lambda>i. 0 < en_step (plan1 ! i)) (candidates plan1) = i # js" by (meson neq_Nil_conv)
    then have "i \<in> set (filter (\<lambda>i. 0 < en_step (plan1 ! i)) (candidates plan1))" by simp
    then have "i \<in> set (candidates plan1)" by simp
    then have "i < length plan1" "en_per (plan1 ! i) < en_unit (plan1 ! i)" by (simp_all add: candidates_iff)
    with True i final all1 show ?thesis
      by (auto simp: top_up_def list_all2_conv_all_nth nth_list_update bump_def entry_ok_def)
  qed
  show "a \<le> plan_cost plan" if al: "at_least"
  proof (cases "0 < r")
    case False
    with al final sum1 r0 show ?thesis by (simp add: top_up_def)
  next
    case True
    show ?thesis
    proof (cases "filter (\<lambda>i. 0 < en_step (plan1 ! i)) (candidates plan1)")
      case Nil
      have "a \<le> plan_cost plan1"
      proof (rule stuck_is_full [OF len len1 sh1 _ _ a(1,2) S t])
        show "list_all2 (\<lambda>l share. 0 \<le> share \<and> share \<le> pl_total l) ls sh" using facts by blast
        show "sum_list sh = a \<or> list_all2 (quota_kept a ?S) ls sh" using facts by blast
        show "en_step (plan1 ! i) \<le> 0" if "i < length ls" "en_per (plan1 ! i) < en_unit (plan1 ! i)" for i
          using Nil that len1 by (auto simp: filter_empty_conv candidates_iff not_less)
      qed
      with Nil True al final show ?thesis by (simp add: top_up_def)
    next
      case (Cons i js)
      then have "i \<in> set (filter (\<lambda>i. 0 < en_step (plan1 ! i)) (candidates plan1))" by simp
      then have i: "i \<in> set (candidates plan1)" "0 < en_step (plan1 ! i)" by simp_all
      then have "i < length plan1" "en_per (plan1 ! i) < en_unit (plan1 ! i)" by (simp_all add: candidates_iff)
      with pour(4) [OF True, of i] i(2) have "r < en_step (plan1 ! i)" by simp
      with Cons True al final sum1 plan_cost_bump [OF \<open>i < length plan1\<close>] show ?thesis by (simp add: top_up_def)
    qed
  qed
qed

section \<open>The lines\<close>

lemma assign_cuts_facts:
  "length ps = length (filter sel ls) \<Longrightarrow> map fst (assign_cuts sel ls ps) = ls
     \<and> filter (sel \<circ> fst) (assign_cuts sel ls ps) = zip (filter sel ls) ps
     \<and> (\<forall>(l, p) \<in> set (assign_cuts sel ls ps). \<not> sel l \<longrightarrow> p = 0)"
proof (induction ls arbitrary: ps)
  case (Cons l ls)
  show ?case
  proof (cases "sel l")
    case True
    with Cons.prems obtain p qs where "ps = p # qs" "length qs = length (filter sel ls)" by (cases ps) auto
    with Cons.IH [of qs] True show ?thesis by auto
  next
    case False
    with Cons.IH [of ps] Cons.prems show ?thesis by auto
  qed
qed simp

text \<open>What a cut does to a line: nothing, or a lower unit price, the total that goes with it, and a stamp.\<close>

definition cut_of :: "pline \<Rightarrow> pline \<Rightarrow> bool" where
  "cut_of l l' \<longleftrightarrow> l' = l \<or> (\<exists>p d. 0 < p \<and> p \<le> pl_unit l \<and> l' = (cut_line p l)\<lparr>pl_disc := d\<rparr>)"

lemma cut_of_fields:
  assumes "cut_of l l'"
  shows "pl_id l' = pl_id l" "pl_sku l' = pl_sku l" "pl_qty l' = pl_qty l" "pl_list l' = pl_list l" "pl_type l' = pl_type l"
    "pl_source l' = pl_source l" "line_qty l' = line_qty l" "non_merchandise l' = non_merchandise l"
    "coherent l \<Longrightarrow> coherent l'" "pl_unit l' \<le> pl_unit l"
  using assms by (auto simp: cut_of_def cut_line_def line_qty_def non_merchandise_def coherent_def)

definition only_stamps :: "(int \<Rightarrow> int \<Rightarrow> pline \<Rightarrow> pline) \<Rightarrow> bool" where
  "only_stamps stamp \<longleftrightarrow> (\<forall>p q l. \<exists>d. stamp p q l = l\<lparr>pl_disc := d\<rparr>)"

lemma only_stampsE:
  assumes "only_stamps stamp"
  obtains d where "stamp p q l = l\<lparr>pl_disc := d\<rparr>"
  using assms that unfolding only_stamps_def by blast

lemma only_stamps_stamp_disc [simp]: "only_stamps (\<lambda>p q. stamp_disc t p label (Some q))" "only_stamps (\<lambda>_ _ l. l)"
proof -
  show "only_stamps (\<lambda>p q. stamp_disc t p label (Some q))" unfolding only_stamps_def stamp_disc_def by blast
  have "l = l\<lparr>pl_disc := pl_disc l\<rparr>" for l :: pline by simp
  then show "only_stamps (\<lambda>_ _ l. l)" unfolding only_stamps_def by metis
qed

text \<open>The gain of a line by its cut is the cost of its entry.\<close>

definition gain :: "pline \<Rightarrow> int \<Rightarrow> int" where
  "gain l p = (if p \<le> 0 then 0 else pl_total l - pl_total (cut_line p l))"

lemma entry_gain:
  assumes "coherent l" "entry_ok e" "en_qty e = line_qty l" "en_unit e = pl_unit l" "en_total e = pl_total l"
  shows "gain l (en_per e) = en_cost e (en_per e)"
proof (cases "en_per e = 0")
  case True
  with en_cost_0 [OF assms(2)] show ?thesis by (simp add: gain_def)
next
  case False
  with assms have "0 < en_per e" by (simp add: entry_ok_def)
  with assms show ?thesis by (simp add: gain_def en_cost_def cut_line_def)
qed

lemma sum_gain: "list_all2 (\<lambda>l e. gain l (en_per e) = en_cost e (en_per e)) ls es \<Longrightarrow>
    sum_list (map (\<lambda>(l, p). gain l p) (zip ls (map en_per es))) = plan_cost es"
  by (induction rule: list_all2_induct) (simp_all add: plan_cost_def)

lemma plan_cost_nonneg: "\<forall>e \<in> set plan. entry_ok e \<Longrightarrow> 0 \<le> plan_cost plan"
proof (induction plan)
  case (Cons e plan)
  have "0 \<le> en_cost e (en_per e)"
    using en_cost_mono [of e 0 "en_per e"] en_cost_0 [of e] Cons.prems by (simp add: entry_ok_def)
  with Cons show ?case by (simp add: plan_cost_def)
qed (simp add: plan_cost_def)

lemma spread_pers_facts:
  fixes amount :: int and at_least :: bool
  assumes good: "\<forall>l \<in> set ls. coherent l \<and> 0 < pl_total l"
  defines "ps \<equiv> spread_pers at_least amount ls" and "T \<equiv> sum_list (map pl_total ls)"
  defines "won \<equiv> sum_list (map (\<lambda>(l, p). gain l p) (zip ls ps))"
  shows "list_all2 (\<lambda>l p. 0 \<le> p \<and> p \<le> pl_unit l) ls ps" "0 \<le> won"
    "\<not> at_least \<Longrightarrow> won \<le> max 0 (min amount T)" "at_least \<Longrightarrow> min amount T \<le> won"
proof -
  have "list_all2 (\<lambda>l p. 0 \<le> p \<and> p \<le> pl_unit l) ls ps \<and> 0 \<le> won
      \<and> (\<not> at_least \<longrightarrow> won \<le> max 0 (min amount T)) \<and> (at_least \<longrightarrow> min amount T \<le> won)"
  proof (cases "T \<le> 0 \<or> amount \<le> 0")
    case True
    then have ps: "ps = map (\<lambda>_. 0) ls" by (auto simp: ps_def spread_pers_def T_def)
    have "sum_list (map (\<lambda>(l, p). gain l p) (zip xs (map (\<lambda>_. 0) xs))) = 0" for xs by (induction xs) (auto simp: gain_def)
    then have "won = 0" unfolding won_def ps by blast
    then show ?thesis using True good unfolding ps by (auto simp: list_all2_map2 list_all2_same coherent_def)
  next
    case False
    then have ne: "ls \<noteq> []" "0 < amount" by (auto simp: T_def)
    let ?plan = "spread_plan at_least amount ls"
    have ps: "ps = map en_per ?plan" using False by (simp add: ps_def spread_pers_def T_def)
    note facts = spread_plan_facts [OF good ne, of at_least, folded T_def]
    have cost: "0 \<le> en_per e \<and> en_per e \<le> pl_unit l" "gain l (en_per e) = en_cost e (en_per e)"
      if "l \<in> set ls" "entry_ok e \<and> en_qty e = line_qty l \<and> en_unit e = pl_unit l \<and> en_total e = pl_total l" for l e
    proof -
      have "coherent l" using good that(1) by blast
      with that(2) entry_gain [of l e] show "gain l (en_per e) = en_cost e (en_per e)" by blast
      from that(2) show "0 \<le> en_per e \<and> en_per e \<le> pl_unit l" by (simp add: entry_ok_def)
    qed
    have "list_all2 (\<lambda>l e. gain l (en_per e) = en_cost e (en_per e)) ls ?plan"
      using facts(1) by (rule list.rel_mono_strong) (rule cost)
    then have won: "won = plan_cost ?plan" unfolding won_def ps by (rule sum_gain)
    have "list_all2 (\<lambda>l e. 0 \<le> en_per e \<and> en_per e \<le> pl_unit l) ls ?plan"
      using facts(1) by (rule list.rel_mono_strong) (rule cost)
    then have "list_all2 (\<lambda>l p. 0 \<le> p \<and> p \<le> pl_unit l) ls ps" unfolding ps by (simp add: list_all2_map2)
    moreover have "\<forall>e \<in> set ?plan. entry_ok e" using facts(1) by (auto simp: list_all2_conv_all_nth in_set_conv_nth)
    ultimately show ?thesis using plan_cost_nonneg facts(2,4) False unfolding won by auto
  qed
  then show "list_all2 (\<lambda>l p. 0 \<le> p \<and> p \<le> pl_unit l) ls ps" "0 \<le> won"
    "\<not> at_least \<Longrightarrow> won \<le> max 0 (min amount T)" "at_least \<Longrightarrow> min amount T \<le> won" by auto
qed

definition selected_q :: "(pline \<Rightarrow> bool) \<Rightarrow> pline list \<Rightarrow> int" where
  "selected_q ok ls = sum_where (\<lambda>l. ok l \<and> 0 < pl_total l) pl_total ls"

text \<open>What becomes of a line: nothing, or a cut within its price with the stamp of the caller.\<close>

definition cut_by :: "(int \<Rightarrow> int \<Rightarrow> pline \<Rightarrow> pline) \<Rightarrow> (pline \<Rightarrow> bool) \<Rightarrow> pline \<Rightarrow> pline \<Rightarrow> bool" where
  "cut_by stamp ok l l' \<longleftrightarrow> l' = l
     \<or> ok l \<and> (\<exists>p. 0 < p \<and> p \<le> pl_unit l \<and> l' = stamp p (pl_total l - pl_total (cut_line p l)) (cut_line p l))"

lemma cut_by_cut_of: "only_stamps stamp \<Longrightarrow> cut_by stamp ok l l' \<Longrightarrow> cut_of l l' \<and> (\<not> ok l \<longrightarrow> l' = l)"
  unfolding cut_by_def cut_of_def by (metis only_stampsE)

lemma spread_order_facts:
  assumes "spread_order_discount at_least amount ok stamp ls = (ls', applied)" "only_stamps stamp"
    and "\<And>l. l \<in> set ls \<Longrightarrow> ok l \<Longrightarrow> coherent l"
  shows "list_all2 (cut_by stamp ok) ls ls'"
    and "sum_list (map pl_total ls') = sum_list (map pl_total ls) - applied"
    and "0 \<le> applied"
    and "\<not> at_least \<Longrightarrow> applied \<le> max 0 (min amount (selected_q ok ls))"
    and "at_least \<Longrightarrow> min amount (selected_q ok ls) \<le> applied"
proof -
  let ?sel = "\<lambda>l. ok l \<and> 0 < pl_total l" and ?g = "\<lambda>(l, p). gain l p"
  let ?h = "\<lambda>(l, p). if p \<le> 0 then l else let l1 = cut_line p l in stamp p (pl_total l - pl_total l1) l1"
  define ps where "ps = spread_pers at_least amount (filter ?sel ls)"
  define cuts where "cuts = assign_cuts ?sel ls ps"
  have T: "selected_q ok ls = sum_list (map pl_total (filter ?sel ls))" by (simp add: selected_q_def sum_where_def)
  have "\<forall>l \<in> set (filter ?sel ls). coherent l \<and> 0 < pl_total l" using assms(3) by auto
  note main = spread_pers_facts [OF this, of at_least amount, folded ps_def T]
  note cuts = assign_cuts_facts [OF list_all2_lengthD [OF main(1), symmetric], folded cuts_def]
  have mem: "ok l \<and> p \<le> pl_unit l \<or> p = 0" if "(l, p) \<in> set cuts" for l p
  proof (cases "?sel l")
    case True
    with that have "(l, p) \<in> set (filter (?sel \<circ> fst) cuts)" by simp
    then have "(l, p) \<in> set (zip (filter ?sel ls) ps)" using cuts by simp
    with main(1) True show ?thesis by (auto simp: list_all2_iff)
  qed (use cuts that in auto)
  have out: "ls' = map ?h cuts" "applied = sum_list (map ?g cuts)"
    using assms(1) unfolding spread_order_discount_def Let_def ps_def [symmetric] cuts_def [symmetric] gain_def by auto
  have zero: "?g c = 0" if "c \<in> set cuts" "\<not> (?sel \<circ> fst) c" for c using cuts that by (auto simp: gain_def split: prod.splits)
  have "sum_list (map ?g cs) = sum_list (map ?g (filter (?sel \<circ> fst) cs))"
    if "\<And>c. c \<in> set cs \<Longrightarrow> \<not> (?sel \<circ> fst) c \<Longrightarrow> ?g c = 0" for cs
    using that by (induction cs) (auto simp del: comp_apply)
  from this [OF zero] have "applied = sum_list (map ?g (zip (filter ?sel ls) ps))" unfolding out(2) using cuts by simp
  with main show "0 \<le> applied" "\<not> at_least \<Longrightarrow> applied \<le> max 0 (min amount (selected_q ok ls))"
    "at_least \<Longrightarrow> min amount (selected_q ok ls) \<le> applied" by auto
  have one: "cut_by stamp ok l (?h (l, p)) \<and> pl_total (?h (l, p)) = pl_total l - gain l p" if "(l, p) \<in> set cuts" for l p
  proof (cases "p \<le> 0")
    case False
    with mem [OF that] have p: "0 < p" "p \<le> pl_unit l" "ok l" by auto
    have eq: "?h (l, p) = stamp p (pl_total l - pl_total (cut_line p l)) (cut_line p l)" using False by (simp add: Let_def)
    obtain d where "stamp p (pl_total l - pl_total (cut_line p l)) (cut_line p l) = (cut_line p l)\<lparr>pl_disc := d\<rparr>"
      using assms(2) by (rule only_stampsE)
    then have "pl_total (stamp p (pl_total l - pl_total (cut_line p l)) (cut_line p l)) = pl_total (cut_line p l)" by simp
    moreover have "cut_by stamp ok l (?h (l, p))" unfolding eq cut_by_def using p by blast
    ultimately show ?thesis using False unfolding eq gain_def by simp
  qed (simp add: cut_by_def gain_def)
  have "list_all2 (cut_by stamp ok) (map fst cuts) (map ?h cuts)"
    unfolding list_all2_map1 list_all2_map2 using one by (auto simp: list_all2_same)
  then show "list_all2 (cut_by stamp ok) ls ls'" using cuts out(1) by simp
  have "sum_list (map pl_total (map ?h cs)) = sum_list (map pl_total (map fst cs)) - sum_list (map ?g cs)" if "set cs \<subseteq> set cuts" for cs
    using that
  proof (induction cs)
    case (Cons c cs)
    obtain l p where c: "c = (l, p)" by fastforce
    with Cons.prems one [of l p] have "pl_total (?h c) = pl_total l - gain l p" by simp
    with Cons c show ?case by simp
  qed simp
  from this [of cuts] show "sum_list (map pl_total ls') = sum_list (map pl_total ls) - applied" using cuts out by simp
qed

end
