(* ===== verification/CartPricing.thy ===== *)
theory CartPricing
  imports Pricing
begin

text \<open>
  The modifiers of a session (\<open>shop/modifiers.py\<close>, \<open>shop/handlers/pricing.py\<close>): who buys, the
  price of each line, promotions and coupon, the delivery fee, points, the discount of the
  operator and the total, and the pass that runs them in their order.
\<close>

section \<open>The cart, the context and the house\<close>

record address =
  aw_postal :: string
  aw_neighborhood :: string
  aw_latitude :: "rat option"
  aw_longitude :: "rat option"
  aw_text :: string

text \<open>The keys of \<open>session.data\<close> that pricing reads or writes.\<close>

record cart_data =
  cd_fulfillment :: string
  cd_coupon :: string
  cd_customer :: string
  cd_tiers :: "string list"
  cd_redeem :: int
  cd_applied :: int
  cd_manual_q :: int
  cd_manual_reason :: string
  cd_address :: "address option"
  cd_fee_override :: "int option"
  cd_fee_agreed_by :: string
  cd_fee :: "int option"
  cd_zone_error :: bool
  cd_distance :: "rat option"

record cart =
  ct_internal :: bool
  ct_lines :: "pline list"
  ct_pricing :: pricing
  ct_data :: cart_data

record tier =
  tr_ref :: string
  tr_name :: string
  tr_listing :: string
  tr_kind :: string
  tr_rounding :: "int option"
  tr_savings :: string

record customer =
  cu_ref :: string
  cu_tiers :: "tier list"
  cu_segment :: "string option"
  cu_birthday :: "(nat \<times> nat) option"
  cu_listing :: string

text \<open>The context the modifiers of one pass share; a key that nobody set is \<open>None\<close>.\<close>

record price_ctx =
  cx_listing :: "string option"
  cx_tiers :: "string list option"
  cx_meta :: "tier list"
  cx_segment :: "string option"
  cx_birthday :: "bool option"

text \<open>
  What the pass reads of the shop: the clock and the local day and time, the customers and
  their groups, promotions, coupons, collections of a product, the catalogue, the lots, the
  rule of the time window, the copy, and delivery with its geocoder.
\<close>

record house =
  hs_channel :: string
  hs_now :: int
  hs_day :: "nat \<times> nat"
  hs_time :: nat
  hs_customers :: "customer list"
  hs_tiers :: "tier list"
  hs_promotions :: "promotion list"
  hs_coupons :: "coupon list"
  hs_advantages :: "advantage list"
  hs_collections :: "string \<Rightarrow> string list"
  hs_products :: "product list"
  hs_listings :: "listing_item list"
  hs_options :: "string \<Rightarrow> int"
  hs_lot :: "string \<Rightarrow> int option"
  hs_lot_label :: string
  hs_time_rule :: "time_rule option"
  hs_message :: "string \<Rightarrow> int \<Rightarrow> string \<Rightarrow> string"
  hs_zones :: "zone list"
  hs_bands :: "band list"
  hs_distance :: "rat \<times> rat \<Rightarrow> rat option"
  hs_geocode :: "string \<Rightarrow> (rat \<times> rat) option"
  hs_elsewhere :: "address \<Rightarrow> bool"
  hs_default_fee :: int
  hs_free_above :: int
  hs_fee_id :: string

section \<open>Who buys (\<open>CustomerPricingModifier\<close>, \<open>_resolve_customer_ctx\<close>)\<close>

definition no_ctx :: price_ctx where
  "no_ctx = \<lparr>cx_listing = None, cx_tiers = None, cx_meta = [], cx_segment = None, cx_birthday = None\<rparr>"

definition first_listing_ref :: "tier list \<Rightarrow> string" where
  "first_listing_ref ts = (case filter (\<lambda>t. tr_listing t \<noteq> []) ts of [] \<Rightarrow> [] | t # _ \<Rightarrow> tr_listing t)"

text \<open>\<open>_publish_groups\<close>: the groups of the customer, else the references of the session.\<close>

definition publish_groups :: "tier list \<Rightarrow> string list \<Rightarrow> price_ctx \<Rightarrow> price_ctx" where
  "publish_groups ts fallback cx =
     (let found = filter (\<lambda>r. r \<noteq> []) (map tr_ref ts); refs = (if found = [] then fallback else found) in
      if refs = [] then cx
      else let cx1 = cx\<lparr>cx_tiers := (case cx_tiers cx of None \<Rightarrow> Some refs | Some r \<Rightarrow> Some r)\<rparr> in
           if ts = [] then cx1
           else cx1\<lparr>cx_meta := (if cx_meta cx = [] then ts else cx_meta cx),
                    cx_listing := (case cx_listing cx of None \<Rightarrow> Some (first_listing_ref ts) | x \<Rightarrow> x)\<rparr>)"

definition publish_profile :: "nat \<times> nat \<Rightarrow> customer \<Rightarrow> price_ctx \<Rightarrow> price_ctx" where
  "publish_profile day cu cx =
     cx\<lparr>cx_segment := (case cx_segment cx of None \<Rightarrow> Some (case_option [] id (cu_segment cu)) | x \<Rightarrow> x),
        cx_birthday := (case cx_birthday cx of None \<Rightarrow> Some (birthday_on (cu_birthday cu) day) | x \<Rightarrow> x)\<rparr>"

definition load_tiers :: "house \<Rightarrow> string list \<Rightarrow> tier list" where
  "load_tiers hs refs = List.map_filter (\<lambda>r. row_get tr_ref r (hs_tiers hs)) refs"

definition customer_pricing :: "house \<Rightarrow> cart_data \<Rightarrow> price_ctx" where
  "customer_pricing hs cd =
     (let refs = tier_refs (cd_tiers cd); ref = strip (cd_customer cd) in
      if ref = [] \<and> refs = [] then no_ctx
      else case (if ref = [] then None else row_get cu_ref ref (hs_customers hs)) of
        Some cu \<Rightarrow> publish_profile (hs_day hs) cu (publish_groups (cu_tiers cu) refs (no_ctx\<lparr>cx_listing := Some (cu_listing cu)\<rparr>))
      | None \<Rightarrow>
          let cx = (if refs = [] then no_ctx else publish_groups (load_tiers hs refs) refs no_ctx) in
          cx\<lparr>cx_segment := Some [], cx_birthday := Some False\<rparr>)"

text \<open>
  The discount reads the context again and fills what is missing from the session: its groups,
  when it names some, else the customer's.
\<close>

definition resolve_customer_ctx :: "house \<Rightarrow> cart_data \<Rightarrow> price_ctx \<Rightarrow> price_ctx" where
  "resolve_customer_ctx hs cd cx =
     (let refs = tier_refs (cd_tiers cd);
          cx1 = (if cx_tiers cx = None \<and> refs \<noteq> [] then cx\<lparr>cx_tiers := Some refs\<rparr> else cx) in
      if cd_customer cd = [] \<or> cx_tiers cx1 \<noteq> None \<and> cx_segment cx1 \<noteq> None \<and> cx_birthday cx1 \<noteq> None then cx1
      else case row_get cu_ref (cd_customer cd) (hs_customers hs) of
        None \<Rightarrow> cx1
      | Some cu \<Rightarrow>
          let cx2 = (if cx_tiers cx1 = None \<and> cu_tiers cu \<noteq> [] then publish_groups (cu_tiers cu) [] cx1 else cx1) in
          cx2\<lparr>cx_segment := (case cx_segment cx1 of None \<Rightarrow> cu_segment cu | x \<Rightarrow> x),
              cx_birthday := (case cx_birthday cx1 of
                None \<Rightarrow> (if cu_birthday cu = None then None else Some (birthday_on (cu_birthday cu) (hs_day hs))) | x \<Rightarrow> x)\<rparr>)"

section \<open>The price of a line (\<open>ItemPricingModifier\<close>)\<close>

text \<open>
  An unknown product keeps its price; in a session priced from outside the price is the one of
  the line (the key with the first price is dropped when the lines are normalized). \<open>None\<close>: the
  catalogue refused the batch.
\<close>

definition price_line :: "house \<Rightarrow> int option \<Rightarrow> pline \<Rightarrow> pline" where
  "price_line hs found l =
     (let unit = (case found of None \<Rightarrow> pl_unit l | Some p \<Rightarrow> p + hs_options hs (pl_id l)) in
      l\<lparr>pl_unit := unit, pl_list := Some unit, pl_disc := None, pl_total := monetary_mult (pl_qty l) unit\<rparr>)"

definition item_pricing :: "house \<Rightarrow> price_ctx \<Rightarrow> bool \<Rightarrow> pline list \<Rightarrow> pline list option" where
  "item_pricing hs cx internal ls =
     (if internal then
        map_option (\<lambda>ps. map2 (price_line hs) ps ls)
          (unit_prices (hs_products hs) (hs_listings hs) [case_option [] id (cx_listing cx), hs_channel hs]
             (map (\<lambda>l. (pl_sku l, pl_qty l)) ls))
      else Some (map (price_line hs None) ls))"

section \<open>Promotions, coupon and the operator's discount on a line (\<open>DiscountModifier\<close>)\<close>

definition promotion_context :: "house \<Rightarrow> cart_data \<Rightarrow> price_ctx \<Rightarrow> string \<Rightarrow> int option \<Rightarrow> promo_ctx" where
  "promotion_context hs cd cx sku subtotal =
     \<lparr>px_shopper = \<lparr>sh_segment = case_option [] id (cx_segment cx), sh_tiers = filter (\<lambda>r. r \<noteq> []) (case_option [] id (cx_tiers cx)),
        sh_birthday = case_option False id (cx_birthday cx)\<rparr>,
      px_sku = Some sku, px_collections = hs_collections hs sku, px_fulfillment = Some (cd_fulfillment cd),
      px_subtotal = subtotal, px_promise = False\<rparr>"

definition calc_discount :: "promotion \<Rightarrow> int \<Rightarrow> int" where
  "calc_discount p price =
     (if pm_type p = Percent_off then percent_off price (of_int (min (max (pm_value p) 0) 100))
      else max 0 (min (pm_value p) price))"

text \<open>Python's \<open>round\<close> of a number to an integer: a tie goes to the even one.\<close>

definition round_half_even :: "rat \<Rightarrow> int" where
  "round_half_even x =
     (let n = \<lfloor>x\<rfloor>; d = x - of_int n in
      if d < 1 / 2 \<or> d = 1 / 2 \<and> even n then n else n + 1)"

definition calc_manual :: "line_manual \<Rightarrow> int \<Rightarrow> int" where
  "calc_manual m price =
     (if lm_value m \<le> 0 then 0
      else if lm_fixed m then min (round_half_even (lm_value m * 100)) price
      else min (round_half_up (of_int (round_half_even (of_int price * lm_value m)) / 100)) price)"

text \<open>The group a promotion is the discount of: its reference, its kind and its rounding step.\<close>

definition winning_group :: "string list \<Rightarrow> tier list \<Rightarrow> promotion \<Rightarrow> string \<times> string option \<times> int" where
  "winning_group refs meta p =
     (case find (\<lambda>r. group_discount_ref r = pm_ref p) refs of
        None \<Rightarrow> ([], None, 0)
      | Some r \<Rightarrow>
          (case row_get tr_ref r meta of
             None \<Rightarrow> (r, None, 50)
           | Some t \<Rightarrow> (r, if strip (tr_kind t) = [] then None else Some (strip (tr_kind t)), case_option 50 id (tr_rounding t))))"

record source =
  so_type :: disc_type
  so_name :: string
  so_fulfillment :: "string list"
  so_kind :: "string option"
  so_group :: string

definition promo_source :: "string list \<Rightarrow> tier list \<Rightarrow> promotion \<Rightarrow> source \<times> int" where
  "promo_source refs meta p =
     (let (g, kind, step) = (if pm_ref p \<in> group_discount_ref ` set refs then winning_group refs meta p else ([], None, 0)) in
      (\<lparr>so_type = Disc_promotion, so_name = pm_name p, so_fulfillment = pm_fulfillment p, so_kind = kind, so_group = g\<rparr>, step))"

definition coupon_source :: "string \<Rightarrow> promotion \<Rightarrow> source" where
  "coupon_source code p =
     \<lparr>so_type = Disc_coupon, so_name = code, so_fulfillment = pm_fulfillment p, so_kind = None, so_group = []\<rparr>"

definition manual_source :: "line_manual \<Rightarrow> source" where
  "manual_source m =
     \<lparr>so_type = Disc_manual, so_name = (if lm_reason m = [] then ''manual'' else lm_reason m), so_fulfillment = [],
      so_kind = None, so_group = []\<rparr>"

definition promo_offer :: "string list \<Rightarrow> tier list \<Rightarrow> int \<Rightarrow> promotion \<Rightarrow> int \<times> source" where
  "promo_offer refs meta price p =
     (let d = calc_discount p price; (so, step) = promo_source refs meta p in
      (if 0 < step then max 0 (price - round_to_step (max 0 (price - d)) step) else d, so))"

text \<open>The best offer so far and the next one: a later promotion must be better, the coupon wins a tie.\<close>

definition better :: "int \<times> source option \<Rightarrow> int \<times> source \<Rightarrow> int \<times> source option" where
  "better best offer = (if fst best < fst offer then (fst offer, Some (snd offer)) else best)"

definition line_offers :: "house \<Rightarrow> price_ctx \<Rightarrow> promo_ctx \<Rightarrow> promotion list \<Rightarrow> int \<Rightarrow> (int \<times> source) list" where
  "line_offers hs cx ctx ps price =
     map (promo_offer (case_option [] id (cx_tiers cx)) (cx_meta cx) price)
       (filter (\<lambda>p. pm_type p = Percent_off \<and> promotion_matches p ctx) ps)"

definition best_offer ::
    "house \<Rightarrow> price_ctx \<Rightarrow> promo_ctx \<Rightarrow> promotion list \<Rightarrow> (string \<times> promotion) option \<Rightarrow> line_manual option \<Rightarrow> int \<Rightarrow> int \<times> source option" where
  "best_offer hs cx ctx ps coupon manual price =
     (let best = foldl better (0, None) (line_offers hs cx ctx ps price);
          best1 = (case coupon of
            None \<Rightarrow> best
          | Some (code, p) \<Rightarrow>
              if pm_type p = Percent_off \<and> promotion_matches p ctx \<and> fst best \<le> calc_discount p price
              then (calc_discount p price, Some (coupon_source code p))
              else best) in
      case manual of
        None \<Rightarrow> best1
      | Some m \<Rightarrow> if lm_value m = 0 then best1
                  else better best1 (calc_manual m price, manual_source m))"

definition source_record :: "source \<Rightarrow> int \<Rightarrow> pline \<Rightarrow> drec" where
  "source_record so q l =
     \<lparr>dr_line = pl_id l, dr_sku = pl_sku l, dr_type = so_type so, dr_name = so_name so, dr_original = list_price l,
      dr_q = q, dr_qty = line_qty l, dr_fulfillment = so_fulfillment so, dr_kind = so_kind so,
      dr_group = (if so_group so = [] then None else Some (so_group so))\<rparr>"

definition type_label :: "disc_type \<Rightarrow> string" where
  "type_label t = (case t of Disc_promotion \<Rightarrow> ''promotion'' | Disc_coupon \<Rightarrow> ''coupon'' | Disc_manual \<Rightarrow> ''manual''
     | Disc_lot \<Rightarrow> ''lot_discount'' | Disc_happy \<Rightarrow> ''happy_hour'')"

definition source_label :: "source \<Rightarrow> string" where
  "source_label so = (if so_name so = [] then type_label (so_type so) else so_name so)"

text \<open>One line: the best offer, applied when it beats the discount the line already has.\<close>

definition discount_line ::
    "(pline \<Rightarrow> int \<times> source option) \<Rightarrow> pline \<Rightarrow> pricing \<Rightarrow> pline \<times> pricing \<times> drec list" where
  "discount_line offer l pr =
     (if non_merchandise l \<or> list_price l \<le> 0 then (l, pr, [])
      else case offer l of
        (q, None) \<Rightarrow> (l, pr, [])
      | (q, Some so) \<Rightarrow>
          if q \<le> current_disc l then (l, pr, [])
          else let l1 = l\<lparr>pl_unit := list_price l - q, pl_total := monetary_mult (line_qty l) (list_price l - q)\<rparr> in
               (stamp_disc (so_type so) q (source_label so) None l1, reverse_prior l pr, [source_record so q l]))"

fun discount_lines ::
    "(pline \<Rightarrow> int \<times> source option) \<Rightarrow> pline list \<Rightarrow> pricing \<Rightarrow> pline list \<times> pricing \<times> drec list" where
  "discount_lines offer [] pr = ([], pr, [])"
| "discount_lines offer (l # ls) pr =
     (case discount_line offer l pr of (l1, pr1, ds) \<Rightarrow>
        (case discount_lines offer ls pr1 of (ls1, pr2, es) \<Rightarrow> (l1 # ls1, pr2, ds @ es)))"

text \<open>The discount of a fixed value, once for the order, over the lines without a discount.\<close>

definition fixed_eligible :: "house \<Rightarrow> cart_data \<Rightarrow> price_ctx \<Rightarrow> promotion \<Rightarrow> pline \<Rightarrow> bool" where
  "fixed_eligible hs cd cx p l \<longleftrightarrow> \<not> non_merchandise l \<and> pl_disc l = None \<and> 0 < pl_total l
     \<and> promotion_matches p (promotion_context hs cd cx (pl_sku l) None)"

definition fixed_value :: "(promotion \<Rightarrow> pline \<Rightarrow> bool) \<Rightarrow> pline list \<Rightarrow> int \<Rightarrow> promotion \<Rightarrow> int" where
  "fixed_value eligible ls subtotal p =
     (if pm_type p = Fixed_off \<and> minimum_eligible (pm_min p) subtotal
      then min (max 0 (pm_value p)) (sum_where (eligible p) pl_total ls) else 0)"

fun best_fixed :: "(promotion \<Rightarrow> int) \<Rightarrow> promotion list \<Rightarrow> (int \<times> promotion) option \<Rightarrow> (int \<times> promotion) option" where
  "best_fixed val [] best = best"
| "best_fixed val (p # ps) best =
     best_fixed val ps (if 0 < val p \<and> (case best of None \<Rightarrow> True | Some (v, _) \<Rightarrow> v < val p) then Some (val p, p) else best)"

definition best_fixed_discount ::
    "string list \<Rightarrow> tier list \<Rightarrow> (promotion \<Rightarrow> int) \<Rightarrow> promotion list \<Rightarrow> (string \<times> promotion) option
     \<Rightarrow> (int \<times> source \<times> promotion) option" where
  "best_fixed_discount refs meta val ps coupon =
     (let best = best_fixed val ps None in
      case coupon of
        Some (code, p) \<Rightarrow>
          if 0 < val p \<and> (case best of None \<Rightarrow> True | Some (v, _) \<Rightarrow> v \<le> val p)
          then Some (val p, coupon_source code p, p)
          else map_option (\<lambda>(v, q). (v, fst (promo_source refs meta q), q)) best
      | None \<Rightarrow> map_option (\<lambda>(v, q). (v, fst (promo_source refs meta q), q)) best)"

definition order_record :: "source \<Rightarrow> int \<Rightarrow> drec" where
  "order_record so q =
     \<lparr>dr_line = [], dr_sku = [], dr_type = so_type so, dr_name = so_name so, dr_original = 0, dr_q = q, dr_qty = 1,
      dr_fulfillment = so_fulfillment so, dr_kind = so_kind so, dr_group = (if so_group so = [] then None else Some (so_group so))\<rparr>"

definition savings_of :: "house \<Rightarrow> tier list \<Rightarrow> drec list \<Rightarrow> savings option" where
  "savings_of hs meta ds =
     (let q = sum_where (\<lambda>d. dr_kind d \<noteq> None) record_total ds in
      if q \<le> 0 then None
      else case filter (\<lambda>d. dr_kind d \<noteq> None) ds of
        [] \<Rightarrow> None
      | d # _ \<Rightarrow> Some \<lparr>sv_amount = q, sv_group = dr_name d, sv_kind = case_option [] id (dr_kind d),
                   sv_message = hs_message hs (case row_get tr_ref (case_option [] id (dr_group d)) meta of
                                                 None \<Rightarrow> [] | Some t \<Rightarrow> tr_savings t) q (dr_name d)\<rparr>)"

definition coupon_note_of ::
    "house \<Rightarrow> cart_data \<Rightarrow> price_ctx \<Rightarrow> promotion option \<Rightarrow> int \<Rightarrow> pline list \<Rightarrow> int \<Rightarrow> coupon_note option" where
  "coupon_note_of hs cd cx promo subtotal ls q =
     (if cd_coupon cd = [] then None
      else Some \<lparr>cn_code = cd_coupon cd, cn_q = q,
                cn_reason = (if 0 < q then None
                  else Some (coupon_zero_reason promo (promotion_context hs cd cx [] (Some subtotal))
                    (map (\<lambda>l. promotion_context hs cd cx (pl_sku l) None) (filter (\<lambda>l. \<not> non_merchandise l) ls))))\<rparr>)"

definition has_manual :: "pline list \<Rightarrow> bool" where
  "has_manual ls \<longleftrightarrow> (\<exists>l \<in> set ls. \<not> non_merchandise l \<and> (case pl_manual l of None \<Rightarrow> False | Some m \<Rightarrow> lm_value m \<noteq> 0))"

definition cart_coupon :: "house \<Rightarrow> cart_data \<Rightarrow> promotion option" where
  "cart_coupon hs cd =
     (if cd_coupon cd = [] then None
      else coupon_promotion (cd_coupon cd) (hs_now hs) (hs_channel hs) (hs_coupons hs) (hs_promotions hs))"

definition cart_discount :: "house \<Rightarrow> cart_data \<Rightarrow> price_ctx \<Rightarrow> pline list \<times> pricing \<Rightarrow> pline list \<times> pricing" where
  "cart_discount hs cd cx = (\<lambda>(ls, pr).
     let ps = active_promotions (hs_now hs) (hs_channel hs) (hs_coupons hs) (hs_promotions hs);
         cp = cart_coupon hs cd; coupon = map_option (\<lambda>p. (cd_coupon cd, p)) cp in
     if ps = [] \<and> cp = None \<and> \<not> has_manual ls then (ls, pr\<lparr>pr_coupon := None, pr_discount := None\<rparr>)
     else
       let subtotal = merchandise_q ls; refs = case_option [] id (cx_tiers cx); meta = cx_meta cx;
           offer = (\<lambda>l. best_offer hs cx (promotion_context hs cd cx (pl_sku l) (Some subtotal)) ps coupon (pl_manual l) (list_price l));
           eligible = fixed_eligible hs cd cx in
       case discount_lines offer ls pr of (ls1, pr1, ds) \<Rightarrow>
       case (case best_fixed_discount refs meta (fixed_value eligible ls1 subtotal) ps coupon of
               None \<Rightarrow> (ls1, ds)
             | Some (v, so, p) \<Rightarrow>
                 (case spread_order_discount True v (eligible p) (\<lambda>per q. stamp_disc (so_type so) per (source_label so) (Some q)) ls1 of
                    (ls2, applied) \<Rightarrow> (ls2, if 0 < applied then ds @ [order_record so applied] else ds))) of
         (ls2, ds2) \<Rightarrow>
           (ls2, pr1\<lparr>pr_discount := Some (sum_list (map record_total ds2), ds2, savings_of hs meta ds2),
                     pr_coupon := coupon_note_of hs cd cx cp subtotal ls2
                       (sum_where (\<lambda>d. dr_type d = Disc_coupon) record_total ds2)\<rparr>))"

section \<open>Delivery (\<open>DeliveryFeeModifier\<close>)\<close>

definition promotion_shopper :: "house \<Rightarrow> customer \<Rightarrow> shopper" where
  "promotion_shopper hs cu =
     \<lparr>sh_segment = case_option [] id (cu_segment cu), sh_tiers = map tr_ref (cu_tiers cu),
      sh_birthday = birthday_on (cu_birthday cu) (hs_day hs)\<rparr>"

definition free_delivery_covers :: "house \<Rightarrow> string \<Rightarrow> int \<Rightarrow> promotion \<Rightarrow> bool" where
  "free_delivery_covers hs customer_ref merchandise p =
     (let ctx = no_question\<lparr>px_fulfillment := Some ''delivery'', px_subtotal := Some merchandise\<rparr> in
      if promotion_matches p ctx then True
      else if customer_ref = [] \<or> promotion_matches p no_question then False
      else case row_get cu_ref customer_ref (hs_customers hs) of
        None \<Rightarrow> False
      | Some cu \<Rightarrow> promotion_matches p (ctx\<lparr>px_shopper := promotion_shopper hs cu\<rparr>))"

fun best_remaining :: "int \<Rightarrow> promotion list \<Rightarrow> (int \<times> promotion) option \<Rightarrow> (int \<times> promotion) option" where
  "best_remaining base [] best = best"
| "best_remaining base (p # ps) best =
     (let r = (if pm_value p \<le> 0 then 0 else max 0 (base - pm_value p)) in
      best_remaining base ps (case best of None \<Rightarrow> Some (r, p) | Some (v, _) \<Rightarrow> if r < v then Some (r, p) else best))"

definition best_free_delivery :: "house \<Rightarrow> int \<Rightarrow> int \<Rightarrow> string \<Rightarrow> string \<Rightarrow> (int \<times> promotion) option" where
  "best_free_delivery hs base merchandise customer_ref code =
     (let found = filter (\<lambda>p. pm_type p = Free_delivery)
            (active_promotions (hs_now hs) (hs_channel hs) (hs_coupons hs) (hs_promotions hs)
             @ (if code = [] then []
                else case coupon_promotion code (hs_now hs) (hs_channel hs) (hs_coupons hs) (hs_promotions hs) of
                  None \<Rightarrow> [] | Some p \<Rightarrow> [p])) in
      best_remaining base (filter (free_delivery_covers hs customer_ref merchandise) found) None)"

datatype waiver_reason = Waiver_none | Waiver_threshold int | Waiver_promotion string | Waiver_group string int

definition delivery_fee_waiver ::
    "house \<Rightarrow> int \<Rightarrow> int \<Rightarrow> string \<Rightarrow> string \<Rightarrow> string list \<Rightarrow> int \<times> waiver_reason" where
  "delivery_fee_waiver hs base merchandise customer_ref code refs =
     (if base \<le> 0 then (base, Waiver_none)
      else
        let best = (if hs_free_above hs \<noteq> 0 \<and> hs_free_above hs \<le> merchandise
                    then (0, Waiver_threshold (hs_free_above hs)) else (base, Waiver_none));
            best1 = (if hs_channel hs = [] then best
                     else case best_free_delivery hs base merchandise customer_ref code of
                       None \<Rightarrow> best
                     | Some (r, p) \<Rightarrow> if r \<le> fst best then (r, Waiver_promotion (pm_name p)) else best) in
        case group_free_shipping_for_order (best_free_shipping refs (hs_advantages hs)) merchandise of
          None \<Rightarrow> best1
        | Some a \<Rightarrow> (0, Waiver_group (ad_tier_name a) (free_shipping_minimum a)))"

definition operator_agreed_fee :: "cart_data \<Rightarrow> int option" where
  "operator_agreed_fee cd = (if cd_fee_agreed_by cd = [] then None else map_option (max 0) (cd_fee_override cd))"

text \<open>The fee before any waiver, the distance, and whether the house does not deliver there.\<close>

definition resolve_fee :: "house \<Rightarrow> address \<Rightarrow> int \<times> rat option \<times> bool" where
  "resolve_fee hs addr =
     (let d = (case (aw_latitude addr, aw_longitude addr) of (Some lat, Some lng) \<Rightarrow> hs_distance hs (lat, lng) | _ \<Rightarrow> None) in
      case match_zone (strip (aw_postal addr)) (strip (aw_neighborhood addr)) (hs_zones hs) of
        Some z \<Rightarrow> if zn_exclude z then (0, d, True) else (zn_fee z, d, False)
      | None \<Rightarrow>
          let d1 = (if d = None \<and> aw_text addr \<noteq> []
                    then (case hs_geocode hs (aw_text addr) of None \<Rightarrow> None | Some c \<Rightarrow> hs_distance hs c) else d) in
          case d1 of
            Some km \<Rightarrow> (case match_band km (hs_bands hs) of Some b \<Rightarrow> (bd_fee b, d1, False) | None \<Rightarrow> (0, d1, True))
          | None \<Rightarrow> if hs_elsewhere hs addr then (0, None, True) else (hs_default_fee hs, None, False))"

definition fee_source :: string where
  "fee_source = ''shop.delivery_fee''"

definition fee_line :: "string \<Rightarrow> int \<Rightarrow> pline" where
  "fee_line line_id fee =
     \<lparr>pl_id = line_id, pl_sku = ''__DELIVERY_FEE__'', pl_qty = 1, pl_unit = fee, pl_total = monetary_mult 1 fee,
      pl_list = None, pl_disc = None, pl_batch = [], pl_manual = None, pl_type = ''delivery_fee'', pl_source = fee_source\<rparr>"

text \<open>\<open>_sync_fee_line\<close>: what is charged is the line; a fee line of another origin is left alone.\<close>

definition sync_fee_line :: "string \<Rightarrow> int option \<Rightarrow> pline list \<Rightarrow> pline list" where
  "sync_fee_line fresh fee ls =
     (if \<exists>l \<in> set ls. non_merchandise l \<and> pl_source l \<noteq> fee_source then ls
      else let ours = filter (\<lambda>l. pl_source l = fee_source) ls; others = filter (\<lambda>l. pl_source l \<noteq> fee_source) ls in
           case fee of
             None \<Rightarrow> others
           | Some q \<Rightarrow>
               if q \<le> 0 \<or> (\<forall>l \<in> set others. non_merchandise l) then others
               else (case ours of
                       [l] \<Rightarrow> if pl_unit l = q then ls else others @ [fee_line (pl_id l) q]
                     | [] \<Rightarrow> others @ [fee_line fresh q]
                     | l # _ \<Rightarrow> others @ [fee_line (if pl_id l = [] then fresh else pl_id l) q]))"

definition delivery_fee :: "house \<Rightarrow> price_ctx \<Rightarrow> pricing \<Rightarrow> pline list \<times> cart_data \<Rightarrow> pline list \<times> cart_data" where
  "delivery_fee hs cx pr = (\<lambda>(ls, cd).
     if cd_fulfillment cd \<noteq> ''delivery''
     then (sync_fee_line (hs_fee_id hs) None ls, cd\<lparr>cd_fee := None, cd_zone_error := False, cd_distance := None\<rparr>)
     else case operator_agreed_fee cd of
       Some q \<Rightarrow> (sync_fee_line (hs_fee_id hs) None ls, cd\<lparr>cd_fee := Some q, cd_zone_error := False\<rparr>)
     | None \<Rightarrow>
         (case cd_address cd of
            None \<Rightarrow> (sync_fee_line (hs_fee_id hs) None ls, cd)
          | Some addr \<Rightarrow>
              if strip (aw_postal addr) = [] \<and> strip (aw_neighborhood addr) = [] \<and> aw_latitude addr = None \<and> aw_longitude addr = None
              then (sync_fee_line (hs_fee_id hs) None ls, cd)
              else case resolve_fee hs addr of
                (base, km, blocked) \<Rightarrow>
                  let cd1 = cd\<lparr>cd_distance := map_option (\<lambda>d. of_int (round_half_even (d * 10)) / 10) km\<rparr> in
                  if blocked then (sync_fee_line (hs_fee_id hs) None ls, cd1\<lparr>cd_zone_error := True, cd_fee := None\<rparr>)
                  else let fee = fst (delivery_fee_waiver hs base
                               (merchandise_q ls + (case pr_coupon pr of None \<Rightarrow> 0 | Some c \<Rightarrow> cn_q c))
                               (cd_customer cd) (cd_coupon cd) (case_option [] id (cx_tiers cx))) in
                       (sync_fee_line (hs_fee_id hs) (Some fee) ls, cd1\<lparr>cd_fee := Some fee, cd_zone_error := False\<rparr>)))"

section \<open>Points, the operator's discount, the total\<close>

text \<open>\<open>LoyaltyRedeemModifier\<close>: the lines, the records and the points the order will debit.\<close>

definition loyalty_redeem :: "pline list \<times> pricing \<times> cart_data \<Rightarrow> pline list \<times> pricing \<times> cart_data" where
  "loyalty_redeem = (\<lambda>(ls, pr, cd).
     if cd_redeem cd \<le> 0 then (ls, pr\<lparr>pr_loyalty := None\<rparr>, cd\<lparr>cd_applied := 0\<rparr>)
     else let q = min (cd_redeem cd) (merchandise_q ls) in
          if q \<le> 0 then (ls, pr, cd\<lparr>cd_applied := 0\<rparr>)
          else case spread_order_discount False q (\<lambda>l. \<not> non_merchandise l) (\<lambda>_ _ l. l) ls of
            (ls1, applied) \<Rightarrow> (ls1, pr\<lparr>pr_loyalty := Some (applied, ''Resgate de pontos'')\<rparr>, cd\<lparr>cd_applied := applied\<rparr>))"

definition manual_discount :: "cart_data \<Rightarrow> pline list \<times> pricing \<Rightarrow> pline list \<times> pricing" where
  "manual_discount cd = (\<lambda>(ls, pr).
     if cd_manual_q cd \<le> 0 then (ls, pr\<lparr>pr_manual := None\<rparr>)
     else let q = min (cd_manual_q cd) (merchandise_q ls) in
          if q \<le> 0 then (ls, pr)
          else case spread_order_discount False q (\<lambda>l. \<not> non_merchandise l) (\<lambda>_ _ l. l) ls of
            (ls1, applied) \<Rightarrow>
              (ls1, pr\<lparr>pr_manual := Some (applied, if cd_manual_reason cd = [] then ''Desconto manual''
                                        else ''Desconto ('' @ cd_manual_reason cd @ '')'')\<rparr>))"

definition session_total :: "pline list \<times> pricing \<Rightarrow> pline list \<times> pricing" where
  "session_total = (\<lambda>(ls, pr). (ls, pr\<lparr>pr_total := Some (sum_list (map pl_total ls), length ls)\<rparr>))"

section \<open>The pass\<close>

text \<open>The infrastructure (\<open>pricing.*\<close>) always runs, the rest when the channel does not leave it out.\<close>

definition runs :: "string list option \<Rightarrow> string \<Rightarrow> bool" where
  "runs allowed code \<longleftrightarrow> starts_with code ''pricing.'' \<or> (case allowed of None \<Rightarrow> True | Some cs \<Rightarrow> code \<in> set cs)"

definition when_runs :: "string list option \<Rightarrow> string \<Rightarrow> ('a \<Rightarrow> 'a) \<Rightarrow> 'a \<Rightarrow> 'a" where
  "when_runs allowed code f x = (if runs allowed code then f x else x)"

text \<open>The modifiers in the order of their \<open>order\<close>: 5, 10, 15, 20, 65, 70, 80, 85, 90.\<close>

definition reprice :: "house \<Rightarrow> string list option \<Rightarrow> cart \<Rightarrow> cart option" where
  "reprice hs allowed c =
     (let cd = ct_data c; cx = customer_pricing hs cd in
      case item_pricing hs cx (ct_internal c) (ct_lines c) of
        None \<Rightarrow> None
      | Some ls \<Rightarrow>
          let s15 = when_runs allowed ''shop.lot_discount'' (lot_discount (hs_lot hs) (hs_lot_label hs)) (ls, ct_pricing c);
              cx20 = (if runs allowed ''shop.discount'' then resolve_customer_ctx hs cd cx else cx);
              s20 = when_runs allowed ''shop.discount'' (cart_discount hs cd cx20) s15;
              (ls65, pr65) = when_runs allowed ''shop.happy_hour'' (time_window_discount (hs_time_rule hs) (hs_time hs)) s20;
              (ls70, cd70) = when_runs allowed ''shop.delivery_fee'' (delivery_fee hs cx20 pr65) (ls65, cd);
              (ls80, pr80, cd80) = when_runs allowed ''shop.loyalty_redeem'' loyalty_redeem (ls70, pr65, cd70);
              s85 = when_runs allowed ''shop.manual_discount'' (manual_discount cd80) (ls80, pr80);
              (ls90, pr90) = session_total s85 in
          Some \<lparr>ct_internal = ct_internal c, ct_lines = ls90, ct_pricing = pr90, ct_data = cd80\<rparr>)"

end
