(* ===== verification/PricingLines.thy ===== *)
theory PricingLines
  imports PricingSpread CartPricing
begin

text \<open>
  What every modifier keeps of a line: its unit price is the list price less the discount it
  carries, never below zero, and its total is quantity times unit price.
\<close>

section \<open>Discounts stay within the price\<close>

lemma percent_off_bounds:
  assumes "0 \<le> price" "0 \<le> percent" "percent \<le> 100"
  shows "0 \<le> percent_off price percent" "percent_off price percent \<le> price"
proof -
  show "0 \<le> percent_off price percent" using assms by (simp add: percent_off_def round_half_up_nonneg)
  have "of_int price * percent / 100 \<le> of_int price * 1" using assms by (simp add: mult_left_mono)
  then have "percent_off price percent \<le> round_half_up (of_int price)"
    unfolding percent_off_def by (intro round_half_up_mono) simp
  then show "percent_off price percent \<le> price" by simp
qed

lemma calc_discount_bounds: "0 \<le> price \<Longrightarrow> 0 \<le> calc_discount p price \<and> calc_discount p price \<le> price"
  using percent_off_bounds [of price "of_int (min (max (pm_value p) 0) 100)"]
  by (auto simp: calc_discount_def min_def max_def)

lemma round_to_step_nonneg: "0 \<le> price \<Longrightarrow> 0 \<le> round_to_step price step"
  by (auto simp: round_to_step_def intro!: mult_nonneg_nonneg round_half_up_nonneg)

lemma promo_offer_bounds: "0 \<le> price \<Longrightarrow> fst (promo_offer refs meta price p) \<le> price"
  using calc_discount_bounds [of price p]
    round_to_step_nonneg [of "max 0 (price - calc_discount p price)" "snd (promo_source refs meta p)"]
  by (auto simp: promo_offer_def Let_def split: prod.splits)

lemma foldl_better:
  "fst best \<le> price \<Longrightarrow> (\<And>x. x \<in> set offers \<Longrightarrow> fst x \<le> price) \<Longrightarrow> fst (foldl better best offers) \<le> price"
  by (induction offers arbitrary: best) (auto simp: better_def)

lemma best_offer_bounds:
  assumes "0 \<le> price"
  shows "fst (best_offer hs cx ctx ps coupon manual price) \<le> price"
proof -
  let ?best = "foldl better (0, None) (line_offers hs cx ctx ps price)"
  have "fst ?best \<le> price"
    using promo_offer_bounds [OF assms] assms by (intro foldl_better) (auto simp: line_offers_def)
  moreover have "calc_manual m price \<le> price" for m using assms by (simp add: calc_manual_def)
  ultimately show ?thesis using calc_discount_bounds [OF assms]
    by (auto simp: best_offer_def Let_def better_def split: option.split prod.split)
qed

section \<open>The state of a line\<close>

definition disc_q :: "pline \<Rightarrow> int" where
  "disc_q l = (case pl_disc l of None \<Rightarrow> 0 | Some d \<Rightarrow> ds_amount d)"

text \<open>What the list price asks for the line, and what is taken off it.\<close>

definition gross :: "pline \<Rightarrow> int" where
  "gross l = monetary_mult (line_qty l) (list_price l)"

definition off :: "pline \<Rightarrow> int" where
  "off l = gross l - pl_total l"

definition priced :: "pline \<Rightarrow> bool" where
  "priced l \<longleftrightarrow> pl_list l \<noteq> None \<and> 0 \<le> pl_unit l \<and> pl_unit l = list_price l - disc_q l \<and> pl_total l = monetary_mult (line_qty l) (pl_unit l)
     \<and> (case pl_disc l of
          None \<Rightarrow> True
        | Some d \<Rightarrow> 0 < ds_amount d \<and> (case ds_slice d of None \<Rightarrow> True | Some q \<Rightarrow> q = off l))"

named_theorems line "lines and their discounts"

lemma priced_coherent: "priced l \<Longrightarrow> coherent l"
  by (simp add: priced_def coherent_def)

lemma priced_current: "priced l \<Longrightarrow> current_disc l = disc_q l \<and> 0 \<le> disc_q l"
  by (auto simp: priced_def current_disc_def disc_q_def split: option.splits)

lemma priced_list: "priced l \<Longrightarrow> 0 \<le> list_price l"
  using priced_current [of l] by (simp add: priced_def)

lemma priced_off_nonneg: "priced l \<Longrightarrow> 0 \<le> off l"
  using priced_current [of l] by (simp add: priced_def off_def gross_def monetary_mult_mono less_imp_le [OF line_qty_pos])

lemma priced_clean: "priced l \<Longrightarrow> pl_disc l = None \<Longrightarrow> pl_unit l = list_price l \<and> off l = 0"
  by (simp add: priced_def disc_q_def off_def gross_def)

text \<open>A whole quantity: the cut of the total is the quantity times the cut per unit.\<close>

definition whole :: "pline \<Rightarrow> bool" where
  "whole l \<longleftrightarrow> (\<exists>k. 0 < k \<and> pl_qty l = of_int k)"

lemma monetary_mult_diff: "monetary_mult (of_int k) a - monetary_mult (of_int k) (a - b) = monetary_mult (of_int k) b"
  unfolding monetary_mult_whole by (simp add: algebra_simps)

lemma whole_qty: "whole l \<Longrightarrow> \<exists>k. 0 < k \<and> line_qty l = of_int k"
  by (auto simp: whole_def line_qty_def)

lemma whole_off:
  assumes "whole l" "priced l"
  shows "off l = monetary_mult (line_qty l) (disc_q l)" "pl_disc l \<noteq> None \<Longrightarrow> 0 < off l"
proof -
  obtain k where k: "0 < k" "line_qty l = of_int k" using whole_qty [OF assms(1)] by blast
  show off: "off l = monetary_mult (line_qty l) (disc_q l)"
    using assms(2) by (simp add: priced_def off_def gross_def k(2) monetary_mult_diff)
  show "0 < off l" if "pl_disc l \<noteq> None"
    using assms(2) that k unfolding off by (auto simp: priced_def disc_q_def k(2) monetary_mult_whole)
qed

text \<open>A line takes a new discount: the price falls to the list price less the discount, everything chosen stays.\<close>

definition same_item :: "pline \<Rightarrow> pline \<Rightarrow> bool" where
  "same_item l l' \<longleftrightarrow> pl_id l' = pl_id l \<and> pl_sku l' = pl_sku l \<and> pl_qty l' = pl_qty l \<and> list_price l' = list_price l
     \<and> pl_type l' = pl_type l \<and> pl_source l' = pl_source l"

lemma same_item_simps:
  assumes "same_item l l'"
  shows "pl_id l' = pl_id l" "pl_sku l' = pl_sku l" "pl_qty l' = pl_qty l" "line_qty l' = line_qty l" "list_price l' = list_price l"
    "gross l' = gross l" "whole l' = whole l" "non_merchandise l' = non_merchandise l" "pl_source l' = pl_source l"
  using assms by (auto simp: same_item_def line_qty_def gross_def whole_def non_merchandise_def)

lemma same_item_refl [simp]: "same_item l l"
  by (simp add: same_item_def)

lemma same_item_trans: "same_item l l' \<Longrightarrow> same_item l' l'' \<Longrightarrow> same_item l l''"
  by (simp add: same_item_def)

definition discounted_line :: "disc_type \<Rightarrow> int \<Rightarrow> string \<Rightarrow> pline \<Rightarrow> pline" where
  "discounted_line t q label l = stamp_disc t q label None
     (l\<lparr>pl_unit := list_price l - q, pl_total := monetary_mult (line_qty l) (list_price l - q)\<rparr>)"

lemma discounted_line:
  assumes "priced l" "current_disc l < q" "q \<le> list_price l"
  shows "priced (discounted_line t q label l)" "same_item l (discounted_line t q label l)"
    "pl_disc (discounted_line t q label l) = Some \<lparr>ds_type = t, ds_amount = q, ds_label = label, ds_slice = None\<rparr>"
    "pl_manual (discounted_line t q label l) = pl_manual l"
    "pl_batch (discounted_line t q label l) = pl_batch l"
  using assms priced_current [OF assms(1)]
  by (auto simp: discounted_line_def stamp_disc_def priced_def disc_q_def list_price_def line_qty_def same_item_def)

section \<open>What a modifier does to a line\<close>

definition keeps :: "pline \<Rightarrow> pline \<Rightarrow> bool" where
  "keeps l l' \<longleftrightarrow> same_item l l' \<and> priced l' \<and> (non_merchandise l \<longrightarrow> l' = l)"

lemma win_line_cases:
  assumes "priced l" "0 \<le> percent" "percent \<le> 100"
  obtains (keep) "win_line percent t label l pr = (l, pr, 0)"
      "non_merchandise l \<or> percent_off (list_price l) percent \<le> disc_q l \<or> list_price l \<le> 0"
    | (win) q where "q = percent_off (list_price l) percent" "current_disc l < q" "q \<le> list_price l" "\<not> non_merchandise l"
        "win_line percent t label l pr = (discounted_line t q label l, reverse_prior l pr, monetary_mult (line_qty l) q)"
proof (cases "non_merchandise l \<or> list_price l \<le> 0 \<or> percent_off (list_price l) percent \<le> current_disc l")
  case True
  with keep priced_current [OF assms(1)] show ?thesis by (auto simp: win_line_def)
next
  case False
  with win percent_off_bounds [OF priced_list [OF assms(1)] assms(2,3)] show ?thesis
    by (simp add: win_line_def discounted_line_def Let_def)
qed

lemma discount_line_cases:
  assumes "priced l" "fst (offer l) \<le> list_price l"
  obtains (keep) "discount_line offer l pr = (l, pr, [])"
      "non_merchandise l \<or> snd (offer l) = None \<or> fst (offer l) \<le> disc_q l \<or> list_price l \<le> 0"
    | (win) q so where "offer l = (q, Some so)" "current_disc l < q" "q \<le> list_price l" "\<not> non_merchandise l"
        "discount_line offer l pr = (discounted_line (so_type so) q (source_label so) l, reverse_prior l pr, [source_record so q l])"
proof (cases "non_merchandise l \<or> list_price l \<le> 0 \<or> snd (offer l) = None \<or> fst (offer l) \<le> current_disc l")
  case True
  with keep priced_current [OF assms(1)] show ?thesis by (cases "offer l") (auto simp: discount_line_def split: option.splits)
next
  case False
  then obtain q so where "offer l = (q, Some so)" "current_disc l < q" by (cases "offer l") auto
  with win False assms(2) show ?thesis by (simp add: discount_line_def discounted_line_def Let_def)
qed

lemma win_lines_keep:
  "\<forall>l \<in> set ls. priced l \<and> (\<forall>p. percent l = Some p \<longrightarrow> 0 \<le> p \<and> p \<le> 100) \<Longrightarrow> win_lines percent t label ls pr = (ls1, pr1, won) \<Longrightarrow>
     list_all2 keeps ls ls1"
proof (induction ls arbitrary: pr pr1 ls1 won)
  case (Cons l ls)
  then have l: "priced l" by simp
  let ?one = "case percent l of None \<Rightarrow> (l, pr, 0) | Some p \<Rightarrow> win_line p t label l pr"
  obtain l1 q w where one: "?one = (l1, q, w)" by (rule prod_cases3)
  obtain ls2 q2 w2 where rest: "win_lines percent t label ls q = (ls2, q2, w2)" by (rule prod_cases3)
  have "keeps l l1"
  proof (cases "percent l")
    case None
    with one l show ?thesis by (simp add: keeps_def)
  next
    case (Some p)
    with Cons.prems(1) have p: "0 \<le> p" "p \<le> 100" by auto
    from l p show ?thesis
      by (rule win_line_cases [where t = t and label = label and pr = pr]) (use one Some l discounted_line [OF l] in \<open>auto simp: keeps_def\<close>)
  qed
  with Cons.IH [OF _ rest] Cons.prems one rest show ?case by auto
qed simp

lemma discount_lines_keep:
  "\<forall>l \<in> set ls. priced l \<and> fst (offer l) \<le> list_price l \<Longrightarrow> discount_lines offer ls pr = (ls1, pr1, ds) \<Longrightarrow> list_all2 keeps ls ls1"
proof (induction ls arbitrary: pr pr1 ls1 ds)
  case (Cons l ls)
  then have l: "priced l" "fst (offer l) \<le> list_price l" by simp_all
  obtain l1 q w where one: "discount_line offer l pr = (l1, q, w)" by (rule prod_cases3)
  obtain ls2 q2 w2 where rest: "discount_lines offer ls q = (ls2, q2, w2)" by (rule prod_cases3)
  from l have "keeps l l1"
    by (rule discount_line_cases [where pr = pr]) (use one l discounted_line [OF l(1)] in \<open>auto simp: keeps_def\<close>)
  with Cons.IH [OF _ rest] Cons.prems one rest show ?case by auto
qed simp

text \<open>The slice of a discount of the order: only a line without a discount takes one.\<close>

lemma cut_by_keeps:
  assumes "cut_by (\<lambda>per q. stamp_disc t per label (Some q)) ok l l'" "ok l \<Longrightarrow> pl_disc l = None \<and> \<not> non_merchandise l" "priced l"
  shows "keeps l l'"
    "l' = l \<or> ok l \<and> (\<exists>p. 0 < p \<and> pl_disc l' = Some \<lparr>ds_type = t, ds_amount = p, ds_label = label, ds_slice = Some (off l')\<rparr>)"
proof -
  let ?cut = "\<lambda>p. stamp_disc t p label (Some (pl_total l - pl_total (cut_line p l))) (cut_line p l)"
  have cut: "priced (?cut p) \<and> off (?cut p) = pl_total l - pl_total (cut_line p l)" if "0 < p" "p \<le> pl_unit l" "ok l" for p
  proof -
    have base: "pl_unit l = list_price l" "pl_total l = gross l" "pl_list l \<noteq> None"
      using assms(2,3) that(3) priced_clean [OF assms(3)] by (simp_all add: priced_def off_def)
    let ?l = "?cut p"
    have "list_price ?l = list_price l" using base(3) by (auto simp: list_price_def stamp_disc_def cut_line_def)
    moreover have "line_qty ?l = line_qty l" by (simp add: line_qty_def stamp_disc_def cut_line_def)
    ultimately have "off ?l = pl_total l - pl_total (cut_line p l)"
      by (simp add: off_def gross_def base(2)) (simp add: stamp_disc_def)
    with \<open>list_price ?l = list_price l\<close> \<open>line_qty ?l = line_qty l\<close> that base show ?thesis
      by (simp add: priced_def disc_q_def) (simp add: stamp_disc_def cut_line_def)
  qed
  have item: "same_item l (?cut p)" if "pl_list l \<noteq> None" for p
    using that by (auto simp: same_item_def stamp_disc_def cut_line_def list_price_def)
  have listed: "pl_list l \<noteq> None" using assms(3) by (simp add: priced_def)
  consider "l' = l" | p where "ok l" "0 < p" "p \<le> pl_unit l" "l' = ?cut p" using assms(1) unfolding cut_by_def by blast
  then show "keeps l l'"
  proof cases
    case 1
    with assms(3) show ?thesis by (simp add: keeps_def)
  next
    case 2
    then show ?thesis using cut [of p] item [OF listed, of p] assms(2) by (simp add: keeps_def)
  qed
  show "l' = l \<or> ok l \<and> (\<exists>p. 0 < p \<and> pl_disc l' = Some \<lparr>ds_type = t, ds_amount = p, ds_label = label, ds_slice = Some (off l')\<rparr>)"
    using assms(1) cut by (auto simp: cut_by_def) (auto simp: stamp_disc_def)
qed

end
