(* ===== verification/PricingRecords.thy ===== *)
theory PricingRecords
  imports PricingLines
begin

text \<open>
  The records of a session's discounts against its lines: what is taken off the lines is what
  the records add up to, whichever discount wins a line and whatever it replaces.
\<close>

section \<open>Lines by the discount they carry\<close>

definition carries :: "disc_type set \<Rightarrow> pline \<Rightarrow> bool" where
  "carries ts l \<longleftrightarrow> (case pl_disc l of None \<Rightarrow> False | Some d \<Rightarrow> ds_type d \<in> ts)"

definition order_types :: "disc_type set" where
  "order_types = {Disc_promotion, Disc_coupon, Disc_manual}"

definition off_by :: "disc_type set \<Rightarrow> pline list \<Rightarrow> int" where
  "off_by ts ls = sum_where (carries ts) off ls"

definition sliced :: "pline \<Rightarrow> bool" where
  "sliced l \<longleftrightarrow> (case pl_disc l of None \<Rightarrow> False | Some d \<Rightarrow> ds_slice d \<noteq> None)"

definition entry_q :: "(int \<times> string) option \<Rightarrow> int" where
  "entry_q e = (case e of None \<Rightarrow> 0 | Some (q, _) \<Rightarrow> q)"

lemma entry_q_entry_of [simp]: "0 \<le> won \<Longrightarrow> entry_q (entry_of won label) = won"
  by (simp add: entry_q_def entry_of_def)

lemma entry_q_lower: "0 \<le> a \<Longrightarrow> a \<le> entry_q e \<Longrightarrow> entry_q (lower_entry a e) = entry_q e - a"
  by (auto simp: entry_q_def lower_entry_def split: option.splits)

lemma off_by_simps [simp]:
  "off_by ts [] = 0" "off_by ts (l # ls) = (if carries ts l then off l else 0) + off_by ts ls"
  "off_by ts (ls @ ms) = off_by ts ls + off_by ts ms"
  by (simp_all add: off_by_def)

lemma off_by_nonneg: "\<forall>l \<in> set ls. priced l \<Longrightarrow> 0 \<le> off_by ts ls"
  unfolding off_by_def by (intro sum_where_nonneg) (auto simp: priced_off_nonneg)

text \<open>A line that can be told from the others and has a whole quantity.\<close>

definition plain :: "pline \<Rightarrow> bool" where
  "plain l \<longleftrightarrow> priced l \<and> whole l \<and> pl_id l \<noteq> [] \<and> pl_sku l \<noteq> []"

lemma plain_keeps: "plain l \<Longrightarrow> keeps l l' \<Longrightarrow> plain l'"
  by (auto simp: plain_def keeps_def same_item_simps)

lemma plain_all_keeps: "list_all2 keeps ls ls' \<Longrightarrow> \<forall>l \<in> set ls. plain l \<Longrightarrow> \<forall>l \<in> set ls'. plain l"
  by (induction rule: list_all2_induct) (auto dest: plain_keeps)

lemma ids_keeps: "list_all2 keeps ls ls' \<Longrightarrow> map pl_id ls' = map pl_id ls"
  by (induction rule: list_all2_induct) (simp_all add: keeps_def same_item_simps)

lemma gross_keeps: "list_all2 keeps ls ls' \<Longrightarrow> sum_list (map gross ls') = sum_list (map gross ls)"
  by (induction rule: list_all2_induct) (simp_all add: keeps_def same_item_simps)

section \<open>The records of the discount modifier\<close>

text \<open>The records a line owns: one when it won the line on its own.\<close>

definition owns :: "pline \<Rightarrow> drec list \<Rightarrow> bool" where
  "owns l D \<longleftrightarrow>
     (if carries order_types l \<and> \<not> sliced l
      then \<exists>r. D = [r] \<and> dr_line r = pl_id l \<and> dr_sku r \<noteq> [] \<and> carries {dr_type r} l \<and> record_total r = off l
      else D = [])"

text \<open>The record of the order, when some line carries a slice of it.\<close>

definition order_part :: "pline list \<Rightarrow> drec list \<Rightarrow> bool" where
  "order_part ls ord \<longleftrightarrow>
     (case ord of
        [] \<Rightarrow> \<forall>l \<in> set ls. \<not> sliced l
      | [r] \<Rightarrow> dr_line r = [] \<and> dr_sku r = [] \<and> dr_qty r = 1 \<and> dr_q r = sum_where sliced off ls \<and> 0 < dr_q r
          \<and> (\<forall>l \<in> set ls. sliced l \<longrightarrow> carries {dr_type r} l)
      | _ \<Rightarrow> False)"

definition kept_records :: "pline list \<Rightarrow> drec list \<Rightarrow> bool" where
  "kept_records ls items \<longleftrightarrow> (\<exists>Ds ord. list_all2 owns ls Ds \<and> order_part ls ord \<and> items = concat Ds @ ord)"

lemma record_total_one: "dr_qty r = 1 \<Longrightarrow> record_total r = dr_q r"
  using monetary_mult_whole [of 1 "dr_q r"] by (simp add: record_total_def)

lemma owns_total: "list_all2 owns ls Ds \<Longrightarrow> sum_list (map record_total (concat Ds)) = sum_where (\<lambda>l. carries order_types l \<and> \<not> sliced l) off ls"
  by (induction rule: list_all2_induct) (auto simp: owns_def)

lemma order_total: "order_part ls ord \<Longrightarrow> sum_list (map record_total ord) = sum_where sliced off ls"
  by (auto simp: order_part_def record_total_one sum_where_none split: list.splits)

text \<open>Only the discount modifier leaves slices.\<close>

definition slices_of_order :: "pline list \<Rightarrow> bool" where
  "slices_of_order ls \<longleftrightarrow> (\<forall>l \<in> set ls. sliced l \<longrightarrow> carries order_types l)"

lemma kept_total:
  assumes "kept_records ls items" "slices_of_order ls"
  shows "sum_list (map record_total items) = off_by order_types ls"
proof -
  obtain Ds ord where *: "list_all2 owns ls Ds" "order_part ls ord" "items = concat Ds @ ord"
    using assms(1) by (auto simp: kept_records_def)
  have "sum_where sliced off ls = sum_where (\<lambda>l. carries order_types l \<and> sliced l) off ls"
    using assms(2) by (intro sum_where_cong) (auto simp: slices_of_order_def)
  then show ?thesis using owns_total [OF *(1)] order_total [OF *(2)] *(3)
    sum_where_split [of "carries order_types" off ls sliced] by (simp add: off_by_def)
qed

section \<open>A line wins a discount over another\<close>

lemma reverse_share_skip: "\<forall>r \<in> set xs. dr_sku r \<noteq> [] \<Longrightarrow> reverse_share t s (xs @ ys) = xs @ reverse_share t s ys"
  by (induction xs) auto

lemma owns_sku: "list_all2 owns ls Ds \<Longrightarrow> \<forall>r \<in> set (concat Ds). dr_sku r \<noteq> []"
  by (induction rule: list_all2_induct) (auto simp: owns_def split: if_splits)

lemma owns_other: "list_all2 owns ls Ds \<Longrightarrow> r \<in> set (concat Ds) \<Longrightarrow> dr_line r \<in> pl_id ` set ls"
  by (induction rule: list_all2_induct) (auto simp: owns_def split: if_splits)

lemma kept_after_own:
  assumes "kept_records (A @ l # B) items" "\<forall>m \<in> set (A @ l # B). plain m" "distinct (map pl_id (A @ l # B))"
    and "carries order_types l" "\<not> sliced l" "\<not> carries order_types l'" "\<not> sliced l'" "carries {t} l"
  shows "kept_records (A @ l' # B) (filter (\<lambda>r. \<not> record_of_line t l r) items)"
proof -
  obtain DA D DB ord where Ds: "list_all2 owns A DA" "owns l D" "list_all2 owns B DB" "order_part (A @ l # B) ord"
      "items = concat DA @ D @ concat DB @ ord"
    using assms(1) by (auto simp: kept_records_def list_all2_append1 list_all2_Cons1)
  obtain r where r: "D = [r]" "dr_line r = pl_id l" "carries {dr_type r} l"
    using Ds(2) assms(4,5) by (auto simp: owns_def)
  have l: "pl_id l \<noteq> []" "pl_sku l \<noteq> []" using assms(2) by (auto simp: plain_def)
  have other: "\<not> record_of_line t l r'" if "r' \<in> set (concat DA) \<union> set (concat DB)" for r'
  proof -
    have "\<exists>m \<in> set (A @ B). dr_line r' = pl_id m" using owns_other [OF Ds(1), of r'] owns_other [OF Ds(3), of r'] that by (auto simp del: set_concat)
    then obtain m where m: "m \<in> set (A @ B)" "dr_line r' = pl_id m" by blast
    have "pl_id l \<notin> pl_id ` set (A @ B)" using assms(3) by auto
    then have "pl_id m \<noteq> pl_id l" using m(1) by (metis imageI)
    moreover have "plain m" using assms(2) m(1) by simp
    ultimately have "dr_line r' \<noteq> []" "dr_line r' \<noteq> pl_id l" using m(2) by (simp_all add: plain_def)
    with l show ?thesis by (simp add: record_of_line_def)
  qed
  have mine: "record_of_line t l r"
    using r l assms(8) by (auto simp: record_of_line_def carries_def split: option.splits)
  have "\<not> record_of_line t l r'" if "r' \<in> set ord" for r'
    using Ds(4) that l by (auto simp: order_part_def record_of_line_def split: list.splits)
  with other mine r(1) have "filter (\<lambda>r. \<not> record_of_line t l r) items = concat (DA @ [] # DB) @ ord"
    by (auto simp: Ds(5) filter_id_conv)
  moreover have "order_part (A @ l' # B) ord" using Ds(4) assms(5,7) by (auto simp: order_part_def split: list.splits)
  moreover have "list_all2 owns (A @ l' # B) (DA @ [] # DB)"
    using Ds(1,3) assms(6) by (auto intro!: list_all2_appendI simp: owns_def)
  ultimately show ?thesis unfolding kept_records_def by blast
qed

lemma kept_after_slice:
  assumes "kept_records (A @ l # B) items" "\<forall>m \<in> set (A @ l # B). plain m"
    and "sliced l" "\<not> carries order_types l'" "\<not> sliced l'" "carries {t} l"
  shows "kept_records (A @ l' # B) (reverse_share t (off l) items)"
proof -
  obtain DA D DB ord where Ds: "list_all2 owns A DA" "owns l D" "list_all2 owns B DB" "order_part (A @ l # B) ord"
      "items = concat DA @ D @ concat DB @ ord"
    using assms(1) by (auto simp: kept_records_def list_all2_append1 list_all2_Cons1)
  have D: "D = []" using Ds(2) assms(3) by (simp add: owns_def)
  obtain r where r: "ord = [r]" "dr_line r = []" "dr_sku r = []" "dr_qty r = 1" "dr_q r = sum_where sliced off (A @ l # B)"
      "\<forall>m \<in> set (A @ l # B). sliced m \<longrightarrow> carries {dr_type r} m"
    using Ds(4) assms(3) by (auto simp: order_part_def split: list.splits)
  have pos: "0 < off m" if "m \<in> set (A @ l # B)" "sliced m" for m
    using assms(2) that whole_off(2) [of m] by (auto simp: plain_def sliced_def split: option.splits)
  have t: "dr_type r = t" using r(6) assms(3,6) by (auto simp: carries_def split: option.splits)
  let ?rest = "sum_where sliced off (A @ l' # B)"
  have rest: "dr_q r - off l = ?rest" "0 \<le> ?rest"
    using r(5) assms(3,5) pos by (auto intro!: add_nonneg_nonneg sum_where_nonneg simp: less_imp_le)
  have none: "\<forall>m \<in> set (A @ l' # B). \<not> sliced m" if "?rest = 0"
  proof -
    have "\<not> 0 < sum_where sliced off (A @ l' # B)" using that by simp
    then show ?thesis using sum_where_pos_iff [of "A @ l' # B" sliced off] pos assms(5) by auto
  qed
  have skip: "\<forall>r \<in> set (concat DA @ concat DB). dr_sku r \<noteq> []" using owns_sku [OF Ds(1)] owns_sku [OF Ds(3)] by auto
  let ?ord = "if ?rest = 0 then [] else [r\<lparr>dr_q := ?rest\<rparr>]"
  have "reverse_share t (off l) ord = ?ord"
    using rest pos [of l] assms(3) by (auto simp: r(1,3) t)
  then have "reverse_share t (off l) items = concat (DA @ [] # DB) @ ?ord"
    using reverse_share_skip [OF skip, of t "off l" ord] by (simp add: Ds(5) D)
  moreover have "order_part (A @ l' # B) ?ord"
    using none rest(2) r(2-6) assms(5) by (auto simp: order_part_def)
  moreover have "list_all2 owns (A @ l' # B) (DA @ [] # DB)"
    using Ds(1,3) assms(4) by (auto intro!: list_all2_appendI simp: owns_def)
  ultimately show ?thesis unfolding kept_records_def by blast
qed

end
