(* ===== verification/PricingForget.thy ===== *)
theory PricingForget
  imports CartPricing
begin

text \<open>
  The pass of the modifiers starts from what the customer chose: the prices, the discounts and
  the records that an earlier pass left do not reach its result.
\<close>

section \<open>The same choice\<close>

definition known :: "house \<Rightarrow> pline \<Rightarrow> bool" where
  "known hs l \<longleftrightarrow> product_base (hs_products hs) (pl_sku l) \<noteq> None"

text \<open>Two lines with the same choice; one whose product the catalogue does not know keeps its price.\<close>

definition same_choice :: "house \<Rightarrow> pline \<Rightarrow> pline \<Rightarrow> bool" where
  "same_choice hs l l' \<longleftrightarrow> pl_id l' = pl_id l \<and> pl_sku l' = pl_sku l \<and> pl_qty l' = pl_qty l \<and> pl_batch l' = pl_batch l
     \<and> pl_manual l' = pl_manual l \<and> pl_type l' = pl_type l \<and> pl_source l' = pl_source l
     \<and> (\<not> known hs l \<longrightarrow> pl_unit l' = pl_unit l)"

lemma price_line_choice:
  assumes "same_choice hs l l'" "found = None \<longrightarrow> \<not> known hs l"
  shows "price_line hs found l' = price_line hs found l"
  using assms by (cases l; cases l'; cases found) (auto simp: price_line_def same_choice_def Let_def)

lemma unit_prices_known:
  assumes "unit_prices (hs_products hs) items listings (map (\<lambda>l. (pl_sku l, pl_qty l)) ls) = Some ps"
  shows "list_all2 (\<lambda>p l. p = None \<longleftrightarrow> \<not> known hs l) ps ls"
  using assms
  by (auto simp: unit_prices_def known_def list_all2_map1 list_all2_same split: if_splits option.splits)

lemma item_pricing_choice:
  assumes "list_all2 (same_choice hs) ls ls'"
  shows "item_pricing hs cx True ls' = item_pricing hs cx True ls"
proof -
  let ?key = "\<lambda>l. (pl_sku l, pl_qty l)"
  have keys: "map ?key ls' = map ?key ls"
    using assms by (induction rule: list_all2_induct) (simp_all add: same_choice_def)
  have "map2 (price_line hs) ps ls' = map2 (price_line hs) ps ls" if "list_all2 (\<lambda>p l. p = None \<longleftrightarrow> \<not> known hs l) ps ls" for ps
    using assms that by (induction arbitrary: ps rule: list_all2_induct) (auto simp: list_all2_Cons2 price_line_choice)
  then show ?thesis unfolding item_pricing_def keys
    by (auto intro!: option.map_cong dest: unit_prices_known)
qed

lemma item_pricing_clean: "item_pricing hs cx internal ls = Some ls1 \<Longrightarrow> \<forall>l \<in> set ls1. pl_disc l = None"
  by (auto simp: item_pricing_def price_line_def Let_def split: if_splits dest!: set_zip_rightD)

section \<open>What the records owe to an earlier pass\<close>

lemma reverse_prior_none [simp]: "pl_disc l = None \<Longrightarrow> reverse_prior l pr = pr"
  by (simp add: reverse_prior_def)

lemma reverse_prior_lot: "pr_lot pr = pr_lot pr' \<Longrightarrow> pr_lot (reverse_prior l pr) = pr_lot (reverse_prior l pr')"
  by (auto simp: reverse_prior_def Let_def split: option.split disc_type.split)

definition core :: "pricing \<Rightarrow> (int \<times> drec list \<times> savings option) option \<times> coupon_note option \<times> (int \<times> string) option" where
  "core pr = (pr_discount pr, pr_coupon pr, pr_lot pr)"

lemma reverse_prior_core: "core pr = core pr' \<Longrightarrow> core (reverse_prior l pr) = core (reverse_prior l pr')"
  by (auto simp: core_def reverse_prior_def Let_def split: option.split disc_type.split)

lemma win_lines_clean:
  "\<forall>l \<in> set ls. pl_disc l = None \<Longrightarrow> win_lines percent t label ls pr = (ls1, pr1, won) \<Longrightarrow>
     pr1 = pr \<and> win_lines percent t label ls pr' = (ls1, pr', won)"
proof (induction ls arbitrary: ls1 won pr1)
  case (Cons l ls)
  obtain l1 w where one: "\<And>q. (case percent l of None \<Rightarrow> (l, q, 0) | Some p \<Rightarrow> win_line p t label l q) = (l1, q, w)"
  proof (cases "percent l")
    case (Some p)
    show thesis
      by (cases "non_merchandise l \<or> list_price l \<le> 0 \<or> percent_off (list_price l) p \<le> current_disc l")
        (rule that, use Some Cons.prems(1) in \<open>simp add: win_line_def Let_def\<close>)+
  qed (rule that, simp)
  obtain ls2 pr2 w2 where rest: "win_lines percent t label ls pr = (ls2, pr2, w2)" by (metis surj_pair)
  with Cons.IH [OF _ rest] Cons.prems one show ?case by auto
qed simp

lemma win_lines_core:
  assumes "core pr = core pr'" "win_lines percent t label ls pr = (ls1, pr1, won)" "win_lines percent t label ls pr' = (ls1', pr1', won')"
  shows "ls1' = ls1 \<and> won' = won \<and> core pr1' = core pr1"
  using assms
proof (induction ls arbitrary: pr pr' ls1 ls1' pr1 pr1' won won')
  case (Cons l ls)
  let ?one = "\<lambda>q. case percent l of None \<Rightarrow> (l, q, 0) | Some p \<Rightarrow> win_line p t label l q"
  obtain l1 q w l1' q' w' where one: "?one pr = (l1, q, w)" "?one pr' = (l1', q', w')" by (metis surj_pair)
  then have same: "l1' = l1" "w' = w" "core q = core q'"
    using Cons.prems(1) reverse_prior_core [OF Cons.prems(1), of l]
    by (auto simp: win_line_def Let_def split: option.splits if_splits)
  obtain ls2 q2 w2 ls2' q2' w2' where rest: "win_lines percent t label ls q = (ls2, q2, w2)" "win_lines percent t label ls q' = (ls2', q2', w2')"
    by (metis surj_pair)
  from Cons.IH [OF same(3) rest] Cons.prems(2,3) one rest same show ?case by auto
qed auto

lemma discount_lines_lot:
  assumes "pr_lot pr = pr_lot pr'" "discount_lines offer ls pr = (ls1, pr1, ds)" "discount_lines offer ls pr' = (ls1', pr1', ds')"
  shows "ls1' = ls1 \<and> ds' = ds \<and> pr_lot pr1' = pr_lot pr1"
  using assms
proof (induction ls arbitrary: pr pr' ls1 ls1' pr1 pr1' ds ds')
  case (Cons l ls)
  obtain l1 q w l1' q' w' where one: "discount_line offer l pr = (l1, q, w)" "discount_line offer l pr' = (l1', q', w')" by (metis surj_pair)
  then have same: "l1' = l1" "w' = w" "pr_lot q = pr_lot q'"
    using Cons.prems(1) reverse_prior_lot [OF Cons.prems(1), of l]
    by (auto simp: discount_line_def Let_def split: option.splits if_splits prod.splits)
  obtain ls2 q2 w2 ls2' q2' w2' where rest: "discount_lines offer ls q = (ls2, q2, w2)" "discount_lines offer ls q' = (ls2', q2', w2')"
    by (metis surj_pair)
  from Cons.IH [OF same(3) rest] Cons.prems(2,3) one rest same show ?case by auto
qed auto

lemma cart_discount_core:
  assumes "pr_lot pr = pr_lot pr'"
  shows "fst (cart_discount hs cd cx (ls, pr')) = fst (cart_discount hs cd cx (ls, pr))"
    "core (snd (cart_discount hs cd cx (ls, pr'))) = core (snd (cart_discount hs cd cx (ls, pr)))"
proof -
  let ?ps = "active_promotions (hs_now hs) (hs_channel hs) (hs_coupons hs) (hs_promotions hs)"
  have "fst (cart_discount hs cd cx (ls, pr')) = fst (cart_discount hs cd cx (ls, pr))
    \<and> core (snd (cart_discount hs cd cx (ls, pr'))) = core (snd (cart_discount hs cd cx (ls, pr)))"
  proof (cases "?ps = [] \<and> cart_coupon hs cd = None \<and> \<not> has_manual ls")
    case True
    with assms show ?thesis by (simp add: cart_discount_def core_def)
  next
    case False
    define offer where "offer = (\<lambda>l. best_offer hs cx (promotion_context hs cd cx (pl_sku l) (Some (merchandise_q ls))) ?ps
      (map_option (\<lambda>p. (cd_coupon cd, p)) (cart_coupon hs cd)) (pl_manual l) (list_price l))"
    obtain ls1 q ds ls1' q' ds' where r: "discount_lines offer ls pr = (ls1, q, ds)" "discount_lines offer ls pr' = (ls1', q', ds')"
      by (metis surj_pair)
    note same = discount_lines_lot [OF assms r]
    then show ?thesis using False r assms
      unfolding cart_discount_def prod.case Let_def offer_def [symmetric] by (simp add: core_def split: prod.split)
  qed
  then show "fst (cart_discount hs cd cx (ls, pr')) = fst (cart_discount hs cd cx (ls, pr))"
    "core (snd (cart_discount hs cd cx (ls, pr'))) = core (snd (cart_discount hs cd cx (ls, pr)))" by auto
qed

section \<open>The pass\<close>

lemma item_pricing_length: "item_pricing hs cx internal ls = Some ls1 \<Longrightarrow> ls1 = [] \<longleftrightarrow> ls = []"
  by (auto simp: item_pricing_def unit_prices_def split: if_splits)

text \<open>The stages up to the time window, from prices without discounts: the records that matter depend on the lines only.\<close>

definition discounted :: "house \<Rightarrow> cart_data \<Rightarrow> price_ctx \<Rightarrow> pline list \<times> pricing \<Rightarrow> pline list \<times> pricing" where
  "discounted hs cd cx s = time_window_discount (hs_time_rule hs) (hs_time hs)
     (cart_discount hs cd cx (lot_discount (hs_lot hs) (hs_lot_label hs) s))"

lemma time_window_core:
  assumes "core pr = core pr'"
  shows "fst (time_window_discount rule tod (ls, pr')) = fst (time_window_discount rule tod (ls, pr))"
    "core (snd (time_window_discount rule tod (ls, pr'))) = core (snd (time_window_discount rule tod (ls, pr)))"
    "rule \<noteq> None \<Longrightarrow> pr_happy (snd (time_window_discount rule tod (ls, pr'))) = pr_happy (snd (time_window_discount rule tod (ls, pr)))"
proof -
  have "fst (time_window_discount rule tod (ls, pr')) = fst (time_window_discount rule tod (ls, pr))
    \<and> core (snd (time_window_discount rule tod (ls, pr'))) = core (snd (time_window_discount rule tod (ls, pr)))
    \<and> (rule \<noteq> None \<longrightarrow> pr_happy (snd (time_window_discount rule tod (ls, pr'))) = pr_happy (snd (time_window_discount rule tod (ls, pr))))"
  proof (cases rule)
    case None
    with assms show ?thesis by (simp add: time_window_discount_def)
  next
    case (Some r)
    obtain ls1 q w ls1' q' w' where
      w: "win_lines (\<lambda>_. Some (tm_percent r)) Disc_happy (tm_label r) ls pr = (ls1, q, w)"
        "win_lines (\<lambda>_. Some (tm_percent r)) Disc_happy (tm_label r) ls pr' = (ls1', q', w')" by (metis surj_pair)
    from win_lines_core [OF assms w] Some w assms show ?thesis by (auto simp: time_window_discount_def core_def)
  qed
  then show "fst (time_window_discount rule tod (ls, pr')) = fst (time_window_discount rule tod (ls, pr))"
    "core (snd (time_window_discount rule tod (ls, pr'))) = core (snd (time_window_discount rule tod (ls, pr)))"
    "rule \<noteq> None \<Longrightarrow> pr_happy (snd (time_window_discount rule tod (ls, pr'))) = pr_happy (snd (time_window_discount rule tod (ls, pr)))"
    by auto
qed

lemma discounted_core:
  assumes "\<forall>l \<in> set ls. pl_disc l = None" "ls \<noteq> []"
  shows "fst (discounted hs cd cx (ls, pr')) = fst (discounted hs cd cx (ls, pr))"
    "core (snd (discounted hs cd cx (ls, pr'))) = core (snd (discounted hs cd cx (ls, pr)))"
    "hs_time_rule hs \<noteq> None \<Longrightarrow> pr_happy (snd (discounted hs cd cx (ls, pr'))) = pr_happy (snd (discounted hs cd cx (ls, pr)))"
proof -
  let ?lot = "lot_discount (hs_lot hs) (hs_lot_label hs)"
  obtain ls1 won where lot: "\<And>q. ?lot (ls, q) = (ls1, q\<lparr>pr_lot := entry_of won (hs_lot_label hs)\<rparr>)"
  proof -
    let ?w = "win_lines (\<lambda>l. if pl_batch l = [] then None else let p = lot_percent 0 (hs_lot hs (pl_batch l))
                 in if p \<le> 0 then None else Some (of_int p)) Disc_lot (hs_lot_label hs) ls"
    obtain ls1 q won where w: "?w pr = (ls1, q, won)" by (rule prod_cases3)
    from win_lines_clean [OF assms(1) w] have "?w q' = (ls1, q', won)" for q' by blast
    with assms(2) show thesis by (intro that [of ls1 won]) (simp add: lot_discount_def)
  qed
  let ?s = "cart_discount hs cd cx (?lot (ls, pr))" and ?s' = "cart_discount hs cd cx (?lot (ls, pr'))"
  have same: "fst ?s' = fst ?s" "core (snd ?s') = core (snd ?s)" unfolding lot by (rule cart_discount_core, simp)+
  obtain la pb where s: "?s = (la, pb)" by (rule prod.exhaust)
  obtain la' pb' where s': "?s' = (la', pb')" by (rule prod.exhaust)
  have la: "la' = la" "core pb = core pb'" using same unfolding s s' by simp_all
  show "fst (discounted hs cd cx (ls, pr')) = fst (discounted hs cd cx (ls, pr))"
    "core (snd (discounted hs cd cx (ls, pr'))) = core (snd (discounted hs cd cx (ls, pr)))"
    "hs_time_rule hs \<noteq> None \<Longrightarrow> pr_happy (snd (discounted hs cd cx (ls, pr'))) = pr_happy (snd (discounted hs cd cx (ls, pr)))"
    unfolding discounted_def s s' la(1) by (rule time_window_core [OF la(2)])+
qed

lemma delivery_fee_core:
  assumes "pr_coupon pr = pr_coupon pr'"
  shows "delivery_fee hs cx pr = delivery_fee hs cx pr'"
  unfolding delivery_fee_def assms by simp

text \<open>Points and the operator's discount touch the lines and their own records only.\<close>

lemma loyalty_redeem_core:
  assumes "core pr = core pr'" "loyalty_redeem (ls, pr, cd) = (ls1, pr1, cd1)" "loyalty_redeem (ls, pr', cd\<lparr>cd_applied := x\<rparr>) = (ls2, pr2, cd2)"
  shows "ls2 = ls1 \<and> cd2 = cd1 \<and> core pr2 = core pr1 \<and> pr_happy pr1 = pr_happy pr \<and> pr_happy pr2 = pr_happy pr'"
  using assms by (auto simp: loyalty_redeem_def Let_def core_def split: if_splits prod.splits)

lemma manual_discount_core:
  assumes "core pr = core pr'" "manual_discount cd (ls, pr) = (ls1, pr1)" "manual_discount cd (ls, pr') = (ls2, pr2)"
  shows "ls2 = ls1 \<and> core pr2 = core pr1 \<and> pr_happy pr1 = pr_happy pr \<and> pr_happy pr2 = pr_happy pr'"
  using assms by (auto simp: manual_discount_def Let_def core_def split: if_splits prod.splits)

end
