(* ===== verification/PricingLedger.thy ===== *)
theory PricingLedger
  imports PricingRecords PricingForget
begin

text \<open>
  The records of a session kept true by each modifier: the lots, the discount modifier, the
  time window.
\<close>

section \<open>The ledger\<close>

definition ledger :: "pline list \<Rightarrow> pricing \<Rightarrow> bool" where
  "ledger ls pr \<longleftrightarrow>
     (case pr_discount pr of
        None \<Rightarrow> kept_records ls []
      | Some (q, items, _) \<Rightarrow> kept_records ls items \<and> q = sum_list (map record_total items))
     \<and> entry_q (pr_lot pr) = off_by {Disc_lot} ls \<and> slices_of_order ls"

lemma carries_disc: "pl_disc l = Some d \<Longrightarrow> carries ts l \<longleftrightarrow> ds_type d \<in> ts" "pl_disc l = None \<Longrightarrow> \<not> carries ts l"
  by (simp_all add: carries_def)

lemma kept_unchanged:
  assumes "kept_records (A @ l # B) items" "\<not> carries order_types l" "\<not> sliced l" "\<not> carries order_types l'" "\<not> sliced l'"
  shows "kept_records (A @ l' # B) items"
proof -
  obtain DA D DB ord where Ds: "list_all2 owns A DA" "owns l D" "list_all2 owns B DB" "order_part (A @ l # B) ord"
      "items = concat DA @ D @ concat DB @ ord"
    using assms(1) by (auto simp: kept_records_def list_all2_append1 list_all2_Cons1)
  have "list_all2 owns (A @ l' # B) (DA @ [] # DB)" "D = []"
    using Ds(1-3) assms(2,4) by (auto intro!: list_all2_appendI simp: owns_def)
  moreover have "order_part (A @ l' # B) ord" using Ds(4) assms(3,5) by (auto simp: order_part_def split: list.splits)
  ultimately show ?thesis unfolding kept_records_def by (intro exI [of _ "DA @ [] # DB"] exI [of _ ord]) (simp add: Ds(5))
qed

lemma kept_taken:
  assumes "kept_records (A @ l # B) items" "\<forall>m \<in> set (A @ l # B). plain m" "distinct (map pl_id (A @ l # B))"
    and "pl_disc l = Some d" "ds_type d \<in> order_types" "\<not> carries order_types l'" "\<not> sliced l'"
  shows "kept_records (A @ l' # B) (case ds_slice d of
           Some slice \<Rightarrow> reverse_share (ds_type d) (max 0 slice) items
         | None \<Rightarrow> filter (\<lambda>r. \<not> record_of_line (ds_type d) l r) items)"
proof -
  have l: "carries order_types l" "carries {ds_type d} l" using assms(4,5) by (simp_all add: carries_disc)
  show ?thesis
  proof (cases "ds_slice d")
    case None
    then have "\<not> sliced l" using assms(4) by (simp add: sliced_def)
    from kept_after_own [OF assms(1-3) l(1) this assms(6,7) l(2)] None show ?thesis by simp
  next
    case (Some q)
    then have "sliced l" using assms(4) by (simp add: sliced_def)
    moreover have "q = off l" "0 \<le> off l"
      using assms(2,4) Some priced_off_nonneg [of l] by (auto simp: plain_def priced_def)
    ultimately show ?thesis using kept_after_slice [OF assms(1,2) _ assms(6,7) l(2)] Some by simp
  qed
qed

text \<open>The time window takes a line over: what the line had leaves the records.\<close>

lemma ledger_taken:
  assumes "ledger (A @ l # B) pr" "\<forall>m \<in> set (A @ l # B). plain m" "distinct (map pl_id (A @ l # B))"
    and "\<not> carries {Disc_happy} l" "carries {Disc_happy} l'" "\<not> sliced l'"
  shows "ledger (A @ l' # B) (reverse_prior l pr)"
proof -
  have l': "\<not> carries order_types l'" "\<not> carries {Disc_lot} l'"
    using assms(5) by (auto simp: carries_def order_types_def split: option.splits)
  have slices: "slices_of_order (A @ l' # B)" using assms(1,6) by (auto simp: ledger_def slices_of_order_def)
  have l: "plain l" using assms(2) by simp
  then have off: "off l = monetary_mult (line_qty l) (disc_q l)" by (simp add: plain_def whole_off)
  consider "pl_disc l = None" | d where "pl_disc l = Some d" "ds_type d = Disc_lot"
    | d where "pl_disc l = Some d" "ds_type d \<in> order_types"
    using assms(4) by (cases "pl_disc l") (auto simp: carries_disc order_types_def intro: disc_type.exhaust)
  then show ?thesis
  proof cases
    case 1
    then have "\<not> carries ts l" "\<not> sliced l" for ts by (simp_all add: carries_def sliced_def)
    with assms(1,6) slices l' show ?thesis
      by (auto simp: ledger_def reverse_prior_def 1 intro: kept_unchanged split: option.splits)
  next
    case 2
    then have t: "\<not> carries order_types l" "carries {Disc_lot} l" by (simp_all add: carries_disc order_types_def)
    then have s: "\<not> sliced l" using assms(1) by (auto simp: ledger_def slices_of_order_def)
    have "0 \<le> off_by {Disc_lot} (A @ B)" using assms(2) by (intro off_by_nonneg) (auto simp: plain_def)
    moreover have "ds_amount d = disc_q l" "0 \<le> off l" using 2 l priced_off_nonneg [of l] by (simp_all add: disc_q_def plain_def)
    ultimately show ?thesis using assms(1,6) slices l' t s
      by (auto simp: ledger_def reverse_prior_def 2 off [symmetric] entry_q_lower intro: kept_unchanged split: option.splits)
  next
    case 3
    then have t: "\<not> carries {Disc_lot} l" by (auto simp: carries_disc order_types_def)
    note taken = kept_taken [OF _ assms(2,3) 3 l'(1) assms(6)]
    have "ds_type d \<noteq> Disc_lot" "ds_type d \<noteq> Disc_happy" using 3(2) by (auto simp: order_types_def)
    moreover have "kept_records (A @ l # B) [] \<Longrightarrow> kept_records (A @ l' # B) []"
      using taken [of "[]"] by (simp split: option.splits)
    ultimately show ?thesis using assms(1) slices l' t taken
      by (cases "ds_type d") (auto simp: ledger_def reverse_prior_def 3(1) Let_def split: option.splits)
  qed
qed

section \<open>The time window\<close>

lemma win_lines_happy:
  assumes "ledger (A @ ls) pr" "\<forall>m \<in> set (A @ ls). plain m" "distinct (map pl_id (A @ ls))"
    and "\<forall>l \<in> set ls. \<not> carries {Disc_happy} l" "0 \<le> percent" "percent \<le> 100"
    and "win_lines (\<lambda>_. Some percent) Disc_happy label ls pr = (ls1, pr1, won)"
  shows "ledger (A @ ls1) pr1 \<and> won = off_by {Disc_happy} ls1"
  using assms(1-4,7)
proof (induction ls arbitrary: A pr pr1 ls1 won)
  case (Cons l ls)
  obtain l1 q w where one: "win_line percent Disc_happy label l pr = (l1, q, w)" by (rule prod_cases3)
  obtain ls2 q2 w2 where rest: "win_lines (\<lambda>_. Some percent) Disc_happy label ls q = (ls2, q2, w2)" by (rule prod_cases3)
  have out: "ls1 = l1 # ls2" "pr1 = q2" "won = w + w2" using Cons.prems(5) one rest by auto
  have l: "plain l" "priced l" using Cons.prems(2) by (simp_all add: plain_def)
  have "ledger (A @ l1 # ls) q \<and> keeps l l1 \<and> w = (if carries {Disc_happy} l1 then off l1 else 0)"
    using l(2) assms(5,6)
  proof (rule win_line_cases [where t = Disc_happy and label = label and pr = pr])
    assume "win_line percent Disc_happy label l pr = (l, pr, 0)"
    with one Cons.prems(1,4) l show ?thesis by (simp add: keeps_def)
  next
    fix p assume p: "current_disc l < p" "p \<le> list_price l" "\<not> non_merchandise l"
      "win_line percent Disc_happy label l pr = (discounted_line Disc_happy p label l, reverse_prior l pr, monetary_mult (line_qty l) p)"
    note d = discounted_line [OF l(2) p(1,2), of Disc_happy label]
    have k: "keeps l l1" using d p one by (simp add: keeps_def)
    have happy: "carries {Disc_happy} l1" "\<not> sliced l1" using d(3) p(4) one by (auto simp: carries_def sliced_def)
    have "off l1 = monetary_mult (line_qty l1) (disc_q l1)" using plain_keeps [OF l(1) k] by (simp add: plain_def whole_off)
    also have "\<dots> = monetary_mult (line_qty l) p" using d(2,3) p(4) one by (auto simp: disc_q_def same_item_simps)
    finally show ?thesis using ledger_taken [OF Cons.prems(1-3) _ happy] Cons.prems(4) p(4) one k happy by auto
  qed
  then have s: "ledger ((A @ [l1]) @ ls) q" "keeps l l1" "w = (if carries {Disc_happy} l1 then off l1 else 0)" by simp_all
  have "plain l1" "pl_id l1 = pl_id l" using plain_keeps [OF l(1) s(2)] s(2) by (simp_all add: keeps_def same_item_simps)
  then have "ledger ((A @ [l1]) @ ls2) q2 \<and> w2 = off_by {Disc_happy} ls2"
    using Cons.prems(2-4) by (intro Cons.IH [OF s(1) _ _ _ rest]) auto
  with out s(3) show ?case by simp
qed (simp add: off_by_def)

section \<open>The lots\<close>

lemma win_lines_lots:
  assumes "\<forall>l \<in> set ls. plain l \<and> pl_disc l = None \<and> (\<forall>p. percent l = Some p \<longrightarrow> 0 \<le> p \<and> p \<le> 100)"
    and "win_lines percent Disc_lot label ls pr = (ls1, pr1, won)"
  shows "won = off_by {Disc_lot} ls1 \<and> (\<forall>l \<in> set ls1. \<not> sliced l \<and> \<not> carries order_types l \<and> \<not> carries {Disc_happy} l)"
  using assms
proof (induction ls arbitrary: pr pr1 ls1 won)
  case (Cons l ls)
  then have l: "plain l" "priced l" "pl_disc l = None" by (simp_all add: plain_def)
  obtain l1 q w where one: "(case percent l of None \<Rightarrow> (l, pr, 0) | Some p \<Rightarrow> win_line p Disc_lot label l pr) = (l1, q, w)"
    by (rule prod_cases3)
  obtain ls2 q2 w2 where rest: "win_lines percent Disc_lot label ls q = (ls2, q2, w2)" by (rule prod_cases3)
  have keep: "w = (if carries {Disc_lot} l1 then off l1 else 0) \<and> \<not> sliced l1 \<and> \<not> carries order_types l1 \<and> \<not> carries {Disc_happy} l1"
    if "l1 = l" "w = 0"
    using that l by (simp add: carries_def sliced_def)
  have "w = (if carries {Disc_lot} l1 then off l1 else 0) \<and> \<not> sliced l1 \<and> \<not> carries order_types l1 \<and> \<not> carries {Disc_happy} l1"
  proof (cases "percent l")
    case None
    with one keep show ?thesis by simp
  next
    case (Some p)
    with Cons.prems(1) have p: "0 \<le> p" "p \<le> 100" by auto
    from l(2) p show ?thesis
    proof (rule win_line_cases [where t = Disc_lot and label = label and pr = pr])
      fix d assume d: "current_disc l < d" "d \<le> list_price l" "\<not> non_merchandise l"
        "win_line p Disc_lot label l pr = (discounted_line Disc_lot d label l, reverse_prior l pr, monetary_mult (line_qty l) d)"
      note dl = discounted_line [OF l(2) d(1,2), of Disc_lot label]
      have k: "keeps l l1" using dl d one Some by (simp add: keeps_def)
      have "off l1 = monetary_mult (line_qty l1) (disc_q l1)" using plain_keeps [OF l(1) k] by (simp add: plain_def whole_off)
      then show ?thesis using dl(2,3) d(4) one Some
        by (auto simp: disc_q_def same_item_simps carries_def sliced_def order_types_def)
    qed (use one Some keep in simp)
  qed
  with Cons.IH [OF _ rest] Cons.prems one rest show ?case by auto
qed simp

section \<open>The discount modifier\<close>

lemma source_record_total:
  assumes "plain l" "keeps l l1" "pl_disc l1 = Some \<lparr>ds_type = so_type so, ds_amount = q, ds_label = label, ds_slice = None\<rparr>"
    and "so_type so \<in> order_types"
  shows "owns l1 [source_record so q l]"
proof -
  have item: "line_qty l1 = line_qty l" "pl_id l1 = pl_id l" using assms(2) by (simp_all add: keeps_def same_item_simps)
  have "off l1 = monetary_mult (line_qty l) q"
    using plain_keeps [OF assms(1,2)] assms(3) item by (simp add: plain_def whole_off disc_q_def)
  moreover have "pl_sku l \<noteq> []" using assms(1) by (simp add: plain_def)
  ultimately show ?thesis using assms(3,4) item
    by (simp add: owns_def carries_def sliced_def source_record_def record_total_def)
qed

lemma discount_lines_records:
  assumes "\<forall>l \<in> set ls. plain l \<and> \<not> sliced l \<and> \<not> carries order_types l \<and> \<not> carries {Disc_happy} l
      \<and> fst (offer l) \<le> list_price l \<and> (\<forall>so. snd (offer l) = Some so \<longrightarrow> so_type so \<in> order_types)"
    and "entry_q (pr_lot pr) = L + off_by {Disc_lot} ls" "0 \<le> L" "discount_lines offer ls pr = (ls1, pr1, ds)"
  shows "(\<exists>Ds. list_all2 owns ls1 Ds \<and> ds = concat Ds) \<and> (\<forall>l \<in> set ls1. \<not> sliced l \<and> \<not> carries {Disc_happy} l)
    \<and> entry_q (pr_lot pr1) = L + off_by {Disc_lot} ls1 \<and> pr_happy pr1 = pr_happy pr"
  using assms
proof (induction ls arbitrary: pr pr1 ls1 ds L)
  case (Cons l ls)
  obtain l1 q w where one: "discount_line offer l pr = (l1, q, w)" by (rule prod_cases3)
  obtain ls2 q2 w2 where rest: "discount_lines offer ls q = (ls2, q2, w2)" by (rule prod_cases3)
  have out: "ls1 = l1 # ls2" "pr1 = q2" "ds = w @ w2" using Cons.prems(4) one rest by auto
  have l: "plain l" "priced l" "\<not> sliced l" "\<not> carries order_types l" "\<not> carries {Disc_happy} l" "fst (offer l) \<le> list_price l"
    using Cons.prems(1) by (simp_all add: plain_def)
  have ls0: "0 \<le> off_by {Disc_lot} ls" using Cons.prems(1) by (intro off_by_nonneg) (simp add: plain_def)
  have *: "owns l1 w \<and> \<not> sliced l1 \<and> \<not> carries {Disc_happy} l1 \<and> 0 \<le> off l1
    \<and> entry_q (pr_lot q) = (L + (if carries {Disc_lot} l1 then off l1 else 0)) + off_by {Disc_lot} ls \<and> pr_happy q = pr_happy pr"
    using l(2,6)
  proof (rule discount_line_cases [where pr = pr])
    assume "discount_line offer l pr = (l, pr, [])"
    with one l Cons.prems(2) priced_off_nonneg [of l] show ?thesis by (simp add: owns_def)
  next
    fix d so assume d: "offer l = (d, Some so)" "current_disc l < d" "d \<le> list_price l" "\<not> non_merchandise l"
      "discount_line offer l pr = (discounted_line (so_type so) d (source_label so) l, reverse_prior l pr, [source_record so d l])"
    note dl = discounted_line [OF l(2) d(2,3), of "so_type so" "source_label so"]
    have k: "keeps l l1" using dl d one by (simp add: keeps_def)
    have t: "so_type so \<in> order_types" using Cons.prems(1) d(1) by simp
    have l1: "pl_disc l1 = Some \<lparr>ds_type = so_type so, ds_amount = d, ds_label = source_label so, ds_slice = None\<rparr>"
      using dl(3) d(5) one by simp
    have "owns l1 w" using source_record_total [OF l(1) k l1 t] d(5) one by simp
    moreover have "\<not> sliced l1" "\<not> carries {Disc_happy} l1" "\<not> carries {Disc_lot} l1"
      using l1 t by (auto simp: sliced_def carries_def order_types_def)
    moreover have "entry_q (pr_lot q) = L + off_by {Disc_lot} ls \<and> pr_happy q = pr_happy pr"
    proof (cases "pl_disc l")
      case None
      with Cons.prems(2) d(5) one show ?thesis by (auto simp: carries_def reverse_prior_def)
    next
      case (Some e)
      have "ds_type e \<notin> order_types" "ds_type e \<noteq> Disc_happy" using l(4,5) Some by (simp_all add: carries_def)
      then have e: "ds_type e = Disc_lot" by (cases "ds_type e") (simp_all add: order_types_def)
      have "off l = monetary_mult (line_qty l) (ds_amount e)" using l(1) Some by (simp add: plain_def whole_off disc_q_def)
      with e Some Cons.prems(2,3) d(5) one l(2) ls0 priced_off_nonneg [of l] show ?thesis
        by (auto simp: reverse_prior_def carries_def entry_q_lower)
    qed
    moreover have "0 \<le> off l1" using k priced_off_nonneg [of l1] by (simp add: keeps_def)
    ultimately show ?thesis by simp
  qed
  then have "(\<exists>Ds. list_all2 owns ls2 Ds \<and> w2 = concat Ds) \<and> (\<forall>l \<in> set ls2. \<not> sliced l \<and> \<not> carries {Disc_happy} l)
    \<and> entry_q (pr_lot q2) = (L + (if carries {Disc_lot} l1 then off l1 else 0)) + off_by {Disc_lot} ls2 \<and> pr_happy q2 = pr_happy q"
    using Cons.prems(1,3) by (intro Cons.IH [OF _ _ _ rest]) auto
  then obtain Ds where "list_all2 owns ls2 Ds" "w2 = concat Ds"
    "\<forall>l \<in> set ls2. \<not> sliced l \<and> \<not> carries {Disc_happy} l"
    "entry_q (pr_lot q2) = (L + (if carries {Disc_lot} l1 then off l1 else 0)) + off_by {Disc_lot} ls2" "pr_happy q2 = pr_happy q" by blast
  with * out show ?case by (auto intro!: exI [of _ "w # Ds"])
qed auto

text \<open>What the modifier offers is a promotion, the coupon or the operator's.\<close>

lemma foldl_better_source:
  "snd (foldl better best offers) = Some so \<Longrightarrow> snd best = Some so \<or> so \<in> snd ` set offers"
proof (induction offers arbitrary: best)
  case (Cons x offers)
  from Cons.IH [of "better best x"] Cons.prems show ?case by (auto simp: better_def split: if_splits)
qed simp

lemma promo_source_type: "so_type (fst (promo_source refs meta p)) = Disc_promotion"
  by (auto simp: promo_source_def split: prod.split)

lemma best_offer_type:
  assumes "snd (best_offer hs cx ctx ps coupon manual price) = Some so"
  shows "so_type so \<in> order_types"
proof -
  let ?offers = "line_offers hs cx ctx ps price"
  have offers: "so_type (snd x) = Disc_promotion" if "x \<in> set ?offers" for x
    using that promo_source_type by (auto simp: line_offers_def promo_offer_def Let_def split: prod.splits) (metis fst_conv)
  have "snd (foldl better (0, None) ?offers) = Some so' \<Longrightarrow> so_type so' \<in> order_types" for so'
    using foldl_better_source [of "(0, None)" ?offers so'] offers by (auto simp: order_types_def)
  moreover have "so_type (coupon_source code p) \<in> order_types" "so_type (manual_source m) \<in> order_types" for code p m
    by (simp_all add: coupon_source_def manual_source_def order_types_def)
  ultimately show ?thesis using assms
    by (auto simp: best_offer_def Let_def better_def split: option.splits if_splits prod.splits)
qed

lemma best_fixed_type:
  assumes "best_fixed_discount refs meta val ps coupon = Some (v, so, p)"
  shows "so_type so \<in> {Disc_promotion, Disc_coupon}"
  using assms promo_source_type
  by (auto simp: best_fixed_discount_def Let_def coupon_source_def split: option.splits if_splits)

text \<open>The slices of a discount of the order add up to what was applied.\<close>

lemma sliced_total:
  assumes "list_all2 (cut_by (\<lambda>per q. stamp_disc t per label (Some q)) ok) ls ls'"
    and "\<And>l. ok l \<Longrightarrow> pl_disc l = None \<and> \<not> non_merchandise l" "\<forall>l \<in> set ls. plain l \<and> \<not> sliced l" "t \<in> order_types"
  shows "list_all2 keeps ls ls' \<and> sum_where sliced off ls' = sum_list (map pl_total ls) - sum_list (map pl_total ls')
    \<and> (\<forall>l \<in> set ls'. sliced l \<longrightarrow> carries {t} l \<and> 0 < off l) \<and> off_by {Disc_lot} ls' = off_by {Disc_lot} ls
    \<and> (\<forall>Ds. list_all2 owns ls Ds \<longrightarrow> list_all2 owns ls' Ds)"
  using assms(1,3)
proof (induction rule: list_all2_induct)
  case (Cons l ls l' ls')
  then have l: "plain l" "priced l" "\<not> sliced l" by (simp_all add: plain_def)
  note cut = cut_by_keeps [OF Cons.hyps(1) assms(2) l(2)]
  have gross: "gross l' = gross l" using cut(1) by (simp add: keeps_def same_item_simps)
  have "(if sliced l' then off l' else 0) = pl_total l - pl_total l' \<and> (sliced l' \<longrightarrow> carries {t} l' \<and> 0 < off l')
    \<and> (if carries {Disc_lot} l' then off l' else 0) = (if carries {Disc_lot} l then off l else 0)
    \<and> (\<forall>D. owns l D \<longrightarrow> owns l' D)"
  proof (cases "l' = l")
    case True
    with l show ?thesis by simp
  next
    case False
    with cut(2) obtain p where p: "ok l" "pl_disc l' = Some \<lparr>ds_type = t, ds_amount = p, ds_label = label, ds_slice = Some (off l')\<rparr>"
      by blast
    have "off l = 0" "pl_disc l = None" using priced_clean [OF l(2)] assms(2) p(1) by auto
    moreover have "0 < off l'" using plain_keeps [OF l(1) cut(1)] p(2) whole_off(2) [of l'] by (simp add: plain_def)
    moreover have "t \<noteq> Disc_lot" using assms(4) by (auto simp: order_types_def)
    ultimately show ?thesis using p(2) gross by (auto simp: off_def owns_def carries_def sliced_def)
  qed
  moreover have "list_all2 keeps ls ls' \<and> sum_where sliced off ls' = sum_list (map pl_total ls) - sum_list (map pl_total ls')
    \<and> (\<forall>l \<in> set ls'. sliced l \<longrightarrow> carries {t} l \<and> 0 < off l) \<and> off_by {Disc_lot} ls' = off_by {Disc_lot} ls
    \<and> (\<forall>Ds. list_all2 owns ls Ds \<longrightarrow> list_all2 owns ls' Ds)"
    using Cons.IH Cons.prems by simp
  ultimately show ?case using cut(1) by (auto simp: list_all2_Cons1 split: if_splits)
qed simp

lemma fixed_ledger:
  assumes "spread_order_discount True v ok (\<lambda>per q. stamp_disc (so_type so) per label (Some q)) ls = (ls', applied)"
    and "\<And>l. ok l \<Longrightarrow> pl_disc l = None \<and> \<not> non_merchandise l" "\<forall>l \<in> set ls. plain l \<and> \<not> sliced l \<and> \<not> carries {Disc_happy} l"
    and "so_type so \<in> {Disc_promotion, Disc_coupon}" "list_all2 owns ls Ds"
  shows "list_all2 keeps ls ls' \<and> kept_records ls' (if 0 < applied then concat Ds @ [order_record so applied] else concat Ds)
    \<and> slices_of_order ls' \<and> off_by {Disc_lot} ls' = off_by {Disc_lot} ls \<and> (\<forall>l \<in> set ls'. \<not> carries {Disc_happy} l)"
proof -
  let ?stamp = "\<lambda>per q. stamp_disc (so_type so) per label (Some q)"
  have coherent: "\<And>l. l \<in> set ls \<Longrightarrow> ok l \<Longrightarrow> coherent l" using assms(3) by (simp add: plain_def priced_coherent)
  note sp = spread_order_facts [OF assms(1) only_stamps_stamp_disc(1) coherent]
  have t: "so_type so \<in> order_types" "so_type so \<noteq> Disc_happy" using assms(4) by (auto simp: order_types_def)
  have plain: "\<forall>l \<in> set ls. plain l \<and> \<not> sliced l" using assms(3) by simp
  note st = sliced_total [OF sp(1) assms(2) plain t(1)]
  have applied: "sum_where sliced off ls' = applied" using st sp(2) by simp
  have slices: "\<forall>l \<in> set ls'. sliced l \<longrightarrow> carries {so_type so} l \<and> 0 < off l" using st by blast
  have "order_part ls' (if 0 < applied then [order_record so applied] else [])"
    using sum_where_pos_iff [of ls' sliced off] slices applied by (auto simp: order_part_def order_record_def)
  then have "kept_records ls' (concat Ds @ (if 0 < applied then [order_record so applied] else []))"
    unfolding kept_records_def using st assms(5) by blast
  moreover have "slices_of_order ls'" using slices t by (auto simp: slices_of_order_def carries_def split: option.splits)
  moreover have "\<not> carries {Disc_happy} l'" if l': "l' \<in> set ls'" for l'
  proof -
    obtain i where i: "i < length ls'" "l' = ls' ! i" using l' by (metis in_set_conv_nth)
    with sp(1) have "cut_by ?stamp ok (ls ! i) l'" "ls ! i \<in> set ls" by (auto simp: list_all2_conv_all_nth)
    with assms(3) t(2) show ?thesis by (auto simp: cut_by_def stamp_disc_def carries_def)
  qed
  moreover have "concat Ds @ (if 0 < applied then [order_record so applied] else [])
      = (if 0 < applied then concat Ds @ [order_record so applied] else concat Ds)" by simp
  ultimately show ?thesis using st by simp
qed

lemma keeps_trans: "keeps l l' \<Longrightarrow> keeps l' l'' \<Longrightarrow> keeps l l''"
  by (auto simp: keeps_def same_item_simps intro: same_item_trans)

lemma keeps_list_trans: "list_all2 keeps ls ls' \<Longrightarrow> list_all2 keeps ls' ls'' \<Longrightarrow> list_all2 keeps ls ls''"
  by (rule list_all2_trans [where bs = ls']) (auto intro: keeps_trans)

lemma cart_discount_ledger:
  assumes "\<forall>l \<in> set ls. plain l \<and> \<not> sliced l \<and> \<not> carries order_types l \<and> \<not> carries {Disc_happy} l"
    and "entry_q (pr_lot pr) = off_by {Disc_lot} ls" "cart_discount hs cd cx (ls, pr) = (ls', pr')"
  shows "list_all2 keeps ls ls' \<and> ledger ls' pr' \<and> pr_happy pr' = pr_happy pr \<and> (\<forall>l \<in> set ls'. \<not> carries {Disc_happy} l)"
proof -
  let ?ps = "active_promotions (hs_now hs) (hs_channel hs) (hs_coupons hs) (hs_promotions hs)"
  let ?coupon = "map_option (\<lambda>p. (cd_coupon cd, p)) (cart_coupon hs cd)"
  have none: "list_all2 owns ls (map (\<lambda>_. []) ls)" "order_part ls []"
    using assms(1) by (auto simp: list_all2_map2 list_all2_same owns_def order_part_def)
  show ?thesis
  proof (cases "?ps = [] \<and> cart_coupon hs cd = None \<and> \<not> has_manual ls")
    case True
    then have "ls' = ls" "pr' = pr\<lparr>pr_coupon := None, pr_discount := None\<rparr>" using assms(3) by (auto simp: cart_discount_def)
    moreover have "kept_records ls []"
      unfolding kept_records_def using none by (intro exI [of _ "map (\<lambda>_. []) ls"] exI [of _ "[]"]) simp
    moreover have "list_all2 keeps ls ls" using assms(1) by (simp add: list_all2_same keeps_def plain_def)
    ultimately show ?thesis using assms(1,2) by (simp add: ledger_def slices_of_order_def)
  next
    case False
    let ?refs = "case_option [] id (cx_tiers cx)"
    define offer where "offer = (\<lambda>l. best_offer hs cx (promotion_context hs cd cx (pl_sku l) (Some (merchandise_q ls))) ?ps ?coupon (pl_manual l) (list_price l))"
    define eligible where "eligible = fixed_eligible hs cd cx"
    obtain ls1 pr1 ds where d: "discount_lines offer ls pr = (ls1, pr1, ds)" by (rule prod_cases3)
    have ok: "\<forall>l \<in> set ls. plain l \<and> \<not> sliced l \<and> \<not> carries order_types l \<and> \<not> carries {Disc_happy} l
      \<and> fst (offer l) \<le> list_price l \<and> (\<forall>so. snd (offer l) = Some so \<longrightarrow> so_type so \<in> order_types)"
      using assms(1) best_offer_bounds best_offer_type by (auto simp: offer_def plain_def priced_list)
    have k1: "list_all2 keeps ls ls1" using ok d by (intro discount_lines_keep) (auto simp: plain_def)
    obtain Ds where r1: "list_all2 owns ls1 Ds" "ds = concat Ds" "\<forall>l \<in> set ls1. \<not> sliced l \<and> \<not> carries {Disc_happy} l"
        "entry_q (pr_lot pr1) = off_by {Disc_lot} ls1" "pr_happy pr1 = pr_happy pr"
      using discount_lines_records [OF ok _ _ d, of 0] assms(2) by auto
    have p1: "\<forall>l \<in> set ls1. plain l \<and> \<not> sliced l" using plain_all_keeps [OF k1] assms(1) r1(3) by simp
    define fixed where "fixed = best_fixed_discount ?refs (cx_meta cx) (fixed_value eligible ls1 (merchandise_q ls)) ?ps ?coupon"
    define second where "second = (case fixed of None \<Rightarrow> (ls1, ds) | Some (v, so, p) \<Rightarrow>
       (case spread_order_discount True v (eligible p) (\<lambda>per q. stamp_disc (so_type so) per (source_label so) (Some q)) ls1 of
          (ls2, applied) \<Rightarrow> (ls2, if 0 < applied then ds @ [order_record so applied] else ds)))"
    obtain ls2 ds2 where two: "second = (ls2, ds2)" by (rule prod.exhaust)
    have out: "ls' = ls2" "pr_lot pr' = pr_lot pr1" "pr_happy pr' = pr_happy pr1" "\<exists>sv. pr_discount pr' = Some (sum_list (map record_total ds2), ds2, sv)"
      using assms(3) False d two unfolding second_def fixed_def cart_discount_def prod.case Let_def offer_def [symmetric] eligible_def [symmetric]
      by auto
    have "list_all2 keeps ls1 ls2 \<and> kept_records ls2 ds2 \<and> slices_of_order ls2 \<and> off_by {Disc_lot} ls2 = off_by {Disc_lot} ls1
      \<and> (\<forall>l \<in> set ls2. \<not> carries {Disc_happy} l)"
    proof (cases fixed)
      case None
      have "order_part ls1 []" using r1(3) by (simp add: order_part_def)
      then have "kept_records ls1 ds" unfolding kept_records_def using r1(1,2) by fastforce
      moreover have "list_all2 keeps ls1 ls1" using p1 by (simp add: list_all2_same keeps_def plain_def)
      ultimately show ?thesis using two None r1(3) by (simp add: second_def slices_of_order_def)
    next
      case (Some f)
      obtain v so p where f: "f = (v, so, p)" by (rule prod_cases3)
      obtain ls3 applied where sp:
        "spread_order_discount True v (eligible p) (\<lambda>per q. stamp_disc (so_type so) per (source_label so) (Some q)) ls1 = (ls3, applied)"
        by (rule prod.exhaust)
      have "so_type so \<in> {Disc_promotion, Disc_coupon}" using Some f unfolding fixed_def by (auto dest: best_fixed_type)
      moreover have "\<And>l. eligible p l \<Longrightarrow> pl_disc l = None \<and> \<not> non_merchandise l" by (simp add: eligible_def fixed_eligible_def)
      moreover have "\<forall>l \<in> set ls1. plain l \<and> \<not> sliced l \<and> \<not> carries {Disc_happy} l" using p1 r1(3) by simp
      moreover have "ls2 = ls3" "ds2 = (if 0 < applied then concat Ds @ [order_record so applied] else concat Ds)"
        using two Some f sp r1(2) by (auto simp: second_def)
      ultimately show ?thesis using fixed_ledger [OF sp _ _ _ r1(1)] by simp
    qed
    then show ?thesis using keeps_list_trans [OF k1, of ls2] out r1(4) r1(5) by (auto simp: ledger_def)
  qed
qed

section \<open>From the price of the catalogue to the last automatic discount\<close>

definition discount_total :: "pricing \<Rightarrow> int" where
  "discount_total pr = (case pr_discount pr of None \<Rightarrow> 0 | Some (q, _) \<Rightarrow> q)"

definition fair_rule :: "house \<Rightarrow> bool" where
  "fair_rule hs \<longleftrightarrow> (case hs_time_rule hs of None \<Rightarrow> True | Some r \<Rightarrow> 0 \<le> tm_percent r \<and> tm_percent r \<le> 100)"

lemma off_by_all:
  assumes "\<forall>l \<in> set ls. priced l"
  shows "sum_list (map off ls) = off_by order_types ls + off_by {Disc_lot} ls + off_by {Disc_happy} ls"
  using assms
proof (induction ls)
  case (Cons l ls)
  have "off l = (if carries order_types l then off l else 0) + (if carries {Disc_lot} l then off l else 0)
    + (if carries {Disc_happy} l then off l else 0)"
  proof (cases "pl_disc l")
    case None
    with Cons.prems show ?thesis by (simp add: carries_def priced_clean)
  next
    case (Some d)
    then show ?thesis by (cases "ds_type d") (simp_all add: carries_def order_types_def)
  qed
  with Cons show ?case by simp
qed simp

lemma ledger_discount: "ledger ls pr \<Longrightarrow> discount_total pr = off_by order_types ls"
  using kept_total [of ls] kept_total [of ls "[]"] by (auto simp: ledger_def discount_total_def split: option.splits)

lemma sum_off: "sum_list (map off ls) = sum_list (map gross ls) - sum_list (map pl_total ls)"
  by (induction ls) (simp_all add: off_def)

lemma lot_discount_ledger:
  assumes "\<forall>l \<in> set ls. plain l \<and> pl_disc l = None" "lot_discount lot label (ls, pr) = (ls', pr')" "ls \<noteq> []"
  shows "list_all2 keeps ls ls' \<and> entry_q (pr_lot pr') = off_by {Disc_lot} ls'
    \<and> (\<forall>l \<in> set ls'. \<not> sliced l \<and> \<not> carries order_types l \<and> \<not> carries {Disc_happy} l)
    \<and> pr_happy pr' = pr_happy pr"
proof -
  let ?percent = "\<lambda>l. if pl_batch l = [] then None
     else let p = lot_percent 0 (lot (pl_batch l)) in if p \<le> 0 then None else Some (of_int p :: rat)"
  obtain ls1 pr1 won where w: "win_lines ?percent Disc_lot label ls pr = (ls1, pr1, won)" by (rule prod_cases3)
  have out: "ls' = ls1" "pr' = pr1\<lparr>pr_lot := entry_of won label\<rparr>" using assms(2,3) w by (simp_all add: lot_discount_def)
  have range: "0 \<le> p \<and> p \<le> 100" if "?percent l = Some p" for l p
  proof -
    have "lot_percent 0 a \<le> 100" for a by (auto simp: lot_percent_def split: option.split)
    with that show ?thesis by (auto simp: Let_def split: if_splits)
  qed
  then have ok: "\<forall>l \<in> set ls. plain l \<and> pl_disc l = None \<and> (\<forall>p. ?percent l = Some p \<longrightarrow> 0 \<le> p \<and> p \<le> 100)" using assms(1) by blast
  note lots = win_lines_lots [OF ok w]
  have k: "list_all2 keeps ls ls1" using ok w by (intro win_lines_keep) (auto simp: plain_def)
  have base: "\<forall>l \<in> set ls. plain l" "\<forall>l \<in> set ls. pl_disc l = None" using assms(1) by auto
  have "0 \<le> off_by {Disc_lot} ls1" using plain_all_keeps [OF k base(1)] by (intro off_by_nonneg) (simp add: plain_def)
  then have "0 \<le> won" using lots by simp
  moreover have "pr1 = pr" using win_lines_clean [OF base(2) w] by blast
  ultimately show ?thesis using k lots by (simp add: out)
qed

text \<open>The automatic modifiers leave the records of the points and of the operator alone.\<close>

lemma reverse_prior_others:
  "pr_loyalty (reverse_prior l pr) = pr_loyalty pr" "pr_manual (reverse_prior l pr) = pr_manual pr"
  by (auto simp: reverse_prior_def Let_def split: option.split disc_type.split prod.split)

lemma win_line_others:
  "win_line p t label l pr = (l', pr', w) \<Longrightarrow> pr_loyalty pr' = pr_loyalty pr \<and> pr_manual pr' = pr_manual pr"
  by (auto simp: win_line_def Let_def reverse_prior_others split: if_splits)

lemma win_lines_others:
  "win_lines percent t label ls pr = (ls', pr', w) \<Longrightarrow> pr_loyalty pr' = pr_loyalty pr \<and> pr_manual pr' = pr_manual pr"
  by (induction ls arbitrary: pr ls' pr' w) (fastforce split: option.splits prod.splits dest: win_line_others)+

lemma discount_lines_others:
  "discount_lines offer ls pr = (ls', pr', ds) \<Longrightarrow> pr_loyalty pr' = pr_loyalty pr \<and> pr_manual pr' = pr_manual pr"
proof (induction ls arbitrary: pr ls' pr' ds)
  case (Cons l ls)
  obtain l1 q w where one: "discount_line offer l pr = (l1, q, w)" by (rule prod_cases3)
  then have "pr_loyalty q = pr_loyalty pr \<and> pr_manual q = pr_manual pr"
    by (auto simp: discount_line_def Let_def reverse_prior_others split: if_splits option.splits prod.splits)
  moreover obtain ls2 q2 w2 where "discount_lines offer ls q = (ls2, q2, w2)" by (rule prod_cases3)
  ultimately show ?case using Cons.IH [of q] Cons.prems one by auto
qed simp

lemma discounted_others:
  assumes "discounted hs cd cx (ls, pr) = (ls', pr')"
  shows "pr_loyalty pr' = pr_loyalty pr" "pr_manual pr' = pr_manual pr"
proof -
  obtain l1 p1 where one: "lot_discount (hs_lot hs) (hs_lot_label hs) (ls, pr) = (l1, p1)" by (rule prod.exhaust)
  obtain l2 p2 where two: "cart_discount hs cd cx (l1, p1) = (l2, p2)" by (rule prod.exhaust)
  have three: "time_window_discount (hs_time_rule hs) (hs_time hs) (l2, p2) = (ls', pr')"
    using assms by (simp add: discounted_def one two)
  have "pr_loyalty p1 = pr_loyalty pr \<and> pr_manual p1 = pr_manual pr"
    using one by (auto simp: lot_discount_def Let_def split: if_splits prod.splits dest!: win_lines_others)
  moreover have "pr_loyalty p2 = pr_loyalty p1 \<and> pr_manual p2 = pr_manual p1"
    using two by (auto simp: cart_discount_def Let_def split: if_splits prod.splits option.splits dest!: discount_lines_others)
  moreover have "pr_loyalty pr' = pr_loyalty p2 \<and> pr_manual pr' = pr_manual p2"
    using three by (auto simp: time_window_discount_def split: if_splits prod.splits option.splits dest!: win_lines_others)
  ultimately show "pr_loyalty pr' = pr_loyalty pr" "pr_manual pr' = pr_manual pr" by simp_all
qed

lemma discounted_ledger:
  assumes "\<forall>l \<in> set ls. plain l \<and> pl_disc l = None" "distinct (map pl_id ls)" "ls \<noteq> []" "fair_rule hs"
    and "discounted hs cd cx (ls, pr) = (ls', pr')"
  shows "list_all2 keeps ls ls'
    \<and> sum_list (map gross ls') = sum_list (map pl_total ls') + discount_total pr' + entry_q (pr_lot pr') + entry_q (pr_happy pr')
        - (if hs_time_rule hs = None then entry_q (pr_happy pr) else 0)"
proof -
  obtain l1 p1 where one: "lot_discount (hs_lot hs) (hs_lot_label hs) (ls, pr) = (l1, p1)" by (rule prod.exhaust)
  obtain l2 p2 where two: "cart_discount hs cd cx (l1, p1) = (l2, p2)" by (rule prod.exhaust)
  note lots = lot_discount_ledger [OF assms(1) one assms(3)]
  have plain1: "\<forall>l \<in> set l1. plain l" using plain_all_keeps [of ls l1] lots assms(1) by blast
  note disc = cart_discount_ledger [OF _ _ two]
  have d: "list_all2 keeps l1 l2" "ledger l2 p2" "\<forall>l \<in> set l2. \<not> carries {Disc_happy} l" using disc lots plain1 by auto
  have plain2: "\<forall>l \<in> set l2. plain l" using plain_all_keeps [OF d(1) plain1] .
  have k2: "list_all2 keeps ls l2" using keeps_list_trans [OF _ d(1)] lots by blast
  have ids: "distinct (map pl_id l2)" using ids_keeps [OF k2] assms(2) by simp
  have happy2: "pr_happy p2 = pr_happy pr" using disc lots plain1 by auto
  have three: "time_window_discount (hs_time_rule hs) (hs_time hs) (l2, p2) = (ls', pr')"
    using assms(5) by (simp add: discounted_def one two)
  have total: "sum_list (map gross l3) = sum_list (map pl_total l3) + discount_total p3 + entry_q (pr_lot p3) + off_by {Disc_happy} l3"
    if "ledger l3 p3" "\<forall>l \<in> set l3. plain l" for l3 p3
    using off_by_all [of l3] sum_off [of l3] ledger_discount [OF that(1)] that by (simp add: plain_def ledger_def)
  have unchanged: "off_by {Disc_happy} l2 = 0" using d(3) by (simp add: off_by_def sum_where_none)
  show ?thesis
  proof (cases "hs_time_rule hs")
    case None
    then show ?thesis using three total [OF d(2) plain2] unchanged happy2 k2
      by (simp add: time_window_discount_def entry_q_def)
  next
    case (Some r)
    show ?thesis
    proof (cases "in_time_window (tm_start r) (tm_finish r) (hs_time hs)")
      case False
      with three Some have "ls' = l2" "pr' = p2\<lparr>pr_happy := None\<rparr>" by (simp_all add: time_window_discount_def)
      then show ?thesis using total [OF d(2) plain2] unchanged k2 Some by (simp add: entry_q_def discount_total_def)
    next
      case True
      obtain l3 p3 won where w: "win_lines (\<lambda>_. Some (tm_percent r)) Disc_happy (tm_label r) l2 p2 = (l3, p3, won)" by (rule prod_cases3)
      have out: "ls' = l3" "pr' = p3\<lparr>pr_happy := entry_of won (tm_label r)\<rparr>"
        using three Some True w by (auto simp: time_window_discount_def)
      have p: "0 \<le> tm_percent r" "tm_percent r \<le> 100" using assms(4) Some by (simp_all add: fair_rule_def)
      have h: "ledger l3 p3" "won = off_by {Disc_happy} l3"
        using win_lines_happy [of "[]" l2 p2, OF _ _ _ d(3) p w] d(2) plain2 ids by simp_all
      have k3: "list_all2 keeps l2 l3" using plain2 p w by (intro win_lines_keep) (auto simp: plain_def)
      have plain3: "\<forall>l \<in> set l3. plain l" using plain_all_keeps [OF k3 plain2] .
      then have "0 \<le> won" unfolding h(2) by (intro off_by_nonneg) (simp add: plain_def)
      then show ?thesis using total [OF h(1) plain3] h(2) keeps_list_trans [OF k2 k3] Some by (simp add: out discount_total_def)
    qed
  qed
qed

end
