(* ===== verification/PricingTotals.thy ===== *)
theory PricingTotals
  imports PricingLedger
begin

text \<open>
  The end of the pass: the delivery fee, the points and the operator's discount, and what they
  keep of the lines and of their sum.
\<close>

section \<open>Prices of the catalogue\<close>

definition fair_prices :: "house \<Rightarrow> bool" where
  "fair_prices hs \<longleftrightarrow> (\<forall>p \<in> set (hs_products hs). 0 \<le> pd_base p) \<and> (\<forall>i \<in> set (hs_listings hs). 0 \<le> li_price i)
     \<and> (\<forall>line_id. 0 \<le> hs_options hs line_id)"

lemma tier_price_fair:
  assumes "\<forall>i \<in> set items. 0 \<le> li_price i" "tier_price items sku qty ref = Some p"
  shows "0 \<le> p"
proof -
  obtain i where "find (\<lambda>i. li_min i \<le> max qty 1) (listing_tiers items ref sku) = Some i" "p = li_price i"
    using assms(2) by (auto simp: tier_price_def)
  then have "i \<in> set (listing_tiers items ref sku)" by (auto simp: find_Some_iff)
  then show ?thesis using assms(1) \<open>p = li_price i\<close> by (simp add: listing_tiers_def)
qed

lemma first_listing_fair: "(\<And>r p. price r = Some p \<Longrightarrow> 0 \<le> p) \<Longrightarrow> first_listing price rs = Some p \<Longrightarrow> 0 \<le> p"
  by (induction rs) (auto split: option.splits)

lemma unit_prices_fair:
  assumes "fair_prices hs" "unit_prices (hs_products hs) (hs_listings hs) refs keys = Some ps" "Some p \<in> set ps"
  shows "0 \<le> p"
proof -
  let ?f = "\<lambda>(sku, qty). case product_base (hs_products hs) sku of
      None \<Rightarrow> None
    | Some base \<Rightarrow> Some (case first_listing (tier_price (hs_listings hs) sku qty) (filter (\<lambda>r. r \<noteq> []) refs) of
                          Some p \<Rightarrow> p | None \<Rightarrow> base)"
  have "ps = map ?f keys" using assms(2) unfolding unit_prices_def by (simp split: if_split_asm)
  with assms(3) have "Some p \<in> ?f ` set keys" by simp
  then obtain key where "Some p = ?f key" by blast
  moreover obtain sku qty where "key = (sku, qty)" by (rule prod.exhaust)
  ultimately have key: "?f (sku, qty) = Some p" by simp
  then obtain base where base: "product_base (hs_products hs) sku = Some base" by (cases "product_base (hs_products hs) sku") simp_all
  then have "0 \<le> base" using assms(1) by (auto simp: product_base_def fair_prices_def find_Some_iff)
  moreover have "0 \<le> q" if "first_listing (tier_price (hs_listings hs) sku qty) rs = Some q" for rs q
    using assms(1) tier_price_fair first_listing_fair [OF _ that] unfolding fair_prices_def by blast
  ultimately show ?thesis using key base by (auto split: option.splits)
qed

text \<open>What pricing needs of a line: a quantity above zero and, while the catalogue has no price, one that is not negative.\<close>

definition sound_line :: "pline \<Rightarrow> bool" where
  "sound_line l \<longleftrightarrow> 0 < pl_qty l \<and> 0 \<le> pl_unit l"

lemma price_line_priced:
  assumes "sound_line l" "fair_prices hs" "\<And>p. found = Some p \<Longrightarrow> 0 \<le> p"
  shows "priced (price_line hs found l)" "pl_disc (price_line hs found l) = None" "pl_id (price_line hs found l) = pl_id l"
    "pl_sku (price_line hs found l) = pl_sku l" "pl_qty (price_line hs found l) = pl_qty l"
    "pl_type (price_line hs found l) = pl_type l" "pl_source (price_line hs found l) = pl_source l"
  using assms by (cases found, auto simp: price_line_def Let_def priced_def sound_line_def fair_prices_def list_price_def disc_q_def line_qty_def)+

lemma item_pricing_priced:
  assumes "item_pricing hs cx internal ls = Some ls'" "\<forall>l \<in> set ls. sound_line l" "fair_prices hs"
  shows "list_all2 (\<lambda>l l'. \<exists>found. (\<forall>p. found = Some p \<longrightarrow> 0 \<le> p) \<and> l' = price_line hs found l) ls ls'"
proof (cases internal)
  case True
  let ?refs = "[case_option [] id (cx_listing cx), hs_channel hs]"
  obtain ps where ps: "unit_prices (hs_products hs) (hs_listings hs) ?refs (map (\<lambda>l. (pl_sku l, pl_qty l)) ls) = Some ps"
      "ls' = map2 (price_line hs) ps ls"
    using assms(1) True by (auto simp: item_pricing_def)
  have "length ps = length ls" using ps(1) by (auto simp: unit_prices_def split: if_splits)
  moreover have "\<forall>p. ps ! i = Some p \<longrightarrow> 0 \<le> p" if "i < length ps" for i
    using unit_prices_fair [OF assms(3) ps(1)] that by (metis nth_mem)
  ultimately show ?thesis unfolding ps(2) list_all2_conv_all_nth by auto
next
  case False
  then have "ls' = map (price_line hs None) ls" using assms(1) by (simp add: item_pricing_def)
  then show ?thesis by (auto simp: list_all2_map2 list_all2_same intro!: exI [of _ None])
qed

section \<open>Delivery, points and the operator's discount\<close>

definition sold_line :: "pline \<Rightarrow> bool" where
  "sold_line l \<longleftrightarrow> (if non_merchandise l then off l = 0 else coherent l \<and> pl_list l \<noteq> None \<and> pl_unit l \<le> list_price l)"

lemma priced_sold: "priced l \<Longrightarrow> (non_merchandise l \<Longrightarrow> pl_disc l = None) \<Longrightarrow> sold_line l"
  using priced_current [of l] by (auto simp: sold_line_def priced_coherent priced_clean) (auto simp: priced_def)

lemma fee_line_sold: "non_merchandise (fee_line x q)" "off (fee_line x q) = 0" "pl_source (fee_line x q) = fee_source"
  by (simp_all add: fee_line_def non_merchandise_def off_def gross_def list_price_def line_qty_def)

definition fee_marked :: "pline list \<Rightarrow> bool" where
  "fee_marked ls \<longleftrightarrow> (\<forall>l \<in> set ls. pl_source l = fee_source \<longrightarrow> non_merchandise l)"

lemma filter_off:
  assumes "\<forall>l \<in> set ls. sold_line l" "fee_marked ls"
  shows "sum_list (map off (filter (\<lambda>l. pl_source l \<noteq> fee_source) ls)) = sum_list (map off ls)"
    "merchandise_q (filter (\<lambda>l. pl_source l \<noteq> fee_source) ls) = merchandise_q ls"
  using assms by (induction ls) (auto simp: fee_marked_def sold_line_def merchandise_q_def)

lemma sync_fee_line_sold:
  assumes "\<forall>l \<in> set ls. sold_line l" "fee_marked ls"
  shows "(\<forall>l \<in> set (sync_fee_line fresh fee ls). sold_line l)
    \<and> sum_list (map off (sync_fee_line fresh fee ls)) = sum_list (map off ls)
    \<and> merchandise_q (sync_fee_line fresh fee ls) = merchandise_q ls"
proof -
  let ?others = "filter (\<lambda>l. pl_source l \<noteq> fee_source) ls"
  have result: "sync_fee_line fresh fee ls = ls \<or> sync_fee_line fresh fee ls = ?others
      \<or> (\<exists>x q. sync_fee_line fresh fee ls = ?others @ [fee_line x q])"
    by (auto simp: sync_fee_line_def Let_def split: option.splits list.splits)
  have fee: "sold_line (fee_line x q)" "merchandise_q [fee_line x q] = 0" for x q
    by (simp_all add: fee_line_sold sold_line_def merchandise_q_def)
  have app: "merchandise_q (xs @ ys) = merchandise_q xs + merchandise_q ys" for xs ys by (simp add: merchandise_q_def)
  from result show ?thesis using assms filter_off [OF assms] fee by (elim disjE exE) (simp_all add: app fee_line_sold)
qed

lemma delivery_fee_sold:
  assumes "\<forall>l \<in> set ls. sold_line l" "fee_marked ls" "delivery_fee hs cx pr (ls, cd) = (ls', cd')"
  shows "(\<forall>l \<in> set ls'. sold_line l) \<and> sum_list (map off ls') = sum_list (map off ls) \<and> merchandise_q ls' = merchandise_q ls"
proof -
  have "\<exists>fee. ls' = sync_fee_line (hs_fee_id hs) fee ls"
    using assms(3) by (auto simp: delivery_fee_def Let_def split: if_splits option.splits prod.splits)
  then show ?thesis using sync_fee_line_sold [OF assms(1,2)] by blast
qed

lemma order_cut_sold:
  assumes "\<forall>l \<in> set ls. sold_line l" "spread_order_discount False q (\<lambda>l. \<not> non_merchandise l) (\<lambda>_ _ l. l) ls = (ls', applied)"
  shows "(\<forall>l \<in> set ls'. sold_line l) \<and> sum_list (map off ls') = sum_list (map off ls) + applied
    \<and> merchandise_q ls' = merchandise_q ls - applied \<and> 0 \<le> applied"
proof -
  have "\<And>l. l \<in> set ls \<Longrightarrow> \<not> non_merchandise l \<Longrightarrow> coherent l" using assms(1) by (auto simp: sold_line_def)
  note sp = spread_order_facts [OF assms(2) only_stamps_stamp_disc(2) this]
  have one: "sold_line l' \<and> gross l' = gross l \<and> non_merchandise l' = non_merchandise l \<and> (non_merchandise l \<longrightarrow> pl_total l' = pl_total l)"
    if "sold_line l" "cut_by (\<lambda>_ _ l. l) (\<lambda>l. \<not> non_merchandise l) l l'" for l l'
  proof (cases "non_merchandise l")
    case True
    with cut_by_cut_of [OF only_stamps_stamp_disc(2) that(2)] that(1) show ?thesis by simp
  next
    case False
    have cut: "cut_of l l'" using cut_by_cut_of [OF only_stamps_stamp_disc(2) that(2)] by blast
    note f = cut_of_fields [OF cut]
    have l: "coherent l" "pl_list l \<noteq> None" "pl_unit l \<le> list_price l" using that(1) False by (simp_all add: sold_line_def)
    have "list_price l' = list_price l" using f(4) l(2) by (auto simp: list_price_def)
    then show ?thesis using f l False by (auto simp: sold_line_def gross_def)
  qed
  have "list_all2 (\<lambda>l l'. sold_line l' \<and> gross l' = gross l \<and> non_merchandise l' = non_merchandise l
      \<and> (non_merchandise l \<longrightarrow> pl_total l' = pl_total l)) ls ls'"
    using sp(1)
  proof (rule list.rel_mono_strong)
    fix l l' assume "l \<in> set ls" "cut_by (\<lambda>_ _ l. l) (\<lambda>l. \<not> non_merchandise l) l l'"
    with one [of l l'] assms(1) show "sold_line l' \<and> gross l' = gross l \<and> non_merchandise l' = non_merchandise l
      \<and> (non_merchandise l \<longrightarrow> pl_total l' = pl_total l)" by simp
  qed
  then have "(\<forall>l \<in> set ls'. sold_line l) \<and> sum_list (map gross ls') = sum_list (map gross ls)
      \<and> sum_list (map pl_total ls') - merchandise_q ls' = sum_list (map pl_total ls) - merchandise_q ls"
    by (induction rule: list_all2_induct) (auto simp: merchandise_q_def)
  then show ?thesis using sp(2,3) by (simp add: sum_off)
qed

lemma loyalty_redeem_sold:
  assumes "\<forall>l \<in> set ls. sold_line l" "loyalty_redeem (ls, pr, cd) = (ls', pr', cd')"
  shows "\<forall>l \<in> set ls'. sold_line l"
    "sum_list (map off ls') = sum_list (map off ls) + entry_q (pr_loyalty pr')
       - (if 0 < cd_redeem cd \<and> merchandise_q ls \<le> 0 then entry_q (pr_loyalty pr) else 0)"
    "merchandise_q ls' = merchandise_q ls - cd_applied cd'"
    "pr_discount pr' = pr_discount pr" "pr_lot pr' = pr_lot pr" "pr_happy pr' = pr_happy pr" "pr_manual pr' = pr_manual pr"
    "cd_manual_q cd' = cd_manual_q cd"
proof -
  obtain ls1 applied where sp: "spread_order_discount False (min (cd_redeem cd) (merchandise_q ls)) (\<lambda>l. \<not> non_merchandise l) (\<lambda>_ _ l. l) ls = (ls1, applied)"
    by (rule prod.exhaust)
  note cut = order_cut_sold [OF assms(1) sp]
  show "\<forall>l \<in> set ls'. sold_line l" using assms cut sp by (auto simp: loyalty_redeem_def Let_def split: if_splits)
  show "sum_list (map off ls') = sum_list (map off ls) + entry_q (pr_loyalty pr')
       - (if 0 < cd_redeem cd \<and> merchandise_q ls \<le> 0 then entry_q (pr_loyalty pr) else 0)"
    using assms(2) cut sp by (auto simp: loyalty_redeem_def Let_def entry_q_def split: if_splits)
  show "merchandise_q ls' = merchandise_q ls - cd_applied cd'"
    using assms(2) cut sp by (auto simp: loyalty_redeem_def Let_def split: if_splits)
  show "pr_discount pr' = pr_discount pr" "pr_lot pr' = pr_lot pr" "pr_happy pr' = pr_happy pr" "pr_manual pr' = pr_manual pr"
    "cd_manual_q cd' = cd_manual_q cd"
    using assms(2) by (auto simp: loyalty_redeem_def Let_def split: if_splits prod.splits)
qed

lemma manual_discount_sold:
  assumes "\<forall>l \<in> set ls. sold_line l" "manual_discount cd (ls, pr) = (ls', pr')"
  shows "\<forall>l \<in> set ls'. sold_line l"
    "sum_list (map off ls') = sum_list (map off ls) + entry_q (pr_manual pr')
       - (if 0 < cd_manual_q cd \<and> merchandise_q ls \<le> 0 then entry_q (pr_manual pr) else 0)"
    "pr_discount pr' = pr_discount pr" "pr_lot pr' = pr_lot pr" "pr_happy pr' = pr_happy pr" "pr_loyalty pr' = pr_loyalty pr"
proof -
  obtain ls1 applied where sp: "spread_order_discount False (min (cd_manual_q cd) (merchandise_q ls)) (\<lambda>l. \<not> non_merchandise l) (\<lambda>_ _ l. l) ls = (ls1, applied)"
    by (rule prod.exhaust)
  note cut = order_cut_sold [OF assms(1) sp]
  show "\<forall>l \<in> set ls'. sold_line l" using assms cut sp by (auto simp: manual_discount_def Let_def split: if_splits)
  show "sum_list (map off ls') = sum_list (map off ls) + entry_q (pr_manual pr')
       - (if 0 < cd_manual_q cd \<and> merchandise_q ls \<le> 0 then entry_q (pr_manual pr) else 0)"
    using assms(2) cut sp by (auto simp: manual_discount_def Let_def entry_q_def split: if_splits)
  show "pr_discount pr' = pr_discount pr" "pr_lot pr' = pr_lot pr" "pr_happy pr' = pr_happy pr" "pr_loyalty pr' = pr_loyalty pr"
    using assms(2) by (auto simp: manual_discount_def Let_def split: if_splits prod.splits)
qed

lemma kept_sold:
  "list_all2 keeps ls ls' \<Longrightarrow> \<forall>l \<in> set ls. pl_disc l = None \<Longrightarrow> fee_marked ls \<Longrightarrow> (\<forall>l \<in> set ls'. sold_line l) \<and> fee_marked ls'"
proof (induction rule: list_all2_induct)
  case (Cons l ls l' ls')
  have "priced l'" "non_merchandise l' \<Longrightarrow> l' = l" "non_merchandise l' = non_merchandise l" "pl_source l' = pl_source l"
    using Cons.hyps(1) by (auto simp: keeps_def same_item_simps)
  with Cons.IH Cons.prems show ?case by (auto intro: priced_sold simp: fee_marked_def)
qed (simp add: fee_marked_def)

section \<open>Every line keeps what the customer chose\<close>

lemma keeps_self: "\<forall>l \<in> set ls. priced l \<Longrightarrow> list_all2 keeps ls ls"
  by (simp add: list_all2_same keeps_def)

lemma keeps_priced: "list_all2 keeps ls ls' \<Longrightarrow> \<forall>l \<in> set ls'. priced l"
  by (induction rule: list_all2_induct) (simp_all add: keeps_def)

lemma lot_discount_keeps:
  assumes "\<forall>l \<in> set ls. priced l" "lot_discount lot label (ls, pr) = (ls', pr')"
  shows "list_all2 keeps ls ls'"
proof (cases "ls = []")
  case True
  with assms(2) show ?thesis by (simp add: lot_discount_def)
next
  case False
  let ?percent = "\<lambda>l. if pl_batch l = [] then None
     else let p = lot_percent 0 (lot (pl_batch l)) in if p \<le> 0 then None else Some (of_int p :: rat)"
  obtain ls1 pr1 won where w: "win_lines ?percent Disc_lot label ls pr = (ls1, pr1, won)" by (rule prod_cases3)
  have top: "lot_percent 0 a \<le> 100" for a by (auto simp: lot_percent_def split: option.split)
  have range: "0 \<le> p \<and> p \<le> 100" if p: "?percent l = Some p" for l p
    using p top by (auto simp: Let_def split: if_splits)
  have "\<forall>l \<in> set ls. priced l \<and> (\<forall>p. ?percent l = Some p \<longrightarrow> 0 \<le> p \<and> p \<le> 100)" using assms(1) range by blast
  from win_lines_keep [OF this w] show ?thesis using False assms(2) w by (simp add: lot_discount_def)
qed

lemma time_window_keeps:
  assumes "\<forall>l \<in> set ls. priced l" "fair_rule hs" "time_window_discount (hs_time_rule hs) tod (ls, pr) = (ls', pr')"
  shows "list_all2 keeps ls ls'"
  using assms keeps_self [OF assms(1)]
  by (auto simp: time_window_discount_def fair_rule_def split: option.splits if_splits prod.splits intro: win_lines_keep)

lemma cut_by_list_keeps:
  assumes "spread_order_discount al v ok (\<lambda>per q. stamp_disc t per label (Some q)) ls = (ls', applied)"
    and "\<And>l. ok l \<Longrightarrow> pl_disc l = None \<and> \<not> non_merchandise l" "\<forall>l \<in> set ls. priced l"
  shows "list_all2 keeps ls ls'"
proof -
  have "\<And>l. l \<in> set ls \<Longrightarrow> ok l \<Longrightarrow> coherent l" using assms(3) by (simp add: priced_coherent)
  from spread_order_facts(1) [OF assms(1) only_stamps_stamp_disc(1) this] show ?thesis
  proof (rule list.rel_mono_strong)
    fix l l' assume l: "l \<in> set ls" "cut_by (\<lambda>per q. stamp_disc t per label (Some q)) ok l l'"
    show "keeps l l'" using cut_by_keeps(1) [OF l(2) assms(2)] assms(3) l(1) by blast
  qed
qed

lemma cart_discount_keeps:
  assumes "\<forall>l \<in> set ls. priced l" "cart_discount hs cd cx (ls, pr) = (ls', pr')"
  shows "list_all2 keeps ls ls'"
proof -
  let ?ps = "active_promotions (hs_now hs) (hs_channel hs) (hs_coupons hs) (hs_promotions hs)"
  let ?coupon = "map_option (\<lambda>p. (cd_coupon cd, p)) (cart_coupon hs cd)"
  show ?thesis
  proof (cases "?ps = [] \<and> cart_coupon hs cd = None \<and> \<not> has_manual ls")
    case True
    then have "ls' = ls" using assms(2) by (auto simp: cart_discount_def)
    with keeps_self [OF assms(1)] show ?thesis by simp
  next
    case False
    define offer where "offer = (\<lambda>l. best_offer hs cx (promotion_context hs cd cx (pl_sku l) (Some (merchandise_q ls))) ?ps ?coupon (pl_manual l) (list_price l))"
    obtain ls1 pr1 ds where d: "discount_lines offer ls pr = (ls1, pr1, ds)" by (rule prod_cases3)
    have k1: "list_all2 keeps ls ls1"
      using assms(1) d best_offer_bounds by (intro discount_lines_keep) (auto simp: offer_def priced_list)
    define eligible where "eligible = fixed_eligible hs cd cx"
    have ok: "eligible p l \<Longrightarrow> pl_disc l = None \<and> \<not> non_merchandise l" for p l by (simp add: eligible_def fixed_eligible_def)
    have cases: "ls' = ls1 \<or> (\<exists>v so p applied. spread_order_discount True v (eligible p)
        (\<lambda>per q. stamp_disc (so_type so) per (source_label so) (Some q)) ls1 = (ls', applied))"
      using assms(2) False d unfolding cart_discount_def prod.case Let_def offer_def [symmetric] eligible_def [symmetric]
      by (auto split: option.splits prod.splits)
    have k2: "list_all2 keeps ls1 ls'"
    proof (cases "ls' = ls1")
      case True
      with keeps_self [OF keeps_priced [OF k1]] show ?thesis by simp
    next
      case False
      with cases obtain v so p applied where
        "spread_order_discount True v (eligible p) (\<lambda>per q. stamp_disc (so_type so) per (source_label so) (Some q)) ls1 = (ls', applied)"
        by blast
      from cut_by_list_keeps [OF this ok keeps_priced [OF k1]] show ?thesis .
    qed
    from k1 k2 show ?thesis by (rule keeps_list_trans)
  qed
qed

lemma discounted_keeps:
  assumes "\<forall>l \<in> set ls. priced l" "fair_rule hs" "discounted hs cd cx (ls, pr) = (ls', pr')"
  shows "list_all2 keeps ls ls'"
proof -
  obtain l1 p1 where one: "lot_discount (hs_lot hs) (hs_lot_label hs) (ls, pr) = (l1, p1)" by (rule prod.exhaust)
  obtain l2 p2 where two: "cart_discount hs cd cx (l1, p1) = (l2, p2)" by (rule prod.exhaust)
  have three: "time_window_discount (hs_time_rule hs) (hs_time hs) (l2, p2) = (ls', pr')"
    using assms(3) by (simp add: discounted_def one two)
  have k1: "list_all2 keeps ls l1" by (rule lot_discount_keeps [OF assms(1) one])
  have k2: "list_all2 keeps l1 l2" by (rule cart_discount_keeps [OF keeps_priced [OF k1] two])
  have "list_all2 keeps l2 ls'" by (rule time_window_keeps [OF keeps_priced [OF k2] assms(2) three])
  with k1 k2 show ?thesis by (blast intro: keeps_list_trans)
qed

text \<open>The merchandise of a cart: which lines, of what and how much.\<close>

definition choice :: "pline list \<Rightarrow> (string \<times> string \<times> rat) list" where
  "choice ls = map (\<lambda>l. (pl_id l, pl_sku l, pl_qty l)) (filter (\<lambda>l. \<not> non_merchandise l) ls)"

lemma choice_simps [simp]:
  "choice [] = []" "choice (l # ls) = (if non_merchandise l then [] else [(pl_id l, pl_sku l, pl_qty l)]) @ choice ls"
  "choice (ls @ ms) = choice ls @ choice ms"
  by (simp_all add: choice_def)

lemma choice_keeps: "list_all2 keeps ls ls' \<Longrightarrow> choice ls' = choice ls"
  by (induction rule: list_all2_induct) (auto simp: keeps_def same_item_def non_merchandise_def)

lemma choice_fee:
  assumes "fee_marked ls" "delivery_fee hs cx pr (ls, cd) = (ls', cd')"
  shows "choice ls' = choice ls"
proof -
  obtain fee where ls': "ls' = sync_fee_line (hs_fee_id hs) fee ls"
    using assms(2) by (auto simp: delivery_fee_def Let_def split: if_splits option.splits prod.splits)
  have "choice (filter (\<lambda>l. pl_source l \<noteq> fee_source) ls) = choice ls"
    using assms(1) by (induction ls) (auto simp: fee_marked_def)
  then show ?thesis unfolding ls' sync_fee_line_def Let_def
    by (auto simp: fee_line_sold split: option.splits list.splits)
qed

lemma choice_cut:
  assumes "spread_order_discount False q (\<lambda>l. \<not> non_merchandise l) (\<lambda>_ _ l. l) ls = (ls', applied)" "\<forall>l \<in> set ls. sold_line l"
  shows "choice ls' = choice ls"
proof -
  have "\<And>l. l \<in> set ls \<Longrightarrow> \<not> non_merchandise l \<Longrightarrow> coherent l" using assms(2) by (auto simp: sold_line_def)
  from spread_order_facts(1) [OF assms(1) only_stamps_stamp_disc(2) this]
  have "list_all2 cut_of ls ls'"
  proof (rule list.rel_mono_strong)
    fix l l' assume "cut_by (\<lambda>_ _ l. l) (\<lambda>l. \<not> non_merchandise l) l l'"
    with cut_by_cut_of [OF only_stamps_stamp_disc(2)] show "cut_of l l'" by blast
  qed
  then show ?thesis by (induction rule: list_all2_induct) (simp_all add: cut_of_fields)
qed

lemma choice_end:
  assumes "\<forall>l \<in> set ls. sold_line l"
  shows "loyalty_redeem (ls, pr, cd) = (ls', pr', cd') \<Longrightarrow> choice ls' = choice ls"
    "manual_discount cd (ls, pr) = (ls', pr') \<Longrightarrow> choice ls' = choice ls"
  using choice_cut [OF _ assms]
  by (auto simp: loyalty_redeem_def manual_discount_def Let_def split: if_splits prod.splits)

end
