(* ===== verification/PricingBest.thy ===== *)
theory PricingBest
  imports PricingTotals
begin

text \<open>
  The largest discount wins the line: discounts of a line do not add up, each one a line is
  offered competes on the cut per unit against the list price.
\<close>

section \<open>What a line is offered\<close>

definition lot_offer :: "house \<Rightarrow> pline \<Rightarrow> int" where
  "lot_offer hs l = (if pl_batch l = [] then 0 else percent_off (list_price l) (of_int (lot_percent 0 (hs_lot hs (pl_batch l)))))"

text \<open>The promotions, the coupon and the operator's discount of a line, before they compete.\<close>

definition order_offers :: "house \<Rightarrow> cart_data \<Rightarrow> price_ctx \<Rightarrow> int \<Rightarrow> pline \<Rightarrow> int list" where
  "order_offers hs cd cx subtotal l =
     (let ctx = promotion_context hs cd cx (pl_sku l) (Some subtotal);
          ps = active_promotions (hs_now hs) (hs_channel hs) (hs_coupons hs) (hs_promotions hs) in
      map fst (line_offers hs cx ctx ps (list_price l))
      @ (case cart_coupon hs cd of
           None \<Rightarrow> []
         | Some p \<Rightarrow> if pm_type p = Percent_off \<and> promotion_matches p ctx then [calc_discount p (list_price l)] else [])
      @ (case pl_manual l of None \<Rightarrow> [] | Some m \<Rightarrow> if lm_value m = 0 then [] else [calc_manual m (list_price l)]))"

definition time_offer :: "house \<Rightarrow> pline \<Rightarrow> int" where
  "time_offer hs l =
     (case hs_time_rule hs of
        None \<Rightarrow> 0
      | Some r \<Rightarrow> if in_time_window (tm_start r) (tm_finish r) (hs_time hs) then percent_off (list_price l) (tm_percent r) else 0)"

fun best_of :: "int list \<Rightarrow> int" where
  "best_of [] = 0"
| "best_of (q # qs) = max q (best_of qs)"

lemma best_of_nonneg [simp]: "0 \<le> best_of qs"
  by (induction qs) auto

lemma best_of_max0 [simp]: "max (best_of qs) 0 = best_of qs"
  by (simp add: max_absorb1)

lemma best_of_append [simp]: "best_of (qs @ rs) = max (best_of qs) (best_of rs)"
  by (induction qs) auto

lemma best_of_upper: "q \<in> set qs \<Longrightarrow> q \<le> best_of qs"
  by (induction qs) auto

section \<open>The modifiers take the best\<close>

lemma foldl_better_best: "0 \<le> fst best \<Longrightarrow> fst (foldl better best offers) = max (fst best) (best_of (map fst offers))"
proof (induction offers arbitrary: best)
  case (Cons x offers)
  have "fst (better best x) = max (fst best) (fst x)" by (simp add: better_def)
  with Cons.IH [of "better best x"] Cons.prems show ?case by simp
qed simp

lemma foldl_better_some: "snd (foldl better (0, None) offers) = None \<Longrightarrow> fst (foldl better (0, None) offers) = 0"
proof -
  have "snd (foldl better best offers) = None \<Longrightarrow> snd best = None \<and> foldl better best offers = best" for best
  proof (induction offers arbitrary: best)
    case (Cons x offers)
    from Cons.IH [of "better best x"] Cons.prems show ?case by (auto simp: better_def split: if_splits)
  qed simp
  from this [of "(0, None)"] show "snd (foldl better (0, None) offers) = None \<Longrightarrow> fst (foldl better (0, None) offers) = 0" by simp
qed

text \<open>The best offer of the modifier is the largest of what the line is offered.\<close>

lemma best_offer_best:
  fixes hs :: house and cd :: cart_data and cx :: price_ctx and subtotal :: int and l :: pline
  assumes "0 \<le> list_price l"
  defines "ctx \<equiv> promotion_context hs cd cx (pl_sku l) (Some subtotal)"
    and "ps \<equiv> active_promotions (hs_now hs) (hs_channel hs) (hs_coupons hs) (hs_promotions hs)"
  defines "offer \<equiv> best_offer hs cx ctx ps (map_option (\<lambda>p. (cd_coupon cd, p)) (cart_coupon hs cd)) (pl_manual l) (list_price l)"
  shows "fst offer = best_of (order_offers hs cd cx subtotal l)" "snd offer = None \<Longrightarrow> fst offer = 0"
proof -
  define found where "found = foldl better (0, None) (line_offers hs cx ctx ps (list_price l))"
  define offers where "offers = map fst (line_offers hs cx ctx ps (list_price l))"
  have found: "fst found = best_of offers" by (simp add: found_def offers_def foldl_better_best)
  have none: "snd found = None \<Longrightarrow> fst found = 0" unfolding found_def by (rule foldl_better_some)
  define second where "second = (case cart_coupon hs cd of
      None \<Rightarrow> found
    | Some p \<Rightarrow> if pm_type p = Percent_off \<and> promotion_matches p ctx \<and> fst found \<le> calc_discount p (list_price l)
                then (calc_discount p (list_price l), Some (coupon_source (cd_coupon cd) p)) else found)"
  define coupons where "coupons = (case cart_coupon hs cd of
      None \<Rightarrow> []
    | Some p \<Rightarrow> if pm_type p = Percent_off \<and> promotion_matches p ctx then [calc_discount p (list_price l)] else [])"
  have second: "fst second = best_of (offers @ coupons)" "snd second = None \<Longrightarrow> fst second = 0"
    using found none calc_discount_bounds [OF assms(1)]
    by (cases "cart_coupon hs cd", auto simp: second_def coupons_def max_absorb1 max_absorb2)+
  have offer: "offer = (case pl_manual l of None \<Rightarrow> second
      | Some m \<Rightarrow> if lm_value m = 0 then second else better second (calc_manual m (list_price l), manual_source m))"
    unfolding offer_def best_offer_def second_def found_def Let_def
    by (cases "cart_coupon hs cd"; cases "pl_manual l") (simp_all cong: if_cong)
  have all: "order_offers hs cd cx subtotal l = (offers @ coupons)
      @ (case pl_manual l of None \<Rightarrow> [] | Some m \<Rightarrow> if lm_value m = 0 then [] else [calc_manual m (list_price l)])"
    unfolding order_offers_def Let_def ctx_def [symmetric] ps_def [symmetric] offers_def coupons_def by simp
  show "fst offer = best_of (order_offers hs cd cx subtotal l)"
    unfolding offer all best_of_append [of "offers @ coupons"] second(1) [symmetric]
    using best_of_max0 [of "offers @ coupons", folded second(1)]
    by (cases "pl_manual l") (auto simp: better_def max_def split: if_splits)
  show "snd offer = None \<Longrightarrow> fst offer = 0"
    unfolding offer using second(2) by (cases "pl_manual l") (simp_all add: better_def split: if_splits)
qed

text \<open>Each modifier leaves the larger of the discount the line has and its own.\<close>

definition raised :: "(pline \<Rightarrow> int) \<Rightarrow> pline \<Rightarrow> pline \<Rightarrow> bool" where
  "raised mine l l' \<longleftrightarrow> keeps l l' \<and> pl_batch l' = pl_batch l \<and> pl_manual l' = pl_manual l
     \<and> (\<not> non_merchandise l \<longrightarrow> disc_q l' = max (disc_q l) (mine l) \<and> (l' = l \<or> \<not> sliced l' \<and> disc_q l' = mine l))"

lemma raised_discounted:
  assumes "priced l" "current_disc l < q" "q \<le> list_price l" "\<not> non_merchandise l"
  shows "raised (\<lambda>_. q) l (discounted_line t q label l)"
  using discounted_line [OF assms(1-3), of t label] assms priced_current [OF assms(1)]
  by (simp add: raised_def keeps_def disc_q_def sliced_def)

lemma raised_same: "priced l \<Longrightarrow> (\<not> non_merchandise l \<Longrightarrow> mine l \<le> disc_q l) \<Longrightarrow> raised mine l l"
  by (simp add: raised_def keeps_def)

lemma raised_mine: "raised (\<lambda>_. q) l l' \<Longrightarrow> mine l = q \<Longrightarrow> raised mine l l'"
  by (auto simp: raised_def)

lemma raised_cong: "raised f l l' \<Longrightarrow> f l = g l \<Longrightarrow> raised g l l'"
  by (auto simp: raised_def)

lemma win_lines_raised:
  assumes "\<forall>l \<in> set ls. priced l \<and> (\<forall>p. percent l = Some p \<longrightarrow> 0 \<le> p \<and> p \<le> 100)"
    and "win_lines percent t label ls pr = (ls1, pr1, won)"
  shows "list_all2 (raised (\<lambda>l. case percent l of None \<Rightarrow> 0 | Some p \<Rightarrow> percent_off (list_price l) p)) ls ls1"
  using assms
proof (induction ls arbitrary: pr pr1 ls1 won)
  case (Cons l ls)
  let ?mine = "\<lambda>l. case percent l of None \<Rightarrow> 0 | Some p \<Rightarrow> percent_off (list_price l) p"
  from Cons.prems have l: "priced l" by simp
  obtain l1 q w where one: "(case percent l of None \<Rightarrow> (l, pr, 0) | Some p \<Rightarrow> win_line p t label l pr) = (l1, q, w)"
    by (rule prod_cases3)
  obtain ls2 q2 w2 where rest: "win_lines percent t label ls q = (ls2, q2, w2)" by (rule prod_cases3)
  have nonneg: "0 \<le> disc_q l" using priced_current [OF l] by simp
  have "raised ?mine l l1"
  proof (cases "percent l")
    case None
    moreover have "l1 = l" using one None by simp
    ultimately show ?thesis using raised_same [OF l, of ?mine] nonneg by simp
  next
    case (Some p)
    with Cons.prems(1) have p: "0 \<le> p" "p \<le> 100" by auto
    from l p show ?thesis
    proof (rule win_line_cases [where t = t and label = label and pr = pr])
      assume k: "win_line p t label l pr = (l, pr, 0)"
        "non_merchandise l \<or> percent_off (list_price l) p \<le> disc_q l \<or> list_price l \<le> 0"
      have "percent_off (list_price l) p \<le> list_price l" by (rule percent_off_bounds [OF priced_list [OF l] p])
      with k(2) nonneg have "\<not> non_merchandise l \<Longrightarrow> ?mine l \<le> disc_q l" by (auto simp: Some)
      moreover have "l1 = l" using k(1) one Some by simp
      ultimately show ?thesis using raised_same [OF l] by simp
    next
      fix d assume d: "d = percent_off (list_price l) p" "current_disc l < d" "d \<le> list_price l" "\<not> non_merchandise l"
        "win_line p t label l pr = (discounted_line t d label l, reverse_prior l pr, monetary_mult (line_qty l) d)"
      then have "l1 = discounted_line t d label l" using one Some by simp
      with raised_mine [OF raised_discounted [OF l d(2-4), of t label], of ?mine] d(1) Some show ?thesis by simp
    qed
  qed
  moreover have "list_all2 (raised ?mine) ls ls2" using Cons.prems(1) by (intro Cons.IH [OF _ rest]) simp
  moreover have "ls1 = l1 # ls2" using Cons.prems(2) one rest by (cases "percent l") simp_all
  ultimately show ?case by simp
qed simp

lemma discount_lines_raised:
  assumes "\<forall>l \<in> set ls. priced l \<and> fst (offer l) \<le> list_price l \<and> (snd (offer l) = None \<longrightarrow> fst (offer l) = 0)"
    and "discount_lines offer ls pr = (ls1, pr1, ds)"
  shows "list_all2 (raised (\<lambda>l. fst (offer l))) ls ls1"
  using assms
proof (induction ls arbitrary: pr pr1 ls1 ds)
  case (Cons l ls)
  from Cons.prems have l: "priced l" "fst (offer l) \<le> list_price l" "snd (offer l) = None \<Longrightarrow> fst (offer l) = 0" by simp_all
  obtain l1 q w where one: "discount_line offer l pr = (l1, q, w)" by (rule prod_cases3)
  obtain ls2 q2 w2 where rest: "discount_lines offer ls q = (ls2, q2, w2)" by (rule prod_cases3)
  have nonneg: "0 \<le> disc_q l" using priced_current [OF l(1)] by simp
  from l(1,2) have "raised (\<lambda>l. fst (offer l)) l l1"
  proof (rule discount_line_cases [where pr = pr])
    assume k: "discount_line offer l pr = (l, pr, [])"
      "non_merchandise l \<or> snd (offer l) = None \<or> fst (offer l) \<le> disc_q l \<or> list_price l \<le> 0"
    then have "\<not> non_merchandise l \<Longrightarrow> fst (offer l) \<le> disc_q l" using l(2,3) nonneg by auto
    moreover have "l1 = l" using k(1) one by simp
    ultimately show ?thesis using raised_same [OF l(1), of "\<lambda>l. fst (offer l)"] by simp
  next
    fix d so assume d: "offer l = (d, Some so)" "current_disc l < d" "d \<le> list_price l" "\<not> non_merchandise l"
      "discount_line offer l pr = (discounted_line (so_type so) d (source_label so) l, reverse_prior l pr, [source_record so d l])"
    then have "l1 = discounted_line (so_type so) d (source_label so) l" using one by simp
    with raised_mine [OF raised_discounted [OF l(1) d(2-4)], of "\<lambda>l. fst (offer l)"] d(1) show ?thesis by simp
  qed
  moreover have "list_all2 (raised (\<lambda>l. fst (offer l))) ls ls2" using Cons.prems(1) by (intro Cons.IH [OF _ rest]) simp
  moreover have "ls1 = l1 # ls2" using Cons.prems(2) one rest by simp
  ultimately show ?case by simp
qed simp

lemma lot_discount_raised:
  assumes "\<forall>l \<in> set ls. priced l" "lot_discount (hs_lot hs) label (ls, pr) = (ls', pr')"
  shows "list_all2 (raised (lot_offer hs)) ls ls'"
proof (cases "ls = []")
  case True
  with assms(2) show ?thesis by (simp add: lot_discount_def)
next
  case False
  let ?percent = "\<lambda>l. if pl_batch l = [] then None
     else let p = lot_percent 0 (hs_lot hs (pl_batch l)) in if p \<le> 0 then None else Some (of_int p :: rat)"
  obtain ls1 pr1 won where w: "win_lines ?percent Disc_lot label ls pr = (ls1, pr1, won)" by (rule prod_cases3)
  have range: "0 \<le> lot_percent 0 a \<and> lot_percent 0 a \<le> 100" for a by (auto simp: lot_percent_def split: option.split)
  have "0 \<le> p \<and> p \<le> 100" if p: "?percent l = Some p" for l p using p range by (auto simp: Let_def split: if_splits)
  then have "\<forall>l \<in> set ls. priced l \<and> (\<forall>p. ?percent l = Some p \<longrightarrow> 0 \<le> p \<and> p \<le> 100)" using assms(1) by blast
  note raised = win_lines_raised [OF this w]
  have mine: "(case ?percent l of None \<Rightarrow> 0 | Some p \<Rightarrow> percent_off (list_price l) p) = lot_offer hs l" for l
  proof -
    have "percent_off q (of_int (lot_percent 0 a)) = 0" if "lot_percent 0 a \<le> 0" for q a
    proof -
      have "lot_percent 0 a = 0" using range [of a] that by simp
      then show ?thesis by (simp add: percent_off_def)
    qed
    then show ?thesis by (auto simp: lot_offer_def Let_def)
  qed
  have "ls' = ls1" using False assms(2) w by (simp add: lot_discount_def)
  with raised show ?thesis unfolding mine by simp
qed

lemma time_window_raised:
  assumes "\<forall>l \<in> set ls. priced l" "fair_rule hs" "time_window_discount (hs_time_rule hs) (hs_time hs) (ls, pr) = (ls', pr')"
  shows "list_all2 (raised (time_offer hs)) ls ls'"
proof -
  have same: "list_all2 (raised mine) ls ls" if "\<And>l. mine l = 0" for mine
    using assms(1) that by (auto simp: list_all2_same priced_current intro!: raised_same)
  show ?thesis
  proof (cases "hs_time_rule hs")
    case None
    with assms(3) same show ?thesis by (simp add: time_window_discount_def time_offer_def)
  next
    case (Some r)
    show ?thesis
    proof (cases "in_time_window (tm_start r) (tm_finish r) (hs_time hs)")
      case False
      with assms(3) Some same show ?thesis by (simp add: time_window_discount_def time_offer_def)
    next
      case True
      obtain l3 p3 won where w: "win_lines (\<lambda>_. Some (tm_percent r)) Disc_happy (tm_label r) ls pr = (l3, p3, won)" by (rule prod_cases3)
      have "ls' = l3" using assms(3) Some True w by (simp add: time_window_discount_def)
      moreover have "\<forall>l \<in> set ls. priced l \<and> (\<forall>p. Some (tm_percent r) = Some p \<longrightarrow> 0 \<le> p \<and> p \<le> 100)"
        using assms(1,2) Some by (simp add: fair_rule_def)
      moreover have "time_offer hs = (\<lambda>l. percent_off (list_price l) (tm_percent r))"
        using Some True by (intro ext) (simp add: time_offer_def)
      ultimately show ?thesis using win_lines_raised [OF _ w] by simp
    qed
  qed
qed

text \<open>The discount modifier, slices of the order included.\<close>

definition offered :: "(pline \<Rightarrow> int) \<Rightarrow> pline \<Rightarrow> pline \<Rightarrow> bool" where
  "offered mine l l' \<longleftrightarrow> keeps l l' \<and> pl_batch l' = pl_batch l \<and> pl_manual l' = pl_manual l
     \<and> (\<not> non_merchandise l \<longrightarrow> max (disc_q l) (mine l) \<le> disc_q l' \<and> (\<not> sliced l' \<longrightarrow> disc_q l' = max (disc_q l) (mine l)))"

lemma cut_by_offered:
  assumes "cut_by (\<lambda>per q. stamp_disc t per label (Some q)) ok l l'" "\<And>l. ok l \<Longrightarrow> pl_disc l = None \<and> \<not> non_merchandise l"
    and "raised mine l0 l" "priced l"
  shows "offered mine l0 l'"
proof (cases "l' = l")
  case True
  with assms(3) show ?thesis by (auto simp: offered_def raised_def)
next
  case False
  note cut = cut_by_keeps [OF assms(1,2,4)]
  with False obtain p where p: "ok l" "0 < p" "pl_disc l' = Some \<lparr>ds_type = t, ds_amount = p, ds_label = label, ds_slice = Some (off l')\<rparr>"
    by blast
  have "disc_q l = 0" using assms(2) [OF p(1)] by (simp add: disc_q_def)
  moreover have "disc_q l' = p" "sliced l'" using p(3) by (simp_all add: disc_q_def sliced_def)
  moreover have "pl_batch l' = pl_batch l \<and> pl_manual l' = pl_manual l"
    using assms(1) by (auto simp: cut_by_def stamp_disc_def cut_line_def)
  moreover have "keeps l0 l'" using assms(3) cut(1) by (auto simp: raised_def intro: keeps_trans)
  ultimately show ?thesis using assms(3) p(2) by (auto simp: offered_def raised_def)
qed

lemma raised_offered: "raised mine l l' \<Longrightarrow> offered mine l l'"
  by (auto simp: offered_def raised_def)

lemma no_offers:
  assumes "active_promotions (hs_now hs) (hs_channel hs) (hs_coupons hs) (hs_promotions hs) = []" "cart_coupon hs cd = None"
    and "\<not> has_manual ls" "l \<in> set ls" "\<not> non_merchandise l"
  shows "order_offers hs cd cx subtotal l = []"
  using assms by (auto simp: order_offers_def Let_def line_offers_def has_manual_def split: option.splits)

lemma cart_discount_offered:
  assumes "\<forall>l \<in> set ls. priced l \<and> \<not> sliced l" "cart_discount hs cd cx (ls, pr) = (ls', pr')"
  shows "list_all2 (offered (\<lambda>l. best_of (order_offers hs cd cx (merchandise_q ls) l))) ls ls'"
proof -
  let ?mine = "\<lambda>l. best_of (order_offers hs cd cx (merchandise_q ls) l)"
  let ?ps = "active_promotions (hs_now hs) (hs_channel hs) (hs_coupons hs) (hs_promotions hs)"
  let ?coupon = "map_option (\<lambda>p. (cd_coupon cd, p)) (cart_coupon hs cd)"
  show ?thesis
  proof (cases "?ps = [] \<and> cart_coupon hs cd = None \<and> \<not> has_manual ls")
    case True
    then have "ls' = ls" using assms(2) by (auto simp: cart_discount_def)
    moreover have "raised ?mine l l" if "l \<in> set ls" for l
      using True assms(1) that no_offers [of hs cd ls l] priced_current [of l] by (intro raised_same) auto
    ultimately show ?thesis by (auto simp: list_all2_same intro: raised_offered)
  next
    case False
    define offer where "offer = (\<lambda>l. best_offer hs cx (promotion_context hs cd cx (pl_sku l) (Some (merchandise_q ls))) ?ps ?coupon (pl_manual l) (list_price l))"
    have offer: "fst (offer l) = ?mine l" "snd (offer l) = None \<Longrightarrow> fst (offer l) = 0" "fst (offer l) \<le> list_price l" if "priced l" for l
      using best_offer_best [OF priced_list [OF that]] best_offer_bounds [OF priced_list [OF that]] unfolding offer_def by blast+
    obtain ls1 pr1 ds where d: "discount_lines offer ls pr = (ls1, pr1, ds)" by (rule prod_cases3)
    have "\<forall>l \<in> set ls. priced l \<and> fst (offer l) \<le> list_price l \<and> (snd (offer l) = None \<longrightarrow> fst (offer l) = 0)"
      using assms(1) offer by blast
    from discount_lines_raised [OF this d] have k1: "list_all2 (raised ?mine) ls ls1"
    proof (rule list.rel_mono_strong)
      fix l l' assume "l \<in> set ls" "raised (\<lambda>l. fst (offer l)) l l'"
      with offer(1) [of l] assms(1) raised_cong [of "\<lambda>l. fst (offer l)" l l' ?mine] show "raised ?mine l l'" by simp
    qed
    have p1: "\<forall>l \<in> set ls1. priced l" using k1 by (induction rule: list_all2_induct) (auto simp: raised_def keeps_def)
    define eligible where "eligible = fixed_eligible hs cd cx"
    have ok: "eligible p l \<Longrightarrow> pl_disc l = None \<and> \<not> non_merchandise l" for p l by (simp add: eligible_def fixed_eligible_def)
    have cases: "ls' = ls1 \<or> (\<exists>v so p applied. spread_order_discount True v (eligible p)
        (\<lambda>per q. stamp_disc (so_type so) per (source_label so) (Some q)) ls1 = (ls', applied))"
      using assms(2) False d unfolding cart_discount_def prod.case Let_def offer_def [symmetric] eligible_def [symmetric]
      by (auto split: option.splits prod.splits)
    show ?thesis
    proof (cases "ls' = ls1")
      case True
      with k1 show ?thesis by (auto elim!: list.rel_mono_strong intro: raised_offered)
    next
      case False
      with cases obtain v so p applied where sp:
        "spread_order_discount True v (eligible p) (\<lambda>per q. stamp_disc (so_type so) per (source_label so) (Some q)) ls1 = (ls', applied)"
        by blast
      have "\<And>l. l \<in> set ls1 \<Longrightarrow> eligible p l \<Longrightarrow> coherent l" using p1 by (simp add: priced_coherent)
      note cut = spread_order_facts(1) [OF sp only_stamps_stamp_disc(1) this]
      show ?thesis
      proof (rule list_all2_all_nthI)
        show "length ls = length ls'" using k1 cut by (simp add: list_all2_lengthD)
        fix i assume "i < length ls"
        with k1 cut have "raised ?mine (ls ! i) (ls1 ! i)"
          "cut_by (\<lambda>per q. stamp_disc (so_type so) per (source_label so) (Some q)) (eligible p) (ls1 ! i) (ls' ! i)" "ls1 ! i \<in> set ls1"
          by (auto simp: list_all2_conv_all_nth)
        with p1 show "offered ?mine (ls ! i) (ls' ! i)" by (intro cut_by_offered [OF _ ok]) auto
      qed
    qed
  qed
qed

lemma order_offers_keep: "keeps l l' \<Longrightarrow> pl_manual l' = pl_manual l \<Longrightarrow> order_offers hs cd cx q l' = order_offers hs cd cx q l"
proof -
  assume k: "keeps l l'" "pl_manual l' = pl_manual l"
  then have f: "pl_sku l' = pl_sku l" "list_price l' = list_price l" by (simp_all add: keeps_def same_item_def)
  show ?thesis unfolding order_offers_def k(2) f ..
qed

lemma time_offer_keep: "keeps l l' \<Longrightarrow> time_offer hs l' = time_offer hs l"
proof -
  assume "keeps l l'"
  then have f: "list_price l' = list_price l" by (simp add: keeps_def same_item_def)
  show ?thesis unfolding time_offer_def f ..
qed

text \<open>One line through the three modifiers.\<close>

lemma line_best:
  assumes "raised (lot_offer hs) l l1" "offered (\<lambda>l. best_of (order_offers hs cd cx q l)) l1 l2" "raised (time_offer hs) l2 l3"
    and "priced l" "pl_disc l = None" "\<not> non_merchandise l"
  defines "best \<equiv> best_of (lot_offer hs l # time_offer hs l # order_offers hs cd cx q l)"
  shows "list_price l3 = list_price l \<and> best \<le> disc_q l3 \<and> (\<not> sliced l3 \<longrightarrow> disc_q l3 = best) \<and> pl_unit l3 = list_price l3 - disc_q l3"
proof -
  have k: "keeps l l1" "keeps l1 l2" "keeps l2 l3" using assms(1-3) by (simp_all add: raised_def offered_def)
  have merch: "\<not> non_merchandise l1" "\<not> non_merchandise l2" using k assms(6) by (auto simp: keeps_def same_item_simps)
  have time: "time_offer hs l2 = time_offer hs l" using time_offer_keep [OF k(1)] time_offer_keep [OF k(2)] by simp
  have order: "order_offers hs cd cx q l1 = order_offers hs cd cx q l"
    using order_offers_keep [OF k(1)] assms(1) by (simp add: raised_def)
  have zero: "disc_q l = 0" using assms(5) by (simp add: disc_q_def)
  have one: "disc_q l1 = max 0 (lot_offer hs l)" using assms(1,6) zero by (simp add: raised_def)
  let ?order = "best_of (order_offers hs cd cx q l)"
  have two: "max (disc_q l1) ?order \<le> disc_q l2" "\<not> sliced l2 \<Longrightarrow> disc_q l2 = max (disc_q l1) ?order"
    using assms(2) merch(1) order by (simp_all add: offered_def)
  have three: "disc_q l3 = max (disc_q l2) (time_offer hs l)" "l3 = l2 \<or> \<not> sliced l3 \<and> disc_q l3 = time_offer hs l"
    using assms(3) merch(2) time by (auto simp: raised_def)
  have "list_price l1 = list_price l" "list_price l2 = list_price l1" "list_price l3 = list_price l2"
    using k by (simp_all add: keeps_def same_item_def)
  then have "list_price l3 = list_price l" by simp
  moreover have "pl_unit l3 = list_price l3 - disc_q l3" using k(3) by (simp add: keeps_def priced_def)
  moreover have nonneg: "0 \<le> ?order" by simp
  have "best \<le> disc_q l3" "\<not> sliced l3 \<Longrightarrow> disc_q l3 = best"
    using one two three nonneg unfolding best_def by (auto simp: max_def split: if_splits simp del: best_of_nonneg)
  ultimately show ?thesis by simp
qed

end
