(* ===== verification/PricingProps.thy ===== *)
theory PricingProps
  imports PricingBest
begin

text \<open>
  The properties of the price of a cart: spreading a discount of the order, and what the pass of
  the modifiers guarantees whatever the cart went through before.
\<close>

section \<open>A cart of the demonstration\<close>

definition demo_line :: "string \<Rightarrow> string \<Rightarrow> rat \<Rightarrow> int \<Rightarrow> pline" where
  "demo_line line_id sku qty unit =
     \<lparr>pl_id = line_id, pl_sku = sku, pl_qty = qty, pl_unit = unit, pl_total = monetary_mult qty unit, pl_list = None, pl_disc = None,
      pl_batch = [], pl_manual = None, pl_type = [], pl_source = []\<rparr>"

definition demo_promotion :: promotion where
  "demo_promotion = \<lparr>pm_ref = ''P'', pm_name = ''ten'', pm_type = Percent_off, pm_value = 10, pm_from = 0, pm_until = 9, pm_skus = [''PAO''],
     pm_collections = [], pm_min = 0, pm_fulfillment = [], pm_segments = [], pm_birthday = False, pm_channels = [], pm_active = True\<rparr>"

definition demo_house :: house where
  "demo_house = \<lparr>hs_channel = ''web'', hs_now = 5, hs_day = (1, 1), hs_time = 600, hs_customers = [], hs_tiers = [],
     hs_promotions = [demo_promotion, demo_promotion\<lparr>pm_ref := ''C'', pm_type := Fixed_off, pm_value := 200, pm_skus := []\<rparr>],
     hs_coupons = [\<lparr>co_code = ''BEM'', co_promotion = ''C'', co_max_uses = 0, co_uses = 0, co_active = True\<rparr>],
     hs_advantages = [], hs_collections = (\<lambda>_. []),
     hs_products = [\<lparr>pd_sku = ''PAO'', pd_base = 100, pd_active = True\<rparr>, \<lparr>pd_sku = ''BOLO'', pd_base = 900, pd_active = True\<rparr>],
     hs_listings = [], hs_options = (\<lambda>_. 0), hs_lot = (\<lambda>_. None), hs_lot_label = ''lot'',
     hs_time_rule = Some \<lparr>tm_percent = 20, tm_start = 540, tm_finish = 660, tm_label = ''happy''\<rparr>,
     hs_message = (\<lambda>_ _ _. []), hs_zones = [], hs_bands = [], hs_distance = (\<lambda>_. None), hs_geocode = (\<lambda>_. None),
     hs_elsewhere = (\<lambda>_. False), hs_default_fee = 700, hs_free_above = 0, hs_fee_id = ''fee''\<rparr>"

definition demo_pricing :: pricing where
  "demo_pricing = \<lparr>pr_discount = None, pr_coupon = None, pr_lot = None, pr_happy = None, pr_loyalty = None, pr_manual = None, pr_total = None\<rparr>"

definition demo_cart :: cart where
  "demo_cart = \<lparr>ct_internal = True, ct_lines = [demo_line ''1'' ''PAO'' 3 0, demo_line ''2'' ''BOLO'' 1 0], ct_pricing = demo_pricing,
     ct_data = \<lparr>cd_fulfillment = ''pickup'', cd_coupon = ''BEM'', cd_customer = [], cd_tiers = [], cd_redeem = 50, cd_applied = 0,
       cd_manual_q = 0, cd_manual_reason = [], cd_address = None, cd_fee_override = None, cd_fee_agreed_by = [], cd_fee = None,
       cd_zone_error = False, cd_distance = None\<rparr>\<rparr>"

lemma demo_facts:
  "case reprice demo_house None demo_cart of
     None \<Rightarrow> False
   | Some r \<Rightarrow> 0 < merchandise_q (ct_lines r) \<and> ct_internal r \<and> list_all2 (same_choice demo_house) (ct_lines demo_cart) (ct_lines r)
       \<and> ct_data r = (ct_data demo_cart)\<lparr>cd_applied := 50\<rparr> \<and> map pl_unit (ct_lines r) = [76, 662]"
  by code_simp

lemma demo_reprice:
  obtains r where "reprice demo_house None demo_cart = Some r" "0 < merchandise_q (ct_lines r)" "ct_internal r"
    "list_all2 (same_choice demo_house) (ct_lines demo_cart) (ct_lines r)" "ct_data r = (ct_data demo_cart)\<lparr>cd_applied := 50\<rparr>"
  using demo_facts that by (auto split: option.splits)

lemma demo_sound: "fair_prices demo_house" "fair_rule demo_house" "\<forall>l \<in> set (ct_lines demo_cart). sound_line l" "fee_marked (ct_lines demo_cart)"
  by (simp_all add: fair_prices_def fair_rule_def demo_house_def demo_cart_def demo_line_def sound_line_def fee_marked_def fee_source_def)

section \<open>Spreading a discount of the order\<close>

text \<open>C15: A discount of the order spread over the lines only lowers unit prices, never below zero; every line it
  touches keeps its total equal to quantity times unit price; the total of the cart falls by exactly what is
  reported as applied; which is never more than asked for by points or by the operator, and never less than
  what a coupon or promotion of a fixed value promised.\<close>

theorem spread_exact:
  assumes "spread_order_discount at_least amount ok stamp ls = (ls', applied)" "only_stamps stamp"
    and "\<forall>l \<in> set ls. ok l \<longrightarrow> coherent l"
  shows "sum_list (map pl_total ls') = sum_list (map pl_total ls) - applied \<and> 0 \<le> applied
    \<and> (if at_least then min amount (selected_q ok ls) \<le> applied else applied \<le> max 0 (min amount (selected_q ok ls)))
    \<and> list_all2 (\<lambda>l l'. if ok l then coherent l' \<and> pl_unit l' \<le> pl_unit l \<and> line_qty l' = line_qty l \<and> pl_list l' = pl_list l
                        else l' = l) ls ls'"
proof -
  have good: "\<And>l. l \<in> set ls \<Longrightarrow> ok l \<Longrightarrow> coherent l" using assms(3) by blast
  note facts = spread_order_facts [OF assms(1,2) good]
  from facts(1) have "list_all2 (\<lambda>l l'. if ok l then coherent l' \<and> pl_unit l' \<le> pl_unit l \<and> line_qty l' = line_qty l \<and> pl_list l' = pl_list l
                        else l' = l) ls ls'"
  proof (rule list.rel_mono_strong)
    fix l l' assume l: "l \<in> set ls" "cut_by stamp ok l l'"
    note cut_by_cut_of [OF assms(2) l(2)]
    then show "if ok l then coherent l' \<and> pl_unit l' \<le> pl_unit l \<and> line_qty l' = line_qty l \<and> pl_list l' = pl_list l else l' = l"
      using good [OF l(1)] cut_of_fields [of l l'] by (cases "ok l") simp_all
  qed
  with facts(2-5) show ?thesis by simp
qed

theorem spread_exact_witness:
  "\<exists>ls' applied. spread_order_discount True 29 (\<lambda>l. \<not> non_merchandise l) (\<lambda>per q. stamp_disc Disc_coupon per ''BEM'' (Some q))
      [demo_line ''1'' ''PAO'' 3 100, demo_line ''2'' ''BOLO'' 2 90] = (ls', applied) \<and> sum_list (map pl_total ls') = 480 - applied \<and> 29 \<le> applied"
proof -
  let ?ok = "\<lambda>l. \<not> non_merchandise l" and ?stamp = "\<lambda>per q. stamp_disc Disc_coupon per ''BEM'' (Some q)"
  let ?ls = "[demo_line ''1'' ''PAO'' 3 100, demo_line ''2'' ''BOLO'' 2 90]"
  obtain ls' applied where s: "spread_order_discount True 29 ?ok ?stamp ?ls = (ls', applied)" by (rule prod.exhaust)
  have good: "\<forall>l \<in> set ?ls. ?ok l \<longrightarrow> coherent l" by code_simp
  have sums: "sum_list (map pl_total ?ls) = 480" "selected_q ?ok ?ls = 480" by code_simp+
  from spread_exact [OF s only_stamps_stamp_disc(1) good] s sums show ?thesis by simp
qed

text \<open>A residue that a line of one unit does not absorb, its price being spent.\<close>

lemma residue_left:
  "snd (spread_order_discount False 29 (\<lambda>l. \<not> non_merchandise l) (\<lambda>_ _ l. l)
     [demo_line ''1'' ''A'' 2 8, demo_line ''2'' ''B'' 1 3, demo_line ''3'' ''C'' 3 9]) = 28"
  by code_simp

section \<open>The pass forgets\<close>

lemma reprice_all:
  "reprice hs None c = (let cd = ct_data c; cx = customer_pricing hs cd; cx20 = resolve_customer_ctx hs cd cx in
     case item_pricing hs cx (ct_internal c) (ct_lines c) of
       None \<Rightarrow> None
     | Some ls \<Rightarrow>
         (case discounted hs cd cx20 (ls, ct_pricing c) of (ls65, pr65) \<Rightarrow>
          case delivery_fee hs cx20 pr65 (ls65, cd) of (ls70, cd70) \<Rightarrow>
          case loyalty_redeem (ls70, pr65, cd70) of (ls80, pr80, cd80) \<Rightarrow>
          case session_total (manual_discount cd80 (ls80, pr80)) of (ls90, pr90) \<Rightarrow>
            Some \<lparr>ct_internal = ct_internal c, ct_lines = ls90, ct_pricing = pr90, ct_data = cd80\<rparr>))"
  by (simp add: reprice_def runs_def when_runs_def discounted_def Let_def split: option.split prod.split)

lemma applied_irrelevant:
  fixes cd :: cart_data and x :: int
  shows "customer_pricing hs (cd\<lparr>cd_applied := x\<rparr>) = customer_pricing hs cd"
    "resolve_customer_ctx hs (cd\<lparr>cd_applied := x\<rparr>) cx = resolve_customer_ctx hs cd cx"
    "discounted hs (cd\<lparr>cd_applied := x\<rparr>) cx s = discounted hs cd cx s"
proof -
  let ?cd = "cd\<lparr>cd_applied := x\<rparr>"
  have ctx: "promotion_context hs ?cd cx sku q = promotion_context hs cd cx sku q" for sku q
    by (simp add: promotion_context_def)
  have fixed: "fixed_eligible hs ?cd cx = fixed_eligible hs cd cx"
    by (intro ext) (simp add: fixed_eligible_def ctx)
  have note_of: "coupon_note_of hs ?cd cx p q ls d = coupon_note_of hs cd cx p q ls d" for p q ls d
    unfolding coupon_note_of_def ctx by simp
  have coupon: "cart_coupon hs ?cd = cart_coupon hs cd" by (simp add: cart_coupon_def)
  have "cart_discount hs ?cd cx = cart_discount hs cd cx"
    unfolding cart_discount_def fixed coupon note_of ctx by simp
  then show "discounted hs ?cd cx s = discounted hs cd cx s"
    by (simp add: discounted_def)
  have keys: "cd_customer ?cd = cd_customer cd" "cd_tiers ?cd = cd_tiers cd" by simp_all
  show "customer_pricing hs ?cd = customer_pricing hs cd" "resolve_customer_ctx hs ?cd cx = resolve_customer_ctx hs cd cx"
    unfolding customer_pricing_def resolve_customer_ctx_def keys by (rule refl)+
qed

lemma delivery_fee_applied:
  "delivery_fee hs cx pr (ls, cd\<lparr>cd_applied := x\<rparr>) = (case delivery_fee hs cx pr (ls, cd) of (ls1, cd1) \<Rightarrow> (ls1, cd1\<lparr>cd_applied := x\<rparr>))"
  by (simp add: delivery_fee_def operator_agreed_fee_def Let_def split: option.split prod.split)

text \<open>C14: A cart priced from the catalogue, with all modifiers running as on the default channel, has one price: whatever unit prices, discounts and records earlier passes
  left in it, the next pass gives the same lines, the same data and the same records of the discount, the coupon
  and the lots, so no discount ever compounds by repricing; with a rule for the time window in force its record is
  the same too.\<close>

theorem reprice_forgets:
  assumes "list_all2 (same_choice hs) (ct_lines c) (ct_lines c')" "ct_lines c \<noteq> []" "ct_internal c" "ct_internal c'"
    and "ct_data c' = (ct_data c)\<lparr>cd_applied := x\<rparr>" "reprice hs None c = Some r"
  shows "\<exists>r'. reprice hs None c' = Some r' \<and> ct_lines r' = ct_lines r \<and> ct_data r' = ct_data r
    \<and> pr_discount (ct_pricing r') = pr_discount (ct_pricing r) \<and> pr_coupon (ct_pricing r') = pr_coupon (ct_pricing r)
    \<and> pr_lot (ct_pricing r') = pr_lot (ct_pricing r) \<and> pr_total (ct_pricing r') = pr_total (ct_pricing r)
    \<and> (hs_time_rule hs \<noteq> None \<longrightarrow> pr_happy (ct_pricing r') = pr_happy (ct_pricing r))"
proof -
  define cd where "cd = ct_data c"
  define cx where "cx = customer_pricing hs cd"
  define cx20 where "cx20 = resolve_customer_ctx hs cd cx"
  obtain ls where ls: "item_pricing hs cx True (ct_lines c) = Some ls"
    using assms(3,6) by (auto simp: reprice_all Let_def cd_def [symmetric] cx_def [symmetric] split: option.splits)
  then have ls': "item_pricing hs cx True (ct_lines c') = Some ls" using item_pricing_choice [OF assms(1)] by simp
  have clean: "\<forall>l \<in> set ls. pl_disc l = None" "ls \<noteq> []" using item_pricing_clean [OF ls] item_pricing_length [OF ls] assms(2) by auto
  obtain l65 p65 where d: "discounted hs cd cx20 (ls, ct_pricing c) = (l65, p65)" by (rule prod.exhaust)
  obtain l65' p65' where d': "discounted hs cd cx20 (ls, ct_pricing c') = (l65', p65')" by (rule prod.exhaust)
  have e: "l65' = l65" "core p65 = core p65'" "hs_time_rule hs \<noteq> None \<Longrightarrow> pr_happy p65' = pr_happy p65"
    using discounted_core [OF clean, of hs cd cx20 "ct_pricing c" "ct_pricing c'"] unfolding d d' by simp_all
  have fee: "delivery_fee hs cx20 p65' = delivery_fee hs cx20 p65" using e(2) by (intro delivery_fee_core) (simp add: core_def)
  obtain l70 cd70 where f: "delivery_fee hs cx20 p65 (l65, cd) = (l70, cd70)" by (rule prod.exhaust)
  obtain l80 p80 cd80 where y: "loyalty_redeem (l70, p65, cd70) = (l80, p80, cd80)" by (rule prod_cases3)
  obtain l80' p80' cd80' where y': "loyalty_redeem (l70, p65', cd70\<lparr>cd_applied := x\<rparr>) = (l80', p80', cd80')" by (rule prod_cases3)
  note ly = loyalty_redeem_core [OF e(2) y y']
  obtain l85 p85 where m: "manual_discount cd80 (l80, p80) = (l85, p85)" by (rule prod.exhaust)
  obtain l85' p85' where m': "manual_discount cd80 (l80, p80') = (l85', p85')" by (rule prod.exhaust)
  have mc: "l85' = l85 \<and> core p85' = core p85 \<and> pr_happy p85 = pr_happy p80 \<and> pr_happy p85' = pr_happy p80'"
    using ly by (intro manual_discount_core [OF _ m m']) simp
  let ?tot = "Some (sum_list (map pl_total l85), length l85)"
  have r: "r = \<lparr>ct_internal = True, ct_lines = l85, ct_pricing = p85\<lparr>pr_total := ?tot\<rparr>, ct_data = cd80\<rparr>"
    using assms(3,6) ls d f y m
    by (simp add: reprice_all Let_def cd_def [symmetric] cx_def [symmetric] cx20_def [symmetric] session_total_def)
  have "reprice hs None c' = Some \<lparr>ct_internal = True, ct_lines = l85, ct_pricing = p85'\<lparr>pr_total := ?tot\<rparr>, ct_data = cd80\<rparr>"
    using assms(4,5) ls' d' e(1) fee f y' m' ly mc
    by (simp add: reprice_all Let_def applied_irrelevant delivery_fee_applied cd_def [symmetric] cx_def [symmetric] cx20_def [symmetric]
        session_total_def)
  with r mc ly e(3) show ?thesis by (auto simp: core_def)
qed

theorem reprice_forgets_witness:
  "\<exists>r r'. reprice demo_house None demo_cart = Some r \<and> reprice demo_house None r = Some r' \<and> ct_lines r' = ct_lines r"
proof -
  obtain r where r: "reprice demo_house None demo_cart = Some r" "ct_internal r"
      "list_all2 (same_choice demo_house) (ct_lines demo_cart) (ct_lines r)" "ct_data r = (ct_data demo_cart)\<lparr>cd_applied := 50\<rparr>"
    by (rule demo_reprice)
  have "ct_lines demo_cart \<noteq> []" "ct_internal demo_cart" by (simp_all add: demo_cart_def)
  from reprice_forgets [OF r(3) this r(2) r(4) r(1)] r(1) show ?thesis by blast
qed

section \<open>The lines a pass leaves\<close>

lemma sound_priced:
  assumes "item_pricing hs cx internal ls = Some ls'" "fair_prices hs" "\<forall>l \<in> set ls. sound_line l" "fee_marked ls"
  shows "(\<forall>l \<in> set ls'. priced l \<and> pl_disc l = None) \<and> fee_marked ls' \<and> choice ls' = choice ls"
  using item_pricing_priced [OF assms(1,3,2)] assms(3,4)
proof (induction rule: list_all2_induct)
  case (Cons l ls l' ls')
  then obtain found where f: "\<forall>p. found = Some p \<longrightarrow> 0 \<le> p" "l' = price_line hs found l" by blast
  have "sound_line l" using Cons.prems by simp
  note p = price_line_priced [OF this assms(2), of found]
  with f Cons.IH Cons.prems show ?case by (auto simp: fee_marked_def non_merchandise_def)
qed (simp add: fee_marked_def)

text \<open>C16: Whatever a cart of positive quantities went through, a pass of all modifiers, as on the default channel, leaves well-formed lines: the merchandise the
  customer chose is there, line by line and in its order, each unit price is between zero and the list price, and
  each total is the quantity times the unit price; the total of the session is the sum of the lines.\<close>

theorem reprice_well_formed:
  assumes "reprice hs None c = Some r" "\<forall>l \<in> set (ct_lines c). sound_line l" "fee_marked (ct_lines c)"
    and "fair_prices hs" "fair_rule hs"
  shows "choice (ct_lines r) = choice (ct_lines c)
    \<and> (\<forall>l \<in> set (ct_lines r). \<not> non_merchandise l \<longrightarrow>
         0 \<le> pl_unit l \<and> pl_unit l \<le> list_price l \<and> pl_total l = monetary_mult (line_qty l) (pl_unit l))
    \<and> pr_total (ct_pricing r) = Some (sum_list (map pl_total (ct_lines r)), length (ct_lines r))"
proof -
  define cd where "cd = ct_data c"
  define cx where "cx = customer_pricing hs cd"
  define cx20 where "cx20 = resolve_customer_ctx hs cd cx"
  obtain ls where ls: "item_pricing hs cx (ct_internal c) (ct_lines c) = Some ls"
    using assms(1) by (auto simp: reprice_all Let_def cd_def [symmetric] cx_def [symmetric] split: option.splits)
  note base = sound_priced [OF ls assms(4,2,3)]
  obtain l65 p65 where d: "discounted hs cd cx20 (ls, ct_pricing c) = (l65, p65)" by (rule prod.exhaust)
  obtain l70 cd70 where f: "delivery_fee hs cx20 p65 (l65, cd) = (l70, cd70)" by (rule prod.exhaust)
  obtain l80 p80 cd80 where y: "loyalty_redeem (l70, p65, cd70) = (l80, p80, cd80)" by (rule prod_cases3)
  obtain l85 p85 where m: "manual_discount cd80 (l80, p80) = (l85, p85)" by (rule prod.exhaust)
  have r: "ct_lines r = l85" "pr_total (ct_pricing r) = Some (sum_list (map pl_total l85), length l85)"
    using assms(1) ls d f y m
    by (auto simp: reprice_all Let_def cd_def [symmetric] cx_def [symmetric] cx20_def [symmetric] session_total_def)
  have k: "list_all2 keeps ls l65" using base by (intro discounted_keeps [OF _ assms(5) d]) blast
  have sold: "\<forall>l \<in> set l65. sold_line l" "fee_marked l65" using kept_sold [OF k] base by auto
  have sold70: "\<forall>l \<in> set l70. sold_line l" using delivery_fee_sold [OF sold f] by blast
  have sold80: "\<forall>l \<in> set l80. sold_line l" using loyalty_redeem_sold [OF sold70 y] by blast
  have "\<forall>l \<in> set l85. sold_line l" using manual_discount_sold [OF sold80 m] by blast
  moreover have "choice l85 = choice (ct_lines c)"
    using base choice_keeps [OF k] choice_fee [OF sold(2) f] choice_end(1) [OF sold70 y] choice_end(2) [OF sold80 m] by simp
  ultimately show ?thesis by (auto simp: r sold_line_def coherent_def)
qed

theorem reprice_well_formed_witness:
  "\<exists>r. reprice demo_house None demo_cart = Some r \<and> choice (ct_lines r) = [(''1'', ''PAO'', 3), (''2'', ''BOLO'', 1)]"
proof -
  obtain r where r: "reprice demo_house None demo_cart = Some r" by (rule demo_reprice)
  have "choice (ct_lines demo_cart) = [(''1'', ''PAO'', 3), (''2'', ''BOLO'', 1)]" by code_simp
  with reprice_well_formed [OF r demo_sound(3,4,1,2)] r show ?thesis by simp
qed

section \<open>The largest discount wins\<close>

text \<open>C13: Discounts of a line do not add up: from the price of the catalogue to the last automatic modifier, a line ends
  at its list price less the single largest of what it is offered by its lot, by the time window, by the
  promotions and the coupon that match it and by the operator; a line that carries a slice of a discount of the order
  is never dearer than that.\<close>

theorem largest_discount_wins:
  assumes "item_pricing hs cx0 internal items = Some ls" "\<forall>l \<in> set items. sound_line l" "fee_marked items"
    and "fair_prices hs" "fair_rule hs" "lot_discount (hs_lot hs) (hs_lot_label hs) (ls, pr) = (ls1, pr1)"
    and "cart_discount hs cd cx (ls1, pr1) = (ls2, pr2)" "time_window_discount (hs_time_rule hs) (hs_time hs) (ls2, pr2) = (ls3, pr3)"
    and "i < length ls" "\<not> non_merchandise (ls ! i)"
  shows "let l = ls ! i; l' = ls3 ! i;
             best = best_of (lot_offer hs l # time_offer hs l # order_offers hs cd cx (merchandise_q ls1) l) in
         list_price l' = list_price l \<and> pl_unit l' \<le> list_price l - best \<and> (\<not> sliced l' \<longrightarrow> pl_unit l' = list_price l - best)"
proof -
  note base = sound_priced [OF assms(1,4,2,3)]
  then have r1: "list_all2 (raised (lot_offer hs)) ls ls1" by (intro lot_discount_raised [OF _ assms(6)]) blast
  have p1: "priced l1 \<and> \<not> sliced l1" if "priced l" "pl_disc l = None" "raised (lot_offer hs) l l1" for l l1
    using that by (cases "non_merchandise l") (auto simp: raised_def keeps_def sliced_def)
  have "\<forall>l \<in> set ls1. priced l \<and> \<not> sliced l"
  proof
    fix l1 assume "l1 \<in> set ls1"
    then obtain j where "j < length ls1" "l1 = ls1 ! j" by (metis in_set_conv_nth)
    with r1 have "raised (lot_offer hs) (ls ! j) l1" "ls ! j \<in> set ls" by (auto simp: list_all2_conv_all_nth)
    with p1 [of "ls ! j" l1] base show "priced l1 \<and> \<not> sliced l1" by simp
  qed
  from cart_discount_offered [OF this assms(7)]
  have r2: "list_all2 (offered (\<lambda>l. best_of (order_offers hs cd cx (merchandise_q ls1) l))) ls1 ls2" .
  then have "\<forall>l \<in> set ls2. priced l" by (induction rule: list_all2_induct) (auto simp: offered_def keeps_def)
  note r3 = time_window_raised [OF this assms(5,8)]
  have "priced (ls ! i)" "pl_disc (ls ! i) = None" using base assms(9) by auto
  note best = line_best [OF _ _ _ this assms(10)]
  have "raised (lot_offer hs) (ls ! i) (ls1 ! i)"
    "offered (\<lambda>l. best_of (order_offers hs cd cx (merchandise_q ls1) l)) (ls1 ! i) (ls2 ! i)" "raised (time_offer hs) (ls2 ! i) (ls3 ! i)"
    using r1 r2 r3 assms(9) by (auto simp: list_all2_conv_all_nth)
  from best [OF this] show ?thesis unfolding Let_def by auto
qed

text \<open>The line of bread of the demonstration: ten percent of the promotion, twenty of the time window.\<close>

theorem largest_discount_wins_witness:
  "\<exists>ls3 pr3. pl_unit (ls3 ! 0) \<le> 80 \<and> (let (ls1, pr1) = lot_discount (hs_lot demo_house) (hs_lot_label demo_house)
       ([price_line demo_house (Some 100) (demo_line ''1'' ''PAO'' 3 0)], demo_pricing);
     (ls2, pr2) = cart_discount demo_house (ct_data demo_cart) no_ctx (ls1, pr1) in
     time_window_discount (hs_time_rule demo_house) (hs_time demo_house) (ls2, pr2) = (ls3, pr3))"
proof -
  define items where "items = [demo_line ''1'' ''PAO'' 3 0]"
  define l where "l = price_line demo_house (Some 100) (demo_line ''1'' ''PAO'' 3 0)"
  obtain ls1 pr1 where one: "lot_discount (hs_lot demo_house) (hs_lot_label demo_house) ([l], demo_pricing) = (ls1, pr1)" by (rule prod.exhaust)
  obtain ls2 pr2 where two: "cart_discount demo_house (ct_data demo_cart) no_ctx (ls1, pr1) = (ls2, pr2)" by (rule prod.exhaust)
  obtain ls3 pr3 where three: "time_window_discount (hs_time_rule demo_house) (hs_time demo_house) (ls2, pr2) = (ls3, pr3)" by (rule prod.exhaust)
  have item: "item_pricing demo_house no_ctx True items = Some [l]" unfolding items_def l_def by code_simp
  have line: "\<not> non_merchandise ([l] ! 0)" "list_price ([l] ! 0) = 100" "time_offer demo_house ([l] ! 0) = 20" unfolding l_def by code_simp+
  have sound: "\<forall>l \<in> set items. sound_line l" "fee_marked items"
    by (simp_all add: items_def demo_line_def sound_line_def fee_marked_def fee_source_def)
  have pos: "0 < length [l]" by simp
  note wins = largest_discount_wins [OF item sound demo_sound(1,2) one two three pos line(1)]
  have "20 \<le> best_of (lot_offer demo_house ([l] ! 0) # time_offer demo_house ([l] ! 0) # xs)" for xs
    by (intro best_of_upper) (simp only: line(3) list.set insert_iff simp_thms)
  from this [of "order_offers demo_house (ct_data demo_cart) no_ctx (merchandise_q ls1) ([l] ! 0)"] wins line(2)
  have "pl_unit (ls3 ! 0) \<le> 80" unfolding Let_def by linarith
  with one two three show ?thesis unfolding l_def by (intro exI [of _ ls3] exI [of _ pr3]) simp
qed

section \<open>Every cent is recorded\<close>

definition recorded_discounts :: "pricing \<Rightarrow> int" where
  "recorded_discounts pr = discount_total pr + entry_q (pr_lot pr) + entry_q (pr_happy pr) + entry_q (pr_loyalty pr) + entry_q (pr_manual pr)"

text \<open>Lines that can be told apart, in whole quantities.\<close>

definition countable_cart :: "cart \<Rightarrow> bool" where
  "countable_cart c \<longleftrightarrow> ct_lines c \<noteq> [] \<and> distinct (map pl_id (ct_lines c)) \<and> fee_marked (ct_lines c)
     \<and> (\<forall>l \<in> set (ct_lines c). whole l \<and> 0 \<le> pl_unit l \<and> pl_id l \<noteq> [] \<and> pl_sku l \<noteq> [])"

lemma price_line_plain:
  assumes "whole l" "0 \<le> pl_unit l" "pl_id l \<noteq> []" "pl_sku l \<noteq> []" "fair_prices hs" "\<And>p. found = Some p \<Longrightarrow> 0 \<le> p"
  shows "plain (price_line hs found l)"
proof -
  have "sound_line l" using assms(1,2) by (auto simp: sound_line_def whole_def)
  note p = price_line_priced [OF this assms(5,6)]
  with assms(1,3,4) show ?thesis by (simp add: plain_def whole_def)
qed

lemma priced_cart:
  assumes "item_pricing hs cx internal ls = Some ls'" "fair_prices hs"
    and "distinct (map pl_id ls)" "fee_marked ls" "\<forall>l \<in> set ls. whole l \<and> 0 \<le> pl_unit l \<and> pl_id l \<noteq> [] \<and> pl_sku l \<noteq> []"
  shows "(\<forall>l \<in> set ls'. plain l \<and> pl_disc l = None) \<and> distinct (map pl_id ls') \<and> fee_marked ls'"
proof -
  have "\<forall>l \<in> set ls. sound_line l" using assms(5) by (auto simp: sound_line_def whole_def)
  from item_pricing_priced [OF assms(1) this assms(2)]
  have "(\<forall>l \<in> set ls'. plain l \<and> pl_disc l = None) \<and> map pl_id ls' = map pl_id ls \<and> fee_marked ls'"
    using assms(4,5)
  proof (induction rule: list_all2_induct)
    case (Cons l ls l' ls')
    then obtain found where f: "\<forall>p. found = Some p \<longrightarrow> 0 \<le> p" "l' = price_line hs found l" by blast
    have "plain l'" unfolding f(2) using Cons.prems(2) f(1) assms(2) by (intro price_line_plain) auto
    moreover have "sound_line l" using Cons.prems(2) by (auto simp: sound_line_def whole_def)
    then have "pl_disc l' = None" "pl_id l' = pl_id l" "pl_source l' = pl_source l" "non_merchandise l' = non_merchandise l"
      using price_line_priced [OF _ assms(2), of l found] f by (auto simp: non_merchandise_def)
    ultimately show ?case using Cons.IH Cons.prems by (auto simp: fee_marked_def)
  qed (simp add: fee_marked_def)
  with assms(3) show ?thesis by simp
qed

text \<open>
  Three modifiers leave the amount of an earlier pass in its record in a case of their own: the time
  window when the shop has no rule, the points and the operator's discount when they find no value
  to be taken from. \<open>auto_lines\<close> are the lines the points find.
\<close>

definition auto_lines :: "house \<Rightarrow> cart \<Rightarrow> pline list" where
  "auto_lines hs c =
     (let cd = ct_data c; cx = customer_pricing hs cd in
      case item_pricing hs cx (ct_internal c) (ct_lines c) of
        None \<Rightarrow> [] | Some ls \<Rightarrow> fst (discounted hs cd (resolve_customer_ctx hs cd cx) (ls, ct_pricing c)))"

definition left_by_time :: "house \<Rightarrow> cart \<Rightarrow> int" where
  "left_by_time hs c = (if hs_time_rule hs = None then entry_q (pr_happy (ct_pricing c)) else 0)"

definition left_by_points :: "house \<Rightarrow> cart \<Rightarrow> int" where
  "left_by_points hs c =
     (if 0 < cd_redeem (ct_data c) \<and> merchandise_q (auto_lines hs c) \<le> 0 then entry_q (pr_loyalty (ct_pricing c)) else 0)"

definition left_by_operator :: "house \<Rightarrow> cart \<Rightarrow> cart \<Rightarrow> int" where
  "left_by_operator hs c r =
     (if 0 < cd_manual_q (ct_data c) \<and> merchandise_q (auto_lines hs c) \<le> cd_applied (ct_data r)
      then entry_q (pr_manual (ct_pricing c)) else 0)"

lemma delivery_fee_choices:
  "delivery_fee hs cx pr (ls, cd) = (ls', cd') \<Longrightarrow> cd_redeem cd' = cd_redeem cd \<and> cd_manual_q cd' = cd_manual_q cd"
  by (auto simp: delivery_fee_def Let_def split: if_splits option.splits prod.splits)

text \<open>C12: When all modifiers run, as on the default channel, in a cart with lines of whole quantities every cent between the list
  prices and what the customer pays is in the records: quantities times list prices are the total of the cart plus
  the discount of promotions, coupon and operator on the lines, the lots, the time window, the points and the
  operator's discount of the order, whichever of them won a line, took it over from another or was spread over the
  order; less only the amounts of an earlier pass that are left standing: that of the time window when the shop has
  no rule, that of the points when there is no value to redeem against, that of the operator when the points leave
  nothing to discount.\<close>

theorem every_cent_recorded:
  assumes "reprice hs None c = Some r" "countable_cart c" "fair_prices hs" "fair_rule hs"
  shows "sum_list (map gross (ct_lines r)) = sum_list (map pl_total (ct_lines r)) + recorded_discounts (ct_pricing r)
        - left_by_time hs c - left_by_points hs c - left_by_operator hs c r
    \<and> pr_total (ct_pricing r) = Some (sum_list (map pl_total (ct_lines r)), length (ct_lines r))"
proof -
  define cd where "cd = ct_data c"
  define cx where "cx = customer_pricing hs cd"
  define cx20 where "cx20 = resolve_customer_ctx hs cd cx"
  obtain ls where ls: "item_pricing hs cx (ct_internal c) (ct_lines c) = Some ls"
    using assms(1) by (auto simp: reprice_all Let_def cd_def [symmetric] cx_def [symmetric] split: option.splits)
  have base: "(\<forall>l \<in> set ls. plain l \<and> pl_disc l = None) \<and> distinct (map pl_id ls) \<and> fee_marked ls" "ls \<noteq> []"
    using priced_cart [OF ls assms(3)] assms(2) item_pricing_length [OF ls] by (auto simp: countable_cart_def)
  obtain l65 p65 where d: "discounted hs cd cx20 (ls, ct_pricing c) = (l65, p65)" by (rule prod.exhaust)
  obtain l70 cd70 where f: "delivery_fee hs cx20 p65 (l65, cd) = (l70, cd70)" by (rule prod.exhaust)
  obtain l80 p80 cd80 where y: "loyalty_redeem (l70, p65, cd70) = (l80, p80, cd80)" by (rule prod_cases3)
  obtain l85 p85 where m: "manual_discount cd80 (l80, p80) = (l85, p85)" by (rule prod.exhaust)
  have r: "ct_lines r = l85" "ct_pricing r = p85\<lparr>pr_total := Some (sum_list (map pl_total l85), length l85)\<rparr>" "ct_data r = cd80"
    using assms(1) ls d f y m
    by (auto simp: reprice_all Let_def cd_def [symmetric] cx_def [symmetric] cx20_def [symmetric] session_total_def)
  have auto_lines: "auto_lines hs c = l65"
    using ls d by (simp add: auto_lines_def Let_def cd_def [symmetric] cx_def [symmetric] cx20_def [symmetric])
  have led: "list_all2 keeps ls l65"
    "sum_list (map off l65) = discount_total p65 + entry_q (pr_lot p65) + entry_q (pr_happy p65) - left_by_time hs c"
    using discounted_ledger [OF _ _ base(2) assms(4) d] base(1) by (auto simp: sum_off left_by_time_def)
  note others = discounted_others [OF d] and choices = delivery_fee_choices [OF f]
  have sold: "\<forall>l \<in> set l65. sold_line l" "fee_marked l65" using kept_sold [OF led(1)] base(1) by auto
  note fee = delivery_fee_sold [OF sold f]
  then have sold70: "\<forall>l \<in> set l70. sold_line l" by blast
  note loyalty = loyalty_redeem_sold [OF sold70 y]
  note manual = manual_discount_sold [OF loyalty(1) m]
  have points: "sum_list (map off l80) = sum_list (map off l65) + entry_q (pr_loyalty p80) - left_by_points hs c"
    using loyalty(2) fee others(1) choices by (simp add: left_by_points_def auto_lines cd_def)
  have "merchandise_q l80 \<le> 0 \<longleftrightarrow> merchandise_q l65 \<le> cd_applied cd80" using loyalty(3) fee by auto
  then have operator: "sum_list (map off l85) = sum_list (map off l80) + entry_q (pr_manual p85) - left_by_operator hs c r"
    using manual(2) loyalty(7,8) others(2) choices by (simp add: left_by_operator_def auto_lines cd_def r(3))
  have "sum_list (map off l85) = recorded_discounts p85 - left_by_time hs c - left_by_points hs c - left_by_operator hs c r"
    using led(2) points operator loyalty(4-6) manual(3-6) by (simp add: recorded_discounts_def discount_total_def)
  then show ?thesis using sum_off [of l85] by (simp add: r recorded_discounts_def discount_total_def)
qed

theorem every_cent_recorded_witness:
  "\<exists>r. reprice demo_house None demo_cart = Some r
     \<and> sum_list (map gross (ct_lines r)) = sum_list (map pl_total (ct_lines r)) + recorded_discounts (ct_pricing r)"
proof -
  obtain r where r: "reprice demo_house None demo_cart = Some r" by (rule demo_reprice)
  have whole: "whole (demo_line a b (of_int k) u)" if "0 < k" for a b k u
    using that unfolding whole_def demo_line_def by (intro exI [of _ k]) simp
  have "whole (demo_line ''1'' ''PAO'' 3 0)" "whole (demo_line ''2'' ''BOLO'' 1 0)"
    using whole [of 3 "''1''" "''PAO''" 0] whole [of 1 "''2''" "''BOLO''" 0] by simp_all
  moreover have "ct_lines demo_cart = [demo_line ''1'' ''PAO'' 3 0, demo_line ''2'' ''BOLO'' 1 0]" by (simp add: demo_cart_def)
  ultimately have cart: "countable_cart demo_cart"
    using demo_sound(4) unfolding countable_cart_def by (simp add: demo_line_def)
  have "entry_q (pr_happy (ct_pricing demo_cart)) = 0" "entry_q (pr_loyalty (ct_pricing demo_cart)) = 0"
    "entry_q (pr_manual (ct_pricing demo_cart)) = 0" by (simp_all add: demo_cart_def demo_pricing_def entry_q_def)
  then have "left_by_time demo_house demo_cart = 0" "left_by_points demo_house demo_cart = 0"
    "left_by_operator demo_house demo_cart r = 0"
    by (simp_all add: left_by_time_def left_by_points_def left_by_operator_def)
  with every_cent_recorded [OF r cart demo_sound(1,2)] r show ?thesis by (intro exI [of _ r]) (rule conjI, simp_all)
qed

end
