(* ===== verification/Spec2Isabelle.thy ===== *)
theory Spec2Isabelle
  imports PaymanProps PaymanGateway CashmanProps CashmanChange StockQueries StockPlanProps
    OrderProps OrderQueueProps OrderSessionProps OrderCommitProps
    CraftFinishProps CraftStockDay DoorCodeProps PricingProps
begin

text \<open>
  A verification library for the kernels of django-shopman: the packages under
  \<open>src/packages\<close> that hold the money, the goods and the orders of a shop. Each package is a set
  of Django models and of services whose methods run in one database transaction. The library
  translates those models and services to HOL and proves what the rest of the application
  relies on.

  The parts and how they meet. A customer or an attendant edits a session (a cart or a tab at
  the counter) through \<open>orderman.services.modify\<close>; its channel may require checks, which run as
  directives (queued tasks, \<open>orderman.dispatch\<close>, \<open>claims\<close>, \<open>process_directives\<close>) and write
  their result back through \<open>services.write\<close>; \<open>services.commit\<close> seals the session into one
  order (\<open>models.order\<close>), whose status then moves along a table and is told by an audit log.
  Stock is promised to the order by holds (\<open>stockman.services.holds\<close>) on quants, whose
  quantity is written by the ledger of moves only (\<open>models.move\<close>, \<open>services.movements\<close>), and
  production turns planned quants into physical ones (\<open>services.planning\<close>). Payment is an
  intent with its transactions (\<open>payman.service\<close>), reconciled with the snapshots of a gateway;
  cash taken at the counter is written to the book of a shift (\<open>cashman.services\<close>).

  Conventions. A database is a record of tables, a table the list of its rows in creation
  order; an operation takes the state under its row locks and returns the new state or an error
  value (\<open>error + 'a\<close>), and a caller that gets an error keeps the old state, as the rolled back
  transaction does. A query that runs before a lock takes its own, possibly older, state
  (\<open>seen\<close>, \<open>before\<close>): whatever a rival committed in between is covered by every property that
  quantifies over it. Clock readings, generated identifiers and uuids are arguments. Money is
  integer cents, quantities (\<open>Decimal\<close> with three places) are rationals, instants are integers,
  JSON is the datatype \<open>json\<close> of \<open>Prelude\<close> with integer numbers. Strings are ASCII.

  Theories and code.
  \<open>Prelude\<close>: results, JSON, dictionaries, Python's string helpers, tables, the stamp of the
  acting device (\<open>utils/acting_device.py\<close>). \<open>Machines\<close>: the shared interfaces as locales, a
  status machine given by its table, a ranked machine, an append-only ledger; they are
  interpreted on payment intents, holds, orders, fulfilments and on the three ledgers.

  \<open>Payman\<close>, \<open>PaymanRecon\<close>: \<open>payman/models\<close> and every verb of \<open>PaymentService\<close>;
  \<open>PaymanLaws\<close> and \<open>PaymanReconLaws\<close> prove the invariant kept verb by verb and phase by phase;
  \<open>PaymanProps\<close> and \<open>PaymanGateway\<close> hold the properties (money is conserved in every reachable
  store, refunds stay within what was captured, retries are answered without effect, the ledger
  only grows, what a snapshot does to the totals).

  \<open>Cashman\<close>, \<open>CashmanLaws\<close>, \<open>CashmanProps\<close>, \<open>CashmanChange\<close>: the shift, its book of signed
  entries, the blind closing and its audited correction, sales recorded once, the requests of
  change folded from the book.

  \<open>Stockman\<close> (quants, moves, movements), \<open>StockRead\<close> (shelf life, scope, availability),
  \<open>StockHolds\<close> (holds and planning), \<open>StockQueries\<close> (inventory and shelf history) with their laws
  in \<open>StockLaws\<close>, \<open>StockHoldLaws\<close>, \<open>StockRealize\<close>; \<open>StockRuns\<close> is the step relation of the
  kernel, and \<open>StockProps\<close>, \<open>StockLife\<close>, \<open>StockReadProps\<close>, \<open>StockPlanProps\<close> the properties: the
  cached quantity is the sum of the ledger, no quant is oversold, a hold moves along its machine
  and takes the batch that expires first, the reading of many SKUs agrees with the single one,
  the sweep ends and releases exactly what expired.

  \<open>Orderman\<close>: the status machine, sealed fields, saving of possibly stale instances, the numbered
  log and its retry, fulfilments; \<open>OrderLaws\<close>, \<open>OrderRuns\<close>, \<open>OrderProps\<close>: the log of an order
  tells its whole status history, every move is one of its table, a transition does exactly what
  its guards allow. \<open>OrderDispatch\<close>: directives, claims, the dispatcher and the worker;
  \<open>OrderWorkers\<close> interleaves their transactions and \<open>OrderQueueProps\<close> shows that a worker whose
  claim the reaper took, or that was followed by a later claim, never writes and that attempts
  stay bounded. The clock of \<open>OrderWorkers\<close> moves at every claim, so that two claims never carry
  the same instant; the code compares the instants of \<open>timezone.now\<close> and relies on the same. \<open>OrderSession\<close>: the session, its
  operations, \<open>modify_session\<close>, \<open>move_lines\<close>, checks and issues; \<open>OrderSessionLaws\<close> and
  \<open>OrderSessionProps\<close> their laws. \<open>OrderCommit\<close>: the commit; \<open>OrderCommitLaws\<close> and
  \<open>OrderCommitRuns\<close> the invariant of the whole sales kernel under any sequence of openings,
  modifications, moves, checks, commits and status changes; \<open>OrderCommitProps\<close> its properties:
  what is sealed is what was reviewed, and a session has one order for ever.

  \<open>Numerals\<close>: Python's \<open>Decimal\<close> as a coefficient with its places, its text and its parsing, the
  rounding of a column and of the default context of 28 digits. \<open>Sequences\<close>: numbered logs.
  \<open>Craftsman\<close> (recipes, work orders, planning), \<open>CraftOps\<close> (adjust, start with its guards, steps,
  void) and \<open>CraftFinish\<close> (the closing of an order by a number or by parts, the materials, the
  ledger of items) translate \<open>craftsman/models\<close>, \<open>services/scheduling.py\<close> and
  \<open>services/execution.py\<close>. \<open>CraftLaws\<close> states the contract of every command over an abstract
  machine that reads the audit log, \<open>CraftRuns\<close> closes it over the runs of the kernel,
  \<open>CraftReplay\<close> shows what a keyed command leaves behind, \<open>CraftBakery\<close> is a day of work on which
  \<open>CraftProps\<close> and \<open>CraftFinishProps\<close> are applied: the log is the state, one command per revision,
  repetition without effect, the batch is accounted for, a finish requires (and, when the caller
  lists nothing else, consumes) the recipe of the day the order was planned.
  \<open>CraftStock\<close> is \<open>craftsman/contrib/stockman/handlers.py\<close>, where the two kernels meet: a finish
  takes the ingredients out of the stock and puts the output on the shelf, each leg once under
  a stamp. \<open>CraftStockProps\<close> shows the legs run once, \<open>CraftStockLedger\<close> what they do to the ledger
  of moves, and \<open>CraftStockDay\<close> evaluates a day, with the stamp that a missing shelf leaves out.

  \<open>DoorCodes\<close>: the one-time codes of \<open>doorman\<close> (\<open>models/verification_code.py\<close>, \<open>gates.py\<close>,
  \<open>services/verification.py\<close>) and the contact codes of \<open>shop/services/auth.py\<close>. The first
  phase of a request takes no lock on the codes: its gates and its update read tables committed
  earlier (\<open>door_reads\<close>), and only the row of the owner of the target, when it has one, makes
  requests wait for one another. \<open>DoorCodeProps\<close> interleaves the transactions, each phase of a
  request on its own, for any set \<open>S\<close> of targets that are serialised in this way; it bounds the
  guesses against a code, for a target of \<open>S\<close> those against the target and its live codes, shows
  that two overlapping requests for a target nobody owns leave two live codes, that a spent code
  never comes back and that a login judges one code.

  \<open>Monetary\<close>: cents, quantities and rounding (\<open>utils/monetary.py\<close>). \<open>Promotions\<close>: promotions,
  coupons, advantages of groups, delivery zones and bands, unit prices of the catalogue
  (\<open>shop/policies\<close>, \<open>shop/services/promotions.py\<close>, \<open>shop/models\<close>, \<open>offerman/service.py\<close>). \<open>Pricing\<close>
  and \<open>CartPricing\<close>: the modifiers that run after every change of a session (\<open>shop/modifiers.py\<close>,
  \<open>shop/handlers/pricing.py\<close>): lines and records, the spreading of a discount of the order, the
  lots, the discount modifier, the time window, the delivery fee, the points, the operator's
  discount and the total, composed in their order by \<open>reprice\<close>, which takes the list of the channel;
  the properties are about the default channel, where all of them run. \<open>PricingSpread\<close> shows that a spread
  discount is exact, \<open>PricingForget\<close> that a pass does not see the prices of the one before,
  \<open>PricingLines\<close> what every modifier keeps of a line, \<open>PricingRecords\<close> and \<open>PricingLedger\<close> that the
  records of the session add up to what is taken off its lines, \<open>PricingBest\<close> that a line pays
  the list price less the largest offer, \<open>PricingTotals\<close> the fee and the discounts of the order;
  \<open>PricingProps\<close> holds the properties and a cart on which they are applied.

  Bounds and fuel. Recursion is structural everywhere but in the sweep of expired holds, whose
  loop has a measure (the holds still expired) and needs a batch size above zero, as in the code,
  and in the three loops that spread a discount, whose measures are the cut per unit, the price
  left to cut and the cents left to give.
  The retry of a sequence number is bounded by the code (6 attempts), the choice of an order
  reference too (5). The loop of the watching worker is a sequence of \<open>worker_run\<close> calls.

  Parameters. The catalogue behind \<open>SkuValidator\<close>, the customer fence, registered modifiers,
  validators, checks, handlers and resolvers, SHA-256, \<open>fromisoformat\<close>, the local calendar, the
  generators of references and line ids, the demand and inventory backends and the settings of
  the production kernel (\<open>craft_env\<close>, \<open>leg_env\<close>), what pricing reads of the shop (\<open>house\<close>: its tables,
  clock, labels, geocoder) are arguments of the definitions that use them; what a
  property needs of them is a named hypothesis (\<open>modifiers_keep_session\<close>: a modifier leaves the
  key, state and revision of the session alone; \<open>scope_unique\<close>: no other session shares the
  digest of this one's receipt scope; \<open>fresh_line_ids\<close>: generated line ids are new).

  Not modelled: adapters to payment providers and marketplaces, Django admin, HTTP views and
  serializers, projections for screens, management commands other than the worker, the front
  ends, the seeds and the migrations: they read, render or call what is modelled. The reads
  of \<open>craftsman\<close> for planning screens and its recipe book are not modelled either. The packages
  \<open>refs\<close>, \<open>buyman\<close>, \<open>fiscalman\<close>, the customers and loyalty of \<open>guestman\<close>, the rest of \<open>doorman\<close>
  and of \<open>offerman\<close>, and the lifecycle and services of \<open>shopman/shop\<close> are not modelled: they
  integrate the kernels above or edit their tables. Prices of a past instant, which only the
  review of offline sales asks for, are not either.
\<close>

end
